(* ===== verification/Prelude.thy ===== *)
theory Prelude
  imports Main "HOL-Library.Multiset"
begin

section \<open>Shared vocabulary: Python values, tables, reachability\<close>

text \<open>
  What every component of the development uses: the Python operations the sources call on
  strings and optional integers, SQL's \<open>UPDATE ... WHERE\<close> and \<open>SELECT ... LIMIT 1\<close> on a
  table held as a list of rows, results that carry an error as the left of a sum, and the
  reachable states of a step relation with the interface through which a component proves an
  invariant of them.

  Text is Isabelle's \<open>string\<close>: a character stands for a code point below 256, so the model's
  \<open>str\<close> covers the Latin-1 repertoire.  Instants are integers (microseconds since an epoch).
\<close>

type_synonym instant = int
type_synonym user_id = int

text \<open>Collections of rewrite rules: evaluation of the Python helpers, of the SQL helpers, and
  the definitions a whole component unfolds together.\<close>

named_theorems py_eval
named_theorems sql_simps
named_theorems guard_defs

subsection \<open>Python strings and truth values\<close>

definition py_space :: "char \<Rightarrow> bool" where
  "py_space c \<longleftrightarrow> (of_char c :: nat) \<in> {9, 10, 11, 12, 13, 28, 29, 30, 31, 32, 133, 160}"

text \<open>\<open>str.strip()\<close>: white space removed at both ends.\<close>

definition py_strip :: "string \<Rightarrow> string" where
  "py_strip s = rev (dropWhile py_space (rev (dropWhile py_space s)))"

text \<open>\<open>str.lower()\<close> on one character: the upper-case ASCII and Latin-1 letters move by 32.\<close>

definition py_lower_char :: "char \<Rightarrow> char" where
  "py_lower_char c =
     (let n = (of_char c :: nat)
      in if 65 \<le> n \<and> n \<le> 90 \<or> 192 \<le> n \<and> n \<le> 222 \<and> n \<noteq> 215 then char_of (n + 32) else c)"

definition py_lower :: "string \<Rightarrow> string" where
  "py_lower s = map py_lower_char s"

text \<open>\<open>s.split(sep)\<close> for a one-character separator.\<close>

fun py_split :: "char \<Rightarrow> string \<Rightarrow> string list" where
  "py_split sep [] = [[]]"
| "py_split sep (c # s) =
     (if c = sep then [] # py_split sep s
      else case py_split sep s of [] \<Rightarrow> [[c]] | w # ws \<Rightarrow> (c # w) # ws)"

text \<open>\<open>a or b\<close> on optional integers: \<open>None\<close> and 0 are falsy.\<close>

definition py_or_int :: "int option \<Rightarrow> int option \<Rightarrow> int option" where
  "py_or_int a b = (case a of Some x \<Rightarrow> if x \<noteq> 0 then Some x else b | None \<Rightarrow> b)"

text \<open>Truth value of an optional string: \<open>None\<close> and the empty string are falsy.\<close>

definition py_truthy_str :: "string option \<Rightarrow> bool" where
  "py_truthy_str s = (case s of None \<Rightarrow> False | Some t \<Rightarrow> t \<noteq> [])"

lemma py_or_int_simps [simp, py_eval]:
  "py_or_int None b = b"
  "py_or_int (Some 0) b = b"
  "x \<noteq> 0 \<Longrightarrow> py_or_int (Some x) b = Some x"
  by (simp_all add: py_or_int_def)

lemma py_truthy_str_simps [simp, py_eval]:
  "\<not> py_truthy_str None"
  "py_truthy_str (Some t) \<longleftrightarrow> t \<noteq> []"
  by (simp_all add: py_truthy_str_def)

lemma py_split_nonempty [simp]: "py_split sep s \<noteq> []"
  by (induction s) (auto split: list.splits)

text \<open>Stripping is idempotent: neither end of a stripped text is white space.\<close>

lemma dropWhile_idem [simp]: "dropWhile P (dropWhile P xs) = dropWhile P xs"
  by (induction xs) auto

lemma dropWhile_rev_stable:
  assumes "dropWhile P xs = xs"
  shows "dropWhile P (rev (dropWhile P (rev xs))) = rev (dropWhile P (rev xs))"
proof (cases xs)
  case Nil
  then show ?thesis by simp
next
  case (Cons x ys)
  with assms have nx: "\<not> P x"
    by (metis dropWhile_eq_self_iff list.sel(1) list.distinct(1))
  have "dropWhile P (rev xs) = dropWhile P (rev ys @ [x])"
    using Cons by simp
  also have "\<dots> = dropWhile P (rev ys) @ [x] \<or> dropWhile P (rev ys @ [x]) = [x]"
    using nx by (auto simp: dropWhile_append dropWhile_eq_Nil_conv)
  finally obtain zs where "dropWhile P (rev xs) = zs @ [x]"
    using nx by (cases "\<forall>y\<in>set (rev ys). P y") (auto simp: dropWhile_append Cons)
  then show ?thesis using nx by simp
qed

lemma py_strip_idem [simp]: "py_strip (py_strip s) = py_strip s"
  unfolding py_strip_def
  by (subst dropWhile_rev_stable) simp_all

lemma py_strip_cong_nil: "py_strip [] = []"
  by (simp add: py_strip_def)

subsection \<open>Tables as lists of rows\<close>

text \<open>\<open>UPDATE t SET f WHERE P\<close>, its \<open>rowcount\<close>, and \<open>SELECT ... LIMIT 1\<close>
  in the table's order.\<close>

definition upd_where :: "('a \<Rightarrow> bool) \<Rightarrow> ('a \<Rightarrow> 'a) \<Rightarrow> 'a list \<Rightarrow> 'a list" where
  "upd_where P f rows = map (\<lambda>r. if P r then f r else r) rows"

definition row_count :: "('a \<Rightarrow> bool) \<Rightarrow> 'a list \<Rightarrow> nat" where
  "row_count P rows = length (filter P rows)"

definition first_row :: "('a \<Rightarrow> bool) \<Rightarrow> 'a list \<Rightarrow> 'a option" where
  "first_row P rows = List.find P rows"

text \<open>\<open>ORDER BY key LIMIT 1\<close>: the earliest row among those with the least key.\<close>

fun least_row :: "('a \<Rightarrow> int) \<Rightarrow> 'a list \<Rightarrow> 'a option" where
  "least_row key [] = None"
| "least_row key (r # rs) =
     (case least_row key rs of
        None \<Rightarrow> Some r
      | Some s \<Rightarrow> if key r \<le> key s then Some r else Some s)"

lemma length_upd_where [simp]: "length (upd_where P f rows) = length rows"
  by (simp add: upd_where_def)

lemma upd_where_Nil [simp, sql_simps]: "upd_where P f [] = []"
  by (simp add: upd_where_def)

lemma upd_where_Cons [sql_simps]:
  "upd_where P f (r # rows) = (if P r then f r else r) # upd_where P f rows"
  by (simp add: upd_where_def)

lemma upd_where_append [sql_simps]:
  "upd_where P f (xs @ ys) = upd_where P f xs @ upd_where P f ys"
  by (simp add: upd_where_def)

lemma set_upd_where:
  "set (upd_where P f rows) = f ` {r \<in> set rows. P r} \<union> {r \<in> set rows. \<not> P r}"
  by (auto simp: upd_where_def image_iff)

lemma map_upd_where:
  "(\<And>r. P r \<Longrightarrow> g (f r) = g r) \<Longrightarrow> map g (upd_where P f rows) = map g rows"
  by (induction rows) (auto simp: sql_simps)

lemma upd_where_none:
  "row_count P rows = 0 \<Longrightarrow> upd_where P f rows = rows"
  by (induction rows) (auto simp: sql_simps row_count_def split: if_splits)

lemma row_count_Nil [simp, sql_simps]: "row_count P [] = 0"
  by (simp add: row_count_def)

lemma row_count_Cons [sql_simps]:
  "row_count P (r # rows) = (if P r then Suc (row_count P rows) else row_count P rows)"
  by (simp add: row_count_def)

lemma row_count_append [sql_simps]:
  "row_count P (xs @ ys) = row_count P xs + row_count P ys"
  by (simp add: row_count_def)

lemma row_count_zero_iff: "row_count P rows = 0 \<longleftrightarrow> (\<forall>r\<in>set rows. \<not> P r)"
  by (auto simp: row_count_def filter_empty_conv)

lemma row_count_pos_iff: "0 < row_count P rows \<longleftrightarrow> (\<exists>r\<in>set rows. P r)"
  by (auto simp: row_count_def filter_empty_conv)

lemma row_count_upd_where:
  "row_count Q (upd_where P f rows) =
     row_count (\<lambda>r. if P r then Q (f r) else Q r) rows"
  by (induction rows) (auto simp: sql_simps)

lemma row_count_mono:
  "(\<And>r. r \<in> set rows \<Longrightarrow> P r \<Longrightarrow> Q r) \<Longrightarrow> row_count P rows \<le> row_count Q rows"
  by (induction rows) (auto simp: sql_simps le_Suc_eq)

lemma row_count_cong:
  "(\<And>r. r \<in> set rows \<Longrightarrow> P r = Q r) \<Longrightarrow> row_count P rows = row_count Q rows"
  by (induction rows) (auto simp: sql_simps)

lemma first_row_Some:
  "first_row P rows = Some r \<Longrightarrow> r \<in> set rows \<and> P r"
  by (induction rows) (auto simp: first_row_def split: if_splits)

lemma first_row_None: "first_row P rows = None \<longleftrightarrow> (\<forall>r\<in>set rows. \<not> P r)"
  by (auto simp: first_row_def find_None_iff)

lemma first_row_Nil [simp, sql_simps]: "first_row P [] = None"
  by (simp add: first_row_def)

lemma first_row_Cons [sql_simps]:
  "first_row P (r # rows) = (if P r then Some r else first_row P rows)"
  by (simp add: first_row_def)

lemma first_row_append [sql_simps]:
  "first_row P (xs @ ys) =
     (case first_row P xs of Some r \<Rightarrow> Some r | None \<Rightarrow> first_row P ys)"
  by (induction xs) (auto simp: sql_simps)

lemma first_row_upd_where:
  "(\<And>r. Q (if P r then f r else r) = Q r) \<Longrightarrow>
   first_row Q (upd_where P f rows) =
     map_option (\<lambda>r. if P r then f r else r) (first_row Q rows)"
  by (induction rows) (auto simp: sql_simps)

lemma least_row_None [simp]: "least_row key rows = None \<longleftrightarrow> rows = []"
  by (cases rows) (auto split: option.splits)

lemma least_row_Some:
  "least_row key rows = Some r \<Longrightarrow> r \<in> set rows \<and> (\<forall>s\<in>set rows. key r \<le> key s)"
proof (induction rows arbitrary: r)
  case (Cons a rows)
  then show ?case
    by (cases "least_row key rows") (auto split: if_splits)
qed simp

subsection \<open>Results with errors\<close>

text \<open>Sequencing of two steps of which the first may raise.\<close>

definition res_bind :: "'e + 'a \<Rightarrow> ('a \<Rightarrow> 'e + 'b) \<Rightarrow> 'e + 'b" where
  "res_bind m f = (case m of Inl e \<Rightarrow> Inl e | Inr x \<Rightarrow> f x)"

lemma res_bind_simps [simp]:
  "res_bind (Inl e) f = Inl e"
  "res_bind (Inr x) f = f x"
  by (simp_all add: res_bind_def)

lemma res_bind_Inr_iff:
  "res_bind m f = Inr y \<longleftrightarrow> (\<exists>x. m = Inr x \<and> f x = Inr y)"
  by (cases m) auto

lemma res_bind_InrE [elim]:
  assumes "res_bind m f = Inr y"
  obtains x where "m = Inr x" "f x = Inr y"
  using assms by (auto simp: res_bind_Inr_iff)

subsection \<open>Reachable states and invariants\<close>

text \<open>
  The states a system reaches from its initial states by its steps.  A component that keeps a
  predicate interprets the interface below on its own step relation; the client then gets the
  predicate in every reachable state.
\<close>

inductive reach :: "('s \<Rightarrow> bool) \<Rightarrow> ('s \<Rightarrow> 's \<Rightarrow> bool) \<Rightarrow> 's \<Rightarrow> bool"
  for ini :: "'s \<Rightarrow> bool" and step :: "'s \<Rightarrow> 's \<Rightarrow> bool" where
  reach_init: "ini s \<Longrightarrow> reach ini step s"
| reach_step: "reach ini step s \<Longrightarrow> step s t \<Longrightarrow> reach ini step t"

locale preserved =
  fixes ini :: "'s \<Rightarrow> bool"
    and step :: "'s \<Rightarrow> 's \<Rightarrow> bool"
    and inv :: "'s \<Rightarrow> bool"
  assumes inv_init: "ini s \<Longrightarrow> inv s"
    and inv_step: "inv s \<Longrightarrow> step s t \<Longrightarrow> inv t"
begin

lemma inv_reach: "reach ini step s \<Longrightarrow> inv s"
  by (induction rule: reach.induct) (blast intro: inv_init inv_step)+

lemma inv_closed: "step\<^sup>*\<^sup>* s t \<Longrightarrow> inv s \<Longrightarrow> inv t"
  by (induction rule: rtranclp_induct) (auto intro: inv_step)

end

text \<open>A preorder that every step respects is respected along every run.\<close>

locale monotone_steps =
  fixes step :: "'s \<Rightarrow> 's \<Rightarrow> bool"
    and rel :: "'s \<Rightarrow> 's \<Rightarrow> bool"
  assumes rel_refl: "rel s s"
    and rel_trans: "rel s t \<Longrightarrow> rel t u \<Longrightarrow> rel s u"
    and rel_step: "step s t \<Longrightarrow> rel s t"
begin

lemma rel_run: "step\<^sup>*\<^sup>* s t \<Longrightarrow> rel s t"
  by (induction rule: rtranclp_induct) (blast intro: rel_refl rel_trans rel_step)+

end

text \<open>Both together: the steps respect the preorder where the invariant holds.\<close>

locale evolving = preserved +
  fixes rel :: "'a \<Rightarrow> 'a \<Rightarrow> bool"
  assumes later_refl: "rel s s"
    and later_trans: "rel s t \<Longrightarrow> rel t u \<Longrightarrow> rel s u"
    and later_step: "inv s \<Longrightarrow> step s t \<Longrightarrow> rel s t"
begin

lemma later_run: "step\<^sup>*\<^sup>* s t \<Longrightarrow> inv s \<Longrightarrow> rel s t \<and> inv t"
proof (induction rule: rtranclp_induct)
  case base
  then show ?case using later_refl by blast
next
  case (step t u)
  then have rt: "rel s t" and it: "inv t" by blast+
  show ?case using later_trans [OF rt later_step [OF it step.hyps(2)]] inv_step [OF it step.hyps(2)] by blast
qed

end

end
