(* ===== verification/RequestTypes.thy ===== *)
theory RequestTypes
  imports Prelude
begin

section \<open>Data of the request workflow\<close>

text \<open>
  Models \<open>utils/request_workflow/types.py\<close>, \<open>projections.py\<close> and the constants they use:
  the nine canonical statuses, the actions, principals and actors, the request snapshot the pure
  core decides on, and the two projections of a status to the outside.  The Cyrillic status
  texts of the source are the constructors of \<open>status\<close>; a legacy row may hold any other text,
  which is \<open>St_Other\<close>.
\<close>

datatype status =
    St_New | St_InProgress | St_Purchase | St_Clarification | St_Executed | St_Completed
  | St_Returned | St_Approved | St_Cancelled | St_Other string

definition canon_statuses :: "status list" where
  "canon_statuses =
     [St_New, St_InProgress, St_Purchase, St_Clarification, St_Executed, St_Completed,
      St_Returned, St_Approved, St_Cancelled]"

definition terminal_statuses :: "status list" where
  "terminal_statuses = [St_Approved, St_Cancelled]"

definition is_terminal :: "status \<Rightarrow> bool" where
  "is_terminal s \<longleftrightarrow> s \<in> set terminal_statuses"

lemma is_terminal_iff: "is_terminal s \<longleftrightarrow> s = St_Approved \<or> s = St_Cancelled"
  by (auto simp: is_terminal_def terminal_statuses_def)

subsection \<open>Python values of a payload\<close>

text \<open>A value of a payload or of a column.  \<open>VObj t s\<close> is any other object, with its truth
  value and its \<open>str()\<close>; \<open>VStatus\<close> is the text of a status column or of an event, the texts
  of a payload are \<open>VStr\<close>.\<close>

datatype pyval =
    VNone | VBool bool | VInt int | VStr string | VStatus status | VTime instant
  | VList "pyval list" | VObj bool string

type_synonym payload = "(string \<times> pyval) list"

fun py_truthy :: "pyval \<Rightarrow> bool" where
  "py_truthy VNone = False"
| "py_truthy (VBool b) = b"
| "py_truthy (VInt i) = (i \<noteq> 0)"
| "py_truthy (VStr s) = (s \<noteq> [])"
| "py_truthy (VStatus s) = True"
| "py_truthy (VTime t) = True"
| "py_truthy (VList vs) = (vs \<noteq> [])"
| "py_truthy (VObj b s) = b"

text \<open>\<open>payload.get(key)\<close>: \<open>None\<close> for an absent key.\<close>

definition pget :: "payload \<Rightarrow> string \<Rightarrow> pyval" where
  "pget p key = (case map_of p key of None \<Rightarrow> VNone | Some v \<Rightarrow> v)"

definition pget_or_empty_list :: "payload \<Rightarrow> string \<Rightarrow> pyval" where
  "pget_or_empty_list p key = (if py_truthy (pget p key) then pget p key else VList [])"

datatype pytype = TInt | TStr | TList

text \<open>\<open>isinstance\<close>; a Python \<open>bool\<close> is an \<open>int\<close>.\<close>

fun isinstance :: "pyval \<Rightarrow> pytype \<Rightarrow> bool" where
  "isinstance (VInt i) t = (t = TInt)"
| "isinstance (VBool b) t = (t = TInt)"
| "isinstance (VStr s) t = (t = TStr)"
| "isinstance (VStatus s) t = False"
| "isinstance (VList vs) t = (t = TList)"
| "isinstance VNone t = False"
| "isinstance (VTime i) t = False"
| "isinstance (VObj b s) t = False"

subsection \<open>Errors\<close>

datatype payload_error =
    MissingRequired string | WrongType string | BlankField string | UnexpectedField string
  | UnknownSpecialization string

datatype workflow_error =
    InvalidTransition | NotAuthorized | PayloadInvalid payload_error | RepeatRejected
  | RepeatConflict | EditForbidden | RequestNotFound | WorkflowFault string
  | IntegrityError string | ColumnTypeError string

subsection \<open>Actions\<close>

datatype action =
    SYSTEM_DISPATCH_ASSIGN | ASSIGN_GROUP | MANAGER_ASSIGN | EXECUTOR_PURCHASE
  | MANAGER_PURCHASE | MANAGER_PURCHASE_DONE | CLARIFY_REQUEST | CLARIFY_RESOLVED
  | EXECUTOR_RESUME | EXECUTOR_CLAIM | SYSTEM_AUTO_PROMOTE | EXECUTOR_COMPLETE
  | MANAGER_COMPLETE | MANAGER_CONFIRM | MANAGER_RETURN_TO_WORK | APPLICANT_ACCEPT
  | APPLICANT_RETURN | MANAGER_FORCE_ACCEPT | CANCEL

definition all_actions :: "action list" where
  "all_actions =
     [SYSTEM_DISPATCH_ASSIGN, ASSIGN_GROUP, MANAGER_ASSIGN, EXECUTOR_PURCHASE,
      MANAGER_PURCHASE, MANAGER_PURCHASE_DONE, CLARIFY_REQUEST, CLARIFY_RESOLVED,
      EXECUTOR_RESUME, EXECUTOR_CLAIM, SYSTEM_AUTO_PROMOTE, EXECUTOR_COMPLETE,
      MANAGER_COMPLETE, MANAGER_CONFIRM, MANAGER_RETURN_TO_WORK, APPLICANT_ACCEPT,
      APPLICANT_RETURN, MANAGER_FORCE_ACCEPT, CANCEL]"

lemma all_actions_complete [simp]: "a \<in> set all_actions"
  by (cases a) (simp_all add: all_actions_def)

lemma all_actions_distinct: "distinct all_actions"
  by (simp add: all_actions_def)

datatype repeat_policy = REJECT | NO_OP_IF_SAME | REPEATABLE

datatype patch_op = SET | CLEAR | SET_ACTOR | SET_NOW | APPEND

subsection \<open>Principals, actors, snapshots\<close>

datatype principal_kind = User | System

record principal_ref =
  pr_kind :: principal_kind
  pr_user_id :: "user_id option"
  pr_source :: string
  pr_system_actor :: "string option"

text \<open>\<open>PrincipalRef.__post_init__\<close>: the constructor raises \<open>ValueError\<close> unless this
  holds.\<close>

definition principal_ok :: "principal_ref \<Rightarrow> bool" where
  "principal_ok p \<longleftrightarrow>
     (pr_kind p = System \<longrightarrow> py_truthy_str (pr_system_actor p)) \<and>
     (pr_kind p = User \<longrightarrow> pr_user_id p \<noteq> None)"

record actor_context =
  ac_kind :: principal_kind
  ac_user_id :: "user_id option"
  ac_system_actor :: "string option"
  ac_roles :: "string set"
  ac_active_role :: "string option"
  ac_apartments :: "int set"
  ac_specializations :: "string set"

definition acceptance_mode_resident :: string where
  "acceptance_mode_resident = ''resident''"

definition acceptance_mode_manager :: string where
  "acceptance_mode_manager = ''manager''"

record request_state =
  rs_number :: string
  rs_user_id :: user_id
  rs_status :: status
  rs_manager_confirmed :: bool
  rs_is_returned :: bool
  rs_apartment_id :: "int option"
  rs_executor_id :: "user_id option"
  rs_acceptance_mode :: string

record workflow_snapshot =
  sn_request :: request_state
  sn_has_rating :: bool
  sn_assignment_executor :: "user_id option"
  sn_on_shift :: bool
  sn_assignment_type :: "string option"
  sn_assignment_group :: "string option"
  sn_unclaimed :: bool

record action_command =
  cmd_id :: string
  cmd_action :: action
  cmd_payload :: payload

record legacy_status_intent =
  in_id :: string
  in_target :: status
  in_payload :: payload

subsection \<open>What a plan consists of\<close>

text \<open>The columns of a request row a patch may set.\<close>

datatype field =
    F_status | F_executor_id | F_assignment_type | F_assigned_group | F_assigned_at
  | F_assigned_by | F_requested_materials | F_manager_materials_comment | F_completion_report
  | F_completion_media | F_is_returned | F_notes | F_manager_confirmed
  | F_manager_confirmed_by | F_manager_confirmed_at | F_manager_confirmation_notes
  | F_manager_return_reason | F_return_reason | F_return_media | F_returned_at | F_returned_by
  | F_completed_at

type_synonym patch = "(field \<times> patch_op \<times> pyval) list"

datatype domain_op =
    CreateRating pyval | CancelActiveAssignments | CreateAssignment payload
  | ClaimGroupAssignment | PromoteGroupAssignment pyval

text \<open>\<open>principal.user_id or principal.system_actor\<close>.\<close>

datatype principal_id = PidNone | PidUser user_id | PidSystem string

record audit_data =
  au_action :: action
  au_old_canon :: status
  au_new_canon :: status
  au_old_raw :: status
  au_principal_kind :: principal_kind
  au_principal_id :: principal_id
  au_source :: string
  au_payload :: payload

datatype event_intent =
    EvAudit audit_data
  | EvWebhook string status status
  | EvRealtime string status
  | EvNotify action string

record transition_result =
  tr_old_state :: request_state
  tr_new_canon :: status
  tr_patch :: patch
  tr_domain_ops :: "domain_op list"
  tr_events :: "event_intent list"
  tr_no_op :: bool

subsection \<open>Dual-read normalization and projections\<close>

definition normalize_status :: "request_state \<Rightarrow> status" where
  "normalize_status st =
     (if rs_status st = St_Completed \<and> rs_is_returned st then St_Returned
      else if rs_status st = St_Executed \<and> rs_manager_confirmed st \<and> \<not> rs_is_returned st
      then St_Completed
      else rs_status st)"

definition project_public_status :: "request_state \<Rightarrow> status" where
  "project_public_status st =
     (let canon = normalize_status st in if canon = St_Returned then St_Completed else canon)"

definition project_infrasafe_status :: "request_state \<Rightarrow> status" where
  "project_infrasafe_status st = project_public_status st"

lemma normalize_in_canon:
  "rs_status st \<in> set canon_statuses \<Longrightarrow> normalize_status st \<in> set canon_statuses"
  by (simp add: normalize_status_def canon_statuses_def)

text \<open>The flag combinations on which the two encodings agree: the stored status is the
  canonical one.\<close>

definition flags_canonical :: "request_state \<Rightarrow> bool" where
  "flags_canonical st \<longleftrightarrow>
     (rs_is_returned st \<longrightarrow> rs_status st \<in> {St_Returned, St_Cancelled}) \<and>
     (rs_manager_confirmed st \<longrightarrow> rs_status st \<in> {St_Completed, St_Approved, St_Cancelled})"

lemma normalize_canonical_flags:
  "flags_canonical st \<Longrightarrow> normalize_status st = rs_status st"
  by (auto simp: flags_canonical_def normalize_status_def)

lemma project_public_never_returned: "project_public_status st \<noteq> St_Returned"
  by (simp add: project_public_status_def Let_def)

end
