(* ===== verification/PyJson.thy ===== *)
theory PyJson
  imports Prelude
begin

section \<open>The fragment of Python's \<open>json.loads\<close> that stored role and skill columns use\<close>

text \<open>
  The role and specialization columns are text that may hold a JSON array.  This theory is the
  part of \<open>json.loads\<close> those columns use: a top-level scalar or an array of scalars, a scalar
  being \<open>null\<close>, a truth value, a decimal integer or a string with the two-character escapes.
  A text outside the fragment (fractions, objects, nested arrays, \<open>\u\<close> escapes) is treated like
  a text that is not JSON.  \<open>json_dumps_strs\<close> is what \<open>json.dumps\<close> writes for a list of
  strings that need no escape, and \<open>json_loads_dumps\<close> reads it back.
\<close>

datatype jscalar = JNull | JBool bool | JInt int | JStr string

datatype jval = JScalar jscalar | JList "jscalar list"

definition json_is_ws :: "char \<Rightarrow> bool" where
  "json_is_ws c \<longleftrightarrow> (of_char c :: nat) \<in> {9, 10, 13, 32}"

definition json_ws :: "string \<Rightarrow> string" where
  "json_ws s = dropWhile json_is_ws s"

definition quote_char :: char where
  "quote_char = CHR 0x22"

definition backslash_char :: char where
  "backslash_char = CHR 0x5C"

definition json_escape :: "char \<Rightarrow> char option" where
  "json_escape c =
     (if c = quote_char \<or> c = backslash_char \<or> c = CHR ''/'' then Some c
      else if c = CHR ''n'' then Some (CHR 0x0A)
      else if c = CHR ''t'' then Some (CHR 0x09)
      else if c = CHR ''r'' then Some (CHR 0x0D)
      else if c = CHR ''b'' then Some (CHR 0x08)
      else if c = CHR ''f'' then Some (CHR 0x0C)
      else None)"

text \<open>The body of a string literal, after its opening quote.\<close>

fun json_str_body :: "string \<Rightarrow> (string \<times> string) option" where
  "json_str_body [] = None"
| "json_str_body (c # s) =
     (if c = quote_char then Some ([], s)
      else if c = backslash_char then
        (case s of
           [] \<Rightarrow> None
         | e # s' \<Rightarrow>
             (case json_escape e of
                None \<Rightarrow> None
              | Some d \<Rightarrow> map_option (\<lambda>(t, r). (d # t, r)) (json_str_body s')))
      else if (of_char c :: nat) < 32 then None
      else map_option (\<lambda>(t, r). (c # t, r)) (json_str_body s))"

definition is_digit :: "char \<Rightarrow> bool" where
  "is_digit c \<longleftrightarrow> 48 \<le> (of_char c :: nat) \<and> (of_char c :: nat) \<le> 57"

definition digit_val :: "char \<Rightarrow> int" where
  "digit_val c = int (of_char c) - 48"

definition digits_val :: "string \<Rightarrow> int" where
  "digits_val ds = foldl (\<lambda>n d. 10 * n + digit_val d) 0 ds"

text \<open>A decimal integer: an optional minus, then 0 or digits without a leading zero.  What
  follows may not continue the number as a fraction.\<close>

definition json_int :: "string \<Rightarrow> (int \<times> string) option" where
  "json_int s =
     (let neg = (s \<noteq> [] \<and> hd s = CHR ''-'');
          body = (if neg then tl s else s);
          ds = takeWhile is_digit body;
          rest = dropWhile is_digit body
      in if ds = [] then None
         else if hd ds = CHR ''0'' \<and> tl ds \<noteq> [] then None
         else if rest \<noteq> [] \<and> hd rest \<in> {CHR ''.'', CHR ''e'', CHR ''E''} then None
         else Some (if neg then - digits_val ds else digits_val ds, rest))"

definition strip_prefix :: "string \<Rightarrow> string \<Rightarrow> string option" where
  "strip_prefix p s = (if take (length p) s = p then Some (drop (length p) s) else None)"

definition json_scalar :: "string \<Rightarrow> (jscalar \<times> string) option" where
  "json_scalar s =
     (if s \<noteq> [] \<and> hd s = quote_char then map_option (\<lambda>(t, r). (JStr t, r)) (json_str_body (tl s))
      else case strip_prefix ''null'' s of
             Some r \<Rightarrow> Some (JNull, r)
           | None \<Rightarrow>
               (case strip_prefix ''true'' s of
                  Some r \<Rightarrow> Some (JBool True, r)
                | None \<Rightarrow>
                    (case strip_prefix ''false'' s of
                       Some r \<Rightarrow> Some (JBool False, r)
                     | None \<Rightarrow> map_option (\<lambda>(n, r). (JInt n, r)) (json_int s))))"

text \<open>The items of an array, after its opening bracket and before an item.  The fuel is the
  number of characters left: every item consumes at least one.\<close>

fun json_items :: "nat \<Rightarrow> string \<Rightarrow> (jscalar list \<times> string) option" where
  "json_items 0 s = None"
| "json_items (Suc n) s =
     (case json_scalar (json_ws s) of
        None \<Rightarrow> None
      | Some (v, r) \<Rightarrow>
          (case json_ws r of
             [] \<Rightarrow> None
           | c # r' \<Rightarrow>
               (if c = CHR '']'' then Some ([v], r')
                else if c = CHR '','' then
                  map_option (\<lambda>(vs, r''). (v # vs, r'')) (json_items n r')
                else None)))"

definition json_loads :: "string \<Rightarrow> jval option" where
  "json_loads text =
     (let s = json_ws text
      in case s of
           [] \<Rightarrow> None
         | c # r \<Rightarrow>
             (if c = CHR ''['' then
                (case json_ws r of
                   [] \<Rightarrow> None
                 | d # r' \<Rightarrow>
                     (if d = CHR '']'' then
                        (if json_ws r' = [] then Some (JList []) else None)
                      else case json_items (length r) r of
                             Some (vs, rest) \<Rightarrow>
                               (if json_ws rest = [] then Some (JList vs) else None)
                           | None \<Rightarrow> None))
              else case json_scalar s of
                     Some (v, rest) \<Rightarrow> (if json_ws rest = [] then Some (JScalar v) else None)
                   | None \<Rightarrow> None))"

text \<open>\<open>str(x)\<close> of a decoded scalar.\<close>

fun nat_str :: "nat \<Rightarrow> string" where
  "nat_str n = (if n < 10 then [char_of (48 + n)] else nat_str (n div 10) @ [char_of (48 + n mod 10)])"

declare nat_str.simps [simp del]

definition int_str :: "int \<Rightarrow> string" where
  "int_str i = (if i < 0 then CHR ''-'' # nat_str (nat (- i)) else nat_str (nat i))"

fun py_str :: "jscalar \<Rightarrow> string" where
  "py_str JNull = ''None''"
| "py_str (JBool True) = ''True''"
| "py_str (JBool False) = ''False''"
| "py_str (JInt n) = int_str n"
| "py_str (JStr s) = s"

subsection \<open>What \<open>json.dumps\<close> writes for plain strings\<close>

definition plain_char :: "char \<Rightarrow> bool" where
  "plain_char c \<longleftrightarrow> c \<noteq> quote_char \<and> c \<noteq> backslash_char \<and> 32 \<le> (of_char c :: nat) \<and> (of_char c :: nat) < 127"

definition plain_str :: "string \<Rightarrow> bool" where
  "plain_str s \<longleftrightarrow> list_all plain_char s"

definition json_quote :: "string \<Rightarrow> string" where
  "json_quote s = quote_char # s @ [quote_char]"

fun json_dumps_tail :: "string list \<Rightarrow> string" where
  "json_dumps_tail [] = '']''"
| "json_dumps_tail (s # ss) = '', '' @ json_quote s @ json_dumps_tail ss"

fun json_dumps_strs :: "string list \<Rightarrow> string" where
  "json_dumps_strs [] = ''[]''"
| "json_dumps_strs (s # ss) = ''['' @ json_quote s @ json_dumps_tail ss"

lemma json_str_body_plain:
  "plain_str s \<Longrightarrow> json_str_body (s @ quote_char # rest) = Some (s, rest)"
  by (induction s) (auto simp: plain_str_def plain_char_def)

lemma json_ws_simps [simp]:
  "json_ws [] = []"
  "json_ws (c # s) = (if json_is_ws c then json_ws s else c # s)"
  by (simp_all add: json_ws_def)

lemma json_is_ws_eval [simp]:
  "\<not> json_is_ws quote_char" "\<not> json_is_ws (CHR '']'')" "\<not> json_is_ws (CHR ''['')"
  "\<not> json_is_ws (CHR '','')" "json_is_ws (CHR '' '')"
  by (simp_all add: json_is_ws_def quote_char_def)

lemma json_ws_quote [simp]: "json_ws (json_quote s @ rest) = json_quote s @ rest"
  by (simp add: json_quote_def)

lemma json_scalar_quote:
  "plain_str s \<Longrightarrow> json_scalar (json_quote s @ rest) = Some (JStr s, rest)"
  using json_str_body_plain [of s rest] by (simp add: json_scalar_def json_quote_def)

lemma json_ws_dumps_tail [simp]: "json_ws (json_dumps_tail ss) = json_dumps_tail ss"
  by (cases ss) simp_all

lemma json_items_space: "json_items n (CHR '' '' # s) = json_items n s"
  by (cases n) simp_all

lemma json_items_dumps:
  "list_all plain_str (s # ss) \<Longrightarrow> length ss < n \<Longrightarrow>
   json_items n (json_quote s @ json_dumps_tail ss) = Some (map JStr (s # ss), [])"
proof (induction ss arbitrary: s n)
  case Nil
  then show ?case by (cases n) (simp_all add: json_scalar_quote)
next
  case (Cons t ts)
  then obtain m where m: "n = Suc m" by (cases n) auto
  have "json_items m (json_quote t @ json_dumps_tail ts) = Some (map JStr (t # ts), [])"
    using Cons m by simp
  then show ?case using Cons.prems m
    by (simp add: json_scalar_quote json_items_space)
qed

lemma length_dumps_tail: "length ss < length (json_dumps_tail ss)"
  by (induction ss) auto

text \<open>Decoding what was encoded gives the strings back.\<close>

lemma json_loads_dumps:
  assumes "list_all plain_str ss"
  shows "json_loads (json_dumps_strs ss) = Some (JList (map JStr ss))"
proof (cases ss)
  case Nil
  then show ?thesis by (simp add: json_loads_def)
next
  case (Cons s rest)
  let ?r = "json_quote s @ json_dumps_tail rest"
  have items: "json_items (length ?r) ?r = Some (map JStr ss, [])"
    using json_items_dumps [of s rest "length ?r"] assms Cons length_dumps_tail [of rest] by simp
  have r: "?r = quote_char # s @ quote_char # json_dumps_tail rest"
    by (simp add: json_quote_def)
  have "json_ws ?r = ?r" "quote_char \<noteq> CHR '']''"
    by (simp_all add: quote_char_def)
  then show ?thesis using items r
    by (simp add: json_loads_def Cons)
qed

subsection \<open>Decimal numerals are injective\<close>

lemma nat_str_digit: "c \<in> set (nat_str n) \<Longrightarrow> is_digit c"
proof (induction n rule: nat_str.induct)
  case (1 n)
  have d: "is_digit (char_of (48 + m))" if "m < 10" for m :: nat
    using that by (auto simp: is_digit_def)
  show ?case
    using 1 by (cases "n < 10") (subst (asm) (2) nat_str.simps, auto intro: d)+
qed

lemma digits_val_snoc: "digits_val (ds @ [d]) = 10 * digits_val ds + digit_val d"
  by (simp add: digits_val_def)

lemma digits_val_nat_str: "digits_val (nat_str n) = int n"
proof (induction n rule: nat_str.induct)
  case (1 n)
  have d: "digit_val (char_of (48 + m)) = int m" if "m < 10" for m :: nat
    using that by (simp add: digit_val_def)
  show ?case
  proof (cases "n < 10")
    case True
    then show ?thesis using d [of n]
      by (subst nat_str.simps) (simp add: digits_val_def)
  next
    case False
    then have "digits_val (nat_str n) = 10 * int (n div 10) + int (n mod 10)"
      using 1 d [of "n mod 10"] by (subst nat_str.simps) (simp add: digits_val_snoc)
    then show ?thesis by presburger
  qed
qed

lemma nat_str_inj: "nat_str m = nat_str n \<Longrightarrow> m = n"
  by (metis digits_val_nat_str of_nat_eq_iff)

lemma nat_str_no_minus: "nat_str m \<noteq> CHR ''-'' # s"
  using nat_str_digit [of "CHR ''-''" m] by (auto simp: is_digit_def)

lemma int_str_inj: "int_str i = int_str j \<Longrightarrow> i = j"
  by (auto simp: int_str_def nat_str_no_minus nat_str_no_minus [symmetric]
      split: if_splits dest!: nat_str_inj)

end
