(* ===== verification/Specializations.thy ===== *)
theory Specializations
  imports PyJson
begin

section \<open>The specialization dictionary and the matching rule\<close>

text \<open>
  Models \<open>constants/specializations.py\<close> and \<open>utils/specializations.py\<close>: the nine
  canonical skills, the legacy aliases, the parser of the three stored encodings (JSON array, CSV,
  bare scalar) and the one predicate that decides whether an executor fits a requirement.
  A raw column value is \<open>raw_value\<close>: nothing, a collection of texts, a text, or another value
  with its \<open>str()\<close>.
\<close>

datatype raw_value = RawNone | RawItems "string list" | RawText string | RawOther string

datatype side = Have | Need

definition canonical_specializations :: "string list" where
  "canonical_specializations =
     [''electrician'', ''plumber'', ''heating'', ''ventilation'', ''elevator'', ''cleaning'',
      ''security'', ''landscaping'', ''repair'']"

definition universal_specialization :: string where
  "universal_specialization = ''universal''"

definition specialization_aliases :: "(string \<times> string list) list" where
  "specialization_aliases =
     [(''electric'', [''electrician'']), (''plumbing'', [''plumber'']),
      (''patrol'', [''security'']), (''hvac'', [''heating'', ''ventilation'']),
      (''maintenance'', [''elevator'']), (''general'', [''repair'']),
      (''installation'', [''repair'']), (''emergency'', [''repair'']),
      (''other'', [''repair'']), (''electricity'', [''electrician'']),
      (''internet'', [''electrician''])]"

definition collapse_to :: "(string \<times> string) list" where
  "collapse_to = [(''hvac'', ''heating'')]"

definition is_canonical :: "string \<Rightarrow> bool" where
  "is_canonical v \<longleftrightarrow> v \<in> set canonical_specializations"

text \<open>\<open>normalize_specialization\<close>; a value that is not a \<open>str\<close> never reaches it
  here, since every caller passes a token of the parser below.\<close>

definition normalize_specialization :: "side \<Rightarrow> string \<Rightarrow> string set" where
  "normalize_specialization sd value =
     (let token = py_lower (py_strip value)
      in if token = [] then {}
         else if is_canonical token then {token}
         else case map_of specialization_aliases token of
                None \<Rightarrow> {}
              | Some resolved \<Rightarrow>
                  (case map_of collapse_to token of
                     Some c \<Rightarrow> if sd = Need then {c} else set resolved
                   | None \<Rightarrow> set resolved))"

text \<open>The non-blank stripped items of a list of texts.\<close>

definition strip_tokens :: "string list \<Rightarrow> string list" where
  "strip_tokens ts = filter (\<lambda>t. t \<noteq> []) (map py_strip ts)"

definition raw_specialization_tokens :: "raw_value \<Rightarrow> string list" where
  "raw_specialization_tokens raw =
     (case raw of
        RawNone \<Rightarrow> []
      | RawItems ss \<Rightarrow> strip_tokens ss
      | RawOther t \<Rightarrow> (let text = py_strip t in if text = [] then [] else [text])
      | RawText s \<Rightarrow>
          (let text = py_strip s
           in if text = [] then []
              else case (if hd text = CHR ''['' then json_loads text else None) of
                     Some (JList vs) \<Rightarrow> strip_tokens (map py_str vs)
                   | _ \<Rightarrow> strip_tokens (py_split (CHR '','') text)))"

definition parse_specialization_values :: "raw_value \<Rightarrow> side \<Rightarrow> bool \<Rightarrow> string set" where
  "parse_specialization_values raw sd allow_universal =
     (\<Union>token \<in> set (raw_specialization_tokens raw).
        if allow_universal \<and> py_lower (py_strip token) = universal_specialization
        then {universal_specialization}
        else normalize_specialization sd token)"

definition parse_specializations :: "raw_value \<Rightarrow> string set" where
  "parse_specializations user_specialization =
     parse_specialization_values user_specialization Have True"

definition parse_shift_specs :: "raw_value \<Rightarrow> string set" where
  "parse_shift_specs specialization_focus =
     parse_specialization_values specialization_focus Need True"

definition parse_template_specs :: "raw_value \<Rightarrow> string set" where
  "parse_template_specs required_specializations =
     parse_specialization_values required_specializations Need True"

definition matches_required_specs :: "string set \<Rightarrow> string set \<Rightarrow> bool" where
  "matches_required_specs user_specs required =
     (if required = {} then True
      else if universal_specialization \<in> required then True
      else if universal_specialization \<in> user_specs then True
      else required \<inter> user_specs \<noteq> {})"

definition matches_raw_requirement :: "string set \<Rightarrow> raw_value \<Rightarrow> bool" where
  "matches_raw_requirement user_specs raw_requirement =
     (let required = parse_specialization_values raw_requirement Need True
      in if required \<noteq> {} then matches_required_specs user_specs required
         else raw_specialization_tokens raw_requirement = [])"

definition has_required_specs :: "raw_value \<Rightarrow> raw_value \<Rightarrow> bool" where
  "has_required_specs user_specialization specialization_focus =
     matches_raw_requirement (parse_specializations user_specialization) specialization_focus"

definition has_required_template_specs :: "raw_value \<Rightarrow> raw_value \<Rightarrow> bool" where
  "has_required_template_specs user_specialization required_specializations =
     matches_raw_requirement (parse_specializations user_specialization) required_specializations"

subsection \<open>The parser yields canonical values only\<close>

lemma aliases_canonical:
  "map_of specialization_aliases token = Some resolved \<Longrightarrow>
   resolved \<noteq> [] \<and> (\<forall>c\<in>set resolved. is_canonical c)"
  by (auto simp: specialization_aliases_def is_canonical_def canonical_specializations_def
      split: if_splits)

lemma collapse_canonical:
  "map_of collapse_to token = Some c \<Longrightarrow> is_canonical c"
  by (auto simp: collapse_to_def is_canonical_def canonical_specializations_def
      split: if_splits)

lemma normalize_canonical:
  "c \<in> normalize_specialization sd v \<Longrightarrow> is_canonical c"
  using aliases_canonical collapse_canonical
  by (auto simp: normalize_specialization_def Let_def split: option.splits if_splits)

lemma universal_not_canonical [simp]: "\<not> is_canonical universal_specialization"
  by (simp add: is_canonical_def canonical_specializations_def universal_specialization_def)

lemma canonical_no_case [simp]:
  "is_canonical t \<Longrightarrow> py_lower t = t \<and> py_strip t = t \<and> t \<noteq> []"
proof -
  have "\<forall>t \<in> set canonical_specializations. py_lower t = t \<and> py_strip t = t \<and> t \<noteq> []"
    by code_simp
  then show "is_canonical t \<Longrightarrow> ?thesis" by (simp add: is_canonical_def)
qed

text \<open>A canonical value normalizes to itself, on either side.\<close>

lemma normalize_canonical_id:
  "is_canonical t \<Longrightarrow> normalize_specialization sd t = {t}"
  by (simp add: normalize_specialization_def)

lemma parse_canonical:
  "c \<in> parse_specialization_values raw sd u \<Longrightarrow>
   is_canonical c \<or> (u \<and> c = universal_specialization)"
  by (auto simp: parse_specialization_values_def dest: normalize_canonical split: if_splits)

lemma parse_without_universal:
  "universal_specialization \<notin> parse_specialization_values raw sd False"
  using parse_canonical [of universal_specialization raw sd False] by auto

lemma parse_no_tokens:
  "raw_specialization_tokens raw = [] \<Longrightarrow> parse_specialization_values raw sd u = {}"
  by (simp add: parse_specialization_values_def)

lemma normalize_universal_empty: "normalize_specialization sd universal_specialization = {}"
proof -
  have "py_lower (py_strip universal_specialization) = universal_specialization" by code_simp
  moreover have "map_of specialization_aliases universal_specialization = None" by code_simp
  ultimately show ?thesis
    by (simp add: normalize_specialization_def Let_def)
qed

subsection \<open>One meaning in every encoding\<close>

lemma strip_tokens_strip [simp]: "strip_tokens (map py_strip ts) = strip_tokens ts"
  by (simp add: strip_tokens_def comp_def)

text \<open>The characters a skill token is stored with: no quote, escape, comma, bracket or white
  space.\<close>

definition token_char :: "char \<Rightarrow> bool" where
  "token_char c \<longleftrightarrow> plain_char c \<and> c \<noteq> CHR '','' \<and> c \<noteq> CHR ''['' \<and> \<not> py_space c"

definition skill_token :: "string \<Rightarrow> bool" where
  "skill_token t \<longleftrightarrow> t \<noteq> [] \<and> list_all token_char t"

lemma py_strip_no_space: "list_all (\<lambda>c. \<not> py_space c) t \<Longrightarrow> py_strip t = t"
proof -
  have "list_all (\<lambda>c. \<not> py_space c) t \<Longrightarrow> dropWhile py_space t = t" for t
    by (cases t) auto
  then show "list_all (\<lambda>c. \<not> py_space c) t \<Longrightarrow> ?thesis"
    by (simp add: py_strip_def)
qed

lemma skill_token_strip: "skill_token t \<Longrightarrow> py_strip t = t"
  by (rule py_strip_no_space) (auto simp: skill_token_def token_char_def list_all_iff)

lemma skill_tokens_strip: "list_all skill_token ts \<Longrightarrow> strip_tokens ts = ts"
  by (induction ts) (auto simp: strip_tokens_def skill_token_strip, auto simp: skill_token_def)

fun csv_join :: "string list \<Rightarrow> string" where
  "csv_join [] = []"
| "csv_join [t] = t"
| "csv_join (t # u # ts) = t @ CHR '','' # csv_join (u # ts)"

lemma py_split_no_sep: "sep \<notin> set t \<Longrightarrow> py_split sep t = [t]"
  by (induction t) auto

lemma py_split_append_sep: "sep \<notin> set t \<Longrightarrow> py_split sep (t @ sep # s) = t # py_split sep s"
  by (induction t) auto

lemma py_split_csv_join:
  "ts \<noteq> [] \<Longrightarrow> list_all skill_token ts \<Longrightarrow> py_split (CHR '','') (csv_join ts) = ts"
proof (induction ts rule: csv_join.induct)
  case (2 t)
  then show ?case by (auto simp: skill_token_def token_char_def list_all_iff intro!: py_split_no_sep)
next
  case (3 t u ts)
  then have "CHR '','' \<notin> set t"
    by (auto simp: skill_token_def token_char_def list_all_iff)
  then show ?case using 3 by (simp add: py_split_append_sep)
qed simp

lemma csv_join_chars:
  "list_all skill_token ts \<Longrightarrow> c \<in> set (csv_join ts) \<Longrightarrow> token_char c \<or> c = CHR '',''"
  by (induction ts rule: csv_join.induct) (auto simp: skill_token_def list_all_iff)

lemma comma_not_space: "\<not> py_space (CHR '','')"
  by (simp add: py_space_def)

lemma csv_join_strip: "list_all skill_token ts \<Longrightarrow> py_strip (csv_join ts) = csv_join ts"
  by (rule py_strip_no_space)
    (auto simp: list_all_iff token_char_def comma_not_space dest!: csv_join_chars [rotated])

lemma csv_join_Nil_iff: "list_all skill_token ts \<Longrightarrow> csv_join ts = [] \<longleftrightarrow> ts = []"
  by (induction ts rule: csv_join.induct) (auto simp: skill_token_def)

lemma raw_tokens_csv:
  assumes "list_all skill_token ts"
  shows "raw_specialization_tokens (RawText (csv_join ts)) = ts"
proof (cases "ts = []")
  case True
  then show ?thesis by (simp add: raw_specialization_tokens_def py_strip_def)
next
  case False
  have ne: "csv_join ts \<noteq> []" using csv_join_Nil_iff [OF assms] False by simp
  then have "hd (csv_join ts) \<noteq> CHR ''[''"
    using csv_join_chars [OF assms hd_in_set [OF ne]] by (auto simp: token_char_def)
  then show ?thesis
    using ne False assms
    by (simp add: raw_specialization_tokens_def csv_join_strip py_split_csv_join skill_tokens_strip)
qed

lemma py_strip_bracketed:
  "xs \<noteq> [] \<Longrightarrow> \<not> py_space (hd xs) \<Longrightarrow> \<not> py_space (last xs) \<Longrightarrow> py_strip xs = xs"
proof -
  assume "xs \<noteq> []" and h: "\<not> py_space (hd xs)" and l: "\<not> py_space (last xs)"
  then have "dropWhile py_space xs = xs" "dropWhile py_space (rev xs) = rev xs"
    by (simp_all add: dropWhile_eq_self_iff hd_rev)
  then show "py_strip xs = xs" by (simp add: py_strip_def)
qed

lemma last_dumps_tail: "json_dumps_tail ss \<noteq> [] \<and> last (json_dumps_tail ss) = CHR '']''"
  by (induction ss) (auto simp: json_quote_def)

lemma json_dumps_strip: "py_strip (json_dumps_strs ss) = json_dumps_strs ss"
proof -
  have "json_dumps_strs ss \<noteq> []" "hd (json_dumps_strs ss) = CHR ''[''"
    "last (json_dumps_strs ss) = CHR '']''"
    using last_dumps_tail by (cases ss; auto simp: json_quote_def)+
  moreover have "\<not> py_space (CHR ''['')" "\<not> py_space (CHR '']'')"
    by (simp_all add: py_space_def)
  ultimately show ?thesis by (intro py_strip_bracketed) simp_all
qed

lemma raw_tokens_json:
  assumes "list_all plain_str ts"
  shows "raw_specialization_tokens (RawText (json_dumps_strs ts)) = strip_tokens ts"
proof -
  have "json_dumps_strs ts \<noteq> []" "hd (json_dumps_strs ts) = CHR ''[''"
    by (cases ts; simp)+
  then show ?thesis using json_loads_dumps [OF assms]
    by (simp add: raw_specialization_tokens_def json_dumps_strip comp_def)
qed

lemma skill_token_plain: "skill_token t \<Longrightarrow> plain_str t"
  by (auto simp: skill_token_def plain_str_def token_char_def list_all_iff)

text \<open>The three stored encodings of one list of skills read back as that list.\<close>

lemma raw_tokens_encodings:
  assumes "list_all skill_token ts"
  shows "raw_specialization_tokens (RawText (json_dumps_strs ts)) = ts"
    and "raw_specialization_tokens (RawText (csv_join ts)) = ts"
    and "raw_specialization_tokens (RawItems ts) = ts"
proof -
  have "list_all plain_str ts" using assms skill_token_plain by (auto simp: list_all_iff)
  then show "raw_specialization_tokens (RawText (json_dumps_strs ts)) = ts"
    using raw_tokens_json skill_tokens_strip [OF assms] by simp
  show "raw_specialization_tokens (RawText (csv_join ts)) = ts" by (rule raw_tokens_csv [OF assms])
  show "raw_specialization_tokens (RawItems ts) = ts"
    by (simp add: raw_specialization_tokens_def skill_tokens_strip [OF assms])
qed

subsection \<open>Who fits a requirement\<close>

lemma matches_required_iff:
  "matches_required_specs user required \<longleftrightarrow>
     required = {} \<or> universal_specialization \<in> required \<union> user \<or> (\<exists>c. c \<in> required \<and> c \<in> user)"
  by (auto simp: matches_required_specs_def)

lemma matches_required_mono:
  "matches_required_specs user required \<Longrightarrow> user \<subseteq> user' \<Longrightarrow> matches_required_specs user' required"
  by (auto simp: matches_required_iff)

lemma matches_raw_requirement_iff:
  "matches_raw_requirement user raw \<longleftrightarrow>
     raw_specialization_tokens raw = [] \<or>
     (let required = parse_specialization_values raw Need True
      in universal_specialization \<in> required \<or>
         (required \<noteq> {} \<and> universal_specialization \<in> user) \<or> required \<inter> user \<noteq> {})"
  by (auto simp: matches_raw_requirement_def matches_required_iff Let_def parse_no_tokens)

text \<open>A list of skill tokens means the same in the three stored encodings (JSON array, CSV
  text, collection), and what it means are canonical skills, plus the wildcard where the caller
  admits it.\<close>

theorem skill_encodings_agree:
  assumes "list_all skill_token ts"
  shows "parse_specialization_values (RawText (json_dumps_strs ts)) sd u =
           parse_specialization_values (RawItems ts) sd u \<and>
         parse_specialization_values (RawText (csv_join ts)) sd u =
           parse_specialization_values (RawItems ts) sd u \<and>
         parse_specialization_values (RawItems ts) sd u \<subseteq>
           set canonical_specializations \<union> (if u then {universal_specialization} else {})"
proof -
  have "parse_specialization_values (RawItems ts) sd u \<subseteq>
      set canonical_specializations \<union> (if u then {universal_specialization} else {})"
    using parse_canonical [of _ "RawItems ts" sd u] unfolding is_canonical_def
    by (cases u) fastforce+
  then show ?thesis
    using raw_tokens_encodings [OF assms] by (simp add: parse_specialization_values_def)
qed

lemma skill_encodings_agree_witness:
  "parse_specialization_values (RawText (json_dumps_strs [''plumbing'', ''hvac''])) Have True =
     parse_specialization_values (RawText (csv_join [''plumbing'', ''hvac''])) Have True"
proof -
  have "list_all skill_token [''plumbing'', ''hvac'']" by code_simp
  from skill_encodings_agree [OF this, of Have True] show ?thesis by simp
qed

text \<open>A requirement that is written down but resolves to no known skill admits nobody; a
  requirement that resolves admits exactly those who share a skill with it, the wildcard on either
  side included; an empty one admits everybody.\<close>

theorem requirement_fails_closed:
  "matches_raw_requirement user raw \<longleftrightarrow>
     (if raw_specialization_tokens raw = [] then True
      else if parse_specialization_values raw Need True = {} then False
      else (\<exists>c. c \<in> parse_specialization_values raw Need True \<and> c \<in> user) \<or>
           universal_specialization \<in> parse_specialization_values raw Need True \<union> user)"
  by (auto simp: matches_raw_requirement_def matches_required_iff Let_def parse_no_tokens)

end
