(* ===== verification/RequestGuards.thy ===== *)
theory RequestGuards
  imports RequestTypes Specializations
begin

section \<open>Per-action authorization\<close>

text \<open>
  Models \<open>utils/request_workflow/guards.py\<close>: the capabilities of the system actors and the
  predicates that decide whether an actor may perform an action on a snapshot.
\<close>

definition role_manager :: string where "role_manager = ''manager''"
definition role_executor :: string where "role_executor = ''executor''"
definition role_applicant :: string where "role_applicant = ''applicant''"

definition system_capabilities :: "string \<Rightarrow> action list" where
  "system_capabilities name =
     (if name = ''dispatcher'' then [SYSTEM_DISPATCH_ASSIGN, ASSIGN_GROUP]
      else if name = ''auto_manager''
      then [SYSTEM_AUTO_PROMOTE, SYSTEM_DISPATCH_ASSIGN, ASSIGN_GROUP]
      else [])"

definition is_manager :: "actor_context \<Rightarrow> bool" where
  "is_manager actor \<longleftrightarrow> ac_kind actor = User \<and> role_manager \<in> ac_roles actor"

definition is_assigned_executor :: "workflow_snapshot \<Rightarrow> actor_context \<Rightarrow> bool" where
  "is_assigned_executor snap actor =
     (if ac_kind actor \<noteq> User \<or> role_executor \<notin> ac_roles actor then False
      else let assigned = py_or_int (sn_assignment_executor snap) (rs_executor_id (sn_request snap))
           in assigned \<noteq> None \<and> assigned = ac_user_id actor)"

definition executor_can_work :: "workflow_snapshot \<Rightarrow> actor_context \<Rightarrow> bool" where
  "executor_can_work snap actor \<longleftrightarrow> is_assigned_executor snap actor \<and> sn_on_shift snap"

text \<open>The raw value of an optional text column.\<close>

definition raw_opt :: "string option \<Rightarrow> raw_value" where
  "raw_opt v = (case v of None \<Rightarrow> RawNone | Some s \<Rightarrow> RawText s)"

definition executor_can_claim :: "workflow_snapshot \<Rightarrow> actor_context \<Rightarrow> bool" where
  "executor_can_claim snap actor =
     (if ac_kind actor \<noteq> User \<or> role_executor \<notin> ac_roles actor then False
      else if \<not> sn_on_shift snap then False
      else if \<not> sn_unclaimed snap then False
      else let required =
                 parse_specialization_values (raw_opt (sn_assignment_group snap)) Need False
           in if required = {} then False
              else matches_required_specs (ac_specializations actor) required)"

definition system_can_promote :: "workflow_snapshot \<Rightarrow> actor_context \<Rightarrow> bool" where
  "system_can_promote snap actor \<longleftrightarrow>
     sn_unclaimed snap \<and> rs_executor_id (sn_request snap) = None"

definition is_owner :: "workflow_snapshot \<Rightarrow> actor_context \<Rightarrow> bool" where
  "is_owner snap actor \<longleftrightarrow>
     ac_kind actor = User \<and> Some (rs_user_id (sn_request snap)) = ac_user_id actor"

definition can_accept :: "workflow_snapshot \<Rightarrow> actor_context \<Rightarrow> bool" where
  "can_accept snap actor =
     (if rs_acceptance_mode (sn_request snap) = acceptance_mode_manager then False
      else if ac_kind actor \<noteq> User then False
      else if is_owner snap actor then True
      else case rs_apartment_id (sn_request snap) of
             None \<Rightarrow> False
           | Some apt \<Rightarrow> apt \<in> ac_apartments actor)"

definition owner_can_return :: "workflow_snapshot \<Rightarrow> actor_context \<Rightarrow> bool" where
  "owner_can_return snap actor =
     (if rs_acceptance_mode (sn_request snap) = acceptance_mode_manager then False
      else is_owner snap actor)"

definition can_cancel :: "workflow_snapshot \<Rightarrow> actor_context \<Rightarrow> bool" where
  "can_cancel snap actor =
     (if is_manager actor then True
      else is_owner snap actor \<and> role_applicant \<in> ac_roles actor \<and>
           normalize_status (sn_request snap) = St_New)"

lemmas actor_guards [guard_defs] =
  is_manager_def is_assigned_executor_def executor_can_work_def executor_can_claim_def
  is_owner_def can_accept_def owner_can_return_def can_cancel_def

subsection \<open>What each guard requires\<close>

lemma executor_can_workD:
  "executor_can_work snap actor \<Longrightarrow>
   ac_kind actor = User \<and> role_executor \<in> ac_roles actor \<and> sn_on_shift snap \<and>
   (ac_user_id actor = sn_assignment_executor snap \<or>
    ac_user_id actor = rs_executor_id (sn_request snap))"
  by (auto simp: guard_defs py_or_int_def Let_def split: if_splits option.splits)

lemma executor_can_claimD:
  assumes "executor_can_claim snap actor"
  shows "ac_kind actor = User" "role_executor \<in> ac_roles actor" "sn_on_shift snap"
    "sn_unclaimed snap"
    "universal_specialization \<in> ac_specializations actor \<or>
     (\<exists>c. c \<in> ac_specializations actor \<and>
          c \<in> parse_specialization_values (raw_opt (sn_assignment_group snap)) Need False)"
  using assms parse_without_universal
  by (auto simp: executor_can_claim_def Let_def matches_required_iff split: if_splits)

lemma executor_can_claim_group:
  "executor_can_claim snap actor \<Longrightarrow> \<exists>g. sn_assignment_group snap = Some g"
  by (cases "sn_assignment_group snap")
    (auto simp: executor_can_claim_def Let_def raw_opt_def parse_no_tokens
      raw_specialization_tokens_def split: if_splits)

lemma can_acceptD:
  "can_accept snap actor \<Longrightarrow>
   ac_kind actor = User \<and> rs_acceptance_mode (sn_request snap) \<noteq> acceptance_mode_manager \<and>
   (ac_user_id actor = Some (rs_user_id (sn_request snap)) \<or>
    (\<exists>apt. rs_apartment_id (sn_request snap) = Some apt \<and> apt \<in> ac_apartments actor))"
  by (auto simp: can_accept_def is_owner_def split: if_splits option.splits)

lemma user_guards_reject_system:
  "ac_kind actor = System \<Longrightarrow>
   \<not> is_manager actor \<and> \<not> executor_can_work snap actor \<and> \<not> executor_can_claim snap actor \<and>
   \<not> is_owner snap actor \<and> \<not> can_accept snap actor \<and> \<not> owner_can_return snap actor \<and>
   \<not> can_cancel snap actor"
  by (simp add: guard_defs)

end
