(* ===== verification/RequestSpecs.thy ===== *)
theory RequestSpecs
  imports RequestGuards
begin

section \<open>Payload schemas and the action table\<close>

text \<open>
  Models \<open>utils/request_workflow/payloads.py\<close> (the schema of each action's payload and its
  validation, in the order the source checks) and \<open>specs.py\<close> (from-statuses, to-status,
  authorization and repeat policy of each action, and \<open>allowed_actions\<close>).
\<close>

record payload_schema =
  ps_required :: "(string \<times> pytype) list"
  ps_optional :: "(string \<times> pytype) list"
  ps_non_empty :: "string list"

definition schema ::
    "(string \<times> pytype) list \<Rightarrow> (string \<times> pytype) list \<Rightarrow> string list \<Rightarrow> payload_schema" where
  "schema req opt ne = \<lparr>ps_required = req, ps_optional = opt, ps_non_empty = ne\<rparr>"

fun check_required :: "(string \<times> pytype) list \<Rightarrow> payload \<Rightarrow> payload_error option" where
  "check_required [] p = None"
| "check_required ((key, typ) # rest) p =
     (case map_of p key of
        None \<Rightarrow> Some (MissingRequired key)
      | Some v \<Rightarrow> if \<not> isinstance v typ then Some (WrongType key) else check_required rest p)"

fun check_non_empty :: "string list \<Rightarrow> payload \<Rightarrow> payload_error option" where
  "check_non_empty [] p = None"
| "check_non_empty (key # rest) p =
     (case pget p key of
        VStr s \<Rightarrow> if py_strip s = [] then Some (BlankField key) else check_non_empty rest p
      | _ \<Rightarrow> check_non_empty rest p)"

fun check_fields :: "payload_schema \<Rightarrow> payload \<Rightarrow> payload_error option" where
  "check_fields sc [] = None"
| "check_fields sc ((key, v) # rest) =
     (if key \<notin> set (map fst (ps_required sc)) \<union> set (map fst (ps_optional sc))
      then Some (UnexpectedField key)
      else case map_of (ps_optional sc) key of
             None \<Rightarrow> check_fields sc rest
           | Some typ \<Rightarrow>
               if v \<noteq> VNone \<and> \<not> isinstance v typ then Some (WrongType key)
               else check_fields sc rest)"

definition validate_payload :: "payload_schema \<Rightarrow> payload \<Rightarrow> payload_error option" where
  "validate_payload sc p =
     (case check_required (ps_required sc) p of
        Some e \<Rightarrow> Some e
      | None \<Rightarrow>
          (case check_non_empty (ps_non_empty sc) p of
             Some e \<Rightarrow> Some e
           | None \<Rightarrow> check_fields sc p))"

fun payload_schemas :: "action \<Rightarrow> payload_schema" where
  "payload_schemas SYSTEM_DISPATCH_ASSIGN = schema [(''executor_id'', TInt)] [] []"
| "payload_schemas MANAGER_ASSIGN = schema [(''executor_id'', TInt)] [] []"
| "payload_schemas ASSIGN_GROUP = schema [(''group'', TStr)] [] [''group'']"
| "payload_schemas EXECUTOR_PURCHASE = schema [(''requested_materials'', TStr)] [] []"
| "payload_schemas MANAGER_PURCHASE = schema [] [(''requested_materials'', TStr)] []"
| "payload_schemas MANAGER_PURCHASE_DONE =
     schema [] [(''manager_materials_comment'', TStr), (''requested_materials'', TStr)] []"
| "payload_schemas CLARIFY_REQUEST = schema [(''question'', TStr)] [(''notes'', TStr)] []"
| "payload_schemas CLARIFY_RESOLVED = schema [] [] []"
| "payload_schemas EXECUTOR_RESUME = schema [] [] []"
| "payload_schemas EXECUTOR_CLAIM = schema [] [] []"
| "payload_schemas SYSTEM_AUTO_PROMOTE = schema [(''executor_id'', TInt)] [] []"
| "payload_schemas EXECUTOR_COMPLETE =
     schema [] [(''completion_report'', TStr), (''completion_media'', TList)] []"
| "payload_schemas MANAGER_COMPLETE =
     schema [] [(''completion_report'', TStr), (''completion_media'', TList)] []"
| "payload_schemas MANAGER_CONFIRM = schema [] [(''confirmation_notes'', TStr)] []"
| "payload_schemas MANAGER_RETURN_TO_WORK = schema [(''reason'', TStr)] [] [''reason'']"
| "payload_schemas APPLICANT_ACCEPT = schema [(''rating'', TInt)] [] []"
| "payload_schemas APPLICANT_RETURN =
     schema [(''return_reason'', TStr)] [(''return_media'', TList)] []"
| "payload_schemas MANAGER_FORCE_ACCEPT =
     schema [] [(''reason'', TStr), (''confirmation_notes'', TStr)] []"
| "payload_schemas CANCEL = schema [] [(''reason'', TStr), (''notes'', TStr)] []"

subsection \<open>The action table\<close>

record action_spec =
  sp_from :: "status list"
  sp_to :: status
  sp_authorize :: "workflow_snapshot \<Rightarrow> actor_context \<Rightarrow> bool"
  sp_policy :: repeat_policy
  sp_system_only :: bool

definition spec ::
    "status list \<Rightarrow> status \<Rightarrow> (workflow_snapshot \<Rightarrow> actor_context \<Rightarrow> bool) \<Rightarrow> repeat_policy \<Rightarrow> bool
     \<Rightarrow> action_spec" where
  "spec fr to auth pol sys =
     \<lparr>sp_from = fr, sp_to = to, sp_authorize = auth, sp_policy = pol, sp_system_only = sys\<rparr>"

fun action_table :: "action \<Rightarrow> action_spec" where
  "action_table SYSTEM_DISPATCH_ASSIGN =
     spec [St_New] St_InProgress (\<lambda>s a. ac_kind a = System) NO_OP_IF_SAME True"
| "action_table ASSIGN_GROUP =
     spec [St_New] St_New (\<lambda>s a. ac_kind a = System \<or> is_manager a) REJECT False"
| "action_table MANAGER_ASSIGN =
     spec [St_New, St_InProgress] St_InProgress (\<lambda>s a. is_manager a) NO_OP_IF_SAME False"
| "action_table EXECUTOR_PURCHASE =
     spec [St_InProgress] St_Purchase executor_can_work REJECT False"
| "action_table MANAGER_PURCHASE =
     spec [St_New, St_InProgress] St_Purchase (\<lambda>s a. is_manager a) REJECT False"
| "action_table MANAGER_PURCHASE_DONE =
     spec [St_Purchase] St_InProgress (\<lambda>s a. is_manager a) REJECT False"
| "action_table CLARIFY_REQUEST =
     spec [St_New, St_InProgress, St_Purchase] St_Clarification (\<lambda>s a. is_manager a) REJECT False"
| "action_table CLARIFY_RESOLVED =
     spec [St_Clarification] St_InProgress (\<lambda>s a. is_manager a) REJECT False"
| "action_table EXECUTOR_RESUME =
     spec [St_Purchase, St_Clarification] St_InProgress executor_can_work REJECT False"
| "action_table EXECUTOR_CLAIM =
     spec [St_New, St_InProgress] St_InProgress executor_can_claim REJECT False"
| "action_table SYSTEM_AUTO_PROMOTE =
     spec [St_New, St_InProgress] St_InProgress system_can_promote REJECT True"
| "action_table EXECUTOR_COMPLETE =
     spec [St_InProgress] St_Executed executor_can_work REPEATABLE False"
| "action_table MANAGER_COMPLETE =
     spec [St_InProgress, St_Purchase, St_Clarification] St_Executed (\<lambda>s a. is_manager a)
       REPEATABLE False"
| "action_table MANAGER_CONFIRM =
     spec [St_Executed] St_Completed (\<lambda>s a. is_manager a) NO_OP_IF_SAME False"
| "action_table MANAGER_RETURN_TO_WORK =
     spec [St_Executed, St_Returned, St_Completed] St_InProgress (\<lambda>s a. is_manager a) REJECT False"
| "action_table APPLICANT_ACCEPT =
     spec [St_Completed] St_Approved can_accept REJECT False"
| "action_table APPLICANT_RETURN =
     spec [St_Completed] St_Returned owner_can_return REJECT False"
| "action_table MANAGER_FORCE_ACCEPT =
     spec [St_Completed, St_Returned] St_Approved (\<lambda>s a. is_manager a) REJECT False"
| "action_table CANCEL =
     spec (filter (\<lambda>s. \<not> is_terminal s) canon_statuses) St_Cancelled can_cancel REJECT False"

definition action_allowed :: "workflow_snapshot \<Rightarrow> actor_context \<Rightarrow> action \<Rightarrow> bool" where
  "action_allowed snap actor a =
     (let sp = action_table a
      in if normalize_status (sn_request snap) \<notin> set (sp_from sp) then False
         else if ac_kind actor = System
         then a \<in> set (system_capabilities (case ac_system_actor actor of None \<Rightarrow> [] | Some n \<Rightarrow> n)) \<and>
              sp_authorize sp snap actor
         else if sp_system_only sp then False
         else sp_authorize sp snap actor)"

definition allowed_actions :: "workflow_snapshot \<Rightarrow> actor_context \<Rightarrow> action list" where
  "allowed_actions snap actor = filter (action_allowed snap actor) all_actions"

subsection \<open>Facts about the tables\<close>

lemma allowed_iff: "a \<in> set (allowed_actions snap actor) \<longleftrightarrow> action_allowed snap actor a"
  by (simp add: allowed_actions_def)

lemma allowed_from:
  "action_allowed snap actor a \<Longrightarrow>
   normalize_status (sn_request snap) \<in> set (sp_from (action_table a))"
  by (auto simp: action_allowed_def Let_def split: if_splits)

lemma allowed_authorized:
  "action_allowed snap actor a \<Longrightarrow> sp_authorize (action_table a) snap actor"
  by (auto simp: action_allowed_def Let_def split: if_splits)

lemma from_not_terminal:
  "s \<in> set (sp_from (action_table a)) \<Longrightarrow> \<not> is_terminal s \<and> s \<in> set canon_statuses"
  by (cases a) (auto simp: spec_def is_terminal_iff canon_statuses_def)

lemma to_canonical: "sp_to (action_table a) \<in> set canon_statuses"
  by (cases a) (simp_all add: spec_def canon_statuses_def)

lemma terminal_no_actions:
  "is_terminal (normalize_status (sn_request snap)) \<Longrightarrow> allowed_actions snap actor = []"
  by (auto simp: allowed_actions_def filter_empty_conv dest!: allowed_from
      dest: from_not_terminal)

lemma system_actor_actions:
  "ac_kind actor = System \<Longrightarrow> action_allowed snap actor a \<Longrightarrow>
   a \<in> {SYSTEM_DISPATCH_ASSIGN, ASSIGN_GROUP, SYSTEM_AUTO_PROMOTE}"
  by (auto simp: action_allowed_def Let_def system_capabilities_def split: if_splits)

lemma system_only_user:
  "ac_kind actor = User \<Longrightarrow> action_allowed snap actor a \<Longrightarrow> \<not> sp_system_only (action_table a)"
  by (auto simp: action_allowed_def Let_def split: if_splits)

lemma check_required_ok:
  "check_required req p = None \<Longrightarrow> (k, t) \<in> set req \<Longrightarrow>
   \<exists>v. map_of p k = Some v \<and> isinstance v t"
  by (induction req p rule: check_required.induct) (auto split: option.splits if_splits)

lemma check_fields_ok:
  "check_fields sc p = None \<Longrightarrow> (k, v) \<in> set p \<Longrightarrow>
   k \<in> set (map fst (ps_required sc)) \<union> set (map fst (ps_optional sc))"
  by (induction sc p rule: check_fields.induct) (auto split: option.splits if_splits)

lemma check_fields_type:
  "check_fields sc p = None \<Longrightarrow> (k, v) \<in> set p \<Longrightarrow> map_of (ps_optional sc) k = Some t \<Longrightarrow>
   v = VNone \<or> isinstance v t"
  by (induction sc p rule: check_fields.induct) (auto split: option.splits if_splits)

lemma validate_required:
  "validate_payload sc p = None \<Longrightarrow> (k, t) \<in> set (ps_required sc) \<Longrightarrow>
   \<exists>v. map_of p k = Some v \<and> isinstance v t"
  by (auto simp: validate_payload_def dest: check_required_ok split: option.splits)

lemma validate_keys:
  "validate_payload sc p = None \<Longrightarrow> map_of p k = Some v \<Longrightarrow>
   k \<in> set (map fst (ps_required sc)) \<union> set (map fst (ps_optional sc))"
  by (auto simp: validate_payload_def dest!: map_of_SomeD check_fields_ok split: option.splits)

lemma validate_optional:
  "validate_payload sc p = None \<Longrightarrow> map_of (ps_optional sc) k = Some t \<Longrightarrow>
   pget p k = VNone \<or> isinstance (pget p k) t"
  by (cases "map_of p k")
    (auto simp: validate_payload_def pget_def dest: check_fields_type [OF _ map_of_SomeD]
      split: option.splits)

lemma validate_absent:
  "validate_payload sc p = None \<Longrightarrow> k \<notin> set (map fst (ps_required sc)) \<Longrightarrow>
   k \<notin> set (map fst (ps_optional sc)) \<Longrightarrow> pget p k = VNone"
  by (auto simp: pget_def dest: validate_keys split: option.splits)

lemma isinstance_IntE:
  assumes "isinstance v TInt"
  obtains i where "v = VInt i" | b where "v = VBool b"
  using assms by (cases v) auto

lemma isinstance_StrE:
  assumes "isinstance v TStr"
  obtains s where "v = VStr s"
  using assms by (cases v) auto

end
