(* ===== verification/RequestPlanner.thy ===== *)
theory RequestPlanner
  imports RequestSpecs
begin

section \<open>Planning a transition\<close>

text \<open>
  Models \<open>utils/request_workflow/planner.py\<close>: the patch, the domain operations and the events
  of an action, \<open>plan_transition\<close> with its checks in the source's order, \<open>check_repeat\<close>,
  the resolution of a status-based command, and the validator of free edits.
  Errors are the left of a sum; their message texts are not modelled.
\<close>

definition storage_status :: "status \<Rightarrow> status" where
  "storage_status canon = canon"

text \<open>\<open>payload[key].strip()\<close>.\<close>

definition strip_val :: "pyval \<Rightarrow> pyval" where
  "strip_val v = (case v of VStr s \<Rightarrow> VStr (py_strip s) | _ \<Rightarrow> v)"

definition set_if_given :: "payload \<Rightarrow> string \<Rightarrow> field \<Rightarrow> patch_op \<Rightarrow> patch" where
  "set_if_given p key f op = (if pget p key \<noteq> VNone then [(f, op, pget p key)] else [])"

definition assign_ops :: "actor_context \<Rightarrow> payload \<Rightarrow> patch" where
  "assign_ops actor p =
     (let has_executor = (pget p ''executor_id'' \<noteq> VNone);
          has_group = (pget p ''group'' \<noteq> VNone)
      in (if has_executor
          then [(F_executor_id, SET, pget p ''executor_id''),
                (F_assignment_type, SET, VStr ''individual''),
                (F_assigned_group, CLEAR, VNone)]
          else []) @
         (if has_group
          then [(F_assigned_group, SET, pget p ''group''),
                (F_assignment_type, SET, VStr ''group''),
                (F_executor_id, CLEAR, VNone)]
          else []) @
         (if has_executor \<or> has_group
          then (F_assigned_at, SET_NOW, VNone) #
               (if ac_kind actor = User then [(F_assigned_by, SET_ACTOR, VNone)] else [])
          else []))"

definition complete_ops :: "payload \<Rightarrow> patch" where
  "complete_ops p =
     set_if_given p ''completion_report'' F_completion_report SET @
     set_if_given p ''completion_media'' F_completion_media SET @
     [(F_is_returned, SET, VBool False)]"

definition build_patch :: "action \<Rightarrow> status \<Rightarrow> actor_context \<Rightarrow> payload \<Rightarrow> patch" where
  "build_patch act to actor p =
     (F_status, SET, VStatus (storage_status to)) #
     (case act of
        SYSTEM_DISPATCH_ASSIGN \<Rightarrow> assign_ops actor p
      | MANAGER_ASSIGN \<Rightarrow> assign_ops actor p
      | ASSIGN_GROUP \<Rightarrow> assign_ops actor p
      | EXECUTOR_CLAIM \<Rightarrow>
          [(F_executor_id, SET_ACTOR, VNone),
           (F_assignment_type, SET, VStr ''individual''),
           (F_assigned_at, SET_NOW, VNone),
           (F_assigned_group, CLEAR, VNone)]
      | SYSTEM_AUTO_PROMOTE \<Rightarrow>
          [(F_executor_id, SET, pget p ''executor_id''),
           (F_assignment_type, SET, VStr ''individual''),
           (F_assigned_group, CLEAR, VNone),
           (F_assigned_at, SET_NOW, VNone)]
      | EXECUTOR_PURCHASE \<Rightarrow> [(F_requested_materials, SET, pget p ''requested_materials'')]
      | MANAGER_PURCHASE \<Rightarrow> set_if_given p ''requested_materials'' F_requested_materials SET
      | MANAGER_PURCHASE_DONE \<Rightarrow>
          set_if_given p ''manager_materials_comment'' F_manager_materials_comment SET @
          set_if_given p ''requested_materials'' F_requested_materials SET
      | EXECUTOR_COMPLETE \<Rightarrow> complete_ops p
      | MANAGER_COMPLETE \<Rightarrow> complete_ops p
      | CLARIFY_REQUEST \<Rightarrow> set_if_given p ''notes'' F_notes APPEND
      | MANAGER_CONFIRM \<Rightarrow>
          [(F_manager_confirmed, SET, VBool True),
           (F_manager_confirmed_by, SET_ACTOR, VNone),
           (F_manager_confirmed_at, SET_NOW, VNone),
           (F_is_returned, SET, VBool False)] @
          (if to = St_Approved then [(F_completed_at, SET_NOW, VNone)] else []) @
          set_if_given p ''confirmation_notes'' F_manager_confirmation_notes SET
      | MANAGER_RETURN_TO_WORK \<Rightarrow>
          [(F_is_returned, SET, VBool False),
           (F_manager_confirmed, SET, VBool False),
           (F_manager_return_reason, SET, strip_val (pget p ''reason''))]
      | APPLICANT_ACCEPT \<Rightarrow> [(F_completed_at, SET_NOW, VNone)]
      | APPLICANT_RETURN \<Rightarrow>
          [(F_is_returned, SET, VBool True),
           (F_return_reason, SET, pget p ''return_reason''),
           (F_return_media, SET, pget_or_empty_list p ''return_media''),
           (F_returned_at, SET_NOW, VNone),
           (F_returned_by, SET_ACTOR, VNone),
           (F_manager_confirmed, SET, VBool False)]
      | MANAGER_FORCE_ACCEPT \<Rightarrow>
          [(F_completed_at, SET_NOW, VNone),
           (F_is_returned, SET, VBool False)] @
          set_if_given p ''confirmation_notes'' F_manager_confirmation_notes APPEND
      | CANCEL \<Rightarrow> set_if_given p ''notes'' F_notes APPEND
      | CLARIFY_RESOLVED \<Rightarrow> []
      | EXECUTOR_RESUME \<Rightarrow> [])"

definition is_assign_action :: "action \<Rightarrow> bool" where
  "is_assign_action act \<longleftrightarrow> act \<in> {SYSTEM_DISPATCH_ASSIGN, MANAGER_ASSIGN, ASSIGN_GROUP}"

definition build_domain_ops :: "action \<Rightarrow> payload \<Rightarrow> domain_op list" where
  "build_domain_ops act p =
     (if act = APPLICANT_ACCEPT then [CreateRating (pget p ''rating'')]
      else if act = CANCEL then [CancelActiveAssignments]
      else if act = EXECUTOR_CLAIM then [ClaimGroupAssignment]
      else if act = SYSTEM_AUTO_PROMOTE then [PromoteGroupAssignment (pget p ''executor_id'')]
      else if is_assign_action act then
        (if pget p ''executor_id'' \<noteq> VNone \<or> pget p ''group'' \<noteq> VNone
         then [CreateAssignment p] else [])
      else [])"

definition safe_payload_keys :: "string list" where
  "safe_payload_keys = [''rating'', ''executor_id'', ''group'', ''reason'', ''question'']"

definition safe_payload :: "payload \<Rightarrow> payload" where
  "safe_payload p = filter (\<lambda>(k, v). k \<in> set safe_payload_keys) p"

definition principal_id_of :: "principal_ref \<Rightarrow> principal_id" where
  "principal_id_of p =
     (case py_or_int (pr_user_id p) None of
        Some u \<Rightarrow> PidUser u
      | None \<Rightarrow> (case pr_system_actor p of None \<Rightarrow> PidNone | Some n \<Rightarrow> PidSystem n))"

definition public_of_canon :: "status \<Rightarrow> status" where
  "public_of_canon canon = (if canon = St_Returned then St_Completed else canon)"

definition build_events ::
    "action \<Rightarrow> principal_ref \<Rightarrow> request_state \<Rightarrow> status \<Rightarrow> payload \<Rightarrow> event_intent list" where
  "build_events act prin old new_canon p =
     (let old_public = project_public_status old;
          new_public = public_of_canon new_canon
      in [EvAudit \<lparr>au_action = act, au_old_canon = normalize_status old, au_new_canon = new_canon,
                   au_old_raw = rs_status old, au_principal_kind = pr_kind prin,
                   au_principal_id = principal_id_of prin, au_source = pr_source prin,
                   au_payload = safe_payload p\<rparr>] @
         (if new_public \<noteq> old_public
          then [EvWebhook (rs_number old) old_public new_public, EvRealtime (rs_number old) new_public]
          else []) @
         [EvNotify act (rs_number old)])"

definition effective_to_status :: "action \<Rightarrow> status \<Rightarrow> workflow_snapshot \<Rightarrow> status" where
  "effective_to_status act to snap =
     (if act = MANAGER_CONFIRM \<and> rs_acceptance_mode (sn_request snap) = acceptance_mode_manager
      then St_Approved else to)"

definition patch_sets_executor :: "patch \<Rightarrow> bool" where
  "patch_sets_executor pt \<longleftrightarrow>
     list_ex (\<lambda>(f, op, v). f = F_executor_id \<and> (op = SET \<or> op = SET_ACTOR)) pt"

definition in_progress_has_executor :: "status \<Rightarrow> workflow_snapshot \<Rightarrow> patch \<Rightarrow> bool" where
  "in_progress_has_executor to snap pt =
     (if to \<noteq> St_InProgress then True
      else if patch_sets_executor pt then True
      else rs_executor_id (sn_request snap) \<noteq> None)"

definition group_value_ok :: "payload \<Rightarrow> bool" where
  "group_value_ok p =
     (case strip_val (pget p ''group'') of VStr g \<Rightarrow> is_canonical g | _ \<Rightarrow> False)"

definition group_text :: "payload \<Rightarrow> string" where
  "group_text p = (case strip_val (pget p ''group'') of VStr g \<Rightarrow> g | _ \<Rightarrow> [])"

definition plan_transition ::
    "workflow_snapshot \<Rightarrow> action_command \<Rightarrow> actor_context \<Rightarrow> principal_ref
     \<Rightarrow> workflow_error + transition_result" where
  "plan_transition snap command actor prin =
     (let act = cmd_action command;
          sp = action_table act;
          p = cmd_payload command;
          canon = normalize_status (sn_request snap)
      in case validate_payload (payload_schemas act) p of
           Some e \<Rightarrow> Inl (PayloadInvalid e)
         | None \<Rightarrow>
             if act = ASSIGN_GROUP \<and> \<not> group_value_ok p
             then Inl (PayloadInvalid (UnknownSpecialization (group_text p)))
             else if act \<notin> set (allowed_actions snap actor) then
               (if canon \<in> set (sp_from sp) \<or> canon = sp_to sp then Inl NotAuthorized
                else Inl InvalidTransition)
             else if canon \<notin> set (sp_from sp) then Inl InvalidTransition
             else
               (let to = effective_to_status act (sp_to sp) snap;
                    pt = build_patch act to actor p
                in if \<not> in_progress_has_executor to snap pt then Inl InvalidTransition
                   else Inr \<lparr>tr_old_state = sn_request snap, tr_new_canon = to, tr_patch = pt,
                             tr_domain_ops = build_domain_ops act p,
                             tr_events = build_events act prin (sn_request snap) to p,
                             tr_no_op = False\<rparr>))"

definition no_op_result :: "workflow_snapshot \<Rightarrow> transition_result" where
  "no_op_result snap =
     \<lparr>tr_old_state = sn_request snap, tr_new_canon = normalize_status (sn_request snap),
      tr_patch = [], tr_domain_ops = [], tr_events = [], tr_no_op = True\<rparr>"

definition check_repeat ::
    "workflow_snapshot \<Rightarrow> action_command \<Rightarrow> workflow_error + transition_result option" where
  "check_repeat snap command =
     (let sp = action_table (cmd_action command);
          canon = normalize_status (sn_request snap)
      in if canon \<noteq> sp_to sp \<or> canon \<in> set (sp_from sp) then Inr None
         else case sp_policy sp of
                REPEATABLE \<Rightarrow> Inr None
              | REJECT \<Rightarrow> Inl RepeatRejected
              | NO_OP_IF_SAME \<Rightarrow>
                  (if list_ex (\<lambda>(k, v). v \<noteq> VNone \<and> v \<noteq> VStr [] \<and> v \<noteq> VList []) (cmd_payload command)
                   then Inl RepeatConflict
                   else Inr (Some (no_op_result snap))))"

subsection \<open>Status-based commands\<close>

definition status_resolve_exclude :: "action list" where
  "status_resolve_exclude = [EXECUTOR_CLAIM, SYSTEM_AUTO_PROMOTE]"

fun resolve_priority :: "action \<Rightarrow> nat" where
  "resolve_priority APPLICANT_ACCEPT = 0"
| "resolve_priority APPLICANT_RETURN = 0"
| "resolve_priority EXECUTOR_COMPLETE = 0"
| "resolve_priority EXECUTOR_PURCHASE = 0"
| "resolve_priority EXECUTOR_RESUME = 0"
| "resolve_priority MANAGER_CONFIRM = 1"
| "resolve_priority MANAGER_ASSIGN = 1"
| "resolve_priority MANAGER_RETURN_TO_WORK = 1"
| "resolve_priority MANAGER_PURCHASE_DONE = 1"
| "resolve_priority MANAGER_PURCHASE = 1"
| "resolve_priority MANAGER_COMPLETE = 1"
| "resolve_priority CLARIFY_REQUEST = 1"
| "resolve_priority CLARIFY_RESOLVED = 1"
| "resolve_priority MANAGER_FORCE_ACCEPT = 2"
| "resolve_priority CANCEL = 2"
| "resolve_priority _ = 9"

text \<open>\<open>allowed_actions\<close> returns a frozenset, whose iteration order Python does not fix:
  the order met in a run is the argument \<open>order\<close>.  The candidate sort is stable.\<close>

definition resolve_candidates ::
    "action list \<Rightarrow> legacy_status_intent \<Rightarrow> action list" where
  "resolve_candidates order intent =
     (let candidates = filter (\<lambda>a. sp_to (action_table a) = in_target intent \<and>
                                    a \<notin> set status_resolve_exclude) order
      in if \<not> py_truthy (pget (in_payload intent) ''rating'')
         then filter (\<lambda>a. a \<noteq> APPLICANT_ACCEPT) candidates
         else candidates)"

definition resolve_command ::
    "action list \<Rightarrow> legacy_status_intent \<Rightarrow> workflow_error + action_command" where
  "resolve_command order intent =
     (case sort_key resolve_priority (resolve_candidates order intent) of
        [] \<Rightarrow> Inl InvalidTransition
      | a # _ \<Rightarrow> Inr \<lparr>cmd_id = in_id intent, cmd_action = a, cmd_payload = in_payload intent\<rparr>)"

subsection \<open>Edits outside the workflow\<close>

definition editable_fields :: "string list" where
  "editable_fields = [''urgency'', ''notes'', ''description'', ''category'']"

definition validate_edits :: "request_state \<Rightarrow> payload \<Rightarrow> workflow_error + unit" where
  "validate_edits st edits =
     (if edits = [] then Inr ()
      else if \<not> set (map fst edits) \<subseteq> set editable_fields then Inl EditForbidden
      else if is_terminal (normalize_status st) then Inl EditForbidden
      else Inr ())"

subsection \<open>What a successful plan is\<close>

definition planned_result ::
    "workflow_snapshot \<Rightarrow> action_command \<Rightarrow> actor_context \<Rightarrow> principal_ref \<Rightarrow> transition_result" where
  "planned_result snap command actor prin =
     (let act = cmd_action command; p = cmd_payload command;
          to = effective_to_status act (sp_to (action_table act)) snap
      in \<lparr>tr_old_state = sn_request snap, tr_new_canon = to, tr_patch = build_patch act to actor p,
          tr_domain_ops = build_domain_ops act p,
          tr_events = build_events act prin (sn_request snap) to p, tr_no_op = False\<rparr>)"

lemma plan_Inr_iff:
  "plan_transition snap command actor prin = Inr r \<longleftrightarrow>
     validate_payload (payload_schemas (cmd_action command)) (cmd_payload command) = None \<and>
     (cmd_action command = ASSIGN_GROUP \<longrightarrow> group_value_ok (cmd_payload command)) \<and>
     action_allowed snap actor (cmd_action command) \<and>
     in_progress_has_executor (tr_new_canon (planned_result snap command actor prin)) snap
       (tr_patch (planned_result snap command actor prin)) \<and>
     r = planned_result snap command actor prin"
  using allowed_from [of snap actor "cmd_action command"]
  by (auto simp: plan_transition_def planned_result_def Let_def allowed_iff split: option.splits)

lemma effective_to_cases:
  "effective_to_status act to snap = to \<or>
   (act = MANAGER_CONFIRM \<and> effective_to_status act to snap = St_Approved \<and>
    rs_acceptance_mode (sn_request snap) = acceptance_mode_manager)"
  by (auto simp: effective_to_status_def)

lemma effective_to_canonical:
  "effective_to_status act (sp_to (action_table act)) snap \<in> set canon_statuses"
  using effective_to_cases [of act "sp_to (action_table act)" snap] to_canonical [of act]
  by (auto simp: canon_statuses_def)

text \<open>Which actions lead into work.\<close>

lemma to_in_progress_iff:
  "effective_to_status act (sp_to (action_table act)) snap = St_InProgress \<longleftrightarrow>
   act \<in> {SYSTEM_DISPATCH_ASSIGN, MANAGER_ASSIGN, MANAGER_PURCHASE_DONE, CLARIFY_RESOLVED,
           EXECUTOR_RESUME, EXECUTOR_CLAIM, SYSTEM_AUTO_PROMOTE, MANAGER_RETURN_TO_WORK}"
  by (cases act) (auto simp: effective_to_status_def spec_def)

text \<open>What validation says of the fields an assignment uses.\<close>

lemma valid_assign_payload:
  assumes "validate_payload (payload_schemas act) p = None"
  shows "act \<in> {SYSTEM_DISPATCH_ASSIGN, MANAGER_ASSIGN, SYSTEM_AUTO_PROMOTE} \<Longrightarrow>
      isinstance (pget p ''executor_id'') TInt \<and> pget p ''group'' = VNone"
    and "act = ASSIGN_GROUP \<Longrightarrow>
      isinstance (pget p ''group'') TStr \<and> pget p ''executor_id'' = VNone"
proof -
  assume a: "act \<in> {SYSTEM_DISPATCH_ASSIGN, MANAGER_ASSIGN, SYSTEM_AUTO_PROMOTE}"
  have "(''executor_id'', TInt) \<in> set (ps_required (payload_schemas act))"
    using a by (auto simp: schema_def)
  then obtain v where "map_of p ''executor_id'' = Some v" "isinstance v TInt"
    using validate_required [OF assms] by blast
  moreover have "pget p ''group'' = VNone"
    by (rule validate_absent [OF assms]) (use a in \<open>auto simp: schema_def\<close>)
  ultimately show "isinstance (pget p ''executor_id'') TInt \<and> pget p ''group'' = VNone"
    by (simp add: pget_def)
next
  assume a: "act = ASSIGN_GROUP"
  then have "(''group'', TStr) \<in> set (ps_required (payload_schemas act))"
    by (simp add: schema_def)
  then obtain v where "map_of p ''group'' = Some v" "isinstance v TStr"
    using validate_required [OF assms] by blast
  moreover have "pget p ''executor_id'' = VNone"
    by (rule validate_absent [OF assms]) (use a in \<open>auto simp: schema_def\<close>)
  ultimately show "isinstance (pget p ''group'') TStr \<and> pget p ''executor_id'' = VNone"
    by (simp add: pget_def)
qed

text \<open>The status of every patch comes first and is written once.\<close>

lemma set_if_given_fields: "set (map fst (set_if_given p key f op)) \<subseteq> {f}"
  by (auto simp: set_if_given_def)

lemma assign_ops_fields:
  "set (map fst (assign_ops actor p)) \<subseteq>
     {F_executor_id, F_assignment_type, F_assigned_group, F_assigned_at, F_assigned_by}"
  by (auto simp: assign_ops_def Let_def)

lemma complete_ops_fields:
  "set (map fst (complete_ops p)) \<subseteq> {F_completion_report, F_completion_media, F_is_returned}"
  by (auto simp: complete_ops_def set_if_given_def)

lemma patch_status_once: "F_status \<notin> set (map fst (tl (build_patch act to actor p)))"
  using assign_ops_fields [of actor p] complete_ops_fields [of p]
  by (cases act) (auto simp: build_patch_def set_if_given_def)

lemma patch_status_first:
  "build_patch act to actor p = (F_status, SET, VStatus to) # tl (build_patch act to actor p)"
  by (simp add: build_patch_def storage_status_def)

lemma safe_payload_keys_only:
  "(k, v) \<in> set (safe_payload p) \<Longrightarrow> k \<in> set safe_payload_keys \<and> (k, v) \<in> set p"
  by (auto simp: safe_payload_def)

subsection \<open>Resolution does not depend on the iteration order\<close>

text \<open>Two candidates for one target are ranked apart: priorities are injective on what one
  actor may do from one status towards one target.\<close>

definition ranked_apart :: "action \<Rightarrow> action \<Rightarrow> bool" where
  "ranked_apart a b \<longleftrightarrow>
     a = b \<or> sp_to (action_table a) \<noteq> sp_to (action_table b) \<or>
     resolve_priority a \<noteq> resolve_priority b \<or>
     a \<in> set status_resolve_exclude \<or> b \<in> set status_resolve_exclude \<or>
     sp_system_only (action_table a) \<noteq> sp_system_only (action_table b) \<or>
     \<not> list_ex (\<lambda>s. s \<in> set (sp_from (action_table b))) (sp_from (action_table a))"

lemma ranked_apart_all: "list_all (\<lambda>a. list_all (ranked_apart a) all_actions) all_actions"
  by code_simp

lemma resolve_priority_inj:
  assumes a: "action_allowed snap actor a" and b: "action_allowed snap actor b"
    and "sp_to (action_table a) = sp_to (action_table b)"
    and ex: "a \<notin> set status_resolve_exclude" "b \<notin> set status_resolve_exclude"
    and "resolve_priority a = resolve_priority b"
  shows "a = b"
proof -
  have f: "normalize_status (sn_request snap) \<in> set (sp_from (action_table a))"
    "normalize_status (sn_request snap) \<in> set (sp_from (action_table b))"
    by (rule allowed_from [OF a], rule allowed_from [OF b])
  have "sp_system_only (action_table a) = sp_system_only (action_table b) \<or>
      ac_kind actor = System"
    using system_only_user [OF _ a] system_only_user [OF _ b] by (metis principal_kind.exhaust)
  moreover have ?thesis if "ac_kind actor = System"
    using system_actor_actions [OF that a] system_actor_actions [OF that b] assms(3) ex
    by (auto simp: spec_def status_resolve_exclude_def)
  moreover have "ranked_apart a b"
    using ranked_apart_all by (simp add: list_all_iff)
  ultimately show ?thesis
    using f assms(3-6) by (auto simp: ranked_apart_def list_ex_iff)
qed

lemma sort_key_Nil_iff [simp]: "sort_key f xs = [] \<longleftrightarrow> xs = []"
  using length_sort [of f xs] by (metis length_0_conv)

lemma sort_key_hd_least:
  fixes f :: "'a \<Rightarrow> nat"
  assumes "xs \<noteq> []"
  shows "hd (sort_key f xs) \<in> set xs" "z \<in> set xs \<Longrightarrow> f (hd (sort_key f xs)) \<le> f z"
proof -
  obtain w ws where w: "sort_key f xs = w # ws"
    using assms by (cases "sort_key f xs") auto
  have st: "set (w # ws) = set xs" by (simp flip: w)
  have "sorted (map f (w # ws))" using sorted_sort_key [of f xs] w by simp
  then show "hd (sort_key f xs) \<in> set xs" "z \<in> set xs \<Longrightarrow> f (hd (sort_key f xs)) \<le> f z"
    using st w by auto
qed

lemma sort_key_hd_unique:
  fixes f :: "'a \<Rightarrow> nat"
  assumes s: "set xs = set ys" and inj: "inj_on f (set xs)" and ne: "xs \<noteq> []"
  shows "hd (sort_key f xs) = hd (sort_key f ys)"
proof -
  have ne': "ys \<noteq> []" using s ne by auto
  have m: "hd (sort_key f xs) \<in> set ys" "hd (sort_key f ys) \<in> set xs"
    using sort_key_hd_least(1) [OF ne, of f] sort_key_hd_least(1) [OF ne', of f] s by auto
  then have "f (hd (sort_key f xs)) = f (hd (sort_key f ys))"
    using sort_key_hd_least(2) [OF ne] sort_key_hd_least(2) [OF ne'] by (meson le_antisym)
  then show ?thesis using m s by (intro inj_onD [OF inj]) auto
qed

lemma resolve_candidates_set:
  "set order = set order' \<Longrightarrow>
   set (resolve_candidates order intent) = set (resolve_candidates order' intent)"
  by (auto simp: resolve_candidates_def Let_def)

lemma resolve_order_irrelevant:
  assumes "set order = set (allowed_actions snap actor)"
  shows "resolve_command order intent = resolve_command (allowed_actions snap actor) intent"
proof -
  let ?xs = "resolve_candidates order intent"
  let ?ys = "resolve_candidates (allowed_actions snap actor) intent"
  have s: "set ?xs = set ?ys" by (rule resolve_candidates_set [OF assms])
  have inj: "inj_on resolve_priority (set ?xs)"
    using assms resolve_priority_inj [of snap actor]
    by (auto simp: inj_on_def resolve_candidates_def Let_def allowed_iff split: if_splits)
  show ?thesis
  proof (cases "?xs = []")
    case True
    then show ?thesis using s by (simp add: resolve_command_def)
  next
    case False
    then have "sort_key resolve_priority ?xs \<noteq> []" "sort_key resolve_priority ?ys \<noteq> []"
      using s by auto
    then show ?thesis using sort_key_hd_unique [OF s inj False]
      by (auto simp: resolve_command_def split: list.splits)
  qed
qed

lemma resolve_Inr:
  assumes "resolve_command order intent = Inr c"
  shows "cmd_action c \<in> set order" "sp_to (action_table (cmd_action c)) = in_target intent"
    "cmd_payload c = in_payload intent" "cmd_action c \<notin> set status_resolve_exclude"
proof -
  obtain w ws where "sort_key resolve_priority (resolve_candidates order intent) = w # ws"
    and c: "c = \<lparr>cmd_id = in_id intent, cmd_action = w, cmd_payload = in_payload intent\<rparr>"
    using assms by (auto simp: resolve_command_def split: list.splits)
  then have "w \<in> set (resolve_candidates order intent)"
    using set_sort [of resolve_priority "resolve_candidates order intent"] by auto
  then show "cmd_action c \<in> set order" "sp_to (action_table (cmd_action c)) = in_target intent"
    "cmd_payload c = in_payload intent" "cmd_action c \<notin> set status_resolve_exclude"
    by (auto simp: c resolve_candidates_def Let_def split: if_splits)
qed

end
