(* ===== verification/WebhookOutbox.thy ===== *)
theory WebhookOutbox
  imports RequestTypes PyJson
begin

section \<open>The transactional webhook outbox\<close>

text \<open>
  Models the write side of \<open>services/webhook_sender.py\<close>: the deterministic identity of a
  contract event, the request payload and the outbox insert with its conflict rule, and the
  status-changed emitters of \<open>services/webhook_payloads.py\<close>.  \<open>uuid.uuid5\<close> is a hash of
  the identity text; the model keeps the text itself as the event id, so two ids are equal
  exactly when the texts are.  Delivery over HTTP is not part of this theory.
\<close>

definition versioned_events :: "string list" where
  "versioned_events =
     [''building.updated'', ''building.deleted'', ''request.status_changed'', ''request.reconcile'']"

definition one_shot_events :: "string list" where
  "one_shot_events = [''building.created'', ''request.created'']"

definition repair_only_events :: "string list" where
  "repair_only_events = [''request.reconcile'']"

record event_identity =
  ei_version :: "int option"
  ei_repair :: "string option"

definition no_identity :: event_identity where
  "no_identity = \<lparr>ei_version = None, ei_repair = None\<rparr>"

definition version_identity :: "int \<Rightarrow> event_identity" where
  "version_identity v = \<lparr>ei_version = Some v, ei_repair = None\<rparr>"

datatype identity_error =
    MutuallyExclusive | UnknownEvent | RepairTakesNoVersion | RepairRunRequired
  | VersionRequired | OneShotTakesNoVersion

definition colon :: char where "colon = CHR '':''"

definition event_name :: "string \<Rightarrow> string \<Rightarrow> string \<Rightarrow> string" where
  "event_name source event key = source @ colon # event @ colon # key"

definition deterministic_event_id ::
    "string \<Rightarrow> string \<Rightarrow> string \<Rightarrow> event_identity option \<Rightarrow> identity_error + string" where
  "deterministic_event_id source event key identity =
     (let ident = (case identity of None \<Rightarrow> no_identity | Some i \<Rightarrow> i)
      in if ei_version ident \<noteq> None \<and> ei_repair ident \<noteq> None then Inl MutuallyExclusive
         else if event \<notin> set versioned_events \<and> event \<notin> set one_shot_events then Inl UnknownEvent
         else if event \<in> set repair_only_events \<and> ei_version ident \<noteq> None
         then Inl RepairTakesNoVersion
         else if event \<in> set repair_only_events \<and> \<not> py_truthy_str (ei_repair ident)
         then Inl RepairRunRequired
         else case ei_repair ident of
                Some run \<Rightarrow> Inr (event_name source event key @ '':repair:'' @ run)
              | None \<Rightarrow>
                  if event \<in> set versioned_events
                  then (case ei_version ident of
                          None \<Rightarrow> Inl VersionRequired
                        | Some v \<Rightarrow> Inr (event_name source event key @ colon # int_str v))
                  else if ei_version ident \<noteq> None then Inl OneShotTakesNoVersion
                  else Inr (event_name source event key))"

record request_payload =
  rp_event_id :: string
  rp_event :: string
  rp_timestamp :: instant
  rp_request :: payload
  rp_repair :: bool

definition pget_default :: "payload \<Rightarrow> string \<Rightarrow> pyval \<Rightarrow> pyval" where
  "pget_default p key d = (case map_of p key of None \<Rightarrow> d | Some v \<Rightarrow> v)"

text \<open>\<open>build_request_payload\<close> on a data dictionary whose \<open>request_number\<close> is \<open>num\<close>.\<close>

definition build_request_payload ::
    "string \<Rightarrow> instant \<Rightarrow> string \<Rightarrow> string \<Rightarrow> payload \<Rightarrow> event_identity option
     \<Rightarrow> identity_error + request_payload" where
  "build_request_payload source now event num data identity =
     res_bind (deterministic_event_id source event num identity)
       (\<lambda>eid.
          let base = [(''request_number'', VStr num)];
              extra =
                (if event = ''request.created'' then
                   map (\<lambda>k. (k, pget_default data k (VStr [])))
                     [''category'', ''status'', ''urgency'', ''description'', ''address''] @
                   [(''apartment_id'', pget data ''apartment_id''),
                    (''created_at'', pget_default data ''created_at'' (VTime now))]
                 else if event = ''request.status_changed'' then
                   [(''old_status'', pget_default data ''old_status'' (VStr [])),
                    (''new_status'', pget_default data ''new_status'' (VStr []))]
                 else if event = ''request.reconcile'' then
                   [(''status'', pget_default data ''status'' (VStr [])),
                    (''building_external_id'', pget data ''building_external_id'')]
                 else []);
              src = (if py_truthy (pget data ''source_event_id'')
                     then [(''source_event_id'', pget data ''source_event_id'')] else [])
          in Inr \<lparr>rp_event_id = eid, rp_event = event, rp_timestamp = now,
                  rp_request = base @ extra @ src,
                  rp_repair = (case identity of None \<Rightarrow> False | Some i \<Rightarrow> ei_repair i \<noteq> None)\<rparr>)"

record outbox_row =
  ob_event_id :: string
  ob_event :: string
  ob_payload :: request_payload
  ob_status :: string

text \<open>\<open>INSERT ... ON CONFLICT (event_id) DO NOTHING\<close>.\<close>

definition outbox_insert :: "outbox_row list \<Rightarrow> outbox_row \<Rightarrow> outbox_row list" where
  "outbox_insert rows r =
     (if ob_event_id r \<in> ob_event_id ` set rows then rows else rows @ [r])"

definition build_outbox_record ::
    "string \<Rightarrow> instant \<Rightarrow> string \<Rightarrow> string \<Rightarrow> payload \<Rightarrow> event_identity option
     \<Rightarrow> identity_error + outbox_row" where
  "build_outbox_record source now event num data identity =
     res_bind (build_request_payload source now event num data identity)
       (\<lambda>p. Inr \<lparr>ob_event_id = rp_event_id p, ob_event = event, ob_payload = p,
                  ob_status = ''pending''\<rparr>)"

text \<open>The settings the emitters read: the instance name and the switch.\<close>

record outbox_settings =
  os_source :: string
  os_enabled :: bool

definition queue_webhook ::
    "outbox_settings \<Rightarrow> instant \<Rightarrow> string \<Rightarrow> string \<Rightarrow> payload \<Rightarrow> event_identity option
     \<Rightarrow> outbox_row list \<Rightarrow> identity_error + outbox_row list" where
  "queue_webhook cfg now event num data identity rows =
     (if \<not> os_enabled cfg then Inr rows
      else res_bind (build_outbox_record (os_source cfg) now event num data identity)
             (\<lambda>r. Inr (outbox_insert rows r)))"

definition build_request_status_changed_payload :: "string \<Rightarrow> status \<Rightarrow> status \<Rightarrow> payload" where
  "build_request_status_changed_payload num old new =
     [(''request_number'', VStr num), (''old_status'', VStatus old), (''new_status'', VStatus new)]"

definition emit_request_status_changed ::
    "outbox_settings \<Rightarrow> instant \<Rightarrow> string \<Rightarrow> status \<Rightarrow> status \<Rightarrow> event_identity option
     \<Rightarrow> outbox_row list \<Rightarrow> identity_error + outbox_row list" where
  "emit_request_status_changed cfg now num old new identity rows =
     queue_webhook cfg now ''request.status_changed'' num
       (build_request_status_changed_payload num old new) identity rows"

subsection \<open>Identities\<close>

lemma int_str_no_colon: "colon \<notin> set (int_str i)"
  using nat_str_digit [of colon "nat i"] nat_str_digit [of colon "nat (- i)"]
  by (auto simp: int_str_def is_digit_def colon_def)

lemma last_colon_split:
  assumes "a @ colon # x = b @ colon # y" "colon \<notin> set x" "colon \<notin> set y"
  shows "a = b \<and> x = y"
  using assms by (auto simp: append_eq_append_conv2 append_eq_Cons_conv Cons_eq_append_conv)

definition status_changed_name :: "string \<Rightarrow> string \<Rightarrow> int \<Rightarrow> string" where
  "status_changed_name source num v =
     event_name source ''request.status_changed'' num @ colon # int_str v"

lemma status_changed_id:
  "deterministic_event_id source ''request.status_changed'' num (Some (version_identity v)) =
     Inr (status_changed_name source num v)"
  by (simp add: deterministic_event_id_def version_identity_def versioned_events_def
      repair_only_events_def status_changed_name_def)

text \<open>Two versioned ids of one instance are equal only for one request and one version,
  whatever the request numbers contain.\<close>

lemma status_changed_name_inj:
  "status_changed_name source num v = status_changed_name source num' v' \<Longrightarrow> num = num' \<and> v = v'"
proof -
  assume "status_changed_name source num v = status_changed_name source num' v'"
  then have "event_name source ''request.status_changed'' num =
      event_name source ''request.status_changed'' num' \<and> int_str v = int_str v'"
    unfolding status_changed_name_def
    by (rule last_colon_split [OF _ int_str_no_colon int_str_no_colon])
  then show "num = num' \<and> v = v'" by (auto simp: event_name_def dest: int_str_inj)
qed

text \<open>An unversioned, unrepaired status change is refused: there is no silent random id.\<close>

lemma status_changed_needs_identity:
  "deterministic_event_id source ''request.status_changed'' num None = Inl VersionRequired"
  by (simp add: deterministic_event_id_def no_identity_def versioned_events_def
      repair_only_events_def)

subsection \<open>The outbox keeps one row per event id\<close>

lemma outbox_insert_distinct:
  "distinct (map ob_event_id rows) \<Longrightarrow> distinct (map ob_event_id (outbox_insert rows r))"
  by (auto simp: outbox_insert_def)

lemma outbox_insert_prefix: "\<exists>tail. outbox_insert rows r = rows @ tail"
  by (simp add: outbox_insert_def)

definition status_changed_row ::
    "string \<Rightarrow> instant \<Rightarrow> string \<Rightarrow> status \<Rightarrow> status \<Rightarrow> int \<Rightarrow> outbox_row" where
  "status_changed_row source now num old new v =
     \<lparr>ob_event_id = status_changed_name source num v, ob_event = ''request.status_changed'',
      ob_payload =
        \<lparr>rp_event_id = status_changed_name source num v, rp_event = ''request.status_changed'',
         rp_timestamp = now,
         rp_request = [(''request_number'', VStr num), (''old_status'', VStatus old),
                       (''new_status'', VStatus new)],
         rp_repair = False\<rparr>,
      ob_status = ''pending''\<rparr>"

lemma emit_status_changed:
  "emit_request_status_changed cfg now num old new (Some (version_identity v)) rows =
     Inr (if os_enabled cfg
          then outbox_insert rows (status_changed_row (os_source cfg) now num old new v)
          else rows)"
  using status_changed_id [of "os_source cfg" num v]
  by (simp add: emit_request_status_changed_def queue_webhook_def build_outbox_record_def
      build_request_payload_def status_changed_row_def build_request_status_changed_payload_def
      pget_default_def pget_def version_identity_def)

text \<open>The deterministic id of a status change determines its request and its version,
  whatever the request numbers contain, and without an identity there is no id at all.\<close>

theorem status_changed_id_injective:
  assumes "deterministic_event_id source ''request.status_changed'' num (Some (version_identity v)) = Inr x"
    and "deterministic_event_id source ''request.status_changed'' num' (Some (version_identity v')) = Inr x"
  shows "num = num' \<and> v = v' \<and>
         deterministic_event_id source ''request.status_changed'' num None = Inl VersionRequired"
proof -
  have "status_changed_name source num v = status_changed_name source num' v'"
    using assms by (simp add: status_changed_id)
  from status_changed_name_inj [OF this] show ?thesis
    by (simp add: status_changed_needs_identity)
qed

lemma status_changed_id_injective_witness:
  "\<exists>x. deterministic_event_id ''uk'' ''request.status_changed'' ''250101-001''
         (Some (version_identity 3)) = Inr x \<and>
       deterministic_event_id ''uk'' ''request.status_changed'' ''250101-001'' None = Inl VersionRequired"
  using status_changed_id_injective [OF status_changed_id status_changed_id,
      where source = "''uk''" and num = "''250101-001''" and v = 3]
  by (simp add: status_changed_id)

end
