(* ===== verification/AuthHelpers.thy ===== *)
theory AuthHelpers
  imports Specializations
begin

section \<open>Roles of a user and the on-shift predicate\<close>

text \<open>
  Models the role readers of \<open>utils/auth_helpers.py\<close> (the role column is a JSON array or a
  CSV text) and the shift window of \<open>utils/shifts.py\<close>.
\<close>

record user_row =
  us_id :: user_id
  us_telegram_id :: int
  us_roles :: "string option"
  us_active_role :: "string option"
  us_specialization :: raw_value

text \<open>The \<open>str\<close> members of a decoded list.\<close>

definition str_items :: "jscalar list \<Rightarrow> string list" where
  "str_items vs = List.map_filter (\<lambda>v. case v of JStr s \<Rightarrow> Some s | _ \<Rightarrow> None) vs"

definition parse_roles_safe :: "raw_value \<Rightarrow> string list" where
  "parse_roles_safe roles_value =
     (case roles_value of
        RawNone \<Rightarrow> []
      | RawItems rs \<Rightarrow> rs
      | RawOther t \<Rightarrow> []
      | RawText s \<Rightarrow>
          (if s = [] then []
           else case json_loads s of
                  Some (JList vs) \<Rightarrow> str_items vs
                | Some (JScalar v) \<Rightarrow> []
                | None \<Rightarrow> strip_tokens (py_split (CHR '','') s)))"

definition role_column :: "string option \<Rightarrow> raw_value" where
  "role_column v = (case v of None \<Rightarrow> RawNone | Some s \<Rightarrow> RawText s)"

definition given_roles :: "string list option \<Rightarrow> string list" where
  "given_roles roles = (case roles of None \<Rightarrow> [] | Some rs \<Rightarrow> rs)"

definition user_role_list :: "user_row option \<Rightarrow> string list" where
  "user_role_list user =
     (case user of None \<Rightarrow> [] | Some u \<Rightarrow> parse_roles_safe (role_column (us_roles u)))"

definition has_admin_access :: "string list option \<Rightarrow> user_row option \<Rightarrow> bool" where
  "has_admin_access roles user =
     (if list_ex (\<lambda>r. r \<in> {''admin'', ''manager''}) (given_roles roles) then True
      else list_ex (\<lambda>r. r \<in> {''admin'', ''manager''}) (user_role_list user))"

definition has_manager_role :: "string list option \<Rightarrow> user_row option \<Rightarrow> bool" where
  "has_manager_role roles user =
     (if ''manager'' \<in> set (given_roles roles) then True
      else ''manager'' \<in> set (user_role_list user))"

definition has_executor_access :: "string list option \<Rightarrow> user_row option \<Rightarrow> bool" where
  "has_executor_access roles user =
     (if list_ex (\<lambda>r. r \<in> {''executor'', ''manager'', ''admin''}) (given_roles roles) then True
      else case user of
             None \<Rightarrow> False
           | Some u \<Rightarrow>
               us_active_role u = Some ''executor'' \<or> ''executor'' \<in> set (user_role_list user))"

definition get_user_roles :: "user_row \<Rightarrow> string list" where
  "get_user_roles user =
     (let rs = parse_roles_safe (role_column (us_roles user))
      in if rs \<noteq> [] then rs else [''applicant''])"

definition get_active_role :: "user_row \<Rightarrow> string" where
  "get_active_role user =
     (case us_active_role user of
        Some r \<Rightarrow> if r \<noteq> [] then r else hd (get_user_roles user)
      | None \<Rightarrow> hd (get_user_roles user))"

definition legacy_primary_role :: "user_row \<Rightarrow> string option" where
  "legacy_primary_role user =
     (if py_truthy_str (us_active_role user) then us_active_role user
      else case parse_roles_safe (role_column (us_roles user)) of
             [] \<Rightarrow> None
           | r # _ \<Rightarrow> Some r)"

definition check_user_role :: "user_row list \<Rightarrow> user_id \<Rightarrow> string \<Rightarrow> bool" where
  "check_user_role users uid required =
     (case first_row (\<lambda>u. us_id u = uid) users of
        None \<Rightarrow> False
      | Some u \<Rightarrow> required \<in> set (get_user_roles u))"

subsection \<open>Shifts\<close>

record shift_row =
  sh_user_id :: "user_id option"
  sh_status :: string
  sh_start :: instant
  sh_end :: "instant option"

definition on_shift_window :: "instant \<Rightarrow> shift_row \<Rightarrow> bool" where
  "on_shift_window now s \<longleftrightarrow>
     sh_status s = ''active'' \<and> sh_start s \<le> now \<and>
     (case sh_end s of None \<Rightarrow> True | Some e \<Rightarrow> now \<le> e)"

definition on_shift_filter :: "user_id \<Rightarrow> instant \<Rightarrow> shift_row \<Rightarrow> bool" where
  "on_shift_filter uid now s \<longleftrightarrow> sh_user_id s = Some uid \<and> on_shift_window now s"

definition is_on_shift_now :: "shift_row list \<Rightarrow> user_id \<Rightarrow> instant \<Rightarrow> bool" where
  "is_on_shift_now shifts uid now \<longleftrightarrow> first_row (on_shift_filter uid now) shifts \<noteq> None"

lemma is_on_shift_iff:
  "is_on_shift_now shifts uid now \<longleftrightarrow> (\<exists>s. s \<in> set shifts \<and> on_shift_filter uid now s)"
  by (auto simp: is_on_shift_now_def first_row_None)

subsection \<open>Reading roles\<close>

lemma str_items_strs [simp]: "str_items (map JStr ss) = ss"
  by (induction ss) (auto simp: str_items_def map_filter_simps)

text \<open>The writer's encoding is read back, whatever plain texts the roles are.\<close>

lemma parse_roles_json:
  assumes "list_all plain_str rs"
  shows "parse_roles_safe (RawText (json_dumps_strs rs)) = rs"
proof -
  have "json_dumps_strs rs \<noteq> []" by (cases rs) simp_all
  then show ?thesis by (simp add: parse_roles_safe_def json_loads_dumps [OF assms])
qed

lemma get_user_roles_nonempty [simp]: "get_user_roles u \<noteq> []"
  by (simp add: get_user_roles_def Let_def)

text \<open>The active role of a user without one is among the roles granted.\<close>

lemma active_role_granted:
  "\<not> py_truthy_str (us_active_role u) \<Longrightarrow> get_active_role u \<in> set (get_user_roles u)"
  by (auto simp: get_active_role_def py_truthy_str_def split: option.splits)

lemma manager_has_admin_access:
  "has_manager_role roles user \<Longrightarrow> has_admin_access roles user"
  by (auto simp: has_manager_role_def has_admin_access_def list_ex_iff split: if_splits)

text \<open>The role column reads back what was written, as a JSON array of plain texts, and a user
  always has a role: the applicant's where none was written.\<close>

theorem stored_roles_read_back:
  assumes "list_all plain_str rs" "us_roles u = Some (json_dumps_strs rs)"
  shows "get_user_roles u = (if rs = [] then [''applicant''] else rs)"
  using parse_roles_json [OF assms(1)] assms(2)
  by (simp add: get_user_roles_def role_column_def)

lemma stored_roles_read_back_witness:
  "get_user_roles \<lparr>us_id = 1, us_telegram_id = 5,
     us_roles = Some (json_dumps_strs [''executor'', ''manager'']), us_active_role = None,
     us_specialization = RawNone\<rparr> = [''executor'', ''manager'']"
proof -
  have "list_all plain_str [''executor'', ''manager'']" by code_simp
  from stored_roles_read_back [OF this] show ?thesis by simp
qed

end
