(* ===== verification/WorkflowRunner.thy ===== *)
theory WorkflowRunner
  imports RequestPlanner WebhookOutbox AuthHelpers
begin

section \<open>The transactional runner\<close>

text \<open>
  Models \<open>services/workflow_runner.py\<close>: one command is one transaction that locks the request
  row, loads the actor and the snapshot from the tables, decides with the pure core, applies the
  patch, the domain operations, the audit row and the outbox row, and commits.  The tables are
  the fields of \<open>wf_db\<close>; a request row keeps the columns a patch may set as a function from
  column to value.  The row lock makes commands on one request serial, so a run is a sequence of
  commands.  Any exception rolls the transaction back: the error is the left of a sum and the
  database is the one before.  Constraints the database enforces (column types, foreign keys,
  one active assignment and one rating per request) are checked at commit.

  \<open>wall\<close> is the clock \<open>is_on_shift_now\<close> and the webhook timestamp read themselves; \<open>now\<close> is
  the argument of the command.
\<close>

record request_row =
  rq_number :: string
  rq_user_id :: user_id
  rq_apartment_id :: "int option"
  rq_acceptance_mode :: "string option"
  rq_status_version :: "int option"
  rq_cols :: "field \<Rightarrow> pyval"

record assignment_row =
  as_request :: string
  as_type :: string
  as_group :: "string option"
  as_executor :: "user_id option"
  as_created_by :: user_id
  as_status :: string

record rating_row =
  ra_request :: string
  ra_user :: user_id
  ra_rating :: int

record user_apartment_row =
  ua_user :: user_id
  ua_apartment :: int
  ua_status :: string

record audit_row =
  al_user :: "user_id option"
  al_data :: audit_data
  al_request :: string
  al_new_status :: status

record wf_db =
  db_requests :: "string \<Rightarrow> request_row option"
  db_assignments :: "assignment_row list"
  db_ratings :: "rating_row list"
  db_users :: "user_row list"
  db_user_apartments :: "user_apartment_row list"
  db_shifts :: "shift_row list"
  db_audit :: "audit_row list"
  db_outbox :: "outbox_row list"

record runner_settings =
  rn_outbox :: outbox_settings
  rn_system_telegram_id :: int

record command_outcome =
  oc_number :: string
  oc_no_op :: bool
  oc_old_state :: request_state
  oc_new_state :: request_state
  oc_old_status :: status
  oc_new_status :: status
  oc_new_canon :: status
  oc_public :: status
  oc_intents :: "event_intent list"

datatype command = Explicit action_command | ByStatus legacy_status_intent

subsection \<open>Reading a row\<close>

fun val_status :: "pyval \<Rightarrow> status" where
  "val_status (VStatus s) = s"
| "val_status _ = St_Other []"

fun val_int :: "pyval \<Rightarrow> int option" where
  "val_int (VInt i) = Some i"
| "val_int _ = None"

definition row_status :: "request_row \<Rightarrow> status" where
  "row_status r = val_status (rq_cols r F_status)"

definition row_executor :: "request_row \<Rightarrow> user_id option" where
  "row_executor r = val_int (rq_cols r F_executor_id)"

definition new_state_from :: "request_row \<Rightarrow> request_state" where
  "new_state_from r =
     \<lparr>rs_number = rq_number r, rs_user_id = rq_user_id r, rs_status = row_status r,
      rs_manager_confirmed = py_truthy (rq_cols r F_manager_confirmed),
      rs_is_returned = py_truthy (rq_cols r F_is_returned),
      rs_apartment_id = rq_apartment_id r, rs_executor_id = row_executor r,
      rs_acceptance_mode =
        (if py_truthy_str (rq_acceptance_mode r) then the (rq_acceptance_mode r)
         else acceptance_mode_resident)\<rparr>"

subsection \<open>The decision\<close>

definition decide ::
    "workflow_snapshot \<Rightarrow> action_command \<Rightarrow> actor_context \<Rightarrow> principal_ref
     \<Rightarrow> workflow_error + transition_result" where
  "decide snap command actor prin =
     (case check_repeat snap command of
        Inl e \<Rightarrow> Inl e
      | Inr (Some r) \<Rightarrow> Inr r
      | Inr None \<Rightarrow> plan_transition snap command actor prin)"

fun val_text :: "pyval \<Rightarrow> string" where
  "val_text (VStr s) = s"
| "val_text (VInt i) = int_str i"
| "val_text (VObj b s) = s"
| "val_text _ = []"

definition opt_int_val :: "int option \<Rightarrow> pyval" where
  "opt_int_val v = (case v of None \<Rightarrow> VNone | Some i \<Rightarrow> VInt i)"

text \<open>\<open>_op_value\<close>; an appended value has passed the schema and is a text.\<close>

fun op_value :: "patch_op \<Rightarrow> pyval \<Rightarrow> actor_context \<Rightarrow> instant \<Rightarrow> pyval \<Rightarrow> pyval" where
  "op_value SET v actor now cur = v"
| "op_value CLEAR v actor now cur = VNone"
| "op_value SET_ACTOR v actor now cur = opt_int_val (ac_user_id actor)"
| "op_value SET_NOW v actor now cur = VTime now"
| "op_value APPEND v actor now cur =
     VStr ((if py_truthy cur then val_text cur else []) @ val_text v)"

fun apply_patch ::
    "actor_context \<Rightarrow> instant \<Rightarrow> patch \<Rightarrow> (field \<Rightarrow> pyval) \<Rightarrow> (field \<Rightarrow> pyval)" where
  "apply_patch actor now [] cols = cols"
| "apply_patch actor now ((f, op, v) # rest) cols =
     apply_patch actor now rest (cols(f := op_value op v actor now (cols f)))"

definition build_audit :: "audit_data \<Rightarrow> request_row \<Rightarrow> actor_context \<Rightarrow> audit_row" where
  "build_audit ev req actor =
     \<lparr>al_user = (if ac_kind actor = User then ac_user_id actor else None), al_data = ev,
      al_request = rq_number req, al_new_status = row_status req\<rparr>"

definition split_intents :: "transition_result \<Rightarrow> event_intent list" where
  "split_intents result =
     filter (\<lambda>ev. case ev of EvRealtime _ _ \<Rightarrow> True | EvNotify _ _ \<Rightarrow> True | _ \<Rightarrow> False)
       (tr_events result)"

definition build_outcome ::
    "request_row \<Rightarrow> workflow_snapshot \<Rightarrow> transition_result \<Rightarrow> command_outcome" where
  "build_outcome req snap result =
     (let new_state = (if tr_no_op result then sn_request snap else new_state_from req);
          new_status = (if tr_no_op result then rs_status (sn_request snap) else row_status req)
      in \<lparr>oc_number = rs_number (sn_request snap), oc_no_op = tr_no_op result,
          oc_old_state = sn_request snap, oc_new_state = new_state,
          oc_old_status = rs_status (sn_request snap), oc_new_status = new_status,
          oc_new_canon = tr_new_canon result, oc_public = project_public_status new_state,
          oc_intents = split_intents result\<rparr>)"

subsection \<open>Loading the actor and the snapshot\<close>

definition get_approved_apartment_ids :: "wf_db \<Rightarrow> user_id \<Rightarrow> int set" where
  "get_approved_apartment_ids db uid =
     set (map ua_apartment
       (filter (\<lambda>u. ua_user u = uid \<and> ua_status u = ''approved'') (db_user_apartments db)))"

definition system_context :: "principal_ref \<Rightarrow> actor_context" where
  "system_context prin =
     \<lparr>ac_kind = System, ac_user_id = None, ac_system_actor = pr_system_actor prin, ac_roles = {},
      ac_active_role = None, ac_apartments = {}, ac_specializations = {}\<rparr>"

definition user_context :: "wf_db \<Rightarrow> user_row \<Rightarrow> actor_context" where
  "user_context db user =
     \<lparr>ac_kind = User, ac_user_id = Some (us_id user), ac_system_actor = None,
      ac_roles = set (get_user_roles user), ac_active_role = Some (get_active_role user),
      ac_apartments = get_approved_apartment_ids db (us_id user),
      ac_specializations = parse_specializations (us_specialization user)\<rparr>"

definition load_actor_context_sync :: "wf_db \<Rightarrow> principal_ref \<Rightarrow> workflow_error + actor_context" where
  "load_actor_context_sync db prin =
     (if pr_kind prin = System then Inr (system_context prin)
      else case first_row (\<lambda>u. Some (us_id u) = pr_user_id prin) (db_users db) of
             None \<Rightarrow> Inl NotAuthorized
           | Some user \<Rightarrow> Inr (user_context db user))"

definition active_for :: "string \<Rightarrow> assignment_row \<Rightarrow> bool" where
  "active_for num a \<longleftrightarrow> as_request a = num \<and> as_status a = ''active''"

definition build_snapshot_sync ::
    "wf_db \<Rightarrow> instant \<Rightarrow> request_row \<Rightarrow> actor_context \<Rightarrow> workflow_snapshot" where
  "build_snapshot_sync db wall req actor =
     (let active = first_row (active_for (rq_number req)) (db_assignments db);
          a_exec = (case active of None \<Rightarrow> None | Some a \<Rightarrow> as_executor a);
          a_type = map_option as_type active
      in \<lparr>sn_request = new_state_from req,
          sn_has_rating =
            (first_row (\<lambda>r. ra_request r = rq_number req) (db_ratings db) \<noteq> None),
          sn_assignment_executor = a_exec,
          sn_on_shift =
            (ac_kind actor = User \<and> role_executor \<in> ac_roles actor \<and>
             (case ac_user_id actor of
                None \<Rightarrow> False | Some uid \<Rightarrow> is_on_shift_now (db_shifts db) uid wall)),
          sn_assignment_type = a_type,
          sn_assignment_group = (case active of None \<Rightarrow> None | Some a \<Rightarrow> as_group a),
          sn_unclaimed = (a_type = Some ''group'' \<and> a_exec = None)\<rparr>)"

subsection \<open>Domain operations\<close>

text \<open>What a value written to an integer or text column of an associated row must be.\<close>

definition int_column :: "string \<Rightarrow> pyval \<Rightarrow> workflow_error + int option" where
  "int_column name v =
     (case v of VNone \<Rightarrow> Inr None | VInt i \<Rightarrow> Inr (Some i) | _ \<Rightarrow> Inl (ColumnTypeError name))"

definition text_column :: "string \<Rightarrow> pyval \<Rightarrow> workflow_error + string option" where
  "text_column name v =
     (case v of VNone \<Rightarrow> Inr None | VStr s \<Rightarrow> Inr (Some s) | _ \<Rightarrow> Inl (ColumnTypeError name))"

definition not_null :: "string \<Rightarrow> int option \<Rightarrow> workflow_error + int" where
  "not_null name v = (case v of None \<Rightarrow> Inl (IntegrityError name) | Some i \<Rightarrow> Inr i)"

definition set_assignments :: "wf_db \<Rightarrow> assignment_row list \<Rightarrow> wf_db" where
  "set_assignments db rows = db\<lparr>db_assignments := rows\<rparr>"

definition cancel_row :: "assignment_row \<Rightarrow> assignment_row" where
  "cancel_row a = a\<lparr>as_status := ''cancelled''\<rparr>"

definition cancel_active :: "string \<Rightarrow> assignment_row list \<Rightarrow> assignment_row list" where
  "cancel_active num rows = upd_where (active_for num) cancel_row rows"

definition unclaimed_group :: "string \<Rightarrow> assignment_row \<Rightarrow> bool" where
  "unclaimed_group num a \<longleftrightarrow>
     as_request a = num \<and> as_status a = ''active'' \<and> as_type a = ''group'' \<and> as_executor a = None"

definition make_individual :: "user_id option \<Rightarrow> assignment_row \<Rightarrow> assignment_row" where
  "make_individual e a = a\<lparr>as_type := ''individual'', as_executor := e\<rparr>"

definition group_to_individual ::
    "string \<Rightarrow> string \<Rightarrow> user_id option \<Rightarrow> wf_db \<Rightarrow> workflow_error + wf_db" where
  "group_to_individual what num e db =
     (if row_count (unclaimed_group num) (db_assignments db) \<noteq> 1 then Inl (WorkflowFault what)
      else Inr (set_assignments db
                 (upd_where (unclaimed_group num) (make_individual e) (db_assignments db))))"

definition get_system_user_id :: "runner_settings \<Rightarrow> wf_db \<Rightarrow> workflow_error + user_id" where
  "get_system_user_id cfg db =
     (case first_row (\<lambda>u. us_telegram_id u = rn_system_telegram_id cfg) (db_users db) of
        None \<Rightarrow> Inl (WorkflowFault ''system_user_missing'')
      | Some u \<Rightarrow> Inr (us_id u))"

definition assignment_creator ::
    "runner_settings \<Rightarrow> wf_db \<Rightarrow> actor_context \<Rightarrow> workflow_error + user_id" where
  "assignment_creator cfg db actor =
     (if ac_kind actor = User then not_null ''created_by'' (ac_user_id actor)
      else get_system_user_id cfg db)"

definition new_assignment ::
    "string \<Rightarrow> payload \<Rightarrow> user_id \<Rightarrow> workflow_error + assignment_row" where
  "new_assignment num data created_by =
     res_bind (text_column ''group_specialization'' (pget data ''group'')) (\<lambda>g.
     res_bind (int_column ''executor_id'' (pget data ''executor_id'')) (\<lambda>e.
       Inr \<lparr>as_request = num,
            as_type = (if py_truthy (pget data ''group'') then ''group'' else ''individual''),
            as_group = g, as_executor = e, as_created_by = created_by, as_status = ''active''\<rparr>))"

fun apply_domain_op_sync ::
    "runner_settings \<Rightarrow> actor_context \<Rightarrow> request_row \<Rightarrow> domain_op \<Rightarrow> wf_db
     \<Rightarrow> workflow_error + wf_db" where
  "apply_domain_op_sync cfg actor req (CreateRating v) db =
     res_bind (int_column ''rating'' v) (\<lambda>r.
     res_bind (not_null ''rating'' r) (\<lambda>n.
     res_bind (not_null ''user_id'' (ac_user_id actor)) (\<lambda>u.
       Inr (db\<lparr>db_ratings := db_ratings db @
                 [\<lparr>ra_request = rq_number req, ra_user = u, ra_rating = n\<rparr>]\<rparr>))))"
| "apply_domain_op_sync cfg actor req CancelActiveAssignments db =
     Inr (set_assignments db (cancel_active (rq_number req) (db_assignments db)))"
| "apply_domain_op_sync cfg actor req ClaimGroupAssignment db =
     group_to_individual ''claim_group_assignment'' (rq_number req) (ac_user_id actor) db"
| "apply_domain_op_sync cfg actor req (PromoteGroupAssignment v) db =
     res_bind (int_column ''executor_id'' v) (\<lambda>e.
       group_to_individual ''promote_group_assignment'' (rq_number req) e db)"
| "apply_domain_op_sync cfg actor req (CreateAssignment data) db =
     res_bind (assignment_creator cfg db actor) (\<lambda>created_by.
     res_bind (new_assignment (rq_number req) data created_by) (\<lambda>a.
       Inr (set_assignments db (cancel_active (rq_number req) (db_assignments db) @ [a]))))"

fun apply_domain_ops ::
    "(domain_op \<Rightarrow> wf_db \<Rightarrow> workflow_error + wf_db) \<Rightarrow> domain_op list \<Rightarrow> wf_db
     \<Rightarrow> workflow_error + wf_db" where
  "apply_domain_ops f [] db = Inr db"
| "apply_domain_ops f (d # ds) db = res_bind (f d db) (apply_domain_ops f ds)"

subsection \<open>Applying a plan\<close>

text \<open>The request row with its patch and, when the stored status changed, the next version.\<close>

definition patched_row ::
    "actor_context \<Rightarrow> instant \<Rightarrow> transition_result \<Rightarrow> request_row \<Rightarrow> request_row" where
  "patched_row actor now result req =
     (let req' = req\<lparr>rq_cols := apply_patch actor now (tr_patch result) (rq_cols req)\<rparr>
      in if row_status req' \<noteq> row_status req
         then req'\<lparr>rq_status_version :=
                Some ((case rq_status_version req of None \<Rightarrow> 0 | Some v \<Rightarrow> v) + 1)\<rparr>
         else req')"

definition row_version :: "request_row \<Rightarrow> int" where
  "row_version r = (case rq_status_version r of None \<Rightarrow> 0 | Some v \<Rightarrow> v)"

fun apply_event ::
    "runner_settings \<Rightarrow> instant \<Rightarrow> actor_context \<Rightarrow> request_row \<Rightarrow> event_intent \<Rightarrow> wf_db
     \<Rightarrow> workflow_error + wf_db" where
  "apply_event cfg wall actor req (EvAudit d) db =
     Inr (db\<lparr>db_audit := db_audit db @ [build_audit d req actor]\<rparr>)"
| "apply_event cfg wall actor req (EvWebhook num old new) db =
     (case emit_request_status_changed (rn_outbox cfg) wall num old new
             (Some \<lparr>ei_version = rq_status_version req, ei_repair = None\<rparr>) (db_outbox db) of
        Inl e \<Rightarrow> Inl (WorkflowFault ''event_identity'')
      | Inr rows \<Rightarrow> Inr (db\<lparr>db_outbox := rows\<rparr>))"
| "apply_event cfg wall actor req (EvRealtime num s) db = Inr db"
| "apply_event cfg wall actor req (EvNotify a num) db = Inr db"

fun apply_events ::
    "runner_settings \<Rightarrow> instant \<Rightarrow> actor_context \<Rightarrow> request_row \<Rightarrow> event_intent list \<Rightarrow> wf_db
     \<Rightarrow> workflow_error + wf_db" where
  "apply_events cfg wall actor req [] db = Inr db"
| "apply_events cfg wall actor req (ev # evs) db =
     res_bind (apply_event cfg wall actor req ev db) (apply_events cfg wall actor req evs)"

definition store_request :: "request_row \<Rightarrow> wf_db \<Rightarrow> wf_db" where
  "store_request req db = db\<lparr>db_requests := (db_requests db)(rq_number req \<mapsto> req)\<rparr>"

definition apply_sync ::
    "runner_settings \<Rightarrow> instant \<Rightarrow> instant \<Rightarrow> actor_context \<Rightarrow> transition_result \<Rightarrow> request_row
     \<Rightarrow> wf_db \<Rightarrow> workflow_error + request_row \<times> wf_db" where
  "apply_sync cfg wall now actor result req db =
     (if tr_no_op result then Inr (req, db)
      else let req' = patched_row actor now result req
           in res_bind (apply_domain_ops (apply_domain_op_sync cfg actor req') (tr_domain_ops result)
                          (store_request req' db))
                (\<lambda>db1. res_bind (apply_events cfg wall actor req' (tr_events result) db1)
                         (\<lambda>db2. Inr (req', db2))))"

subsection \<open>What the database checks\<close>

definition int32_val :: "pyval \<Rightarrow> bool" where
  "int32_val v = (case v of VNone \<Rightarrow> True | VInt i \<Rightarrow> - (2 ^ 31) \<le> i \<and> i < 2 ^ 31 | _ \<Rightarrow> False)"

definition text_val :: "pyval \<Rightarrow> bool" where
  "text_val v = (case v of VNone \<Rightarrow> True | VStr s \<Rightarrow> True | _ \<Rightarrow> False)"

definition bool_val :: "pyval \<Rightarrow> bool" where
  "bool_val v = (case v of VBool b \<Rightarrow> True | _ \<Rightarrow> False)"

definition time_val :: "pyval \<Rightarrow> bool" where
  "time_val v = (case v of VNone \<Rightarrow> True | VTime t \<Rightarrow> True | _ \<Rightarrow> False)"

definition short_text_val :: "nat \<Rightarrow> pyval \<Rightarrow> bool" where
  "short_text_val n v = (case v of VNone \<Rightarrow> True | VStr s \<Rightarrow> length s \<le> n | _ \<Rightarrow> False)"

fun column_ok :: "field \<Rightarrow> pyval \<Rightarrow> bool" where
  "column_ok F_status v = (case v of VStatus s \<Rightarrow> True | _ \<Rightarrow> False)"
| "column_ok F_executor_id v = int32_val v"
| "column_ok F_assignment_type v = short_text_val 20 v"
| "column_ok F_assigned_group v = short_text_val 100 v"
| "column_ok F_assigned_at v = time_val v"
| "column_ok F_assigned_by v = int32_val v"
| "column_ok F_requested_materials v = text_val v"
| "column_ok F_manager_materials_comment v = text_val v"
| "column_ok F_completion_report v = text_val v"
| "column_ok F_completion_media v = True"
| "column_ok F_is_returned v = bool_val v"
| "column_ok F_notes v = text_val v"
| "column_ok F_manager_confirmed v = bool_val v"
| "column_ok F_manager_confirmed_by v = int32_val v"
| "column_ok F_manager_confirmed_at v = time_val v"
| "column_ok F_manager_confirmation_notes v = text_val v"
| "column_ok F_manager_return_reason v = text_val v"
| "column_ok F_return_reason v = text_val v"
| "column_ok F_return_media v = True"
| "column_ok F_returned_at v = time_val v"
| "column_ok F_returned_by v = int32_val v"
| "column_ok F_completed_at v = time_val v"

definition all_fields :: "field list" where
  "all_fields =
     [F_status, F_executor_id, F_assignment_type, F_assigned_group, F_assigned_at, F_assigned_by,
      F_requested_materials, F_manager_materials_comment, F_completion_report, F_completion_media,
      F_is_returned, F_notes, F_manager_confirmed, F_manager_confirmed_by, F_manager_confirmed_at,
      F_manager_confirmation_notes, F_manager_return_reason, F_return_reason, F_return_media,
      F_returned_at, F_returned_by, F_completed_at]"

definition row_typed :: "request_row \<Rightarrow> bool" where
  "row_typed r \<longleftrightarrow> list_all (\<lambda>f. column_ok f (rq_cols r f)) all_fields"

definition user_exists :: "wf_db \<Rightarrow> user_id option \<Rightarrow> bool" where
  "user_exists db u = (case u of None \<Rightarrow> True | Some i \<Rightarrow> i \<in> us_id ` set (db_users db))"

definition one_active :: "wf_db \<Rightarrow> string \<Rightarrow> bool" where
  "one_active db num \<longleftrightarrow> row_count (active_for num) (db_assignments db) \<le> 1"

definition one_rating :: "wf_db \<Rightarrow> string \<Rightarrow> bool" where
  "one_rating db num \<longleftrightarrow> row_count (\<lambda>r. ra_request r = num) (db_ratings db) \<le> 1"

text \<open>The constraints on the rows one command touches.\<close>

definition commit_check :: "request_row \<Rightarrow> wf_db \<Rightarrow> workflow_error option" where
  "commit_check req db =
     (if \<not> row_typed req then Some (ColumnTypeError ''requests'')
      else if \<not> (user_exists db (row_executor req) \<and>
                 user_exists db (val_int (rq_cols req F_assigned_by)) \<and>
                 user_exists db (val_int (rq_cols req F_manager_confirmed_by)) \<and>
                 user_exists db (val_int (rq_cols req F_returned_by)))
      then Some (IntegrityError ''requests_users_fk'')
      else if \<not> one_active db (rq_number req) then Some (IntegrityError ''uq_request_assignments_active'')
      else if \<not> one_rating db (rq_number req) then Some (IntegrityError ''uq_ratings_request_number'')
      else if list_ex (\<lambda>r. ra_request r = rq_number req \<and>
                           \<not> int32_val (VInt (ra_rating r))) (db_ratings db)
      then Some (ColumnTypeError ''ratings'')
      else if list_ex (\<lambda>a. as_request a = rq_number req \<and>
                \<not> (user_exists db (as_executor a) \<and> user_exists db (Some (as_created_by a)) \<and>
                   (case as_group a of None \<Rightarrow> True | Some g \<Rightarrow> length g \<le> 100)))
             (db_assignments db)
      then Some (IntegrityError ''request_assignments'')
      else None)"

definition commit :: "request_row \<Rightarrow> wf_db \<Rightarrow> workflow_error + wf_db" where
  "commit req db = (case commit_check req db of Some e \<Rightarrow> Inl e | None \<Rightarrow> Inr db)"

subsection \<open>One command\<close>

definition resolve_given ::
    "workflow_snapshot \<Rightarrow> actor_context \<Rightarrow> command \<Rightarrow> workflow_error + action_command" where
  "resolve_given snap actor cmd =
     (case cmd of
        Explicit c \<Rightarrow> Inr c
      | ByStatus intent \<Rightarrow> resolve_command (allowed_actions snap actor) intent)"

definition run_command_sync ::
    "runner_settings \<Rightarrow> instant \<Rightarrow> instant \<Rightarrow> string \<Rightarrow> principal_ref \<Rightarrow> command \<Rightarrow> wf_db
     \<Rightarrow> workflow_error + command_outcome \<times> wf_db" where
  "run_command_sync cfg wall now num prin command db =
     (case db_requests db num of
        None \<Rightarrow> Inl RequestNotFound
      | Some req \<Rightarrow>
          res_bind (load_actor_context_sync db prin) (\<lambda>actor.
            let snap = build_snapshot_sync db wall req actor
            in res_bind (resolve_given snap actor command) (\<lambda>cmd.
               res_bind (decide snap cmd actor prin) (\<lambda>result.
               res_bind (apply_sync cfg wall now actor result req db) (\<lambda>(req', db').
               res_bind (commit req' db') (\<lambda>db''.
                 Inr (build_outcome req' snap result, db'')))))))"

text \<open>The database after a command: an error rolls back.\<close>

definition after_command ::
    "runner_settings \<Rightarrow> instant \<Rightarrow> instant \<Rightarrow> string \<Rightarrow> principal_ref \<Rightarrow> command \<Rightarrow> wf_db \<Rightarrow> wf_db" where
  "after_command cfg wall now num prin command db =
     (case run_command_sync cfg wall now num prin command db of
        Inl e \<Rightarrow> db | Inr (outcome, db') \<Rightarrow> db')"

end
