(* ===== verification/RunnerInvariants.thy ===== *)
theory RunnerInvariants
  imports WorkflowRunner
begin

section \<open>What the runner keeps true\<close>

text \<open>
  The invariants of the workflow tables and their preservation by every command: the stored
  status is canonical, work in progress has an executor, the active assignment mirrors the
  request row, a rating exists only on an accepted request, and no versioned webhook id lies
  ahead of its request.  The step relation at the end of the theory also contains the creation
  of requests and changes of shifts and apartments by the rest of the system.
\<close>

subsection \<open>The columns a patch leaves\<close>

lemma apply_patch_append:
  "apply_patch actor now (xs @ ys) cols = apply_patch actor now ys (apply_patch actor now xs cols)"
  by (induction xs arbitrary: cols) auto

lemma apply_patch_other:
  "f \<notin> set (map fst pt) \<Longrightarrow> apply_patch actor now pt cols f = cols f"
  by (induction pt arbitrary: cols) auto

lemma apply_set_if_given:
  "apply_patch actor now (set_if_given p key g op) cols f =
     (if f = g \<and> pget p key \<noteq> VNone then op_value op (pget p key) actor now (cols f) else cols f)"
  by (simp add: set_if_given_def)

lemma apply_complete_ops:
  "apply_patch actor now (complete_ops p) cols f =
     (if f = F_is_returned then VBool False
      else apply_patch actor now (set_if_given p ''completion_media'' F_completion_media SET)
             (apply_patch actor now
               (set_if_given p ''completion_report'' F_completion_report SET) cols) f)"
  by (simp add: complete_ops_def apply_patch_append)

lemma apply_assign_other:
  "f \<notin> {F_executor_id, F_assignment_type, F_assigned_group, F_assigned_at, F_assigned_by} \<Longrightarrow>
   apply_patch actor now (assign_ops actor p) cols f = cols f"
  using assign_ops_fields [of actor p] by (intro apply_patch_other) auto

lemma patched_status:
  "apply_patch actor now (build_patch act to actor p) cols F_status = VStatus to"
proof -
  have "apply_patch actor now (build_patch act to actor p) cols =
      apply_patch actor now (tl (build_patch act to actor p)) (cols(F_status := VStatus to))"
    by (subst patch_status_first) simp
  then show ?thesis by (simp add: apply_patch_other [OF patch_status_once])
qed

definition returned_after :: "action \<Rightarrow> pyval \<Rightarrow> pyval" where
  "returned_after act old =
     (if act \<in> {EXECUTOR_COMPLETE, MANAGER_COMPLETE, MANAGER_CONFIRM, MANAGER_RETURN_TO_WORK,
                MANAGER_FORCE_ACCEPT} then VBool False
      else if act = APPLICANT_RETURN then VBool True else old)"

definition confirmed_after :: "action \<Rightarrow> pyval \<Rightarrow> pyval" where
  "confirmed_after act old =
     (if act = MANAGER_CONFIRM then VBool True
      else if act \<in> {MANAGER_RETURN_TO_WORK, APPLICANT_RETURN} then VBool False else old)"

lemmas patch_eval = build_patch_def apply_patch_append apply_set_if_given apply_complete_ops
  apply_assign_other storage_status_def

lemma patched_returned:
  "apply_patch actor now (build_patch act to actor p) cols F_is_returned =
     returned_after act (cols F_is_returned)"
  by (cases act) (simp_all add: patch_eval returned_after_def)

lemma patched_confirmed:
  "apply_patch actor now (build_patch act to actor p) cols F_manager_confirmed =
     confirmed_after act (cols F_manager_confirmed)"
  by (cases act) (simp_all add: patch_eval confirmed_after_def)

text \<open>The executor and the assignment type after a valid action.\<close>

definition executor_after :: "action \<Rightarrow> actor_context \<Rightarrow> payload \<Rightarrow> pyval \<Rightarrow> pyval" where
  "executor_after act actor p old =
     (if act \<in> {SYSTEM_DISPATCH_ASSIGN, MANAGER_ASSIGN, SYSTEM_AUTO_PROMOTE}
      then pget p ''executor_id''
      else if act = EXECUTOR_CLAIM then opt_int_val (ac_user_id actor)
      else if act = ASSIGN_GROUP then VNone else old)"

definition type_after :: "action \<Rightarrow> pyval \<Rightarrow> pyval" where
  "type_after act old =
     (if act \<in> {SYSTEM_DISPATCH_ASSIGN, MANAGER_ASSIGN, SYSTEM_AUTO_PROMOTE, EXECUTOR_CLAIM}
      then VStr ''individual''
      else if act = ASSIGN_GROUP then VStr ''group'' else old)"

lemma isinstance_not_none: "isinstance v t \<Longrightarrow> v \<noteq> VNone"
  by auto

lemma apply_assign_executor:
  assumes "validate_payload (payload_schemas act) p = None"
    and "act \<in> {SYSTEM_DISPATCH_ASSIGN, MANAGER_ASSIGN, ASSIGN_GROUP}"
  shows "apply_patch actor now (assign_ops actor p) cols F_executor_id =
           (if act = ASSIGN_GROUP then VNone else pget p ''executor_id'')"
    and "apply_patch actor now (assign_ops actor p) cols F_assignment_type =
           (if act = ASSIGN_GROUP then VStr ''group'' else VStr ''individual'')"
  using valid_assign_payload [OF assms(1)] assms(2)
  by (auto simp: assign_ops_def Let_def dest: isinstance_not_none)

lemma patched_executor:
  assumes "validate_payload (payload_schemas act) p = None"
  shows "apply_patch actor now (build_patch act to actor p) cols F_executor_id =
           executor_after act actor p (cols F_executor_id)"
  using apply_assign_executor [OF assms]
  by (cases act) (simp_all add: patch_eval executor_after_def)

lemma patched_type:
  assumes "validate_payload (payload_schemas act) p = None"
  shows "apply_patch actor now (build_patch act to actor p) cols F_assignment_type =
           type_after act (cols F_assignment_type)"
  using apply_assign_executor [OF assms]
  by (cases act) (simp_all add: patch_eval type_after_def)

subsection \<open>What a successful command did\<close>

lemma check_repeat_no_op:
  "check_repeat snap cmd = Inr (Some r) \<Longrightarrow> r = no_op_result snap"
  by (auto simp: check_repeat_def Let_def split: if_splits repeat_policy.splits)

lemma decide_Inr:
  "decide snap cmd actor prin = Inr r \<Longrightarrow>
   (check_repeat snap cmd = Inr (Some r) \<and> r = no_op_result snap) \<or>
   plan_transition snap cmd actor prin = Inr r"
  by (auto simp: decide_def dest: check_repeat_no_op split: sum.splits option.splits)

text \<open>A successful command either changed nothing or applied one plan; the elimination rule the
  proofs below share.\<close>

lemma run_InrE:
  assumes "run_command_sync cfg wall now num prin command db = Inr (out, db')"
  obtains (no_op) req actor cmd where "db' = db" "oc_no_op out" "db_requests db num = Some req"
      "load_actor_context_sync db prin = Inr actor"
      "out = build_outcome req (build_snapshot_sync db wall req actor)
               (no_op_result (build_snapshot_sync db wall req actor))"
      "resolve_given (build_snapshot_sync db wall req actor) actor command = Inr cmd"
      "check_repeat (build_snapshot_sync db wall req actor) cmd =
         Inr (Some (no_op_result (build_snapshot_sync db wall req actor)))"
  | (planned) req actor cmd result req' db1 where
      "db_requests db num = Some req"
      "load_actor_context_sync db prin = Inr actor"
      "resolve_given (build_snapshot_sync db wall req actor) actor command = Inr cmd"
      "plan_transition (build_snapshot_sync db wall req actor) cmd actor prin = Inr result"
      "\<not> tr_no_op result"
      "req' = patched_row actor now result req"
      "apply_domain_ops (apply_domain_op_sync cfg actor req') (tr_domain_ops result)
         (store_request req' db) = Inr db1"
      "apply_events cfg wall actor req' (tr_events result) db1 = Inr db'"
      "commit_check req' db' = None"
      "out = build_outcome req' (build_snapshot_sync db wall req actor) result"
proof -
  from assms obtain req where req: "db_requests db num = Some req"
    by (auto simp: run_command_sync_def split: option.splits)
  with assms obtain actor cmd result r1 d1 d2 where
    a: "load_actor_context_sync db prin = Inr actor" and
    c: "resolve_given (build_snapshot_sync db wall req actor) actor command = Inr cmd" and
    d: "decide (build_snapshot_sync db wall req actor) cmd actor prin = Inr result" and
    ap: "apply_sync cfg wall now actor result req db = Inr (r1, d1)" and
    cm: "commit r1 d1 = Inr d2" and
    out: "out = build_outcome r1 (build_snapshot_sync db wall req actor) result" "db' = d2"
    by (fastforce simp: run_command_sync_def res_bind_Inr_iff Let_def)
  have dd: "d2 = d1" "commit_check r1 d1 = None"
    using cm by (auto simp: commit_def split: option.splits)
  show thesis
    using decide_Inr [OF d]
  proof
    assume n0: "check_repeat (build_snapshot_sync db wall req actor) cmd = Inr (Some result) \<and>
      result = no_op_result (build_snapshot_sync db wall req actor)"
    then have n: "result = no_op_result (build_snapshot_sync db wall req actor)" by simp
    then have "r1 = req" "d1 = db" using ap by (auto simp: apply_sync_def no_op_result_def)
    then show thesis using no_op [OF _ _ req a _ c] out dd n0
      by (auto simp: build_outcome_def no_op_result_def Let_def)
  next
    assume pl: "plan_transition (build_snapshot_sync db wall req actor) cmd actor prin = Inr result"
    then have nn: "\<not> tr_no_op result" by (auto simp: plan_Inr_iff planned_result_def Let_def)
    then obtain db1 where "r1 = patched_row actor now result req"
      "apply_domain_ops (apply_domain_op_sync cfg actor r1) (tr_domain_ops result)
         (store_request r1 db) = Inr db1"
      "apply_events cfg wall actor r1 (tr_events result) db1 = Inr d1"
      using ap by (auto simp: apply_sync_def Let_def res_bind_Inr_iff)
    then show thesis using planned [OF req a c pl nn] out dd by blast
  qed
qed

lemma load_actor_user:
  assumes "load_actor_context_sync db prin = Inr actor"
  shows "ac_kind actor = pr_kind prin"
    and "ac_kind actor = User \<Longrightarrow> \<exists>u. ac_user_id actor = Some u \<and> u \<in> us_id ` set (db_users db)"
    and "ac_kind actor = System \<Longrightarrow> ac_user_id actor = None"
  using assms
  by (cases "pr_kind prin";
      auto simp: load_actor_context_sync_def system_context_def user_context_def
        split: option.splits if_splits dest: first_row_Some)+

subsection \<open>Frames: what the parts of a transaction leave alone\<close>

lemma apply_event_frame:
  "apply_event cfg wall actor req ev db = Inr db' \<Longrightarrow>
   db_requests db' = db_requests db \<and> db_assignments db' = db_assignments db \<and>
   db_ratings db' = db_ratings db \<and> db_users db' = db_users db \<and>
   db_user_apartments db' = db_user_apartments db \<and> db_shifts db' = db_shifts db"
  by (cases ev) (auto split: sum.splits)

lemma apply_events_frame:
  "apply_events cfg wall actor req evs db = Inr db' \<Longrightarrow>
   db_requests db' = db_requests db \<and> db_assignments db' = db_assignments db \<and>
   db_ratings db' = db_ratings db \<and> db_users db' = db_users db \<and>
   db_user_apartments db' = db_user_apartments db \<and> db_shifts db' = db_shifts db"
proof (induction evs arbitrary: db)
  case (Cons ev evs)
  then obtain d where "apply_event cfg wall actor req ev db = Inr d"
    "apply_events cfg wall actor req evs d = Inr db'"
    by (auto simp: res_bind_Inr_iff)
  then show ?case using Cons.IH [of d] apply_event_frame by fastforce
qed simp

lemma apply_domain_op_frame:
  "apply_domain_op_sync cfg actor req d db = Inr db' \<Longrightarrow>
   db_requests db' = db_requests db \<and> db_users db' = db_users db \<and>
   db_user_apartments db' = db_user_apartments db \<and> db_shifts db' = db_shifts db \<and>
   db_audit db' = db_audit db \<and> db_outbox db' = db_outbox db"
  by (cases d)
    (auto simp: res_bind_Inr_iff set_assignments_def group_to_individual_def split: if_splits)

lemma apply_domain_ops_frame:
  "apply_domain_ops (apply_domain_op_sync cfg actor req) ds db = Inr db' \<Longrightarrow>
   db_requests db' = db_requests db \<and> db_users db' = db_users db \<and>
   db_user_apartments db' = db_user_apartments db \<and> db_shifts db' = db_shifts db \<and>
   db_audit db' = db_audit db \<and> db_outbox db' = db_outbox db"
proof (induction ds arbitrary: db)
  case (Cons d ds)
  then obtain e where "apply_domain_op_sync cfg actor req d db = Inr e"
    "apply_domain_ops (apply_domain_op_sync cfg actor req) ds e = Inr db'"
    by (auto simp: res_bind_Inr_iff)
  then show ?case using Cons.IH [of e] apply_domain_op_frame by fastforce
qed simp

lemma patched_row_simps [simp]:
  "rq_number (patched_row actor now result req) = rq_number req"
  "rq_user_id (patched_row actor now result req) = rq_user_id req"
  "rq_apartment_id (patched_row actor now result req) = rq_apartment_id req"
  "rq_acceptance_mode (patched_row actor now result req) = rq_acceptance_mode req"
  "rq_cols (patched_row actor now result req) =
     apply_patch actor now (tr_patch result) (rq_cols req)"
  by (simp_all add: patched_row_def Let_def)

lemma patched_row_status:
  assumes "plan_transition snap cmd actor prin = Inr result"
  shows "row_status (patched_row actor now result req) = tr_new_canon result"
  using assms by (simp add: plan_Inr_iff planned_result_def Let_def row_status_def patched_status)

lemma patched_row_version:
  "row_version (patched_row actor now result req) =
     row_version req + (if row_status (patched_row actor now result req) \<noteq> row_status req then 1 else 0)"
  by (simp add: patched_row_def Let_def row_version_def row_status_def split: option.splits)

subsection \<open>The invariant of one request\<close>

definition req_assignments :: "wf_db \<Rightarrow> string \<Rightarrow> assignment_row list" where
  "req_assignments db num = filter (\<lambda>a. as_request a = num) (db_assignments db)"

definition req_active :: "wf_db \<Rightarrow> string \<Rightarrow> assignment_row list" where
  "req_active db num = filter (active_for num) (db_assignments db)"

definition req_ratings :: "wf_db \<Rightarrow> string \<Rightarrow> rating_row list" where
  "req_ratings db num = filter (\<lambda>r. ra_request r = num) (db_ratings db)"

definition row_inv :: "string \<Rightarrow> request_row \<Rightarrow> bool" where
  "row_inv num r \<longleftrightarrow>
     rq_number r = num \<and> row_typed r \<and> row_status r \<in> set canon_statuses \<and>
     flags_canonical (new_state_from r) \<and>
     (row_status r = St_InProgress \<longrightarrow> row_executor r \<noteq> None)"

text \<open>The active assignment says the same as the request row.\<close>

definition mirrors :: "request_row \<Rightarrow> assignment_row \<Rightarrow> bool" where
  "mirrors r a \<longleftrightarrow>
     as_executor a = row_executor r \<and> rq_cols r F_assignment_type = VStr (as_type a) \<and>
     (as_type a = ''group'' \<longleftrightarrow> as_executor a = None)"

definition assign_inv :: "wf_db \<Rightarrow> string \<Rightarrow> request_row \<Rightarrow> bool" where
  "assign_inv db num r \<longleftrightarrow>
     length (req_active db num) \<le> 1 \<and> list_all (mirrors r) (req_active db num) \<and>
     (row_status r = St_Cancelled \<longrightarrow> req_active db num = [])"

definition rating_inv :: "wf_db \<Rightarrow> string \<Rightarrow> request_row \<Rightarrow> bool" where
  "rating_inv db num r \<longleftrightarrow>
     length (req_ratings db num) \<le> 1 \<and>
     (req_ratings db num \<noteq> [] \<longrightarrow> row_status r = St_Approved)"

definition outbox_inv :: "runner_settings \<Rightarrow> wf_db \<Rightarrow> string \<Rightarrow> request_row \<Rightarrow> bool" where
  "outbox_inv cfg db num r \<longleftrightarrow>
     (\<forall>v. status_changed_name (os_source (rn_outbox cfg)) num v \<in> ob_event_id ` set (db_outbox db)
          \<longrightarrow> v \<le> row_version r)"

definition wf_inv :: "runner_settings \<Rightarrow> wf_db \<Rightarrow> bool" where
  "wf_inv cfg db \<longleftrightarrow>
     (\<forall>num r. db_requests db num = Some r \<longrightarrow>
        row_inv num r \<and> assign_inv db num r \<and> rating_inv db num r \<and> outbox_inv cfg db num r)"

lemma wf_invD:
  "wf_inv cfg db \<Longrightarrow> db_requests db num = Some r \<Longrightarrow>
   row_inv num r \<and> assign_inv db num r \<and> rating_inv db num r \<and> outbox_inv cfg db num r"
  by (simp add: wf_inv_def)

lemma one_active_iff: "one_active db num \<longleftrightarrow> length (req_active db num) \<le> 1"
  by (simp add: one_active_def row_count_def req_active_def)

lemma one_rating_iff: "one_rating db num \<longleftrightarrow> length (req_ratings db num) \<le> 1"
  by (simp add: one_rating_def row_count_def req_ratings_def)

subsection \<open>Preservation of the row invariant\<close>

lemma flags_after:
  assumes f: "flags_canonical st"
    and fr: "rs_status st \<in> set (sp_from (action_table act))"
    and st': "rs_status st' = effective_to_status act (sp_to (action_table act)) snap"
    and ret: "rs_is_returned st' =
      (if act \<in> {EXECUTOR_COMPLETE, MANAGER_COMPLETE, MANAGER_CONFIRM, MANAGER_RETURN_TO_WORK,
                 MANAGER_FORCE_ACCEPT} then False
       else if act = APPLICANT_RETURN then True else rs_is_returned st)"
    and conf: "rs_manager_confirmed st' =
      (if act = MANAGER_CONFIRM then True
       else if act \<in> {MANAGER_RETURN_TO_WORK, APPLICANT_RETURN} then False
       else rs_manager_confirmed st)"
  shows "flags_canonical st'"
  using assms
  by (cases act) (auto simp: flags_canonical_def effective_to_status_def spec_def)

lemma snapshot_request [simp]:
  "sn_request (build_snapshot_sync db wall req actor) = new_state_from req"
  by (simp add: build_snapshot_sync_def Let_def)

lemma new_state_simps [simp]:
  "rs_number (new_state_from r) = rq_number r"
  "rs_user_id (new_state_from r) = rq_user_id r"
  "rs_status (new_state_from r) = row_status r"
  "rs_manager_confirmed (new_state_from r) = py_truthy (rq_cols r F_manager_confirmed)"
  "rs_is_returned (new_state_from r) = py_truthy (rq_cols r F_is_returned)"
  "rs_apartment_id (new_state_from r) = rq_apartment_id r"
  "rs_executor_id (new_state_from r) = row_executor r"
  by (simp_all add: new_state_from_def)

lemma row_flags_after:
  assumes plan: "plan_transition snap cmd actor prin = Inr result"
    and sn: "sn_request snap = new_state_from req"
    and f: "flags_canonical (new_state_from req)"
  shows "flags_canonical (new_state_from (patched_row actor now result req))"
proof -
  let ?act = "cmd_action cmd"
  have pl: "tr_patch result = build_patch ?act (tr_new_canon result) actor (cmd_payload cmd)"
    "tr_new_canon result = effective_to_status ?act (sp_to (action_table ?act)) snap"
    "action_allowed snap actor ?act"
    using plan by (auto simp: plan_Inr_iff planned_result_def Let_def)
  show ?thesis
  proof (rule flags_after [OF f, where act = ?act and snap = snap])
    show "rs_status (new_state_from req) \<in> set (sp_from (action_table ?act))"
      using allowed_from [OF pl(3)] sn normalize_canonical_flags [OF f] by simp
    show "rs_status (new_state_from (patched_row actor now result req)) =
        effective_to_status ?act (sp_to (action_table ?act)) snap"
      using patched_row_status [OF plan] pl(2) by simp
  qed (auto simp: pl(1) patched_returned patched_confirmed returned_after_def confirmed_after_def)
qed

lemma row_executor_after:
  assumes plan: "plan_transition snap cmd actor prin = Inr result"
  shows "row_executor (patched_row actor now result req) =
     val_int (executor_after (cmd_action cmd) actor (cmd_payload cmd) (rq_cols req F_executor_id))"
    and "rq_cols (patched_row actor now result req) F_assignment_type =
      type_after (cmd_action cmd) (rq_cols req F_assignment_type)"
  using plan
  by (auto simp: plan_Inr_iff planned_result_def Let_def row_executor_def patched_executor
      patched_type)

lemma row_typed_field: "row_typed r \<Longrightarrow> column_ok f (rq_cols r f)"
  by (cases f) (simp_all add: row_typed_def all_fields_def)

lemma typed_int:
  "int32_val v \<Longrightarrow> v \<noteq> VNone \<Longrightarrow> \<exists>i. v = VInt i"
  by (cases v) (auto simp: int32_val_def)

text \<open>The owner's invariant: a command that leaves a request in progress leaves it with an
  executor.\<close>

lemma in_progress_executor_after:
  assumes plan: "plan_transition snap cmd actor prin = Inr result"
    and sn: "sn_request snap = new_state_from req"
    and user: "ac_kind actor = User \<Longrightarrow> ac_user_id actor \<noteq> None"
    and typed: "row_typed (patched_row actor now result req)"
    and st: "row_status (patched_row actor now result req) = St_InProgress"
  shows "row_executor (patched_row actor now result req) \<noteq> None"
proof -
  let ?act = "cmd_action cmd" and ?p = "cmd_payload cmd"
  have val: "validate_payload (payload_schemas ?act) ?p = None"
    and al: "action_allowed snap actor ?act"
    and to: "effective_to_status ?act (sp_to (action_table ?act)) snap = St_InProgress"
    and ok: "in_progress_has_executor St_InProgress snap
        (build_patch ?act St_InProgress actor ?p)"
    using plan st patched_row_status [OF plan, of now req]
    by (auto simp: plan_Inr_iff planned_result_def Let_def)
  have ex: "row_executor (patched_row actor now result req) =
      val_int (executor_after ?act actor ?p (rq_cols req F_executor_id))"
    by (rule row_executor_after [OF plan])
  have int: "int32_val (executor_after ?act actor ?p (rq_cols req F_executor_id))"
    using row_typed_field [OF typed, of F_executor_id] plan
    by (auto simp: plan_Inr_iff planned_result_def Let_def patched_executor)
  consider (given) "?act \<in> {SYSTEM_DISPATCH_ASSIGN, MANAGER_ASSIGN, SYSTEM_AUTO_PROMOTE}"
    | (claim) "?act = EXECUTOR_CLAIM"
    | (kept) "?act \<in> {MANAGER_PURCHASE_DONE, CLARIFY_RESOLVED, EXECUTOR_RESUME, MANAGER_RETURN_TO_WORK}"
    using to by (auto simp: to_in_progress_iff)
  then show ?thesis
  proof cases
    case given
    then have "isinstance (pget ?p ''executor_id'') TInt" using valid_assign_payload(1) [OF val] by auto
    then have "pget ?p ''executor_id'' \<noteq> VNone" by auto
    then show ?thesis using ex int given typed_int [of "pget ?p ''executor_id''"] by (auto simp: executor_after_def)
  next
    case claim
    then have "executor_can_claim snap actor" using allowed_authorized [OF al] by (simp add: spec_def)
    then have "ac_user_id actor \<noteq> None" using user executor_can_claimD(1) by blast
    then show ?thesis using ex claim by (auto simp: executor_after_def opt_int_val_def)
  next
    case kept
    then have "\<not> patch_sets_executor (build_patch ?act St_InProgress actor ?p)"
      by (auto simp: patch_sets_executor_def build_patch_def set_if_given_def split: if_splits)
    then have "row_executor req \<noteq> None"
      using ok sn by (simp add: in_progress_has_executor_def)
    then show ?thesis using ex kept by (auto simp: executor_after_def row_executor_def)
  qed
qed

subsection \<open>Preservation of the assignment and rating invariants\<close>

lemma cancel_active_filter:
  "filter (active_for num) (cancel_active num rows) = []"
  "num' \<noteq> num \<Longrightarrow> filter (active_for num') (cancel_active num rows) = filter (active_for num') rows"
  by (induction rows) (auto simp: cancel_active_def sql_simps active_for_def cancel_row_def)

lemma group_upd_other:
  "num' \<noteq> num \<Longrightarrow>
   filter (active_for num') (upd_where (unclaimed_group num) (make_individual e) rows) =
     filter (active_for num') rows"
  by (induction rows) (auto simp: sql_simps active_for_def unclaimed_group_def make_individual_def)

lemma group_upd_same:
  "filter (active_for num) (upd_where (unclaimed_group num) (make_individual e) rows) =
     map (\<lambda>a. if unclaimed_group num a then make_individual e a else a) (filter (active_for num) rows)"
  by (induction rows) (auto simp: sql_simps active_for_def unclaimed_group_def make_individual_def)

lemma unclaimed_is_active: "unclaimed_group num a \<Longrightarrow> active_for num a"
  by (simp add: unclaimed_group_def active_for_def)

lemma unclaimed_only_active:
  assumes "length (filter (active_for num) rows) \<le> 1" "row_count (unclaimed_group num) rows = 1"
    and "a \<in> set (filter (active_for num) rows)"
  shows "unclaimed_group num a"
proof -
  have "0 < row_count (unclaimed_group num) rows" using assms(2) by simp
  then obtain b where "b \<in> set rows" "unclaimed_group num b"
    by (auto simp: row_count_pos_iff)
  then have "b \<in> set (filter (active_for num) rows)" by (simp add: unclaimed_is_active)
  then have "a = b" using assms(1,3) by (cases "filter (active_for num) rows") auto
  then show ?thesis using \<open>unclaimed_group num b\<close> by simp
qed

lemma domain_ops_other:
  assumes "apply_domain_ops (apply_domain_op_sync cfg actor req) ds db = Inr db'"
    and "num' \<noteq> rq_number req"
  shows "req_active db' num' = req_active db num'" "req_ratings db' num' = req_ratings db num'"
  using assms
proof (induction ds arbitrary: db)
  case (Cons d ds)
  {
    case 1
    then obtain e where e: "apply_domain_op_sync cfg actor req d db = Inr e"
      "apply_domain_ops (apply_domain_op_sync cfg actor req) ds e = Inr db'"
      by (auto simp: res_bind_Inr_iff)
    have "req_active e num' = req_active db num'"
      using e(1) 1(2)
      by (cases d)
        (auto simp: res_bind_Inr_iff set_assignments_def group_to_individual_def req_active_def
          cancel_active_filter group_upd_other new_assignment_def active_for_def split: if_splits)
    then show ?case using Cons.IH(1) [OF e(2)] 1 by simp
  next
    case 2
    then obtain e where e: "apply_domain_op_sync cfg actor req d db = Inr e"
      "apply_domain_ops (apply_domain_op_sync cfg actor req) ds e = Inr db'"
      by (auto simp: res_bind_Inr_iff)
    have "req_ratings e num' = req_ratings db num'"
      using e(1) 2(2)
      by (cases d)
        (auto simp: res_bind_Inr_iff set_assignments_def group_to_individual_def req_ratings_def
          split: if_splits)
    then show ?case using Cons.IH(2) [OF e(2)] 2 by simp
  }
qed simp_all

lemma int_column_Inr: "int_column n v = Inr r \<Longrightarrow> r = val_int v"
  by (cases v) (auto simp: int_column_def)

lemma mirrors_kept:
  "list_all (mirrors r) as \<Longrightarrow> row_executor r' = row_executor r \<Longrightarrow>
   rq_cols r' F_assignment_type = rq_cols r F_assignment_type \<Longrightarrow> list_all (mirrors r') as"
  by (auto simp: mirrors_def list_all_iff)

lemma store_request_simps [simp]:
  "db_assignments (store_request r db) = db_assignments db"
  "db_ratings (store_request r db) = db_ratings db"
  "db_users (store_request r db) = db_users db"
  "db_outbox (store_request r db) = db_outbox db"
  "db_audit (store_request r db) = db_audit db"
  "db_requests (store_request r db) = (db_requests db)(rq_number r \<mapsto> r)"
  "req_active (store_request r db) num = req_active db num"
  "req_ratings (store_request r db) num = req_ratings db num"
  by (simp_all add: store_request_def req_active_def req_ratings_def)

text \<open>The active assignments of the request after each kind of action.\<close>

lemma assign_creates:
  assumes ops: "apply_domain_ops (apply_domain_op_sync cfg actor req') [CreateAssignment p] db = Inr db'"
  obtains a creator where "new_assignment (rq_number req') p creator = Inr a"
    "req_active db' (rq_number req') = [a]" "req_ratings db' (rq_number req') = req_ratings db (rq_number req')"
proof -
  from ops obtain b a where
    a: "new_assignment (rq_number req') p b = Inr a" and
    d: "db' = set_assignments db (cancel_active (rq_number req') (db_assignments db) @ [a])"
    by (auto simp: res_bind_Inr_iff)
  moreover have "active_for (rq_number req') a"
    using a by (auto simp: new_assignment_def res_bind_Inr_iff active_for_def)
  ultimately show thesis
    using that [OF a]
    by (simp add: set_assignments_def req_active_def req_ratings_def cancel_active_filter)
qed

lemma promote_mirrors:
  assumes ops: "group_to_individual what num e db = Inr db'"
    and one: "length (req_active db num) \<le> 1"
    and "row_executor r = e" "e \<noteq> None" "rq_cols r F_assignment_type = VStr ''individual''"
  shows "list_all (mirrors r) (req_active db' num)" "length (req_active db' num) \<le> 1"
    "req_ratings db' num = req_ratings db num"
proof -
  from ops have cnt: "row_count (unclaimed_group num) (db_assignments db) = 1"
    and d: "db' = set_assignments db
      (upd_where (unclaimed_group num) (make_individual e) (db_assignments db))"
    by (auto simp: group_to_individual_def split: if_splits)
  have "unclaimed_group num a" if "a \<in> set (req_active db num)" for a
    using unclaimed_only_active [OF _ cnt] one that by (simp add: req_active_def)
  then have "req_active db' num = map (make_individual e) (req_active db num)"
    unfolding req_active_def d by (simp add: set_assignments_def group_upd_same)
  then show "list_all (mirrors r) (req_active db' num)" "length (req_active db' num) \<le> 1"
    using assms by (auto simp: list_all_iff mirrors_def make_individual_def)
  show "req_ratings db' num = req_ratings db num"
    by (simp add: d req_ratings_def set_assignments_def)
qed

lemma plan_parts:
  assumes "plan_transition snap cmd actor prin = Inr result"
  shows "validate_payload (payload_schemas (cmd_action cmd)) (cmd_payload cmd) = None"
    and "action_allowed snap actor (cmd_action cmd)"
    and "tr_new_canon result =
      effective_to_status (cmd_action cmd) (sp_to (action_table (cmd_action cmd))) snap"
    and "tr_domain_ops result = build_domain_ops (cmd_action cmd) (cmd_payload cmd)"
    and "tr_events result =
      build_events (cmd_action cmd) prin (sn_request snap) (tr_new_canon result) (cmd_payload cmd)"
    and "cmd_action cmd = ASSIGN_GROUP \<Longrightarrow> group_value_ok (cmd_payload cmd)"
  using assms by (auto simp: plan_Inr_iff planned_result_def Let_def)

lemma cancelled_iff: "effective_to_status act (sp_to (action_table act)) snap = St_Cancelled \<longleftrightarrow> act = CANCEL"
  by (cases act) (auto simp: effective_to_status_def spec_def)

lemma group_value_truthy: "group_value_ok p \<Longrightarrow> \<exists>g. pget p ''group'' = VStr g \<and> g \<noteq> []"
  by (cases "pget p ''group''")
    (auto simp: group_value_ok_def strip_val_def is_canonical_def canonical_specializations_def
      py_strip_cong_nil)

lemma new_assignment_mirrors:
  assumes plan: "plan_transition snap cmd actor prin = Inr result"
    and act: "is_assign_action (cmd_action cmd)"
    and a: "new_assignment num (cmd_payload cmd) creator = Inr a"
    and typed: "row_typed (patched_row actor now result req)"
  shows "mirrors (patched_row actor now result req) a"
proof -
  let ?p = "cmd_payload cmd" and ?r = "patched_row actor now result req"
  note val = valid_assign_payload [OF plan_parts(1) [OF plan]]
  note ex = row_executor_after [OF plan, of now req]
  have ea: "as_executor a = val_int (pget ?p ''executor_id'')"
    and ta: "as_type a = (if py_truthy (pget ?p ''group'') then ''group'' else ''individual'')"
    using a by (auto simp: new_assignment_def res_bind_Inr_iff dest: int_column_Inr)
  show ?thesis
  proof (cases "cmd_action cmd = ASSIGN_GROUP")
    case True
    then have "pget ?p ''executor_id'' = VNone" "py_truthy (pget ?p ''group'')"
      using val plan_parts(6) [OF plan True] group_value_truthy by fastforce+
    then show ?thesis using ex True ea ta
      by (simp add: mirrors_def executor_after_def type_after_def)
  next
    case False
    then have g: "cmd_action cmd \<in> {SYSTEM_DISPATCH_ASSIGN, MANAGER_ASSIGN}"
      using act by (auto simp: is_assign_action_def)
    then have v: "isinstance (pget ?p ''executor_id'') TInt" "pget ?p ''group'' = VNone"
      using val by auto
    have "int32_val (pget ?p ''executor_id'')"
      using row_typed_field [OF typed, of F_executor_id] plan g
      by (auto simp: plan_Inr_iff planned_result_def Let_def patched_executor executor_after_def)
    then obtain i where "pget ?p ''executor_id'' = VInt i" using typed_int v(1) by force
    then show ?thesis using ex g v(2) ea ta
      by (auto simp: mirrors_def executor_after_def type_after_def)
  qed
qed

lemma assign_inv_after:
  assumes plan: "plan_transition snap cmd actor prin = Inr result"
    and inv: "assign_inv db num req" and num: "rq_number req = num"
    and r': "req' = patched_row actor now result req"
    and ops: "apply_domain_ops (apply_domain_op_sync cfg actor req') (tr_domain_ops result) db = Inr db'"
    and user: "ac_kind actor = User \<Longrightarrow> ac_user_id actor \<noteq> None"
    and typed: "row_typed req'"
  shows "assign_inv db' num req'"
proof -
  let ?act = "cmd_action cmd" and ?p = "cmd_payload cmd"
  note parts = plan_parts [OF plan]
  note ex = row_executor_after [OF plan, of now req, folded r']
  have n: "rq_number req' = num" using num r' by simp
  have one: "length (req_active db num) \<le> 1" using inv by (simp add: assign_inv_def)
  have canc: "row_status req' = St_Cancelled \<longleftrightarrow> ?act = CANCEL"
    using patched_row_status [OF plan] parts(3) by (simp add: r' cancelled_iff)
  consider (create) "is_assign_action ?act" | (claim) "?act = EXECUTOR_CLAIM"
    | (promote) "?act = SYSTEM_AUTO_PROMOTE" | (cancel) "?act = CANCEL"
    | (other) "\<not> is_assign_action ?act" "?act \<notin> {EXECUTOR_CLAIM, SYSTEM_AUTO_PROMOTE, CANCEL}"
    by auto
  then show ?thesis
  proof cases
    case create
    have "pget ?p ''executor_id'' \<noteq> VNone \<or> pget ?p ''group'' \<noteq> VNone"
      using create valid_assign_payload [OF parts(1)] by (auto simp: is_assign_action_def)
    then have "tr_domain_ops result = [CreateAssignment ?p]"
      using create parts(4) by (auto simp: build_domain_ops_def is_assign_action_def)
    then obtain a creator where a: "new_assignment num ?p creator = Inr a" "req_active db' num = [a]"
      using ops assign_creates [of cfg actor req' ?p db db'] n by metis
    then have "mirrors req' a" using new_assignment_mirrors [OF plan create a(1)] typed r' by simp
    then show ?thesis using a canc create by (auto simp: assign_inv_def is_assign_action_def)
  next
    case claim
    then have "executor_can_claim snap actor"
      using allowed_authorized [OF parts(2)] by (simp add: spec_def)
    then obtain u where u: "ac_user_id actor = Some u" using user executor_can_claimD(1) by blast
    have "group_to_individual ''claim_group_assignment'' num (Some u) db = Inr db'"
      using ops parts(4) claim n u by (simp add: build_domain_ops_def res_bind_Inr_iff)
    then show ?thesis
      using promote_mirrors [OF _ one, of _ "Some u" db' req'] ex claim u canc
      by (simp add: assign_inv_def executor_after_def type_after_def opt_int_val_def)
  next
    case promote
    then obtain e where e: "int_column ''executor_id'' (pget ?p ''executor_id'') = Inr e"
      and g: "group_to_individual ''promote_group_assignment'' num e db = Inr db'"
      using ops parts(4) n by (auto simp: build_domain_ops_def res_bind_Inr_iff)
    have "isinstance (pget ?p ''executor_id'') TInt"
      using valid_assign_payload [OF parts(1)] promote by simp
    then obtain i where "pget ?p ''executor_id'' = VInt i" "e = Some i"
      using e by (auto simp: int_column_def split: pyval.splits)
    then have "e \<noteq> None" "row_executor req' = e"
      using ex promote by (simp_all add: executor_after_def)
    then show ?thesis
      using promote_mirrors [OF g one] ex promote canc by (simp add: assign_inv_def type_after_def)
  next
    case cancel
    then have "req_active db' num = []"
      using ops parts(4) n
      by (auto simp: build_domain_ops_def set_assignments_def req_active_def cancel_active_filter)
    then show ?thesis by (simp add: assign_inv_def)
  next
    case other
    then have "req_active db' num = req_active db num"
      using ops parts(4)
      by (auto simp: build_domain_ops_def res_bind_Inr_iff req_active_def split: if_splits)
    moreover have "list_all (mirrors req') (req_active db num)"
    proof (rule mirrors_kept [of req])
      show "list_all (mirrors req) (req_active db num)" using inv by (simp add: assign_inv_def)
      show "row_executor req' = row_executor req"
        "rq_cols req' F_assignment_type = rq_cols req F_assignment_type"
        using ex other
        by (auto simp: executor_after_def type_after_def is_assign_action_def row_executor_def)
    qed
    ultimately show ?thesis using one other canc by (simp add: assign_inv_def)
  qed
qed

lemma rating_inv_after:
  assumes plan: "plan_transition snap cmd actor prin = Inr result"
    and inv: "rating_inv db num req" and num: "rq_number req = num"
    and sn: "sn_request snap = new_state_from req" and f: "flags_canonical (new_state_from req)"
    and r': "req' = patched_row actor now result req"
    and ops: "apply_domain_ops (apply_domain_op_sync cfg actor req') (tr_domain_ops result) db = Inr db'"
    and one: "length (req_ratings db' num) \<le> 1"
  shows "rating_inv db' num req'"
proof -
  let ?act = "cmd_action cmd"
  note parts = plan_parts [OF plan]
  have "row_status req \<in> set (sp_from (action_table ?act))"
    using allowed_from [OF parts(2)] sn normalize_canonical_flags [OF f] by simp
  then have "row_status req \<noteq> St_Approved"
    using from_not_terminal by (auto simp: is_terminal_iff)
  then have none: "req_ratings db num = []" using inv by (auto simp: rating_inv_def)
  show ?thesis
  proof (cases "?act = APPLICANT_ACCEPT")
    case True
    then have "row_status req' = St_Approved"
      using patched_row_status [OF plan] parts(3) r'
      by (simp add: effective_to_status_def spec_def)
    then show ?thesis using one by (simp add: rating_inv_def)
  next
    case False
    then have "req_ratings db' num = req_ratings db num"
      using ops parts(4)
      by (auto simp: build_domain_ops_def res_bind_Inr_iff req_ratings_def set_assignments_def
          group_to_individual_def split: if_splits)
    then show ?thesis using none by (simp add: rating_inv_def)
  qed
qed

subsection \<open>Preservation of the outbox invariant\<close>

lemma apply_events_outbox:
  "apply_events cfg wall actor req evs db = Inr db' \<Longrightarrow>
   x \<in> ob_event_id ` set (db_outbox db') \<Longrightarrow>
   x \<in> ob_event_id ` set (db_outbox db) \<or>
   (\<exists>num old new. EvWebhook num old new \<in> set evs \<and>
      x = status_changed_name (os_source (rn_outbox cfg)) num (row_version req))"
proof (induction evs arbitrary: db)
  case (Cons ev evs)
  then obtain d where d: "apply_event cfg wall actor req ev db = Inr d"
    "apply_events cfg wall actor req evs d = Inr db'"
    by (auto simp: res_bind_Inr_iff)
  have step: "x \<in> ob_event_id ` set (db_outbox db) \<or>
      (\<exists>num old new. ev = EvWebhook num old new \<and>
        x = status_changed_name (os_source (rn_outbox cfg)) num (row_version req))"
    if "x \<in> ob_event_id ` set (db_outbox d)"
  proof (cases ev)
    case (EvWebhook num old new)
    show ?thesis
    proof (cases "rq_status_version req")
      case None
      then show ?thesis
        using d(1) that EvWebhook
        by (simp add: emit_request_status_changed_def queue_webhook_def build_outbox_record_def
            build_request_payload_def deterministic_event_id_def versioned_events_def
            repair_only_events_def split: if_splits)
    next
      case (Some v)
      then show ?thesis
        using d(1) that EvWebhook emit_status_changed [of "rn_outbox cfg" wall num old new v "db_outbox db"]
        by (auto simp: version_identity_def row_version_def outbox_insert_def
            status_changed_row_def split: if_splits)
    qed
  qed (use d(1) that in auto)
  from Cons.IH [OF d(2) Cons.prems(2)] show ?case
  proof
    assume "x \<in> ob_event_id ` set (db_outbox d)"
    from step [OF this] show ?case by (rule disj_forward) (blast intro: list.set_intros)+
  next
    assume "\<exists>num old new. EvWebhook num old new \<in> set evs \<and>
      x = status_changed_name (os_source (rn_outbox cfg)) num (row_version req)"
    then obtain n old new where "EvWebhook n old new \<in> set (ev # evs)"
      "x = status_changed_name (os_source (rn_outbox cfg)) n (row_version req)"
      by auto
    then show ?case by blast
  qed
qed simp

lemma webhook_event_number:
  "EvWebhook num old new \<in> set (build_events act prin st to p) \<Longrightarrow> num = rs_number st"
  by (auto simp: build_events_def Let_def split: if_splits)

lemma outbox_inv_after:
  assumes plan: "plan_transition snap cmd actor prin = Inr result"
    and sn: "sn_request snap = new_state_from req" and num: "rq_number req = num"
    and inv: "outbox_inv cfg db num req"
    and r': "req' = patched_row actor now result req"
    and ob: "db_outbox db1 = db_outbox db"
    and ev: "apply_events cfg wall actor req' (tr_events result) db1 = Inr db'"
  shows "outbox_inv cfg db' num req'"
  unfolding outbox_inv_def
proof (intro allI impI)
  fix v
  assume a: "status_changed_name (os_source (rn_outbox cfg)) num v \<in> ob_event_id ` set (db_outbox db')"
  have le: "row_version req \<le> row_version req'"
    using patched_row_version [of actor now result req] r' by simp
  from apply_events_outbox [OF ev a] show "v \<le> row_version req'"
  proof
    assume "status_changed_name (os_source (rn_outbox cfg)) num v \<in> ob_event_id ` set (db_outbox db1)"
    then show ?thesis using inv ob le by (fastforce simp: outbox_inv_def)
  next
    assume "\<exists>n old new. EvWebhook n old new \<in> set (tr_events result) \<and>
      status_changed_name (os_source (rn_outbox cfg)) num v =
        status_changed_name (os_source (rn_outbox cfg)) n (row_version req')"
    then have "v = row_version req'" using status_changed_name_inj by blast
    then show ?thesis by simp
  qed
qed

lemma outbox_inv_other:
  assumes plan: "plan_transition snap cmd actor prin = Inr result"
    and sn: "sn_request snap = new_state_from req" and num: "rq_number req \<noteq> num"
    and inv: "outbox_inv cfg db num r"
    and ob: "db_outbox db1 = db_outbox db"
    and ev: "apply_events cfg wall actor req' (tr_events result) db1 = Inr db'"
  shows "outbox_inv cfg db' num r"
  unfolding outbox_inv_def
proof (intro allI impI)
  fix v
  assume a: "status_changed_name (os_source (rn_outbox cfg)) num v \<in> ob_event_id ` set (db_outbox db')"
  have "status_changed_name (os_source (rn_outbox cfg)) num v \<in> ob_event_id ` set (db_outbox db)"
    using apply_events_outbox [OF ev a]
  proof
    assume "\<exists>n old new. EvWebhook n old new \<in> set (tr_events result) \<and>
      status_changed_name (os_source (rn_outbox cfg)) num v =
        status_changed_name (os_source (rn_outbox cfg)) n (row_version req')"
    then obtain n old new where "EvWebhook n old new \<in> set (tr_events result)" "num = n"
      using status_changed_name_inj by blast
    then show ?thesis using webhook_event_number plan_parts(5) [OF plan] sn num by fastforce
  qed (simp add: ob)
  then show "v \<le> row_version r" using inv by (simp add: outbox_inv_def)
qed

subsection \<open>Every command keeps the invariant\<close>

lemma run_keeps_inv:
  assumes run: "run_command_sync cfg wall now num prin command db = Inr (out, db')"
    and inv: "wf_inv cfg db"
  shows "wf_inv cfg db'"
  using run
proof (cases rule: run_InrE)
  case no_op
  then show ?thesis using inv by simp
next
  case (planned req actor cmd result req' db1)
  let ?snap = "build_snapshot_sync db wall req actor"
  have old: "row_inv num req" "assign_inv db num req" "rating_inv db num req" "outbox_inv cfg db num req"
    using wf_invD [OF inv planned(1)] by simp_all
  have n: "rq_number req = num" "flags_canonical (new_state_from req)"
    using old(1) by (simp_all add: row_inv_def)
  note plan = planned(4) and r' = planned(6) and ops = planned(7) and ev = planned(8)
  have n': "rq_number req' = num" using n r' by simp
  have user: "ac_kind actor = User \<Longrightarrow> ac_user_id actor \<noteq> None"
    using load_actor_user(2) [OF planned(2)] by auto
  have chk: "row_typed req'" "one_active db' num" "one_rating db' num"
    using planned(9) n' by (auto simp: commit_check_def split: if_splits)
  note fr1 = apply_domain_ops_frame [OF ops] and fr2 = apply_events_frame [OF ev]
  have act: "req_active db' m = req_active db1 m" and rat: "req_ratings db' m = req_ratings db1 m" for m
    using fr2 by (simp_all add: req_active_def req_ratings_def)
  have ob: "db_outbox db1 = db_outbox db" using fr1 by simp
  have row: "row_inv num req'"
    unfolding row_inv_def
    using n' chk(1) effective_to_canonical plan_parts(3) [OF plan] patched_row_status [OF plan, of now req]
      row_flags_after [OF plan _ n(2), of now]
      in_progress_executor_after [OF plan _ user, of req now] r' by auto
  have "assign_inv db1 num req'"
    using assign_inv_after [OF plan _ n(1) r' ops user chk(1)] old(2) by (simp add: assign_inv_def)
  then have "assign_inv db' num req'" by (simp add: assign_inv_def act)
  moreover have "rating_inv db' num req'"
    using rating_inv_after [OF plan _ n(1) _ n(2) r' ops] old(3) chk(3)
    by (simp add: rating_inv_def one_rating_iff rat)
  moreover have "outbox_inv cfg db' num req'"
    using outbox_inv_after [OF plan _ n(1) old(4) r' ob ev] by simp
  moreover have "row_inv m r \<and> assign_inv db' m r \<and> rating_inv db' m r \<and> outbox_inv cfg db' m r"
    if "db_requests db' m = Some r" "m \<noteq> num" for m r
  proof -
    have "db_requests db m = Some r" using that fr1 fr2 n' by simp
    then have "row_inv m r \<and> assign_inv db m r \<and> rating_inv db m r \<and> outbox_inv cfg db m r"
      using wf_invD [OF inv] by simp
    then show ?thesis
      using domain_ops_other [OF ops, of m] that(2) n' n(1)
        outbox_inv_other [OF plan _ _ _ ob ev, of req m r]
      by (simp add: assign_inv_def rating_inv_def act rat)
  qed
  ultimately show ?thesis using row fr1 fr2 n' by (auto simp: wf_inv_def)
qed

end
