(* ===== verification/WorkflowRunnerAsync.thy ===== *)
theory WorkflowRunnerAsync
  imports WorkflowRunner
begin

section \<open>The asynchronous runner and its parity with the synchronous one\<close>

text \<open>
  Models the second half of \<open>services/workflow_runner.py\<close>: the asyncpg twin of the runner,
  used by the web API, while the bot uses the synchronous one.  Both share the pure decision;
  the reads and writes are written twice.  The twin reads a single row with
  \<open>scalar_one_or_none\<close>, which raises when two rows match, where the synchronous code takes the
  first; the two agree on tables whose primary key is unique.
\<close>

definition scalar_one_or_none :: "('a \<Rightarrow> bool) \<Rightarrow> 'a list \<Rightarrow> workflow_error + 'a option" where
  "scalar_one_or_none P rows =
     (case filter P rows of
        [] \<Rightarrow> Inr None
      | [x] \<Rightarrow> Inr (Some x)
      | _ \<Rightarrow> Inl (WorkflowFault ''multiple_results''))"

definition load_actor_context_async :: "wf_db \<Rightarrow> principal_ref \<Rightarrow> workflow_error + actor_context" where
  "load_actor_context_async db prin =
     (if pr_kind prin = System then Inr (system_context prin)
      else res_bind (scalar_one_or_none (\<lambda>u. Some (us_id u) = pr_user_id prin) (db_users db))
        (\<lambda>found. case found of
           None \<Rightarrow> Inl NotAuthorized
         | Some user \<Rightarrow>
             Inr \<lparr>ac_kind = User, ac_user_id = Some (us_id user), ac_system_actor = None,
                  ac_roles = set (get_user_roles user),
                  ac_active_role = Some (get_active_role user),
                  ac_apartments =
                    ua_apartment ` {r \<in> set (db_user_apartments db).
                                     ua_user r = us_id user \<and> ua_status r = ''approved''},
                  ac_specializations = parse_specializations (us_specialization user)\<rparr>))"

definition build_snapshot_async ::
    "wf_db \<Rightarrow> instant \<Rightarrow> request_row \<Rightarrow> actor_context \<Rightarrow> workflow_snapshot" where
  "build_snapshot_async db wall req actor =
     (let has_rating = (\<exists>r\<in>set (db_ratings db). ra_request r = rq_number req);
          active = first_row (\<lambda>a. as_request a = rq_number req \<and> as_status a = ''active'')
                     (db_assignments db);
          has_shift =
            (if ac_kind actor = User \<and> role_executor \<in> ac_roles actor
             then (case ac_user_id actor of
                     None \<Rightarrow> False | Some uid \<Rightarrow> is_on_shift_now (db_shifts db) uid wall)
             else False)
      in (case active of
            None \<Rightarrow>
              \<lparr>sn_request = new_state_from req, sn_has_rating = has_rating,
               sn_assignment_executor = None, sn_on_shift = has_shift, sn_assignment_type = None,
               sn_assignment_group = None, sn_unclaimed = False\<rparr>
          | Some a \<Rightarrow>
              \<lparr>sn_request = new_state_from req, sn_has_rating = has_rating,
               sn_assignment_executor = as_executor a, sn_on_shift = has_shift,
               sn_assignment_type = Some (as_type a), sn_assignment_group = as_group a,
               sn_unclaimed = (as_type a = ''group'' \<and> as_executor a = None)\<rparr>))"

text \<open>\<open>UPDATE ... WHERE\<close> executed as a statement: the new rows and the row count.\<close>

definition sa_update :: "('a \<Rightarrow> bool) \<Rightarrow> ('a \<Rightarrow> 'a) \<Rightarrow> 'a list \<Rightarrow> nat \<times> 'a list" where
  "sa_update P f rows = (row_count P rows, upd_where P f rows)"

fun apply_domain_op_async ::
    "runner_settings \<Rightarrow> actor_context \<Rightarrow> request_row \<Rightarrow> domain_op \<Rightarrow> wf_db
     \<Rightarrow> workflow_error + wf_db" where
  "apply_domain_op_async cfg actor req (CreateRating v) db =
     res_bind (int_column ''rating'' v) (\<lambda>r.
     res_bind (not_null ''rating'' r) (\<lambda>n.
     res_bind (not_null ''user_id'' (ac_user_id actor)) (\<lambda>u.
       Inr (db\<lparr>db_ratings := db_ratings db @
                 [\<lparr>ra_request = rq_number req, ra_user = u, ra_rating = n\<rparr>]\<rparr>))))"
| "apply_domain_op_async cfg actor req CancelActiveAssignments db =
     (let (n, rows) = sa_update (active_for (rq_number req)) cancel_row (db_assignments db)
      in Inr (set_assignments db rows))"
| "apply_domain_op_async cfg actor req ClaimGroupAssignment db =
     (let (n, rows) = sa_update (unclaimed_group (rq_number req))
                        (make_individual (ac_user_id actor)) (db_assignments db)
      in if n \<noteq> 1 then Inl (WorkflowFault ''claim_group_assignment'')
         else Inr (set_assignments db rows))"
| "apply_domain_op_async cfg actor req (PromoteGroupAssignment v) db =
     res_bind (int_column ''executor_id'' v) (\<lambda>e.
       (let (n, rows) = sa_update (unclaimed_group (rq_number req)) (make_individual e)
                          (db_assignments db)
        in if n \<noteq> 1 then Inl (WorkflowFault ''promote_group_assignment'')
           else Inr (set_assignments db rows)))"
| "apply_domain_op_async cfg actor req (CreateAssignment data) db =
     res_bind (assignment_creator cfg db actor) (\<lambda>created_by.
       (let (n, rows) = sa_update (active_for (rq_number req)) cancel_row (db_assignments db)
        in res_bind (new_assignment (rq_number req) data created_by) (\<lambda>a.
             Inr (set_assignments db (rows @ [a])))))"

definition apply_async ::
    "runner_settings \<Rightarrow> instant \<Rightarrow> instant \<Rightarrow> actor_context \<Rightarrow> transition_result \<Rightarrow> request_row
     \<Rightarrow> wf_db \<Rightarrow> workflow_error + request_row \<times> wf_db" where
  "apply_async cfg wall now actor result req db =
     (if tr_no_op result then Inr (req, db)
      else let req' = patched_row actor now result req
           in res_bind (apply_domain_ops (apply_domain_op_async cfg actor req') (tr_domain_ops result)
                          (store_request req' db))
                (\<lambda>db1. res_bind (apply_events cfg wall actor req' (tr_events result) db1)
                         (\<lambda>db2. Inr (req', db2))))"

definition run_command_async ::
    "runner_settings \<Rightarrow> instant \<Rightarrow> instant \<Rightarrow> string \<Rightarrow> principal_ref \<Rightarrow> command \<Rightarrow> wf_db
     \<Rightarrow> workflow_error + command_outcome \<times> wf_db" where
  "run_command_async cfg wall now num prin command db =
     (case db_requests db num of
        None \<Rightarrow> Inl RequestNotFound
      | Some req \<Rightarrow>
          res_bind (load_actor_context_async db prin) (\<lambda>actor.
            let snap = build_snapshot_async db wall req actor
            in res_bind (resolve_given snap actor command) (\<lambda>cmd.
               res_bind (decide snap cmd actor prin) (\<lambda>result.
               res_bind (apply_async cfg wall now actor result req db) (\<lambda>(req', db').
               res_bind (commit req' db') (\<lambda>db''.
                 Inr (build_outcome req' snap result, db'')))))))"

subsection \<open>Parity\<close>

lemma scalar_one_first:
  assumes "distinct (map k rows)"
  shows "scalar_one_or_none (\<lambda>r. Some (k r) = key) rows = Inr (first_row (\<lambda>r. Some (k r) = key) rows)"
  using assms
proof (induction rows)
  case (Cons r rows)
  show ?case
  proof (cases "Some (k r) = key")
    case True
    then have "filter (\<lambda>r. Some (k r) = key) rows = []"
      using Cons.prems by (force simp: filter_empty_conv image_iff)
    then show ?thesis using True by (simp add: scalar_one_or_none_def first_row_Cons)
  next
    case False
    then show ?thesis using Cons by (simp add: scalar_one_or_none_def first_row_Cons)
  qed
qed (simp add: scalar_one_or_none_def)

lemma load_actor_parity:
  "distinct (map us_id (db_users db)) \<Longrightarrow>
   load_actor_context_async db prin = load_actor_context_sync db prin"
  by (auto simp: load_actor_context_async_def load_actor_context_sync_def scalar_one_first
      user_context_def get_approved_apartment_ids_def split: option.splits)

lemma snapshot_parity: "build_snapshot_async db wall req actor = build_snapshot_sync db wall req actor"
proof -
  have a: "(\<lambda>a. as_request a = n \<and> as_status a = ''active'') = active_for n" for n
    by (simp add: fun_eq_iff active_for_def)
  have r: "(first_row (\<lambda>r. ra_request r = n) rs \<noteq> None) = (\<exists>r\<in>set rs. ra_request r = n)" for n rs
    by (simp add: first_row_None)
  show ?thesis
    unfolding build_snapshot_async_def build_snapshot_sync_def a r
    by (auto simp: Let_def split: option.splits)
qed

lemma domain_op_parity:
  "apply_domain_op_async cfg actor req d db = apply_domain_op_sync cfg actor req d db"
  by (cases d) (simp_all add: sa_update_def cancel_active_def group_to_individual_def)

lemma domain_ops_parity:
  "apply_domain_ops (apply_domain_op_async cfg actor req) ds db =
     apply_domain_ops (apply_domain_op_sync cfg actor req) ds db"
proof -
  have "apply_domain_op_async cfg actor req = apply_domain_op_sync cfg actor req"
    by (simp add: fun_eq_iff domain_op_parity)
  then show ?thesis by simp
qed

lemma apply_parity:
  "apply_async cfg wall now actor result req db = apply_sync cfg wall now actor result req db"
  by (simp add: apply_async_def apply_sync_def domain_ops_parity)

lemma run_parity:
  "distinct (map us_id (db_users db)) \<Longrightarrow>
   run_command_async cfg wall now num prin command db =
     run_command_sync cfg wall now num prin command db"
  unfolding run_command_async_def run_command_sync_def snapshot_parity apply_parity
  by (subst load_actor_parity) auto

end
