(* ===== verification/WorkflowPredicates.thy ===== *)
theory WorkflowPredicates
  imports WorkflowRunner
begin

section \<open>Named predicates of a request: Python form and SQL form\<close>

text \<open>
  Models \<open>utils/workflow_predicates.py\<close>.  Each named state has a Python form, read off an
  object with the workflow attributes (here \<open>request_state\<close>), and an SQL form for filters, read
  off the columns of a row.  \<open>IS FALSE\<close> and \<open>IS TRUE\<close> hold of a column that is the truth
  value; on \<open>NULL\<close> neither does.
\<close>

definition sql_is :: "bool \<Rightarrow> pyval \<Rightarrow> bool" where
  "sql_is b v \<longleftrightarrow> v = VBool b"

definition is_awaiting_applicant :: "request_state \<Rightarrow> bool" where
  "is_awaiting_applicant st =
     (if rs_is_returned st then False
      else if rs_status st = St_Completed then True
      else rs_status st = St_Executed \<and> rs_manager_confirmed st)"

definition awaiting_applicant_clause :: "request_row \<Rightarrow> bool" where
  "awaiting_applicant_clause r \<longleftrightarrow>
     sql_is False (rq_cols r F_is_returned) \<and>
     (row_status r = St_Completed \<or>
      row_status r = St_Executed \<and> sql_is True (rq_cols r F_manager_confirmed))"

definition terminal_status_clause :: "request_row \<Rightarrow> bool" where
  "terminal_status_clause r \<longleftrightarrow> row_status r \<in> set terminal_statuses"

definition active_status_clause :: "request_row \<Rightarrow> bool" where
  "active_status_clause r \<longleftrightarrow> row_status r \<notin> set terminal_statuses"

definition predicate_can_accept :: "request_state \<Rightarrow> user_id \<Rightarrow> int set \<Rightarrow> bool" where
  "predicate_can_accept st uid apartments =
     (if rs_user_id st = uid then True
      else case rs_apartment_id st of None \<Rightarrow> False | Some apt \<Rightarrow> apt \<in> apartments)"

definition predicate_can_return :: "request_state \<Rightarrow> user_id \<Rightarrow> bool" where
  "predicate_can_return st uid \<longleftrightarrow> rs_user_id st = uid"

definition is_awaiting_manager :: "request_state \<Rightarrow> bool" where
  "is_awaiting_manager st \<longleftrightarrow> rs_status st = St_Executed \<and> \<not> rs_manager_confirmed st"

definition awaiting_manager_clause :: "request_row \<Rightarrow> bool" where
  "awaiting_manager_clause r \<longleftrightarrow>
     row_status r = St_Executed \<and> sql_is False (rq_cols r F_manager_confirmed)"

definition is_returned_for_review :: "request_state \<Rightarrow> bool" where
  "is_returned_for_review st =
     (if rs_status st = St_Returned then True
      else rs_status st = St_Completed \<and> rs_is_returned st)"

definition returned_for_review_clause :: "request_row \<Rightarrow> bool" where
  "returned_for_review_clause r \<longleftrightarrow>
     row_status r = St_Returned \<or>
     row_status r = St_Completed \<and> sql_is True (rq_cols r F_is_returned)"

definition is_report_eligible :: "request_state \<Rightarrow> bool" where
  "is_report_eligible st \<longleftrightarrow>
     rs_status st \<in> {St_Completed, St_Approved} \<and> \<not> rs_is_returned st"

definition report_eligible_clause :: "request_row \<Rightarrow> bool" where
  "report_eligible_clause r \<longleftrightarrow>
     row_status r \<in> {St_Completed, St_Approved} \<and> sql_is False (rq_cols r F_is_returned)"

definition is_in_progress :: "request_state \<Rightarrow> bool" where
  "is_in_progress st \<longleftrightarrow> normalize_status st = St_InProgress"

definition pending_or_in_progress_clause :: "request_row \<Rightarrow> bool" where
  "pending_or_in_progress_clause r \<longleftrightarrow> row_status r \<in> {St_New, St_InProgress}"

definition reassignable_statuses :: "status list" where
  "reassignable_statuses = sp_from (action_table MANAGER_ASSIGN)"

definition is_reassignable :: "request_state \<Rightarrow> bool" where
  "is_reassignable st \<longleftrightarrow> normalize_status st \<in> set (sp_from (action_table MANAGER_ASSIGN))"

lemmas predicate_defs =
  is_awaiting_applicant_def is_awaiting_manager_def is_returned_for_review_def
  is_report_eligible_def predicate_can_accept_def predicate_can_return_def

lemmas clause_defs =
  awaiting_applicant_clause_def awaiting_manager_clause_def returned_for_review_clause_def
  report_eligible_clause_def sql_is_def

lemma typed_bool:
  assumes "row_typed r" "f = F_is_returned \<or> f = F_manager_confirmed"
  shows "sql_is b (rq_cols r f) \<longleftrightarrow> py_truthy (rq_cols r f) = b"
proof -
  have "column_ok f (rq_cols r f)"
    using assms by (auto simp: row_typed_def all_fields_def)
  then show ?thesis
    using assms(2) by (cases "rq_cols r f") (auto simp: sql_is_def bool_val_def)
qed

lemma awaiting_applicant_canon: "is_awaiting_applicant st \<longleftrightarrow> normalize_status st = St_Completed"
  by (auto simp: is_awaiting_applicant_def normalize_status_def)

lemma returned_for_review_canon: "is_returned_for_review st \<longleftrightarrow> normalize_status st = St_Returned"
  by (auto simp: is_returned_for_review_def normalize_status_def)

text \<open>Every pair of forms answers the same question on a row the database accepts.\<close>

theorem clauses_agree:
  "row_typed r \<Longrightarrow>
   (awaiting_applicant_clause r \<longleftrightarrow> is_awaiting_applicant (new_state_from r)) \<and>
   (awaiting_manager_clause r \<longleftrightarrow> is_awaiting_manager (new_state_from r)) \<and>
   (returned_for_review_clause r \<longleftrightarrow> is_returned_for_review (new_state_from r)) \<and>
   (report_eligible_clause r \<longleftrightarrow> is_report_eligible (new_state_from r)) \<and>
   (terminal_status_clause r \<longleftrightarrow> is_terminal (normalize_status (new_state_from r)))"
  using typed_bool [of r F_is_returned] typed_bool [of r F_manager_confirmed]
  by (auto simp: predicate_defs clause_defs terminal_status_clause_def is_terminal_def
      terminal_statuses_def normalize_status_def new_state_from_def)

end
