(* ===== verification/WorkflowProps.thy ===== *)
theory WorkflowProps
  imports RunnerInvariants WorkflowRunnerAsync WorkflowPredicates
begin

section \<open>Properties of the request workflow\<close>

text \<open>
  The workflow as a system: the runner's commands, the creation of a request with the columns'
  defaults, and changes of users, apartments and shifts by the rest of the program.  The
  interfaces \<open>preserved\<close> and \<open>monotone_steps\<close> of the prelude are interpreted on this step
  relation; the properties of every reachable database rest on them.
\<close>

definition fresh_request :: "string \<Rightarrow> request_row \<Rightarrow> bool" where
  "fresh_request num r \<longleftrightarrow>
     rq_number r = num \<and> row_typed r \<and> row_status r = St_New \<and>
     rq_cols r F_is_returned = VBool False \<and> rq_cols r F_manager_confirmed = VBool False \<and>
     rq_cols r F_executor_id = VNone \<and> rq_status_version r = Some 0"

definition unused_number :: "runner_settings \<Rightarrow> wf_db \<Rightarrow> string \<Rightarrow> bool" where
  "unused_number cfg db num \<longleftrightarrow>
     db_requests db num = None \<and> req_assignments db num = [] \<and> req_ratings db num = [] \<and>
     (\<forall>v. status_changed_name (os_source (rn_outbox cfg)) num v \<notin> ob_event_id ` set (db_outbox db))"

inductive wf_step :: "runner_settings \<Rightarrow> wf_db \<Rightarrow> wf_db \<Rightarrow> bool" for cfg where
  wf_command:
    "run_command_sync cfg wall now num prin command s = Inr (out, t) \<Longrightarrow> wf_step cfg s t"
| wf_create:
    "unused_number cfg s num \<Longrightarrow> fresh_request num r \<Longrightarrow> wf_step cfg s (store_request r s)"
| wf_environment:
    "wf_step cfg s (s\<lparr>db_users := us, db_user_apartments := ua, db_shifts := sh\<rparr>)"

definition wf_initial :: "wf_db \<Rightarrow> bool" where
  "wf_initial db \<longleftrightarrow>
     db_requests db = Map.empty \<and> db_assignments db = [] \<and> db_ratings db = [] \<and>
     db_outbox db = [] \<and> db_audit db = []"

inductive_cases wf_stepE: "wf_step cfg s t"

lemma fresh_row_inv: "fresh_request num r \<Longrightarrow> row_inv num r"
  by (simp add: fresh_request_def row_inv_def flags_canonical_def canon_statuses_def)

lemma active_of_assignments: "req_assignments db num = [] \<Longrightarrow> req_active db num = []"
  by (auto simp: req_assignments_def req_active_def active_for_def filter_empty_conv)

lemma create_keeps_inv:
  assumes "wf_inv cfg s" "unused_number cfg s num" "fresh_request num r"
  shows "wf_inv cfg (store_request r s)"
proof -
  have num: "rq_number r = num" using assms(3) by (simp add: fresh_request_def)
  have "row_inv num r" by (rule fresh_row_inv [OF assms(3)])
  moreover have "assign_inv s num r" "rating_inv s num r" "outbox_inv cfg s num r"
    using assms(2) active_of_assignments
    by (auto simp: unused_number_def assign_inv_def rating_inv_def outbox_inv_def)
  ultimately show ?thesis
    using assms(1) num
    by (auto simp: wf_inv_def assign_inv_def rating_inv_def outbox_inv_def)
qed

lemma environment_keeps_inv:
  "wf_inv cfg s \<Longrightarrow> wf_inv cfg (s\<lparr>db_users := us, db_user_apartments := ua, db_shifts := sh\<rparr>)"
  by (simp add: wf_inv_def assign_inv_def rating_inv_def outbox_inv_def req_active_def
      req_ratings_def)

interpretation workflow: preserved wf_initial "wf_step cfg" "wf_inv cfg" for cfg
proof unfold_locales
  show "wf_initial s \<Longrightarrow> wf_inv cfg s" for s
    by (simp add: wf_initial_def wf_inv_def)
  show "wf_inv cfg s \<Longrightarrow> wf_step cfg s t \<Longrightarrow> wf_inv cfg t" for s t
    by (auto elim!: wf_stepE intro: run_keeps_inv create_keeps_inv environment_keeps_inv)
qed

subsection \<open>What never goes back\<close>

text \<open>Along a step: a request stays, its status version does not fall, a terminal request is
  frozen, and the audit trail only grows.\<close>

definition wf_rel :: "wf_db \<Rightarrow> wf_db \<Rightarrow> bool" where
  "wf_rel s t \<longleftrightarrow>
     (\<forall>num r. db_requests s num = Some r \<longrightarrow>
        (\<exists>r'. db_requests t num = Some r' \<and> row_version r \<le> row_version r' \<and>
              (is_terminal (row_status r) \<longrightarrow> r' = r))) \<and>
     (\<exists>tail. db_audit t = db_audit s @ tail)"

lemma wf_rel_refl: "wf_rel s s"
  by (auto simp: wf_rel_def)

lemma wf_rel_trans:
  assumes "wf_rel s t" "wf_rel t u"
  shows "wf_rel s u"
proof -
  have "\<exists>r'. db_requests u num = Some r' \<and> row_version r \<le> row_version r' \<and>
      (is_terminal (row_status r) \<longrightarrow> r' = r)" if "db_requests s num = Some r" for num r
  proof -
    obtain r1 where r1: "db_requests t num = Some r1" "row_version r \<le> row_version r1"
      "is_terminal (row_status r) \<longrightarrow> r1 = r"
      using assms(1) \<open>db_requests s num = Some r\<close> by (auto simp: wf_rel_def)
    then obtain r2 where "db_requests u num = Some r2" "row_version r1 \<le> row_version r2"
      "is_terminal (row_status r1) \<longrightarrow> r2 = r1"
      using assms(2) by (auto simp: wf_rel_def)
    with r1 show ?thesis by auto
  qed
  moreover have "\<exists>tail. db_audit u = db_audit s @ tail"
    using assms by (auto simp: wf_rel_def)
  ultimately show ?thesis by (auto simp: wf_rel_def)
qed

lemma normalize_terminal:
  "is_terminal (rs_status st) \<Longrightarrow> normalize_status st = rs_status st"
  by (auto simp: normalize_status_def is_terminal_iff)

lemma apply_events_audit:
  "apply_events cfg wall actor req evs db = Inr db' \<Longrightarrow>
   db_audit db' = db_audit db @ map (\<lambda>d. build_audit d req actor)
     (List.map_filter (\<lambda>ev. case ev of EvAudit d \<Rightarrow> Some d | _ \<Rightarrow> None) evs)"
proof (induction evs arbitrary: db)
  case (Cons ev evs)
  then obtain d where d: "apply_event cfg wall actor req ev db = Inr d"
    "apply_events cfg wall actor req evs d = Inr db'"
    by (auto simp: res_bind_Inr_iff)
  then show ?case using Cons.IH [OF d(2)]
    by (cases ev) (auto simp: map_filter_simps split: sum.splits)
qed (simp add: map_filter_simps)

lemma planned_not_terminal:
  assumes "plan_transition snap cmd actor prin = Inr result" "sn_request snap = new_state_from req"
  shows "\<not> is_terminal (row_status req)"
  using from_not_terminal [OF allowed_from [OF plan_parts(2) [OF assms(1)]]]
    normalize_terminal [of "new_state_from req"] assms(2) by auto

lemma run_rel:
  assumes "run_command_sync cfg wall now num prin command db = Inr (out, db')"
    and "\<forall>r. db_requests db num = Some r \<longrightarrow> rq_number r = num"
  shows "wf_rel db db'"
  using assms(1)
proof (cases rule: run_InrE)
  case no_op
  then show ?thesis by (simp add: wf_rel_refl)
next
  case (planned req actor cmd result req' db1)
  have n: "rq_number req' = num" using assms(2) planned(1,6) by simp
  have "db_requests db' = (db_requests db)(num \<mapsto> req')"
    using apply_domain_ops_frame [OF planned(7)] apply_events_frame [OF planned(8)] n by simp
  moreover have "row_version req \<le> row_version req'"
    using patched_row_version [of actor now result req] planned(6) by simp
  moreover have "\<not> is_terminal (row_status req)" using planned_not_terminal [OF planned(4)] by simp
  moreover have "\<exists>tail. db_audit db' = db_audit db @ tail"
    using apply_events_audit [OF planned(8)] apply_domain_ops_frame [OF planned(7)] by simp
  ultimately show ?thesis using planned(1) by (auto simp: wf_rel_def)
qed

text \<open>Steps between databases that satisfy the invariant.\<close>

definition wf_good_step :: "runner_settings \<Rightarrow> wf_db \<Rightarrow> wf_db \<Rightarrow> bool" where
  "wf_good_step cfg s t \<longleftrightarrow> wf_inv cfg s \<and> wf_step cfg s t"

lemma good_step_rel: "wf_good_step cfg s t \<Longrightarrow> wf_rel s t"
proof -
  assume "wf_good_step cfg s t"
  then have inv: "wf_inv cfg s" and st: "wf_step cfg s t" by (auto simp: wf_good_step_def)
  from st show "wf_rel s t"
  proof (cases rule: wf_step.cases)
    case (wf_command wall now num prin command out)
    then show ?thesis using run_rel wf_invD [OF inv] by (auto simp: row_inv_def)
  next
    case (wf_create num r)
    then show ?thesis by (auto simp: wf_rel_def unused_number_def fresh_request_def)
  qed (simp add: wf_rel_def)
qed

interpretation workflow_run: monotone_steps "wf_good_step cfg" wf_rel for cfg
  by unfold_locales (auto intro: wf_rel_refl wf_rel_trans good_step_rel)

lemma good_run:
  "(wf_step cfg)\<^sup>*\<^sup>* s t \<Longrightarrow> wf_inv cfg s \<Longrightarrow> (wf_good_step cfg)\<^sup>*\<^sup>* s t"
proof (induction rule: rtranclp_induct)
  case (step t u)
  then have "wf_inv cfg t" using workflow.inv_closed by blast
  then have "wf_good_step cfg t u" using step by (simp add: wf_good_step_def)
  then show ?case using step by (meson rtranclp.rtrancl_into_rtrancl)
qed simp

subsection \<open>The state machine the runner implements\<close>

text \<open>The status graph: the abstract machine of a request.\<close>

definition legal_edges :: "(status \<times> status) list" where
  "legal_edges =
     [(St_New, St_New), (St_New, St_InProgress), (St_New, St_Purchase), (St_New, St_Clarification),
      (St_New, St_Cancelled),
      (St_InProgress, St_InProgress), (St_InProgress, St_Purchase),
      (St_InProgress, St_Clarification), (St_InProgress, St_Executed), (St_InProgress, St_Cancelled),
      (St_Purchase, St_InProgress), (St_Purchase, St_Clarification), (St_Purchase, St_Executed),
      (St_Purchase, St_Cancelled),
      (St_Clarification, St_InProgress), (St_Clarification, St_Executed),
      (St_Clarification, St_Cancelled),
      (St_Executed, St_Completed), (St_Executed, St_Approved), (St_Executed, St_InProgress),
      (St_Executed, St_Cancelled),
      (St_Completed, St_InProgress), (St_Completed, St_Approved), (St_Completed, St_Returned),
      (St_Completed, St_Cancelled),
      (St_Returned, St_InProgress), (St_Returned, St_Approved), (St_Returned, St_Cancelled)]"

lemma action_edge:
  "s \<in> set (sp_from (action_table act)) \<Longrightarrow>
   (s, effective_to_status act (sp_to (action_table act)) snap) \<in> set legal_edges"
  by (cases act) (auto simp: spec_def effective_to_status_def legal_edges_def canon_statuses_def
      is_terminal_iff)

text \<open>What a successful command says of its request, before and after.\<close>

lemma run_request_after:
  assumes run: "run_command_sync cfg wall now num prin command db = Inr (out, db')"
    and inv: "wf_inv cfg db" and req: "db_requests db num = Some r"
  obtains (no_op) "db' = db" "oc_no_op out"
    | (planned) actor cmd result r' where
      "plan_transition (build_snapshot_sync db wall r actor) cmd actor prin = Inr result"
      "load_actor_context_sync db prin = Inr actor"
      "resolve_given (build_snapshot_sync db wall r actor) actor command = Inr cmd"
      "r' = patched_row actor now result r" "db_requests db' = (db_requests db)(num \<mapsto> r')"
      "row_status r \<in> set (sp_from (action_table (cmd_action cmd)))"
      "row_status r' = effective_to_status (cmd_action cmd) (sp_to (action_table (cmd_action cmd)))
         (build_snapshot_sync db wall r actor)"
      "\<not> oc_no_op out" "oc_old_state out = new_state_from r" "oc_new_state out = new_state_from r'"
  using run
proof (cases rule: run_InrE)
  case no_op
  then show thesis using that(1) by simp
next
  case (planned req actor cmd result req' db1)
  have r: "req = r" using planned(1) assms(3) by simp
  have ri: "row_inv num r" using wf_invD [OF inv assms(3)] by simp
  have f: "flags_canonical (new_state_from r)" using ri by (simp add: row_inv_def)
  have "db_requests db' = (db_requests db)(num \<mapsto> req')"
    using apply_domain_ops_frame [OF planned(7)] apply_events_frame [OF planned(8)] planned(6) ri r
    by (simp add: row_inv_def)
  moreover have "row_status r \<in> set (sp_from (action_table (cmd_action cmd)))"
    using allowed_from [OF plan_parts(2) [OF planned(4)]] normalize_canonical_flags [OF f] r by simp
  moreover have "row_status req' = effective_to_status (cmd_action cmd)
      (sp_to (action_table (cmd_action cmd))) (build_snapshot_sync db wall r actor)"
    using patched_row_status [OF planned(4)] plan_parts(3) [OF planned(4)] planned(6) r by simp
  moreover have "\<not> oc_no_op out" "oc_old_state out = new_state_from r"
    "oc_new_state out = new_state_from req'"
    using planned(5,10) r by (simp_all add: build_outcome_def Let_def)
  ultimately show thesis using that(2) planned(2,3,4,6) r by blast
qed

subsection \<open>A request with an executor cannot be taken from the pool\<close>

lemma first_row_filter:
  "first_row P rows = (case filter P rows of [] \<Rightarrow> None | x # _ \<Rightarrow> Some x)"
  by (induction rows) (auto simp: sql_simps)

lemma snapshot_unclaimed:
  assumes inv: "wf_inv cfg db" and req: "db_requests db num = Some r"
    and "sn_unclaimed (build_snapshot_sync db wall r actor)"
  shows "row_executor r = None"
proof -
  have n: "rq_number r = num" and a: "assign_inv db num r"
    using wf_invD [OF inv req] by (simp_all add: row_inv_def)
  obtain x where x: "first_row (active_for num) (db_assignments db) = Some x" "as_executor x = None"
    using assms(3) n by (auto simp: build_snapshot_sync_def Let_def split: option.splits)
  then have "x \<in> set (req_active db num)"
    by (auto simp: req_active_def dest: first_row_Some)
  then show ?thesis using a x(2) by (auto simp: assign_inv_def list_all_iff mirrors_def)
qed

lemma claim_needs_free_request:
  assumes inv: "wf_inv cfg db" and req: "db_requests db num = Some r"
    and ex: "row_executor r \<noteq> None"
    and act: "cmd_action c \<in> {EXECUTOR_CLAIM, SYSTEM_AUTO_PROMOTE}"
  shows "\<exists>e. run_command_sync cfg wall now num prin (Explicit c) db = Inl e"
proof (cases "run_command_sync cfg wall now num prin (Explicit c) db")
  case (Inr res)
  obtain out db' where res: "res = (out, db')" by (cases res)
  from Inr [unfolded res] show ?thesis
  proof (cases rule: run_InrE)
    case (no_op req actor cmd)
    then have "cmd = c" by (simp add: resolve_given_def)
    then show ?thesis using no_op(7) act
      by (auto simp: check_repeat_def spec_def Let_def split: if_splits)
  next
    case (planned req actor cmd result req' db1)
    have "cmd = c" "req = r" using planned(1,3) req by (simp_all add: resolve_given_def)
    then have "sn_unclaimed (build_snapshot_sync db wall r actor)"
      using allowed_authorized [OF plan_parts(2) [OF planned(4)]] act
      by (auto simp: spec_def system_can_promote_def dest: executor_can_claimD(4))
    from snapshot_unclaimed [OF inv req this] ex show ?thesis by contradiction
  qed
qed simp

end
