(* ===== verification/Shifts.thy ===== *)
theory Shifts
  imports WorkflowProps
begin

section \<open>Shifts of the staff\<close>

text \<open>
  Models the shift tables (\<open>database/models/shift.py\<close>, \<open>shift_transfer.py\<close>,
  \<open>shift_assignment.py\<close>) and the operations that open, change and close a shift: the bot's
  \<open>services/shift_service.py\<close>, \<open>handlers/my_shifts/_units.py\<close> and \<open>handlers/shifts.py\<close>, the
  dashboard's \<open>api/shifts/router/shift_crud.py\<close> over \<open>api/shifts/service/lifecycle.py\<close>, and the
  executor's \<open>api/shifts/executor_router.py\<close>.

  A shift row extends the columns the workflow reads (\<open>shift_row\<close>), a member of staff the ones of
  \<open>user_row\<close>.  The request tables are the ones of the workflow, \<open>sd_flow\<close>; \<open>flow\<close> gives them the
  users and shifts of this state.  \<open>sd_numbers\<close> lists the keys of the request table, for the
  operations that scan it.  Row ids come from sequences, \<open>sd_next_shift\<close> and \<open>sd_next_transfer\<close>.

  Each call is one transaction with its clock reading \<open>now\<close>.  A refusal is the left of a sum:
  \<open>Error_key\<close> for the error key a service returns, \<open>Http_status\<close> for the status an endpoint raises, where
  500 is an exception nobody catches.  \<open>.first()\<close> without an order is the first row of the table.
\<close>

datatype shift_error = Error_key string | Http_status nat

record staff_row = user_row +
  st_status :: string
  st_deleted :: bool

record work_shift = shift_row +
  ws_id :: int
  ws_notes :: "string option"
  ws_type :: "string option"
  ws_focus :: raw_value
  ws_max_requests :: int
  ws_priority :: int
  ws_planned_start :: "instant option"
  ws_planned_end :: "instant option"

record planned_request =
  pq_shift :: int
  pq_number :: string
  pq_status :: string

record transfer_row =
  tf_id :: int
  tf_shift :: int
  tf_from :: user_id
  tf_to :: "user_id option"
  tf_assigned_by :: "user_id option"
  tf_status :: string
  tf_reason :: string
  tf_comment :: "string option"
  tf_urgency :: string
  tf_created :: instant
  tf_assigned :: "instant option"
  tf_responded :: "instant option"
  tf_completed :: "instant option"
  tf_auto :: bool

datatype shift_details = Noted "string option" | Forced "string option" | Skills raw_value

record shift_audit =
  sl_user :: user_id
  sl_telegram :: "int option"
  sl_action :: string
  sl_shift :: int
  sl_details :: shift_details

record staff_db =
  sd_users :: "staff_row list"
  sd_shifts :: "work_shift list"
  sd_planned :: "planned_request list"
  sd_transfers :: "transfer_row list"
  sd_audit :: "shift_audit list"
  sd_next_shift :: int
  sd_next_transfer :: int
  sd_numbers :: "string list"
  sd_flow :: wf_db

definition flow :: "staff_db \<Rightarrow> wf_db" where
  "flow db = (sd_flow db)\<lparr>db_users := map user_row.truncate (sd_users db),
                          db_shifts := map shift_row.truncate (sd_shifts db)\<rparr>"

subsection \<open>Reading the tables\<close>

definition find_staff :: "staff_db \<Rightarrow> user_id \<Rightarrow> staff_row option" where
  "find_staff db uid = first_row (\<lambda>u. us_id u = uid) (sd_users db)"

definition staff_by_telegram :: "staff_db \<Rightarrow> int \<Rightarrow> staff_row option" where
  "staff_by_telegram db tg = first_row (\<lambda>u. us_telegram_id u = tg) (sd_users db)"

definition find_shift :: "staff_db \<Rightarrow> int \<Rightarrow> work_shift option" where
  "find_shift db sid = first_row (\<lambda>s. ws_id s = sid) (sd_shifts db)"

definition write_shift :: "int \<Rightarrow> (work_shift \<Rightarrow> work_shift) \<Rightarrow> staff_db \<Rightarrow> staff_db" where
  "write_shift sid f db = db\<lparr>sd_shifts := upd_where (\<lambda>s. ws_id s = sid) f (sd_shifts db)\<rparr>"

text \<open>\<open>db.add(Shift(...))\<close>: the row gets the next id.\<close>

definition add_shift :: "work_shift \<Rightarrow> staff_db \<Rightarrow> staff_db" where
  "add_shift s db = db\<lparr>sd_shifts := sd_shifts db @ [s\<lparr>ws_id := sd_next_shift db\<rparr>],
                       sd_next_shift := sd_next_shift db + 1\<rparr>"

text \<open>A row with the columns' defaults.\<close>

definition new_shift :: "user_id \<Rightarrow> instant \<Rightarrow> string option \<Rightarrow> work_shift" where
  "new_shift uid now notes =
     \<lparr>sh_user_id = Some uid, sh_status = ''active'', sh_start = now, sh_end = None, ws_id = 0,
      ws_notes = notes, ws_type = Some ''regular'', ws_focus = RawNone, ws_max_requests = 10,
      ws_priority = 1, ws_planned_start = None, ws_planned_end = None\<rparr>"

definition log_shift ::
    "user_id \<Rightarrow> int option \<Rightarrow> string \<Rightarrow> int \<Rightarrow> shift_details \<Rightarrow> staff_db \<Rightarrow> staff_db" where
  "log_shift uid tg act sid details db =
     db\<lparr>sd_audit := sd_audit db @
          [\<lparr>sl_user = uid, sl_telegram = tg, sl_action = act, sl_shift = sid,
            sl_details = details\<rparr>]\<rparr>"

subsection \<open>The bot's shift service\<close>

definition worker_roles :: "staff_row \<Rightarrow> string list" where
  "worker_roles u = parse_roles_safe (role_column (us_roles u))"

definition active_shift_of :: "staff_db \<Rightarrow> user_id \<Rightarrow> work_shift option" where
  "active_shift_of db uid =
     first_row (\<lambda>s. sh_user_id s = Some uid \<and> sh_status s = ''active'') (sd_shifts db)"

definition is_user_in_active_shift :: "staff_db \<Rightarrow> int \<Rightarrow> bool" where
  "is_user_in_active_shift db tg =
     (case staff_by_telegram db tg of
        None \<Rightarrow> False
      | Some u \<Rightarrow> active_shift_of db (us_id u) \<noteq> None)"

definition get_active_shift :: "staff_db \<Rightarrow> int \<Rightarrow> work_shift option" where
  "get_active_shift db tg =
     (case staff_by_telegram db tg of None \<Rightarrow> None | Some u \<Rightarrow> active_shift_of db (us_id u))"

definition start_shift ::
    "instant \<Rightarrow> int \<Rightarrow> string option \<Rightarrow> staff_db \<Rightarrow> shift_error + staff_db" where
  "start_shift now tg notes db =
     (case staff_by_telegram db tg of
        None \<Rightarrow> Inl (Error_key ''user_not_found'')
      | Some u \<Rightarrow>
          if ''executor'' \<notin> set (worker_roles u) \<and> ''manager'' \<notin> set (worker_roles u)
          then Inl (Error_key ''access_denied'')
          else Inr (log_shift (us_id u) (Some tg) ''shift_started'' (sd_next_shift db) (Noted notes)
                      (add_shift (new_shift (us_id u) now notes) db)))"

text \<open>\<open>(active.notes or "") + (f"\\n{notes}" if active.notes else notes)\<close>, when there are notes.\<close>

definition append_notes :: "string option \<Rightarrow> string option \<Rightarrow> string option" where
  "append_notes old notes =
     (if \<not> py_truthy_str notes then old
      else if py_truthy_str old then Some (the old @ [char_of (10::nat)] @ the notes)
      else notes)"

definition close_shift :: "instant \<Rightarrow> work_shift \<Rightarrow> work_shift" where
  "close_shift now s = s\<lparr>sh_end := Some now, sh_status := ''completed''\<rparr>"

definition close_with_notes :: "instant \<Rightarrow> string option \<Rightarrow> work_shift \<Rightarrow> work_shift" where
  "close_with_notes now notes s =
     (close_shift now s)\<lparr>ws_notes := append_notes (ws_notes s) notes\<rparr>"

definition end_shift ::
    "instant \<Rightarrow> int \<Rightarrow> string option \<Rightarrow> staff_db \<Rightarrow> shift_error + staff_db" where
  "end_shift now tg notes db =
     (case staff_by_telegram db tg of
        None \<Rightarrow> Inl (Error_key ''user_not_found'')
      | Some u \<Rightarrow>
          (case get_active_shift db tg of
             None \<Rightarrow> Inl (Error_key ''no_active_shift'')
           | Some s \<Rightarrow>
               Inr (log_shift (us_id u) (Some tg) ''shift_ended'' (ws_id s) (Noted notes)
                      (write_shift (ws_id s) (close_with_notes now notes) db))))"

definition force_end_shift ::
    "instant \<Rightarrow> int \<Rightarrow> int \<Rightarrow> string option \<Rightarrow> staff_db \<Rightarrow> shift_error + staff_db" where
  "force_end_shift now manager_tg target_tg notes db =
     (case staff_by_telegram db manager_tg of
        None \<Rightarrow> Inl (Error_key ''manager_required'')
      | Some m \<Rightarrow>
          if ''manager'' \<notin> set (worker_roles m) then Inl (Error_key ''manager_required'')
          else case get_active_shift db target_tg of
                 None \<Rightarrow> Inl (Error_key ''no_active_shift'')
               | Some s \<Rightarrow>
                   Inr (log_shift (us_id m)
                          (map_option us_telegram_id (staff_by_telegram db target_tg))
                          ''shift_ended'' (ws_id s) (Forced notes)
                          (write_shift (ws_id s) (close_with_notes now notes) db)))"

text \<open>The units of the bot's shift screens: a planned shift begins, an active one ends.\<close>

definition own_shift :: "staff_db \<Rightarrow> int \<Rightarrow> user_id \<Rightarrow> string \<Rightarrow> work_shift option" where
  "own_shift db sid uid status =
     first_row (\<lambda>s. ws_id s = sid \<and> sh_user_id s = Some uid \<and> sh_status s = status) (sd_shifts db)"

definition begin_planned ::
    "instant \<Rightarrow> user_id \<Rightarrow> int \<Rightarrow> staff_db \<Rightarrow> shift_error + staff_db" where
  "begin_planned now uid sid db =
     (case own_shift db sid uid ''planned'' of
        None \<Rightarrow> Inl (Error_key ''no_shift'')
      | Some s \<Rightarrow> Inr (write_shift sid (\<lambda>x. x\<lparr>sh_status := ''active'', sh_start := now\<rparr>) db))"

definition finish_own ::
    "instant \<Rightarrow> user_id \<Rightarrow> int \<Rightarrow> staff_db \<Rightarrow> shift_error + staff_db" where
  "finish_own now uid sid db =
     (case own_shift db sid uid ''active'' of
        None \<Rightarrow> Inl (Error_key ''no_shift'')
      | Some s \<Rightarrow> Inr (write_shift sid (close_shift now) db))"

definition end_shift_by_id ::
    "instant \<Rightarrow> int \<Rightarrow> int \<Rightarrow> staff_db \<Rightarrow> shift_error + staff_db" where
  "end_shift_by_id now tg sid db =
     (case staff_by_telegram db tg of
        None \<Rightarrow> Inl (Error_key ''no_user'')
      | Some u \<Rightarrow>
          (case own_shift db sid (us_id u) ''active'' of
             None \<Rightarrow> Inl (Error_key ''no_shift'')
           | Some s \<Rightarrow>
               Inr (log_shift (us_id u) (Some tg) ''SHIFT_ENDED'' sid (Skills (ws_focus s))
                      (write_shift sid (close_shift now) db))))"

subsection \<open>Who calls an endpoint\<close>

definition web_roles :: "staff_row \<Rightarrow> string list" where
  "web_roles u =
     (if worker_roles u \<noteq> [] then worker_roles u
      else case legacy_primary_role (user_row.truncate u) of None \<Rightarrow> [] | Some r \<Rightarrow> [r])"

definition require_web_role ::
    "staff_db \<Rightarrow> user_id \<Rightarrow> string \<Rightarrow> shift_error + staff_row" where
  "require_web_role db uid role =
     (case find_staff db uid of
        None \<Rightarrow> Inl (Http_status 401)
      | Some u \<Rightarrow>
          if st_deleted u \<or> st_status u = ''blocked'' then Inl (Http_status 403)
          else if role \<notin> set (web_roles u) then Inl (Http_status 403)
          else Inr u)"

subsection \<open>The executor's endpoints\<close>

definition web_start ::
    "instant \<Rightarrow> user_id \<Rightarrow> string option \<Rightarrow> staff_db \<Rightarrow> shift_error + staff_db" where
  "web_start now uid notes db =
     res_bind (require_web_role db uid ''executor'') (\<lambda>u.
       Inr (add_shift (new_shift uid now notes) db))"

definition web_end_own ::
    "instant \<Rightarrow> user_id \<Rightarrow> int \<Rightarrow> staff_db \<Rightarrow> shift_error + staff_db" where
  "web_end_own now uid sid db =
     res_bind (require_web_role db uid ''executor'') (\<lambda>u.
       case find_shift db sid of
         None \<Rightarrow> Inl (Http_status 404)
       | Some s \<Rightarrow>
           if sh_user_id s \<noteq> Some uid then Inl (Http_status 403)
           else if sh_status s \<noteq> ''active'' then Inl (Http_status 409)
           else Inr (write_shift sid (close_shift now) db))"

subsection \<open>Overlapping windows\<close>

definition booked_status :: "string \<Rightarrow> bool" where
  "booked_status s \<longleftrightarrow> s \<in> {''active'', ''planned''}"

text \<open>The dashboard's query: an open-ended shift reaches to infinity.\<close>

definition overlaps_window :: "user_id \<Rightarrow> instant \<Rightarrow> instant \<Rightarrow> work_shift \<Rightarrow> bool" where
  "overlaps_window uid t0 t1 s \<longleftrightarrow>
     sh_user_id s = Some uid \<and> booked_status (sh_status s) \<and> sh_start s < t1 \<and>
     (case sh_end s of None \<Rightarrow> True | Some e \<Rightarrow> t0 < e)"

definition find_overlapping_shift ::
    "staff_db \<Rightarrow> user_id \<Rightarrow> instant \<Rightarrow> instant \<Rightarrow> int option \<Rightarrow> work_shift option" where
  "find_overlapping_shift db uid t0 t1 exclude =
     first_row (\<lambda>s. overlaps_window uid t0 t1 s \<and> Some (ws_id s) \<noteq> exclude) (sd_shifts db)"

subsection \<open>The manager's endpoints\<close>

definition shift_statuses :: "string list" where
  "shift_statuses = [''active'', ''completed'', ''cancelled'', ''planned'', ''paused'']"

definition shift_types :: "string list" where
  "shift_types = [''regular'', ''emergency'', ''overtime'', ''maintenance'']"

definition focus_ok :: "string list \<Rightarrow> bool" where
  "focus_ok = list_all (\<lambda>v. is_canonical v \<or> v = universal_specialization)"

record shift_body =
  bo_user :: user_id
  bo_start :: instant
  bo_end :: instant
  bo_type :: string
  bo_focus :: "string list"
  bo_max_requests :: int
  bo_priority :: int
  bo_notes :: "string option"

definition shift_body_ok :: "shift_body \<Rightarrow> bool" where
  "shift_body_ok b \<longleftrightarrow>
     bo_start b < bo_end b \<and> bo_type b \<in> set shift_types \<and> focus_ok (bo_focus b) \<and>
     1 \<le> bo_max_requests b \<and> 1 \<le> bo_priority b \<and> bo_priority b \<le> 5"

definition body_shift :: "shift_body \<Rightarrow> work_shift" where
  "body_shift b =
     \<lparr>sh_user_id = Some (bo_user b), sh_status = ''active'', sh_start = bo_start b,
      sh_end = Some (bo_end b), ws_id = 0, ws_notes = bo_notes b, ws_type = Some (bo_type b),
      ws_focus = RawItems (bo_focus b), ws_max_requests = bo_max_requests b,
      ws_priority = bo_priority b, ws_planned_start = Some (bo_start b),
      ws_planned_end = Some (bo_end b)\<rparr>"

definition web_create ::
    "user_id \<Rightarrow> shift_body \<Rightarrow> staff_db \<Rightarrow> shift_error + staff_db" where
  "web_create manager b db =
     res_bind (require_web_role db manager ''manager'') (\<lambda>m.
       if \<not> shift_body_ok b then Inl (Http_status 422)
       else case find_staff db (bo_user b) of
         None \<Rightarrow> Inl (Http_status 404)
       | Some u \<Rightarrow>
           if ''executor'' \<notin> set (web_roles u) then Inl (Http_status 422)
           else if find_overlapping_shift db (bo_user b) (bo_start b) (bo_end b) None \<noteq> None
           then Inl (Http_status 409)
           else Inr (add_shift (body_shift b) db))"

text \<open>A field of a \<open>PATCH\<close> body: absent, \<open>null\<close>, or given.\<close>

datatype 'a field_arg = Unset | Null | Given 'a

record shift_patch =
  pc_status :: "string field_arg"
  pc_user :: "user_id field_arg"
  pc_type :: "string field_arg"
  pc_start :: "instant field_arg"
  pc_end :: "instant field_arg"
  pc_notes :: "string field_arg"
  pc_max_requests :: "int field_arg"
  pc_priority :: "int field_arg"
  pc_focus :: "string list field_arg"

fun given_ok :: "('a \<Rightarrow> bool) \<Rightarrow> 'a field_arg \<Rightarrow> bool" where
  "given_ok P (Given x) = P x"
| "given_ok P _ = True"

fun set_nullable :: "'a field_arg \<Rightarrow> 'a option \<Rightarrow> 'a option" where
  "set_nullable Unset old = old"
| "set_nullable Null old = None"
| "set_nullable (Given x) old = Some x"

fun set_required :: "'a field_arg \<Rightarrow> 'a \<Rightarrow> 'a" where
  "set_required (Given x) old = x"
| "set_required _ old = old"

fun is_set :: "'a field_arg \<Rightarrow> bool" where
  "is_set Unset = False"
| "is_set _ = True"

fun is_null :: "'a field_arg \<Rightarrow> bool" where
  "is_null Null = True"
| "is_null _ = False"

definition shift_patch_ok :: "shift_patch \<Rightarrow> bool" where
  "shift_patch_ok p \<longleftrightarrow>
     given_ok (\<lambda>s. s \<in> set shift_statuses) (pc_status p) \<and>
     given_ok (\<lambda>t. t \<in> set shift_types) (pc_type p) \<and>
     given_ok (\<lambda>n. 1 \<le> n) (pc_max_requests p) \<and>
     given_ok (\<lambda>n. 1 \<le> n \<and> n \<le> 5) (pc_priority p) \<and> given_ok focus_ok (pc_focus p)"

definition next_statuses :: "string \<Rightarrow> string list" where
  "next_statuses s =
     (if s = ''planned'' then [''active'', ''cancelled'']
      else if s = ''active'' then [''paused'', ''cancelled'']
      else if s = ''paused'' then [''active'', ''cancelled'']
      else [])"

definition patch_content :: "shift_patch \<Rightarrow> bool" where
  "patch_content p \<longleftrightarrow>
     is_set (pc_type p) \<or> is_set (pc_start p) \<or> is_set (pc_end p) \<or> is_set (pc_notes p) \<or>
     is_set (pc_max_requests p) \<or> is_set (pc_priority p) \<or> is_set (pc_focus p)"

text \<open>\<open>setattr\<close> of every given field, with the planned times kept in step.  The columns that are
  not nullable refuse a \<open>null\<close> at commit.\<close>

definition patch_violates :: "shift_patch \<Rightarrow> bool" where
  "patch_violates p \<longleftrightarrow>
     is_null (pc_status p) \<or> is_null (pc_start p) \<or> is_null (pc_max_requests p) \<or>
     is_null (pc_priority p)"

definition apply_shift_update :: "shift_patch \<Rightarrow> work_shift \<Rightarrow> work_shift" where
  "apply_shift_update p s =
     (let t0 = set_required (pc_start p) (sh_start s); t1 = set_nullable (pc_end p) (sh_end s)
      in s\<lparr>sh_status := set_required (pc_status p) (sh_status s), sh_start := t0, sh_end := t1,
           ws_notes := set_nullable (pc_notes p) (ws_notes s),
           ws_type := set_nullable (pc_type p) (ws_type s),
           ws_focus := (case pc_focus p of Unset \<Rightarrow> ws_focus s | Null \<Rightarrow> RawNone
                        | Given vs \<Rightarrow> RawItems vs),
           ws_max_requests := set_required (pc_max_requests p) (ws_max_requests s),
           ws_priority := set_required (pc_priority p) (ws_priority s),
           ws_planned_start := (if is_set (pc_start p) then Some t0 else ws_planned_start s),
           ws_planned_end := (if is_set (pc_end p) then t1 else ws_planned_end s)\<rparr>)"

text \<open>The window the patch asks for, when both its ends are known.\<close>

definition patch_window :: "shift_patch \<Rightarrow> work_shift \<Rightarrow> (instant \<times> instant) option" where
  "patch_window p s =
     (case (set_nullable (pc_start p) (Some (sh_start s)), set_nullable (pc_end p) (sh_end s)) of
        (Some t0, Some t1) \<Rightarrow> Some (t0, t1)
      | _ \<Rightarrow> None)"

definition check_window ::
    "staff_db \<Rightarrow> work_shift \<Rightarrow> shift_patch \<Rightarrow> shift_error option" where
  "check_window db s p =
     (case patch_window p s of
        None \<Rightarrow> None
      | Some (t0, t1) \<Rightarrow>
          if t1 \<le> t0 then Some (Http_status 422)
          else if \<not> (is_set (pc_start p) \<or> is_set (pc_end p)) then None
          else case sh_user_id s of
                 None \<Rightarrow> Some (Http_status 500)
               | Some uid \<Rightarrow>
                   if find_overlapping_shift db uid t0 t1 (Some (ws_id s)) \<noteq> None
                   then Some (Http_status 409) else None)"

definition web_patch ::
    "user_id \<Rightarrow> int \<Rightarrow> shift_patch \<Rightarrow> staff_db \<Rightarrow> shift_error + staff_db" where
  "web_patch manager sid p db =
     res_bind (require_web_role db manager ''manager'') (\<lambda>m.
       if \<not> shift_patch_ok p then Inl (Http_status 422)
       else case find_shift db sid of
         None \<Rightarrow> Inl (Http_status 404)
       | Some s \<Rightarrow>
           if \<not> given_ok (\<lambda>t. t \<in> set (next_statuses (sh_status s))) (pc_status p)
           then Inl (Http_status 409)
           else if \<not> given_ok (\<lambda>u. Some u = sh_user_id s) (pc_user p) then Inl (Http_status 422)
           else if patch_content p \<and> sh_status s \<notin> {''planned'', ''active'', ''paused''}
           then Inl (Http_status 409)
           else case check_window db s p of
                  Some e \<Rightarrow> Inl e
                | None \<Rightarrow>
                    if patch_violates p then Inl (Http_status 500)
                    else Inr (write_shift sid (apply_shift_update p) db))"

text \<open>Deleting a shift deletes its transfers and its planned requests with it.\<close>

definition web_delete :: "user_id \<Rightarrow> int \<Rightarrow> staff_db \<Rightarrow> shift_error + staff_db" where
  "web_delete manager sid db =
     res_bind (require_web_role db manager ''manager'') (\<lambda>m.
       case find_shift db sid of
         None \<Rightarrow> Inl (Http_status 404)
       | Some s \<Rightarrow>
           if sh_status s \<noteq> ''planned'' then Inl (Http_status 409)
           else Inr (db\<lparr>sd_shifts := filter (\<lambda>x. ws_id x \<noteq> sid) (sd_shifts db),
                        sd_transfers := filter (\<lambda>t. tf_shift t \<noteq> sid) (sd_transfers db),
                        sd_planned := filter (\<lambda>q. pq_shift q \<noteq> sid) (sd_planned db)\<rparr>))"

definition web_end ::
    "instant \<Rightarrow> user_id \<Rightarrow> int \<Rightarrow> staff_db \<Rightarrow> shift_error + staff_db" where
  "web_end now manager sid db =
     res_bind (require_web_role db manager ''manager'') (\<lambda>m.
       case find_shift db sid of
         None \<Rightarrow> Inl (Http_status 404)
       | Some s \<Rightarrow>
           if sh_status s \<notin> {''active'', ''paused''} then Inl (Http_status 409)
           else Inr (write_shift sid (close_shift now) db))"

end
