(* ===== verification/ShiftTransfers.thy ===== *)
theory ShiftTransfers
  imports Shifts
begin

section \<open>Handing a shift over\<close>

text \<open>
  Models \<open>services/shift_transfer_service.py\<close> (the bot), \<open>api/shifts/service/web_transfers.py\<close>
  and \<open>api/shifts/router/transfers.py\<close> over \<open>service/transfers.py\<close> (the web), the status machine
  of \<open>database/models/shift_transfer.py\<close>, the executor change of
  \<open>services/assignment_service.py\<close>, the removal of an employee
  (\<open>api/shifts/router/employees.py\<close>) and the scheduler's clean-up
  (\<open>utils/shift_scheduler.py\<close>).

  \<open>stamp\<close> formats an instant as \<open>'%Y-%m-%d %H:%M'\<close>, \<open>expiry_note\<close> is the sentence the scheduler
  appends to an expired transfer: texts of the locale and its time zone, arguments of the model.
\<close>

subsection \<open>The status machine of a transfer\<close>

definition blocking_statuses :: "string list" where
  "blocking_statuses = [''pending'', ''assigned'', ''accepted'']"

definition valid_transitions :: "string \<Rightarrow> string list" where
  "valid_transitions s =
     (if s = ''pending'' then [''assigned'', ''cancelled'']
      else if s = ''assigned'' then [''accepted'', ''rejected'', ''cancelled'']
      else if s = ''accepted'' then [''completed'', ''cancelled'']
      else if s = ''rejected'' then [''pending'', ''cancelled'']
      else [])"

definition can_be_assigned_to :: "transfer_row \<Rightarrow> user_id \<Rightarrow> bool" where
  "can_be_assigned_to t uid \<longleftrightarrow> uid \<noteq> tf_from t \<and> tf_status t = ''pending''"

definition stamped_comment ::
    "(instant \<Rightarrow> string) \<Rightarrow> instant \<Rightarrow> string option \<Rightarrow> string option \<Rightarrow> string option" where
  "stamped_comment stamp now comment old =
     (if \<not> py_truthy_str comment then old
      else let line = CHR ''['' # stamp now @ '']'' @ '' '' @ the comment
           in if py_truthy_str old then Some (the old @ [char_of (10::nat)] @ line)
              else Some line)"

definition update_status ::
    "(instant \<Rightarrow> string) \<Rightarrow> instant \<Rightarrow> string \<Rightarrow> string option \<Rightarrow> transfer_row
     \<Rightarrow> transfer_row option" where
  "update_status stamp now new_status comment t =
     (if new_status \<notin> set (valid_transitions (tf_status t)) then None
      else Some (t\<lparr>tf_status := new_status,
        tf_assigned := (if new_status = ''assigned'' then Some now else tf_assigned t),
        tf_responded := (if new_status \<in> {''accepted'', ''rejected''} then Some now
                         else tf_responded t),
        tf_completed := (if new_status = ''completed'' then Some now else tf_completed t),
        tf_comment := stamped_comment stamp now comment (tf_comment t)\<rparr>))"

definition find_transfer :: "staff_db \<Rightarrow> int \<Rightarrow> transfer_row option" where
  "find_transfer db tid = first_row (\<lambda>t. tf_id t = tid) (sd_transfers db)"

definition write_transfer :: "transfer_row \<Rightarrow> staff_db \<Rightarrow> staff_db" where
  "write_transfer t db =
     db\<lparr>sd_transfers := upd_where (\<lambda>x. tf_id x = tf_id t) (\<lambda>x. t) (sd_transfers db)\<rparr>"

definition add_transfer :: "transfer_row \<Rightarrow> staff_db \<Rightarrow> staff_db" where
  "add_transfer t db = db\<lparr>sd_transfers := sd_transfers db @ [t\<lparr>tf_id := sd_next_transfer db\<rparr>],
                          sd_next_transfer := sd_next_transfer db + 1\<rparr>"

subsection \<open>Moving the requests of a shift\<close>

definition apply_executor_reassign :: "user_id \<Rightarrow> request_row \<Rightarrow> request_row" where
  "apply_executor_reassign e r = r\<lparr>rq_cols := (rq_cols r)(F_executor_id := VInt e)\<rparr>"

text \<open>The active assignment of a request changes its executor where it is an individual one.\<close>

fun set_active_executor ::
    "string \<Rightarrow> user_id \<Rightarrow> assignment_row list \<Rightarrow> assignment_row list" where
  "set_active_executor num e [] = []"
| "set_active_executor num e (a # rows) =
     (if active_for num a
      then (if as_type a = ''individual'' then a\<lparr>as_executor := Some e\<rparr> else a) # rows
      else a # set_active_executor num e rows)"

text \<open>\<open>AssignmentService.reassign_executor\<close> and its async twin; \<open>None\<close> for \<open>False\<close>.\<close>

definition reassign_executor :: "string \<Rightarrow> user_id \<Rightarrow> wf_db \<Rightarrow> wf_db option" where
  "reassign_executor num e db =
     (if num = [] then None
      else case db_requests db num of
             None \<Rightarrow> None
           | Some r \<Rightarrow>
               Some (db\<lparr>db_requests := (db_requests db)(num \<mapsto> apply_executor_reassign e r),
                        db_assignments := set_active_executor num e (db_assignments db)\<rparr>))"

definition move_statuses :: "status list" where
  "move_statuses = [St_InProgress, St_Purchase, St_Clarification]"

definition status_in :: "status list \<Rightarrow> wf_db \<Rightarrow> string \<Rightarrow> bool" where
  "status_in ss db num =
     (case db_requests db num of None \<Rightarrow> False | Some r \<Rightarrow> row_status r \<in> set ss)"

definition executor_is :: "user_id \<Rightarrow> wf_db \<Rightarrow> string \<Rightarrow> bool" where
  "executor_is u db num =
     (case db_requests db num of None \<Rightarrow> False | Some r \<Rightarrow> row_executor r = Some u)"

text \<open>The loop: the requests moved and the tables after it.\<close>

fun move_each ::
    "status list \<Rightarrow> user_id \<Rightarrow> string list \<Rightarrow> wf_db \<Rightarrow> string list \<times> wf_db" where
  "move_each ss e [] db = ([], db)"
| "move_each ss e (num # nums) db =
     (if \<not> status_in ss db num then move_each ss e nums db
      else case reassign_executor num e db of
             None \<Rightarrow> move_each ss e nums db
           | Some db' \<Rightarrow>
               (case move_each ss e nums db' of (moved, db'') \<Rightarrow> (num # moved, db'')))"

definition planned_numbers :: "staff_db \<Rightarrow> int \<Rightarrow> string list" where
  "planned_numbers db sid =
     remdups (map pq_number
       (filter (\<lambda>q. pq_shift q = sid \<and> pq_status q \<notin> {''completed'', ''cancelled''})
          (sd_planned db)))"

definition held_numbers :: "status list \<Rightarrow> staff_db \<Rightarrow> user_id \<Rightarrow> string list" where
  "held_numbers ss db u =
     filter (\<lambda>n. executor_is u (sd_flow db) n \<and> status_in ss (sd_flow db) n) (sd_numbers db)"

definition shift_requests :: "staff_db \<Rightarrow> work_shift \<Rightarrow> user_id \<Rightarrow> string list" where
  "shift_requests db s old =
     (let nums = planned_numbers db (ws_id s)
      in if nums = [] \<and> sh_status s = ''active'' then held_numbers move_statuses db old else nums)"

definition move_active_requests ::
    "work_shift \<Rightarrow> user_id \<Rightarrow> user_id \<Rightarrow> staff_db \<Rightarrow> string list \<times> staff_db" where
  "move_active_requests s old e db =
     (case move_each move_statuses e (shift_requests db s old) (sd_flow db) of
        (moved, tables) \<Rightarrow> (moved, db\<lparr>sd_flow := tables\<rparr>))"

subsection \<open>Who may take a shift: the bot's checks\<close>

definition bot_has_role :: "staff_row \<Rightarrow> string \<Rightarrow> bool" where
  "bot_has_role u role =
     (case us_roles u of
        None \<Rightarrow> False
      | Some raw \<Rightarrow>
          if raw = [] then False
          else let text = py_strip raw
               in case (if text \<noteq> [] \<and> hd text = CHR ''['' then json_loads text else None) of
                    Some (JList vs) \<Rightarrow> role \<in> set (map (\<lambda>v. py_strip (py_str v)) vs)
                  | _ \<Rightarrow> role \<in> set (map py_strip (py_split (CHR '','') text)))"

definition bot_overlap :: "staff_db \<Rightarrow> work_shift \<Rightarrow> user_id \<Rightarrow> instant \<Rightarrow> work_shift option" where
  "bot_overlap db s uid t1 =
     first_row (\<lambda>x. sh_user_id x = Some uid \<and> booked_status (sh_status x) \<and> ws_id x \<noteq> ws_id s \<and>
                    sh_start x < t1 \<and>
                    (case sh_end x of None \<Rightarrow> False | Some e \<Rightarrow> sh_start s < e)) (sd_shifts db)"

definition transferable :: "work_shift \<Rightarrow> bool" where
  "transferable s \<longleftrightarrow> sh_user_id s \<noteq> None \<and> sh_status s \<in> {''planned'', ''active''}"

definition validate_reassign_target ::
    "staff_db \<Rightarrow> work_shift \<Rightarrow> user_id \<Rightarrow> string option" where
  "validate_reassign_target db s uid =
     (if \<not> transferable s then Some ''shift_not_transferable''
      else case find_staff db uid of
        None \<Rightarrow> Some ''executor_not_found''
      | Some u \<Rightarrow>
          if st_status u \<noteq> ''approved'' then Some ''not_approved''
          else if \<not> bot_has_role u ''executor'' then Some ''not_executor''
          else if sh_user_id s = Some uid then Some ''same_executor''
          else if \<not> has_required_specs (us_specialization u) (ws_focus s)
          then Some ''spec_mismatch''
          else case sh_end s of
                 None \<Rightarrow> None
               | Some t1 \<Rightarrow> if bot_overlap db s uid t1 \<noteq> None then Some ''overlap'' else None)"

subsection \<open>Notifications\<close>

datatype notice = Shift_given int nat | Shift_taken int | Transfer_accepted int | Transfer_rejected int
  | Transfer_expired int

type_synonym job = "user_id \<times> notice"

definition reassign_jobs :: "int \<Rightarrow> user_id \<Rightarrow> user_id \<Rightarrow> nat \<Rightarrow> job list" where
  "reassign_jobs sid old e n =
     (e, Shift_given sid n) # (if old \<noteq> 0 \<and> old \<noteq> e then [(old, Shift_taken sid)] else [])"

definition answer_jobs :: "transfer_row \<Rightarrow> (int \<Rightarrow> notice) \<Rightarrow> job list" where
  "answer_jobs t what =
     (tf_from t, what (tf_id t)) #
     (case tf_assigned_by t of
        None \<Rightarrow> [] | Some m \<Rightarrow> if m \<noteq> 0 then [(m, what (tf_id t))] else [])"

subsection \<open>The common core of the bot\<close>

definition history_row ::
    "instant \<Rightarrow> int \<Rightarrow> user_id \<Rightarrow> user_id \<Rightarrow> user_id option \<Rightarrow> transfer_row" where
  "history_row now sid old e manager =
     \<lparr>tf_id = 0, tf_shift = sid, tf_from = old, tf_to = Some e, tf_assigned_by = manager,
      tf_status = ''completed'', tf_reason = ''manager_reassign'', tf_comment = None,
      tf_urgency = ''normal'', tf_created = now, tf_assigned = Some now, tf_responded = Some now,
      tf_completed = Some now, tf_auto = True\<rparr>"

definition give_shift :: "int \<Rightarrow> user_id \<Rightarrow> staff_db \<Rightarrow> staff_db" where
  "give_shift sid e db = write_shift sid (\<lambda>x. x\<lparr>sh_user_id := Some e\<rparr>) db"

definition reassign_shift ::
    "instant \<Rightarrow> int \<Rightarrow> user_id \<Rightarrow> user_id option \<Rightarrow> bool \<Rightarrow> staff_db
     \<Rightarrow> shift_error + job list \<times> staff_db" where
  "reassign_shift now sid e manager record_history db =
     (case find_shift db sid of
        None \<Rightarrow> Inl (Error_key ''shift_not_found'')
      | Some s \<Rightarrow>
          (case validate_reassign_target db s e of
             Some err \<Rightarrow> Inl (Error_key err)
           | None \<Rightarrow>
               let old = the (sh_user_id s);
                   (moved, db1) = move_active_requests s old e (give_shift sid e db);
                   db2 = (if record_history then add_transfer (history_row now sid old e manager) db1
                          else db1)
               in Inr (reassign_jobs sid old e (length moved), db2)))"

definition manager_direct_reassign ::
    "instant \<Rightarrow> int \<Rightarrow> user_id \<Rightarrow> int \<Rightarrow> staff_db \<Rightarrow> shift_error + job list \<times> staff_db" where
  "manager_direct_reassign now sid e actor_tg db =
     reassign_shift now sid e (map_option us_id (staff_by_telegram db actor_tg)) True db"

subsection \<open>The executor's transfer in the bot\<close>

definition pending_row ::
    "instant \<Rightarrow> int \<Rightarrow> user_id \<Rightarrow> string \<Rightarrow> string option \<Rightarrow> string \<Rightarrow> transfer_row" where
  "pending_row now sid uid reason comment urgency =
     \<lparr>tf_id = 0, tf_shift = sid, tf_from = uid, tf_to = None, tf_assigned_by = None,
      tf_status = ''pending'', tf_reason = (if reason = [] then ''other'' else reason),
      tf_comment = (if py_truthy_str comment then comment else None),
      tf_urgency = (if urgency = [] then ''normal'' else urgency), tf_created = now,
      tf_assigned = None, tf_responded = None, tf_completed = None, tf_auto = False\<rparr>"

definition row_fits :: "transfer_row \<Rightarrow> bool" where
  "row_fits t \<longleftrightarrow> length (tf_reason t) \<le> 100 \<and> length (tf_urgency t) \<le> 20"

definition blocked_shift :: "staff_db \<Rightarrow> int \<Rightarrow> bool" where
  "blocked_shift db sid \<longleftrightarrow>
     first_row (\<lambda>t. tf_shift t = sid \<and> tf_status t \<in> set blocking_statuses) (sd_transfers db) \<noteq> None"

definition transfer_refusal :: "staff_db \<Rightarrow> int \<Rightarrow> user_id \<Rightarrow> shift_error option" where
  "transfer_refusal db sid uid =
     (case find_shift db sid of
        None \<Rightarrow> Some (Error_key ''shift_not_found'')
      | Some s \<Rightarrow>
          if sh_user_id s \<noteq> Some uid then Some (Error_key ''not_your_shift'')
          else if sh_status s \<notin> {''planned'', ''active''}
          then Some (Error_key ''shift_not_transferable'')
          else if blocked_shift db sid then Some (Error_key ''transfer_already_exists'')
          else None)"

definition create_transfer ::
    "instant \<Rightarrow> int \<Rightarrow> user_id \<Rightarrow> string \<Rightarrow> string option \<Rightarrow> string \<Rightarrow> staff_db
     \<Rightarrow> shift_error + staff_db" where
  "create_transfer now sid uid reason comment urgency db =
     (case transfer_refusal db sid uid of
        Some e \<Rightarrow> Inl e
      | None \<Rightarrow>
          let t = pending_row now sid uid reason comment urgency
          in if \<not> row_fits t then Inl (Error_key ''internal_error'') else Inr (add_transfer t db))"

definition assign_transfer ::
    "(instant \<Rightarrow> string) \<Rightarrow> instant \<Rightarrow> int \<Rightarrow> user_id \<Rightarrow> user_id option \<Rightarrow> staff_db
     \<Rightarrow> shift_error + staff_db" where
  "assign_transfer stamp now tid e manager db =
     (case find_transfer db tid of
        None \<Rightarrow> Inl (Error_key ''transfer_not_found'')
      | Some t \<Rightarrow>
          if tf_status t \<noteq> ''pending'' then Inl (Error_key ''wrong_status'')
          else if \<not> can_be_assigned_to t e then Inl (Error_key ''cannot_assign_to_self'')
          else case find_shift db (tf_shift t) of
            None \<Rightarrow> Inl (Error_key ''shift_not_found'')
          | Some s \<Rightarrow>
              (case validate_reassign_target db s e of
                 Some err \<Rightarrow> Inl (Error_key err)
               | None \<Rightarrow>
                   (case update_status stamp now ''assigned'' None t of
                      None \<Rightarrow> Inl (Error_key ''wrong_status'')
                    | Some t' \<Rightarrow>
                        Inr (write_transfer (t'\<lparr>tf_to := Some e, tf_assigned_by := manager\<rparr>) db))))"

text \<open>A failed move rolls back the intermediate acceptance: the left carries no database.\<close>

definition accept_transfer ::
    "(instant \<Rightarrow> string) \<Rightarrow> instant \<Rightarrow> int \<Rightarrow> user_id \<Rightarrow> staff_db
     \<Rightarrow> shift_error + job list \<times> staff_db" where
  "accept_transfer stamp now tid uid db =
     (case find_transfer db tid of
        None \<Rightarrow> Inl (Error_key ''transfer_not_found'')
      | Some t \<Rightarrow>
          if tf_status t \<noteq> ''assigned'' then Inl (Error_key ''wrong_status'')
          else if tf_to t \<noteq> Some uid then Inl (Error_key ''not_your_transfer'')
          else case update_status stamp now ''accepted'' None t of
            None \<Rightarrow> Inl (Error_key ''wrong_status'')
          | Some t1 \<Rightarrow>
              res_bind (reassign_shift now (tf_shift t) uid (tf_assigned_by t) False
                          (write_transfer t1 db)) (\<lambda>(jobs, db1).
                let t2 = (case update_status stamp now ''completed'' None t1 of
                            None \<Rightarrow> t1 | Some x \<Rightarrow> x)
                in Inr (jobs @ answer_jobs t Transfer_accepted, write_transfer t2 db1)))"

definition reject_transfer ::
    "(instant \<Rightarrow> string) \<Rightarrow> instant \<Rightarrow> int \<Rightarrow> user_id \<Rightarrow> string option \<Rightarrow> staff_db
     \<Rightarrow> shift_error + job list \<times> staff_db" where
  "reject_transfer stamp now tid uid comment db =
     (case find_transfer db tid of
        None \<Rightarrow> Inl (Error_key ''transfer_not_found'')
      | Some t \<Rightarrow>
          if tf_status t \<noteq> ''assigned'' then Inl (Error_key ''wrong_status'')
          else if tf_to t \<noteq> Some uid then Inl (Error_key ''not_your_transfer'')
          else case update_status stamp now ''rejected'' comment t of
            None \<Rightarrow> Inl (Error_key ''wrong_status'')
          | Some t1 \<Rightarrow> Inr (answer_jobs t Transfer_rejected, write_transfer t1 db))"

subsection \<open>The executor's transfer on the web\<close>

text \<open>\<open>scalar_one_or_none\<close> raises when two transfers block the shift.\<close>

definition create_transfer_web ::
    "instant \<Rightarrow> int \<Rightarrow> user_id \<Rightarrow> string \<Rightarrow> string option \<Rightarrow> string \<Rightarrow> staff_db
     \<Rightarrow> shift_error + staff_db" where
  "create_transfer_web now sid uid reason comment urgency db =
     res_bind (require_web_role db uid ''executor'') (\<lambda>u.
       case transfer_refusal db sid uid of
         Some e \<Rightarrow>
           if e = Error_key ''transfer_already_exists'' \<and>
              1 < row_count (\<lambda>t. tf_shift t = sid \<and> tf_status t \<in> set blocking_statuses)
                    (sd_transfers db)
           then Inl (Http_status 500) else Inl e
       | None \<Rightarrow>
           let t = pending_row now sid uid reason comment urgency
           in if \<not> row_fits t then Inl (Http_status 500) else Inr (add_transfer t db))"

text \<open>The checks of the web on the shift and its receiver.\<close>

definition web_receiver_refusal ::
    "staff_db \<Rightarrow> work_shift \<Rightarrow> user_id \<Rightarrow> string option" where
  "web_receiver_refusal db s uid =
     (if \<not> transferable s then Some ''shift_not_transferable''
      else case find_staff db uid of
        None \<Rightarrow> Some ''not_executor''
      | Some u \<Rightarrow>
          if st_status u \<noteq> ''approved'' \<or> ''executor'' \<notin> set (web_roles u)
          then Some ''not_executor''
          else if \<not> has_required_specs (us_specialization u) (ws_focus s)
          then Some ''spec_mismatch''
          else case sh_end s of
                 None \<Rightarrow> None
               | Some t1 \<Rightarrow>
                   if find_overlapping_shift db uid (sh_start s) t1 (Some (ws_id s)) \<noteq> None
                   then Some ''overlap'' else None)"

definition accept_transfer_web ::
    "(instant \<Rightarrow> string) \<Rightarrow> instant \<Rightarrow> int \<Rightarrow> user_id \<Rightarrow> staff_db
     \<Rightarrow> shift_error + (user_id \<times> string list) \<times> staff_db" where
  "accept_transfer_web stamp now tid uid db =
     res_bind (require_web_role db uid ''executor'') (\<lambda>u.
       case find_transfer db tid of
         None \<Rightarrow> Inl (Error_key ''transfer_not_found'')
       | Some t \<Rightarrow>
           if tf_status t \<noteq> ''assigned'' then Inl (Error_key ''wrong_status'')
           else if tf_to t \<noteq> Some uid then Inl (Error_key ''not_your_transfer'')
           else case find_shift db (tf_shift t) of
             None \<Rightarrow> Inl (Error_key ''shift_not_found'')
           | Some s \<Rightarrow>
               (case web_receiver_refusal db s uid of
                  Some err \<Rightarrow> Inl (Error_key err)
                | None \<Rightarrow>
                    (case update_status stamp now ''accepted'' None t of
                       None \<Rightarrow> Inl (Error_key ''wrong_status'')
                     | Some t1 \<Rightarrow>
                         let old = the (sh_user_id s);
                             (moved, db1) = move_active_requests s old uid
                               (give_shift (ws_id s) uid (write_transfer t1 db));
                             t2 = (case update_status stamp now ''completed'' None t1 of
                                     None \<Rightarrow> t1 | Some x \<Rightarrow> x)
                         in Inr ((old, moved), write_transfer t2 db1))))"

definition reject_transfer_web ::
    "(instant \<Rightarrow> string) \<Rightarrow> instant \<Rightarrow> int \<Rightarrow> user_id \<Rightarrow> staff_db
     \<Rightarrow> shift_error + user_id \<times> staff_db" where
  "reject_transfer_web stamp now tid uid db =
     res_bind (require_web_role db uid ''executor'') (\<lambda>u.
       case find_transfer db tid of
         None \<Rightarrow> Inl (Error_key ''transfer_not_found'')
       | Some t \<Rightarrow>
           if tf_status t \<noteq> ''assigned'' then Inl (Error_key ''wrong_status'')
           else if tf_to t \<noteq> Some uid then Inl (Error_key ''not_your_transfer'')
           else case update_status stamp now ''rejected'' None t of
             None \<Rightarrow> Inl (Error_key ''wrong_status'')
           | Some t1 \<Rightarrow> Inr (tf_from t, write_transfer t1 db))"

subsection \<open>The manager on the web\<close>

definition reassign_refusal :: "staff_db \<Rightarrow> work_shift \<Rightarrow> user_id \<Rightarrow> string option" where
  "reassign_refusal db s uid =
     (if \<not> transferable s then Some ''shift_not_transferable''
      else case find_staff db uid of
        None \<Rightarrow> Some ''executor_not_found''
      | Some u \<Rightarrow>
          if st_status u \<noteq> ''approved'' then Some ''not_approved''
          else if ''executor'' \<notin> set (web_roles u) then Some ''not_executor''
          else if sh_user_id s = Some uid then Some ''same_executor''
          else if \<not> has_required_specs (us_specialization u) (ws_focus s)
          then Some ''spec_mismatch''
          else case sh_end s of
                 None \<Rightarrow> None
               | Some t1 \<Rightarrow>
                   if find_overlapping_shift db uid (sh_start s) t1 (Some (ws_id s)) \<noteq> None
                   then Some ''overlap'' else None)"

definition reassign_shift_web ::
    "instant \<Rightarrow> user_id \<Rightarrow> int \<Rightarrow> user_id \<Rightarrow> staff_db
     \<Rightarrow> shift_error + string list \<times> staff_db" where
  "reassign_shift_web now manager sid e db =
     res_bind (require_web_role db manager ''manager'') (\<lambda>m.
       case find_shift db sid of
         None \<Rightarrow> Inl (Error_key ''shift_not_found'')
       | Some s \<Rightarrow>
           (case reassign_refusal db s e of
              Some err \<Rightarrow> Inl (Error_key err)
            | None \<Rightarrow>
                let old = the (sh_user_id s);
                    (moved, db1) = move_active_requests s old e (give_shift sid e db)
                in Inr (moved, add_transfer (history_row now sid old e (Some manager)) db1)))"

datatype transfer_action = Approve_transfer "user_id option" | Reject_transfer | Cancel_transfer

definition handle_transfer ::
    "instant \<Rightarrow> user_id \<Rightarrow> int \<Rightarrow> transfer_action \<Rightarrow> staff_db \<Rightarrow> shift_error + staff_db" where
  "handle_transfer now manager tid act db =
     res_bind (require_web_role db manager ''manager'') (\<lambda>m.
       case find_transfer db tid of
         None \<Rightarrow> Inl (Http_status 404)
       | Some t \<Rightarrow>
           (case act of
              Approve_transfer target \<Rightarrow>
                if tf_status t \<noteq> ''pending'' then Inl (Http_status 409)
                else (case target of
                   None \<Rightarrow> Inl (Http_status 422)
                 | Some e \<Rightarrow>
                     (case find_staff db e of
                        None \<Rightarrow> Inl (Http_status 404)
                      | Some u \<Rightarrow>
                          if ''executor'' \<notin> set (web_roles u) then Inl (Http_status 422)
                          else Inr (write_transfer (t\<lparr>tf_status := ''assigned'', tf_to := Some e,
                                      tf_assigned_by := Some manager, tf_assigned := Some now\<rparr>) db)))
            | Reject_transfer \<Rightarrow>
                if tf_status t \<noteq> ''assigned'' then Inl (Http_status 409)
                else Inr (write_transfer (t\<lparr>tf_status := ''rejected''\<rparr>) db)
            | Cancel_transfer \<Rightarrow>
                if tf_status t \<notin> {''pending'', ''assigned''} then Inl (Http_status 409)
                else Inr (write_transfer (t\<lparr>tf_status := ''cancelled''\<rparr>) db)))"

subsection \<open>The removal of an employee\<close>

definition removal_statuses :: "status list" where
  "removal_statuses =
     [St_InProgress, St_Purchase, St_Clarification, St_Executed, St_Completed, St_Returned]"

definition active_request_count :: "staff_db \<Rightarrow> user_id \<Rightarrow> nat" where
  "active_request_count db uid = length (held_numbers removal_statuses db uid)"

definition soft_delete ::
    "instant \<Rightarrow> user_id \<Rightarrow> user_id option \<Rightarrow> nat \<Rightarrow> staff_db \<Rightarrow> staff_db" where
  "soft_delete now uid target n db =
     (let tables = (case target of
                  Some e \<Rightarrow>
                    if 0 < n
                    then snd (move_each removal_statuses e (held_numbers removal_statuses db uid)
                                (sd_flow db))
                    else sd_flow db
                | None \<Rightarrow> sd_flow db)
      in db\<lparr>sd_flow := tables,
            sd_users := upd_where (\<lambda>u. us_id u = uid)
              (\<lambda>u. u\<lparr>st_status := ''deleted'', st_deleted := True\<rparr>) (sd_users db),
            sd_shifts := upd_where
              (\<lambda>s. sh_user_id s = Some uid \<and> sh_status s \<in> {''active'', ''paused''})
              (close_shift now) (sd_shifts db)\<rparr>)"

definition delete_employee ::
    "instant \<Rightarrow> user_id \<Rightarrow> user_id \<Rightarrow> string \<Rightarrow> user_id option \<Rightarrow> staff_db
     \<Rightarrow> shift_error + staff_db" where
  "delete_employee now manager uid reason target db =
     res_bind (require_web_role db manager ''manager'') (\<lambda>m.
       if reason = [] then Inl (Http_status 422)
       else case find_staff db uid of
         None \<Rightarrow> Inl (Http_status 404)
       | Some u \<Rightarrow>
           let n = active_request_count db uid
           in if ''manager'' \<in> set (web_roles u) \<or> ''admin'' \<in> set (web_roles u)
              then Inl (Http_status 403)
              else if st_deleted u then Inl (Http_status 409)
              else if 0 < n \<and> target = None then Inl (Http_status 422)
              else if 0 < n
              then (case find_staff db (the target) of
                      None \<Rightarrow> Inl (Http_status 404)
                    | Some v \<Rightarrow>
                        if st_deleted v then Inl (Http_status 422)
                        else Inr (soft_delete now uid target n db))
              else Inr (soft_delete now uid target n db))"

subsection \<open>The scheduler\<close>

definition expired_transfer :: "instant \<Rightarrow> transfer_row \<Rightarrow> bool" where
  "expired_transfer cutoff t \<longleftrightarrow>
     tf_status t \<in> {''pending'', ''assigned''} \<and> tf_created t < cutoff"

definition mark_expired ::
    "(instant \<Rightarrow> int \<Rightarrow> string) \<Rightarrow> instant \<Rightarrow> int \<Rightarrow> transfer_row \<Rightarrow> transfer_row" where
  "mark_expired expiry_note now hours t =
     t\<lparr>tf_status := ''expired'', tf_responded := Some now, tf_completed := Some now,
       tf_comment := Some (py_strip ((if py_truthy_str (tf_comment t) then the (tf_comment t) else [])
                             @ expiry_note now hours))\<rparr>"

definition hours_before :: "instant \<Rightarrow> int \<Rightarrow> instant" where
  "hours_before now hours = now - hours * 3600 * 1000000"

definition process_expired_transfers ::
    "(instant \<Rightarrow> int \<Rightarrow> string) \<Rightarrow> instant \<Rightarrow> int \<Rightarrow> staff_db \<Rightarrow> job list \<times> staff_db" where
  "process_expired_transfers expiry_note now hours db =
     (let old = expired_transfer (hours_before now hours)
      in (map (\<lambda>t. (tf_from t, Transfer_expired (tf_id t))) (filter old (sd_transfers db)),
          db\<lparr>sd_transfers := upd_where old (mark_expired expiry_note now hours)
                               (sd_transfers db)\<rparr>))"

definition cleanup_expired_data :: "instant \<Rightarrow> staff_db \<Rightarrow> nat \<times> staff_db" where
  "cleanup_expired_data now db =
     (let old = (\<lambda>t. tf_status t \<in> {''completed'', ''cancelled''} \<and>
                     (case tf_completed t of
                        None \<Rightarrow> False | Some c \<Rightarrow> c < hours_before now (30 * 24)))
      in (row_count old (sd_transfers db),
          db\<lparr>sd_transfers := filter (\<lambda>t. \<not> old t) (sd_transfers db)\<rparr>))"

end
