(* ===== verification/Handover.thy ===== *)
theory Handover
  imports ShiftTransfers
begin

section \<open>What moving requests keeps true\<close>

text \<open>
  The executor change of a handover, against the invariants of the request workflow: the request
  keeps everything but its executor, the active individual assignment follows it, and no other
  request is touched.  The last part shows that the runner's commands keep what the handover
  relies on: two kinds of assignment, and an executor once there is one.
\<close>

subsection \<open>One request\<close>

lemma reassigned_row [simp]:
  "rq_number (apply_executor_reassign e r) = rq_number r"
  "row_status (apply_executor_reassign e r) = row_status r"
  "row_executor (apply_executor_reassign e r) = Some e"
  "row_version (apply_executor_reassign e r) = row_version r"
  by (simp_all add: apply_executor_reassign_def row_status_def row_executor_def row_version_def)

lemma reassigned_cols [simp]:
  "f \<noteq> F_executor_id \<Longrightarrow> rq_cols (apply_executor_reassign e r) f = rq_cols r f"
  by (simp add: apply_executor_reassign_def)

lemma reassigned_typed:
  assumes "row_typed r" "- (2 ^ 31) \<le> e" "e < 2 ^ 31"
  shows "row_typed (apply_executor_reassign e r)"
proof -
  have "column_ok f (rq_cols (apply_executor_reassign e r) f)" for f
    using row_typed_field [OF assms(1), of f] assms(2,3)
    by (cases "f = F_executor_id") (simp_all add: apply_executor_reassign_def int32_val_def)
  then show ?thesis by (simp add: row_typed_def list_all_iff)
qed

lemma reassigned_state:
  "rs_is_returned (new_state_from (apply_executor_reassign e r)) = rs_is_returned (new_state_from r)"
  "rs_manager_confirmed (new_state_from (apply_executor_reassign e r)) =
     rs_manager_confirmed (new_state_from r)"
  "rs_status (new_state_from (apply_executor_reassign e r)) = rs_status (new_state_from r)"
  by (simp_all add: new_state_from_def apply_executor_reassign_def row_status_def)

lemma reassigned_row_inv:
  assumes "row_inv num r" "- (2 ^ 31) \<le> e" "e < 2 ^ 31"
  shows "row_inv num (apply_executor_reassign e r)"
  using assms reassigned_typed
  by (auto simp: row_inv_def flags_canonical_def reassigned_state)

subsection \<open>Its assignments\<close>

definition follow_executor :: "user_id \<Rightarrow> assignment_row \<Rightarrow> assignment_row" where
  "follow_executor e a = (if as_type a = ''individual'' then a\<lparr>as_executor := Some e\<rparr> else a)"

lemma active_for_follow [simp]: "active_for m (follow_executor e a) = active_for m a"
  by (simp add: follow_executor_def active_for_def)

lemma set_active_Cons:
  "set_active_executor num e (a # rows) =
     (if active_for num a then follow_executor e a # rows else a # set_active_executor num e rows)"
  by (simp add: follow_executor_def)

lemma set_active_other:
  "m \<noteq> num \<Longrightarrow>
   filter (active_for m) (set_active_executor num e rows) = filter (active_for m) rows"
proof (induction rows)
  case (Cons a rows)
  have "active_for num a \<Longrightarrow> \<not> active_for m a" using Cons.prems by (auto simp: active_for_def)
  then show ?case using Cons
    by (auto simp: set_active_Cons simp del: set_active_executor.simps(2))
qed simp

lemma set_active_same:
  "filter (active_for num) (set_active_executor num e rows) =
     (case filter (active_for num) rows of [] \<Rightarrow> [] | a # as \<Rightarrow> follow_executor e a # as)"
  by (induction rows) (auto simp: set_active_Cons simp del: set_active_executor.simps(2))

text \<open>Every assignment is a group or an individual one.\<close>

definition two_kinds :: "assignment_row list \<Rightarrow> bool" where
  "two_kinds = list_all (\<lambda>a. as_type a \<in> {''group'', ''individual''})"

lemma two_kinds_simps [simp]:
  "two_kinds []"
  "two_kinds (a # rows) \<longleftrightarrow> as_type a \<in> {''group'', ''individual''} \<and> two_kinds rows"
  "two_kinds (xs @ ys) \<longleftrightarrow> two_kinds xs \<and> two_kinds ys"
  by (auto simp: two_kinds_def)

lemma two_kinds_set_active [simp]: "two_kinds (set_active_executor num e rows) = two_kinds rows"
  by (induction rows) auto

lemma two_kinds_upd:
  "two_kinds rows \<Longrightarrow> (\<And>a. as_type a \<in> {''group'', ''individual''} \<Longrightarrow>
     as_type (f a) \<in> {''group'', ''individual''}) \<Longrightarrow> two_kinds (upd_where P f rows)"
  by (induction rows) (simp_all add: sql_simps)

subsection \<open>The workflow invariant\<close>

lemma reassign_executor_Some:
  "reassign_executor num e db = Some db' \<longleftrightarrow>
     num \<noteq> [] \<and> (\<exists>r. db_requests db num = Some r \<and>
       db' = db\<lparr>db_requests := (db_requests db)(num \<mapsto> apply_executor_reassign e r),
                db_assignments := set_active_executor num e (db_assignments db)\<rparr>)"
  by (auto simp: reassign_executor_def split: option.splits)

lemma mirrors_follow:
  assumes "mirrors r a" "as_type a \<in> {''group'', ''individual''}" "row_executor r \<noteq> None"
  shows "mirrors (apply_executor_reassign e r) (follow_executor e a)"
  using assms by (auto simp: mirrors_def follow_executor_def)

lemma follow_assign_inv:
  assumes inv: "assign_inv db num r" and kinds: "two_kinds (db_assignments db)"
    and ex: "row_executor r \<noteq> None"
    and db': "db_assignments db' = set_active_executor num e (db_assignments db)"
  shows "assign_inv db' num (apply_executor_reassign e r)"
proof -
  have act: "req_active db' num =
      (case req_active db num of [] \<Rightarrow> [] | a # as \<Rightarrow> follow_executor e a # as)"
    by (simp add: req_active_def db' set_active_same)
  show ?thesis
  proof (cases "req_active db num")
    case Nil
    then show ?thesis using act by (simp add: assign_inv_def)
  next
    case (Cons a as)
    then have as: "as = []" and m: "mirrors r a" using inv by (simp_all add: assign_inv_def)
    have "a \<in> set (db_assignments db)" using Cons by (metis filter_is_subset list.set_intros(1)
      req_active_def subset_iff)
    then have "as_type a \<in> {''group'', ''individual''}"
      using kinds by (simp add: two_kinds_def list_all_iff)
    then have "mirrors (apply_executor_reassign e r) (follow_executor e a)"
      using mirrors_follow m ex by blast
    then show ?thesis using act inv Cons as by (simp add: assign_inv_def)
  qed
qed

lemma reassign_keeps_inv:
  assumes inv: "wf_inv cfg db" and kinds: "two_kinds (db_assignments db)"
    and run: "reassign_executor num e db = Some db'"
    and ex: "\<exists>r. db_requests db num = Some r \<and> row_executor r \<noteq> None"
    and e: "- (2 ^ 31) \<le> e" "e < 2 ^ 31"
  shows "wf_inv cfg db'"
proof -
  obtain r where r: "db_requests db num = Some r" "row_executor r \<noteq> None"
    and db': "db' = db\<lparr>db_requests := (db_requests db)(num \<mapsto> apply_executor_reassign e r),
                      db_assignments := set_active_executor num e (db_assignments db)\<rparr>"
    using run ex by (auto simp: reassign_executor_Some)
  note old = wf_invD [OF inv]
  have other: "assign_inv db' m q" if "assign_inv db m q" "m \<noteq> num" for m q
    using that by (simp add: assign_inv_def req_active_def db' set_active_other)
  have same: "rating_inv db' m q = rating_inv db m q" "outbox_inv cfg db' m q = outbox_inv cfg db m q"
    for m q by (simp_all add: rating_inv_def outbox_inv_def req_ratings_def db')
  have "row_inv num (apply_executor_reassign e r)"
    using reassigned_row_inv [OF _ e] old [OF r(1)] by blast
  moreover have "assign_inv db' num (apply_executor_reassign e r)"
    by (rule follow_assign_inv [OF _ kinds r(2)]) (use old [OF r(1)] in \<open>simp_all add: db'\<close>)
  moreover have "rating_inv db num (apply_executor_reassign e r)"
    "outbox_inv cfg db num (apply_executor_reassign e r)"
    using old [OF r(1)] by (simp_all add: rating_inv_def outbox_inv_def)
  ultimately show ?thesis
    using old other same unfolding wf_inv_def
    by (simp add: db')
qed

subsection \<open>The loop over the requests of a shift\<close>

text \<open>Where a request stood and who did it, before and after.\<close>

definition has_executor :: "wf_db \<Rightarrow> string \<Rightarrow> bool" where
  "has_executor db num \<longleftrightarrow> (\<exists>r. db_requests db num = Some r \<and> row_executor r \<noteq> None)"

definition requests_kept :: "wf_db \<Rightarrow> wf_db \<Rightarrow> bool" where
  "requests_kept db db' \<longleftrightarrow>
     dom (db_requests db') = dom (db_requests db) \<and>
     (\<forall>num r r'. db_requests db num = Some r \<longrightarrow> db_requests db' num = Some r' \<longrightarrow>
        row_status r' = row_status r \<and> row_version r' = row_version r \<and>
        (row_executor r \<noteq> None \<longrightarrow> row_executor r' \<noteq> None))"

lemma requests_kept_refl [simp]: "requests_kept db db"
  by (auto simp: requests_kept_def)

lemma requests_kept_trans:
  assumes "requests_kept a b" "requests_kept b c"
  shows "requests_kept a c"
proof -
  have "\<exists>q. db_requests b num = Some q" if "db_requests a num = Some r" for num r
    using that assms(1) unfolding requests_kept_def by (metis domD domI)
  then show ?thesis using assms unfolding requests_kept_def by metis
qed

lemma reassign_requests_kept: "reassign_executor num e db = Some db' \<Longrightarrow> requests_kept db db'"
  by (auto simp: reassign_executor_Some requests_kept_def split: if_splits)

lemma reassign_has_executor:
  "reassign_executor num e db = Some db' \<Longrightarrow> has_executor db m \<Longrightarrow> has_executor db' m"
  by (auto simp: reassign_executor_Some has_executor_def)

lemma move_each_keeps:
  assumes "wf_inv cfg db" "two_kinds (db_assignments db)" "list_all (has_executor db) nums"
    and "move_each ss e nums db = (moved, db')" "- (2 ^ 31) \<le> e" "e < 2 ^ 31"
  shows "wf_inv cfg db' \<and> two_kinds (db_assignments db') \<and> requests_kept db db'"
  using assms(1-4)
proof (induction nums arbitrary: db moved)
  case (Cons num nums)
  show ?case
  proof (cases "status_in ss db num \<and> reassign_executor num e db \<noteq> None")
    case False
    then have "move_each ss e nums db = (moved, db')" using Cons.prems(4) by (auto split: if_splits)
    then show ?thesis using Cons.IH Cons.prems by simp
  next
    case True
    then obtain d where d: "reassign_executor num e db = Some d" by blast
    then obtain ms where ms: "move_each ss e nums d = (ms, db')"
      using True Cons.prems(4) by (auto split: prod.splits)
    have kinds: "two_kinds (db_assignments d)"
      using d Cons.prems(2) by (auto simp: reassign_executor_Some)
    have "wf_inv cfg d"
      using reassign_keeps_inv [OF Cons.prems(1,2) d _ assms(5,6)] Cons.prems(3)
      by (simp add: has_executor_def)
    moreover have "list_all (has_executor d) nums"
      using Cons.prems(3) reassign_has_executor [OF d] by (auto simp: list_all_iff)
    ultimately have "wf_inv cfg db' \<and> two_kinds (db_assignments db') \<and> requests_kept d db'"
      using Cons.IH kinds ms by blast
    then show ?thesis using requests_kept_trans reassign_requests_kept [OF d] by blast
  qed
qed simp

lemma move_each_frame:
  "move_each ss e nums db = (moved, db') \<Longrightarrow>
   db_audit db' = db_audit db \<and> db_outbox db' = db_outbox db \<and> db_ratings db' = db_ratings db \<and>
   set moved \<subseteq> set nums"
proof (induction nums arbitrary: db moved)
  case (Cons num nums)
  then show ?case
    by (fastforce simp: reassign_executor_Some split: if_splits option.splits prod.splits)
qed simp

text \<open>Exactly the requests moved change, and they name the new executor.\<close>

lemma move_each_requests:
  "move_each ss e nums db = (moved, db') \<Longrightarrow>
   db_requests db' n =
     (if n \<in> set moved then map_option (apply_executor_reassign e) (db_requests db n)
      else db_requests db n)"
proof (induction nums arbitrary: db moved)
  case (Cons num nums)
  show ?case
  proof (cases "status_in ss db num \<and> reassign_executor num e db \<noteq> None")
    case False
    then have "move_each ss e nums db = (moved, db')" using Cons.prems by (auto split: if_splits)
    then show ?thesis by (rule Cons.IH)
  next
    case True
    then obtain d where d: "reassign_executor num e db = Some d" by blast
    then obtain ms where ms: "move_each ss e nums d = (ms, db')" "moved = num # ms"
      using True Cons.prems by (auto split: prod.splits)
    have twice: "apply_executor_reassign e (apply_executor_reassign e r) = apply_executor_reassign e r"
      for r by (simp add: apply_executor_reassign_def)
    show ?thesis using Cons.IH [OF ms(1)] d ms(2)
      by (auto simp: reassign_executor_Some twice)
  qed
qed simp

text \<open>Which requests are moved: those on the list that stand where the move looks for them.\<close>

lemma status_in_kept: "requests_kept db db' \<Longrightarrow> status_in ss db' n = status_in ss db n"
proof -
  assume kept: "requests_kept db db'"
  then have "(\<exists>r. db_requests db' n = Some r) = (\<exists>r. db_requests db n = Some r)"
    unfolding requests_kept_def by (metis domD domI)
  then show ?thesis
    using kept by (auto simp: status_in_def requests_kept_def split: option.splits)
qed

lemma move_each_moved:
  "move_each ss e nums db = (moved, db') \<Longrightarrow>
   set moved = {n \<in> set nums. status_in ss db n \<and> n \<noteq> []}"
proof (induction nums arbitrary: db moved)
  case (Cons num nums)
  show ?case
  proof (cases "status_in ss db num \<and> num \<noteq> []")
    case False
    then have "move_each ss e nums db = (moved, db')"
      using Cons.prems by (auto simp: reassign_executor_def split: if_splits)
    then show ?thesis using Cons.IH False by auto
  next
    case True
    then obtain d where d: "reassign_executor num e db = Some d"
      by (auto simp: reassign_executor_def status_in_def split: option.splits)
    then obtain ms where ms: "move_each ss e nums d = (ms, db')" "moved = num # ms"
      using True Cons.prems by (auto split: prod.splits)
    have "status_in ss d n = status_in ss db n" for n
      using status_in_kept [OF reassign_requests_kept [OF d]] .
    then show ?thesis using Cons.IH [OF ms(1)] ms(2) True by auto
  qed
qed simp

lemma move_each_effect:
  "move_each ss e nums db = (moved, db') \<Longrightarrow>
   db_requests db' n =
     (if n \<in> set nums \<and> status_in ss db n \<and> n \<noteq> []
      then map_option (apply_executor_reassign e) (db_requests db n)
      else db_requests db n)"
  using move_each_requests [of ss e nums db moved db' n] move_each_moved [of ss e nums db moved db']
  by simp

subsection \<open>The runner keeps what the handover relies on\<close>

lemma two_kinds_new_assignment:
  "new_assignment num data c = Inr a \<Longrightarrow> as_type a \<in> {''group'', ''individual''}"
  by (auto simp: new_assignment_def res_bind_Inr_iff split: if_splits)

lemma two_kinds_domain_op:
  assumes "apply_domain_op_sync cfg actor req d db = Inr db'" "two_kinds (db_assignments db)"
  shows "two_kinds (db_assignments db')"
proof -
  have cancel: "two_kinds (cancel_active n rows)" if "two_kinds rows" for n rows
    unfolding cancel_active_def by (rule two_kinds_upd [OF that]) (simp add: cancel_row_def)
  have promote: "two_kinds (upd_where P (make_individual e) rows)" if "two_kinds rows" for P e rows
    by (rule two_kinds_upd [OF that]) (simp add: make_individual_def)
  show ?thesis using assms
    by (cases d) (auto simp: res_bind_Inr_iff set_assignments_def group_to_individual_def
        cancel promote dest: two_kinds_new_assignment split: if_splits)
qed

lemma two_kinds_domain_ops:
  "apply_domain_ops (apply_domain_op_sync cfg actor req) ds db = Inr db' \<Longrightarrow>
   two_kinds (db_assignments db) \<Longrightarrow> two_kinds (db_assignments db')"
  by (induction ds arbitrary: db) (auto simp: res_bind_Inr_iff dest: two_kinds_domain_op)

lemma run_two_kinds:
  assumes "run_command_sync cfg wall now num prin command db = Inr (out, db')"
    and "two_kinds (db_assignments db)"
  shows "two_kinds (db_assignments db')"
  using assms(1)
proof (cases rule: run_InrE)
  case (planned req actor cmd result req' db1)
  have "two_kinds (db_assignments (store_request req' db))" using assms(2) by simp
  then show ?thesis
    using two_kinds_domain_ops [OF planned(7)] apply_events_frame [OF planned(8)] by simp
qed (use assms(2) in simp)

text \<open>A request that has left \<open>St_New\<close> never returns to it, nor loses its executor.\<close>

lemma command_keeps_executor:
  assumes run: "run_command_sync cfg wall now num prin command db = Inr (out, db')"
    and inv: "wf_inv cfg db"
    and r: "db_requests db m = Some r" "row_status r \<noteq> St_New" "row_executor r \<noteq> None"
  shows "\<exists>r'. db_requests db' m = Some r' \<and> row_status r' \<noteq> St_New \<and> row_executor r' \<noteq> None"
proof -
  obtain q where q: "db_requests db num = Some q"
    using run by (auto simp: run_command_sync_def split: option.splits)
  show ?thesis
  proof (rule run_request_after [OF run inv q])
    assume "db' = db"
    then show ?thesis using r by auto
  next
    fix actor and cmd :: action_command and result r'
    let ?act = "cmd_action cmd"
    assume plan: "plan_transition (build_snapshot_sync db wall q actor) cmd actor prin = Inr result"
      and actor: "load_actor_context_sync db prin = Inr actor"
      and r': "r' = patched_row actor now result q" "db_requests db' = (db_requests db)(num \<mapsto> r')"
      and "row_status q \<in> set (sp_from (action_table ?act))"
        "row_status r' = effective_to_status ?act (sp_to (action_table ?act))
           (build_snapshot_sync db wall q actor)"
    then have edge: "(row_status q, row_status r') \<in> set legal_edges"
      and group: "?act = ASSIGN_GROUP \<Longrightarrow> row_status q = St_New"
      using action_edge by (auto simp: spec_def)
    show ?thesis
    proof (cases "m = num")
      case False
      then show ?thesis using r r'(2) by simp
    next
      case True
      then have rq: "q = r" using r(1) q by simp
      have ex: "row_executor r' =
          val_int (executor_after ?act actor (cmd_payload cmd) (rq_cols q F_executor_id))"
        unfolding r'(1) by (rule row_executor_after [OF plan])
      have "row_typed r'"
        using wf_invD [OF run_keeps_inv [OF run inv], of num r'] r'(2) by (simp add: row_inv_def)
      then have int: "int32_val (executor_after ?act actor (cmd_payload cmd) (rq_cols q F_executor_id))"
        using row_typed_field [of r' F_executor_id] plan
        by (auto simp: r'(1) plan_Inr_iff planned_result_def Let_def patched_executor)
      have "row_executor r' \<noteq> None"
      proof (cases "?act \<in> {SYSTEM_DISPATCH_ASSIGN, MANAGER_ASSIGN, SYSTEM_AUTO_PROMOTE}")
        case True
        then have "pget (cmd_payload cmd) ''executor_id'' \<noteq> VNone"
          using valid_assign_payload(1) [OF plan_parts(1) [OF plan] True] isinstance_not_none by blast
        then show ?thesis using ex int True typed_int [of "pget (cmd_payload cmd) ''executor_id''"]
          by (auto simp: executor_after_def)
      next
        case False
        have "?act = EXECUTOR_CLAIM \<Longrightarrow> ac_user_id actor \<noteq> None"
          using executor_can_claimD(1) [of _ actor] allowed_authorized [OF plan_parts(2) [OF plan]]
            load_actor_user(2) [OF actor] by (auto simp: spec_def)
        then show ?thesis using ex False group r(2,3) rq
          by (auto simp: executor_after_def opt_int_val_def row_executor_def)
      qed
      moreover have "row_status r' \<noteq> St_New" using edge r(2) rq by (auto simp: legal_edges_def)
      ultimately show ?thesis using True r'(2) by simp
    qed
  qed
qed

lemma run_requests_dom:
  assumes "run_command_sync cfg wall now num prin command db = Inr (out, db')"
    and "wf_inv cfg db"
  shows "dom (db_requests db') = dom (db_requests db)"
proof -
  obtain q where q: "db_requests db num = Some q"
    using assms(1) by (auto simp: run_command_sync_def split: option.splits)
  show ?thesis
  proof (rule run_request_after [OF assms q])
    show "db' = db \<Longrightarrow> ?thesis" by simp
    show "db_requests db' = (db_requests db)(num \<mapsto> r') \<Longrightarrow> ?thesis" for r' :: request_row
      using q by auto
  qed
qed

end
