(* ===== verification/ShiftRuns.thy ===== *)
theory ShiftRuns
  imports Handover
begin

section \<open>Shifts, transfers and requests as one system\<close>

text \<open>
  One call of the shift services is a value of \<open>shift_op\<close>, run by \<open>shift_call\<close>; a call that is
  refused leaves the database as it was.  \<open>office_step\<close> adds the rest of the program: the
  commands of the request workflow, the creation of requests, requests planned into a shift, and
  changes of staff and roster.  The invariant of the workflow is kept by all of them, through the
  interface \<open>preserved\<close>.
\<close>

record shift_texts =
  tx_stamp :: "instant \<Rightarrow> string"
  tx_expiry :: "instant \<Rightarrow> int \<Rightarrow> string"

datatype shift_op =
    StartShift int "string option"
  | EndShift int "string option"
  | ForceEndShift int int "string option"
  | BeginPlanned user_id int
  | FinishOwn user_id int
  | EndShiftById int int
  | WebStart user_id "string option"
  | WebEndOwn user_id int
  | WebCreate user_id shift_body
  | WebPatch user_id int shift_patch
  | WebDelete user_id int
  | WebEnd user_id int
  | CreateTransfer int user_id string "string option" string
  | AssignTransfer int user_id "user_id option"
  | AcceptTransfer int user_id
  | RejectTransfer int user_id "string option"
  | ManagerReassign int user_id int
  | CreateTransferWeb int user_id string "string option" string
  | AcceptTransferWeb int user_id
  | RejectTransferWeb int user_id
  | ReassignWeb user_id int user_id
  | HandleTransfer user_id int transfer_action
  | DeleteEmployee user_id user_id string "user_id option"
  | ExpireTransfers int
  | CleanUp

definition outcome_db :: "shift_error + 'a \<times> staff_db \<Rightarrow> shift_error + staff_db" where
  "outcome_db r = res_bind r (\<lambda>x. Inr (snd x))"

lemma outcome_db_Inr [simp]: "outcome_db r = Inr db \<longleftrightarrow> (\<exists>x. r = Inr (x, db))"
  by (cases r) (auto simp: outcome_db_def)

fun shift_call ::
    "shift_texts \<Rightarrow> instant \<Rightarrow> shift_op \<Rightarrow> staff_db \<Rightarrow> shift_error + staff_db" where
  "shift_call tx now (StartShift tg notes) db = start_shift now tg notes db"
| "shift_call tx now (EndShift tg notes) db = end_shift now tg notes db"
| "shift_call tx now (ForceEndShift m tg notes) db = force_end_shift now m tg notes db"
| "shift_call tx now (BeginPlanned u sid) db = begin_planned now u sid db"
| "shift_call tx now (FinishOwn u sid) db = finish_own now u sid db"
| "shift_call tx now (EndShiftById tg sid) db = end_shift_by_id now tg sid db"
| "shift_call tx now (WebStart u notes) db = web_start now u notes db"
| "shift_call tx now (WebEndOwn u sid) db = web_end_own now u sid db"
| "shift_call tx now (WebCreate m b) db = web_create m b db"
| "shift_call tx now (WebPatch m sid p) db = web_patch m sid p db"
| "shift_call tx now (WebDelete m sid) db = web_delete m sid db"
| "shift_call tx now (WebEnd m sid) db = web_end now m sid db"
| "shift_call tx now (CreateTransfer sid u r c g) db = create_transfer now sid u r c g db"
| "shift_call tx now (AssignTransfer t e m) db = assign_transfer (tx_stamp tx) now t e m db"
| "shift_call tx now (AcceptTransfer t u) db = outcome_db (accept_transfer (tx_stamp tx) now t u db)"
| "shift_call tx now (RejectTransfer t u c) db =
     outcome_db (reject_transfer (tx_stamp tx) now t u c db)"
| "shift_call tx now (ManagerReassign sid e m) db =
     outcome_db (manager_direct_reassign now sid e m db)"
| "shift_call tx now (CreateTransferWeb sid u r c g) db = create_transfer_web now sid u r c g db"
| "shift_call tx now (AcceptTransferWeb t u) db =
     outcome_db (accept_transfer_web (tx_stamp tx) now t u db)"
| "shift_call tx now (RejectTransferWeb t u) db =
     outcome_db (reject_transfer_web (tx_stamp tx) now t u db)"
| "shift_call tx now (ReassignWeb m sid e) db = outcome_db (reassign_shift_web now m sid e db)"
| "shift_call tx now (HandleTransfer m t a) db = handle_transfer now m t a db"
| "shift_call tx now (DeleteEmployee m u r e) db = delete_employee now m u r e db"
| "shift_call tx now (ExpireTransfers h) db =
     Inr (snd (process_expired_transfers (tx_expiry tx) now h db))"
| "shift_call tx now CleanUp db = Inr (snd (cleanup_expired_data now db))"

definition staff_ids_ok :: "staff_row list \<Rightarrow> bool" where
  "staff_ids_ok = list_all (\<lambda>u. - (2 ^ 31) \<le> us_id u \<and> us_id u < 2 ^ 31)"

text \<open>The planner may add and change shifts; it deletes none and reuses no id.\<close>

definition roster_change :: "staff_db \<Rightarrow> work_shift list \<Rightarrow> int \<Rightarrow> bool" where
  "roster_change s sh n \<longleftrightarrow>
     sd_next_shift s \<le> n \<and> list_all (\<lambda>x. ws_id x < n) sh \<and> distinct (map ws_id sh) \<and>
     set (map ws_id (sd_shifts s)) \<subseteq> set (map ws_id sh)"

inductive office_step :: "runner_settings \<Rightarrow> shift_texts \<Rightarrow> staff_db \<Rightarrow> staff_db \<Rightarrow> bool"
  for cfg tx where
  office_call: "shift_call tx now op s = Inr t \<Longrightarrow> office_step cfg tx s t"
| office_command:
    "run_command_sync cfg wall now num prin command (flow s) = Inr (out, f) \<Longrightarrow>
     office_step cfg tx s (s\<lparr>sd_flow := f\<rparr>)"
| office_create:
    "unused_number cfg (sd_flow s) num \<Longrightarrow> fresh_request num r \<Longrightarrow>
     office_step cfg tx s (s\<lparr>sd_flow := store_request r (sd_flow s),
                             sd_numbers := sd_numbers s @ [num]\<rparr>)"
| office_plan:
    "db_requests (sd_flow s) (pq_number q) = Some r \<Longrightarrow> row_status r \<noteq> St_New \<Longrightarrow>
     row_executor r \<noteq> None \<Longrightarrow> office_step cfg tx s (s\<lparr>sd_planned := sd_planned s @ [q]\<rparr>)"
| office_staff:
    "staff_ids_ok us \<Longrightarrow>
     office_step cfg tx s (s\<lparr>sd_users := us,
                             sd_flow := (sd_flow s)\<lparr>db_user_apartments := ua\<rparr>\<rparr>)"
| office_roster:
    "roster_change s sh n \<Longrightarrow> office_step cfg tx s (s\<lparr>sd_shifts := sh, sd_next_shift := n\<rparr>)"

inductive_cases office_stepE: "office_step cfg tx s t"

definition office_initial :: "staff_db \<Rightarrow> bool" where
  "office_initial s \<longleftrightarrow>
     wf_initial (sd_flow s) \<and> staff_ids_ok (sd_users s) \<and> sd_shifts s = [] \<and>
     sd_planned s = [] \<and> sd_transfers s = [] \<and> sd_numbers s = [] \<and>
     sd_next_shift s = 1 \<and> sd_next_transfer s = 1"

subsection \<open>What a call does to the request tables\<close>

text \<open>A planned request has left \<open>St_New\<close> and has an executor.\<close>

definition planned_ok :: "staff_db \<Rightarrow> bool" where
  "planned_ok s \<longleftrightarrow>
     (\<forall>q\<in>set (sd_planned s). \<exists>r. db_requests (sd_flow s) (pq_number q) = Some r \<and>
        row_status r \<noteq> St_New \<and> row_executor r \<noteq> None)"

definition flow_inv :: "runner_settings \<Rightarrow> staff_db \<Rightarrow> bool" where
  "flow_inv cfg s \<longleftrightarrow>
     wf_inv cfg (sd_flow s) \<and> two_kinds (db_assignments (sd_flow s)) \<and> planned_ok s \<and>
     staff_ids_ok (sd_users s) \<and> dom (db_requests (sd_flow s)) = set (sd_numbers s)"

lemma flow_fields [simp]:
  "db_requests (flow s) = db_requests (sd_flow s)"
  "db_assignments (flow s) = db_assignments (sd_flow s)"
  "db_ratings (flow s) = db_ratings (sd_flow s)"
  "db_outbox (flow s) = db_outbox (sd_flow s)"
  "db_audit (flow s) = db_audit (sd_flow s)"
  by (simp_all add: flow_def)

lemma wf_inv_same:
  assumes "db_requests a = db_requests b" "db_assignments a = db_assignments b"
    and "db_ratings a = db_ratings b" "db_outbox a = db_outbox b"
  shows "wf_inv cfg a = wf_inv cfg b"
  using assms by (simp add: wf_inv_def assign_inv_def rating_inv_def outbox_inv_def req_active_def
      req_ratings_def)

lemma wf_inv_flow [simp]: "wf_inv cfg (flow s) = wf_inv cfg (sd_flow s)"
  by (rule wf_inv_same) simp_all

lemma find_staff_id:
  assumes "find_staff s e = Some u" "staff_ids_ok (sd_users s)"
  shows "- (2 ^ 31) \<le> e" "e < 2 ^ 31"
  using assms first_row_Some [of _ "sd_users s" u]
  by (auto simp: find_staff_def staff_ids_ok_def list_all_iff)

lemma held_has_executor:
  "n \<in> set (held_numbers ss s u) \<Longrightarrow> has_executor (sd_flow s) n"
  by (auto simp: held_numbers_def executor_is_def has_executor_def split: option.splits)

lemma shift_requests_have_executor:
  assumes "planned_ok s"
  shows "list_all (has_executor (sd_flow s)) (shift_requests s x old)"
proof -
  have "has_executor (sd_flow s) n" if "n \<in> set (planned_numbers s (ws_id x))" for n
    using that assms by (force simp: planned_numbers_def planned_ok_def has_executor_def)
  then show ?thesis
    using held_has_executor by (auto simp: shift_requests_def Let_def list_all_iff)
qed

text \<open>The requests a shift hands over depend on the tables of requests only.\<close>

lemma shift_requests_cong:
  assumes "sd_planned s = sd_planned t" "sd_flow s = sd_flow t" "sd_numbers s = sd_numbers t"
  shows "shift_requests s x old = shift_requests t x old"
  using assms by (simp add: shift_requests_def planned_numbers_def held_numbers_def)

lemma planned_ok_kept:
  assumes "planned_ok s" "requests_kept (sd_flow s) (sd_flow t)"
    and "set (sd_planned t) \<subseteq> set (sd_planned s)"
  shows "planned_ok t"
  unfolding planned_ok_def
proof
  fix q
  assume "q \<in> set (sd_planned t)"
  then have "q \<in> set (sd_planned s)" using assms(3) by blast
  then obtain r where r: "db_requests (sd_flow s) (pq_number q) = Some r"
    "row_status r \<noteq> St_New" "row_executor r \<noteq> None"
    using assms(1) unfolding planned_ok_def by blast
  obtain r' where "db_requests (sd_flow t) (pq_number q) = Some r'"
    using assms(2) r(1) unfolding requests_kept_def by (metis domD domI)
  then show "\<exists>r'. db_requests (sd_flow t) (pq_number q) = Some r' \<and> row_status r' \<noteq> St_New \<and>
      row_executor r' \<noteq> None"
    using assms(2) r by (auto simp: requests_kept_def)
qed

text \<open>One call: the request tables are the old ones with some requests moved to a member of
  staff.\<close>

inductive flow_change :: "staff_db \<Rightarrow> staff_db \<Rightarrow> bool" where
  flow_same: "sd_flow t = sd_flow s \<Longrightarrow> flow_change s t"
| flow_moved:
    "find_staff s e = Some u \<Longrightarrow> list_all (has_executor (sd_flow s)) nums \<Longrightarrow>
     move_each ss e nums (sd_flow s) = (moved, sd_flow t) \<Longrightarrow> flow_change s t"

lemma flow_change_inv:
  assumes "flow_inv cfg s" "flow_change s t"
    and "set (sd_planned t) \<subseteq> set (sd_planned s)" "sd_numbers t = sd_numbers s"
    and "staff_ids_ok (sd_users t)"
  shows "flow_inv cfg t"
proof -
  have "wf_inv cfg (sd_flow t) \<and> two_kinds (db_assignments (sd_flow t)) \<and>
      requests_kept (sd_flow s) (sd_flow t)"
    using assms(2)
  proof cases
    case flow_same
    then show ?thesis using assms(1) by (simp add: flow_inv_def)
  next
    case (flow_moved e u nums ss moved)
    note old = assms(1) [unfolded flow_inv_def]
    show ?thesis
      by (rule move_each_keeps [OF _ _ flow_moved(2,3)])
        (use old find_staff_id [OF flow_moved(1)] in auto)
  qed
  then show ?thesis
    using assms planned_ok_kept [of s t] by (auto simp: flow_inv_def requests_kept_def)
qed

end
