(* ===== verification/ShiftFacts.thy ===== *)
theory ShiftFacts
  imports ShiftRuns
begin

section \<open>What each call changes\<close>

text \<open>
  For every call of the shift services: what it leaves alone, how it changes the request tables
  (\<open>flow_change\<close>), how it changes the transfers (\<open>transfer_change\<close>), and who owns a shift after
  it.  The properties of the office rest on these four facts and never unfold a call again.
\<close>

subsection \<open>The writers\<close>

lemma write_shift_fields [simp]:
  "sd_users (write_shift sid f db) = sd_users db"
  "sd_planned (write_shift sid f db) = sd_planned db"
  "sd_transfers (write_shift sid f db) = sd_transfers db"
  "sd_next_shift (write_shift sid f db) = sd_next_shift db"
  "sd_next_transfer (write_shift sid f db) = sd_next_transfer db"
  "sd_numbers (write_shift sid f db) = sd_numbers db"
  "sd_flow (write_shift sid f db) = sd_flow db"
  "sd_shifts (write_shift sid f db) = upd_where (\<lambda>s. ws_id s = sid) f (sd_shifts db)"
  by (simp_all add: write_shift_def)

lemma give_shift_fields [simp]:
  "sd_users (give_shift sid e db) = sd_users db"
  "sd_planned (give_shift sid e db) = sd_planned db"
  "sd_transfers (give_shift sid e db) = sd_transfers db"
  "sd_next_shift (give_shift sid e db) = sd_next_shift db"
  "sd_next_transfer (give_shift sid e db) = sd_next_transfer db"
  "sd_numbers (give_shift sid e db) = sd_numbers db"
  "sd_flow (give_shift sid e db) = sd_flow db"
  "sd_shifts (give_shift sid e db) =
     upd_where (\<lambda>s. ws_id s = sid) (\<lambda>x. x\<lparr>sh_user_id := Some e\<rparr>) (sd_shifts db)"
  by (simp_all add: give_shift_def)

lemma add_shift_fields [simp]:
  "sd_users (add_shift s db) = sd_users db"
  "sd_planned (add_shift s db) = sd_planned db"
  "sd_transfers (add_shift s db) = sd_transfers db"
  "sd_next_shift (add_shift s db) = sd_next_shift db + 1"
  "sd_next_transfer (add_shift s db) = sd_next_transfer db"
  "sd_numbers (add_shift s db) = sd_numbers db"
  "sd_flow (add_shift s db) = sd_flow db"
  "sd_shifts (add_shift s db) = sd_shifts db @ [s\<lparr>ws_id := sd_next_shift db\<rparr>]"
  by (simp_all add: add_shift_def)

lemma log_shift_fields [simp]:
  "sd_users (log_shift u tg a sid d db) = sd_users db"
  "sd_planned (log_shift u tg a sid d db) = sd_planned db"
  "sd_transfers (log_shift u tg a sid d db) = sd_transfers db"
  "sd_next_shift (log_shift u tg a sid d db) = sd_next_shift db"
  "sd_next_transfer (log_shift u tg a sid d db) = sd_next_transfer db"
  "sd_numbers (log_shift u tg a sid d db) = sd_numbers db"
  "sd_flow (log_shift u tg a sid d db) = sd_flow db"
  "sd_shifts (log_shift u tg a sid d db) = sd_shifts db"
  by (simp_all add: log_shift_def)

lemma write_transfer_fields [simp]:
  "sd_users (write_transfer t db) = sd_users db"
  "sd_planned (write_transfer t db) = sd_planned db"
  "sd_shifts (write_transfer t db) = sd_shifts db"
  "sd_next_shift (write_transfer t db) = sd_next_shift db"
  "sd_next_transfer (write_transfer t db) = sd_next_transfer db"
  "sd_numbers (write_transfer t db) = sd_numbers db"
  "sd_flow (write_transfer t db) = sd_flow db"
  "sd_transfers (write_transfer t db) =
     upd_where (\<lambda>x. tf_id x = tf_id t) (\<lambda>x. t) (sd_transfers db)"
  by (simp_all add: write_transfer_def)

lemma add_transfer_fields [simp]:
  "sd_users (add_transfer t db) = sd_users db"
  "sd_planned (add_transfer t db) = sd_planned db"
  "sd_shifts (add_transfer t db) = sd_shifts db"
  "sd_next_shift (add_transfer t db) = sd_next_shift db"
  "sd_next_transfer (add_transfer t db) = sd_next_transfer db + 1"
  "sd_numbers (add_transfer t db) = sd_numbers db"
  "sd_flow (add_transfer t db) = sd_flow db"
  "sd_transfers (add_transfer t db) = sd_transfers db @ [t\<lparr>tf_id := sd_next_transfer db\<rparr>]"
  by (simp_all add: add_transfer_def)

lemma move_fields:
  assumes "move_active_requests s old e db = (moved, db')"
  shows "sd_users db' = sd_users db" "sd_planned db' = sd_planned db" "sd_shifts db' = sd_shifts db"
    and "sd_transfers db' = sd_transfers db" "sd_next_shift db' = sd_next_shift db"
    and "sd_next_transfer db' = sd_next_transfer db" "sd_numbers db' = sd_numbers db"
    and "move_each move_statuses e (shift_requests db s old) (sd_flow db) = (moved, sd_flow db')"
  using assms by (auto simp: move_active_requests_def split: prod.splits)

lemma write_twice:
  assumes "tf_id a = tf_id b"
  shows "upd_where (\<lambda>x. tf_id x = tf_id b) (\<lambda>x. b)
           (upd_where (\<lambda>x. tf_id x = tf_id a) (\<lambda>x. a) rows) =
         upd_where (\<lambda>x. tf_id x = tf_id b) (\<lambda>x. b) rows"
  using assms by (induction rows) (auto simp: sql_simps)

subsection \<open>The bot's core and its acceptance\<close>

lemma validate_target:
  assumes "validate_reassign_target db s e = None"
  shows "transferable s"
    and "\<exists>u. find_staff db e = Some u \<and> st_status u = ''approved'' \<and> bot_has_role u ''executor'' \<and>
             has_required_specs (us_specialization u) (ws_focus s)"
    and "sh_user_id s \<noteq> Some e" and "\<And>t1. sh_end s = Some t1 \<Longrightarrow> bot_overlap db s e t1 = None"
  using assms by (auto simp: validate_reassign_target_def split: if_splits option.splits)

text \<open>Another booked shift of \<open>e\<close> whose window meets the one of \<open>s\<close>, both ends known.\<close>

definition meets :: "user_id \<Rightarrow> work_shift \<Rightarrow> work_shift \<Rightarrow> bool" where
  "meets e s y \<longleftrightarrow>
     sh_user_id y = Some e \<and> booked_status (sh_status y) \<and> ws_id y \<noteq> ws_id s \<and>
     (case (sh_end s, sh_end y) of
        (Some a, Some b) \<Rightarrow> sh_start y < a \<and> sh_start s < b
      | _ \<Rightarrow> False)"

lemma bot_overlap_meets:
  assumes "\<And>t1. sh_end s = Some t1 \<Longrightarrow> bot_overlap db s e t1 = None" "y \<in> set (sd_shifts db)"
  shows "\<not> meets e s y"
  using assms by (fastforce simp: meets_def bot_overlap_def first_row_None split: option.splits)

lemma web_overlap_meets:
  assumes "\<And>t1. sh_end s = Some t1 \<Longrightarrow>
      find_overlapping_shift db e (sh_start s) t1 (Some (ws_id s)) = None"
    and "y \<in> set (sd_shifts db)"
  shows "\<not> meets e s y"
  using assms
  by (fastforce simp: meets_def find_overlapping_shift_def overlaps_window_def first_row_None
      split: option.splits)

text \<open>A handover: the shift goes to \<open>e\<close>, its requests with it.\<close>

definition handover :: "staff_db \<Rightarrow> int \<Rightarrow> user_id \<Rightarrow> staff_db \<Rightarrow> bool" where
  "handover db sid e db' \<longleftrightarrow>
     (\<exists>s moved. find_shift db sid = Some s \<and> transferable s \<and>
        (\<exists>u. find_staff db e = Some u \<and> st_status u = ''approved'' \<and>
             has_required_specs (us_specialization u) (ws_focus s)) \<and>
        (\<forall>y\<in>set (sd_shifts db). \<not> meets e s y) \<and>
        sd_users db' = sd_users db \<and> sd_planned db' = sd_planned db \<and>
        sd_numbers db' = sd_numbers db \<and> sd_next_shift db' = sd_next_shift db \<and>
        sd_shifts db' = upd_where (\<lambda>x. ws_id x = sid) (\<lambda>x. x\<lparr>sh_user_id := Some e\<rparr>) (sd_shifts db) \<and>
        move_each move_statuses e (shift_requests db s (the (sh_user_id s))) (sd_flow db) =
          (moved, sd_flow db'))"

lemma handoverI:
  assumes "find_shift db sid = Some s" "transferable s"
    and "find_staff db e = Some u" "st_status u = ''approved''"
    and "has_required_specs (us_specialization u) (ws_focus s)"
    and "\<And>y. y \<in> set (sd_shifts db) \<Longrightarrow> \<not> meets e s y"
    and "move_active_requests s (the (sh_user_id s)) e (give_shift sid e d) = (moved, d1)"
    and "sd_users d = sd_users db" "sd_planned d = sd_planned db" "sd_numbers d = sd_numbers db"
    and "sd_next_shift d = sd_next_shift db" "sd_shifts d = sd_shifts db" "sd_flow d = sd_flow db"
    and "sd_users db' = sd_users d1" "sd_planned db' = sd_planned d1" "sd_numbers db' = sd_numbers d1"
    and "sd_next_shift db' = sd_next_shift d1" "sd_shifts db' = sd_shifts d1"
    and "sd_flow db' = sd_flow d1"
  shows "handover db sid e db'"
proof -
  have "shift_requests (give_shift sid e d) s (the (sh_user_id s)) =
      shift_requests db s (the (sh_user_id s))"
    by (rule shift_requests_cong) (simp_all add: assms)
  then show ?thesis
    unfolding handover_def using assms move_fields [OF assms(7)] by auto
qed

lemma reassign_shift_Inr:
  assumes "reassign_shift now sid e manager h d = Inr (jobs, d')"
    and "sd_users d = sd_users db" "sd_planned d = sd_planned db" "sd_numbers d = sd_numbers db"
    and "sd_next_shift d = sd_next_shift db" "sd_shifts d = sd_shifts db" "sd_flow d = sd_flow db"
  shows "handover db sid e d'"
    and "\<exists>s. find_shift db sid = Some s \<and> sh_user_id s \<noteq> None \<and> sh_user_id s \<noteq> Some e \<and>
          (if h then sd_transfers d' = sd_transfers d @
                   [(history_row now sid (the (sh_user_id s)) e manager)
                      \<lparr>tf_id := sd_next_transfer d\<rparr>] \<and>
                 sd_next_transfer d' = sd_next_transfer d + 1
           else sd_transfers d' = sd_transfers d \<and> sd_next_transfer d' = sd_next_transfer d)"
proof -
  obtain s where s: "find_shift d sid = Some s" "validate_reassign_target d s e = None"
    using assms(1) by (auto simp: reassign_shift_def split: option.splits)
  obtain moved d1 where m:
    "move_active_requests s (the (sh_user_id s)) e (give_shift sid e d) = (moved, d1)"
    by fastforce
  have d': "d' = (if h then add_transfer (history_row now sid (the (sh_user_id s)) e manager) d1
                  else d1)"
    using assms(1) s m by (simp add: reassign_shift_def Let_def)
  note v = validate_target [OF s(2)] and f = move_fields [OF m]
  have s': "find_shift db sid = Some s" using s(1) assms(6) by (simp add: find_shift_def)
  obtain u where u: "find_staff db e = Some u" "st_status u = ''approved''"
    "has_required_specs (us_specialization u) (ws_focus s)"
    using v(2) assms(2) by (auto simp: find_staff_def)
  have free: "\<not> meets e s y" if "y \<in> set (sd_shifts db)" for y
    using bot_overlap_meets [OF v(4)] that assms(6) by simp
  show "handover db sid e d'"
    by (rule handoverI [OF s' v(1) u free m assms(2-)]) (simp_all add: d')
  show "\<exists>s. find_shift db sid = Some s \<and> sh_user_id s \<noteq> None \<and> sh_user_id s \<noteq> Some e \<and>
          (if h then sd_transfers d' = sd_transfers d @
                   [(history_row now sid (the (sh_user_id s)) e manager)
                      \<lparr>tf_id := sd_next_transfer d\<rparr>] \<and>
                 sd_next_transfer d' = sd_next_transfer d + 1
           else sd_transfers d' = sd_transfers d \<and> sd_next_transfer d' = sd_next_transfer d)"
    using s' v(1,3) f by (auto simp: d' transferable_def)
qed

text \<open>The row of a transfer when its receiver has taken the shift, and when he has declined.\<close>

definition completed_row :: "instant \<Rightarrow> transfer_row \<Rightarrow> transfer_row" where
  "completed_row now t =
     t\<lparr>tf_status := ''completed'', tf_responded := Some now, tf_completed := Some now\<rparr>"

lemma update_accepted:
  "tf_status t = ''assigned'' \<Longrightarrow> update_status st now ''accepted'' None t =
     Some (t\<lparr>tf_status := ''accepted'', tf_responded := Some now\<rparr>)"
  by (simp add: update_status_def valid_transitions_def stamped_comment_def)

lemma update_completed:
  "update_status st now ''completed'' None (t\<lparr>tf_status := ''accepted'', tf_responded := Some now\<rparr>) =
     Some (completed_row now t)"
  by (simp add: update_status_def valid_transitions_def stamped_comment_def completed_row_def)

lemma completed_row_fields [simp]:
  "tf_id (completed_row now t) = tf_id t" "tf_shift (completed_row now t) = tf_shift t"
  "tf_status (completed_row now t) = ''completed''" "tf_to (completed_row now t) = tf_to t"
  by (simp_all add: completed_row_def)

definition accepted_by :: "instant \<Rightarrow> int \<Rightarrow> user_id \<Rightarrow> staff_db \<Rightarrow> staff_db \<Rightarrow> bool" where
  "accepted_by now tid e db db' \<longleftrightarrow>
     (\<exists>t. find_transfer db tid = Some t \<and> tf_status t = ''assigned'' \<and> tf_to t = Some e \<and>
        handover db (tf_shift t) e db' \<and>
        sd_transfers db' = upd_where (\<lambda>x. tf_id x = tid) (\<lambda>x. completed_row now t) (sd_transfers db) \<and>
        sd_next_transfer db' = sd_next_transfer db)"

lemma find_transfer_id: "find_transfer db tid = Some t \<Longrightarrow> tf_id t = tid \<and> t \<in> set (sd_transfers db)"
  by (auto simp: find_transfer_def dest: first_row_Some)

lemma handover_transfers:
  assumes "handover db sid e d" "sd_users d' = sd_users d" "sd_planned d' = sd_planned d"
    and "sd_numbers d' = sd_numbers d" "sd_next_shift d' = sd_next_shift d"
    and "sd_shifts d' = sd_shifts d" "sd_flow d' = sd_flow d"
  shows "handover db sid e d'"
  using assms by (simp add: handover_def)

lemma accept_transfer_Inr:
  assumes "accept_transfer st now tid e db = Inr (jobs, db')"
  shows "accepted_by now tid e db db'"
proof -
  obtain t where t: "find_transfer db tid = Some t" "tf_status t = ''assigned''" "tf_to t = Some e"
    using assms by (auto simp: accept_transfer_def split: option.splits if_splits)
  let ?t1 = "t\<lparr>tf_status := ''accepted'', tf_responded := Some now\<rparr>"
  obtain js d where d: "reassign_shift now (tf_shift t) e (tf_assigned_by t) False
      (write_transfer ?t1 db) = Inr (js, d)" "db' = write_transfer (completed_row now t) d"
    using assms t update_accepted [OF t(2)] update_completed
    by (auto simp: accept_transfer_def res_bind_Inr_iff)
  note r = reassign_shift_Inr [OF d(1), of db, simplified]
  have id: "tf_id t = tid" using find_transfer_id [OF t(1)] by simp
  have "handover db (tf_shift t) e db'"
    by (rule handover_transfers [OF r(1)]) (simp_all add: d(2))
  moreover have "sd_transfers db' =
      upd_where (\<lambda>x. tf_id x = tid) (\<lambda>x. completed_row now t) (sd_transfers db)"
    using r(2) id write_twice [of ?t1 "completed_row now t" "sd_transfers db"] by (auto simp: d(2))
  ultimately show ?thesis unfolding accepted_by_def using t r(2) by (auto simp: d(2))
qed

lemma accept_transfer_web_Inr:
  assumes "accept_transfer_web st now tid e db = Inr (x, db')"
  shows "accepted_by now tid e db db'"
proof -
  obtain t s where t: "find_transfer db tid = Some t" "tf_status t = ''assigned''" "tf_to t = Some e"
    and s: "find_shift db (tf_shift t) = Some s" "web_receiver_refusal db s e = None"
    using assms
    by (auto simp: accept_transfer_web_def res_bind_Inr_iff split: option.splits if_splits)
  let ?t1 = "t\<lparr>tf_status := ''accepted'', tf_responded := Some now\<rparr>"
  let ?d = "write_transfer ?t1 db"
  obtain moved d1 where m:
    "move_active_requests s (the (sh_user_id s)) e (give_shift (tf_shift t) e ?d) = (moved, d1)"
    by fastforce
  have sid: "ws_id s = tf_shift t" using s(1) by (auto simp: find_shift_def dest: first_row_Some)
  have db': "db' = write_transfer (completed_row now t) d1"
    using assms t s m sid update_accepted [OF t(2)] update_completed
    by (auto simp: accept_transfer_web_def res_bind_Inr_iff Let_def)
  have id: "tf_id t = tid" using find_transfer_id [OF t(1)] by simp
  obtain u where u: "transferable s" "find_staff db e = Some u" "st_status u = ''approved''"
    "has_required_specs (us_specialization u) (ws_focus s)"
    using s(2) by (auto simp: web_receiver_refusal_def split: if_splits option.splits)
  have free: "\<not> meets e s y" if "y \<in> set (sd_shifts db)" for y
    by (rule web_overlap_meets [OF _ that])
      (use s(2) in \<open>auto simp: web_receiver_refusal_def split: if_splits option.splits\<close>)
  have "handover db (tf_shift t) e db'"
    by (rule handoverI [OF s(1) u free m]) (simp_all add: db')
  moreover have "sd_transfers db' =
      upd_where (\<lambda>x. tf_id x = tid) (\<lambda>x. completed_row now t) (sd_transfers db)"
    using move_fields(4) [OF m] id write_twice [of ?t1 "completed_row now t" "sd_transfers db"]
    by (auto simp: db')
  ultimately show ?thesis
    unfolding accepted_by_def using t move_fields(6) [OF m] by (auto simp: db')
qed

text \<open>The manager's reassignment, from either side.\<close>

definition reassigned_by ::
    "instant \<Rightarrow> int \<Rightarrow> user_id \<Rightarrow> user_id option \<Rightarrow> staff_db \<Rightarrow> staff_db \<Rightarrow> bool" where
  "reassigned_by now sid e manager db db' \<longleftrightarrow>
     handover db sid e db' \<and>
     (\<exists>s old. find_shift db sid = Some s \<and> sh_user_id s = Some old \<and> old \<noteq> e \<and>
        sd_transfers db' = sd_transfers db @
          [(history_row now sid old e manager)\<lparr>tf_id := sd_next_transfer db\<rparr>] \<and>
        sd_next_transfer db' = sd_next_transfer db + 1)"

lemma manager_direct_reassign_Inr:
  assumes "manager_direct_reassign now sid e tg db = Inr (jobs, db')"
  shows "reassigned_by now sid e (map_option us_id (staff_by_telegram db tg)) db db'"
  using reassign_shift_Inr [OF assms [unfolded manager_direct_reassign_def], of db, simplified]
  by (auto simp: reassigned_by_def)

lemma reassign_shift_web_Inr:
  assumes "reassign_shift_web now manager sid e db = Inr (moved, db')"
  shows "reassigned_by now sid e (Some manager) db db'"
proof -
  obtain s where s: "find_shift db sid = Some s" "reassign_refusal db s e = None"
    using assms
    by (auto simp: reassign_shift_web_def res_bind_Inr_iff split: option.splits)
  obtain mv d1 where m:
    "move_active_requests s (the (sh_user_id s)) e (give_shift sid e db) = (mv, d1)"
    by fastforce
  have db': "db' = add_transfer (history_row now sid (the (sh_user_id s)) e (Some manager)) d1"
    using assms s m by (auto simp: reassign_shift_web_def res_bind_Inr_iff Let_def)
  obtain u where u: "transferable s" "find_staff db e = Some u" "st_status u = ''approved''"
    "has_required_specs (us_specialization u) (ws_focus s)" and ne: "sh_user_id s \<noteq> Some e"
    using s(2) by (auto simp: reassign_refusal_def split: if_splits option.splits)
  have free: "\<not> meets e s y" if "y \<in> set (sd_shifts db)" for y
    by (rule web_overlap_meets [OF _ that])
      (use s(2) in \<open>auto simp: reassign_refusal_def split: if_splits option.splits\<close>)
  have "handover db sid e db'"
    by (rule handoverI [OF s(1) u free m]) (simp_all add: db')
  then show ?thesis
    unfolding reassigned_by_def using s(1) ne u(1) move_fields(4,6) [OF m]
    by (auto simp: db' transferable_def)
qed

end
