(* ===== verification/ShiftCalls.thy ===== *)
theory ShiftCalls
  imports ShiftFacts
begin

section \<open>The calls, sorted by what they do\<close>

text \<open>
  Every successful call is a quiet one (no request and no transfer changes), a step of a
  transfer, a handover, a removal of an employee, or a sweep of the scheduler.  The
  elimination rule \<open>call_cases\<close> is the only place where all calls are unfolded.
\<close>

text \<open>A shift is changed without changing hands, or a new one gets the next id.\<close>

definition roster_quiet :: "staff_db \<Rightarrow> staff_db \<Rightarrow> bool" where
  "roster_quiet s t \<longleftrightarrow>
     (\<exists>f sid. (\<forall>x. ws_id (f x) = ws_id x \<and> sh_user_id (f x) = sh_user_id x) \<and>
        sd_shifts t = upd_where (\<lambda>x. ws_id x = sid) f (sd_shifts s) \<and>
        sd_next_shift t = sd_next_shift s) \<or>
     (\<exists>x. sd_shifts t = sd_shifts s @ [x\<lparr>ws_id := sd_next_shift s\<rparr>] \<and>
        sd_next_shift t = sd_next_shift s + 1)"

definition roster_only :: "staff_db \<Rightarrow> staff_db \<Rightarrow> bool" where
  "roster_only s t \<longleftrightarrow> roster_quiet s t \<and>
     sd_users t = sd_users s \<and> sd_planned t = sd_planned s \<and> sd_transfers t = sd_transfers s \<and>
     sd_next_transfer t = sd_next_transfer s \<and> sd_numbers t = sd_numbers s \<and> sd_flow t = sd_flow s"

lemma quiet_writers [simp]:
  "roster_only s (add_shift x s)"
  "roster_only s (log_shift u tg a i d t) = roster_only s t"
  by (auto simp: roster_only_def roster_quiet_def)

lemma quiet_write:
  "(\<And>x. ws_id (f x) = ws_id x) \<Longrightarrow> (\<And>x. sh_user_id (f x) = sh_user_id x) \<Longrightarrow>
   roster_only s (write_shift sid f s)"
  by (auto simp: roster_only_def roster_quiet_def)

lemma kept_owner [simp]:
  "ws_id (close_shift now x) = ws_id x" "sh_user_id (close_shift now x) = sh_user_id x"
  "ws_id (close_with_notes now n x) = ws_id x"
  "sh_user_id (close_with_notes now n x) = sh_user_id x"
  "ws_id (apply_shift_update p x) = ws_id x"
  "sh_user_id (apply_shift_update p x) = sh_user_id x"
  by (simp_all add: close_shift_def close_with_notes_def apply_shift_update_def Let_def)

text \<open>The columns of a transfer that never change.\<close>

definition same_transfer :: "transfer_row \<Rightarrow> transfer_row \<Rightarrow> bool" where
  "same_transfer x y \<longleftrightarrow>
     tf_id y = tf_id x \<and> tf_shift y = tf_shift x \<and> tf_from y = tf_from x \<and>
     tf_reason y = tf_reason x \<and> tf_urgency y = tf_urgency x \<and> tf_created y = tf_created x \<and>
     tf_auto y = tf_auto x"

lemma same_transfer_refl [simp]: "same_transfer x x"
  by (simp add: same_transfer_def)

lemma same_transfer_trans: "same_transfer x y \<Longrightarrow> same_transfer y z \<Longrightarrow> same_transfer x z"
  by (simp add: same_transfer_def)

text \<open>One answer to a transfer: a receiver is named, or it is declined or called off.\<close>

definition transfer_edge :: "transfer_row \<Rightarrow> transfer_row \<Rightarrow> bool" where
  "transfer_edge x y \<longleftrightarrow>
     same_transfer x y \<and>
     (tf_status x = ''pending'' \<and> tf_status y = ''assigned'' \<and> tf_to y \<noteq> None \<and> tf_assigned y \<noteq> None \<or>
      tf_status x = ''assigned'' \<and> tf_status y = ''rejected'' \<and> tf_to y = tf_to x \<and>
        tf_assigned y = tf_assigned x \<or>
      tf_status x \<in> {''pending'', ''assigned''} \<and> tf_status y = ''cancelled'' \<and> tf_to y = tf_to x)"

definition transfer_step :: "staff_db \<Rightarrow> staff_db \<Rightarrow> bool" where
  "transfer_step s t \<longleftrightarrow>
     sd_users t = sd_users s \<and> sd_planned t = sd_planned s \<and> sd_shifts t = sd_shifts s \<and>
     sd_next_shift t = sd_next_shift s \<and> sd_numbers t = sd_numbers s \<and> sd_flow t = sd_flow s \<and>
     ((\<exists>x. tf_status x = ''pending'' \<and> tf_to x = None \<and> \<not> blocked_shift s (tf_shift x) \<and>
         sd_transfers t = sd_transfers s @ [x\<lparr>tf_id := sd_next_transfer s\<rparr>] \<and>
         sd_next_transfer t = sd_next_transfer s + 1) \<or>
      (\<exists>x y. find_transfer s (tf_id x) = Some x \<and> transfer_edge x y \<and>
         sd_transfers t = upd_where (\<lambda>z. tf_id z = tf_id x) (\<lambda>z. y) (sd_transfers s) \<and>
         sd_next_transfer t = sd_next_transfer s))"

lemma transfer_step_add:
  assumes "transfer_refusal s sid u = None"
  shows "transfer_step s (add_transfer (pending_row now sid u r c g) s)"
proof -
  have "\<not> blocked_shift s sid" using assms
    by (auto simp: transfer_refusal_def split: option.splits if_splits)
  then show ?thesis unfolding transfer_step_def
    by (intro conjI disjI1 exI [of _ "pending_row now sid u r c g"]) (simp_all add: pending_row_def)
qed

lemma transfer_step_write:
  assumes "find_transfer s i = Some x" "transfer_edge x y"
  shows "transfer_step s (write_transfer y s)"
proof -
  have "tf_id x = i" "tf_id y = tf_id x"
    using find_transfer_id [OF assms(1)] assms(2) by (auto simp: transfer_edge_def same_transfer_def)
  then show ?thesis unfolding transfer_step_def using assms
    by (intro conjI disjI2 exI [of _ x] exI [of _ y]) simp_all
qed

lemma assign_transfer_step:
  assumes "assign_transfer st now i e m s = Inr t"
  shows "transfer_step s t"
proof -
  obtain x y where x: "find_transfer s i = Some x" "tf_status x = ''pending''"
    "update_status st now ''assigned'' None x = Some y"
    and t: "t = write_transfer (y\<lparr>tf_to := Some e, tf_assigned_by := m\<rparr>) s"
    using assms by (auto simp: assign_transfer_def split: option.splits if_splits)
  show ?thesis unfolding t
    by (rule transfer_step_write [OF x(1)])
      (use x(2,3) in \<open>auto simp: update_status_def transfer_edge_def same_transfer_def split: if_splits\<close>)
qed

lemma update_rejected_edge:
  assumes "tf_status x = ''assigned''" "update_status st now ''rejected'' c x = Some y"
  shows "transfer_edge x y"
  using assms by (auto simp: update_status_def transfer_edge_def same_transfer_def split: if_splits)

lemma reject_transfer_step:
  assumes "reject_transfer st now i u c s = Inr (jobs, t)"
  shows "transfer_step s t"
proof -
  obtain x y where x: "find_transfer s i = Some x" "tf_status x = ''assigned''"
    "update_status st now ''rejected'' c x = Some y" and t: "t = write_transfer y s"
    using assms by (auto simp: reject_transfer_def split: option.splits if_splits)
  show ?thesis unfolding t by (rule transfer_step_write [OF x(1) update_rejected_edge [OF x(2,3)]])
qed

lemma reject_transfer_web_step:
  assumes "reject_transfer_web st now i u s = Inr (f, t)"
  shows "transfer_step s t"
proof -
  obtain x y where x: "find_transfer s i = Some x" "tf_status x = ''assigned''"
    "update_status st now ''rejected'' None x = Some y" and t: "t = write_transfer y s"
    using assms
    by (auto simp: reject_transfer_web_def res_bind_Inr_iff split: option.splits if_splits)
  show ?thesis unfolding t by (rule transfer_step_write [OF x(1) update_rejected_edge [OF x(2,3)]])
qed

lemma handle_transfer_step:
  assumes "handle_transfer now m i a s = Inr t"
  shows "transfer_step s t"
proof -
  obtain x where x: "find_transfer s i = Some x"
    using assms by (auto simp: handle_transfer_def res_bind_Inr_iff split: option.splits)
  note step = transfer_step_write [OF x]
  show ?thesis
    using assms x
    by (auto simp: handle_transfer_def res_bind_Inr_iff split: transfer_action.splits option.splits
        if_splits intro!: step simp: transfer_edge_def same_transfer_def)
qed

subsection \<open>All calls\<close>

definition removal :: "instant \<Rightarrow> user_id \<Rightarrow> user_id option \<Rightarrow> staff_db \<Rightarrow> staff_db \<Rightarrow> bool" where
  "removal now u target s t \<longleftrightarrow>
     t = soft_delete now u target (active_request_count s u) s \<and>
     (0 < active_request_count s u \<longrightarrow> (\<exists>e v. target = Some e \<and> find_staff s e = Some v))"

lemma delete_employee_Inr:
  assumes "delete_employee now m u reason target s = Inr t"
  shows "removal now u target s t"
proof (cases "0 < active_request_count s u")
  case True
  then show ?thesis
    using assms by (auto simp: delete_employee_def removal_def res_bind_Inr_iff Let_def
        split: option.splits if_splits)
next
  case False
  then show ?thesis
    using assms by (auto simp: delete_employee_def removal_def res_bind_Inr_iff Let_def
        split: option.splits if_splits)
qed

definition sweep :: "shift_texts \<Rightarrow> instant \<Rightarrow> staff_db \<Rightarrow> staff_db \<Rightarrow> bool" where
  "sweep tx now s t \<longleftrightarrow>
     (\<exists>h. t = snd (process_expired_transfers (tx_expiry tx) now h s)) \<or>
     t = snd (cleanup_expired_data now s)"

lemmas quiet_calls = start_shift_def end_shift_def force_end_shift_def begin_planned_def
  finish_own_def end_shift_by_id_def web_start_def web_end_own_def web_create_def web_patch_def
  web_end_def

fun quiet_op :: "shift_op \<Rightarrow> bool" where
  "quiet_op (StartShift tg n) = True"
| "quiet_op (EndShift tg n) = True"
| "quiet_op (ForceEndShift m tg n) = True"
| "quiet_op (BeginPlanned u i) = True"
| "quiet_op (FinishOwn u i) = True"
| "quiet_op (EndShiftById tg i) = True"
| "quiet_op (WebStart u n) = True"
| "quiet_op (WebEndOwn u i) = True"
| "quiet_op (WebCreate m b) = True"
| "quiet_op (WebPatch m i p) = True"
| "quiet_op (WebEnd m i) = True"
| "quiet_op _ = False"

lemma quiet_call:
  assumes "quiet_op op" "shift_call tx now op s = Inr t"
  shows "roster_only s t"
  using assms
  by (cases op)
    (auto simp: quiet_calls res_bind_Inr_iff split: option.splits if_splits intro!: quiet_write)

lemma web_delete_Inr:
  assumes "web_delete m sid s = Inr t"
  shows "t = s\<lparr>sd_shifts := filter (\<lambda>x. ws_id x \<noteq> sid) (sd_shifts s),
               sd_transfers := filter (\<lambda>t. tf_shift t \<noteq> sid) (sd_transfers s),
               sd_planned := filter (\<lambda>q. pq_shift q \<noteq> sid) (sd_planned s)\<rparr>"
  using assms by (auto simp: web_delete_def res_bind_Inr_iff split: option.splits if_splits)

lemma call_cases:
  assumes "shift_call tx now op s = Inr t"
  obtains (quiet) "quiet_op op" "roster_only s t"
  | (deleted) m sid where "op = WebDelete m sid"
      "t = s\<lparr>sd_shifts := filter (\<lambda>x. ws_id x \<noteq> sid) (sd_shifts s),
             sd_transfers := filter (\<lambda>t. tf_shift t \<noteq> sid) (sd_transfers s),
             sd_planned := filter (\<lambda>q. pq_shift q \<noteq> sid) (sd_planned s)\<rparr>"
  | (step) "transfer_step s t"
  | (accepted) i e where "op = AcceptTransfer i e \<or> op = AcceptTransferWeb i e"
      "accepted_by now i e s t"
  | (reassigned) sid e manager where
      "(\<exists>tg. op = ManagerReassign sid e tg) \<or> (\<exists>m. op = ReassignWeb m sid e)"
      "reassigned_by now sid e manager s t"
  | (removed) u target where "removal now u target s t"
  | (swept) "sweep tx now s t"
proof (cases "quiet_op op")
  case True
  then show thesis using quiet quiet_call [OF True assms] by blast
next
  case False
  show thesis
  proof (cases op)
    case (WebDelete m sid)
    then show thesis using deleted web_delete_Inr assms by simp
  next
    case (CreateTransfer sid u r c g)
    then have "transfer_step s t" using assms transfer_step_add
      by (auto simp: create_transfer_def Let_def split: option.splits if_splits)
    then show thesis by (rule step)
  next
    case (CreateTransferWeb sid u r c g)
    then have "transfer_step s t" using assms transfer_step_add
      by (auto simp: create_transfer_web_def Let_def res_bind_Inr_iff split: option.splits if_splits)
    then show thesis by (rule step)
  next
    case (AssignTransfer i e m)
    then show thesis using assms assign_transfer_step step by simp
  next
    case (RejectTransfer i u c)
    then show thesis using assms reject_transfer_step step by auto
  next
    case (RejectTransferWeb i u)
    then show thesis using assms reject_transfer_web_step step by auto
  next
    case (HandleTransfer m i a)
    then show thesis using assms handle_transfer_step step by simp
  next
    case (AcceptTransfer i e)
    then show thesis using assms accept_transfer_Inr accepted by auto
  next
    case (AcceptTransferWeb i e)
    then show thesis using assms accept_transfer_web_Inr accepted by auto
  next
    case (ManagerReassign sid e tg)
    then obtain x where "manager_direct_reassign now sid e tg s = Inr (x, t)" using assms by auto
    then show thesis using manager_direct_reassign_Inr reassigned ManagerReassign by blast
  next
    case (ReassignWeb m sid e)
    then obtain x where "reassign_shift_web now m sid e s = Inr (x, t)" using assms by auto
    then show thesis using reassign_shift_web_Inr reassigned ReassignWeb by blast
  next
    case (DeleteEmployee m u r target)
    then show thesis using assms removed delete_employee_Inr [of now m u r target s t] by simp
  next
    case (ExpireTransfers h)
    then show thesis using assms swept by (auto simp: sweep_def)
  next
    case CleanUp
    then show thesis using assms swept by (auto simp: sweep_def)
  qed (use False in simp_all)
qed

subsection \<open>The request tables\<close>

lemma handover_flow:
  assumes "handover s sid e t" "planned_ok s"
  shows "flow_change s t"
proof -
  obtain x moved u where "find_staff s e = Some u"
    "move_each move_statuses e (shift_requests s x (the (sh_user_id x))) (sd_flow s) =
       (moved, sd_flow t)"
    using assms(1) by (auto simp: handover_def)
  then show ?thesis using flow_moved shift_requests_have_executor [OF assms(2)] by blast
qed

lemma removal_flow:
  assumes "removal now u target s t"
  shows "flow_change s t"
proof (cases "0 < active_request_count s u")
  case True
  then obtain e v where e: "target = Some e" "find_staff s e = Some v"
    using assms by (auto simp: removal_def)
  obtain moved where "move_each removal_statuses e (held_numbers removal_statuses s u) (sd_flow s) =
      (moved, sd_flow t)"
    using assms True e by (auto simp: removal_def soft_delete_def Let_def prod_eq_iff)
  moreover have "list_all (has_executor (sd_flow s)) (held_numbers removal_statuses s u)"
    using held_has_executor by (auto simp: list_all_iff)
  ultimately show ?thesis using flow_moved e(2) by blast
next
  case False
  then show ?thesis
    using assms by (intro flow_same) (auto simp: removal_def soft_delete_def Let_def split: option.splits)
qed

lemma removal_frame:
  assumes "removal now u target s t"
  shows "sd_planned t = sd_planned s" "sd_numbers t = sd_numbers s"
    and "sd_transfers t = sd_transfers s" "sd_next_transfer t = sd_next_transfer s"
    and "map us_id (sd_users t) = map us_id (sd_users s)"
    and "sd_shifts t = upd_where
           (\<lambda>s. sh_user_id s = Some u \<and> sh_status s \<in> {''active'', ''paused''})
           (close_shift now) (sd_shifts s)"
  using assms by (auto simp: removal_def soft_delete_def Let_def map_upd_where)

lemma staff_ids_map: "map us_id us = map us_id vs \<Longrightarrow> staff_ids_ok us = staff_ids_ok vs"
proof -
  have "staff_ids_ok xs = list_all (\<lambda>i. - (2 ^ 31) \<le> i \<and> i < 2 ^ 31) (map us_id xs)"
    for xs :: "staff_row list"
    by (simp add: staff_ids_ok_def list_all_iff)
  then show "map us_id us = map us_id vs \<Longrightarrow> ?thesis" by simp
qed

lemma call_keeps_flow_inv:
  assumes "shift_call tx now op s = Inr t" "flow_inv cfg s"
  shows "flow_inv cfg t"
proof -
  have p: "planned_ok s" and ids: "staff_ids_ok (sd_users s)"
    using assms(2) by (simp_all add: flow_inv_def)
  note keep = flow_change_inv [OF assms(2)]
  from assms(1) show ?thesis
  proof (cases rule: call_cases)
    case quiet
    then show ?thesis by (intro keep flow_same) (auto simp: roster_only_def ids)
  next
    case deleted
    then show ?thesis by (intro keep flow_same) (auto simp: ids)
  next
    case step
    then show ?thesis by (intro keep flow_same) (auto simp: transfer_step_def ids)
  next
    case (accepted i e)
    then obtain sid where h: "handover s sid e t" by (auto simp: accepted_by_def)
    show ?thesis by (rule keep [OF handover_flow [OF h p]]) (use h ids in \<open>auto simp: handover_def\<close>)
  next
    case (reassigned sid e manager)
    then have h: "handover s sid e t" by (simp add: reassigned_by_def)
    show ?thesis by (rule keep [OF handover_flow [OF h p]]) (use h ids in \<open>auto simp: handover_def\<close>)
  next
    case (removed u target)
    note fr = removal_frame [OF removed]
    show ?thesis
      by (rule keep [OF removal_flow [OF removed]]) (use fr ids staff_ids_map [OF fr(5)] in simp_all)
  next
    case swept
    then show ?thesis
      by (intro keep flow_same)
        (auto simp: sweep_def process_expired_transfers_def cleanup_expired_data_def Let_def ids)
  qed
qed

end
