(* ===== verification/OfficeInvariants.thy ===== *)
theory OfficeInvariants
  imports ShiftCalls
begin

section \<open>The invariants of the office\<close>

text \<open>
  In every reachable database: the request tables keep the workflow's invariant; a transfer is in
  one of six states, with the columns that state implies; no two transfers and no two shifts share
  an id; a shift has at most one open transfer.  Along every run a transfer only goes forward, and
  a closed one is never touched.  Both come from the prelude's interface \<open>evolving\<close>, interpreted
  on \<open>office_step\<close>.
\<close>

subsection \<open>Transfers\<close>

definition open_transfer :: "transfer_row \<Rightarrow> bool" where
  "open_transfer x \<longleftrightarrow> tf_status x \<in> {''pending'', ''assigned''}"

definition transfer_ok :: "transfer_row \<Rightarrow> bool" where
  "transfer_ok x \<longleftrightarrow>
     tf_status x \<in> {''pending'', ''assigned'', ''rejected'', ''cancelled'', ''completed'', ''expired''} \<and>
     (tf_status x = ''pending'' \<longrightarrow> tf_to x = None) \<and>
     (tf_status x \<in> {''assigned'', ''rejected'', ''completed''} \<longrightarrow> tf_to x \<noteq> None \<and> tf_assigned x \<noteq> None) \<and>
     (tf_status x = ''completed'' \<longrightarrow> tf_responded x \<noteq> None \<and> tf_completed x \<noteq> None)"

definition open_for :: "int \<Rightarrow> transfer_row \<Rightarrow> bool" where
  "open_for sid x \<longleftrightarrow> tf_shift x = sid \<and> open_transfer x"

definition transfers_inv :: "staff_db \<Rightarrow> bool" where
  "transfers_inv s \<longleftrightarrow>
     (\<forall>x\<in>set (sd_transfers s). transfer_ok x \<and> tf_id x < sd_next_transfer s) \<and>
     distinct (map tf_id (sd_transfers s)) \<and>
     (\<forall>sid. row_count (open_for sid) (sd_transfers s) \<le> 1)"

text \<open>What a later state of a transfer may be.\<close>

definition transfer_rel :: "transfer_row \<Rightarrow> transfer_row \<Rightarrow> bool" where
  "transfer_rel x y \<longleftrightarrow>
     same_transfer x y \<and> (\<not> open_transfer x \<longrightarrow> y = x) \<and>
     (tf_status x = ''assigned'' \<longrightarrow> tf_to y = tf_to x \<and> tf_status y \<noteq> ''pending'')"

lemma transfer_rel_refl [simp]: "transfer_rel x x"
  by (auto simp: transfer_rel_def)

lemma transfer_rel_trans: "transfer_rel x y \<Longrightarrow> transfer_rel y z \<Longrightarrow> transfer_rel x z"
  using same_transfer_trans by (auto simp: transfer_rel_def open_transfer_def)

definition transfers_later :: "staff_db \<Rightarrow> staff_db \<Rightarrow> bool" where
  "transfers_later s t \<longleftrightarrow>
     sd_next_transfer s \<le> sd_next_transfer t \<and>
     (\<forall>y\<in>set (sd_transfers t). tf_id y < sd_next_transfer s \<longrightarrow>
        (\<exists>x\<in>set (sd_transfers s). transfer_rel x y))"

lemma transfer_rel_self: "y \<in> set rows \<Longrightarrow> \<exists>x\<in>set rows. transfer_rel x y"
  using transfer_rel_refl by blast

lemma transfers_later_refl: "transfers_later s s"
  by (simp add: transfers_later_def transfer_rel_self)

lemma transfers_later_trans:
  assumes "transfers_later s t" "transfers_later t u"
  shows "transfers_later s u"
proof -
  have "\<exists>x\<in>set (sd_transfers s). transfer_rel x z"
    if z: "z \<in> set (sd_transfers u)" "tf_id z < sd_next_transfer s" for z
  proof -
    obtain y where y: "y \<in> set (sd_transfers t)" "transfer_rel y z"
      using assms z unfolding transfers_later_def by (meson order_less_le_trans)
    moreover have "tf_id y = tf_id z" using y(2) by (simp add: transfer_rel_def same_transfer_def)
    ultimately obtain x where "x \<in> set (sd_transfers s)" "transfer_rel x y"
      using assms(1) z(2) unfolding transfers_later_def by metis
    then show ?thesis using transfer_rel_trans y(2) by blast
  qed
  then show ?thesis using assms by (auto simp: transfers_later_def)
qed

text \<open>Rows may disappear, change forwards, or be added under a fresh id.\<close>

lemma transfers_filter:
  assumes "transfers_inv s" "sd_transfers t = filter P (sd_transfers s)"
    and "sd_next_transfer t = sd_next_transfer s"
  shows "transfers_inv t \<and> transfers_later s t"
proof -
  have "row_count (open_for sid) (filter P rows) \<le> row_count (open_for sid) rows" for sid rows
    by (induction rows) (auto simp: sql_simps)
  then have "\<forall>sid. row_count (open_for sid) (sd_transfers t) \<le> 1"
    using assms unfolding transfers_inv_def by (metis le_trans)
  moreover have "distinct (map tf_id (sd_transfers t))"
    using assms by (simp add: transfers_inv_def distinct_map_filter)
  ultimately show ?thesis
    using assms by (simp add: transfers_inv_def transfers_later_def transfer_rel_self)
qed

lemma transfers_update:
  assumes inv: "transfers_inv s" and t: "sd_transfers t = upd_where P f (sd_transfers s)"
    and n: "sd_next_transfer t = sd_next_transfer s"
    and f: "\<And>x. x \<in> set (sd_transfers s) \<Longrightarrow> P x \<Longrightarrow> transfer_rel x (f x) \<and> transfer_ok (f x) \<and> open_transfer x"
  shows "transfers_inv t \<and> transfers_later s t"
proof -
  have same: "tf_id (f x) = tf_id x \<and> tf_shift (f x) = tf_shift x"
    if "x \<in> set (sd_transfers s)" "P x" for x
    using f [OF that] by (simp add: transfer_rel_def same_transfer_def)
  have ids: "map tf_id (sd_transfers t) = map tf_id (sd_transfers s)"
    using same by (auto simp: t upd_where_def)
  have "row_count (open_for sid) (sd_transfers t) \<le> row_count (open_for sid) (sd_transfers s)" for sid
    unfolding t row_count_upd_where
    by (rule row_count_mono) (use f same in \<open>auto simp: open_for_def split: if_splits\<close>)
  then have "\<forall>sid. row_count (open_for sid) (sd_transfers t) \<le> 1"
    using inv unfolding transfers_inv_def by (metis le_trans)
  moreover have "transfer_ok y \<and> tf_id y < sd_next_transfer t \<and> (\<exists>x\<in>set (sd_transfers s). transfer_rel x y)"
    if y: "y \<in> set (sd_transfers t)" for y
  proof -
    obtain x where "x \<in> set (sd_transfers s)" "y = (if P x then f x else x)"
      using y unfolding t upd_where_def set_map by blast
    then show ?thesis using f [of x] same [of x] inv n by (auto simp: transfers_inv_def intro!: bexI [of _ x])
  qed
  ultimately show ?thesis using inv n ids by (auto simp: transfers_inv_def transfers_later_def)
qed

lemma transfers_write:
  assumes "transfers_inv s" "sd_transfers t = upd_where (\<lambda>z. tf_id z = tf_id x) (\<lambda>z. y) (sd_transfers s)"
    and "sd_next_transfer t = sd_next_transfer s" "x \<in> set (sd_transfers s)"
    and "transfer_rel x y" "transfer_ok y" "open_transfer x"
  shows "transfers_inv t \<and> transfers_later s t"
proof (rule transfers_update [OF assms(1-3)])
  fix z
  assume "z \<in> set (sd_transfers s)" "tf_id z = tf_id x"
  then have "z = x" using assms(1,4) by (auto simp: transfers_inv_def distinct_map dest: inj_onD)
  then show "transfer_rel z y \<and> transfer_ok y \<and> open_transfer z" using assms(5-7) by simp
qed

lemma transfers_add:
  assumes "transfers_inv s" "sd_transfers t = sd_transfers s @ [x\<lparr>tf_id := sd_next_transfer s\<rparr>]"
    and "sd_next_transfer t = sd_next_transfer s + 1" "transfer_ok x"
    and "open_transfer x \<Longrightarrow> row_count (open_for (tf_shift x)) (sd_transfers s) = 0"
  shows "transfers_inv t \<and> transfers_later s t"
proof -
  have ok: "transfer_ok (x\<lparr>tf_id := n\<rparr>) = transfer_ok x" "open_for sid (x\<lparr>tf_id := n\<rparr>) = open_for sid x"
    for n sid by (simp_all add: transfer_ok_def open_for_def open_transfer_def)
  have "row_count (open_for sid) (sd_transfers t) \<le> 1" for sid
  proof (cases "open_for sid x")
    case True
    then have "row_count (open_for sid) (sd_transfers s) = 0" using assms(5) by (auto simp: open_for_def)
    then show ?thesis using True by (simp add: assms(2) sql_simps ok)
  next
    case False
    then show ?thesis using assms(1) by (simp add: assms(2) sql_simps ok transfers_inv_def)
  qed
  moreover have "distinct (map tf_id (sd_transfers t))"
    using assms(1) by (auto simp: transfers_inv_def assms(2))
  moreover have "transfer_ok y \<and> tf_id y < sd_next_transfer t" if "y \<in> set (sd_transfers t)" for y
    using that assms(1,4) by (auto simp: transfers_inv_def assms(2,3) ok)
  moreover have "\<exists>z\<in>set (sd_transfers s). transfer_rel z y"
    if "y \<in> set (sd_transfers t)" "tf_id y < sd_next_transfer s" for y
    using that transfer_rel_self by (auto simp: assms(2))
  ultimately show ?thesis by (simp add: transfers_inv_def transfers_later_def assms(3))
qed

lemma unblocked:
  "\<not> blocked_shift s sid \<Longrightarrow> row_count (open_for sid) (sd_transfers s) = 0"
  by (auto simp: blocked_shift_def first_row_None row_count_zero_iff open_for_def open_transfer_def
      blocking_statuses_def)

lemma edge_ok:
  assumes "transfer_edge x y" "transfer_ok x"
  shows "transfer_rel x y \<and> transfer_ok y \<and> open_transfer x"
  using assms unfolding transfer_edge_def
  by (elim conjE disjE insertE emptyE)
    (simp_all add: transfer_rel_def transfer_ok_def open_transfer_def)

lemma call_keeps_transfers:
  assumes "shift_call tx now op s = Inr t" "transfers_inv s"
  shows "transfers_inv t \<and> transfers_later s t"
proof -
  have same: "sd_transfers t = sd_transfers s \<Longrightarrow> sd_next_transfer t = sd_next_transfer s \<Longrightarrow> ?thesis"
    using transfers_filter [OF assms(2), of t "\<lambda>x. True"] by simp
  from assms(1) show ?thesis
  proof (cases rule: call_cases)
    case quiet
    then show ?thesis by (intro same) (simp_all add: roster_only_def)
  next
    case (deleted m sid)
    then show ?thesis by (intro transfers_filter [OF assms(2), of t "\<lambda>t. tf_shift t \<noteq> sid"]) simp_all
  next
    case step
    then consider (add) x where "tf_status x = ''pending''" "tf_to x = None"
        "\<not> blocked_shift s (tf_shift x)"
        "sd_transfers t = sd_transfers s @ [x\<lparr>tf_id := sd_next_transfer s\<rparr>]"
        "sd_next_transfer t = sd_next_transfer s + 1"
      | (answer) x y where "find_transfer s (tf_id x) = Some x" "transfer_edge x y"
        "sd_transfers t = upd_where (\<lambda>z. tf_id z = tf_id x) (\<lambda>z. y) (sd_transfers s)"
        "sd_next_transfer t = sd_next_transfer s"
      unfolding transfer_step_def by blast
    then show ?thesis
    proof cases
      case add
      then show ?thesis
        using transfers_add [OF assms(2) add(4,5)] unblocked by (simp add: transfer_ok_def)
    next
      case answer
      have x: "x \<in> set (sd_transfers s)" using find_transfer_id [OF answer(1)] by simp
      then have "transfer_ok x" using assms(2) by (simp add: transfers_inv_def)
      then show ?thesis using transfers_write [OF assms(2) answer(3,4) x] edge_ok [OF answer(2)] by blast
    qed
  next
    case (accepted i e)
    then obtain x where x: "find_transfer s i = Some x" "tf_status x = ''assigned''"
      "sd_transfers t = upd_where (\<lambda>z. tf_id z = i) (\<lambda>z. completed_row now x) (sd_transfers s)"
      "sd_next_transfer t = sd_next_transfer s"
      by (auto simp: accepted_by_def)
    note i = find_transfer_id [OF x(1)]
    have "transfer_ok x" using assms(2) i by (simp add: transfers_inv_def)
    then have "transfer_rel x (completed_row now x)" "transfer_ok (completed_row now x)" "open_transfer x"
      using x(2) by (auto simp: transfer_rel_def transfer_ok_def open_transfer_def same_transfer_def
          completed_row_def)
    then show ?thesis using transfers_write [OF assms(2) _ x(4)] x(3) i by blast
  next
    case (reassigned sid e manager)
    then obtain old where "sd_transfers t = sd_transfers s @
        [(history_row now sid old e manager)\<lparr>tf_id := sd_next_transfer s\<rparr>]"
      "sd_next_transfer t = sd_next_transfer s + 1"
      by (auto simp: reassigned_by_def)
    then show ?thesis
      by (rule transfers_add [OF assms(2)])
        (simp_all add: history_row_def transfer_ok_def open_transfer_def)
  next
    case (removed u target)
    then show ?thesis using same removal_frame by blast
  next
    case swept
    then consider (expired) h where "t = snd (process_expired_transfers (tx_expiry tx) now h s)"
      | (cleaned) "t = snd (cleanup_expired_data now s)"
      by (auto simp: sweep_def)
    then show ?thesis
    proof cases
      case expired
      show ?thesis
        by (rule transfers_update [OF assms(2), of t "expired_transfer (hours_before now h)"
              "mark_expired (tx_expiry tx) now h"])
          (auto simp: expired process_expired_transfers_def Let_def expired_transfer_def
            mark_expired_def transfer_rel_def transfer_ok_def open_transfer_def same_transfer_def)
    next
      case cleaned
      then show ?thesis
        by (intro transfers_filter [OF assms(2)])
          (auto simp: cleanup_expired_data_def Let_def)
    qed
  qed
qed

subsection \<open>Shifts\<close>

definition shifts_inv :: "staff_db \<Rightarrow> bool" where
  "shifts_inv s \<longleftrightarrow>
     distinct (map ws_id (sd_shifts s)) \<and> (\<forall>x\<in>set (sd_shifts s). ws_id x < sd_next_shift s)"

lemma shifts_update:
  assumes "shifts_inv s" "sd_shifts t = upd_where P f (sd_shifts s)"
    and "sd_next_shift t = sd_next_shift s" "\<And>x. P x \<Longrightarrow> ws_id (f x) = ws_id x"
  shows "shifts_inv t"
proof -
  have ids: "map ws_id (sd_shifts t) = map ws_id (sd_shifts s)"
    using assms(2,4) by (simp add: map_upd_where)
  then have "set (map ws_id (sd_shifts t)) = set (map ws_id (sd_shifts s))" by simp
  then have "ws_id ` set (sd_shifts t) = ws_id ` set (sd_shifts s)" by simp
  then show ?thesis
    using assms(1,3) ids unfolding shifts_inv_def by (metis imageE imageI)
qed

lemma shifts_quiet:
  assumes "shifts_inv s" "roster_quiet s t"
  shows "shifts_inv t"
proof -
  consider (change) f sid where "\<forall>x. ws_id (f x) = ws_id x \<and> sh_user_id (f x) = sh_user_id x"
      "sd_shifts t = upd_where (\<lambda>x. ws_id x = sid) f (sd_shifts s)"
      "sd_next_shift t = sd_next_shift s"
    | (add) x where "sd_shifts t = sd_shifts s @ [x\<lparr>ws_id := sd_next_shift s\<rparr>]"
      "sd_next_shift t = sd_next_shift s + 1"
    using assms(2) unfolding roster_quiet_def by blast
  then show ?thesis
  proof cases
    case change
    then show ?thesis using shifts_update [OF assms(1)] by blast
  next
    case add
    then show ?thesis using assms(1) by (auto simp: shifts_inv_def)
  qed
qed

lemma handover_shifts:
  assumes "shifts_inv s" "handover s sid e t"
  shows "shifts_inv t"
proof (rule shifts_update [OF assms(1)])
  show "sd_shifts t = upd_where (\<lambda>x. ws_id x = sid) (\<lambda>x. x\<lparr>sh_user_id := Some e\<rparr>) (sd_shifts s)"
    "sd_next_shift t = sd_next_shift s"
    using assms(2) by (auto simp: handover_def)
qed simp

lemma call_keeps_shifts:
  assumes "shift_call tx now op s = Inr t" "shifts_inv s"
  shows "shifts_inv t"
  using assms(1)
proof (cases rule: call_cases)
  case quiet
  then show ?thesis using shifts_quiet [OF assms(2)] by (simp add: roster_only_def)
next
  case deleted
  then show ?thesis using assms(2) by (simp add: shifts_inv_def distinct_map_filter)
next
  case step
  then show ?thesis using assms(2) by (simp add: transfer_step_def shifts_inv_def)
next
  case accepted
  then show ?thesis using handover_shifts [OF assms(2)] by (auto simp: accepted_by_def)
next
  case reassigned
  then show ?thesis using handover_shifts [OF assms(2)] by (auto simp: reassigned_by_def)
next
  case removed
  then have "sd_next_shift t = sd_next_shift s"
    by (simp add: removal_def soft_delete_def Let_def)
  then show ?thesis using shifts_update [OF assms(2) removal_frame(6) [OF removed]] by simp
next
  case swept
  then show ?thesis using assms(2)
    by (auto simp: sweep_def process_expired_transfers_def cleanup_expired_data_def Let_def
        shifts_inv_def)
qed

subsection \<open>All steps\<close>

definition office_inv :: "runner_settings \<Rightarrow> staff_db \<Rightarrow> bool" where
  "office_inv cfg s \<longleftrightarrow> flow_inv cfg s \<and> transfers_inv s \<and> shifts_inv s"

lemma command_keeps_flow_inv:
  assumes run: "run_command_sync cfg wall now num prin command (flow s) = Inr (out, f)"
    and inv: "flow_inv cfg s"
  shows "flow_inv cfg (s\<lparr>sd_flow := f\<rparr>)"
proof -
  have wi: "wf_inv cfg (flow s)" using inv by (simp add: flow_inv_def)
  have "planned_ok (s\<lparr>sd_flow := f\<rparr>)"
    using inv command_keeps_executor [OF run wi]
    by (simp add: flow_inv_def planned_ok_def) metis
  then show ?thesis
    using inv run_keeps_inv [OF run wi] run_two_kinds [OF run] run_requests_dom [OF run wi]
    by (simp add: flow_inv_def)
qed

lemma create_keeps_flow_inv:
  assumes "unused_number cfg (sd_flow s) num" "fresh_request num r" "flow_inv cfg s"
  shows "flow_inv cfg (s\<lparr>sd_flow := store_request r (sd_flow s), sd_numbers := sd_numbers s @ [num]\<rparr>)"
proof -
  have num: "rq_number r = num" "db_requests (sd_flow s) num = None"
    using assms(1,2) by (simp_all add: fresh_request_def unused_number_def)
  have "planned_ok (s\<lparr>sd_flow := store_request r (sd_flow s), sd_numbers := sd_numbers s @ [num]\<rparr>)"
    using assms(3) num by (fastforce simp: flow_inv_def planned_ok_def)
  then show ?thesis
    using assms(3) num create_keeps_inv [OF _ assms(1,2)]
    by (simp add: flow_inv_def)
qed

lemma staff_keeps_flow_inv:
  assumes "staff_ids_ok us" "flow_inv cfg s"
  shows "flow_inv cfg (s\<lparr>sd_users := us, sd_flow := (sd_flow s)\<lparr>db_user_apartments := ua\<rparr>\<rparr>)"
proof -
  have "wf_inv cfg ((sd_flow s)\<lparr>db_user_apartments := ua\<rparr>) = wf_inv cfg (sd_flow s)"
    by (rule wf_inv_same) simp_all
  then show ?thesis using assms by (simp add: flow_inv_def planned_ok_def)
qed

definition office_later :: "staff_db \<Rightarrow> staff_db \<Rightarrow> bool" where
  "office_later s t \<longleftrightarrow> transfers_later s t"

interpretation office: evolving office_initial "office_step cfg tx" "office_inv cfg" office_later
  for cfg tx
proof unfold_locales
  show "office_initial s \<Longrightarrow> office_inv cfg s" for s
    by (auto simp: office_initial_def office_inv_def flow_inv_def transfers_inv_def shifts_inv_def
        planned_ok_def wf_initial_def wf_inv_def)
  show "office_inv cfg s \<Longrightarrow> office_step cfg tx s t \<Longrightarrow> office_inv cfg t" for s t
  proof (elim office_stepE, goal_cases)
    case (1 now op)
    then show ?case
      using call_keeps_flow_inv call_keeps_transfers call_keeps_shifts by (simp add: office_inv_def)
  next
    case 2
    then show ?case
      using command_keeps_flow_inv by (simp add: office_inv_def transfers_inv_def shifts_inv_def)
  next
    case 3
    then show ?case
      using create_keeps_flow_inv by (simp add: office_inv_def transfers_inv_def shifts_inv_def)
  next
    case 4
    then show ?case
      by (simp add: office_inv_def flow_inv_def planned_ok_def transfers_inv_def shifts_inv_def)
  next
    case 5
    then show ?case
      using staff_keeps_flow_inv by (simp add: office_inv_def transfers_inv_def shifts_inv_def)
  next
    case 6
    then show ?case
      by (simp add: office_inv_def flow_inv_def planned_ok_def transfers_inv_def shifts_inv_def
          roster_change_def list_all_iff)
  qed
  show "office_later s s" for s by (simp add: office_later_def transfers_later_refl)
  show "office_later s t \<Longrightarrow> office_later t u \<Longrightarrow> office_later s u" for s t u
    unfolding office_later_def by (rule transfers_later_trans)
  show "office_inv cfg s \<Longrightarrow> office_step cfg tx s t \<Longrightarrow> office_later s t" for s t
    by (elim office_stepE)
      (auto simp: office_inv_def office_later_def transfers_later_def transfer_rel_self
        dest: call_keeps_transfers)
qed

end
