(* ===== verification/ShiftBookings.thy ===== *)
theory ShiftBookings
  imports OfficeInvariants
begin

section \<open>Who holds a shift, and when\<close>

text \<open>
  Two facts about single calls.  A shift changes hands only by the acceptance of a transfer or by
  a manager's reassignment.  And no call books a member of staff twice, except the two that take
  no look at the other shifts: resuming a paused shift, and beginning a planned one early.
\<close>

subsection \<open>Shifts by id\<close>

lemma find_shift_unique:
  assumes "shifts_inv s"
  shows "find_shift s sid = Some x \<longleftrightarrow> x \<in> set (sd_shifts s) \<and> ws_id x = sid"
proof
  show "find_shift s sid = Some x \<Longrightarrow> x \<in> set (sd_shifts s) \<and> ws_id x = sid"
    by (auto simp: find_shift_def dest: first_row_Some)
  assume x: "x \<in> set (sd_shifts s) \<and> ws_id x = sid"
  then obtain y where y: "find_shift s sid = Some y"
    unfolding find_shift_def by (metis (mono_tags, lifting) first_row_None not_None_eq)
  then have "y \<in> set (sd_shifts s)" "ws_id y = sid"
    by (auto simp: find_shift_def dest: first_row_Some)
  then have "y = x" using assms x by (auto simp: shifts_inv_def distinct_map dest: inj_onD)
  then show "find_shift s sid = Some x" using y by simp
qed

lemma find_shift_upd:
  assumes "sd_shifts t = upd_where P f (sd_shifts s)" "\<And>x. P x \<Longrightarrow> ws_id (f x) = ws_id x"
  shows "find_shift t sid = map_option (\<lambda>x. if P x then f x else x) (find_shift s sid)"
  unfolding find_shift_def assms(1) by (rule first_row_upd_where) (use assms(2) in auto)

subsection \<open>The owner of a shift\<close>

lemma quiet_owner:
  assumes "roster_quiet s t" "find_shift s sid = Some x" "find_shift t sid = Some y"
  shows "sh_user_id y = sh_user_id x"
proof -
  consider (change) f i where "\<forall>x. ws_id (f x) = ws_id x \<and> sh_user_id (f x) = sh_user_id x"
      "sd_shifts t = upd_where (\<lambda>x. ws_id x = i) f (sd_shifts s)"
    | (add) z where "sd_shifts t = sd_shifts s @ [z]"
    using assms(1) unfolding roster_quiet_def by blast
  then show ?thesis
  proof cases
    case change
    then show ?thesis using find_shift_upd [of t _ f s sid] assms(2,3) by auto
  next
    case add
    then show ?thesis using assms(2,3) by (simp add: find_shift_def sql_simps)
  qed
qed

lemma handover_owner:
  assumes "handover s i e t" "find_shift s sid = Some x" "find_shift t sid = Some y"
  shows "sh_user_id y = (if sid = i then Some e else sh_user_id x)"
proof -
  have "sd_shifts t = upd_where (\<lambda>x. ws_id x = i) (\<lambda>x. x\<lparr>sh_user_id := Some e\<rparr>) (sd_shifts s)"
    using assms(1) by (auto simp: handover_def)
  from find_shift_upd [OF this, of sid] have "y = (if ws_id x = i then x\<lparr>sh_user_id := Some e\<rparr> else x)"
    using assms(2,3) by simp
  moreover have "ws_id x = sid" using assms(2) by (auto simp: find_shift_def dest: first_row_Some)
  ultimately show ?thesis by simp
qed

lemma owner_change:
  assumes "shift_call tx now op s = Inr t" "shifts_inv s"
    and "find_shift s sid = Some x" "find_shift t sid = Some y" "sh_user_id y \<noteq> sh_user_id x"
  obtains (accepted) i e where "op = AcceptTransfer i e \<or> op = AcceptTransferWeb i e"
      "accepted_by now i e s t" "handover s sid e t" "sh_user_id y = Some e"
      "\<exists>r. find_transfer s i = Some r \<and> tf_shift r = sid"
  | (reassigned) e where "(\<exists>tg. op = ManagerReassign sid e tg) \<or> (\<exists>m. op = ReassignWeb m sid e)"
      "handover s sid e t" "sh_user_id y = Some e"
  using assms(1)
proof (cases rule: call_cases)
  case quiet
  then show thesis using quiet_owner [OF _ assms(3,4)] assms(5) by (simp add: roster_only_def)
next
  case (deleted m i)
  have "y \<in> set (sd_shifts t)" "ws_id y = sid"
    using assms(4) by (auto simp: find_shift_def dest: first_row_Some)
  then have "find_shift s sid = Some y"
    unfolding find_shift_unique [OF assms(2)] by (simp add: deleted(2))
  then show thesis using assms(3,5) by simp
next
  case step
  then show thesis using assms(3-5) by (auto simp: transfer_step_def find_shift_def)
next
  case (accepted i e)
  then obtain r where r: "find_transfer s i = Some r" "handover s (tf_shift r) e t"
    by (auto simp: accepted_by_def)
  note o = handover_owner [OF r(2) assms(3,4)]
  then have "sid = tf_shift r" "sh_user_id y = Some e" using assms(5) by (auto split: if_splits)
  then show thesis using that(1) accepted r by blast
next
  case (reassigned i e manager)
  then have h: "handover s i e t" by (simp add: reassigned_by_def)
  note o = handover_owner [OF h assms(3,4)]
  then have "sid = i" "sh_user_id y = Some e" using assms(5) by (auto split: if_splits)
  then show thesis using that(2) reassigned(1) h by blast
next
  case (removed u target)
  have "sh_user_id y = sh_user_id x"
    using find_shift_upd [OF removal_frame(6) [OF removed], of sid] assms(3,4) by auto
  then show thesis using assms(5) by simp
next
  case swept
  then have "sd_shifts t = sd_shifts s"
    by (auto simp: sweep_def process_expired_transfers_def cleanup_expired_data_def Let_def)
  then show thesis using assms(3-5) by (simp add: find_shift_def)
qed

subsection \<open>Double bookings\<close>

definition clash :: "work_shift \<Rightarrow> work_shift \<Rightarrow> bool" where
  "clash x y \<longleftrightarrow>
     booked_status (sh_status x) \<and> (case sh_user_id x of None \<Rightarrow> False | Some e \<Rightarrow> meets e x y)"

definition double_booked :: "staff_db \<Rightarrow> bool" where
  "double_booked s \<longleftrightarrow> (\<exists>x\<in>set (sd_shifts s). \<exists>y\<in>set (sd_shifts s). clash x y)"

lemma clash_sym: "clash x y \<Longrightarrow> clash y x"
  by (auto simp: clash_def meets_def split: option.splits)

lemma clash_ids: "clash x y \<Longrightarrow> ws_id x \<noteq> ws_id y"
  by (auto simp: clash_def meets_def split: option.splits)

lemma write_keeps_bookings:
  assumes "\<not> double_booked s" "sd_shifts t = upd_where P f (sd_shifts s)"
    and "\<And>x. ws_id (f x) = ws_id x" "\<And>x x'. P x \<Longrightarrow> P x' \<Longrightarrow> x \<in> set (sd_shifts s) \<Longrightarrow>
      x' \<in> set (sd_shifts s) \<Longrightarrow> \<not> clash (f x) (f x')"
    and "\<And>x y. x \<in> set (sd_shifts s) \<Longrightarrow> y \<in> set (sd_shifts s) \<Longrightarrow> P x \<Longrightarrow> \<not> P y \<Longrightarrow> \<not> clash (f x) y"
  shows "\<not> double_booked t"
proof
  assume "double_booked t"
  then obtain a b where ab: "a \<in> set (sd_shifts t)" "b \<in> set (sd_shifts t)" "clash a b"
    by (auto simp: double_booked_def)
  obtain x where x: "x \<in> set (sd_shifts s)" "a = (if P x then f x else x)"
    using ab(1) unfolding assms(2) upd_where_def set_map by blast
  obtain y where y: "y \<in> set (sd_shifts s)" "b = (if P y then f y else y)"
    using ab(2) unfolding assms(2) upd_where_def set_map by blast
  have "\<not> clash x y" using assms(1) x(1) y(1) by (auto simp: double_booked_def)
  moreover have "\<not> clash a b" if "P x \<or> P y"
    using that x y assms(4) [of x y] assms(5) [of x y] assms(5) [of y x] clash_sym [of a b]
    by (cases "P x"; cases "P y") auto
  ultimately show False using ab(3) x(2) y(2) by (cases "P x \<or> P y") simp_all
qed

text \<open>One shift is written.\<close>

lemma write_one_keeps_bookings:
  assumes "\<not> double_booked s" "sd_shifts t = upd_where (\<lambda>x. ws_id x = sid) f (sd_shifts s)"
    and "\<And>x. ws_id (f x) = ws_id x" "shifts_inv s" "find_shift s sid = Some x"
    and "\<And>y. y \<in> set (sd_shifts s) \<Longrightarrow> clash (f x) y \<Longrightarrow> \<exists>z\<in>set (sd_shifts s). clash x z"
  shows "\<not> double_booked t"
proof (rule write_keeps_bookings [OF assms(1-3)])
  show "\<not> clash (f a) (f b)" if "ws_id a = sid" "ws_id b = sid" for a b
    using clash_ids [of "f a" "f b"] that assms(3) by auto
  fix a y
  assume a: "a \<in> set (sd_shifts s)" "ws_id a = sid" and y: "y \<in> set (sd_shifts s)"
  have "a = x" using a assms(5) find_shift_unique [OF assms(4), of sid a] by simp
  then show "\<not> clash (f a) y" using assms(1,6) y a(1) by (auto simp: double_booked_def)
qed

lemma close_keeps_bookings:
  assumes "\<not> double_booked s" "sd_shifts t = upd_where P f (sd_shifts s)"
    and "\<And>x. ws_id (f x) = ws_id x" "\<And>x. sh_status (f x) = ''completed''"
  shows "\<not> double_booked t"
  by (rule write_keeps_bookings [OF assms(1-3)]) (simp_all add: clash_def booked_status_def assms(4))

lemma add_keeps_bookings:
  assumes "\<not> double_booked s" "sd_shifts t = sd_shifts s @ [z]"
    and "\<And>y. y \<in> set (sd_shifts s) \<Longrightarrow> \<not> clash z y"
  shows "\<not> double_booked t"
proof -
  have "\<not> clash y z" if "y \<in> set (sd_shifts s)" for y
    using assms(3) [OF that] clash_sym by blast
  moreover have "\<not> clash z z" using clash_ids by blast
  ultimately show ?thesis using assms by (auto simp: double_booked_def)
qed

lemma handover_keeps_bookings:
  assumes "\<not> double_booked s" "handover s sid e t" "shifts_inv s"
  shows "\<not> double_booked t"
proof -
  obtain x where x: "find_shift s sid = Some x" "\<And>y. y \<in> set (sd_shifts s) \<Longrightarrow> \<not> meets e x y"
    and t: "sd_shifts t = upd_where (\<lambda>x. ws_id x = sid) (\<lambda>x. x\<lparr>sh_user_id := Some e\<rparr>) (sd_shifts s)"
    using assms(2) by (auto simp: handover_def)
  have "\<not> clash (x\<lparr>sh_user_id := Some e\<rparr>) y" if "y \<in> set (sd_shifts s)" for y
    using x(2) [OF that] by (auto simp: clash_def meets_def split: option.splits)
  then show ?thesis by (intro write_one_keeps_bookings [OF assms(1) t _ assms(3) x(1)]) auto
qed

text \<open>The two calls that look at no other shift.\<close>

fun risky :: "instant \<Rightarrow> shift_op \<Rightarrow> staff_db \<Rightarrow> bool" where
  "risky now (WebPatch m sid p) s =
     (pc_status p = Given ''active'' \<and> \<not> is_set (pc_start p) \<and> \<not> is_set (pc_end p) \<and>
      (case find_shift s sid of None \<Rightarrow> False | Some x \<Rightarrow> sh_status x = ''paused''))"
| "risky now (BeginPlanned u sid) s =
     (case find_shift s sid of None \<Rightarrow> False | Some x \<Rightarrow> now < sh_start x)"
| "risky now _ s = False"

lemma patched_clash:
  assumes x: "find_shift s sid = Some x" "shifts_inv s" and y: "y \<in> set (sd_shifts s)"
    and status: "given_ok (\<lambda>t. t \<in> set (next_statuses (sh_status x))) (pc_status p)"
    and window: "check_window s x p = None" and ok: "\<not> patch_violates p"
    and calm: "\<not> (pc_status p = Given ''active'' \<and> \<not> is_set (pc_start p) \<and> \<not> is_set (pc_end p) \<and>
      sh_status x = ''paused'')"
    and clash: "clash (apply_shift_update p x) y"
  shows "clash x y"
proof -
  let ?f = "apply_shift_update p x"
  obtain e a where e: "sh_user_id x = Some e" and a: "sh_end ?f = Some a"
    and m: "meets e ?f y" and b: "booked_status (sh_status ?f)"
    using clash by (auto simp: clash_def meets_def split: option.splits)
  have start: "sh_start ?f = set_required (pc_start p) (sh_start x)" "\<not> is_null (pc_start p)"
    using ok by (simp_all add: apply_shift_update_def Let_def patch_violates_def)
  have win: "patch_window p x = Some (sh_start ?f, a)"
    using start a
    by (cases "pc_start p") (simp_all add: patch_window_def apply_shift_update_def Let_def)
  show ?thesis
  proof (cases "is_set (pc_start p) \<or> is_set (pc_end p)")
    case True
    then have "find_overlapping_shift s e (sh_start ?f) a (Some (ws_id x)) = None"
      using window win e by (auto simp: check_window_def split: if_splits)
    then have False using m y a
      by (auto simp: find_overlapping_shift_def first_row_None overlaps_window_def meets_def
          split: option.splits)
    then show ?thesis ..
  next
    case False
    then have same: "sh_start ?f = sh_start x" "sh_end ?f = sh_end x"
      by (cases "pc_start p"; cases "pc_end p"; simp add: apply_shift_update_def Let_def)+
    have "booked_status (sh_status x)"
    proof (cases "pc_status p")
      case (Given st)
      then show ?thesis using status b calm False
        by (auto simp: booked_status_def next_statuses_def apply_shift_update_def Let_def
            split: if_splits)
    qed (use b ok in \<open>simp_all add: apply_shift_update_def Let_def patch_violates_def\<close>)
    moreover have "meets e x y" using m same by (auto simp: meets_def split: option.splits)
    ultimately show ?thesis using e by (simp add: clash_def)
  qed
qed

lemma patch_keeps_bookings:
  assumes "web_patch m sid p s = Inr t" "\<not> risky now (WebPatch m sid p) s"
    and "\<not> double_booked s" "shifts_inv s"
  shows "\<not> double_booked t"
proof -
  obtain x where x: "find_shift s sid = Some x"
    and p: "given_ok (\<lambda>t. t \<in> set (next_statuses (sh_status x))) (pc_status p)"
      "check_window s x p = None" "\<not> patch_violates p"
    and t: "t = write_shift sid (apply_shift_update p) s"
    using assms(1) by (auto simp: web_patch_def res_bind_Inr_iff split: option.splits if_splits)
  have calm: "\<not> (pc_status p = Given ''active'' \<and> \<not> is_set (pc_start p) \<and> \<not> is_set (pc_end p) \<and>
      sh_status x = ''paused'')"
    using assms(2) x by simp
  show ?thesis
  proof (rule write_one_keeps_bookings [OF assms(3) _ _ assms(4) x])
    show "sd_shifts t = upd_where (\<lambda>x. ws_id x = sid) (apply_shift_update p) (sd_shifts s)"
      by (simp add: t)
    show "\<exists>z\<in>set (sd_shifts s). clash x z"
      if "y \<in> set (sd_shifts s)" "clash (apply_shift_update p x) y" for y
      using patched_clash [OF x assms(4) that(1) p calm that(2)] that(1) by blast
  qed simp
qed

lemma begin_keeps_bookings:
  assumes "begin_planned now u sid s = Inr t" "\<not> risky now (BeginPlanned u sid) s"
    and "\<not> double_booked s" "shifts_inv s"
  shows "\<not> double_booked t"
proof -
  let ?f = "\<lambda>x::work_shift. x\<lparr>sh_status := ''active'', sh_start := now\<rparr>"
  obtain x where o: "own_shift s sid u ''planned'' = Some x" and t: "t = write_shift sid ?f s"
    using assms(1) by (auto simp: begin_planned_def split: option.splits)
  have xs: "x \<in> set (sd_shifts s)" "ws_id x = sid" "sh_user_id x = Some u" "sh_status x = ''planned''"
    using first_row_Some [OF o [unfolded own_shift_def]] by auto
  then have x: "find_shift s sid = Some x" using find_shift_unique [OF assms(4)] by simp
  have late: "sh_start x \<le> now" using assms(2) x by simp
  show ?thesis
  proof (rule write_one_keeps_bookings [OF assms(3) _ _ assms(4) x])
    show "sd_shifts t = upd_where (\<lambda>x. ws_id x = sid) ?f (sd_shifts s)" by (simp add: t)
    show "\<exists>z\<in>set (sd_shifts s). clash x z" if "y \<in> set (sd_shifts s)" "clash (?f x) y" for y
    proof -
      have "clash x y" using that(2) xs(3,4) late
        by (auto simp: clash_def meets_def booked_status_def split: option.splits)
      then show ?thesis using that(1) by blast
    qed
  qed simp
qed

lemma create_keeps_bookings:
  assumes "web_create m b s = Inr t" "\<not> double_booked s"
  shows "\<not> double_booked t"
proof -
  have none: "find_overlapping_shift s (bo_user b) (bo_start b) (bo_end b) None = None"
    and t: "t = add_shift (body_shift b) s"
    using assms(1) by (auto simp: web_create_def res_bind_Inr_iff split: option.splits if_splits)
  have "\<not> clash ((body_shift b)\<lparr>ws_id := n\<rparr>) y" if "y \<in> set (sd_shifts s)" for n y
    using none that
    by (fastforce simp: clash_def meets_def body_shift_def find_overlapping_shift_def
        overlaps_window_def first_row_None split: option.splits)
  then show ?thesis by (intro add_keeps_bookings [OF assms(2)]) (simp_all add: t)
qed

lemma start_no_clash: "\<not> clash ((new_shift u now nt)\<lparr>ws_id := n\<rparr>) y"
  by (auto simp: clash_def meets_def new_shift_def split: option.splits)

lemma closed_status [simp]:
  "sh_status (close_shift now x) = ''completed''" "sh_status (close_with_notes now n x) = ''completed''"
  by (simp_all add: close_shift_def close_with_notes_def)

text \<open>The other quiet calls add an open-ended shift or close one.\<close>

definition starts_or_closes :: "instant \<Rightarrow> staff_db \<Rightarrow> staff_db \<Rightarrow> bool" where
  "starts_or_closes now s t \<longleftrightarrow>
     (\<exists>z u nt. sd_shifts t = sd_shifts s @ [(new_shift u now nt)\<lparr>ws_id := z\<rparr>]) \<or>
     (\<exists>P nt. sd_shifts t = upd_where P (close_shift now) (sd_shifts s) \<or>
             sd_shifts t = upd_where P (close_with_notes now nt) (sd_shifts s))"

lemma startsI: "sd_shifts t = sd_shifts s @ [(new_shift u now nt)\<lparr>ws_id := z\<rparr>] \<Longrightarrow> starts_or_closes now s t"
  and closesI: "sd_shifts t = upd_where P (close_shift now) (sd_shifts s) \<Longrightarrow> starts_or_closes now s t"
  and closes_notesI:
    "sd_shifts t = upd_where P (close_with_notes now nt) (sd_shifts s) \<Longrightarrow> starts_or_closes now s t"
  unfolding starts_or_closes_def by blast+

lemma start_calls:
  "start_shift now tg nt s = Inr t \<Longrightarrow> starts_or_closes now s t"
  "web_start now u nt s = Inr t \<Longrightarrow> starts_or_closes now s t"
proof -
  assume run: "start_shift now tg nt s = Inr t"
  then obtain v where v: "staff_by_telegram s tg = Some v"
    by (auto simp: start_shift_def split: option.splits)
  have "t = log_shift (us_id v) (Some tg) ''shift_started'' (sd_next_shift s) (Noted nt)
      (add_shift (new_shift (us_id v) now nt) s)"
    using run v by (auto simp: start_shift_def split: if_splits)
  then show "starts_or_closes now s t"
    using startsI [where u = "us_id v" and nt = nt and z = "sd_next_shift s"] by simp
next
  assume "web_start now u nt s = Inr t"
  then have "t = add_shift (new_shift u now nt) s" by (auto simp: web_start_def res_bind_Inr_iff)
  then show "starts_or_closes now s t" using startsI [where u = u and nt = nt and z = "sd_next_shift s"] by simp
qed

lemma close_calls:
  "finish_own now u sid s = Inr t \<Longrightarrow> starts_or_closes now s t"
  "end_shift_by_id now tg sid s = Inr t \<Longrightarrow> starts_or_closes now s t"
  "web_end_own now u sid s = Inr t \<Longrightarrow> starts_or_closes now s t"
  "web_end now m sid s = Inr t \<Longrightarrow> starts_or_closes now s t"
  by (rule closesI [where P = "\<lambda>x. ws_id x = sid"]; auto simp: finish_own_def end_shift_by_id_def
      web_end_own_def web_end_def res_bind_Inr_iff split: option.splits if_splits)+

lemma notes_calls:
  "end_shift now tg nt s = Inr t \<Longrightarrow> starts_or_closes now s t"
  "force_end_shift now m tg nt s = Inr t \<Longrightarrow> starts_or_closes now s t"
  by (auto simp: end_shift_def force_end_shift_def intro!: closes_notesI
      split: option.splits if_splits)

lemma starts_or_closes_keeps_bookings:
  assumes "starts_or_closes now s t" "\<not> double_booked s"
  shows "\<not> double_booked t"
proof -
  consider (starts) z u nt where "sd_shifts t = sd_shifts s @ [(new_shift u now nt)\<lparr>ws_id := z\<rparr>]"
    | (closes) P where "sd_shifts t = upd_where P (close_shift now) (sd_shifts s)"
    | (closes_notes) P nt where "sd_shifts t = upd_where P (close_with_notes now nt) (sd_shifts s)"
    using assms(1) unfolding starts_or_closes_def by blast
  then show ?thesis
  proof cases
    case starts
    then show ?thesis by (rule add_keeps_bookings [OF assms(2) _ start_no_clash])
  next
    case closes
    then show ?thesis by (rule close_keeps_bookings [OF assms(2)]) simp_all
  next
    case closes_notes
    then show ?thesis by (rule close_keeps_bookings [OF assms(2)]) simp_all
  qed
qed

lemma quiet_keeps_bookings:
  assumes call: "shift_call tx now op s = Inr t" and op: "quiet_op op" "\<not> risky now op s"
    and free: "\<not> double_booked s" and ids: "shifts_inv s"
  shows "\<not> double_booked t"
proof -
  note calm = starts_or_closes_keeps_bookings [OF _ free, of now t]
  show ?thesis
  proof (cases op)
    case (BeginPlanned u sid)
    then show ?thesis using begin_keeps_bookings call op(2) free ids by simp
  next
    case (WebPatch m sid p)
    then show ?thesis using patch_keeps_bookings call op(2) free ids by simp
  next
    case (WebCreate m b)
    then show ?thesis using create_keeps_bookings call free by simp
  next
    case (StartShift tg nt)
    then show ?thesis using calm start_calls(1) call by simp
  next
    case (WebStart u nt)
    then show ?thesis using calm start_calls(2) call by simp
  next
    case (FinishOwn u sid)
    then show ?thesis using calm close_calls(1) call by simp
  next
    case (EndShiftById tg sid)
    then show ?thesis using calm close_calls(2) call by simp
  next
    case (WebEndOwn u sid)
    then show ?thesis using calm close_calls(3) call by simp
  next
    case (WebEnd m sid)
    then show ?thesis using calm close_calls(4) call by simp
  next
    case (EndShift tg nt)
    then show ?thesis using calm notes_calls(1) call by simp
  next
    case (ForceEndShift m tg nt)
    then show ?thesis using calm notes_calls(2) call by simp
  qed (use op(1) in simp_all)
qed

lemma call_keeps_bookings:
  assumes "shift_call tx now op s = Inr t" "\<not> risky now op s" "\<not> double_booked s" "shifts_inv s"
  shows "\<not> double_booked t"
  using assms(1)
proof (cases rule: call_cases)
  case quiet
  then show ?thesis using quiet_keeps_bookings assms by blast
next
  case deleted
  then show ?thesis using assms(3) by (auto simp: double_booked_def)
next
  case step
  then show ?thesis using assms(3) by (simp add: transfer_step_def double_booked_def)
next
  case accepted
  then show ?thesis using handover_keeps_bookings [OF assms(3) _ assms(4)]
    by (auto simp: accepted_by_def)
next
  case reassigned
  then show ?thesis using handover_keeps_bookings [OF assms(3) _ assms(4)]
    by (auto simp: reassigned_by_def)
next
  case (removed u target)
  show ?thesis by (rule close_keeps_bookings [OF assms(3) removal_frame(6) [OF removed]]) simp_all
next
  case swept
  then show ?thesis using assms(3)
    by (auto simp: sweep_def process_expired_transfers_def cleanup_expired_data_def Let_def
        double_booked_def)
qed

end
