(* ===== verification/WorkflowExamples.thy ===== *)
theory WorkflowExamples
  imports WorkflowProps
begin

section \<open>A concrete workflow database\<close>

text \<open>
  A small database on which the witnesses of the workflow properties run: an applicant (1), a
  manager (2), two plumbers on shift (3 and 4) and the seeded system user (9).
\<close>

definition ex_cfg :: runner_settings where
  "ex_cfg = \<lparr>rn_outbox = \<lparr>os_source = ''uk'', os_enabled = True\<rparr>, rn_system_telegram_id = 900\<rparr>"

definition ex_user :: "user_id \<Rightarrow> string \<Rightarrow> string option \<Rightarrow> user_row" where
  "ex_user i roles sp =
     \<lparr>us_id = i, us_telegram_id = 100 * i, us_roles = Some roles, us_active_role = None,
      us_specialization = role_column sp\<rparr>"

definition ex_users :: "user_row list" where
  "ex_users =
     [ex_user 1 ''applicant'' None, ex_user 2 ''manager'' None,
      ex_user 3 ''executor'' (Some ''plumber''), ex_user 4 ''executor'' (Some ''plumber''),
      ex_user 9 ''system'' None]"

definition ex_shifts :: "shift_row list" where
  "ex_shifts =
     [\<lparr>sh_user_id = Some 3, sh_status = ''active'', sh_start = 0, sh_end = None\<rparr>,
      \<lparr>sh_user_id = Some 4, sh_status = ''active'', sh_start = 0, sh_end = None\<rparr>]"

definition ex_number :: string where
  "ex_number = ''250101-001''"

definition ex_cols :: "field \<Rightarrow> pyval" where
  "ex_cols f =
     (if f = F_status then VStatus St_New
      else if f = F_is_returned \<or> f = F_manager_confirmed then VBool False else VNone)"

definition ex_row :: "string \<Rightarrow> request_row" where
  "ex_row mode =
     \<lparr>rq_number = ex_number, rq_user_id = 1, rq_apartment_id = Some 7,
      rq_acceptance_mode = Some mode, rq_status_version = Some 0, rq_cols = ex_cols\<rparr>"

definition ex_empty :: wf_db where
  "ex_empty =
     \<lparr>db_requests = Map.empty, db_assignments = [], db_ratings = [], db_users = ex_users,
      db_user_apartments = [], db_shifts = ex_shifts, db_audit = [], db_outbox = []\<rparr>"

definition ex_db :: "string \<Rightarrow> wf_db" where
  "ex_db mode = store_request (ex_row mode) ex_empty"

definition ex_principal :: "user_id \<Rightarrow> principal_ref" where
  "ex_principal i = \<lparr>pr_kind = User, pr_user_id = Some i, pr_source = ''api'', pr_system_actor = None\<rparr>"

definition ex_system :: "string \<Rightarrow> principal_ref" where
  "ex_system name =
     \<lparr>pr_kind = System, pr_user_id = None, pr_source = ''dispatcher'', pr_system_actor = Some name\<rparr>"

definition ex_command :: "action \<Rightarrow> payload \<Rightarrow> command" where
  "ex_command a p = Explicit \<lparr>cmd_id = ''c'', cmd_action = a, cmd_payload = p\<rparr>"

definition ex_do :: "principal_ref \<Rightarrow> command \<Rightarrow> wf_db \<Rightarrow> wf_db" where
  "ex_do prin command db = after_command ex_cfg 50 60 ex_number prin command db"

definition ex_ok :: "principal_ref \<Rightarrow> command \<Rightarrow> wf_db \<Rightarrow> bool" where
  "ex_ok prin command db =
     (case run_command_sync ex_cfg 50 60 ex_number prin command db of Inl e \<Rightarrow> False | Inr r \<Rightarrow> True)"

definition ex_status :: "wf_db \<Rightarrow> status option" where
  "ex_status db = map_option row_status (db_requests db ex_number)"

lemma ex_reach_initial: "reach wf_initial (wf_step ex_cfg) ex_empty"
  by (rule reach_init) (simp add: wf_initial_def ex_empty_def)

lemma ex_row_fresh: "fresh_request ex_number (ex_row mode)"
  by (simp add: fresh_request_def ex_row_def ex_cols_def row_status_def row_typed_def
      all_fields_def int32_val_def text_val_def bool_val_def time_val_def short_text_val_def)

lemma ex_reach_db: "reach wf_initial (wf_step ex_cfg) (ex_db mode)"
  unfolding ex_db_def
proof (rule reach_step [OF ex_reach_initial], rule wf_create)
  show "unused_number ex_cfg ex_empty ex_number"
    by (simp add: unused_number_def ex_empty_def req_assignments_def req_ratings_def)
  show "fresh_request ex_number (ex_row mode)" by (rule ex_row_fresh)
qed

lemma ex_runs:
  "ex_ok prin command db \<Longrightarrow>
   \<exists>out. run_command_sync ex_cfg 50 60 ex_number prin command db = Inr (out, ex_do prin command db)"
  by (auto simp: ex_ok_def ex_do_def after_command_def split: sum.splits)

lemma ex_reach_do:
  assumes "reach wf_initial (wf_step ex_cfg) db" "ex_ok prin command db"
  shows "reach wf_initial (wf_step ex_cfg) (ex_do prin command db)"
  using reach_step [OF assms(1)] ex_runs [OF assms(2)] wf_command by blast

lemma ex_reach_inv: "reach wf_initial (wf_step ex_cfg) db \<Longrightarrow> wf_inv ex_cfg db"
  by (rule workflow.inv_reach)

definition ex_assign :: command where
  "ex_assign = ex_command MANAGER_ASSIGN [(''executor_id'', VInt 3)]"

definition ex_assigned :: wf_db where
  "ex_assigned = ex_do (ex_principal 2) ex_assign (ex_db ''resident'')"

lemma ex_assigned_ok: "ex_ok (ex_principal 2) ex_assign (ex_db ''resident'')"
  by code_simp

lemma ex_assigned_status: "ex_status ex_assigned = Some St_InProgress"
  by code_simp

end
