(* ===== verification/ShiftExamples.thy ===== *)
theory ShiftExamples
  imports ShiftBookings WorkflowExamples
begin

section \<open>A concrete office\<close>

text \<open>
  A manager (2) and three plumbers (3, 4, 5).  The manager opens a shift for 3, a request is
  assigned to 3 and planned into the shift, 3 asks to hand the shift over, the manager names 4 and
  4 accepts: \<open>ex_office_done\<close>.  The witnesses run on these databases.  The last part evaluates
  the cases in which the code does something its authors did not mean.
\<close>

definition ex_staff :: "user_id \<Rightarrow> string list \<Rightarrow> string option \<Rightarrow> staff_row" where
  "ex_staff i roles sp =
     \<lparr>us_id = i, us_telegram_id = 100 * i, us_roles = Some (json_dumps_strs roles),
      us_active_role = None, us_specialization = role_column sp, st_status = ''approved'',
      st_deleted = False\<rparr>"

definition ex_staff_list :: "staff_row list" where
  "ex_staff_list =
     [ex_staff 1 [''applicant''] None, ex_staff 2 [''manager''] None,
      ex_staff 3 [''executor''] (Some ''plumber''), ex_staff 4 [''executor''] (Some ''plumber''),
      ex_staff 5 [''executor''] (Some ''plumber''), ex_staff 9 [''system''] None]"

definition ex_texts :: shift_texts where
  "ex_texts = \<lparr>tx_stamp = (\<lambda>t. ''stamp''), tx_expiry = (\<lambda>t h. '' expired'')\<rparr>"

definition ex_office :: staff_db where
  "ex_office =
     \<lparr>sd_users = ex_staff_list, sd_shifts = [], sd_planned = [], sd_transfers = [], sd_audit = [],
      sd_next_shift = 1, sd_next_transfer = 1, sd_numbers = [], sd_flow = ex_empty\<rparr>"

definition ex_shift_do :: "instant \<Rightarrow> shift_op \<Rightarrow> staff_db \<Rightarrow> staff_db" where
  "ex_shift_do now op s = (case shift_call ex_texts now op s of Inl e \<Rightarrow> s | Inr t \<Rightarrow> t)"

definition ex_shift_ok :: "instant \<Rightarrow> shift_op \<Rightarrow> staff_db \<Rightarrow> bool" where
  "ex_shift_ok now op s = (case shift_call ex_texts now op s of Inl e \<Rightarrow> False | Inr t \<Rightarrow> True)"

definition ex_body :: "user_id \<Rightarrow> instant \<Rightarrow> instant \<Rightarrow> shift_body" where
  "ex_body u t0 t1 =
     \<lparr>bo_user = u, bo_start = t0, bo_end = t1, bo_type = ''regular'', bo_focus = [''plumber''],
      bo_max_requests = 10, bo_priority = 1, bo_notes = None\<rparr>"

definition ex_office_shift :: staff_db where
  "ex_office_shift = ex_shift_do 10 (WebCreate 2 (ex_body 3 100 200)) ex_office"

definition ex_office_request :: staff_db where
  "ex_office_request =
     ex_office_shift\<lparr>sd_flow := store_request (ex_row ''resident'') (sd_flow ex_office_shift),
                     sd_numbers := sd_numbers ex_office_shift @ [ex_number]\<rparr>"

definition ex_office_assigned :: staff_db where
  "ex_office_assigned =
     ex_office_request\<lparr>sd_flow := ex_do (ex_principal 2) ex_assign (flow ex_office_request)\<rparr>"

definition ex_office_planned :: staff_db where
  "ex_office_planned =
     ex_office_assigned\<lparr>sd_planned := sd_planned ex_office_assigned @
       [\<lparr>pq_shift = 1, pq_number = ex_number, pq_status = ''assigned''\<rparr>]\<rparr>"

definition ex_office_asked :: staff_db where
  "ex_office_asked = ex_shift_do 70 (CreateTransfer 1 3 ''illness'' None ''high'') ex_office_planned"

definition ex_office_named :: staff_db where
  "ex_office_named = ex_shift_do 80 (AssignTransfer 1 4 (Some 2)) ex_office_asked"

definition ex_office_done :: staff_db where
  "ex_office_done = ex_shift_do 90 (AcceptTransfer 1 4) ex_office_named"

lemma ex_shift_runs:
  "ex_shift_ok now op s \<Longrightarrow> shift_call ex_texts now op s = Inr (ex_shift_do now op s)"
  by (auto simp: ex_shift_ok_def ex_shift_do_def split: sum.splits)

abbreviation ex_office_reach :: "staff_db \<Rightarrow> bool" where
  "ex_office_reach \<equiv> reach office_initial (office_step ex_cfg ex_texts)"

lemma ex_office_reach_call: "ex_office_reach s \<Longrightarrow> ex_shift_ok now op s \<Longrightarrow> ex_office_reach (ex_shift_do now op s)"
  using reach_step office_call ex_shift_runs by metis

lemma ex_office_reach_office: "ex_office_reach ex_office"
proof (rule reach_init)
  have "staff_ids_ok ex_staff_list" by code_simp
  then show "office_initial ex_office"
    by (simp add: office_initial_def ex_office_def ex_empty_def wf_initial_def)
qed

lemma ex_shift_oks:
  "ex_shift_ok 10 (WebCreate 2 (ex_body 3 100 200)) ex_office"
  "ex_ok (ex_principal 2) ex_assign (flow ex_office_request)"
  "ex_shift_ok 70 (CreateTransfer 1 3 ''illness'' None ''high'') ex_office_planned"
  "ex_shift_ok 80 (AssignTransfer 1 4 (Some 2)) ex_office_asked"
  "ex_shift_ok 90 (AcceptTransfer 1 4) ex_office_named"
  by code_simp+

lemma ex_office_reach_shift: "ex_office_reach ex_office_shift"
  unfolding ex_office_shift_def by (rule ex_office_reach_call [OF ex_office_reach_office ex_shift_oks(1)])

lemma ex_office_reach_request: "ex_office_reach ex_office_request"
  unfolding ex_office_request_def
proof (rule reach_step [OF ex_office_reach_shift], rule office_create)
  have "sd_flow ex_office_shift = ex_empty"
    by (simp add: ex_office_shift_def ex_shift_do_def ex_office_def web_create_def res_bind_def
        split: sum.splits option.splits)
  then show "unused_number ex_cfg (sd_flow ex_office_shift) ex_number"
    by (simp add: unused_number_def ex_empty_def req_assignments_def req_ratings_def)
  show "fresh_request ex_number (ex_row ''resident'')" by (rule ex_row_fresh)
qed

lemma ex_office_reach_assigned: "ex_office_reach ex_office_assigned"
  unfolding ex_office_assigned_def
  using reach_step [OF ex_office_reach_request] office_command ex_runs [OF ex_shift_oks(2)] by blast

definition ex_state_of :: "staff_db \<Rightarrow> (status \<times> user_id option) option" where
  "ex_state_of s =
     map_option (\<lambda>r. (row_status r, row_executor r)) (db_requests (sd_flow s) ex_number)"

lemma ex_state_of_assigned: "ex_state_of ex_office_assigned = Some (St_InProgress, Some 3)"
  by code_simp

lemma ex_office_reach_planned: "ex_office_reach ex_office_planned"
  unfolding ex_office_planned_def
proof (rule reach_step [OF ex_office_reach_assigned])
  obtain r where "db_requests (sd_flow ex_office_assigned) ex_number = Some r"
    "row_status r = St_InProgress" "row_executor r = Some 3"
    using ex_state_of_assigned by (auto simp: ex_state_of_def)
  then show "office_step ex_cfg ex_texts ex_office_assigned
      (ex_office_assigned\<lparr>sd_planned := sd_planned ex_office_assigned @
         [\<lparr>pq_shift = 1, pq_number = ex_number, pq_status = ''assigned''\<rparr>]\<rparr>)"
    by (intro office_plan [where r = r]) simp_all
qed

lemma ex_office_reach_asked: "ex_office_reach ex_office_asked"
  unfolding ex_office_asked_def by (rule ex_office_reach_call [OF ex_office_reach_planned ex_shift_oks(3)])

lemma ex_office_reach_named: "ex_office_reach ex_office_named"
  unfolding ex_office_named_def by (rule ex_office_reach_call [OF ex_office_reach_asked ex_shift_oks(4)])

lemma ex_office_reach_done: "ex_office_reach ex_office_done"
  unfolding ex_office_done_def by (rule ex_office_reach_call [OF ex_office_reach_named ex_shift_oks(5)])

lemma ex_accept_call:
  "shift_call ex_texts 90 (AcceptTransfer 1 4) ex_office_named = Inr ex_office_done"
  unfolding ex_office_done_def by (rule ex_shift_runs [OF ex_shift_oks(5)])

lemma ex_state_of_done: "ex_state_of ex_office_done = Some (St_InProgress, Some 4)"
  by code_simp

subsection \<open>Where the code departs from its intent\<close>

definition refusal_of :: "shift_error + 'a \<Rightarrow> shift_error option" where
  "refusal_of r = (case r of Inl e \<Rightarrow> Some e | Inr x \<Rightarrow> None)"

definition ex_owner :: "staff_db \<Rightarrow> int \<Rightarrow> user_id option" where
  "ex_owner s sid = (case find_shift s sid of None \<Rightarrow> None | Some x \<Rightarrow> sh_user_id x)"

text \<open>A manager gives the shift to 5 while the transfer from 3 to 4 waits: 4 accepts, and 5, who
  asked for nothing, loses the shift.\<close>

lemma stale_transfer_takes_shift:
  "ex_owner (ex_shift_do 85 (ReassignWeb 2 1 5) ex_office_named) 1 = Some 5 \<and>
   ex_owner (ex_shift_do 90 (AcceptTransferWeb 1 4)
     (ex_shift_do 85 (ReassignWeb 2 1 5) ex_office_named)) 1 = Some 4"
  by code_simp

text \<open>The dashboard lets a manager name the initiator himself as receiver; on the web he may
  accept, and the transfer completes without the shift changing hands.  The bot refuses both.\<close>

definition ex_office_self :: staff_db where
  "ex_office_self = ex_shift_do 80 (HandleTransfer 2 1 (Approve_transfer (Some 3))) ex_office_asked"

lemma self_transfer_completes:
  "refusal_of (assign_transfer (tx_stamp ex_texts) 80 1 3 (Some 2) ex_office_asked) =
     Some (Error_key ''cannot_assign_to_self'') \<and>
   ex_shift_ok 90 (AcceptTransferWeb 1 3) ex_office_self \<and>
   \<not> ex_shift_ok 90 (AcceptTransfer 1 3) ex_office_self \<and>
   map tf_status (sd_transfers (ex_shift_do 90 (AcceptTransferWeb 1 3) ex_office_self)) =
     [''completed''] \<and>
   ex_owner (ex_shift_do 90 (AcceptTransferWeb 1 3) ex_office_self) 1 = Some 3"
  by code_simp

text \<open>The receiver has an open-ended shift that began before the window ends: the web refuses the
  handover, the bot, whose query skips a shift without an end, lets it through.\<close>

definition ex_office_open :: staff_db where
  "ex_office_open = ex_shift_do 85 (StartShift 400 None) ex_office_named"

lemma open_shift_divides_channels:
  "refusal_of (accept_transfer_web (tx_stamp ex_texts) 90 1 4 ex_office_open) =
     Some (Error_key ''overlap'') \<and>
   ex_shift_ok 90 (AcceptTransfer 1 4) ex_office_open"
  by code_simp

text \<open>A paused shift is invisible to the overlap query and is resumed without one; a planned shift
  begun early runs into the one before it.\<close>

definition ex_patch :: "string field_arg \<Rightarrow> shift_patch" where
  "ex_patch st =
     \<lparr>pc_status = st, pc_user = Unset, pc_type = Unset, pc_start = Unset, pc_end = Unset,
      pc_notes = Unset, pc_max_requests = Unset, pc_priority = Unset, pc_focus = Unset\<rparr>"

definition ex_office_paused :: staff_db where
  "ex_office_paused =
     ex_shift_do 12 (WebCreate 2 (ex_body 3 150 250))
       (ex_shift_do 11 (WebPatch 2 1 (ex_patch (Given ''paused''))) ex_office_shift)"

lemma resume_double_books:
  "\<not> double_booked ex_office_paused \<and>
   double_booked (ex_shift_do 13 (WebPatch 2 1 (ex_patch (Given ''active''))) ex_office_paused)"
  by code_simp

definition ex_office_row :: staff_db where
  "ex_office_row =
     (let s = ex_shift_do 11 (WebCreate 2 (ex_body 3 200 300)) ex_office_shift
      in s\<lparr>sd_shifts := upd_where (\<lambda>x. ws_id x = 2) (\<lambda>x. x\<lparr>sh_status := ''planned''\<rparr>) (sd_shifts s)\<rparr>)"

lemma early_start_double_books:
  "\<not> double_booked ex_office_row \<and> double_booked (ex_shift_do 190 (BeginPlanned 3 2) ex_office_row)"
  by code_simp

text \<open>An employee removed in favour of himself keeps his request, and it stays in progress with
  an executor who is no longer employed.\<close>

lemma removal_to_self_keeps_request:
  "ex_shift_ok 90 (DeleteEmployee 2 3 ''left'' (Some 3)) ex_office_planned \<and>
   ex_state_of (ex_shift_do 90 (DeleteEmployee 2 3 ''left'' (Some 3)) ex_office_planned) =
     Some (St_InProgress, Some 3) \<and>
   map_option st_status (find_staff (ex_shift_do 90 (DeleteEmployee 2 3 ''left'' (Some 3))
     ex_office_planned) 3) = Some ''deleted''"
  by code_simp

text \<open>The clean-up asks for a completion time, which a cancelled transfer does not get: it stays
  for ever.\<close>

lemma cancelled_is_never_cleaned:
  assumes "handle_transfer now m i Cancel_transfer s = Inr t" "find_transfer s i = Some x"
    and "tf_completed x = None"
  shows "find_transfer (snd (cleanup_expired_data later t)) i = find_transfer t i \<and>
         find_transfer t i = Some (x\<lparr>tf_status := ''cancelled''\<rparr>)"
proof -
  let ?y = "x\<lparr>tf_status := ''cancelled''\<rparr>"
  have t: "t = write_transfer ?y s"
    using assms(1,2) by (auto simp: handle_transfer_def res_bind_Inr_iff split: if_splits)
  have id: "tf_id x = i" using find_transfer_id [OF assms(2)] by simp
  have y: "find_transfer t i = Some ?y"
    using first_row_upd_where [of "\<lambda>z. tf_id z = i" "\<lambda>z. tf_id z = i" "\<lambda>z. ?y" "sd_transfers s"] assms(2) id
    by (simp add: find_transfer_def t)
  have keep: "first_row P (filter Q rows) = Some z" if "first_row P rows = Some z" "Q z" for P Q z rows
    using that by (induction rows) (auto simp: sql_simps split: if_splits)
  have "find_transfer (snd (cleanup_expired_data later t)) i = Some ?y"
    using y assms(3) unfolding find_transfer_def cleanup_expired_data_def Let_def
    by (simp add: keep)
  then show ?thesis using y by simp
qed

text \<open>Editing the window of a shift nobody holds asks the lock for the user \<open>None\<close>: an uncaught
  error.\<close>

lemma unassigned_window_crashes:
  assumes "sh_user_id s = None" "patch_window p s = Some (t0, t1)" "t0 < t1" "is_set (pc_start p)"
  shows "check_window db s p = Some (Http_status 500)"
  using assms by (simp add: check_window_def)

end
