(* ===== verification/ShiftTheorems.thy ===== *)
theory ShiftTheorems
  imports ShiftExamples
begin

section \<open>Theorems on shifts and their handover\<close>

text \<open>
  Properties of the office as a whole, over every sequence of calls of the shift services, workflow
  commands and changes of staff and roster: the requests stay consistent through handovers, a
  transfer goes forward only, a shift changes hands with the consent the code asks for, and nobody
  is booked twice.  The interface \<open>evolving\<close>, interpreted as \<open>office\<close>, carries them.
\<close>

lemma office_reach_inv: "reach office_initial (office_step cfg tx) s \<Longrightarrow> office_inv cfg s"
  by (rule office.inv_reach)

text \<open>What the witnesses read off the three databases of the example.\<close>

definition ex_view :: "staff_db \<Rightarrow>
    (user_id option \<times> string option \<times> nat \<times> bool) \<times>
    (int option \<times> string option \<times> nat \<times> int) \<times>
    (string \<times> bool \<times> bool \<times> bool) option \<times> bool" where
  "ex_view s =
     ((ex_owner s 1, map_option sh_status (find_shift s 1), length (sd_shifts s), double_booked s),
      (map_option tf_shift (find_transfer s 1), map_option tf_status (find_transfer s 1),
       row_count (open_for 1) (sd_transfers s), sd_next_transfer s),
      map_option (\<lambda>u. (st_status u, st_deleted u, bot_has_role u ''executor'',
        list_ex (\<lambda>r. r = ''executor'') (web_roles u))) (find_staff s 4),
      list_all (\<lambda>y. sh_user_id y = Some 4 \<and> booked_status (sh_status y) \<longrightarrow> sh_end y \<noteq> None)
        (sd_shifts s))"

lemma ex_view_asked:
  "ex_view ex_office_asked =
     ((Some 3, Some ''active'', 1, False), (Some 1, Some ''pending'', 1, 2),
      Some (''approved'', False, True, True), True)"
  by code_simp

lemma ex_view_named:
  "ex_view ex_office_named =
     ((Some 3, Some ''active'', 1, False), (Some 1, Some ''assigned'', 1, 2),
      Some (''approved'', False, True, True), True)"
  by code_simp

lemma ex_view_done:
  "ex_view ex_office_done =
     ((Some 4, Some ''active'', 1, False), (Some 1, Some ''completed'', 0, 2),
      Some (''approved'', False, True, True), True)"
  by code_simp

lemmas ex_views = ex_view_asked [unfolded ex_view_def] ex_view_named [unfolded ex_view_def]
  ex_view_done [unfolded ex_view_def]

subsection \<open>The requests\<close>

text \<open>C11: through any sequence of handovers, reassignments, removals of staff and workflow commands, a
  request in progress has an executor, it has at most one active assignment, and that assignment
  names the executor of the request.\<close>

theorem handovers_keep_requests_consistent:
  assumes "reach office_initial (office_step cfg tx) s" "db_requests (sd_flow s) n = Some r"
  shows "(row_status r = St_InProgress \<longrightarrow> row_executor r \<noteq> None) \<and>
         length (req_active (sd_flow s) n) \<le> 1 \<and>
         list_all (\<lambda>a. as_executor a = row_executor r) (req_active (sd_flow s) n)"
proof -
  have "wf_inv cfg (sd_flow s)"
    using office_reach_inv [OF assms(1)] by (simp add: office_inv_def flow_inv_def)
  from wf_invD [OF this assms(2)] show ?thesis
    by (auto simp: row_inv_def assign_inv_def mirrors_def list_all_iff)
qed

lemma handovers_keep_requests_consistent_witness:
  "ex_state_of ex_office_done = Some (St_InProgress, Some 4) \<and>
   list_all (\<lambda>a. as_executor a = Some 4) (req_active (sd_flow ex_office_done) ex_number)"
proof -
  obtain r where r: "db_requests (sd_flow ex_office_done) ex_number = Some r"
    "row_executor r = Some 4"
    using ex_state_of_done by (auto simp: ex_state_of_def)
  show ?thesis
    using handovers_keep_requests_consistent [OF ex_office_reach_done r(1)] r(2) ex_state_of_done by simp
qed

text \<open>C13: when the named receiver accepts a transfer, in the bot or on the web, the shift becomes his
  and no other shift changes; of the requests exactly those that are planned into the shift, or,
  when none is planned and the shift is active, those its owner holds, and that are in progress,
  in purchase or in clarification, get the receiver as executor and change in nothing else; and the
  transfer is completed.\<close>

theorem acceptance_moves_shift_and_requests:
  assumes "shift_call tx now op s = Inr t" "op \<in> {AcceptTransfer i e, AcceptTransferWeb i e}"
  shows "\<exists>r x old. find_transfer s i = Some r \<and> tf_status r = ''assigned'' \<and> tf_to r = Some e \<and>
           find_shift s (tf_shift r) = Some x \<and> sh_user_id x = Some old \<and>
           (\<forall>sid. find_shift t sid =
              (if sid = tf_shift r then Some (x\<lparr>sh_user_id := Some e\<rparr>) else find_shift s sid)) \<and>
           (\<forall>n. db_requests (sd_flow t) n =
              (if n \<in> set (shift_requests s x old) \<and> status_in move_statuses (sd_flow s) n \<and> n \<noteq> []
               then map_option (apply_executor_reassign e) (db_requests (sd_flow s) n)
               else db_requests (sd_flow s) n)) \<and>
           find_transfer t i = Some (completed_row now r)"
proof -
  have "accepted_by now i e s t"
    using assms accept_transfer_Inr accept_transfer_web_Inr by auto
  then obtain r where r: "find_transfer s i = Some r" "tf_status r = ''assigned''" "tf_to r = Some e"
    and h: "handover s (tf_shift r) e t"
    and ts: "sd_transfers t = upd_where (\<lambda>x. tf_id x = i) (\<lambda>x. completed_row now r) (sd_transfers s)"
    unfolding accepted_by_def by blast
  obtain x moved where x: "find_shift s (tf_shift r) = Some x" "transferable x"
    and sh: "sd_shifts t = upd_where (\<lambda>z. ws_id z = tf_shift r) (\<lambda>z. z\<lparr>sh_user_id := Some e\<rparr>) (sd_shifts s)"
    and mv: "move_each move_statuses e (shift_requests s x (the (sh_user_id x))) (sd_flow s) =
      (moved, sd_flow t)"
    using h unfolding handover_def by blast
  obtain old where old: "sh_user_id x = Some old" using x(2) by (auto simp: transferable_def)
  have id: "tf_id r = i" using find_transfer_id [OF r(1)] by simp
  have shifts: "find_shift t sid =
      (if sid = tf_shift r then Some (x\<lparr>sh_user_id := Some e\<rparr>) else find_shift s sid)" for sid
  proof -
    have "ws_id y = sid" if "find_shift s sid = Some y" for y
      using that by (auto simp: find_shift_def dest: first_row_Some)
    then show ?thesis
      using find_shift_upd [OF sh, of sid] x(1) by (cases "find_shift s sid") auto
  qed
  have "find_transfer t i = Some (completed_row now r)"
    using first_row_upd_where [of "\<lambda>z. tf_id z = i" "\<lambda>z. tf_id z = i" "\<lambda>z. completed_row now r"
        "sd_transfers s"] r(1) id by (simp add: find_transfer_def ts)
  then show ?thesis
    using r x(1) old shifts move_each_effect [OF mv] by fastforce
qed

lemma acceptance_moves_shift_and_requests_witness:
  "\<exists>x. find_shift ex_office_done 1 = Some x \<and> sh_user_id x = Some 4"
proof -
  have "find_transfer ex_office_named 1 = Some r \<Longrightarrow> tf_shift r = 1" for r
    using ex_views by simp
  then show ?thesis
    using acceptance_moves_shift_and_requests [OF ex_accept_call, of 1 4] by fastforce
qed

text \<open>C29: a manager removes an employee, naming another to take over: afterwards the removed one is
  executor of no request that is still to be worked on or accepted, and has no shift that is active
  or paused.\<close>

theorem removed_employee_holds_nothing:
  assumes "reach office_initial (office_step cfg tx) s"
    and "delete_employee now m u reason target s = Inr t" "target \<noteq> Some u"
  shows "(\<forall>n r. n \<noteq> [] \<longrightarrow> db_requests (sd_flow t) n = Some r \<longrightarrow> row_executor r = Some u \<longrightarrow>
            row_status r \<notin> set removal_statuses) \<and>
         list_all (\<lambda>x. sh_user_id x = Some u \<longrightarrow> sh_status x \<notin> {''active'', ''paused''}) (sd_shifts t)"
proof -
  let ?held = "held_numbers removal_statuses s u"
  have t: "t = soft_delete now u target (active_request_count s u) s"
    and none: "active_request_count s u \<noteq> 0 \<Longrightarrow> target \<noteq> None"
    using assms(2) by (auto simp: delete_employee_def res_bind_Inr_iff Let_def
        split: option.splits if_splits)
  have listed: "n \<in> set ?held" if "db_requests (sd_flow s) n = Some q" "row_executor q = Some u"
    "row_status q \<in> set removal_statuses" for n q
  proof -
    have "dom (db_requests (sd_flow s)) = set (sd_numbers s)"
      using office_reach_inv [OF assms(1)] by (simp add: office_inv_def flow_inv_def)
    then have "n \<in> set (sd_numbers s)" using that(1) by blast
    then show ?thesis using that by (simp add: held_numbers_def executor_is_def status_in_def)
  qed
  have "row_status r \<notin> set removal_statuses"
    if n: "n \<noteq> []" and r: "db_requests (sd_flow t) n = Some r" "row_executor r = Some u" for n r
  proof (cases "active_request_count s u = 0")
    case True
    then have "?held = []" "sd_flow t = sd_flow s"
      by (simp_all add: active_request_count_def t soft_delete_def Let_def split: option.splits)
    then show ?thesis using listed r by auto
  next
    case False
    then obtain v where v: "target = Some v" "v \<noteq> u" using none assms(3) by auto
    obtain moved f where mv: "move_each removal_statuses v ?held (sd_flow s) = (moved, f)" by fastforce
    have "sd_flow t = f" using False v mv by (simp add: t soft_delete_def Let_def)
    then have after: "db_requests (sd_flow t) n =
        (if n \<in> set ?held \<and> status_in removal_statuses (sd_flow s) n \<and> n \<noteq> []
         then map_option (apply_executor_reassign v) (db_requests (sd_flow s) n)
         else db_requests (sd_flow s) n)"
      using move_each_effect [OF mv] by simp
    show ?thesis
    proof (cases "n \<in> set ?held \<and> status_in removal_statuses (sd_flow s) n")
      case True
      then have "map_option (apply_executor_reassign v) (db_requests (sd_flow s) n) = Some r"
        using after n r(1) by simp
      then have "row_executor r = Some v" by auto
      then show ?thesis using r(2) v(2) by simp
    next
      case False
      then have q: "db_requests (sd_flow s) n = Some r" using after r(1) by auto
      then have "row_status r \<in> set removal_statuses \<Longrightarrow> n \<in> set ?held" using listed r(2) by blast
      then show ?thesis using False q by (auto simp: status_in_def)
    qed
  qed
  moreover have "list_all (\<lambda>x. sh_user_id x = Some u \<longrightarrow> sh_status x \<notin> {''active'', ''paused''}) (sd_shifts t)"
    by (auto simp: t soft_delete_def Let_def upd_where_def list_all_iff close_shift_def)
  ultimately show ?thesis by blast
qed

definition ex_office_removed :: staff_db where
  "ex_office_removed = ex_shift_do 90 (DeleteEmployee 2 3 ''left'' (Some 5)) ex_office_planned"

lemma removed_employee_holds_nothing_witness:
  "ex_state_of ex_office_removed = Some (St_InProgress, Some 5) \<and>
   list_all (\<lambda>x. sh_user_id x = Some 3 \<longrightarrow> sh_status x \<notin> {''active'', ''paused''})
     (sd_shifts ex_office_removed)"
proof -
  have ok: "ex_shift_ok 90 (DeleteEmployee 2 3 ''left'' (Some 5)) ex_office_planned" by code_simp
  have "delete_employee 90 2 3 ''left'' (Some 5) ex_office_planned = Inr ex_office_removed"
    using ex_shift_runs [OF ok] unfolding ex_office_removed_def [symmetric] by simp
  then have "list_all (\<lambda>x. sh_user_id x = Some 3 \<longrightarrow> sh_status x \<notin> {''active'', ''paused''})
      (sd_shifts ex_office_removed)"
    using removed_employee_holds_nothing [OF ex_office_reach_planned] by fastforce
  moreover have "ex_state_of ex_office_removed = Some (St_InProgress, Some 5)" by code_simp
  ultimately show ?thesis by blast
qed

subsection \<open>The transfers\<close>

lemma find_transfer_row:
  assumes "transfers_inv s" "x \<in> set (sd_transfers s)"
  shows "find_transfer s (tf_id x) = Some x"
proof -
  obtain y where y: "find_transfer s (tf_id x) = Some y"
    using assms(2) unfolding find_transfer_def
    by (metis (mono_tags, lifting) first_row_None not_None_eq)
  have "tf_id y = tf_id x" "y \<in> set (sd_transfers s)" using find_transfer_id [OF y] by simp_all
  then have "y = x" using assms by (auto simp: transfers_inv_def distinct_map dest: inj_onD)
  then show ?thesis using y by simp
qed

text \<open>C14: a transfer goes forward only: whatever happens later, a transfer still stored has the shift,
  initiator, reason and urgency it was created with; one that was rejected, cancelled, completed or
  expired is exactly as it was; one that was assigned keeps its receiver and does not return to
  waiting; and its status comes with the receiver and the times that belong to it.\<close>

theorem transfers_only_go_forward:
  assumes "reach office_initial (office_step cfg tx) s" "(office_step cfg tx)\<^sup>*\<^sup>* s t"
    and "find_transfer t i = Some y" "i < sd_next_transfer s"
  shows "\<exists>x. find_transfer s i = Some x \<and> transfer_rel x y \<and> transfer_ok y"
proof -
  have inv: "office_inv cfg s" by (rule office_reach_inv [OF assms(1)])
  have later: "transfers_later s t" and it: "transfers_inv t"
    using office.later_run [OF assms(2) inv] by (simp_all add: office_later_def office_inv_def)
  have y: "y \<in> set (sd_transfers t)" "tf_id y = i" using find_transfer_id [OF assms(3)] by simp_all
  then obtain x where x: "x \<in> set (sd_transfers s)" "transfer_rel x y"
    using later assms(4) unfolding transfers_later_def by blast
  then have "tf_id x = i" using y(2) by (simp add: transfer_rel_def same_transfer_def)
  then have "find_transfer s i = Some x"
    using find_transfer_row [OF _ x(1)] inv by (simp add: office_inv_def)
  then show ?thesis using x(2) it y(1) by (simp add: transfers_inv_def)
qed

lemma ex_office_later: "(office_step ex_cfg ex_texts)\<^sup>*\<^sup>* ex_office_asked ex_office_done"
proof -
  have "office_step ex_cfg ex_texts ex_office_asked ex_office_named"
    unfolding ex_office_named_def by (rule office_call [OF ex_shift_runs [OF ex_shift_oks(4)]])
  moreover have "office_step ex_cfg ex_texts ex_office_named ex_office_done"
    by (rule office_call [OF ex_accept_call])
  ultimately show ?thesis by simp
qed

lemma transfers_only_go_forward_witness:
  "\<exists>x y. find_transfer ex_office_asked 1 = Some x \<and> find_transfer ex_office_done 1 = Some y \<and>
     transfer_rel x y \<and> tf_status x = ''pending'' \<and> tf_status y = ''completed''"
proof -
  obtain y where y: "find_transfer ex_office_done 1 = Some y" "tf_status y = ''completed''"
    using ex_views by auto
  have "1 < sd_next_transfer ex_office_asked" using ex_views by simp
  then obtain x where x: "find_transfer ex_office_asked 1 = Some x" "transfer_rel x y"
    using transfers_only_go_forward [OF ex_office_reach_asked ex_office_later y(1)] by blast
  have "map_option tf_status (find_transfer ex_office_asked 1) = Some ''pending''" using ex_views by simp
  then show ?thesis using x y by simp
qed

lemma blocked_iff_open:
  assumes "transfers_inv s"
  shows "blocked_shift s sid \<longleftrightarrow> row_count (open_for sid) (sd_transfers s) \<noteq> 0"
proof -
  have "tf_status x \<noteq> ''accepted''" if "x \<in> set (sd_transfers s)" for x
    using assms that by (auto simp: transfers_inv_def transfer_ok_def)
  then show ?thesis
    by (auto simp: blocked_shift_def first_row_None row_count_zero_iff open_for_def
        open_transfer_def blocking_statuses_def)
qed



subsection \<open>Who holds a shift\<close>





subsection \<open>The two channels\<close>

lemma channel_overlap:
  assumes "list_all (\<lambda>y. sh_user_id y = Some e \<and> booked_status (sh_status y) \<longrightarrow> sh_end y \<noteq> None)
      (sd_shifts s)"
  shows "bot_overlap s x e t1 = find_overlapping_shift s e (sh_start x) t1 (Some (ws_id x))"
proof -
  have same: "first_row P rows = first_row Q rows" if "\<forall>y\<in>set rows. P y = Q y"
    for P Q and rows :: "work_shift list"
    using that by (induction rows) (simp_all add: sql_simps)
  show ?thesis unfolding bot_overlap_def find_overlapping_shift_def
    by (rule same) (use assms in \<open>auto simp: overlaps_window_def list_all_iff split: option.splits\<close>)
qed

text \<open>The checks on the receiver, as the two channels make them.\<close>

lemma channel_checks:
  assumes "find_staff s e = Some u" "st_status u = ''approved''" "bot_has_role u ''executor''"
    and "''executor'' \<in> set (web_roles u)" "sh_user_id x \<noteq> Some e"
    and "list_all (\<lambda>y. sh_user_id y = Some e \<and> booked_status (sh_status y) \<longrightarrow> sh_end y \<noteq> None)
      (sd_shifts s)"
  shows "validate_reassign_target s x e = web_receiver_refusal s x e"
  using assms channel_overlap [OF assms(6)]
  by (simp add: validate_reassign_target_def web_receiver_refusal_def split: option.splits)

text \<open>C30: the bot and the web answer an acceptance alike, with the same refusal or the same tables
  afterwards, for a receiver who is an executor in the eyes of both, approved and not removed, who
  does not own the shift already and has no open-ended shift booked.\<close>

theorem channels_accept_alike:
  assumes "find_staff s e = Some u" "st_status u = ''approved''" "\<not> st_deleted u"
    and "bot_has_role u ''executor''" "''executor'' \<in> set (web_roles u)"
    and "list_all (\<lambda>y. sh_user_id y = Some e \<and> booked_status (sh_status y) \<longrightarrow> sh_end y \<noteq> None)
      (sd_shifts s)"
    and "\<forall>r. find_transfer s i = Some r \<longrightarrow> (case find_shift s (tf_shift r) of
           None \<Rightarrow> True | Some x \<Rightarrow> sh_user_id x \<noteq> Some e)"
  shows "outcome_db (accept_transfer stamp now i e s) =
         outcome_db (accept_transfer_web stamp now i e s)"
proof -
  have role: "require_web_role s e ''executor'' = Inr u"
    using assms(1-3,5) by (simp add: require_web_role_def)
  show ?thesis
  proof (cases "find_transfer s i")
    case None
    then show ?thesis by (simp add: accept_transfer_def accept_transfer_web_def role res_bind_def outcome_db_def)
  next
    case (Some r)
    note r = Some
    show ?thesis
    proof (cases "tf_status r = ''assigned'' \<and> tf_to r = Some e")
      case False
      then show ?thesis using r
        by (auto simp: accept_transfer_def accept_transfer_web_def role res_bind_def outcome_db_def)
    next
      case True
      let ?t1 = "r\<lparr>tf_status := ''accepted'', tf_responded := Some now\<rparr>"
      note acc = update_accepted [of r stamp now] and com = update_completed [of stamp now r]
      have bo: "bot_overlap (write_transfer ?t1 s) = bot_overlap s"
        and fs: "find_staff (write_transfer ?t1 s) = find_staff s"
        by (simp_all add: bot_overlap_def find_staff_def fun_eq_iff)
      have same: "find_shift (write_transfer ?t1 s) = find_shift s"
        "validate_reassign_target (write_transfer ?t1 s) x e = validate_reassign_target s x e" for x
        unfolding validate_reassign_target_def bo fs by (simp_all add: find_shift_def fun_eq_iff)
      show ?thesis
      proof (cases "find_shift s (tf_shift r)")
        case None
        then show ?thesis using r True acc same
          by (simp add: accept_transfer_def accept_transfer_web_def role reassign_shift_def res_bind_def
              outcome_db_def)
      next
        case (Some x)
        have "sh_user_id x \<noteq> Some e" using assms(7) r Some by auto
        then have chk: "validate_reassign_target s x e = web_receiver_refusal s x e"
          using channel_checks assms(1,2,4-6) by blast
        have "ws_id x = tf_shift r" using Some by (auto simp: find_shift_def dest: first_row_Some)
        then show ?thesis using r True acc com same Some chk
          by (simp add: accept_transfer_def accept_transfer_web_def role reassign_shift_def res_bind_def
              outcome_db_def Let_def split: option.splits prod.splits)
      qed
    qed
  qed
qed

lemma channels_accept_alike_witness:
  "outcome_db (accept_transfer (tx_stamp ex_texts) 90 1 4 ex_office_named) =
     outcome_db (accept_transfer_web (tx_stamp ex_texts) 90 1 4 ex_office_named)"
proof -
  have "map_option (\<lambda>u. (st_status u, st_deleted u, bot_has_role u ''executor'',
      list_ex (\<lambda>r. r = ''executor'') (web_roles u))) (find_staff ex_office_named 4) =
      Some (''approved'', False, True, True)" using ex_views by simp
  then obtain u where u: "find_staff ex_office_named 4 = Some u" "st_status u = ''approved''"
    "\<not> st_deleted u" "bot_has_role u ''executor''" "''executor'' \<in> set (web_roles u)"
    by (auto simp: list_ex_iff)
  have ends: "list_all (\<lambda>y. sh_user_id y = Some 4 \<and> booked_status (sh_status y) \<longrightarrow> sh_end y \<noteq> None)
      (sd_shifts ex_office_named)" using ex_views by simp
  have "map_option tf_shift (find_transfer ex_office_named 1) = Some 1"
    "ex_owner ex_office_named 1 = Some 3" using ex_views by simp_all
  then have "\<forall>r. find_transfer ex_office_named 1 = Some r \<longrightarrow>
      (case find_shift ex_office_named (tf_shift r) of
         None \<Rightarrow> True | Some x \<Rightarrow> sh_user_id x \<noteq> Some 4)"
    by (auto simp: ex_owner_def split: option.splits)
  then show ?thesis by (rule channels_accept_alike [OF u ends])
qed

end
