(* ===== verification/AccessDomain.thy ===== *)
theory AccessDomain
  imports Complex_Main PyJson
begin

section \<open>Access control: enumerations and tables\<close>

text \<open>
  The data of \<open>access_control/domain\<close>: the string enumerations as datatypes with the wire value
  of each member, one record per table with the columns the modelled services read or write, and
  the database as a record of tables.  Rows are kept in insertion order and ids grow, as the
  \<open>BIGINT\<close> autoincrement key does; the columns left out (names, vendors, moderation marks, photo
  links) are read by no modelled operation.  Text that may hold any character (plates, operators'
  reasons) is a list of Unicode code points; a confidence is a rational, which holds every float.
\<close>

type_synonym utext = "int list"

definition utext_of :: "string \<Rightarrow> utext" where
  "utext_of s = map of_char s"

text \<open>JSON values, as far as hashed payloads and audit details hold them.\<close>

datatype canon = CNull | CInt int | CText utext | CObj "(string \<times> canon) list"

definition ctext :: "string \<Rightarrow> canon" where
  "ctext s = CText (utext_of s)"

definition copt :: "('a \<Rightarrow> canon) \<Rightarrow> 'a option \<Rightarrow> canon" where
  "copt f v = (case v of None \<Rightarrow> CNull | Some x \<Rightarrow> f x)"

subsection \<open>Enumerations\<close>

datatype vehicle_status = Vehicle_active | Vehicle_blocked | Vehicle_archived
datatype link_status = Link_pending | Link_active | Link_rejected | Link_archived
datatype parking_type = Assigned | Shared
datatype spot_status = Spot_active | Spot_inactive | Spot_archived
datatype spot_assignment_status =
    Spot_assignment_active | Spot_assignment_expired | Spot_assignment_revoked
  | Spot_assignment_archived
datatype presence_status = Presence_open | Presence_closed
datatype pass_type = Guest | Taxi | Delivery | Courier | Service | Contractor | Emergency
datatype pass_status = Pass_active | Pass_used | Pass_expired | Pass_revoked
datatype decision_type = Allow | Deny | Manual_review
datatype decision_status =
    Pending_review | Allowed | Allowed_manually | Denied | Denied_manually | Expired
datatype decision_reason =
    Permanent_vehicle_allowed | Temporary_pass_allowed | Assigned_spot_allowed
  | Spot_not_assigned | Spot_rental_expired | Shared_access_allowed
  | Per_apartment_limit_exceeded | Parking_spot_occupied | Vehicle_not_found
  | Vehicle_is_blocked | Zone_not_allowed | Pass_is_expired | Pass_already_used
  | Low_confidence | Possible_plate_clone | Anti_passback_violation | Manual_review_required
datatype command_status = Command_pending | Command_leased | Command_acked | Command_dead
datatype direction = Entry | Exit
datatype event_source = Connected | Edge_offline

text \<open>The wire values of the members that reach a hashed payload.\<close>

fun pass_type_value :: "pass_type \<Rightarrow> string" where
  "pass_type_value Guest = ''guest''"
| "pass_type_value Taxi = ''taxi''"
| "pass_type_value Delivery = ''delivery''"
| "pass_type_value Courier = ''courier''"
| "pass_type_value Service = ''service''"
| "pass_type_value Contractor = ''contractor''"
| "pass_type_value Emergency = ''emergency''"

fun decision_value :: "decision_type \<Rightarrow> string" where
  "decision_value Allow = ''allow''"
| "decision_value Deny = ''deny''"
| "decision_value Manual_review = ''manual_review''"

fun status_value :: "decision_status \<Rightarrow> string" where
  "status_value Pending_review = ''pending_review''"
| "status_value Allowed = ''allowed''"
| "status_value Allowed_manually = ''allowed_manually''"
| "status_value Denied = ''denied''"
| "status_value Denied_manually = ''denied_manually''"
| "status_value Expired = ''expired''"

fun reason_value :: "decision_reason \<Rightarrow> string" where
  "reason_value Permanent_vehicle_allowed = ''permanent_vehicle_allowed''"
| "reason_value Temporary_pass_allowed = ''temporary_pass_allowed''"
| "reason_value Assigned_spot_allowed = ''assigned_spot_allowed''"
| "reason_value Spot_not_assigned = ''spot_not_assigned''"
| "reason_value Spot_rental_expired = ''spot_rental_expired''"
| "reason_value Shared_access_allowed = ''shared_access_allowed''"
| "reason_value Per_apartment_limit_exceeded = ''per_apartment_limit_exceeded''"
| "reason_value Parking_spot_occupied = ''parking_spot_occupied''"
| "reason_value Vehicle_not_found = ''vehicle_not_found''"
| "reason_value Vehicle_is_blocked = ''vehicle_blocked''"
| "reason_value Zone_not_allowed = ''zone_not_allowed''"
| "reason_value Pass_is_expired = ''pass_expired''"
| "reason_value Pass_already_used = ''pass_already_used''"
| "reason_value Low_confidence = ''low_confidence''"
| "reason_value Possible_plate_clone = ''possible_plate_clone''"
| "reason_value Anti_passback_violation = ''anti_passback_violation''"
| "reason_value Manual_review_required = ''manual_review_required''"

fun direction_value :: "direction \<Rightarrow> string" where
  "direction_value Entry = ''entry''"
| "direction_value Exit = ''exit''"

fun source_value :: "event_source \<Rightarrow> string" where
  "source_value Connected = ''connected''"
| "source_value Edge_offline = ''edge_offline''"

lemma decision_value_inj: "inj decision_value"
proof (rule injI)
  fix x y show "decision_value x = decision_value y \<Longrightarrow> x = y"
    by (cases x; cases y; simp)
qed

lemma status_value_inj: "inj status_value"
proof (rule injI)
  fix x y show "status_value x = status_value y \<Longrightarrow> x = y"
    by (cases x; cases y; simp)
qed

lemma reason_value_inj: "inj reason_value"
proof (rule injI)
  fix x y show "reason_value x = reason_value y \<Longrightarrow> x = y"
    by (cases x; cases y; simp)
qed

subsection \<open>Territory, vehicles, parking, passes\<close>

record parking_zone =
  zn_id :: int
  zn_parking_type :: parking_type
  zn_max_permanent :: "int option"

record zone_yard =
  zy_zone_id :: int
  zy_yard_id :: int

record apartment =
  ap_id :: int
  ap_building_id :: int

record building =
  bl_id :: int
  bl_yard_id :: int

record vehicle =
  ve_id :: int
  ve_plate :: utext
  ve_status :: vehicle_status

record vehicle_apartment =
  va_id :: int
  va_vehicle_id :: int
  va_apartment_id :: int
  va_status :: link_status
  va_valid_from :: "instant option"
  va_valid_until :: "instant option"

record parking_spot =
  sp_id :: int
  sp_zone_id :: int
  sp_status :: spot_status

record spot_assignment =
  sa_spot_id :: int
  sa_apartment_id :: int
  sa_valid_from :: "instant option"
  sa_valid_until :: "instant option"
  sa_status :: spot_assignment_status
  sa_enforce_limit :: bool

record presence_session =
  ps_id :: int
  ps_vehicle_id :: int
  ps_apartment_id :: "int option"
  ps_zone_id :: int
  ps_entered_at :: instant
  ps_exited_at :: "instant option"
  ps_status :: presence_status
  ps_entry_event :: "int option"
  ps_exit_event :: "int option"
  ps_closed_by :: "user_id option"
  ps_close_reason :: "string option"

record access_rule =
  ru_vehicle_id :: "int option"
  ru_apartment_id :: "int option"
  ru_zone_id :: int
  ru_allowed_directions :: "direction list option"
  ru_valid_from :: "instant option"
  ru_valid_until :: "instant option"
  ru_is_active :: bool

record access_pass =
  pa_id :: int
  pa_apartment_id :: int
  pa_pass_type :: pass_type
  pa_zone_id :: "int option"
  pa_plate :: "utext option"
  pa_valid_from :: "instant option"
  pa_valid_until :: "instant option"
  pa_max_entries :: int
  pa_used_entries :: int
  pa_status :: pass_status
  pa_code_hash :: "string option"
  pa_created_at :: instant

text \<open>The table's \<open>CHECK\<close> constraints on the consumable limit.\<close>

definition pass_checks :: "access_pass \<Rightarrow> bool" where
  "pass_checks p \<longleftrightarrow>
     0 < pa_max_entries p \<and> 0 \<le> pa_used_entries p \<and> pa_used_entries p \<le> pa_max_entries p"

subsection \<open>Equipment\<close>

text \<open>\<open>ec_ip_allowlist\<close> is the JSON of the column, \<open>JScalar JNull\<close> also for SQL's \<open>NULL\<close>.\<close>

datatype controller_status = Controller_active | Controller_inactive | Controller_decommissioned

record edge_controller =
  ec_id :: int
  ec_zone_id :: "int option"
  ec_uid :: string
  ec_api_key_hash :: string
  ec_ip_allowlist :: jval
  ec_last_heartbeat_at :: "instant option"
  ec_clock_offset_ms :: "int option"
  ec_status :: controller_status
  ec_is_active :: bool

record access_gate =
  ga_id :: int
  ga_zone_id :: int
  ga_controller_id :: "int option"
  ga_is_active :: bool

record access_barrier =
  ba_id :: int
  ba_gate_id :: int
  ba_controller_id :: "int option"
  ba_is_active :: bool

subsection \<open>Events, decisions, commands, journals\<close>

record camera_event =
  ce_id :: int
  ce_controller_id :: int
  ce_event_id :: string
  ce_gate_id :: "int option"
  ce_zone_id :: "int option"
  ce_plate :: "utext option"
  ce_direction :: direction
  ce_confidence :: "rat option"
  ce_captured_at :: instant
  ce_received_at :: instant
  ce_source :: event_source
  ce_plate_photo :: "string option"
  ce_overview_photo :: "string option"

record access_decision =
  ad_id :: int
  ad_camera_event_id :: int
  ad_group_id :: "nat option"
  ad_supersedes :: "int option"
  ad_decision :: decision_type
  ad_status :: decision_status
  ad_reason :: "decision_reason option"
  ad_vehicle_id :: "int option"
  ad_pass_id :: "int option"
  ad_review_deadline :: "instant option"
  ad_resolved_by :: "user_id option"
  ad_resolved_at :: "instant option"
  ad_source :: event_source
  ad_prev_hash :: "string option"
  ad_row_hash :: "string option"

record access_event =
  ae_controller_id :: int
  ae_event_id :: string
  ae_camera_event_id :: int
  ae_decision_id :: int
  ae_vehicle_id :: "int option"
  ae_pass_id :: "int option"
  ae_apartment_id :: "int option"
  ae_gate_id :: "int option"
  ae_zone_id :: "int option"
  ae_direction :: direction
  ae_plate :: "utext option"
  ae_decision :: decision_type
  ae_reason :: "decision_reason option"
  ae_occurred_at :: instant
  ae_source :: event_source
  ae_prev_hash :: "string option"
  ae_row_hash :: "string option"

record barrier_command =
  bc_command_id :: nat
  bc_decision_id :: "int option"
  bc_controller_id :: int
  bc_barrier_id :: int
  bc_status :: command_status
  bc_lease_token :: "string option"
  bc_lease_expires_at :: "instant option"
  bc_leased_at :: "instant option"
  bc_attempts :: int
  bc_expires_at :: "instant option"
  bc_acked_at :: "instant option"
  bc_ack_result :: "string option"
  bc_created_at :: instant

record manual_opening =
  mo_id :: int
  mo_barrier_id :: int
  mo_command_id :: nat
  mo_decision_id :: "int option"
  mo_operator :: user_id
  mo_reason :: utext
  mo_captured_event :: "int option"
  mo_created_at :: instant
  mo_prev_hash :: "string option"
  mo_row_hash :: "string option"

record audit_entry =
  al_actor :: "user_id option"
  al_action :: string
  al_entity_type :: string
  al_entity_id :: "int option"
  al_barrier_id :: "int option"
  al_source :: string
  al_reason :: "utext option"
  al_extra :: "(string \<times> canon) list"
  al_ip_address :: "string option"
  al_prev_hash :: "string option"
  al_row_hash :: "string option"

record access_db =
  zones :: "parking_zone list"
  zone_yards :: "zone_yard list"
  apartments :: "apartment list"
  buildings :: "building list"
  vehicles :: "vehicle list"
  vehicle_apartments :: "vehicle_apartment list"
  spots :: "parking_spot list"
  spot_assignments :: "spot_assignment list"
  presence :: "presence_session list"
  rules :: "access_rule list"
  passes :: "access_pass list"
  controllers :: "edge_controller list"
  gates :: "access_gate list"
  barriers :: "access_barrier list"
  camera_events :: "camera_event list"
  decisions :: "access_decision list"
  access_events :: "access_event list"
  commands :: "barrier_command list"
  manual_openings :: "manual_opening list"
  audit_logs :: "audit_entry list"

text \<open>The two clocks a transaction reads (the application's \<open>_utcnow()\<close>, the database's
  \<open>now()\<close> of the \<open>created_at\<close> defaults) and what \<open>uuid.uuid4()\<close> returns for a decision group
  and for a command.\<close>

record ambient =
  env_now :: instant
  env_tx_now :: instant
  env_group_uuid :: nat
  env_command_uuid :: nat

text \<open>Ways a transaction of these services ends without a commit.\<close>

datatype access_fault =
    Unique_violation string | Desync | Type_error

definition seconds :: "int \<Rightarrow> int" where
  "seconds n = n * 1000000"

subsection \<open>Autoincrement keys\<close>

fun next_id :: "int list \<Rightarrow> int" where
  "next_id [] = 1"
| "next_id (i # xs) = max (i + 1) (next_id xs)"

lemma next_id_gt: "i \<in> set xs \<Longrightarrow> i < next_id xs"
  by (induction xs) auto

lemma next_id_fresh: "next_id xs \<notin> set xs"
  using next_id_gt by blast

lemma next_id_pos: "0 < next_id xs"
  by (induction xs) auto

end
