(* ===== verification/PlateNormalization.thy ===== *)
theory PlateNormalization
  imports AccessDomain
begin

section \<open>Plate normalisation\<close>

text \<open>
  \<open>access_control/services/normalization.py\<close> on code points.  \<open>str.upper()\<close> is written out for
  the ASCII, Latin-1 and Cyrillic (U+0400-U+04FF) letters; other code points are taken as having
  no upper-case mapping.  NFC is the identity on text without combining characters or singleton
  decompositions, and that is the text the model covers.
\<close>

definition py_space_point :: "int \<Rightarrow> bool" where
  "py_space_point c \<longleftrightarrow>
     9 \<le> c \<and> c \<le> 13 \<or> 28 \<le> c \<and> c \<le> 32 \<or> c = 133 \<or> c = 160 \<or> c = 5760
     \<or> 8192 \<le> c \<and> c \<le> 8202 \<or> c = 8232 \<or> c = 8233 \<or> c = 8239 \<or> c = 8287 \<or> c = 12288"

text \<open>\<open>str.strip()\<close> on code points.\<close>

definition strip_points :: "utext \<Rightarrow> utext" where
  "strip_points s = rev (dropWhile py_space_point (rev (dropWhile py_space_point s)))"

text \<open>The class of \<open>_SEPARATORS\<close>: white space, hyphen, underscore, full stop, U+00B7, U+2022.\<close>

definition separator :: "int \<Rightarrow> bool" where
  "separator c \<longleftrightarrow> py_space_point c \<or> c \<in> {45, 95, 46, 183, 8226}"

definition upper_point :: "int \<Rightarrow> utext" where
  "upper_point c =
     (if 97 \<le> c \<and> c \<le> 122 then [c - 32]
      else if c = 181 then [924]
      else if c = 223 then [83, 83]
      else if c = 255 then [376]
      else if 224 \<le> c \<and> c \<le> 254 \<and> c \<noteq> 247 then [c - 32]
      else if 1072 \<le> c \<and> c \<le> 1103 then [c - 32]
      else if 1104 \<le> c \<and> c \<le> 1119 then [c - 80]
      else if (1120 \<le> c \<and> c \<le> 1153 \<or> 1162 \<le> c \<and> c \<le> 1215 \<or> 1232 \<le> c \<and> c \<le> 1279) \<and> odd c
        then [c - 1]
      else if 1217 \<le> c \<and> c \<le> 1230 \<and> even c then [c - 1]
      else if c = 1231 then [1216]
      else [c])"

definition strip_and_upper :: "utext \<Rightarrow> utext" where
  "strip_and_upper value =
     concat (map upper_point (filter (\<lambda>c. \<not> separator c) value))"

text \<open>Cyrillic capitals with a Latin double, then O to 0 and I to 1.\<close>

definition cyrillic_to_latin :: "(int \<times> int) list" where
  "cyrillic_to_latin =
     [(1040, 65), (1042, 66), (1045, 69), (1050, 75), (1052, 77), (1053, 72),
      (1054, 79), (1056, 80), (1057, 67), (1058, 84), (1059, 89), (1061, 88)]"

definition lookalike_fold :: "(int \<times> int) list" where
  "lookalike_fold = [(79, 48), (73, 49)]"

definition lookup_or_self :: "(int \<times> int) list \<Rightarrow> int \<Rightarrow> int" where
  "lookup_or_self m c = (case map_of m c of Some d \<Rightarrow> d | None \<Rightarrow> c)"

definition recognition_key :: "utext \<Rightarrow> utext" where
  "recognition_key normalized =
     map (\<lambda>ch. lookup_or_self lookalike_fold (lookup_or_self cyrillic_to_latin ch)) normalized"

datatype plate_kind = Unknown | Foreign | Transit | Standard

text \<open>\<open>str.isdigit()\<close> on a code point: the ASCII digits and the Latin-1 superscripts.\<close>

definition is_digit_point :: "int \<Rightarrow> bool" where
  "is_digit_point c \<longleftrightarrow> 48 \<le> c \<and> c \<le> 57 \<or> c = 178 \<or> c = 179 \<or> c = 185"

definition detect_type :: "utext \<Rightarrow> string \<Rightarrow> plate_kind" where
  "detect_type normalized country =
     (if normalized = [] then Unknown
      else if country \<noteq> ''UZ'' then Foreign
      else if hd normalized = 84 \<and> list_ex is_digit_point normalized then Transit
      else Standard)"

record normalized_plate =
  np_original :: utext
  np_normalized :: utext
  np_recognition_key :: utext
  np_country :: string
  np_type :: plate_kind

definition normalize_plate :: "utext \<Rightarrow> string option \<Rightarrow> normalized_plate" where
  "normalize_plate original country =
     (let resolved = (case country of Some c \<Rightarrow> if c = [] then ''UZ'' else c | None \<Rightarrow> ''UZ'');
          normalized = strip_and_upper original
      in \<lparr>np_original = original, np_normalized = normalized,
          np_recognition_key = recognition_key normalized,
          np_country = resolved, np_type = detect_type normalized resolved\<rparr>)"

subsection \<open>Idempotence and the separation of scripts\<close>

text \<open>What \<open>upper\<close> produces when it changes a character.\<close>

definition upper_image :: "int \<Rightarrow> bool" where
  "upper_image d \<longleftrightarrow>
     65 \<le> d \<and> d \<le> 90 \<or> d = 924 \<or> d = 376 \<or> 192 \<le> d \<and> d \<le> 222 \<or> 1024 \<le> d \<and> d \<le> 1071
     \<or> (1120 \<le> d \<and> d \<le> 1153 \<or> 1162 \<le> d \<and> d \<le> 1215 \<or> 1232 \<le> d \<and> d \<le> 1279) \<and> even d
     \<or> 1217 \<le> d \<and> d \<le> 1230 \<and> odd d \<or> d = 1216"

lemma if_weaken: "(b \<Longrightarrow> P x) \<Longrightarrow> P y \<Longrightarrow> P (if b then x else y)"
  by simp

lemma upper_point_shape:
  "upper_point c = [c] \<or> (\<forall>d\<in>set (upper_point c). upper_image d)"
proof -
  have odd_pred: "odd c \<Longrightarrow> even (c - 1)" by simp
  have even_pred: "even c \<Longrightarrow> 1 \<le> c \<Longrightarrow> odd (c - 1)" by simp
  have low: "odd c \<Longrightarrow> k \<le> c \<Longrightarrow> even k \<Longrightarrow> k \<le> c - 1" for k :: int
    by (cases "c = k") auto
  let ?P = "\<lambda>xs. xs = [c] \<or> (\<forall>d\<in>set xs. upper_image d)"
  have blocks: "?P [c - 1]"
    if "(1120 \<le> c \<and> c \<le> 1153 \<or> 1162 \<le> c \<and> c \<le> 1215 \<or> 1232 \<le> c \<and> c \<le> 1279) \<and> odd c"
    using that low [of 1120] low [of 1162] low [of 1232] odd_pred
    by (simp add: upper_image_def) linarith
  have palochka: "?P [c - 1]" if "1217 \<le> c \<and> c \<le> 1230 \<and> even c"
  proof -
    have "c \<noteq> 1217" using that by auto
    then have "1217 \<le> c - 1 \<and> c - 1 \<le> 1230 \<and> odd (c - 1)" using that even_pred by auto
    then show ?thesis by (simp add: upper_image_def)
  qed
  have ranges: "?P [c - 32]" if "97 \<le> c \<and> c \<le> 122"
  proof -
    have "65 \<le> c - 32 \<and> c - 32 \<le> 90" using that by auto
    then show ?thesis by (simp add: upper_image_def)
  qed
  have latin: "?P [c - 32]" if "224 \<le> c \<and> c \<le> 254 \<and> c \<noteq> 247"
  proof -
    have "192 \<le> c - 32 \<and> c - 32 \<le> 222" using that by auto
    then show ?thesis by (simp add: upper_image_def)
  qed
  have cyr: "?P [c - 32]" if "1072 \<le> c \<and> c \<le> 1103"
  proof -
    have "1024 \<le> c - 32 \<and> c - 32 \<le> 1071" using that by auto
    then show ?thesis by (simp add: upper_image_def)
  qed
  have cyr2: "?P [c - 80]" if "1104 \<le> c \<and> c \<le> 1119"
  proof -
    have "1024 \<le> c - 80 \<and> c - 80 \<le> 1071" using that by auto
    then show ?thesis by (simp add: upper_image_def)
  qed
  have fixed: "?P [924]" "?P [83, 83]" "?P [376]" "?P [1216]" "?P [c]"
    by (simp_all add: upper_image_def)
  show ?thesis
    unfolding upper_point_def
    by (rule if_weaken [where P = ?P], erule ranges, rule if_weaken [where P = ?P], rule fixed(1),
        rule if_weaken [where P = ?P], rule fixed(2), rule if_weaken [where P = ?P], rule fixed(3),
        rule if_weaken [where P = ?P], erule latin, rule if_weaken [where P = ?P], erule cyr,
        rule if_weaken [where P = ?P], erule cyr2, rule if_weaken [where P = ?P], erule blocks,
        rule if_weaken [where P = ?P], erule palochka, rule if_weaken [where P = ?P],
        rule fixed(4), rule fixed(5))
qed

lemma upper_image_upper: "upper_image d \<Longrightarrow> upper_point d = [d]"
  unfolding upper_image_def by (elim disjE conjE; simp add: upper_point_def)

lemma upper_image_separator: "upper_image d \<Longrightarrow> \<not> separator d"
  unfolding upper_image_def by (elim disjE conjE; simp add: separator_def py_space_point_def)

lemma upper_point_upper:
  assumes "d \<in> set (upper_point c)"
  shows "upper_point d = [d]"
  using upper_point_shape [of c] assms upper_image_upper by auto

lemma upper_point_separator:
  assumes "d \<in> set (upper_point c)" "\<not> separator c"
  shows "\<not> separator d"
  using upper_point_shape [of c] assms upper_image_separator by auto

lemma strip_and_upper_fixed:
  assumes "\<And>c. c \<in> set s \<Longrightarrow> \<not> separator c \<and> upper_point c = [c]"
  shows "strip_and_upper s = s"
  using assms by (induction s) (auto simp: strip_and_upper_def)

lemma strip_and_upper_idem: "strip_and_upper (strip_and_upper s) = strip_and_upper s"
  by (rule strip_and_upper_fixed)
     (auto simp: strip_and_upper_def dest: upper_point_upper upper_point_separator)

text \<open>Neither table has a key among the characters the two of them produce.\<close>

lemma fold_settled:
  "lookup_or_self lookalike_fold (lookup_or_self cyrillic_to_latin
     (lookup_or_self lookalike_fold (lookup_or_self cyrillic_to_latin c)))
   = lookup_or_self lookalike_fold (lookup_or_self cyrillic_to_latin c)"
proof (cases "c \<in> {1040, 1042, 1045, 1050, 1052, 1053, 1054, 1056, 1057, 1058, 1059, 1061, 79, 73}")
  case True
  then show ?thesis
    by (elim insertE emptyE; simp add: lookup_or_self_def lookalike_fold_def cyrillic_to_latin_def)
next
  case False
  then have "lookup_or_self lookalike_fold (lookup_or_self cyrillic_to_latin c) = c"
    by (simp add: lookup_or_self_def lookalike_fold_def cyrillic_to_latin_def)
  then show ?thesis by simp
qed

lemma recognition_key_idem: "recognition_key (recognition_key s) = recognition_key s"
  unfolding recognition_key_def map_map
  by (rule map_cong [OF refl]) (simp only: comp_def fold_settled)

text \<open>Normalising is idempotent and so is folding: a stored plate normalises to itself, with
  the recognition key it was stored with; a plate already in normal form (upper-case characters,
  no separators) is left as it is, in whatever script, so two of them with equal normal forms are
  equal plates, while the key may identify them.\<close>

theorem plate_normal_form_stable:
  "np_normalized (normalize_plate (np_normalized (normalize_plate s country)) country')
     = np_normalized (normalize_plate s country)
   \<and> np_recognition_key (normalize_plate (np_normalized (normalize_plate s country)) country')
     = np_recognition_key (normalize_plate s country)
   \<and> np_recognition_key (normalize_plate s country)
     = recognition_key (np_recognition_key (normalize_plate s country))
   \<and> (\<not> list_ex (\<lambda>c. separator c \<or> upper_point c \<noteq> [c]) s
        \<longrightarrow> np_normalized (normalize_plate s country) = s)"
proof -
  have n: "np_normalized (normalize_plate x c) = strip_and_upper x" for x c
    by (simp add: normalize_plate_def Let_def)
  have k: "np_recognition_key (normalize_plate x c) = recognition_key (strip_and_upper x)" for x c
    by (simp add: normalize_plate_def Let_def)
  have "strip_and_upper s = s" if "\<not> list_ex (\<lambda>c. separator c \<or> upper_point c \<noteq> [c]) s"
    by (rule strip_and_upper_fixed) (use that in \<open>auto simp: list_ex_iff\<close>)
  then show ?thesis
    unfolding n k strip_and_upper_idem recognition_key_idem by blast
qed

text \<open>The plate 01 A 777 with a Cyrillic A keeps its script and shares the Latin plate's key.\<close>

lemma plate_normal_form_stable_witness:
  "np_normalized (normalize_plate [48, 49, 1040, 55, 55, 55] None) = [48, 49, 1040, 55, 55, 55]
   \<and> np_recognition_key (normalize_plate [48, 49, 1040, 55, 55, 55] None)
     = np_recognition_key (normalize_plate [48, 49, 32, 97, 45, 55, 55, 55] None)"
proof
  have "\<not> list_ex (\<lambda>c. separator c \<or> upper_point c \<noteq> [c]) [48, 49, 1040, 55, 55, 55]"
    by (simp only: list_ex_Nil_iff list_ex_Cons_iff) (simp add: separator_def py_space_point_def upper_point_def)
  then show "np_normalized (normalize_plate [48, 49, 1040, 55, 55, 55] None)
      = [48, 49, 1040, 55, 55, 55]"
    using plate_normal_form_stable [of "[48, 49, 1040, 55, 55, 55]" None None] by blast
  show "np_recognition_key (normalize_plate [48, 49, 1040, 55, 55, 55] None)
     = np_recognition_key (normalize_plate [48, 49, 32, 97, 45, 55, 55, 55] None)"
    by (simp add: normalize_plate_def Let_def strip_and_upper_def recognition_key_def separator_def
        py_space_point_def upper_point_def lookup_or_self_def lookalike_fold_def
        cyrillic_to_latin_def)
qed

end
