(* ===== verification/Decimals.thy ===== *)
theory Decimals
  imports Complex_Main
begin

section \<open>Python decimals\<close>

text \<open>
  A finite \<open>Decimal\<close> is a rational.  Arithmetic rounds its exact result to the 28 significant digits
  of the default context, half to even, as \<open>dec\<close> does; \<open>quantize\<close> rounds to a fixed number of
  places and fails beyond 28 digits; a \<open>Numeric(p, 4)\<close> column rounds half away from zero.
\<close>

text \<open>What \<open>Decimal(...)\<close> makes of an argument.\<close>

datatype decimal_arg = Unparsable | Dec_nan | Dec_inf | Dec_neg_inf | Dec rat

subsection \<open>Rounding to an integer\<close>

definition round_half_up :: "rat \<Rightarrow> int" where
  "round_half_up x = (if 0 \<le> x then \<lfloor>x + 1 / 2\<rfloor> else - \<lfloor>1 / 2 - x\<rfloor>)"

definition half_even :: "rat \<Rightarrow> int" where
  "half_even x =
     (let f = \<lfloor>x\<rfloor>; d = x - of_int f
      in if d < 1 / 2 \<or> d = 1 / 2 \<and> even f then f else f + 1)"

text \<open>The rounded coefficient has at most 28 digits.\<close>

definition fits_digits :: "rat \<Rightarrow> rat \<Rightarrow> bool" where
  "fits_digits scale x \<longleftrightarrow> \<bar>x * scale\<bar> < 10 ^ 28 - 1 / 2"

definition whole :: "rat \<Rightarrow> bool" where
  "whole x \<longleftrightarrow> of_int \<lfloor>x\<rfloor> = x"

lemma round_half_up_int [simp]: "round_half_up (of_int z) = z"
  unfolding round_half_up_def by (auto simp: floor_eq_iff)

lemma whole_iff: "whole x \<longleftrightarrow> (\<exists>z. x = of_int z)"
  unfolding whole_def by (metis floor_of_int)

lemma half_even_int [simp]: "half_even (of_int z) = z"
  by (simp add: half_even_def)

lemma half_even_near: "\<bar>of_int (half_even x) - x\<bar> \<le> 1 / 2"
  using floor_correct [of x] by (auto simp: half_even_def Let_def)

lemma round_half_up_near: "\<bar>of_int (round_half_up x) - x\<bar> \<le> 1 / 2"
proof (cases "0 \<le> x")
  case True
  then have "of_int (round_half_up x) \<le> x + 1 / 2" "x + 1 / 2 < of_int (round_half_up x) + 1"
    using floor_correct [of "x + 1 / 2"]
    by (simp_all only: round_half_up_def if_True of_int_add of_int_1)
  then show ?thesis by linarith
next
  case False
  then have "of_int (- round_half_up x) \<le> 1 / 2 - x" "1 / 2 - x < of_int (- round_half_up x) + 1"
    using floor_correct [of "1 / 2 - x"]
    by (simp_all only: round_half_up_def if_False minus_minus of_int_add of_int_1)
  then show ?thesis by linarith
qed

lemma half_even_nonneg: "0 \<le> x \<Longrightarrow> 0 \<le> half_even x"
  by (auto simp: half_even_def Let_def)

lemma round_half_up_nonneg: "0 \<le> x \<Longrightarrow> 0 \<le> round_half_up x"
  by (simp add: round_half_up_def)

lemma round_half_up_mono: "x \<le> y \<Longrightarrow> round_half_up x \<le> round_half_up y"
proof -
  assume le: "x \<le> y"
  consider "0 \<le> x" | "x < 0" "0 \<le> y" | "y < 0" using le by linarith
  then show ?thesis
  proof cases
    case 1
    then show ?thesis using le by (simp add: round_half_up_def floor_mono)
  next
    case 2
    have "0 \<le> \<lfloor>1 / 2 - x\<rfloor>" "0 \<le> \<lfloor>y + 1 / 2\<rfloor>" using 2 by simp_all
    then have "- \<lfloor>1 / 2 - x\<rfloor> \<le> \<lfloor>y + 1 / 2\<rfloor>" by linarith
    then show ?thesis using 2 by (auto simp only: round_half_up_def if_True if_False not_le split: if_split)
  next
    case 3
    have "\<lfloor>1 / 2 - y\<rfloor> \<le> \<lfloor>1 / 2 - x\<rfloor>" using le by (intro floor_mono) simp
    then show ?thesis using 3 le by (simp add: round_half_up_def)
  qed
qed

subsection \<open>The context of 28 digits\<close>

text \<open>The number of decimal digits of a positive integer, and the exponent of the leading digit.\<close>

function digits10 :: "int \<Rightarrow> int" where
  "digits10 n = (if n < 10 then 1 else digits10 (n div 10) + 1)"
  by pat_completeness auto

termination by (relation "measure nat") auto

declare digits10.simps [simp del]

definition pow10 :: "int \<Rightarrow> rat" where
  "pow10 k = (if 0 \<le> k then 10 ^ nat k else 1 / 10 ^ nat (- k))"

definition decimal_exponent :: "rat \<Rightarrow> int" where
  "decimal_exponent x =
     (case quotient_of \<bar>x\<bar> of
        (p, q) \<Rightarrow> let e = digits10 p - digits10 q in if pow10 e \<le> \<bar>x\<bar> then e else e - 1)"

text \<open>The context's rounding, and the four operations.\<close>

definition dec :: "rat \<Rightarrow> rat" where
  "dec x =
     (if x = 0 then 0 else let u = pow10 (decimal_exponent x - 27) in of_int (half_even (x / u)) * u)"

definition dec_add :: "rat \<Rightarrow> rat \<Rightarrow> rat" where "dec_add x y = dec (x + y)"
definition dec_sub :: "rat \<Rightarrow> rat \<Rightarrow> rat" where "dec_sub x y = dec (x - y)"
definition dec_mul :: "rat \<Rightarrow> rat \<Rightarrow> rat" where "dec_mul x y = dec (x * y)"
definition dec_div :: "rat \<Rightarrow> rat \<Rightarrow> rat" where "dec_div x y = dec (x / y)"

text \<open>\<open>quantize(Decimal("0.0001"))\<close>; \<open>None\<close> is \<open>InvalidOperation\<close>.\<close>

definition quantize4 :: "rat \<Rightarrow> rat option" where
  "quantize4 x =
     (let n = half_even (x * 10000) in if \<bar>n\<bar> < 10 ^ 28 then Some (of_int n / 10000) else None)"

text \<open>What a column of scale 4 holds.\<close>

definition store4 :: "rat \<Rightarrow> rat" where
  "store4 x = of_int (round_half_up (x * 10000)) / 10000"

lemma pow10_pos [simp]: "0 < pow10 k"
  by (simp add: pow10_def)

lemma pow10_nonzero [simp]: "pow10 k \<noteq> 0"
  using pow10_pos [of k] by linarith

lemma pow10_0 [simp]: "pow10 0 = 1"
  by (simp add: pow10_def)

lemma pow10_Suc: "pow10 (k + 1) = 10 * pow10 k"
proof (cases "0 \<le> k")
  case True
  then show ?thesis by (simp add: pow10_def nat_add_distrib)
next
  case False
  then have "nat (- k) = Suc (nat (- (k + 1)))" by simp
  then show ?thesis using False by (auto simp: pow10_def not_le)
qed

lemma pow10_add_nat: "pow10 (k + int n) = pow10 k * 10 ^ n"
proof (induction n)
  case (Suc n)
  have "pow10 (k + int (Suc n)) = pow10 (k + int n + 1)" by (simp add: ac_simps)
  then show ?case using Suc by (simp add: pow10_Suc)
qed simp

lemma pow10_add: "pow10 (k + l) = pow10 k * pow10 l"
proof (cases "0 \<le> l")
  case True
  then show ?thesis using pow10_add_nat [of k "nat l"] by (simp add: pow10_def)
next
  case False
  then have "pow10 k = pow10 (k + l) * 10 ^ nat (- l)" using pow10_add_nat [of "k + l" "nat (- l)"] by simp
  then show ?thesis using False by (simp add: pow10_def)
qed

lemma pow10_mono: "k \<le> l \<Longrightarrow> pow10 k \<le> pow10 l"
  using pow10_add_nat [of k "nat (l - k)"] mult_left_mono [of 1 "10 ^ nat (l - k)" "pow10 k"]
  by (simp add: less_imp_le)

lemma pow10_less_cancel: "pow10 k < pow10 l \<Longrightarrow> k < l"
  using pow10_mono [of l k] by linarith

subsection \<open>When the context is exact\<close>

lemma digits10_pos: "1 \<le> digits10 n"
proof (induction n rule: digits10.induct)
  case (1 n)
  then show ?case by (subst digits10.simps) fastforce
qed

lemma digits10_upper: "of_int n < pow10 (digits10 n)"
proof (induction n rule: digits10.induct)
  case (1 n)
  show ?case
  proof (cases "n < 10")
    case True
    then show ?thesis by (subst digits10.simps) (simp add: pow10_def)
  next
    case False
    then have "of_int (n div 10) < pow10 (digits10 (n div 10))" by (rule 1)
    moreover have "\<exists>m::int. pow10 (digits10 (n div 10)) = of_int m"
      using digits10_pos [of "n div 10"] by (intro exI [of _ "10 ^ nat (digits10 (n div 10))"]) (simp add: pow10_def)
    ultimately have "of_int (n div 10) + 1 \<le> pow10 (digits10 (n div 10))"
      by (metis of_int_1 of_int_add of_int_le_iff of_int_less_iff zless_imp_add1_zle)
    moreover have "(of_int n :: rat) < 10 * (of_int (n div 10) + 1)"
    proof -
      have "n < 10 * (n div 10 + 1)" by simp
      then have "(of_int n :: rat) < of_int (10 * (n div 10 + 1))" by (simp only: of_int_less_iff)
      then show ?thesis by simp
    qed
    ultimately have "(of_int n :: rat) < 10 * pow10 (digits10 (n div 10))" by linarith
    then show ?thesis using False by (subst digits10.simps) (simp add: pow10_Suc)
  qed
qed

lemma digits10_lower: "0 < n \<Longrightarrow> pow10 (digits10 n - 1) \<le> of_int n"
proof (induction n rule: digits10.induct)
  case (1 n)
  show ?case
  proof (cases "n < 10")
    case True
    then show ?thesis using 1(2) by (subst digits10.simps) simp
  next
    case False
    then have "pow10 (digits10 (n div 10) - 1) \<le> of_int (n div 10)" using 1 by simp
    moreover have "(10 * of_int (n div 10) :: rat) \<le> of_int n"
    proof -
      have "10 * (n div 10) \<le> n" by simp
      then have "(of_int (10 * (n div 10)) :: rat) \<le> of_int n" by (simp only: of_int_le_iff)
      then show ?thesis by simp
    qed
    ultimately have "10 * pow10 (digits10 (n div 10) - 1) \<le> of_int n" by linarith
    then show ?thesis using False pow10_Suc [of "digits10 (n div 10) - 1"]
      by (subst digits10.simps) simp
  qed
qed

lemma adjusted_lower:
  assumes "x \<noteq> 0"
  shows "pow10 (decimal_exponent x) \<le> \<bar>x\<bar>"
proof -
  obtain p q where pq: "quotient_of \<bar>x\<bar> = (p, q)" by fastforce
  then have q: "0 < q" and x: "\<bar>x\<bar> = of_int p / of_int q"
    by (simp_all add: quotient_of_denom_pos quotient_of_div)
  have p: "0 < p" 
  proof -
    have "0 < rat_of_int p / rat_of_int q" using assms by (simp flip: x)
    then show ?thesis using q by (simp add: zero_less_divide_iff)
  qed
  have "pow10 (digits10 p - 1) / pow10 (digits10 q) \<le> of_int p / of_int q"
    using digits10_lower [OF p] digits10_upper [of q] q by (intro frac_le) (simp_all add: p less_imp_le)
  moreover have "pow10 (digits10 p - digits10 q - 1) * pow10 (digits10 q) = pow10 (digits10 p - 1)"
    by (simp flip: pow10_add)
  ultimately have "pow10 (digits10 p - digits10 q - 1) \<le> \<bar>x\<bar>"
    unfolding x by (metis nonzero_mult_div_cancel_right pow10_nonzero)
  then show ?thesis by (simp add: decimal_exponent_def pq Let_def)
qed

lemma dec_exact:
  assumes "x * pow10 k = of_int m" "\<bar>m\<bar> < 10 ^ 28"
  shows "dec x = x"
proof (cases "x = 0")
  case False
  define u where "u = pow10 (decimal_exponent x - 27)"
  have big: "(10 ^ 28 :: rat) = pow10 28" unfolding pow10_def by (simp only: nat_numeral) simp
  have "(of_int \<bar>m\<bar> :: rat) < of_int (10 ^ 28)" using assms(2) by (simp only: of_int_less_iff)
  then have m: "of_int \<bar>m\<bar> < pow10 28" by (simp only: of_int_power of_int_numeral big)
  have "pow10 (decimal_exponent x + k) \<le> \<bar>x\<bar> * pow10 k"
    using adjusted_lower [OF False] by (simp add: pow10_add mult_right_mono less_imp_le)
  also have "\<dots> = \<bar>x * pow10 k\<bar>" by (simp only: abs_mult abs_of_pos [OF pow10_pos])
  also have "\<dots> = of_int \<bar>m\<bar>" by (simp only: assms(1) of_int_abs)
  also have "\<dots> < pow10 28" by (rule m)
  finally have "decimal_exponent x + k < 28" by (rule pow10_less_cancel)
  then have j: "0 \<le> 27 - decimal_exponent x - k" by simp
  have "pow10 (27 - decimal_exponent x) * u = 1" by (simp add: u_def flip: pow10_add)
  moreover have "u \<noteq> 0" by (simp add: u_def)
  ultimately have inv: "1 / u = pow10 (27 - decimal_exponent x)" by (simp add: divide_eq_eq)
  have "x / u = x * pow10 (27 - decimal_exponent x)" using inv by (simp add: divide_inverse)
  also have "\<dots> = x * pow10 k * pow10 (27 - decimal_exponent x - k)"
    by (simp add: mult.assoc flip: pow10_add)
  also have "\<dots> = of_int (m * 10 ^ nat (27 - decimal_exponent x - k))"
    using assms(1) j by (simp add: pow10_def)
  finally have "of_int (half_even (x / u)) = x / u" by (simp only: half_even_int)
  then show ?thesis using False by (simp add: dec_def Let_def u_def)
qed (simp add: dec_def)

lemma dec_nonneg: "0 \<le> x \<Longrightarrow> 0 \<le> dec x"
  by (simp add: dec_def Let_def half_even_nonneg less_imp_le)

lemma quantize4_eq: "quantize4 x = Some y \<Longrightarrow> y = of_int (half_even (x * 10000)) / 10000"
  by (simp add: quantize4_def Let_def split: if_splits)

lemma quantize4_nonneg: "quantize4 x = Some y \<Longrightarrow> 0 \<le> x \<Longrightarrow> 0 \<le> y"
  by (frule quantize4_eq) (use half_even_nonneg [of "x * 10000"] in simp)

lemma quantize4_near: "quantize4 x = Some y \<Longrightarrow> \<bar>y - x\<bar> \<le> 1 / 20000"
proof -
  assume "quantize4 x = Some y"
  then have "y = of_int (half_even (x * 10000)) / 10000" by (rule quantize4_eq)
  then show ?thesis using half_even_near [of "x * 10000"] by linarith
qed

lemma quantize4_scaled: "quantize4 x = Some y \<Longrightarrow> \<exists>n. y = of_int n / 10000"
  by (drule quantize4_eq) blast

lemma store4_scaled [simp]: "store4 (of_int n / 10000) = of_int n / 10000"
  by (simp add: store4_def)

lemma store4_idem [simp]: "store4 (store4 x) = store4 x"
  by (simp add: store4_def)

lemma store4_mono: "x \<le> y \<Longrightarrow> store4 x \<le> store4 y"
  by (simp add: store4_def divide_right_mono round_half_up_mono)

lemma store4_nonneg: "0 \<le> x \<Longrightarrow> 0 \<le> store4 x"
  by (simp add: store4_def round_half_up_nonneg)

lemma quantize4_stored: "quantize4 x = Some y \<Longrightarrow> store4 y = y"
  using quantize4_scaled by fastforce

end
