(* ===== verification/Accounting.thy ===== *)
theory Accounting
  imports PlateNormalization PyJson Decimals "HOL-Library.List_Lexorder" "HOL-Library.Char_ord"
begin

section \<open>Resource accounting: meters, periods, readings\<close>

text \<open>
  \<open>resource-accounting/backend/app\<close>: the tables of \<open>models/*.py\<close> and the service
  \<open>services/readings.py\<close>.  The service's sessions do not flush before a query
  (\<open>autoflush=False\<close>), so a query sees the rows as last flushed and returns the objects as changed
  in memory: where that matters a function takes both, the stored rows and the session's.  A date is
  the ordinal of \<open>date.toordinal\<close>, a UUID an integer, the texts of \<open>validation_message\<close> are values of
  \<open>validation_note\<close>.  The columns \<open>created_at\<close> and \<open>updated_at\<close> are left out.
\<close>

datatype api_error = Api_400 | Api_403 | Api_404 | Api_409 | Api_422 | Api_500

subsection \<open>Tables\<close>

record account =
  ac_id :: int
  ac_tenant :: int
  ac_role :: string
  ac_name :: utext

record resource_object =
  ro_id :: int
  ro_tenant :: int
  ro_name :: utext
  ro_code :: "utext option"
  ro_type :: "int option"
  ro_parent :: "int option"
  ro_description :: "utext option"
  ro_sort :: int
  ro_active :: bool

record meter =
  me_id :: int
  me_tenant :: int
  me_number :: utext
  me_normalized :: utext
  me_name :: utext
  me_resource :: string
  me_unit :: string
  me_description :: utext
  me_location :: utext
  me_status :: string
  me_object :: int
  me_provider :: "int option"
  me_account :: "utext option"
  me_serial :: "utext option"
  me_coefficient :: rat
  me_max_digits :: "nat option"
  me_installed :: "int option"
  me_removed :: "int option"
  me_replaces :: "int option"
  me_photo :: "utext option"
  me_note :: "utext option"

record meter_link =
  ml_meter :: int
  ml_object :: int
  ml_description :: "utext option"
  ml_percent :: "rat option"

record reporting_period =
  pe_id :: int
  pe_tenant :: int
  pe_month :: string
  pe_status :: string

text \<open>What a validation message says; \<open>Corrected\<close> is the prefix of a correction.\<close>

datatype validation_note =
    Negative_value | Above_capacity nat | Date_in_future | Date_outside_window
  | Below_previous rat rat | Above_threshold rat rat | Change_above rat rat | Deviation_above nat rat rat

datatype message = Notes "validation_note list" | Corrected utext "validation_note list"

record reading =
  rd_id :: int
  rd_tenant :: int
  rd_meter :: int
  rd_period :: int
  rd_value :: "rat option"
  rd_read_at :: "int option"
  rd_kind :: string
  rd_previous :: "rat option"
  rd_consumption :: "rat option"
  rd_status :: string
  rd_message :: "message option"
  rd_missing_reason :: "string option"
  rd_comment :: "utext option"
  rd_photo :: "utext option"
  rd_created_by :: "int option"
  rd_updated_by :: "int option"

record revision =
  rv_reading :: int
  rv_old :: "rat option"
  rv_new :: "rat option"
  rv_kind :: string
  rv_reason :: "utext option"
  rv_actor :: "int option"
  rv_actor_name :: "utext option"
  rv_at :: instant

record anomaly_rule =
  an_tenant :: int
  an_resource :: string
  an_abs :: "rat option"
  an_pct :: "rat option"
  an_window :: nat
  an_avg :: "rat option"

text \<open>An audit row, without the actor's name, the correlation id and the time; the values of its
  \<open>before\<close> and \<open>after\<close> are texts, decimals, numbers or ids.\<close>

datatype audit_value = Au_text utext | Au_str string | Au_dec "rat option" | Au_nat nat | Au_ref "int option" | Au_bool bool

record book_audit_row =
  au_tenant :: int
  au_entity :: string
  au_entity_id :: int
  au_action :: string
  au_before :: "(string \<times> audit_value) list"
  au_after :: "(string \<times> audit_value) list"
  au_actor :: int

text \<open>\<open>bk_tags\<close> holds the id and the tenant of every tag, \<open>bk_meter_tags\<close> and \<open>bk_object_tags\<close> the
  pairs of an owner and a tag.\<close>

record books =
  bk_objects :: "resource_object list"
  bk_meters :: "meter list"
  bk_links :: "meter_link list"
  bk_periods :: "reporting_period list"
  bk_readings :: "reading list"
  bk_revisions :: "revision list"
  bk_rules :: "anomaly_rule list"
  bk_tags :: "(int \<times> int) list"
  bk_meter_tags :: "(int \<times> int) list"
  bk_object_tags :: "(int \<times> int) list"
  bk_audit :: "book_audit_row list"

text \<open>What a call takes from outside: the date, the clock, fresh UUIDs.\<close>

record call_env =
  ev_today :: int
  ev_now :: instant
  ev_uuid :: "nat \<Rightarrow> int"

definition write_audit ::
  "account \<Rightarrow> string \<Rightarrow> int \<Rightarrow> string \<Rightarrow> (string \<times> audit_value) list \<Rightarrow> (string \<times> audit_value) list \<Rightarrow> books \<Rightarrow> books"
where
  "write_audit user entity i action was now db =
     db\<lparr>bk_audit := bk_audit db @
       [\<lparr>au_tenant = ac_tenant user, au_entity = entity, au_entity_id = i, au_action = action,
         au_before = was, au_after = now, au_actor = ac_id user\<rparr>]\<rparr>"

subsection \<open>Meter numbers\<close>

fun py_words :: "utext \<Rightarrow> utext list" where
  "py_words [] = []"
| "py_words (c # cs) =
     (if py_space_point c then py_words cs
      else case py_words cs of
             [] \<Rightarrow> [[c]]
           | w # ws \<Rightarrow> if cs = [] \<or> py_space_point (hd cs) then [c] # w # ws else (c # w) # ws)"

fun join_words :: "utext list \<Rightarrow> utext" where
  "join_words [] = []"
| "join_words [w] = w"
| "join_words (w # ws) = w @ 32 # join_words ws"

definition normalize_meter_number :: "utext \<Rightarrow> utext" where
  "normalize_meter_number raw = concat (map upper_point (join_words (py_words raw)))"

subsection \<open>Months\<close>

definition leap_year :: "int \<Rightarrow> bool" where
  "leap_year y \<longleftrightarrow> y mod 4 = 0 \<and> (y mod 100 \<noteq> 0 \<or> y mod 400 = 0)"

definition date_ordinal :: "int \<Rightarrow> int \<Rightarrow> int \<Rightarrow> int" where
  "date_ordinal y m d =
     365 * (y - 1) + (y - 1) div 4 - (y - 1) div 100 + (y - 1) div 400
     + [0, 31, 59, 90, 120, 151, 181, 212, 243, 273, 304, 334] ! nat (m - 1)
     + (if 2 < m \<and> leap_year y then 1 else 0) + d"

definition max_date :: int where "max_date = 3652059"

text \<open>First and last day; \<open>None\<close> is a date \<open>datetime\<close> cannot hold.\<close>

definition period_month_bounds :: "string \<Rightarrow> (int \<times> int) option" where
  "period_month_bounds month =
     (let y = digits_val (take 4 month); m = digits_val (take 2 (drop 5 month))
      in if y < 1 \<or> 9999 < y \<or> m < 1 \<or> 12 < m \<or> y = 9999 \<and> m = 12 then None
         else Some (date_ordinal y m 1,
                    (if m = 12 then date_ordinal (y + 1) 1 1 else date_ordinal y (m + 1) 1) - 1))"

subsection \<open>Queries over readings\<close>

definition joined :: "reporting_period list \<Rightarrow> reading list \<Rightarrow> (reading \<times> reporting_period) list" where
  "joined periods rows =
     concat (map (\<lambda>r. case first_row (\<lambda>p. pe_id p = rd_period r) periods of
                        None \<Rightarrow> [] | Some p \<Rightarrow> [(r, p)]) rows)"

definition accepted_status :: "reading \<Rightarrow> bool" where
  "accepted_status r \<longleftrightarrow> rd_status r \<in> {''ok'', ''warning''}"

definition baseline_rows :: "reporting_period list \<Rightarrow> reading list \<Rightarrow> string \<Rightarrow> (reading \<times> reporting_period) list" where
  "baseline_rows periods rows month =
     filter (\<lambda>(r, p). rd_value r \<noteq> None \<and> accepted_status r \<and> pe_month p < month) (joined periods rows)"

text \<open>\<open>ORDER BY month DESC LIMIT 1\<close>.\<close>

fun latest_month :: "(reading \<times> reporting_period) list \<Rightarrow> (reading \<times> reporting_period) option" where
  "latest_month [] = None"
| "latest_month (x # xs) =
     (case latest_month xs of
        None \<Rightarrow> Some x
      | Some y \<Rightarrow> if pe_month (snd x) < pe_month (snd y) then Some y else Some x)"

text \<open>The query runs on the stored rows and returns the session's object.\<close>

definition get_previous_accepted ::
  "reporting_period list \<Rightarrow> reading list \<Rightarrow> reading list \<Rightarrow> int \<Rightarrow> string \<Rightarrow> reading option"
where
  "get_previous_accepted periods stored session meter_id month =
     (case latest_month (filter (\<lambda>(r, p). rd_meter r = meter_id) (baseline_rows periods stored month)) of
        None \<Rightarrow> None
      | Some (r, p) \<Rightarrow> first_row (\<lambda>s. rd_id s = rd_id r) session)"

text \<open>\<open>row_number() OVER (PARTITION BY meter_id ORDER BY month DESC)\<close>.\<close>

definition month_desc :: "(reading \<times> reporting_period) list \<Rightarrow> (reading \<times> reporting_period) list" where
  "month_desc xs = rev (sort_key (pe_month \<circ> snd) (rev xs))"

definition row_numbers :: "int list \<Rightarrow> (reading \<times> reporting_period) list \<Rightarrow> (int \<times> nat) list" where
  "row_numbers meter_ids xs =
     concat (map (\<lambda>m. let part = month_desc (filter (\<lambda>(r, p). rd_meter r = m) xs)
                      in zip (map (rd_id \<circ> fst) part) [1..<Suc (length part)]) (remdups meter_ids))"

definition get_previous_accepted_bulk ::
  "reporting_period list \<Rightarrow> reading list \<Rightarrow> int list \<Rightarrow> string \<Rightarrow> int \<Rightarrow> reading option"
where
  "get_previous_accepted_bulk periods rows meter_ids month =
     (let latest = map fst (filter (\<lambda>(i, rn). rn = 1) (row_numbers meter_ids (baseline_rows periods rows month)))
      in map_of (rev (map (\<lambda>r. (rd_meter r, r)) (filter (\<lambda>r. rd_id r \<in> set latest) rows))))"

definition get_recent_consumptions :: "reporting_period list \<Rightarrow> reading list \<Rightarrow> int \<Rightarrow> string \<Rightarrow> nat \<Rightarrow> rat list" where
  "get_recent_consumptions periods stored meter_id month window =
     take window (map (\<lambda>(r, p). the (rd_consumption r))
       (month_desc (filter (\<lambda>(r, p). rd_meter r = meter_id \<and> rd_consumption r \<noteq> None \<and> pe_month p < month)
          (joined periods stored))))"

subsection \<open>Consumption and validation\<close>

definition quantized :: "rat \<Rightarrow> api_error + rat" where
  "quantized x = (case quantize4 x of None \<Rightarrow> Inl Api_500 | Some y \<Rightarrow> Inr y)"

definition compute_consumption ::
  "rat option \<Rightarrow> rat \<Rightarrow> rat \<Rightarrow> string \<Rightarrow> nat option \<Rightarrow> api_error + rat"
where
  "compute_consumption previous current coefficient kind max_digits =
     (case previous of
        None \<Rightarrow> quantized (dec_mul current coefficient)
      | Some p \<Rightarrow>
          if kind = ''replacement'' then quantized (dec_mul current coefficient)
          else if kind = ''rollover'' then
            (case max_digits of
               None \<Rightarrow> Inl Api_400
             | Some d \<Rightarrow>
                 if d = 0 then Inl Api_400
                 else quantized (dec_mul (dec_add (dec_sub (10 ^ d) p) current) coefficient))
          else quantized (dec_mul (dec_sub current p) coefficient))"

text \<open>\<open>scalar_one_or_none\<close> of the tenant's rule for the resource.\<close>

definition rule_of :: "anomaly_rule list \<Rightarrow> meter \<Rightarrow> anomaly_rule option" where
  "rule_of thresholds m = first_row (\<lambda>a. an_tenant a = me_tenant m \<and> an_resource a = me_resource m) thresholds"

definition dec_sum :: "rat list \<Rightarrow> rat" where
  "dec_sum xs = foldl dec_add 0 xs"

definition percent_off :: "rat \<Rightarrow> rat \<Rightarrow> rat" where
  "percent_off x base = dec_mul (dec_div \<bar>dec_sub x base\<bar> base) 100"

definition check_anomaly ::
  "anomaly_rule list \<Rightarrow> reporting_period list \<Rightarrow> reading list \<Rightarrow> meter \<Rightarrow> string \<Rightarrow> rat \<Rightarrow> validation_note option"
where
  "check_anomaly thresholds periods stored m month consumption =
     (case rule_of thresholds m of
        None \<Rightarrow> None
      | Some rule \<Rightarrow>
          if (case an_abs rule of None \<Rightarrow> False | Some t \<Rightarrow> consumption > t)
          then Some (Above_threshold consumption (the (an_abs rule)))
          else
            let history = get_recent_consumptions periods stored (me_id m) month (an_window rule) in
            if history = [] then None
            else
              let latest = hd history; avg = dec_div (dec_sum history) (of_nat (length history)) in
              if (case an_pct rule of None \<Rightarrow> False | Some t \<Rightarrow> latest > 0 \<and> percent_off consumption latest > t)
              then Some (Change_above (percent_off consumption latest) (the (an_pct rule)))
              else if (case an_avg rule of None \<Rightarrow> False | Some t \<Rightarrow> avg > 0 \<and> percent_off consumption avg > t)
              then Some (Deviation_above (length history) (percent_off consumption avg) (the (an_avg rule)))
              else None)"

text \<open>The two checks of the date; \<open>None\<close> is a date outside the calendar, an uncaught exception.\<close>

definition date_notes :: "int \<Rightarrow> string \<Rightarrow> int \<Rightarrow> validation_note list option" where
  "date_notes today month read_at =
     (case period_month_bounds month of
        None \<Rightarrow> None
      | Some (lo, hi) \<Rightarrow>
          if max_date < max today hi + 1 \<or> lo - 15 < 1 then None
          else if lo - 15 \<le> read_at \<and> max_date < hi + 15 then None
          else Some ((if max today hi + 1 < read_at then [Date_in_future] else [])
                     @ (if lo - 15 \<le> read_at \<and> read_at \<le> hi + 15 then [] else [Date_outside_window])))"

definition value_notes :: "meter \<Rightarrow> rat \<Rightarrow> validation_note list" where
  "value_notes m v =
     (if v < 0 then [Negative_value] else [])
     @ (case me_max_digits m of None \<Rightarrow> [] | Some d \<Rightarrow> if d \<noteq> 0 \<and> 10 ^ d \<le> v then [Above_capacity d] else [])"

definition decrease_notes :: "rat option \<Rightarrow> rat \<Rightarrow> string \<Rightarrow> validation_note list" where
  "decrease_notes previous v kind =
     (case previous of None \<Rightarrow> [] | Some p \<Rightarrow> if v < p \<and> kind = ''normal'' then [Below_previous v p] else [])"

record evaluation =
  vl_consumption :: "rat option"
  vl_status :: string
  vl_notes :: "validation_note list option"

definition evaluate_value ::
  "int \<Rightarrow> anomaly_rule list \<Rightarrow> reporting_period list \<Rightarrow> reading list \<Rightarrow> meter \<Rightarrow> string \<Rightarrow> rat option
     \<Rightarrow> rat \<Rightarrow> int option \<Rightarrow> string \<Rightarrow> api_error + evaluation"
where
  "evaluate_value today thresholds periods stored m month previous v read_at kind =
     (case (case read_at of None \<Rightarrow> Some [] | Some d \<Rightarrow> date_notes today month d) of
        None \<Rightarrow> Inl Api_500
      | Some date_errors \<Rightarrow>
          let errors = value_notes m v @ date_errors @ decrease_notes previous v kind in
          if errors \<noteq> [] then Inr \<lparr>vl_consumption = None, vl_status = ''error'', vl_notes = Some errors\<rparr>
          else
            res_bind (compute_consumption previous v (me_coefficient m) kind (me_max_digits m)) (\<lambda>c.
              case check_anomaly thresholds periods stored m month c of
                Some w \<Rightarrow> Inr \<lparr>vl_consumption = Some c, vl_status = ''warning'', vl_notes = Some [w]\<rparr>
              | None \<Rightarrow> Inr \<lparr>vl_consumption = Some c, vl_status = ''ok'', vl_notes = None\<rparr>))"

definition fill_evaluation :: "evaluation \<Rightarrow> reading \<Rightarrow> reading" where
  "fill_evaluation e r =
     r\<lparr>rd_consumption := vl_consumption e, rd_status := vl_status e,
       rd_message := map_option Notes (vl_notes e)\<rparr>"

subsection \<open>Saving a reading\<close>

record reading_in =
  in_value :: "rat option"
  in_read_at :: "int option"
  in_kind :: string
  in_missing_reason :: "string option"
  in_comment :: "utext option"
  in_photo :: "utext option"

definition value_of :: "reading option \<Rightarrow> rat option" where
  "value_of r = Option.bind r rd_value"

definition validate_and_fill ::
  "int \<Rightarrow> books \<Rightarrow> meter \<Rightarrow> reporting_period \<Rightarrow> reading_in \<Rightarrow> reading \<Rightarrow> api_error + reading"
where
  "validate_and_fill today db m p data reading =
     (let prev = value_of (get_previous_accepted (bk_periods db) (bk_readings db) (bk_readings db) (me_id m) (pe_month p));
          r = reading\<lparr>rd_kind := in_kind data, rd_missing_reason := in_missing_reason data,
                rd_comment := in_comment data, rd_photo := in_photo data, rd_previous := prev\<rparr>
      in case in_value data of
           None \<Rightarrow>
             if py_truthy_str (in_missing_reason data) then
               Inr (r\<lparr>rd_value := None, rd_read_at := None, rd_consumption := None,
                      rd_status := ''missing'', rd_message := None\<rparr>)
             else Inl Api_400
         | Some v \<Rightarrow>
             (case period_month_bounds (pe_month p) of
                None \<Rightarrow> Inl Api_500
              | Some (lo, hi) \<Rightarrow>
                  let read_at = (case in_read_at data of Some d \<Rightarrow> d | None \<Rightarrow> min (max today lo) hi) in
                  res_bind (evaluate_value today (bk_rules db) (bk_periods db) (bk_readings db) m (pe_month p)
                              prev v (Some read_at) (in_kind data)) (\<lambda>e.
                    Inr (fill_evaluation e (r\<lparr>rd_value := Some v, rd_read_at := Some read_at\<rparr>)))))"

text \<open>\<open>Numeric(18, 4)\<close> columns: what fits, and what a row holds once written.\<close>

definition numeric_fits :: "rat option \<Rightarrow> bool" where
  "numeric_fits x = (case x of None \<Rightarrow> True | Some v \<Rightarrow> \<bar>store4 v\<bar> < 10 ^ 14)"

definition reading_fits :: "reading \<Rightarrow> bool" where
  "reading_fits r \<longleftrightarrow> numeric_fits (rd_value r) \<and> numeric_fits (rd_previous r) \<and> numeric_fits (rd_consumption r)"

definition store_reading :: "reading \<Rightarrow> reading" where
  "store_reading r =
     r\<lparr>rd_value := map_option store4 (rd_value r), rd_previous := map_option store4 (rd_previous r),
       rd_consumption := map_option store4 (rd_consumption r)\<rparr>"

definition store_revision :: "revision \<Rightarrow> revision" where
  "store_revision v = v\<lparr>rv_old := map_option store4 (rv_old v), rv_new := map_option store4 (rv_new v)\<rparr>"

definition commit_books :: "books \<Rightarrow> books" where
  "commit_books db =
     db\<lparr>bk_readings := map store_reading (bk_readings db), bk_revisions := map store_revision (bk_revisions db)\<rparr>"

definition editable_statuses :: "string list" where
  "editable_statuses = [''open'', ''review'']"

definition new_reading :: "int \<Rightarrow> account \<Rightarrow> meter \<Rightarrow> reporting_period \<Rightarrow> reading" where
  "new_reading i actor m p =
     \<lparr>rd_id = i, rd_tenant = me_tenant m, rd_meter = me_id m, rd_period = pe_id p, rd_value = None,
      rd_read_at = None, rd_kind = ''normal'', rd_previous = None, rd_consumption = None,
      rd_status = ''missing'', rd_message = None, rd_missing_reason = None, rd_comment = None,
      rd_photo = None, rd_created_by = Some (ac_id actor), rd_updated_by = None\<rparr>"

definition put_row :: "reading \<Rightarrow> reading list \<Rightarrow> reading list" where
  "put_row r rows =
     (if list_ex (\<lambda>s. rd_id s = rd_id r) rows then upd_where (\<lambda>s. rd_id s = rd_id r) (\<lambda>_. r) rows
      else rows @ [r])"

text \<open>\<open>i\<close> is the UUID of the row if it is new.\<close>

definition upsert_reading ::
  "int \<Rightarrow> instant \<Rightarrow> int \<Rightarrow> books \<Rightarrow> meter \<Rightarrow> reporting_period \<Rightarrow> reading_in \<Rightarrow> account \<Rightarrow> api_error + (books \<times> reading)"
where
  "upsert_reading today now i db m p data actor =
     (if pe_status p \<notin> set editable_statuses then Inl Api_409
      else if me_status m \<noteq> ''active'' then Inl Api_400
      else
        let old = first_row (\<lambda>r. rd_meter r = me_id m \<and> rd_period r = pe_id p) (bk_readings db);
            base = (case old of Some r \<Rightarrow> r | None \<Rightarrow> new_reading i actor m p)
        in res_bind (validate_and_fill today db m p data base) (\<lambda>filled.
             let r = filled\<lparr>rd_updated_by := Some (ac_id actor)\<rparr> in
             if \<not> reading_fits r then Inl Api_500
             else
               Inr (db\<lparr>bk_readings := put_row r (bk_readings db),
                       bk_revisions := bk_revisions db @
                         (if value_of old = rd_value r then []
                          else [\<lparr>rv_reading = rd_id r, rv_old = value_of old, rv_new = rd_value r,
                                 rv_kind = in_kind data, rv_reason = in_comment data, rv_actor = Some (ac_id actor),
                                 rv_actor_name = Some (ac_name actor), rv_at = now\<rparr>])\<rparr>, r)))"

subsection \<open>Corrections\<close>

text \<open>The loop of \<open>recompute_forward\<close> over the later rows: queries read \<open>stored\<close>, objects are the
  session's.\<close>

fun recompute_rows ::
  "int \<Rightarrow> books \<Rightarrow> meter \<Rightarrow> (reading \<times> reporting_period) list \<Rightarrow> reading list \<Rightarrow> api_error + reading list"
where
  "recompute_rows today stored m [] session = Inr session"
| "recompute_rows today stored m ((row, p) # later) session =
     (case first_row (\<lambda>s. rd_id s = rd_id row) session of
        None \<Rightarrow> recompute_rows today stored m later session
      | Some r \<Rightarrow>
          if pe_status p = ''closed'' then recompute_rows today stored m later session
          else case rd_value r of
            None \<Rightarrow> recompute_rows today stored m later session
          | Some v \<Rightarrow>
              let prev = value_of (get_previous_accepted (bk_periods stored) (bk_readings stored) session
                                     (me_id m) (pe_month p)) in
              res_bind (evaluate_value today (bk_rules stored) (bk_periods stored) (bk_readings stored) m
                          (pe_month p) prev v (rd_read_at r) (rd_kind r)) (\<lambda>e.
                recompute_rows today stored m later
                  (put_row (fill_evaluation e (r\<lparr>rd_previous := prev\<rparr>)) session)))"

definition later_rows :: "books \<Rightarrow> meter \<Rightarrow> string \<Rightarrow> (reading \<times> reporting_period) list" where
  "later_rows stored m from_month =
     sort_key (pe_month \<circ> snd)
       (filter (\<lambda>(r, p). rd_meter r = me_id m \<and> from_month < pe_month p)
          (joined (bk_periods stored) (bk_readings stored)))"

definition recompute_forward :: "int \<Rightarrow> books \<Rightarrow> meter \<Rightarrow> string \<Rightarrow> reading list \<Rightarrow> api_error + reading list" where
  "recompute_forward today stored m from_month session =
     recompute_rows today stored m (later_rows stored m from_month) session"

definition apply_correction ::
  "int \<Rightarrow> instant \<Rightarrow> books \<Rightarrow> reading \<Rightarrow> meter \<Rightarrow> reporting_period \<Rightarrow> rat \<Rightarrow> utext \<Rightarrow> string \<Rightarrow> account \<Rightarrow> api_error + books"
where
  "apply_correction today now db r m p new_value reason kind actor =
     (let prev = value_of (get_previous_accepted (bk_periods db) (bk_readings db) (bk_readings db) (me_id m) (pe_month p))
      in res_bind (evaluate_value today (bk_rules db) (bk_periods db) (bk_readings db) m (pe_month p)
                     prev new_value (rd_read_at r) kind) (\<lambda>e.
           let r' = r\<lparr>rd_value := Some new_value, rd_kind := kind, rd_previous := prev,
                 rd_consumption := vl_consumption e, rd_status := vl_status e,
                 rd_message := Some (Corrected reason (case vl_notes e of None \<Rightarrow> [] | Some ns \<Rightarrow> ns)),
                 rd_updated_by := Some (ac_id actor)\<rparr>
           in res_bind (recompute_forward today db m (pe_month p) (put_row r' (bk_readings db))) (\<lambda>session.
                Inr (db\<lparr>bk_readings := session,
                        bk_revisions := bk_revisions db @
                          [\<lparr>rv_reading = rd_id r, rv_old = rd_value r, rv_new = Some new_value, rv_kind = kind,
                            rv_reason = Some reason, rv_actor = Some (ac_id actor),
                            rv_actor_name = Some (ac_name actor), rv_at = now\<rparr>]\<rparr>))))"

end
