(* ===== verification/AccountingApi.thy ===== *)
theory AccountingApi
  imports Accounting
begin

section \<open>Resource accounting: periods, readings, corrections over HTTP\<close>

text \<open>
  \<open>api/periods.py\<close>: the handlers, each one transaction.  A handler takes the authenticated account,
  checks its role (403), the schema of the body (422), and returns the committed books or an error
  that leaves them as they were; \<open>Api_500\<close> is an exception no handler catches, among them a value that
  does not fit its column.
\<close>

subsection \<open>Roles\<close>

definition operator_roles :: "string list" where
  "operator_roles = [''resource_admin'', ''resource_operator'']"

definition reviewer_roles :: "string list" where
  "reviewer_roles = [''resource_admin'', ''resource_reviewer'']"

definition staff_roles :: "string list" where
  "staff_roles = [''resource_admin'', ''resource_operator'', ''resource_reviewer'']"

definition viewer_roles :: "string list" where
  "viewer_roles = [''resource_admin'', ''resource_operator'', ''resource_reviewer'', ''resource_viewer'']"

definition reading_entry_roles :: "string list" where
  "reading_entry_roles = operator_roles @ [''resource_meter_entry'']"

definition worksheet_read_roles :: "string list" where
  "worksheet_read_roles = viewer_roles @ [''resource_meter_entry'']"

definition require_roles :: "string list \<Rightarrow> account \<Rightarrow> api_error + 'a \<Rightarrow> api_error + 'a" where
  "require_roles roles user k = (if ac_role user \<in> set roles then k else Inl Api_403)"

definition require_schema :: "bool \<Rightarrow> api_error + 'a \<Rightarrow> api_error + 'a" where
  "require_schema ok k = (if ok then k else Inl Api_422)"

subsection \<open>Schemas\<close>

definition reading_kinds :: "string list" where
  "reading_kinds = [''normal'', ''rollover'', ''replacement'', ''correction'']"

definition missing_reasons :: "string list" where
  "missing_reasons = [''no_access'', ''broken'', ''replaced'', ''other'']"

definition reading_in_ok :: "reading_in \<Rightarrow> bool" where
  "reading_in_ok d \<longleftrightarrow>
     (case in_value d of None \<Rightarrow> True | Some v \<Rightarrow> 0 \<le> v)
     \<and> in_kind d \<in> set reading_kinds
     \<and> (case in_missing_reason d of None \<Rightarrow> True | Some s \<Rightarrow> s \<in> set missing_reasons)"

definition correction_in_ok :: "rat \<Rightarrow> utext \<Rightarrow> string \<Rightarrow> bool" where
  "correction_in_ok v reason kind \<longleftrightarrow> 0 \<le> v \<and> 3 \<le> length reason \<and> kind \<in> set reading_kinds"

definition month_pattern :: "string \<Rightarrow> bool" where
  "month_pattern s \<longleftrightarrow>
     length s = 7 \<and> list_all is_digit (take 4 s) \<and> s ! 4 = CHR ''-''
     \<and> (s ! 5 = CHR ''0'' \<and> is_digit (s ! 6) \<and> s ! 6 \<noteq> CHR ''0''
        \<or> s ! 5 = CHR ''1'' \<and> s ! 6 \<in> {CHR ''0'', CHR ''1'', CHR ''2''})"

subsection \<open>Periods\<close>

definition status_flow :: "(string \<times> string list) list" where
  "status_flow =
     [(''open'', [''review'']), (''review'', [''open'', ''submitted'']), (''submitted'', [''closed'']), (''closed'', [])]"

definition find_period :: "books \<Rightarrow> int \<Rightarrow> string \<Rightarrow> reporting_period option" where
  "find_period db tenant month = first_row (\<lambda>p. pe_tenant p = tenant \<and> pe_month p = month) (bk_periods db)"

definition get_period_or_404 :: "books \<Rightarrow> account \<Rightarrow> string \<Rightarrow> api_error + reporting_period" where
  "get_period_or_404 db user month =
     (case find_period db (ac_tenant user) month of None \<Rightarrow> Inl Api_404 | Some p \<Rightarrow> Inr p)"

definition set_period_status :: "int \<Rightarrow> string \<Rightarrow> books \<Rightarrow> books" where
  "set_period_status i status db =
     db\<lparr>bk_periods := upd_where (\<lambda>p. pe_id p = i) (\<lambda>p. p\<lparr>pe_status := status\<rparr>) (bk_periods db)\<rparr>"

definition transition :: "account \<Rightarrow> string \<Rightarrow> string \<Rightarrow> books \<Rightarrow> api_error + books" where
  "transition user month target db =
     res_bind (get_period_or_404 db user month) (\<lambda>p.
       case map_of status_flow (pe_status p) of
         None \<Rightarrow> Inl Api_500
       | Some targets \<Rightarrow>
           if target \<notin> set targets then Inl Api_409
           else Inr (write_audit user ''period'' (pe_id p) (''status_'' @ target)
                       [(''status'', Au_str (pe_status p))] [(''status'', Au_str target)]
                       (set_period_status (pe_id p) target db)))"

definition create_period :: "call_env \<Rightarrow> account \<Rightarrow> string \<Rightarrow> books \<Rightarrow> api_error + books" where
  "create_period env user month db =
     require_roles operator_roles user (require_schema (month_pattern month)
       (case find_period db (ac_tenant user) month of
          Some _ \<Rightarrow> Inl Api_409
        | None \<Rightarrow>
            let p = \<lparr>pe_id = ev_uuid env 0, pe_tenant = ac_tenant user, pe_month = month, pe_status = ''open''\<rparr>
            in Inr (write_audit user ''period'' (pe_id p) ''create'' [] [(''month'', Au_str month)]
                      (db\<lparr>bk_periods := bk_periods db @ [p]\<rparr>))))"

definition move_to_review :: "account \<Rightarrow> string \<Rightarrow> books \<Rightarrow> api_error + books" where
  "move_to_review user month db = require_roles operator_roles user (transition user month ''review'' db)"

definition reopen :: "account \<Rightarrow> string \<Rightarrow> books \<Rightarrow> api_error + books" where
  "reopen user month db = require_roles reviewer_roles user (transition user month ''open'' db)"

definition close_period :: "account \<Rightarrow> string \<Rightarrow> books \<Rightarrow> api_error + books" where
  "close_period user month db = require_roles reviewer_roles user (transition user month ''closed'' db)"

definition truthy_text :: "utext option \<Rightarrow> bool" where
  "truthy_text t = (case t of None \<Rightarrow> False | Some s \<Rightarrow> s \<noteq> [])"

definition period_readings :: "books \<Rightarrow> reporting_period \<Rightarrow> reading list" where
  "period_readings db p = filter (\<lambda>r. rd_period r = pe_id p) (bk_readings db)"

definition blocking :: "reading \<Rightarrow> bool" where
  "blocking r \<longleftrightarrow> rd_status r = ''error'' \<or> rd_status r = ''warning'' \<and> \<not> truthy_text (rd_comment r)"

definition submit_period :: "account \<Rightarrow> string \<Rightarrow> books \<Rightarrow> api_error + books" where
  "submit_period user month db =
     require_roles reviewer_roles user
       (res_bind (get_period_or_404 db user month) (\<lambda>p.
          if pe_status p \<noteq> ''review'' then Inl Api_409
          else if list_ex blocking (period_readings db p) then Inl Api_409
          else transition user month ''submitted'' db))"

text \<open>The report before a submission.\<close>

record period_report =
  pr_active :: nat
  pr_entered :: nat
  pr_not_entered :: nat
  pr_by_status :: "(string \<times> nat) list"
  pr_uncommented :: "int list"
  pr_errors :: "(int \<times> message option) list"
  pr_can_submit :: bool

fun count_status :: "string \<Rightarrow> (string \<times> nat) list \<Rightarrow> (string \<times> nat) list" where
  "count_status s [] = [(s, 1)]"
| "count_status s ((t, n) # rest) = (if s = t then (t, Suc n) # rest else (t, n) # count_status s rest)"

definition validate_period :: "account \<Rightarrow> string \<Rightarrow> books \<Rightarrow> api_error + period_report" where
  "validate_period user month db =
     require_roles staff_roles user
       (res_bind (get_period_or_404 db user month) (\<lambda>p.
          let active = remdups (map me_id (filter (\<lambda>m. me_tenant m = ac_tenant user \<and> me_status m = ''active'') (bk_meters db)));
              rows = period_readings db p;
              uncommented = map rd_meter (filter (\<lambda>r. rd_status r = ''warning'' \<and> \<not> truthy_text (rd_comment r)) rows);
              errors = map (\<lambda>r. (rd_meter r, rd_message r)) (filter (\<lambda>r. rd_status r = ''error'') rows);
              entered = remdups (filter (\<lambda>i. i \<in> set active) (map rd_meter rows));
              missing = length (filter (\<lambda>i. i \<notin> set entered) active)
          in Inr \<lparr>pr_active = length active, pr_entered = length entered, pr_not_entered = missing,
                  pr_by_status = foldl (\<lambda>t r. count_status (rd_status r) t) [] rows,
                  pr_uncommented = uncommented, pr_errors = errors,
                  pr_can_submit = (errors = [] \<and> uncommented = [] \<and> missing = 0)\<rparr>))"

text \<open>The worksheet: every active meter under the filters with its previous accepted reading and its
  reading of the month.  The names shown beside them are left out.\<close>

definition worksheet ::
  "account \<Rightarrow> string \<Rightarrow> string option \<Rightarrow> int option \<Rightarrow> int option \<Rightarrow> books
     \<Rightarrow> api_error + (meter \<times> reading option \<times> reading option) list"
where
  "worksheet user month resource object provider db =
     require_roles worksheet_read_roles user
       (res_bind (get_period_or_404 db user month) (\<lambda>p.
          let meters = sort_key me_normalized (filter (\<lambda>m. me_tenant m = ac_tenant user \<and> me_status m = ''active''
                \<and> (py_truthy_str resource \<longrightarrow> resource = Some (me_resource m))
                \<and> (case object of None \<Rightarrow> True | Some i \<Rightarrow> me_object m = i)
                \<and> (case provider of None \<Rightarrow> True | Some i \<Rightarrow> me_provider m = Some i)) (bk_meters db));
              readings = map_of (rev (map (\<lambda>r. (rd_meter r, r)) (period_readings db p)));
              previous = get_previous_accepted_bulk (bk_periods db) (bk_readings db) (map me_id meters) month
          in Inr (map (\<lambda>m. (m, previous (me_id m), readings (me_id m))) meters)))"

subsection \<open>Readings\<close>

definition find_meter :: "books \<Rightarrow> int \<Rightarrow> meter option" where
  "find_meter db i = first_row (\<lambda>m. me_id m = i) (bk_meters db)"

definition own_meter :: "books \<Rightarrow> account \<Rightarrow> int \<Rightarrow> api_error + meter" where
  "own_meter db user i =
     (case find_meter db i of
        None \<Rightarrow> Inl Api_404
      | Some m \<Rightarrow> if me_tenant m \<noteq> ac_tenant user then Inl Api_404 else Inr m)"

definition put_reading :: "call_env \<Rightarrow> account \<Rightarrow> int \<Rightarrow> string \<Rightarrow> reading_in \<Rightarrow> books \<Rightarrow> api_error + books" where
  "put_reading env user meter_id month data db =
     require_roles reading_entry_roles user (require_schema (reading_in_ok data)
       (res_bind (get_period_or_404 db user month) (\<lambda>p.
        res_bind (own_meter db user meter_id) (\<lambda>m.
        res_bind (upsert_reading (ev_today env) (ev_now env) (ev_uuid env 0) db m p data user) (\<lambda>(db', r).
          Inr (commit_books (write_audit user ''reading'' (rd_id r) ''upsert'' []
                 [(''meter'', Au_text (me_number m)), (''month'', Au_str month), (''value'', Au_dec (rd_value r))]
                 db')))))))"

text \<open>One transaction for all items; the n-th new row has the n-th UUID.\<close>

fun bulk_items ::
  "call_env \<Rightarrow> account \<Rightarrow> reporting_period \<Rightarrow> nat \<Rightarrow> (int \<times> reading_in) list \<Rightarrow> books \<Rightarrow> api_error + books"
where
  "bulk_items env user p n [] db = Inr db"
| "bulk_items env user p n ((meter_id, data) # items) db =
     res_bind (own_meter db user meter_id) (\<lambda>m.
     res_bind (upsert_reading (ev_today env) (ev_now env) (ev_uuid env n) db m p data user) (\<lambda>(db', r).
       bulk_items env user p (Suc n) items db'))"

definition bulk_readings ::
  "call_env \<Rightarrow> account \<Rightarrow> string \<Rightarrow> (int \<times> reading_in) list \<Rightarrow> books \<Rightarrow> api_error + books"
where
  "bulk_readings env user month items db =
     require_roles reading_entry_roles user
       (require_schema (1 \<le> length items \<and> length items \<le> 500 \<and> list_all (\<lambda>(i, d). reading_in_ok d) items)
       (res_bind (get_period_or_404 db user month) (\<lambda>p.
        res_bind (bulk_items env user p 0 items db) (\<lambda>db'.
          Inr (commit_books (write_audit user ''period'' (pe_id p) ''bulk_readings'' []
                 [(''month'', Au_str month), (''count'', Au_nat (length items))] db'))))))"

definition find_reading :: "books \<Rightarrow> int \<Rightarrow> reading option" where
  "find_reading db i = first_row (\<lambda>r. rd_id r = i) (bk_readings db)"

definition create_correction ::
  "call_env \<Rightarrow> account \<Rightarrow> int \<Rightarrow> rat \<Rightarrow> utext \<Rightarrow> string \<Rightarrow> books \<Rightarrow> api_error + books"
where
  "create_correction env user reading_id v reason kind db =
     require_roles reviewer_roles user (require_schema (correction_in_ok v reason kind)
       (case find_reading db reading_id of
          None \<Rightarrow> Inl Api_404
        | Some r \<Rightarrow>
            if rd_tenant r \<noteq> ac_tenant user then Inl Api_404
            else
              case (first_row (\<lambda>p. pe_id p = rd_period r) (bk_periods db), find_meter db (rd_meter r)) of
                (Some p, Some m) \<Rightarrow>
                  if pe_status p \<in> set editable_statuses then Inl Api_400
                  else
                    res_bind (apply_correction (ev_today env) (ev_now env) db r m p v reason kind user) (\<lambda>db'.
                      if \<not> list_all reading_fits (bk_readings db') then Inl Api_500
                      else Inr (commit_books (write_audit user ''reading'' (rd_id r) ''correction''
                                  [(''value'', Au_dec (rd_value r))]
                                  [(''value'', Au_dec (Some v)), (''reason'', Au_text reason)] db')))
              | _ \<Rightarrow> Inl Api_500))"

subsection \<open>Anomaly thresholds\<close>

record rule_in =
  ri_resource :: string
  ri_abs :: "rat option"
  ri_pct :: "rat option"
  ri_window :: nat
  ri_avg :: "rat option"

definition rule_in_ok :: "rule_in \<Rightarrow> bool" where
  "rule_in_ok d \<longleftrightarrow>
     ri_resource d \<in> {''electricity'', ''cold_water''} \<and> 1 \<le> ri_window d \<and> ri_window d \<le> 24
     \<and> list_all (\<lambda>x. case x of None \<Rightarrow> True | Some t \<Rightarrow> 0 \<le> t) [ri_abs d, ri_pct d, ri_avg d]"

text \<open>\<open>Numeric(8, 2)\<close> and \<open>Numeric(5, 2)\<close> columns round to two places.\<close>

definition store2 :: "rat \<Rightarrow> rat" where
  "store2 x = of_int (round_half_up (x * 100)) / 100"

definition percent_fits :: "rat option \<Rightarrow> bool" where
  "percent_fits x = (case x of None \<Rightarrow> True | Some v \<Rightarrow> \<bar>store2 v\<bar> < 10 ^ 6)"

definition upsert_anomaly_rule :: "call_env \<Rightarrow> account \<Rightarrow> rule_in \<Rightarrow> books \<Rightarrow> api_error + books" where
  "upsert_anomaly_rule env user d db =
     require_roles [''resource_admin''] user (require_schema (rule_in_ok d)
       (if \<not> (numeric_fits (ri_abs d) \<and> percent_fits (ri_pct d) \<and> percent_fits (ri_avg d)) then Inl Api_500
        else
          let mine = (\<lambda>a. an_tenant a = ac_tenant user \<and> an_resource a = ri_resource d);
              row = \<lparr>an_tenant = ac_tenant user, an_resource = ri_resource d, an_abs = map_option store4 (ri_abs d),
                     an_pct = map_option store2 (ri_pct d), an_window = ri_window d, an_avg = map_option store2 (ri_avg d)\<rparr>
          in Inr (write_audit user ''anomaly_rule'' (ev_uuid env 0) ''upsert'' []
                    [(''resource_type'', Au_str (ri_resource d)), (''abs_threshold'', Au_dec (ri_abs d)),
                     (''pct_change_threshold'', Au_dec (ri_pct d)), (''avg_window_months'', Au_nat (ri_window d)),
                     (''avg_deviation_pct'', Au_dec (ri_avg d))]
                    (db\<lparr>bk_rules := (if list_ex mine (bk_rules db) then upd_where mine (\<lambda>_. row) (bk_rules db)
                                     else bk_rules db @ [row])\<rparr>))))"

end
