(* ===== verification/AccountingRegistry.thy ===== *)
theory AccountingRegistry
  imports AccountingApi
begin

section \<open>Resource accounting: the registry of meters and the tree of objects\<close>

text \<open>
  \<open>api/meters.py\<close> and \<open>api/objects.py\<close>.  A partial update gives \<open>None\<close> for a field the client left
  out; a field it may send as \<open>null\<close> is \<open>Some None\<close>.  References to providers and object types are
  foreign keys and not checked.
\<close>

subsection \<open>Schemas\<close>

record link_in =
  li_object :: int
  li_description :: "utext option"
  li_percent :: "rat option"

record meter_in =
  mc_number :: utext
  mc_name :: utext
  mc_resource :: string
  mc_unit :: string
  mc_description :: utext
  mc_location :: utext
  mc_object :: int
  mc_provider :: "int option"
  mc_account :: "utext option"
  mc_serial :: "utext option"
  mc_coefficient :: rat
  mc_max_digits :: "nat option"
  mc_installed :: "int option"
  mc_photo :: "utext option"
  mc_note :: "utext option"
  mc_tags :: "int list"
  mc_consumers :: "link_in list"

definition text_within :: "nat \<Rightarrow> nat \<Rightarrow> utext \<Rightarrow> bool" where
  "text_within lo hi t \<longleftrightarrow> lo \<le> length t \<and> length t \<le> hi"

definition opt_within :: "nat \<Rightarrow> utext option \<Rightarrow> bool" where
  "opt_within n t = (case t of None \<Rightarrow> True | Some s \<Rightarrow> length s \<le> n)"

definition digits_ok :: "nat option \<Rightarrow> bool" where
  "digits_ok d = (case d of None \<Rightarrow> True | Some n \<Rightarrow> 1 \<le> n \<and> n \<le> 18)"

definition link_in_ok :: "link_in \<Rightarrow> bool" where
  "link_in_ok l = (case li_percent l of None \<Rightarrow> True | Some x \<Rightarrow> 0 \<le> x \<and> x \<le> 100)"

definition meter_in_ok :: "meter_in \<Rightarrow> bool" where
  "meter_in_ok d \<longleftrightarrow>
     text_within 1 100 (mc_number d) \<and> text_within 1 200 (mc_name d)
     \<and> mc_resource d \<in> {''electricity'', ''cold_water''} \<and> mc_unit d \<in> {''kWh'', ''m3''}
     \<and> mc_description d \<noteq> [] \<and> text_within 1 300 (mc_location d)
     \<and> opt_within 100 (mc_account d) \<and> opt_within 100 (mc_serial d)
     \<and> 0 < mc_coefficient d \<and> digits_ok (mc_max_digits d) \<and> list_all link_in_ok (mc_consumers d)"

text \<open>The columns of a meter.\<close>

definition coefficient_fits :: "rat \<Rightarrow> bool" where
  "coefficient_fits x \<longleftrightarrow> \<bar>store4 x\<bar> < 10 ^ 8"

definition meter_fits :: "meter \<Rightarrow> bool" where
  "meter_fits m \<longleftrightarrow>
     length (me_number m) \<le> 100 \<and> length (me_normalized m) \<le> 100 \<and> length (me_name m) \<le> 200
     \<and> length (me_location m) \<le> 300 \<and> opt_within 100 (me_account m) \<and> opt_within 100 (me_serial m)
     \<and> opt_within 300 (me_photo m) \<and> coefficient_fits (me_coefficient m)"

definition store_meter :: "meter \<Rightarrow> meter" where
  "store_meter m = m\<lparr>me_coefficient := store4 (me_coefficient m)\<rparr>"

subsection \<open>Helpers\<close>

definition find_object :: "books \<Rightarrow> int \<Rightarrow> resource_object option" where
  "find_object db i = first_row (\<lambda>x. ro_id x = i) (bk_objects db)"

definition own_object :: "books \<Rightarrow> account \<Rightarrow> int \<Rightarrow> api_error + resource_object" where
  "own_object db user i =
     (case find_object db i of
        None \<Rightarrow> Inl Api_404
      | Some x \<Rightarrow> if ro_tenant x \<noteq> ac_tenant user then Inl Api_404 else Inr x)"

definition check_active_object :: "books \<Rightarrow> account \<Rightarrow> int \<Rightarrow> api_error + resource_object" where
  "check_active_object db user i =
     res_bind (own_object db user i) (\<lambda>x. if ro_active x then Inr x else Inl Api_400)"

definition check_unique_number :: "books \<Rightarrow> int \<Rightarrow> utext \<Rightarrow> int option \<Rightarrow> api_error + unit" where
  "check_unique_number db tenant normalized exclude =
     (case first_row (\<lambda>m. me_tenant m = tenant \<and> me_normalized m = normalized \<and> me_status m = ''active'') (bk_meters db) of
        None \<Rightarrow> Inr ()
      | Some m \<Rightarrow> if Some (me_id m) = exclude then Inr () else Inl Api_409)"

text \<open>Unknown tags are refused; a tag given twice breaks the unique pair at the flush.\<close>

definition set_tags :: "(int \<times> int) list \<Rightarrow> int \<Rightarrow> int list \<Rightarrow> int \<Rightarrow> (int \<times> int) list \<Rightarrow> api_error + (int \<times> int) list" where
  "set_tags tags owner tag_ids tenant pairs =
     (if \<not> list_all (\<lambda>t. (t, tenant) \<in> set tags) tag_ids then Inl Api_400
      else if \<not> distinct tag_ids then Inl Api_500
      else Inr (filter (\<lambda>(x, t). x \<noteq> owner) pairs @ map (\<lambda>t. (owner, t)) tag_ids))"

fun check_consumers :: "books \<Rightarrow> account \<Rightarrow> meter \<Rightarrow> int list \<Rightarrow> link_in list \<Rightarrow> api_error + unit" where
  "check_consumers db user m seen [] = Inr ()"
| "check_consumers db user m seen (l # ls) =
     (if li_object l \<in> set seen then Inl Api_400
      else if li_object l = me_object m then Inl Api_400
      else res_bind (check_active_object db user (li_object l)) (\<lambda>_.
             check_consumers db user m (li_object l # seen) ls))"

definition set_consumers :: "account \<Rightarrow> meter \<Rightarrow> link_in list \<Rightarrow> books \<Rightarrow> api_error + books" where
  "set_consumers user m consumers db =
     res_bind (check_consumers db user m [] consumers) (\<lambda>_.
       Inr (db\<lparr>bk_links := filter (\<lambda>l. ml_meter l \<noteq> me_id m) (bk_links db) @
              map (\<lambda>l. \<lparr>ml_meter = me_id m, ml_object = li_object l, ml_description = li_description l,
                        ml_percent = map_option store2 (li_percent l)\<rparr>) consumers\<rparr>))"

definition build_meter :: "int \<Rightarrow> account \<Rightarrow> int option \<Rightarrow> meter_in \<Rightarrow> meter" where
  "build_meter i user replaces d =
     \<lparr>me_id = i, me_tenant = ac_tenant user, me_number = strip_points (mc_number d),
      me_normalized = normalize_meter_number (mc_number d), me_name = mc_name d, me_resource = mc_resource d,
      me_unit = mc_unit d, me_description = mc_description d, me_location = mc_location d,
      me_status = ''active'', me_object = mc_object d, me_provider = mc_provider d, me_account = mc_account d,
      me_serial = mc_serial d, me_coefficient = mc_coefficient d, me_max_digits = mc_max_digits d,
      me_installed = mc_installed d, me_removed = None, me_replaces = replaces, me_photo = mc_photo d,
      me_note = mc_note d\<rparr>"

text \<open>What \<open>create_meter\<close> and \<open>replace_meter\<close> share: the checks, the row, its tags and consumers.\<close>

definition insert_meter :: "int \<Rightarrow> account \<Rightarrow> int option \<Rightarrow> meter_in \<Rightarrow> books \<Rightarrow> api_error + (books \<times> meter)" where
  "insert_meter i user replaces d db =
     res_bind (check_unique_number db (ac_tenant user) (normalize_meter_number (mc_number d)) None) (\<lambda>_.
     res_bind (check_active_object db user (mc_object d)) (\<lambda>_.
       let m = build_meter i user replaces d in
       if \<not> meter_fits m then Inl Api_500
       else
         res_bind (set_tags (bk_tags db) (me_id m) (mc_tags d) (ac_tenant user) (bk_meter_tags db)) (\<lambda>pairs.
         res_bind (set_consumers user m (mc_consumers d)
                     (db\<lparr>bk_meters := bk_meters db @ [store_meter m], bk_meter_tags := pairs\<rparr>)) (\<lambda>db'.
           Inr (db', store_meter m)))))"

subsection \<open>Meters\<close>

definition meter_edit_roles :: "string list" where
  "meter_edit_roles = [''resource_admin'', ''resource_operator'']"

definition create_meter :: "call_env \<Rightarrow> account \<Rightarrow> meter_in \<Rightarrow> books \<Rightarrow> api_error + books" where
  "create_meter env user d db =
     require_roles meter_edit_roles user (require_schema (meter_in_ok d)
       (res_bind (insert_meter (ev_uuid env 0) user None d db) (\<lambda>(db', m).
          Inr (write_audit user ''meter'' (me_id m) ''create'' []
                 [(''meter_number'', Au_text (me_number m)), (''name'', Au_text (me_name m))] db'))))"

record meter_update =
  mu_name :: "utext option option"
  mu_description :: "utext option option"
  mu_location :: "utext option option"
  mu_object :: "int option"
  mu_provider :: "int option option"
  mu_account :: "utext option option"
  mu_serial :: "utext option option"
  mu_coefficient :: "rat option option"
  mu_max_digits :: "nat option option"
  mu_installed :: "int option option"
  mu_photo :: "utext option option"
  mu_note :: "utext option option"
  mu_tags :: "int list option"
  mu_consumers :: "link_in list option"

definition given :: "'a option option \<Rightarrow> ('a \<Rightarrow> bool) \<Rightarrow> bool" where
  "given x P = (case x of Some (Some v) \<Rightarrow> P v | _ \<Rightarrow> True)"

definition meter_update_ok :: "meter_update \<Rightarrow> bool" where
  "meter_update_ok d \<longleftrightarrow>
     given (mu_name d) (text_within 1 200) \<and> given (mu_description d) (\<lambda>t. t \<noteq> [])
     \<and> given (mu_location d) (text_within 1 300) \<and> given (mu_coefficient d) (\<lambda>x. 0 < x)
     \<and> given (mu_max_digits d) (\<lambda>n. 1 \<le> n \<and> n \<le> 18)
     \<and> (case mu_consumers d of None \<Rightarrow> True | Some ls \<Rightarrow> list_all link_in_ok ls)"

text \<open>A column that may not be \<open>NULL\<close> is given as \<open>null\<close>.\<close>

definition null_given :: "meter_update \<Rightarrow> bool" where
  "null_given d \<longleftrightarrow>
     mu_name d = Some None \<or> mu_description d = Some None \<or> mu_location d = Some None \<or> mu_coefficient d = Some None"

definition patched :: "'a \<Rightarrow> 'a option option \<Rightarrow> 'a" where
  "patched old x = (case x of Some (Some v) \<Rightarrow> v | _ \<Rightarrow> old)"

definition patch_meter :: "meter_update \<Rightarrow> meter \<Rightarrow> meter" where
  "patch_meter d m =
     m\<lparr>me_object := (case mu_object d of None \<Rightarrow> me_object m | Some i \<Rightarrow> i),
       me_name := patched (me_name m) (mu_name d),
       me_description := patched (me_description m) (mu_description d),
       me_location := patched (me_location m) (mu_location d),
       me_provider := (case mu_provider d of None \<Rightarrow> me_provider m | Some x \<Rightarrow> x),
       me_account := (case mu_account d of None \<Rightarrow> me_account m | Some x \<Rightarrow> x),
       me_serial := (case mu_serial d of None \<Rightarrow> me_serial m | Some x \<Rightarrow> x),
       me_coefficient := patched (me_coefficient m) (mu_coefficient d),
       me_max_digits := (case mu_max_digits d of None \<Rightarrow> me_max_digits m | Some x \<Rightarrow> x),
       me_installed := (case mu_installed d of None \<Rightarrow> me_installed m | Some x \<Rightarrow> x),
       me_photo := (case mu_photo d of None \<Rightarrow> me_photo m | Some x \<Rightarrow> x),
       me_note := (case mu_note d of None \<Rightarrow> me_note m | Some x \<Rightarrow> x)\<rparr>"

definition put_meter :: "meter \<Rightarrow> books \<Rightarrow> books" where
  "put_meter m db = db\<lparr>bk_meters := upd_where (\<lambda>x. me_id x = me_id m) (\<lambda>_. store_meter m) (bk_meters db)\<rparr>"

definition update_meter :: "account \<Rightarrow> int \<Rightarrow> meter_update \<Rightarrow> books \<Rightarrow> api_error + books" where
  "update_meter user i d db =
     require_roles meter_edit_roles user (require_schema (meter_update_ok d)
       (res_bind (own_meter db user i) (\<lambda>m.
        res_bind (case mu_object d of None \<Rightarrow> Inr () | Some x \<Rightarrow>
                    res_bind (check_active_object db user x) (\<lambda>_. Inr ())) (\<lambda>_.
        let m' = patch_meter d m in
        res_bind (case mu_tags d of None \<Rightarrow> Inr (bk_meter_tags db)
                  | Some ts \<Rightarrow> set_tags (bk_tags db) i ts (ac_tenant user) (bk_meter_tags db)) (\<lambda>pairs.
          if mu_consumers d \<noteq> None \<and> (null_given d \<or> \<not> meter_fits m') then Inl Api_500
          else
            res_bind (case mu_consumers d of
                        None \<Rightarrow> Inr (put_meter m' (db\<lparr>bk_meter_tags := pairs\<rparr>))
                      | Some ls \<Rightarrow> set_consumers user m' ls (put_meter m' (db\<lparr>bk_meter_tags := pairs\<rparr>))) (\<lambda>db'.
              if null_given d \<or> \<not> meter_fits m' then Inl Api_500
              else Inr (write_audit user ''meter'' i ''update''
                     [(''name'', Au_text (me_name m)), (''primary_object_id'', Au_ref (Some (me_object m)))]
                     [(''name'', Au_text (me_name m')), (''primary_object_id'', Au_ref (Some (me_object m')))] db'))))))) "

definition archive_meter :: "account \<Rightarrow> int \<Rightarrow> books \<Rightarrow> api_error + books" where
  "archive_meter user i db =
     require_roles [''resource_admin''] user
       (res_bind (own_meter db user i) (\<lambda>m.
          if me_status m = ''archived'' then Inl Api_409
          else Inr (write_audit user ''meter'' i ''archive'' [(''status'', Au_str (me_status m))]
                      [(''status'', Au_str ''archived'')] (put_meter (m\<lparr>me_status := ''archived''\<rparr>) db))))"

definition correct_number :: "account \<Rightarrow> int \<Rightarrow> utext \<Rightarrow> utext \<Rightarrow> books \<Rightarrow> api_error + books" where
  "correct_number user i new_number reason db =
     require_roles [''resource_admin''] user
       (require_schema (text_within 1 100 new_number \<and> 3 \<le> length reason)
       (res_bind (own_meter db user i) (\<lambda>m.
          let normalized = normalize_meter_number new_number in
          if normalized = me_normalized m then Inl Api_400
          else
            res_bind (check_unique_number db (ac_tenant user) normalized (Some (me_id m))) (\<lambda>_.
              let m' = m\<lparr>me_number := strip_points new_number, me_normalized := normalized\<rparr> in
              if \<not> meter_fits m' then Inl Api_500
              else Inr (write_audit user ''meter'' i ''correct_number'' [(''meter_number'', Au_text (me_number m))]
                          [(''meter_number'', Au_text (me_number m')), (''reason'', Au_text reason)]
                          (put_meter m' db))))))"

record replace_in =
  re_removed :: int
  re_final :: "rat option"
  re_meter :: meter_in
  re_reason :: utext

definition replace_in_ok :: "replace_in \<Rightarrow> bool" where
  "replace_in_ok d \<longleftrightarrow>
     (case re_final d of None \<Rightarrow> True | Some v \<Rightarrow> 0 \<le> v) \<and> meter_in_ok (re_meter d) \<and> 3 \<le> length (re_reason d)"

definition replace_meter :: "call_env \<Rightarrow> account \<Rightarrow> int \<Rightarrow> replace_in \<Rightarrow> books \<Rightarrow> api_error + books" where
  "replace_meter env user i d db =
     require_roles meter_edit_roles user (require_schema (replace_in_ok d)
       (res_bind (own_meter db user i) (\<lambda>old.
          if me_status old \<noteq> ''active'' then Inl Api_409
          else
            res_bind (insert_meter (ev_uuid env 0) user (Some (me_id old)) (re_meter d)
                        (put_meter (old\<lparr>me_status := ''decommissioned'', me_removed := Some (re_removed d)\<rparr>) db)) (\<lambda>(db', new).
              Inr (write_audit user ''meter'' i ''replace'' [(''status'', Au_str ''active'')]
                     [(''status'', Au_str ''decommissioned''), (''replaced_by'', Au_ref (Some (me_id new))),
                      (''final_reading'', Au_dec (re_final d)), (''reason'', Au_text (re_reason d))] db')))))"

subsection \<open>Objects\<close>

definition parent_of :: "resource_object list \<Rightarrow> int \<Rightarrow> int option" where
  "parent_of objects i = Option.bind (first_row (\<lambda>x. ro_id x = i) objects) ro_parent"

text \<open>The walk up from the new parent; \<open>k\<close> counts the steps left, 100 at first.\<close>

fun assert_no_cycle :: "resource_object list \<Rightarrow> int \<Rightarrow> nat \<Rightarrow> int option \<Rightarrow> api_error + unit" where
  "assert_no_cycle objects x k None = Inr ()"
| "assert_no_cycle objects x 0 (Some c) = Inl Api_400"
| "assert_no_cycle objects x (Suc k) (Some c) =
     (if c = x then Inl Api_400 else assert_no_cycle objects x k (parent_of objects c))"

record object_in =
  oc_name :: utext
  oc_code :: "utext option"
  oc_type :: "int option"
  oc_parent :: "int option"
  oc_description :: "utext option"
  oc_sort :: int
  oc_tags :: "int list"

definition object_in_ok :: "object_in \<Rightarrow> bool" where
  "object_in_ok d \<longleftrightarrow> text_within 1 200 (oc_name d) \<and> opt_within 64 (oc_code d)"

definition code_taken :: "books \<Rightarrow> account \<Rightarrow> utext option \<Rightarrow> (resource_object \<Rightarrow> bool) \<Rightarrow> bool" where
  "code_taken db user code others \<longleftrightarrow>
     truthy_text code \<and> list_ex (\<lambda>x. ro_tenant x = ac_tenant user \<and> ro_code x = code \<and> others x) (bk_objects db)"

definition create_object :: "call_env \<Rightarrow> account \<Rightarrow> object_in \<Rightarrow> books \<Rightarrow> api_error + books" where
  "create_object env user d db =
     require_roles [''resource_admin''] user (require_schema (object_in_ok d)
       (if code_taken db user (oc_code d) (\<lambda>_. True) then Inl Api_409
        else
          res_bind (case oc_parent d of None \<Rightarrow> Inr () | Some x \<Rightarrow> res_bind (own_object db user x) (\<lambda>_. Inr ())) (\<lambda>_.
            let row = \<lparr>ro_id = ev_uuid env 0, ro_tenant = ac_tenant user, ro_name = oc_name d, ro_code = oc_code d,
                       ro_type = oc_type d, ro_parent = oc_parent d, ro_description = oc_description d,
                       ro_sort = oc_sort d, ro_active = True\<rparr>
            in res_bind (set_tags (bk_tags db) (ro_id row) (oc_tags d) (ac_tenant user) (bk_object_tags db)) (\<lambda>pairs.
                 Inr (write_audit user ''object'' (ro_id row) ''create'' []
                        [(''name'', Au_text (ro_name row)), (''parent_id'', Au_ref (ro_parent row))]
                        (db\<lparr>bk_objects := bk_objects db @ [row], bk_object_tags := pairs\<rparr>))))))"

record object_update =
  ou_name :: "utext option option"
  ou_code :: "utext option option"
  ou_type :: "int option option"
  ou_parent :: "int option"
  ou_clear_parent :: bool
  ou_description :: "utext option option"
  ou_sort :: "int option option"
  ou_tags :: "int list option"

definition object_update_ok :: "object_update \<Rightarrow> bool" where
  "object_update_ok d \<longleftrightarrow> given (ou_name d) (text_within 1 200) \<and> given (ou_code d) (\<lambda>t. length t \<le> 64)"

definition new_parent :: "books \<Rightarrow> account \<Rightarrow> object_update \<Rightarrow> resource_object \<Rightarrow> api_error + int option" where
  "new_parent db user d row =
     (if ou_clear_parent d then Inr None
      else case ou_parent d of
             None \<Rightarrow> Inr (ro_parent row)
           | Some p \<Rightarrow>
               res_bind (own_object db user p) (\<lambda>_.
               res_bind (assert_no_cycle (bk_objects db) (ro_id row) 100 (Some p)) (\<lambda>_. Inr (Some p))))"

definition update_object :: "account \<Rightarrow> int \<Rightarrow> object_update \<Rightarrow> books \<Rightarrow> api_error + books" where
  "update_object user i d db =
     require_roles [''resource_admin''] user (require_schema (object_update_ok d)
       (res_bind (own_object db user i) (\<lambda>row.
          if (case ou_code d of None \<Rightarrow> False | Some code \<Rightarrow> code_taken db user code (\<lambda>x. ro_id x \<noteq> i)) then Inl Api_409
          else
            res_bind (new_parent db user d row) (\<lambda>parent.
              let row' = row\<lparr>ro_parent := parent, ro_name := patched (ro_name row) (ou_name d),
                    ro_code := (case ou_code d of None \<Rightarrow> ro_code row | Some x \<Rightarrow> x),
                    ro_type := (case ou_type d of None \<Rightarrow> ro_type row | Some x \<Rightarrow> x),
                    ro_description := (case ou_description d of None \<Rightarrow> ro_description row | Some x \<Rightarrow> x),
                    ro_sort := patched (ro_sort row) (ou_sort d)\<rparr>
              in res_bind (case ou_tags d of None \<Rightarrow> Inr (bk_object_tags db)
                           | Some ts \<Rightarrow> set_tags (bk_tags db) i ts (ac_tenant user) (bk_object_tags db)) (\<lambda>pairs.
                   if ou_name d = Some None \<or> ou_sort d = Some None then Inl Api_500
                   else Inr (write_audit user ''object'' i ''update''
                          [(''name'', Au_text (ro_name row)), (''parent_id'', Au_ref (ro_parent row))]
                          [(''name'', Au_text (ro_name row')), (''parent_id'', Au_ref (ro_parent row'))]
                          (db\<lparr>bk_objects := upd_where (\<lambda>x. ro_id x = i) (\<lambda>_. row') (bk_objects db),
                             bk_object_tags := pairs\<rparr>)))))))"

definition archive_object :: "account \<Rightarrow> int \<Rightarrow> books \<Rightarrow> api_error + books" where
  "archive_object user i db =
     require_roles [''resource_admin''] user
       (res_bind (own_object db user i) (\<lambda>row.
          if list_ex (\<lambda>x. ro_parent x = Some i \<and> ro_active x) (bk_objects db) then Inl Api_409
          else if list_ex (\<lambda>m. me_object m = i \<and> me_status m = ''active'') (bk_meters db) then Inl Api_409
          else Inr (write_audit user ''object'' i ''archive'' [(''is_active'', Au_bool True)] [(''is_active'', Au_bool False)]
                      (db\<lparr>bk_objects := upd_where (\<lambda>x. ro_id x = i) (\<lambda>x. x\<lparr>ro_active := False\<rparr>) (bk_objects db)\<rparr>))))"

end
