(* ===== verification/AccountingImport.thy ===== *)
theory AccountingImport
  imports AccountingApi
begin

section \<open>Resource accounting: the import of readings\<close>

text \<open>
  \<open>services/imports.py\<close> and \<open>api/imports.py\<close>: a file's rows are previewed, the client sends the
  preview back in a signed token, and the commit validates the rows again and saves the valid ones in
  one transaction.  The rows of the file and the contents of the token (\<open>None\<close> for a bad signature)
  are arguments; digits are ASCII.
\<close>

subsection \<open>Texts to numbers and dates\<close>

datatype import_value = Finite rat | Infinite bool | Quiet_nan | Signalling_nan

definition digit_point :: "int \<Rightarrow> bool" where
  "digit_point c \<longleftrightarrow> 48 \<le> c \<and> c \<le> 57"

definition points_val :: "utext \<Rightarrow> int" where
  "points_val ds = foldl (\<lambda>n d. 10 * n + (d - 48)) 0 ds"

definition fold_case :: "utext \<Rightarrow> utext" where
  "fold_case t = map (\<lambda>c. if 65 \<le> c \<and> c \<le> 90 then c + 32 else c) t"

text \<open>An exponent: \<open>e\<close>, an optional sign, digits to the end.\<close>

definition parse_exponent :: "utext \<Rightarrow> int option" where
  "parse_exponent t =
     (case t of
        [] \<Rightarrow> Some 0
      | c # rest \<Rightarrow>
          if c \<noteq> 101 then None
          else
            let neg = (rest \<noteq> [] \<and> hd rest = 45);
                ds = (if rest \<noteq> [] \<and> (hd rest = 45 \<or> hd rest = 43) then tl rest else rest)
            in if ds = [] \<or> \<not> list_all digit_point ds then None
               else Some (if neg then - points_val ds else points_val ds))"

definition parse_unsigned :: "utext \<Rightarrow> import_value option" where
  "parse_unsigned t =
     (if t = utext_of ''inf'' \<or> t = utext_of ''infinity'' then Some (Infinite False)
      else if take 3 t = utext_of ''nan'' \<and> list_all digit_point (drop 3 t) then Some Quiet_nan
      else if take 4 t = utext_of ''snan'' \<and> list_all digit_point (drop 4 t) then Some Signalling_nan
      else
        let ip = takeWhile digit_point t;
            rest = dropWhile digit_point t;
            fp = (if rest \<noteq> [] \<and> hd rest = 46 then takeWhile digit_point (tl rest) else []);
            rest' = (if rest \<noteq> [] \<and> hd rest = 46 then dropWhile digit_point (tl rest) else rest)
        in if ip = [] \<and> fp = [] then None
           else map_option (\<lambda>e. Finite (of_int (points_val (ip @ fp)) * pow10 (e - int (length fp)))) (parse_exponent rest'))"

definition negated :: "import_value \<Rightarrow> import_value" where
  "negated v = (case v of Finite q \<Rightarrow> Finite (- q) | Infinite b \<Rightarrow> Infinite (\<not> b) | _ \<Rightarrow> v)"

text \<open>\<open>Decimal(text)\<close>: white space at the ends and underscores are dropped.\<close>

definition parse_decimal :: "utext \<Rightarrow> import_value option" where
  "parse_decimal text =
     (let t = fold_case (filter (\<lambda>c. c \<noteq> 95) (strip_points text))
      in if t \<noteq> [] \<and> hd t = 45 then map_option negated (parse_unsigned (tl t))
         else if t \<noteq> [] \<and> hd t = 43 then parse_unsigned (tl t)
         else parse_unsigned t)"

text \<open>The formats of \<open>_parse_date\<close>: a number of at most n digits in a range, and the separators.\<close>

definition take_number :: "nat \<Rightarrow> int \<Rightarrow> int \<Rightarrow> utext \<Rightarrow> (int \<times> utext) option" where
  "take_number n lo hi t =
     (let ds = takeWhile digit_point (take n t)
      in if ds = [] \<or> points_val ds < lo \<or> hi < points_val ds then None
         else Some (points_val ds, drop (length ds) t))"

definition take_year :: "utext \<Rightarrow> (int \<times> utext) option" where
  "take_year t = (if length (takeWhile digit_point (take 4 t)) = 4 then Some (points_val (take 4 t), drop 4 t) else None)"

text \<open>\<open>%d\<close> also takes a space and one digit.\<close>

definition take_day :: "utext \<Rightarrow> (int \<times> utext) option" where
  "take_day t = (if t \<noteq> [] \<and> hd t = 32 then take_number 1 1 9 (tl t) else take_number 2 1 31 t)"

definition take_point :: "int \<Rightarrow> utext \<Rightarrow> utext option" where
  "take_point c t = (if t \<noteq> [] \<and> hd t = c then Some (tl t) else None)"

definition days_in_month :: "int \<Rightarrow> int \<Rightarrow> int" where
  "days_in_month y m =
     (if m = 2 \<and> leap_year y then 29 else [31, 28, 31, 30, 31, 30, 31, 31, 30, 31, 30, 31] ! nat (m - 1))"

definition make_date :: "int \<Rightarrow> int \<Rightarrow> int \<Rightarrow> int option" where
  "make_date y m d = (if 1 \<le> y \<and> d \<le> days_in_month y m then Some (date_ordinal y m d) else None)"

definition scan_ymd :: "utext \<Rightarrow> (int \<times> int \<times> int \<times> utext) option" where
  "scan_ymd t =
     Option.bind (take_year t) (\<lambda>(y, t). Option.bind (take_point 45 t) (\<lambda>t.
     Option.bind (take_number 2 1 12 t) (\<lambda>(m, t). Option.bind (take_point 45 t) (\<lambda>t.
     Option.bind (take_day t) (\<lambda>(d, t). Some (y, m, d, t))))))"

definition scan_dmy :: "utext \<Rightarrow> (int \<times> int \<times> int \<times> utext) option" where
  "scan_dmy t =
     Option.bind (take_day t) (\<lambda>(d, t). Option.bind (take_point 46 t) (\<lambda>t.
     Option.bind (take_number 2 1 12 t) (\<lambda>(m, t). Option.bind (take_point 46 t) (\<lambda>t.
     Option.bind (take_year t) (\<lambda>(y, t). Some (y, m, d, t))))))"

text \<open>White space and a time of day to the end of the text.\<close>

definition time_of_day :: "utext \<Rightarrow> bool" where
  "time_of_day t \<longleftrightarrow>
     t \<noteq> [] \<and> py_space_point (hd t)
     \<and> Option.bind (take_number 2 0 23 (dropWhile py_space_point t)) (\<lambda>(h, t). Option.bind (take_point 58 t) (\<lambda>t.
       Option.bind (take_number 2 0 59 t) (\<lambda>(mi, t). Option.bind (take_point 58 t) (\<lambda>t.
       map_option snd (take_number 2 0 59 t))))) = Some []"

definition parse_date :: "utext \<Rightarrow> int option" where
  "parse_date t =
     (case scan_ymd t of
        Some (y, m, d, []) \<Rightarrow> make_date y m d
      | Some (y, m, d, rest) \<Rightarrow> if time_of_day rest then make_date y m d else None
      | None \<Rightarrow> (case scan_dmy t of Some (y, m, d, []) \<Rightarrow> make_date y m d | _ \<Rightarrow> None))"

subsection \<open>Preview\<close>

record import_item =
  ii_meter_number :: utext
  ii_period :: string
  ii_reading_value :: utext
  ii_read_at :: utext
  ii_note :: utext
  ii_missing_reason :: string

datatype row_error =
    Empty_number | Other_period | Bad_period | Duplicate_number | Unknown_meter | Reason_required
  | Negative_reading | Bad_reading | Bad_date | Reading_decreased

record import_row =
  ir_line :: nat
  ir_item :: import_item
  ir_meter_id :: "int option"
  ir_value :: "import_value option"
  ir_read_at :: "int option"
  ir_previous :: "rat option"
  ir_errors :: "row_error list"

definition blank_text :: "utext \<Rightarrow> bool" where
  "blank_text t \<longleftrightarrow> strip_points t = []"

text \<open>The value of a row and the errors of its parsing.  Comparing a NaN with zero raises inside the
  \<open>try\<close>; the value stays.\<close>

definition read_value :: "import_item \<Rightarrow> import_value option \<times> row_error list" where
  "read_value item =
     (if blank_text (ii_reading_value item) then
        (None, if ii_missing_reason item \<in> set missing_reasons then [] else [Reason_required])
      else
        case parse_decimal (map (\<lambda>c. if c = 44 then 46 else c) (ii_reading_value item)) of
          None \<Rightarrow> (None, [Bad_reading])
        | Some v \<Rightarrow>
            (Some v, case v of Finite q \<Rightarrow> if q < 0 then [Negative_reading] else []
                     | Infinite neg \<Rightarrow> if neg then [Negative_reading] else []
                     | _ \<Rightarrow> [Bad_reading]))"

text \<open>The comparison with the previous reading and the consumption shown: a NaN cannot be compared,
  an infinity or a signalling NaN not be quantised, and here nothing catches the exception.\<close>

definition compare_previous :: "rat option \<Rightarrow> import_value \<Rightarrow> meter \<Rightarrow> api_error + row_error list" where
  "compare_previous previous v m =
     (case v of
        Finite q \<Rightarrow>
          if (case previous of None \<Rightarrow> False | Some p \<Rightarrow> q < p) then Inr [Reading_decreased]
          else res_bind (compute_consumption previous q (me_coefficient m) ''normal'' (me_max_digits m)) (\<lambda>_. Inr [])
      | Infinite neg \<Rightarrow> if neg \<and> previous \<noteq> None then Inr [Reading_decreased] else Inl Api_500
      | Quiet_nan \<Rightarrow> if previous = None then Inr [] else Inl Api_500
      | Signalling_nan \<Rightarrow> Inl Api_500)"

definition wanted_meters :: "books \<Rightarrow> int \<Rightarrow> import_item list \<Rightarrow> meter list" where
  "wanted_meters db tenant items =
     filter (\<lambda>m. me_tenant m = tenant \<and> me_status m = ''active''
               \<and> list_ex (\<lambda>x. ii_meter_number x \<noteq> [] \<and> normalize_meter_number (ii_meter_number x) = me_normalized m) items)
       (bk_meters db)"

fun preview_rows ::
  "(utext \<Rightarrow> meter option) \<Rightarrow> (int \<Rightarrow> reading option) \<Rightarrow> string \<Rightarrow> nat \<Rightarrow> utext list \<Rightarrow> import_item list
     \<Rightarrow> api_error + import_row list"
where
  "preview_rows meters previous month line seen [] = Inr []"
| "preview_rows meters previous month line seen (x # xs) =
     (if ii_meter_number x = [] then
        res_bind (preview_rows meters previous month (Suc line) seen xs) (\<lambda>rows.
          Inr (\<lparr>ir_line = line, ir_item = x, ir_meter_id = None, ir_value = None, ir_read_at = None,
                ir_previous = None, ir_errors = [Empty_number]\<rparr> # rows))
      else
        let normalized = normalize_meter_number (ii_meter_number x);
            meter = meters normalized;
            (v, value_errors) = read_value x;
            d = (if ii_read_at x = [] then None else parse_date (ii_read_at x));
            prev = (case meter of None \<Rightarrow> None | Some m \<Rightarrow> value_of (previous (me_id m)));
            early =
              (if ii_period x \<noteq> [] \<and> ii_period x \<noteq> month then [Other_period] else [])
              @ (if month_pattern (if ii_period x = [] then month else ii_period x) then [] else [Bad_period])
              @ (if normalized \<in> set seen then [Duplicate_number] else [])
              @ (if meter = None then [Unknown_meter] else [])
              @ value_errors
              @ (if ii_read_at x \<noteq> [] \<and> d = None then [Bad_date] else [])
        in res_bind (case (meter, v) of (Some m, Some w) \<Rightarrow> compare_previous prev w m | _ \<Rightarrow> Inr []) (\<lambda>compared.
           res_bind (preview_rows meters previous month (Suc line) (normalized # seen) xs) (\<lambda>rows.
             Inr (\<lparr>ir_line = line, ir_item = x, ir_meter_id = map_option me_id meter, ir_value = v, ir_read_at = d,
                   ir_previous = (if v = None then None else prev), ir_errors = early @ compared\<rparr> # rows))))"

definition build_preview :: "books \<Rightarrow> int \<Rightarrow> string \<Rightarrow> import_item list \<Rightarrow> api_error + import_row list" where
  "build_preview db tenant month items =
     (let ms = wanted_meters db tenant items
      in preview_rows (map_of (rev (map (\<lambda>m. (me_normalized m, m)) ms)))
           (get_previous_accepted_bulk (bk_periods db) (bk_readings db) (map me_id ms) month)
           month 2 [] items)"

definition preview_import :: "account \<Rightarrow> string \<Rightarrow> import_item list \<Rightarrow> books \<Rightarrow> api_error + import_row list" where
  "preview_import user month items db =
     require_roles operator_roles user
       (res_bind (get_period_or_404 db user month) (\<lambda>p.
          if pe_status p \<notin> set editable_statuses then Inl Api_400
          else if items = [] then Inl Api_400
          else build_preview db (ac_tenant user) month items))"

subsection \<open>Commit\<close>

definition note_comment :: "utext \<Rightarrow> utext option" where
  "note_comment t = (if t = [] then None else Some t)"

text \<open>The body a row stands for; \<open>ReadingIn\<close> is checked again, and a value that is not finite is an
  uncaught \<open>ValidationError\<close>.\<close>

definition row_input :: "import_row \<Rightarrow> api_error + reading_in" where
  "row_input row =
     (case ir_value row of
        None \<Rightarrow>
          Inr \<lparr>in_value = None, in_read_at = None, in_kind = ''normal'',
               in_missing_reason = Some (if ii_missing_reason (ir_item row) = [] then ''other''
                                         else ii_missing_reason (ir_item row)),
               in_comment = note_comment (ii_note (ir_item row)), in_photo = None\<rparr>
      | Some (Finite q) \<Rightarrow>
          Inr \<lparr>in_value = Some q, in_read_at = ir_read_at row, in_kind = ''normal'', in_missing_reason = None,
               in_comment = note_comment (ii_note (ir_item row)), in_photo = None\<rparr>
      | Some _ \<Rightarrow> Inl Api_500)"

fun commit_rows ::
  "call_env \<Rightarrow> account \<Rightarrow> reporting_period \<Rightarrow> nat \<Rightarrow> import_row list \<Rightarrow> books \<Rightarrow> api_error + (books \<times> nat)"
where
  "commit_rows env user p n [] db = Inr (db, n)"
| "commit_rows env user p n (row # rows) db =
     (if ir_errors row \<noteq> [] then commit_rows env user p n rows db
      else case Option.bind (ir_meter_id row) (find_meter db) of
             None \<Rightarrow> commit_rows env user p n rows db
           | Some m \<Rightarrow>
               if me_tenant m \<noteq> ac_tenant user then commit_rows env user p n rows db
               else
                 res_bind (row_input row) (\<lambda>data.
                 res_bind (upsert_reading (ev_today env) (ev_now env) (ev_uuid env n) db m p data user) (\<lambda>(db', r).
                   commit_rows env user p (Suc n) rows db')))"

definition commit_import ::
  "call_env \<Rightarrow> account \<Rightarrow> string \<Rightarrow> import_item list option \<Rightarrow> nat list \<Rightarrow> books \<Rightarrow> api_error + (books \<times> nat)"
where
  "commit_import env user month token skip_lines db =
     require_roles operator_roles user
       (res_bind (get_period_or_404 db user month) (\<lambda>p.
          if pe_status p \<notin> set editable_statuses then Inl Api_400
          else case token of
            None \<Rightarrow> Inl Api_400
          | Some items \<Rightarrow>
              res_bind (build_preview db (ac_tenant user) month items) (\<lambda>rows.
              res_bind (commit_rows env user p 0 (filter (\<lambda>r. ir_line r \<notin> set skip_lines) rows) db) (\<lambda>(db', saved).
                Inr (commit_books (write_audit user ''period'' (pe_id p) ''import_commit'' []
                       [(''month'', Au_str month), (''saved'', Au_nat saved)] db'), saved)))))"

end
