(* ===== verification/AccountingWrites.thy ===== *)
theory AccountingWrites
  imports AccountingRegistry AccountingImport
begin

section \<open>Resource accounting: the invariant of the books and the writes that keep it\<close>

text \<open>
  Every handler is a sequence of elementary writes of one tenant.  \<open>book_write t I\<close> lists them with
  the conditions the code has checked when it makes them: \<open>t\<close> is the tenant of the account, \<open>I\<close> the
  readings the call may correct.  The invariant holds the keys, the references inside a tenant, the
  trail of revisions that leads from nothing to the current value of a reading, the sanity of
  accepted readings, the unique numbers of active meters, and the forest of objects.
\<close>

subsection \<open>The invariant\<close>

definition keys_unique :: "books \<Rightarrow> bool" where
  "keys_unique db \<longleftrightarrow>
     distinct (map rd_id (bk_readings db)) \<and> distinct (map (\<lambda>r. (rd_meter r, rd_period r)) (bk_readings db))
     \<and> distinct (map pe_id (bk_periods db)) \<and> distinct (map (\<lambda>p. (pe_tenant p, pe_month p)) (bk_periods db))
     \<and> distinct (map me_id (bk_meters db)) \<and> distinct (map ro_id (bk_objects db))"

definition placed :: "books \<Rightarrow> reading \<Rightarrow> bool" where
  "placed db r \<longleftrightarrow>
     (\<exists>m\<in>set (bk_meters db). me_id m = rd_meter r \<and> me_tenant m = rd_tenant r)
     \<and> (\<exists>p\<in>set (bk_periods db). pe_id p = rd_period r \<and> pe_tenant p = rd_tenant r)"

text \<open>The revisions of a reading, and a chain of them from one value to another.\<close>

definition revisions_of :: "books \<Rightarrow> int \<Rightarrow> revision list" where
  "revisions_of db i = filter (\<lambda>v. rv_reading v = i) (bk_revisions db)"

fun trail :: "rat option \<Rightarrow> revision list \<Rightarrow> rat option \<Rightarrow> bool" where
  "trail old [] new \<longleftrightarrow> old = new"
| "trail old (v # vs) new \<longleftrightarrow> rv_old v = old \<and> trail (rv_new v) vs new"

definition trails_ok :: "books \<Rightarrow> bool" where
  "trails_ok db \<longleftrightarrow>
     (\<forall>r\<in>set (bk_readings db). trail None (revisions_of db (rd_id r)) (rd_value r))
     \<and> (\<forall>v\<in>set (bk_revisions db). rv_reading v \<in> rd_id ` set (bk_readings db))"

definition reading_sound :: "reading \<Rightarrow> bool" where
  "reading_sound r \<longleftrightarrow>
     rd_status r \<in> {''ok'', ''warning'', ''error'', ''missing''}
     \<and> (rd_status r = ''missing'' \<longleftrightarrow> rd_value r = None)
     \<and> (accepted_status r \<longleftrightarrow> rd_consumption r \<noteq> None)
     \<and> (\<forall>v. rd_value r = Some v \<longrightarrow> accepted_status r \<longrightarrow> 0 \<le> v)
     \<and> (\<forall>c. rd_consumption r = Some c \<longrightarrow> rd_kind r \<in> {''normal'', ''replacement''} \<longrightarrow> 0 \<le> c)"

definition number_free :: "books \<Rightarrow> meter \<Rightarrow> bool" where
  "number_free db m \<longleftrightarrow>
     (\<forall>x\<in>set (bk_meters db). me_tenant x = me_tenant m \<and> me_normalized x = me_normalized m
        \<and> me_status x = ''active'' \<longrightarrow> me_id x = me_id m)"

definition housed :: "books \<Rightarrow> meter \<Rightarrow> bool" where
  "housed db m \<longleftrightarrow> (\<exists>x\<in>set (bk_objects db). ro_id x = me_object m \<and> ro_tenant x = me_tenant m \<and> ro_active x)"

definition meters_ok :: "books \<Rightarrow> bool" where
  "meters_ok db \<longleftrightarrow>
     (\<forall>m\<in>set (bk_meters db). 0 \<le> me_coefficient m \<and> (me_status m = ''active'' \<longrightarrow> number_free db m \<and> housed db m))"

definition parent_rel :: "resource_object list \<Rightarrow> (int \<times> int) set" where
  "parent_rel objects = {(i, p). parent_of objects i = Some p}"

definition forest_ok :: "books \<Rightarrow> bool" where
  "forest_ok db \<longleftrightarrow>
     acyclic (parent_rel (bk_objects db))
     \<and> (\<forall>x\<in>set (bk_objects db). \<forall>p. ro_parent x = Some p \<longrightarrow>
          (\<exists>y\<in>set (bk_objects db). ro_id y = p \<and> ro_tenant y = ro_tenant x))"

definition statuses_ok :: "books \<Rightarrow> bool" where
  "statuses_ok db \<longleftrightarrow> (\<forall>p\<in>set (bk_periods db). pe_status p \<in> fst ` set status_flow)"

definition books_inv :: "books \<Rightarrow> bool" where
  "books_inv db \<longleftrightarrow>
     keys_unique db \<and> (\<forall>r\<in>set (bk_readings db). placed db r) \<and> trails_ok db
     \<and> (\<forall>r\<in>set (bk_readings db). reading_sound r) \<and> meters_ok db \<and> forest_ok db \<and> statuses_ok db"

subsection \<open>The writes\<close>

text \<open>The row after a correction of reading \<open>i\<close> of meter \<open>mid\<close> to the value \<open>new\<close>: only \<open>i\<close> changes its
  value, and a row changes at all only if it is \<open>i\<close> or belongs to the meter in a period not closed.\<close>

definition corrected_row :: "books \<Rightarrow> int \<Rightarrow> int \<Rightarrow> rat option \<Rightarrow> reading \<Rightarrow> reading \<Rightarrow> bool" where
  "corrected_row db i mid new a b \<longleftrightarrow>
     rd_id b = rd_id a \<and> rd_tenant b = rd_tenant a \<and> rd_meter b = rd_meter a \<and> rd_period b = rd_period a
     \<and> reading_sound b \<and> rd_value b = (if rd_id a = i then new else rd_value a)
     \<and> (rd_id a = i \<longrightarrow> rd_meter a = mid)
     \<and> (b = a \<or> rd_id a = i
        \<or> rd_meter a = mid \<and> (\<exists>p\<in>set (bk_periods db). pe_id p = rd_period a \<and> pe_status p \<noteq> ''closed''))"

inductive book_write :: "int \<Rightarrow> int set \<Rightarrow> books \<Rightarrow> books \<Rightarrow> bool" for t :: int and I :: "int set" where
  save_reading:
    "m \<in> set (bk_meters db) \<Longrightarrow> p \<in> set (bk_periods db) \<Longrightarrow> me_tenant m = t \<Longrightarrow> pe_tenant p = t \<Longrightarrow>
     pe_status p \<in> set editable_statuses \<Longrightarrow> rd_meter r = me_id m \<Longrightarrow> rd_period r = pe_id p \<Longrightarrow>
     rd_tenant r = t \<Longrightarrow> reading_sound r \<Longrightarrow>
     old = first_row (\<lambda>r. rd_meter r = me_id m \<and> rd_period r = pe_id p) (bk_readings db) \<Longrightarrow>
     (case old of Some x \<Rightarrow> rd_id r = rd_id x | None \<Rightarrow> rd_id r \<notin> rd_id ` set (bk_readings db)) \<Longrightarrow>
     vs = (if value_of old = rd_value r then [] else [v]) \<Longrightarrow>
     rv_reading v = rd_id r \<Longrightarrow> rv_old v = value_of old \<Longrightarrow> rv_new v = rd_value r \<Longrightarrow>
     book_write t I db (db\<lparr>bk_readings := put_row r (bk_readings db), bk_revisions := bk_revisions db @ vs\<rparr>)"
| correct_reading:
    "r \<in> set (bk_readings db) \<Longrightarrow> rd_tenant r = t \<Longrightarrow> rd_id r \<in> I \<Longrightarrow>
     list_all2 (corrected_row db (rd_id r) (rd_meter r) (rv_new v)) (bk_readings db) rows \<Longrightarrow>
     rv_reading v = rd_id r \<Longrightarrow> rv_old v = rd_value r \<Longrightarrow>
     book_write t I db (db\<lparr>bk_readings := rows, bk_revisions := bk_revisions db @ [v]\<rparr>)"
| store: "book_write t I db (commit_books db)"
| audit: "book_write t I db (db\<lparr>bk_audit := rows\<rparr>)"
| set_rule:
    "filter (\<lambda>a. an_tenant a \<noteq> t) rows = filter (\<lambda>a. an_tenant a \<noteq> t) (bk_rules db) \<Longrightarrow>
     book_write t I db (db\<lparr>bk_rules := rows\<rparr>)"
| add_period:
    "pe_id p \<notin> pe_id ` set (bk_periods db) \<Longrightarrow> pe_tenant p = t \<Longrightarrow> pe_status p = ''open'' \<Longrightarrow>
     (pe_tenant p, pe_month p) \<notin> (\<lambda>p. (pe_tenant p, pe_month p)) ` set (bk_periods db) \<Longrightarrow>
     book_write t I db (db\<lparr>bk_periods := bk_periods db @ [p]\<rparr>)"
| move_period:
    "p \<in> set (bk_periods db) \<Longrightarrow> pe_tenant p = t \<Longrightarrow> map_of status_flow (pe_status p) = Some targets \<Longrightarrow>
     s \<in> set targets \<Longrightarrow> book_write t I db (set_period_status (pe_id p) s db)"
| add_meter:
    "me_id m \<notin> me_id ` set (bk_meters db) \<Longrightarrow> me_tenant m = t \<Longrightarrow> 0 \<le> me_coefficient m \<Longrightarrow>
     number_free db m \<Longrightarrow> housed db m \<Longrightarrow>
     book_write t I db (db\<lparr>bk_meters := bk_meters db @ [m]\<rparr>)"
| change_meter:
    "m \<in> set (bk_meters db) \<Longrightarrow> me_tenant m = t \<Longrightarrow> me_id m' = me_id m \<Longrightarrow> me_tenant m' = t \<Longrightarrow>
     0 \<le> me_coefficient m' \<Longrightarrow> me_status m' = ''active'' \<longrightarrow> number_free db m' \<and> housed db m' \<Longrightarrow>
     book_write t I db (db\<lparr>bk_meters := upd_where (\<lambda>x. me_id x = me_id m) (\<lambda>_. m') (bk_meters db)\<rparr>)"
| set_links:
    "(\<And>i. i \<notin> me_id ` {m \<in> set (bk_meters db). me_tenant m = t} \<Longrightarrow>
        filter (\<lambda>l. ml_meter l = i) links = filter (\<lambda>l. ml_meter l = i) (bk_links db)
        \<and> filter (\<lambda>x. fst x = i) mt = filter (\<lambda>x. fst x = i) (bk_meter_tags db)) \<Longrightarrow>
     (\<And>i. i \<notin> ro_id ` {x \<in> set (bk_objects db). ro_tenant x = t} \<Longrightarrow>
        filter (\<lambda>x. fst x = i) ot = filter (\<lambda>x. fst x = i) (bk_object_tags db)) \<Longrightarrow>
     book_write t I db (db\<lparr>bk_links := links, bk_meter_tags := mt, bk_object_tags := ot\<rparr>)"
| add_object:
    "ro_id x \<notin> ro_id ` set (bk_objects db) \<Longrightarrow> ro_tenant x = t \<Longrightarrow>
     (\<forall>p. ro_parent x = Some p \<longrightarrow> (\<exists>y\<in>set (bk_objects db). ro_id y = p \<and> ro_tenant y = t)) \<Longrightarrow>
     book_write t I db (db\<lparr>bk_objects := bk_objects db @ [x]\<rparr>)"
| change_object:
    "x \<in> set (bk_objects db) \<Longrightarrow> ro_tenant x = t \<Longrightarrow> ro_id x' = ro_id x \<Longrightarrow> ro_tenant x' = t \<Longrightarrow>
     ro_active x' = ro_active x \<or> (\<forall>m\<in>set (bk_meters db). me_status m = ''active'' \<longrightarrow> me_object m \<noteq> ro_id x) \<Longrightarrow>
     ro_parent x' = ro_parent x \<or> ro_parent x' = None
       \<or> assert_no_cycle (bk_objects db) (ro_id x) 100 (ro_parent x') = Inr ()
         \<and> (\<exists>y\<in>set (bk_objects db). Some (ro_id y) = ro_parent x' \<and> ro_tenant y = t) \<Longrightarrow>
     book_write t I db (db\<lparr>bk_objects := upd_where (\<lambda>y. ro_id y = ro_id x) (\<lambda>_. x') (bk_objects db)\<rparr>)"

subsection \<open>Rows and keys\<close>

lemma put_row_ids:
  "rd_id ` set (put_row r rows) = insert (rd_id r) (rd_id ` set rows)"
  by (auto simp: put_row_def list_ex_iff set_upd_where image_iff)

lemma put_row_map:
  "list_ex (\<lambda>s. rd_id s = rd_id r) rows \<Longrightarrow> put_row r rows = map (\<lambda>s. if rd_id s = rd_id r then r else s) rows"
  by (simp add: put_row_def upd_where_def)

lemma put_row_new: "rd_id r \<notin> rd_id ` set rows \<Longrightarrow> put_row r rows = rows @ [r]"
proof -
  assume "rd_id r \<notin> rd_id ` set rows"
  then have "rd_id s \<noteq> rd_id r" if "s \<in> set rows" for s using imageI [OF that, of rd_id] by auto
  then have "\<not> list_ex (\<lambda>s. rd_id s = rd_id r) rows" by (auto simp: list_ex_iff)
  then show ?thesis by (simp only: put_row_def if_False)
qed

lemma put_row_members:
  "s \<in> set (put_row r rows) \<Longrightarrow> s = r \<or> s \<in> set rows \<and> rd_id s \<noteq> rd_id r"
  by (auto simp: put_row_def set_upd_where list_ex_iff split: if_splits)

lemma put_row_keeps: "s \<in> set rows \<Longrightarrow> rd_id s \<noteq> rd_id r \<Longrightarrow> s \<in> set (put_row r rows)"
  by (auto simp: put_row_def set_upd_where)

lemma put_row_in: "r \<in> set (put_row r rows)"
  by (auto simp: put_row_def set_upd_where list_ex_iff)

lemma distinct_ids_inj: "distinct (map f xs) \<Longrightarrow> x \<in> set xs \<Longrightarrow> y \<in> set xs \<Longrightarrow> f x = f y \<Longrightarrow> x = y"
  by (auto simp: distinct_map dest: inj_onD)

lemma put_row_key:
  assumes "x \<in> set rows" "rd_id x = rd_id r" "distinct (map rd_id rows)" "f r = f x"
  shows "map f (put_row r rows) = map f rows"
proof -
  have "put_row r rows = map (\<lambda>s. if rd_id s = rd_id r then r else s) rows"
    using assms(1,2) by (intro put_row_map) (auto simp: list_ex_iff)
  moreover have "f (if rd_id s = rd_id r then r else s) = f s" if s: "s \<in> set rows" for s
  proof (cases "rd_id s = rd_id r")
    case True
    then have "s = x" using distinct_ids_inj [OF assms(3) s assms(1)] assms(2) by simp
    then show ?thesis using assms(4) True by simp
  qed simp
  ultimately show ?thesis by (simp add: comp_def cong: map_cong)
qed

lemma first_row_id:
  "distinct (map f xs) \<Longrightarrow> x \<in> set xs \<Longrightarrow> first_row (\<lambda>y. f y = f x) xs = Some x"
  by (induction xs) (auto simp: first_row_Cons)

lemma trail_append: "trail a (vs @ [v]) c \<longleftrightarrow> trail a vs (rv_old v) \<and> rv_new v = c"
  by (induction vs arbitrary: a) auto

lemma trail_end: "trail a vs b \<Longrightarrow> trail a vs c \<Longrightarrow> b = c"
  by (induction vs arbitrary: a) auto

lemma trail_store: "trail a vs b \<Longrightarrow> trail (map_option store4 a) (map store_revision vs) (map_option store4 b)"
  by (induction vs arbitrary: a) (auto simp: store_revision_def)

subsection \<open>What a write does to each table\<close>

text \<open>The keys of the rows of a correction, and the row that stands for a given one.\<close>

lemma all2_map: "list_all2 P xs ys \<Longrightarrow> (\<And>x y. P x y \<Longrightarrow> f y = f x) \<Longrightarrow> map f ys = map f xs"
  by (induction rule: list_all2_induct) auto

lemma all2_right: "list_all2 P xs ys \<Longrightarrow> y \<in> set ys \<Longrightarrow> \<exists>x\<in>set xs. P x y"
  by (induction rule: list_all2_induct) auto

lemma all2_left: "list_all2 P xs ys \<Longrightarrow> x \<in> set xs \<Longrightarrow> \<exists>y\<in>set ys. P x y"
  by (induction rule: list_all2_induct) auto

lemma corrected_rows:
  assumes "list_all2 (corrected_row db i mid new) xs ys"
  shows "map rd_id ys = map rd_id xs" "map (\<lambda>r. (rd_meter r, rd_period r)) ys = map (\<lambda>r. (rd_meter r, rd_period r)) xs"
  by (rule all2_map [OF assms], simp add: corrected_row_def)+

lemma commit_books_simps [simp]:
  "bk_periods (commit_books db) = bk_periods db" "bk_meters (commit_books db) = bk_meters db"
  "bk_objects (commit_books db) = bk_objects db" "bk_rules (commit_books db) = bk_rules db"
  "bk_links (commit_books db) = bk_links db" "bk_meter_tags (commit_books db) = bk_meter_tags db"
  "bk_object_tags (commit_books db) = bk_object_tags db" "bk_tags (commit_books db) = bk_tags db"
  "bk_audit (commit_books db) = bk_audit db"
  "bk_readings (commit_books db) = map store_reading (bk_readings db)"
  "bk_revisions (commit_books db) = map store_revision (bk_revisions db)"
  by (simp_all add: commit_books_def)

lemma store_reading_simps [simp]:
  "rd_id (store_reading r) = rd_id r" "rd_meter (store_reading r) = rd_meter r"
  "rd_period (store_reading r) = rd_period r" "rd_tenant (store_reading r) = rd_tenant r"
  "rd_status (store_reading r) = rd_status r" "rd_kind (store_reading r) = rd_kind r"
  "rd_comment (store_reading r) = rd_comment r"
  "rd_value (store_reading r) = map_option store4 (rd_value r)"
  "rd_previous (store_reading r) = map_option store4 (rd_previous r)"
  "rd_consumption (store_reading r) = map_option store4 (rd_consumption r)"
  "accepted_status (store_reading r) = accepted_status r"
  "store_reading (store_reading r) = store_reading r"
  by (simp_all add: store_reading_def accepted_status_def option.map_comp comp_def)

lemma store_revision_simps [simp]:
  "rv_reading (store_revision v) = rv_reading v" "rv_old (store_revision v) = map_option store4 (rv_old v)"
  "rv_new (store_revision v) = map_option store4 (rv_new v)" "store_revision (store_revision v) = store_revision v"
  by (simp_all add: store_revision_def option.map_comp comp_def)

lemma store_sound: "reading_sound r \<Longrightarrow> reading_sound (store_reading r)"
  by (auto simp: reading_sound_def store4_nonneg)

lemma set_period_status_simps [simp]:
  "bk_readings (set_period_status i s db) = bk_readings db" "bk_meters (set_period_status i s db) = bk_meters db"
  "bk_objects (set_period_status i s db) = bk_objects db" "bk_revisions (set_period_status i s db) = bk_revisions db"
  "bk_rules (set_period_status i s db) = bk_rules db" "bk_links (set_period_status i s db) = bk_links db"
  "bk_meter_tags (set_period_status i s db) = bk_meter_tags db" "bk_object_tags (set_period_status i s db) = bk_object_tags db"
  "bk_audit (set_period_status i s db) = bk_audit db" "bk_tags (set_period_status i s db) = bk_tags db"
  "bk_periods (set_period_status i s db) = upd_where (\<lambda>p. pe_id p = i) (\<lambda>p. p\<lparr>pe_status := s\<rparr>) (bk_periods db)"
  by (simp_all add: set_period_status_def)

lemma map_status [simp]:
  "map pe_id (upd_where P (\<lambda>p. p\<lparr>pe_status := s\<rparr>) ps) = map pe_id ps"
  "map (\<lambda>p. (pe_tenant p, pe_month p)) (upd_where P (\<lambda>p. p\<lparr>pe_status := s\<rparr>) ps) = map (\<lambda>p. (pe_tenant p, pe_month p)) ps"
  by (induction ps) (auto simp: upd_where_Cons)

lemma map_const_upd:
  "f y = k \<Longrightarrow> map f (upd_where (\<lambda>x. f x = k) (\<lambda>_. y) xs) = map f xs"
  by (induction xs) (auto simp: upd_where_Cons)

text \<open>The row of a meter and a period.\<close>

lemma slot_row:
  assumes "first_row (\<lambda>r. rd_meter r = a \<and> rd_period r = b) rows = Some x"
  shows "x \<in> set rows" "rd_meter x = a" "rd_period x = b"
  using first_row_Some [OF assms] by auto

lemma slot_unique:
  "distinct (map (\<lambda>r. (rd_meter r, rd_period r)) rows) \<Longrightarrow> x \<in> set rows \<Longrightarrow>
   first_row (\<lambda>r. rd_meter r = rd_meter x \<and> rd_period r = rd_period x) rows = Some x"
  by (induction rows) (force simp: first_row_Cons)+

lemma keys_write:
  assumes "book_write t I db db'" "keys_unique db"
  shows "keys_unique db'"
  using assms
proof (cases rule: book_write.cases)
  case (save_reading m p r old vs v)
  show ?thesis
  proof (cases old)
    case None
    then have new: "put_row r (bk_readings db) = bk_readings db @ [r]" using save_reading by (intro put_row_new) simp
    have "\<forall>x\<in>set (bk_readings db). \<not> (rd_meter x = me_id m \<and> rd_period x = pe_id p)"
      using sym [OF save_reading(11) [unfolded None]] by (simp only: first_row_None)
    then show ?thesis using assms(2) save_reading None
      by (auto simp: keys_unique_def new)
  next
    case (Some x)
    then have x: "x \<in> set (bk_readings db)" "rd_meter x = rd_meter r" "rd_period x = rd_period r" "rd_id x = rd_id r"
      using save_reading slot_row [of "me_id m" "pe_id p" "bk_readings db" x] by simp_all
    then have "map rd_id (put_row r (bk_readings db)) = map rd_id (bk_readings db)"
      "map (\<lambda>r. (rd_meter r, rd_period r)) (put_row r (bk_readings db)) = map (\<lambda>r. (rd_meter r, rd_period r)) (bk_readings db)"
      using assms(2) by (auto simp: keys_unique_def intro!: put_row_key [of x])
    then show ?thesis using assms(2) save_reading(1) by (simp add: keys_unique_def)
  qed
next
  case (correct_reading r v rows)
  then show ?thesis using assms(2) corrected_rows(1,2) [OF correct_reading(5)] by (simp add: keys_unique_def)
next
  case (change_meter m m')
  then show ?thesis using assms(2) by (simp add: keys_unique_def map_const_upd)
next
  case (change_object x x')
  then show ?thesis using assms(2) by (simp add: keys_unique_def map_const_upd)
qed (auto simp: keys_unique_def comp_def)

text \<open>Meters, periods and readings are never deleted and keep their tenants.\<close>

lemma meters_kept:
  assumes "book_write t I db db'" "keys_unique db" "m \<in> set (bk_meters db)"
  shows "\<exists>m'\<in>set (bk_meters db'). me_id m' = me_id m \<and> me_tenant m' = me_tenant m"
  using assms(1)
proof (cases rule: book_write.cases)
  case (change_meter a b)
  show ?thesis
  proof (cases "me_id m = me_id a")
    case True
    then have "m = a" using distinct_ids_inj [of me_id "bk_meters db" m a] assms(2,3) change_meter by (simp add: keys_unique_def)
    then show ?thesis using change_meter assms(3) by (auto simp: set_upd_where intro!: bexI [of _ b])
  next
    case False
    then show ?thesis using change_meter assms(3) by (auto simp: set_upd_where intro!: bexI [of _ m])
  qed
qed (use assms(3) in auto)

lemma periods_kept:
  assumes "book_write t I db db'" "keys_unique db" "p \<in> set (bk_periods db)"
  shows "\<exists>q\<in>set (bk_periods db'). pe_id q = pe_id p \<and> pe_tenant q = pe_tenant p \<and> pe_month q = pe_month p
    \<and> (pe_status q = pe_status p \<or> (\<exists>ts. map_of status_flow (pe_status p) = Some ts \<and> pe_status q \<in> set ts))"
  using assms(1)
proof (cases rule: book_write.cases)
  case (move_period a targets s)
  show ?thesis
  proof (cases "pe_id p = pe_id a")
    case True
    then have "p = a" using distinct_ids_inj [of pe_id "bk_periods db" p a] assms(2,3) move_period by (simp add: keys_unique_def)
    then show ?thesis using move_period assms(3)
      by (auto simp: set_upd_where intro!: bexI [of _ "a\<lparr>pe_status := s\<rparr>"])
  next
    case False
    then show ?thesis using move_period assms(3) by (auto simp: set_upd_where intro!: bexI [of _ p])
  qed
qed (use assms(3) in auto)

lemma placed_write:
  assumes w: "book_write t I db db'" and k: "keys_unique db" and old: "\<forall>r\<in>set (bk_readings db). placed db r"
  shows "\<forall>r\<in>set (bk_readings db'). placed db' r"
proof
  fix r assume r: "r \<in> set (bk_readings db')"
  have "(\<exists>m\<in>set (bk_meters db). me_id m = rd_meter r \<and> me_tenant m = rd_tenant r)
     \<and> (\<exists>p\<in>set (bk_periods db). pe_id p = rd_period r \<and> pe_tenant p = rd_tenant r)"
    using w
  proof (cases rule: book_write.cases)
    case (save_reading m p r' o vs v)
    then have "r = r' \<or> r \<in> set (bk_readings db)" using r put_row_members [of r r' "bk_readings db"] by auto
    then show ?thesis using save_reading old by (auto simp: placed_def)
  next
    case (correct_reading r' v rows)
    then obtain a where "a \<in> set (bk_readings db)" "corrected_row db (rd_id r') (rd_meter r') (rv_new v) a r"
      using r all2_right [OF correct_reading(5), of r] by auto
    then show ?thesis using old by (auto simp: placed_def corrected_row_def)
  qed (use r old in \<open>auto simp: placed_def\<close>)
  then obtain m p where "m \<in> set (bk_meters db)" "me_id m = rd_meter r" "me_tenant m = rd_tenant r"
    "p \<in> set (bk_periods db)" "pe_id p = rd_period r" "pe_tenant p = rd_tenant r" by blast
  then show "placed db' r"
    using meters_kept [OF w k, of m] periods_kept [OF w k, of p] unfolding placed_def by metis
qed

lemma sound_write:
  assumes "book_write t I db db'" "\<forall>r\<in>set (bk_readings db). reading_sound r"
  shows "\<forall>r\<in>set (bk_readings db'). reading_sound r"
  using assms(1)
proof (cases rule: book_write.cases)
  case (save_reading m p r o vs v)
  then show ?thesis using assms(2) put_row_members [of _ r "bk_readings db"] by auto
next
  case (correct_reading r v rows)
  then show ?thesis using all2_right [OF correct_reading(5)] by (fastforce simp: corrected_row_def)
qed (use assms(2) in \<open>auto simp: store_sound\<close>)

lemma statuses_write:
  assumes "book_write t I db db'" "statuses_ok db"
  shows "statuses_ok db'"
  using assms(1)
proof (cases rule: book_write.cases)
  case (move_period p targets s)
  then have "s \<in> fst ` set status_flow" by (auto simp: status_flow_def split: if_splits)
  then have "pe_status q \<in> fst ` set status_flow" if "q \<in> set (bk_periods db')" for q
  proof -
    have "q \<in> set (bk_periods db) \<or> pe_status q = s" using that move_period(1) by (auto simp: set_upd_where)
    then show ?thesis using assms(2) \<open>s \<in> fst ` set status_flow\<close> unfolding statuses_ok_def by blast
  qed
  then show ?thesis by (simp add: statuses_ok_def)
next
  case (add_period p)
  then show ?thesis using assms(2) by (auto simp: statuses_ok_def status_flow_def)
qed (use assms(2) in \<open>auto simp: statuses_ok_def\<close>)

lemma trails_write:
  assumes w: "book_write t I db db'" and k: "keys_unique db" and old: "trails_ok db"
  shows "trails_ok db'"
  using w
proof (cases rule: book_write.cases)
  case (save_reading m p r before vs v)
  have revs: "revisions_of db' i = revisions_of db i @ (if rd_id r = i then vs else [])" for i
    using save_reading by (auto simp: revisions_of_def)
  have "trail None (revisions_of db (rd_id r)) (value_of before)"
  proof (cases before)
    case None
    then have "revisions_of db (rd_id r) = []"
    proof -
      have "rd_id r \<notin> rd_id ` set (bk_readings db)" using save_reading None by simp
      then show ?thesis using old unfolding trails_ok_def revisions_of_def filter_empty_conv by metis
    qed
    then show ?thesis using None by (simp add: value_of_def)
  next
    case (Some x)
    then have "x \<in> set (bk_readings db)" "rd_id x = rd_id r"
      using save_reading slot_row [of "me_id m" "pe_id p" "bk_readings db" x] by simp_all
    then show ?thesis using old Some by (auto simp: trails_ok_def value_of_def)
  qed
  then have mine: "trail None (revisions_of db' (rd_id r)) (rd_value r)"
    unfolding revs using save_reading(13-16) by (simp add: trail_append split: if_splits)
  have "trail None (revisions_of db' (rd_id s)) (rd_value s)" if "s \<in> set (bk_readings db')" for s
  proof (cases "s = r")
    case False
    then have "s \<in> set (bk_readings db)" "rd_id s \<noteq> rd_id r"
      using put_row_members [of s r "bk_readings db"] that save_reading(1) by auto
    then show ?thesis using old by (simp add: revs trails_ok_def)
  qed (use mine in simp)
  moreover have "\<forall>u\<in>set (bk_revisions db'). rv_reading u \<in> rd_id ` set (bk_readings db')"
    using save_reading old by (auto simp: put_row_ids trails_ok_def split: if_splits)
  ultimately show ?thesis by (auto simp: trails_ok_def)
next
  case (correct_reading r v rows)
  have ids: "rd_id ` set rows = rd_id ` set (bk_readings db)"
    using corrected_rows(1) [OF correct_reading(5)] by (metis list.set_map)
  have "trail None (revisions_of db' (rd_id b)) (rd_value b)" if b: "b \<in> set (bk_readings db')" for b
  proof -
    obtain a where a: "a \<in> set (bk_readings db)" "corrected_row db (rd_id r) (rd_meter r) (rv_new v) a b"
      using b correct_reading all2_right [OF correct_reading(5), of b] by auto
    then have ra: "rd_id r = rd_id a \<Longrightarrow> rd_value r = rd_value a"
      using distinct_ids_inj [of rd_id "bk_readings db" r a] k correct_reading(2) by (auto simp: keys_unique_def)
    have "trail None (revisions_of db (rd_id a)) (rd_value a)" using a old by (simp add: trails_ok_def)
    then show ?thesis
      using a correct_reading ra by (auto simp: corrected_row_def revisions_of_def trail_append split: if_splits)
  qed
  moreover have "\<forall>u\<in>set (bk_revisions db'). rv_reading u \<in> rd_id ` set (bk_readings db')"
    using correct_reading old ids by (auto simp: trails_ok_def)
  ultimately show ?thesis by (auto simp: trails_ok_def)
next
  case store
  have revs: "revisions_of db' i = map store_revision (revisions_of db i)" for i
    by (simp add: store revisions_of_def filter_map comp_def)
  have "trail None (revisions_of db' (rd_id s)) (rd_value s)" if s: "s \<in> set (bk_readings db')" for s
  proof -
    obtain a where a: "a \<in> set (bk_readings db)" "s = store_reading a" using s store by auto
    then have "trail None (revisions_of db (rd_id a)) (rd_value a)" using old by (simp add: trails_ok_def)
    from trail_store [OF this] show ?thesis by (simp add: a(2) revs)
  qed
  moreover have "\<forall>u\<in>set (bk_revisions db'). rv_reading u \<in> rd_id ` set (bk_readings db')"
    using old by (auto simp: store trails_ok_def image_image)
  ultimately show ?thesis unfolding trails_ok_def by blast
qed (use old in \<open>simp_all add: trails_ok_def revisions_of_def\<close>)

text \<open>Active meters.\<close>

lemma meters_ok_cong:
  assumes "bk_meters db' = bk_meters db" "bk_objects db' = bk_objects db" "meters_ok db"
  shows "meters_ok db'"
proof -
  have "number_free db' m = number_free db m" "housed db' m = housed db m" for m
    by (simp_all add: number_free_def housed_def assms(1,2))
  then show ?thesis using assms unfolding meters_ok_def by simp
qed

lemma meters_write:
  assumes w: "book_write t I db db'" and k: "keys_unique db" and old: "meters_ok db"
  shows "meters_ok db'"
  using w
proof (cases rule: book_write.cases)
  case (add_meter m)
  have new: "bk_meters db' = bk_meters db @ [m]" "bk_objects db' = bk_objects db" using add_meter(1) by simp_all
  have h: "housed db' x = housed db x" for x by (simp add: housed_def new)
  have "number_free db' x" if x: "x \<in> set (bk_meters db')" "me_status x = ''active''" for x
    unfolding number_free_def
  proof (intro ballI impI)
    fix y assume y: "y \<in> set (bk_meters db')"
      and same: "me_tenant y = me_tenant x \<and> me_normalized y = me_normalized x \<and> me_status y = ''active''"
    consider "x \<in> set (bk_meters db)" "y \<in> set (bk_meters db)" | "x = m" "y \<in> set (bk_meters db)"
      | "x \<in> set (bk_meters db)" "y = m" | "x = m" "y = m" using x y new by auto
    then show "me_id y = me_id x"
    proof cases
      case 1
      then show ?thesis using old x(2) same unfolding meters_ok_def number_free_def by blast
    next
      case 2
      then show ?thesis using add_meter(5) same unfolding number_free_def by blast
    next
      case 3
      then have "me_id x = me_id m" using add_meter(5) same x(2) unfolding number_free_def by simp
      then show ?thesis using 3 by simp
    qed simp
  qed
  then show ?thesis using old add_meter(4,6) unfolding meters_ok_def h by (auto simp: new)
next
  case (change_meter m m')
  have mem: "y \<in> set (bk_meters db') \<Longrightarrow> y = m' \<or> y \<in> set (bk_meters db)" for y
    using change_meter(1) by (auto simp: set_upd_where)
  have objs: "bk_objects db' = bk_objects db" using change_meter(1) by simp
  have free: "number_free db y" "housed db y" "0 \<le> me_coefficient y" if "y \<in> set (bk_meters db')" "me_status y = ''active''" for y
    using mem [OF that(1)] that(2) change_meter(6,7) old unfolding meters_ok_def by blast+
  have "number_free db' x" if x: "x \<in> set (bk_meters db')" "me_status x = ''active''" for x
    unfolding number_free_def
  proof (intro ballI impI)
    fix y assume y: "y \<in> set (bk_meters db')"
      and same: "me_tenant y = me_tenant x \<and> me_normalized y = me_normalized x \<and> me_status y = ''active''"
    show "me_id y = me_id x"
    proof (cases "y \<in> set (bk_meters db)")
      case True
      then show ?thesis using free(1) [OF x] same unfolding number_free_def by blast
    next
      case False
      then have "y = m'" using mem [OF y] by blast
      then show ?thesis using free(1) [OF y] same mem [OF x(1)] x(2) unfolding number_free_def by metis
    qed
  qed
  moreover have "housed db' x" if x: "x \<in> set (bk_meters db')" "me_status x = ''active''" for x
    using free(2) [OF x] by (simp add: housed_def objs)
  moreover have "0 \<le> me_coefficient x" if x: "x \<in> set (bk_meters db')" for x
    using mem [OF x] change_meter(6) old unfolding meters_ok_def by blast
  ultimately show ?thesis unfolding meters_ok_def by blast
next
  case (add_object x)
  have "number_free db' m = number_free db m" "housed db m \<Longrightarrow> housed db' m" for m
    using add_object(1) by (auto simp: number_free_def housed_def)
  then show ?thesis using old add_object(1) unfolding meters_ok_def by simp
next
  case (change_object x x')
  have "housed db' m" if m: "m \<in> set (bk_meters db)" "me_status m = ''active''" for m
  proof -
    obtain y where y: "y \<in> set (bk_objects db)" "ro_id y = me_object m" "ro_tenant y = me_tenant m" "ro_active y"
      using m old by (auto simp: meters_ok_def housed_def)
    show ?thesis
    proof (cases "ro_id y = ro_id x")
      case True
      then have "y = x" using distinct_ids_inj [of ro_id "bk_objects db" y x] k y change_object by (simp add: keys_unique_def)
      then have "x' \<in> set (bk_objects db')" "ro_id x' = me_object m" "ro_tenant x' = me_tenant m" "ro_active x'"
        using y change_object m by (auto simp: set_upd_where)
      then show ?thesis by (auto simp: housed_def)
    next
      case False
      then show ?thesis using y change_object by (auto simp: housed_def set_upd_where)
    qed
  qed
  moreover have "number_free db' m = number_free db m" for m using change_object(1) by (simp add: number_free_def)
  ultimately show ?thesis using old change_object(1) unfolding meters_ok_def by simp
qed (rule meters_ok_cong [OF _ _ old]; simp)+

text \<open>The forest: a walk that ends without meeting the object shows that the new edge closes no
  cycle.\<close>

lemma walk_misses:
  "assert_no_cycle objects x k (Some c) = Inr () \<Longrightarrow> (c, x) \<notin> (parent_rel objects)\<^sup>*"
proof (induction k arbitrary: c)
  case (Suc k)
  then have c: "c \<noteq> x" and up: "assert_no_cycle objects x k (parent_of objects c) = Inr ()"
    by (auto split: if_splits)
  show ?case
  proof
    assume "(c, x) \<in> (parent_rel objects)\<^sup>*"
    then obtain z where "(c, z) \<in> parent_rel objects" "(z, x) \<in> (parent_rel objects)\<^sup>*"
      using c by (auto elim: converse_rtranclE)
    then show False using Suc.IH [of z] up by (simp add: parent_rel_def)
  qed
qed simp

lemma parent_of_append:
  "ro_id x \<notin> ro_id ` set objects \<Longrightarrow>
   parent_of (objects @ [x]) i = (if i = ro_id x then ro_parent x else parent_of objects i)"
proof -
  assume "ro_id x \<notin> ro_id ` set objects"
  then have "first_row (\<lambda>y. ro_id y = ro_id x) objects = None" unfolding first_row_None by (metis imageI)
  then show ?thesis
    by (cases "first_row (\<lambda>y. ro_id y = i) objects") (auto simp: parent_of_def first_row_append first_row_Cons)
qed

lemma parent_of_upd:
  assumes "x \<in> set objects" "ro_id x' = ro_id x"
  shows "parent_of (upd_where (\<lambda>y. ro_id y = ro_id x) (\<lambda>_. x') objects) i
    = (if i = ro_id x then ro_parent x' else parent_of objects i)"
proof -
  have row: "first_row (\<lambda>y. ro_id y = i) (upd_where (\<lambda>y. ro_id y = ro_id x) (\<lambda>_. x') objects)
      = map_option (\<lambda>y. if ro_id y = ro_id x then x' else y) (first_row (\<lambda>y. ro_id y = i) objects)"
    using assms(2) by (intro first_row_upd_where) simp
  show ?thesis
  proof (cases "first_row (\<lambda>y. ro_id y = i) objects")
    case None
    then have "i \<noteq> ro_id x" using assms(1) unfolding first_row_None by blast
    then show ?thesis by (simp add: parent_of_def row None)
  next
    case (Some y)
    then have "ro_id y = i" using first_row_Some by fastforce
    then show ?thesis by (simp add: parent_of_def row Some)
  qed
qed

lemma parent_of_member:
  "distinct (map ro_id objects) \<Longrightarrow> x \<in> set objects \<Longrightarrow> parent_of objects (ro_id x) = ro_parent x"
  by (simp add: parent_of_def first_row_id)

lemma parent_rel_target:
  "forest_ok db \<Longrightarrow> (i, p) \<in> parent_rel (bk_objects db) \<Longrightarrow> p \<in> ro_id ` set (bk_objects db)"
  unfolding forest_ok_def parent_rel_def parent_of_def
  by (auto simp: bind_eq_Some_conv dest!: first_row_Some)

lemma forest_write:
  assumes w: "book_write t I db db'" and k: "keys_unique db" and old: "forest_ok db"
  shows "forest_ok db'"
  using w
proof (cases rule: book_write.cases)
  case (add_object x)
  let ?R = "parent_rel (bk_objects db)"
  have rel: "parent_rel (bk_objects db @ [x]) \<subseteq> ?R \<union> (case ro_parent x of None \<Rightarrow> {} | Some p \<Rightarrow> {(ro_id x, p)})"
    using add_object by (auto simp: parent_rel_def parent_of_append split: if_splits)
  have "acyclic (?R \<union> (case ro_parent x of None \<Rightarrow> {} | Some p \<Rightarrow> {(ro_id x, p)}))"
  proof (cases "ro_parent x")
    case (Some p)
    have "(p, ro_id x) \<notin> ?R\<^sup>*"
    proof
      assume "(p, ro_id x) \<in> ?R\<^sup>*"
      then have "p = ro_id x \<or> (\<exists>z. (z, ro_id x) \<in> ?R)" by (auto elim: rtranclE)
      moreover have "p \<in> ro_id ` set (bk_objects db)" using add_object(4) Some by auto
      ultimately show False using parent_rel_target [OF old] add_object(2) by blast
    qed
    then show ?thesis using old Some by (simp add: forest_ok_def)
  qed (use old in \<open>simp add: forest_ok_def\<close>)
  then have "acyclic (parent_rel (bk_objects db'))" using acyclic_subset [OF _ rel] add_object(1) by simp
  then show ?thesis using old add_object by (fastforce simp: forest_ok_def)
next
  case (change_object x x')
  let ?R = "parent_rel (bk_objects db)"
  have "parent_of (bk_objects db') i = (if i = ro_id x then ro_parent x' else parent_of (bk_objects db) i)" for i
    using change_object by (simp add: parent_of_upd)
  then have rel: "parent_rel (bk_objects db') \<subseteq> ?R \<union> (case ro_parent x' of None \<Rightarrow> {} | Some p \<Rightarrow> {(ro_id x, p)})"
    by (auto simp: parent_rel_def split: if_splits)
  have own: "parent_of (bk_objects db) (ro_id x) = ro_parent x"
    using k change_object by (intro parent_of_member) (simp_all add: keys_unique_def)
  have "acyclic (?R \<union> (case ro_parent x' of None \<Rightarrow> {} | Some p \<Rightarrow> {(ro_id x, p)}))"
  proof (cases "ro_parent x'")
    case (Some p)
    show ?thesis
    proof (cases "ro_parent x' = ro_parent x")
      case True
      then have "?R \<union> {(ro_id x, p)} = ?R" using own Some by (auto simp: parent_rel_def)
      then show ?thesis using old Some by (simp add: forest_ok_def)
    next
      case False
      then have "(p, ro_id x) \<notin> ?R\<^sup>*" using walk_misses [of "bk_objects db" "ro_id x" 100 p] change_object Some by simp
      then show ?thesis using old Some by (simp add: forest_ok_def)
    qed
  qed (use old in \<open>simp add: forest_ok_def\<close>)
  then have "acyclic (parent_rel (bk_objects db'))" by (rule acyclic_subset [OF _ rel])
  moreover have "\<exists>y\<in>set (bk_objects db'). ro_id y = p \<and> ro_tenant y = ro_tenant z"
    if z: "z \<in> set (bk_objects db')" "ro_parent z = Some p" for z p
  proof -
    have "\<exists>y\<in>set (bk_objects db). ro_id y = p \<and> ro_tenant y = ro_tenant z"
      using z change_object old by (auto simp: set_upd_where forest_ok_def)
    then obtain y where y: "y \<in> set (bk_objects db)" "ro_id y = p" "ro_tenant y = ro_tenant z" by blast
    show ?thesis
    proof (cases "ro_id y = ro_id x")
      case True
      then have "y = x" using distinct_ids_inj [of ro_id "bk_objects db" y x] k y change_object by (simp add: keys_unique_def)
      then show ?thesis using y change_object by (auto simp: set_upd_where intro!: bexI [of _ x'])
    next
      case False
      then show ?thesis using y change_object by (auto simp: set_upd_where)
    qed
  qed
  ultimately show ?thesis by (simp add: forest_ok_def)
qed (use old in \<open>simp_all add: forest_ok_def\<close>)

lemma books_write:
  assumes w: "book_write t I db db'" and inv: "books_inv db"
  shows "books_inv db'"
proof -
  have k: "keys_unique db" using inv by (simp add: books_inv_def)
  show ?thesis
    unfolding books_inv_def
    using inv keys_write [OF w k] placed_write [OF w k] trails_write [OF w k] sound_write [OF w]
      meters_write [OF w k] forest_write [OF w k] statuses_write [OF w]
    unfolding books_inv_def by argo
qed

lemma books_writes: "(book_write t I)\<^sup>*\<^sup>* db db' \<Longrightarrow> books_inv db \<Longrightarrow> books_inv db'"
  by (induction rule: rtranclp_induct) (auto intro: books_write)

subsection \<open>What a tenant sees\<close>

text \<open>The rows of one tenant.  Between two calls every row is as its columns hold it.\<close>

record tenant_rows =
  tv_objects :: "resource_object list"
  tv_meters :: "meter list"
  tv_periods :: "reporting_period list"
  tv_readings :: "reading list"
  tv_revisions :: "revision list"
  tv_rules :: "anomaly_rule list"

definition tenant_view :: "int \<Rightarrow> books \<Rightarrow> tenant_rows" where
  "tenant_view u db =
     \<lparr>tv_objects = filter (\<lambda>x. ro_tenant x = u) (bk_objects db),
      tv_meters = filter (\<lambda>m. me_tenant m = u) (bk_meters db),
      tv_periods = filter (\<lambda>p. pe_tenant p = u) (bk_periods db),
      tv_readings = filter (\<lambda>r. rd_tenant r = u) (bk_readings db),
      tv_revisions = filter (\<lambda>v. rv_reading v \<in> rd_id ` {r \<in> set (bk_readings db). rd_tenant r = u}) (bk_revisions db),
      tv_rules = filter (\<lambda>a. an_tenant a = u) (bk_rules db)\<rparr>"

definition rows_stored :: "tenant_rows \<Rightarrow> bool" where
  "rows_stored v \<longleftrightarrow>
     map store_reading (tv_readings v) = tv_readings v \<and> map store_revision (tv_revisions v) = tv_revisions v"

lemma put_row_filter:
  assumes "\<not> Q r" "\<And>s. s \<in> set rows \<Longrightarrow> rd_id s = rd_id r \<Longrightarrow> \<not> Q s"
  shows "filter Q (put_row r rows) = filter Q rows"
proof -
  have "filter Q (upd_where (\<lambda>s. rd_id s = rd_id r) (\<lambda>_. r) rows) = filter Q rows"
    using assms by (induction rows) (auto simp: upd_where_Cons)
  then show ?thesis using assms(1) by (simp add: put_row_def)
qed

lemma filter_upd_where:
  assumes "\<And>x. x \<in> set xs \<Longrightarrow> P x \<Longrightarrow> \<not> Q x \<and> \<not> Q (f x)"
  shows "filter Q (upd_where P f xs) = filter Q xs"
  using assms by (induction xs) (auto simp: upd_where_Cons)

lemma all2_filter:
  assumes "list_all2 R xs ys" "\<And>x y. x \<in> set xs \<Longrightarrow> R x y \<Longrightarrow> Q y = Q x \<and> (Q x \<longrightarrow> y = x)"
  shows "filter Q ys = filter Q xs"
  using assms
proof (induction rule: list_all2_induct)
  case (Cons x xs y ys)
  have xy: "Q y = Q x" "Q x \<Longrightarrow> y = x" using Cons.prems [of x y] Cons.hyps(1) by simp_all
  have "filter Q ys = filter Q xs" using Cons.IH Cons.prems by simp
  then show ?case using xy by (cases "Q x") simp_all
qed simp

lemma meter_tenant:
  assumes "keys_unique db" "placed db r" "m \<in> set (bk_meters db)" "rd_meter r = me_id m"
  shows "rd_tenant r = me_tenant m"
proof -
  obtain m' where m': "m' \<in> set (bk_meters db)" "me_id m' = rd_meter r" "me_tenant m' = rd_tenant r"
    using assms(2) unfolding placed_def by blast
  then have "m' = m" using distinct_ids_inj [of me_id "bk_meters db" m' m] assms by (simp add: keys_unique_def)
  then show ?thesis using m' by simp
qed

lemma view_write:
  assumes w: "book_write t I db db'" and k: "keys_unique db" and at: "\<forall>r\<in>set (bk_readings db). placed db r"
    and other: "u \<noteq> t" and stored: "rows_stored (tenant_view u db)"
  shows "tenant_view u db' = tenant_view u db"
  using w
proof (cases rule: book_write.cases)
  case (save_reading m p r old vs v)
  have ids: "s = s'" if "s \<in> set (bk_readings db)" "s' \<in> set (bk_readings db)" "rd_id s = rd_id s'" for s s'
    using distinct_ids_inj [of rd_id "bk_readings db" s s'] k that by (simp add: keys_unique_def)
  have foreign: "rd_tenant s = t" if s: "s \<in> set (bk_readings db)" "rd_id s = rd_id r" for s
  proof (cases old)
    case None
    then have "rd_id r \<notin> rd_id ` set (bk_readings db)" using save_reading(12) by simp
    then show ?thesis using imageI [OF s(1), of rd_id] s(2) by simp
  next
    case (Some x)
    have x: "x \<in> set (bk_readings db)" "rd_meter x = me_id m"
      using slot_row [OF save_reading(11) [unfolded Some, symmetric]] by simp_all
    then have "s = x" using ids [OF s(1) x(1)] s(2) save_reading(12) Some by simp
    then show ?thesis using meter_tenant [OF k _ save_reading(2)] at x save_reading(4) by simp
  qed
  have rows: "filter (\<lambda>r. rd_tenant r = u) (put_row r (bk_readings db)) = filter (\<lambda>r. rd_tenant r = u) (bk_readings db)"
    using foreign save_reading(9) other by (intro put_row_filter) auto
  then have mine: "{s \<in> set (bk_readings db'). rd_tenant s = u} = {s \<in> set (bk_readings db). rd_tenant s = u}"
    unfolding save_reading(1) set_filter [symmetric] by simp
  have "filter (\<lambda>v. rv_reading v \<in> rd_id ` {s \<in> set (bk_readings db). rd_tenant s = u}) vs = []"
    using save_reading(13,14) foreign other by (auto split: if_splits)
  then show ?thesis by (simp only: tenant_view_def mine) (simp add: save_reading(1) rows)
next
  case (correct_reading r v rows)
  have same: "rd_tenant b = rd_tenant a \<and> (rd_tenant a = u \<longrightarrow> b = a)"
    if a: "a \<in> set (bk_readings db)" and c: "corrected_row db (rd_id r) (rd_meter r) (rv_new v) a b" for a b
  proof -
    obtain m where m: "m \<in> set (bk_meters db)" "me_id m = rd_meter r" "me_tenant m = rd_tenant r"
      using at correct_reading(2) unfolding placed_def by blast
    have "rd_meter a = rd_meter r \<Longrightarrow> rd_tenant a = t"
      using meter_tenant [OF k _ m(1), of a] at a m correct_reading(3) by simp
    then show ?thesis using c other unfolding corrected_row_def by blast
  qed
  have rows: "filter (\<lambda>r. rd_tenant r = u) rows = filter (\<lambda>r. rd_tenant r = u) (bk_readings db)"
  proof (rule all2_filter [OF correct_reading(5)])
    fix a b assume "a \<in> set (bk_readings db)" "corrected_row db (rd_id r) (rd_meter r) (rv_new v) a b"
    from same [OF this] show "(rd_tenant b = u) = (rd_tenant a = u) \<and> (rd_tenant a = u \<longrightarrow> b = a)"
      by (cases "rd_tenant a = u") simp_all
  qed
  then have mine: "{s \<in> set (bk_readings db'). rd_tenant s = u} = {s \<in> set (bk_readings db). rd_tenant s = u}"
    unfolding correct_reading(1) set_filter [symmetric] by simp
  have "rv_reading v \<notin> rd_id ` {s \<in> set (bk_readings db). rd_tenant s = u}"
  proof
    assume "rv_reading v \<in> rd_id ` {s \<in> set (bk_readings db). rd_tenant s = u}"
    then obtain s where "s \<in> set (bk_readings db)" "rd_tenant s = u" "rd_id s = rd_id r" using correct_reading(6) by auto
    then show False
      using distinct_ids_inj [of rd_id "bk_readings db" s r] k correct_reading(2,3) other by (simp add: keys_unique_def)
  qed
  then show ?thesis by (simp only: tenant_view_def mine) (simp add: correct_reading(1) rows)
next
  case store
  have "{r \<in> set (map store_reading (bk_readings db)). rd_tenant r = u}
      = store_reading ` {r \<in> set (bk_readings db). rd_tenant r = u}"
    by auto
  then have mine: "rd_id ` {r \<in> set (bk_readings db'). rd_tenant r = u} = rd_id ` {r \<in> set (bk_readings db). rd_tenant r = u}"
    by (simp only: store commit_books_simps image_image store_reading_simps)
  show ?thesis using stored
    by (simp only: tenant_view_def mine) (simp add: store rows_stored_def filter_map comp_def)
next
  case (set_rule rows)
  have "filter (\<lambda>a. an_tenant a = u) xs = filter (\<lambda>a. an_tenant a = u) (filter (\<lambda>a. an_tenant a \<noteq> t) xs)" for xs
    using other by (auto intro!: filter_cong)
  then have "filter (\<lambda>a. an_tenant a = u) rows = filter (\<lambda>a. an_tenant a = u) (bk_rules db)"
    using set_rule(2) by metis
  then show ?thesis using set_rule(1) by (simp add: tenant_view_def)
next
  case (change_meter m m')
  have "filter (\<lambda>m. me_tenant m = u) (bk_meters db') = filter (\<lambda>m. me_tenant m = u) (bk_meters db)"
    unfolding change_meter(1)
    using change_meter other distinct_ids_inj [of me_id "bk_meters db" _ m] k
    by (simp add: keys_unique_def) (rule filter_upd_where, fastforce)
  then show ?thesis by (simp add: tenant_view_def change_meter(1))
next
  case (change_object x x')
  have "filter (\<lambda>x. ro_tenant x = u) (bk_objects db') = filter (\<lambda>x. ro_tenant x = u) (bk_objects db)"
    unfolding change_object(1)
    using change_object other distinct_ids_inj [of ro_id "bk_objects db" _ x] k
    by (simp add: keys_unique_def) (rule filter_upd_where, fastforce)
  then show ?thesis by (simp add: tenant_view_def change_object(1))
next
  case (move_period p targets s)
  have "filter (\<lambda>p. pe_tenant p = u) (bk_periods db') = filter (\<lambda>p. pe_tenant p = u) (bk_periods db)"
    unfolding move_period(1)
    using move_period other distinct_ids_inj [of pe_id "bk_periods db" _ p] k
    by (simp add: keys_unique_def) (rule filter_upd_where, fastforce)
  then show ?thesis by (simp add: tenant_view_def move_period(1))
qed (use other in \<open>auto simp: tenant_view_def\<close>)

lemma view_writes:
  assumes "(book_write t I)\<^sup>*\<^sup>* db db'" "books_inv db" "u \<noteq> t" "rows_stored (tenant_view u db)"
  shows "tenant_view u db' = tenant_view u db"
  using assms
proof (induction rule: rtranclp_induct)
  case (step b c)
  then have "books_inv b" using books_writes by blast
  then show ?case using step view_write [OF step.hyps(2), of u] by (simp add: books_inv_def)
qed simp

subsection \<open>Frozen readings\<close>

text \<open>A stored reading of a period with status \<open>s\<close>.\<close>

definition reading_in_status :: "string set \<Rightarrow> books \<Rightarrow> reading \<Rightarrow> bool" where
  "reading_in_status S db r \<longleftrightarrow>
     r \<in> set (bk_readings db) \<and> store_reading r = r
     \<and> (\<exists>p\<in>set (bk_periods db). pe_id p = rd_period r \<and> pe_status p \<in> S)"

lemma period_of:
  "keys_unique db \<Longrightarrow> p \<in> set (bk_periods db) \<Longrightarrow> q \<in> set (bk_periods db) \<Longrightarrow> pe_id p = pe_id q \<Longrightarrow> p = q"
  using distinct_ids_inj [of pe_id "bk_periods db" p q] by (simp add: keys_unique_def)

text \<open>No write but a correction touches a reading of a submitted or closed period, and no correction of
  another reading touches one of a closed period.\<close>

lemma frozen_write:
  assumes w: "book_write t I db db'" and k: "keys_unique db" and r: "reading_in_status S db r"
    and S: "S = {''closed''} \<and> rd_id r \<notin> I \<or> S = {''submitted'', ''closed''} \<and> I = {}"
  shows "reading_in_status S db' r"
proof -
  obtain p where p: "p \<in> set (bk_periods db)" "pe_id p = rd_period r" "pe_status p \<in> S"
    using r by (auto simp: reading_in_status_def)
  obtain q where q: "q \<in> set (bk_periods db')" "pe_id q = pe_id p"
    "pe_status q = pe_status p \<or> (\<exists>ts. map_of status_flow (pe_status p) = Some ts \<and> pe_status q \<in> set ts)"
    using periods_kept [OF w k p(1)] by blast
  have "pe_status q \<in> S" using q(3) p(3) S by (auto simp: status_flow_def)
  moreover have "r \<in> set (bk_readings db')"
    using w
  proof (cases rule: book_write.cases)
    case (save_reading m p' r' old vs v)
    have "rd_id r \<noteq> rd_id r'"
    proof
      assume same: "rd_id r = rd_id r'"
      have rin: "r \<in> set (bk_readings db)" using r by (simp add: reading_in_status_def)
      show False
      proof (cases old)
        case None
        then show False using save_reading(12) imageI [OF rin, of rd_id] same by simp
      next
        case (Some x)
        have x: "x \<in> set (bk_readings db)" "rd_period x = pe_id p'"
          using slot_row [OF save_reading(11) [unfolded Some, symmetric]] by simp_all
        have "r = x" using distinct_ids_inj [of rd_id "bk_readings db" r x] k rin x same save_reading(12) Some
          by (simp add: keys_unique_def)
        then have "p = p'" using period_of [OF k p(1) save_reading(3)] p(2) x(2) by simp
        then show False using p(3) S save_reading(6) by (auto simp: editable_statuses_def)
      qed
    qed
    then show ?thesis using r put_row_keeps [of r "bk_readings db" r'] by (simp add: save_reading(1) reading_in_status_def)
  next
    case (correct_reading c v rows)
    then obtain b where b: "b \<in> set rows" "corrected_row db (rd_id c) (rd_meter c) (rv_new v) r b"
      using all2_left [OF correct_reading(5), of r] r by (auto simp: reading_in_status_def)
    have neq: "rd_id r \<noteq> rd_id c" and closed: "pe_status p = ''closed''" using S p(3) correct_reading(4) by auto
    have "pe_status p' = ''closed''" if "p' \<in> set (bk_periods db)" "pe_id p' = rd_period r" for p'
      using period_of [OF k p(1) that(1)] that(2) p(2) closed by simp
    then have "b = r" using b(2) neq unfolding corrected_row_def by blast
    then show ?thesis using b(1) correct_reading(1) by simp
  next
    case store
    have "r \<in> set (bk_readings db)" and eq: "store_reading r = r" using r unfolding reading_in_status_def by blast+
    then have "store_reading r \<in> store_reading ` set (bk_readings db)" by (intro imageI)
    then show ?thesis unfolding eq store commit_books_simps set_map .
  qed (insert r [unfolded reading_in_status_def, THEN conjunct1], simp_all)
  moreover have "pe_id q = rd_period r" using q(2) p(2) by simp
  ultimately show ?thesis using r q(1) unfolding reading_in_status_def by blast
qed

lemma frozen_writes:
  assumes "(book_write t I)\<^sup>*\<^sup>* db db'" "books_inv db" "reading_in_status S db r"
    and "S = {''closed''} \<and> rd_id r \<notin> I \<or> S = {''submitted'', ''closed''} \<and> I = {}"
  shows "reading_in_status S db' r"
  using assms
proof (induction rule: rtranclp_induct)
  case (step b c)
  then have "books_inv b" using books_writes by blast
  then show ?case using frozen_write [OF step.hyps(2), of S r] step by (simp add: books_inv_def)
qed simp

end
