(* ===== verification/AccountingRuns.thy ===== *)
theory AccountingRuns
  imports AccountingWrites
begin

section \<open>Resource accounting: the handlers as writes, and runs\<close>

text \<open>
  Every handler that succeeds is a sequence of the writes of its tenant; then the calls of the service,
  what they may correct, and their step relation.
\<close>

subsection \<open>Validation\<close>

lemma quantized_Inr: "quantized x = Inr c \<longleftrightarrow> quantize4 x = Some c"
  by (simp add: quantized_def split: option.splits)

lemma value_notes_nonneg: "value_notes m v = [] \<Longrightarrow> 0 \<le> v"
  by (auto simp: value_notes_def split: if_splits)

lemma consumption_nonneg:
  assumes "compute_consumption prev v k kind d = Inr c" "0 \<le> v" "0 \<le> k" "kind \<in> {''normal'', ''replacement''}"
    and "decrease_notes prev v kind = []"
  shows "0 \<le> c"
proof -
  have "\<exists>x. 0 \<le> x \<and> quantize4 (dec x) = Some c"
  proof (cases "prev = None \<or> kind = ''replacement''")
    case True
    then have "quantize4 (dec (v * k)) = Some c"
      using assms(1) by (auto simp: compute_consumption_def quantized_Inr dec_mul_def split: option.splits)
    then show ?thesis using assms(2,3) mult_nonneg_nonneg by blast
  next
    case False
    then obtain p where p: "prev = Some p" and kind: "kind = ''normal''" using assms(4) by auto
    then have le: "p \<le> v" using assms(5) by (simp add: decrease_notes_def split: if_splits)
    have "quantize4 (dec (dec (v - p) * k)) = Some c"
      using assms(1) by (simp add: compute_consumption_def p kind quantized_Inr dec_mul_def dec_sub_def)
    moreover have "0 \<le> dec (v - p) * k" using le assms(3) dec_nonneg [of "v - p"] by simp
    ultimately show ?thesis by blast
  qed
  then show ?thesis using quantize4_nonneg dec_nonneg by blast
qed

lemma evaluate_cases:
  assumes "evaluate_value today thresholds periods stored m month prev v d kind = Inr e" "0 \<le> me_coefficient m"
  obtains (refused) "vl_status e = ''error''" "vl_consumption e = None" "vl_notes e \<noteq> None"
    | (accepted) c where "vl_status e = ''ok'' \<or> vl_status e = ''warning''" "vl_consumption e = Some c" "0 \<le> v"
        "compute_consumption prev v (me_coefficient m) kind (me_max_digits m) = Inr c"
        "kind \<in> {''normal'', ''replacement''} \<longrightarrow> 0 \<le> c" "decrease_notes prev v kind = []"
proof -
  obtain ns where ns: "(case d of None \<Rightarrow> Some [] | Some x \<Rightarrow> date_notes today month x) = Some ns"
    using assms(1) by (simp add: evaluate_value_def split: option.splits)
  show thesis
  proof (cases "value_notes m v @ ns @ decrease_notes prev v kind = []")
    case False
    then have "e = \<lparr>vl_consumption = None, vl_status = ''error'', vl_notes = Some (value_notes m v @ ns @ decrease_notes prev v kind)\<rparr>"
      using assms(1) by (simp add: evaluate_value_def ns Let_def)
    then show thesis using refused by simp
  next
    case True
    then obtain c where c: "compute_consumption prev v (me_coefficient m) kind (me_max_digits m) = Inr c"
      and e: "vl_consumption e = Some c" "vl_status e = ''ok'' \<or> vl_status e = ''warning''"
      using assms(1) by (auto simp: evaluate_value_def ns Let_def res_bind_Inr_iff split: option.splits)
    have v: "0 \<le> v" using True value_notes_nonneg [of m v] by simp
    show thesis
      by (rule accepted [OF e(2,1) v c]) (use True consumption_nonneg [OF c v assms(2)] in simp_all)
  qed
qed

lemma fill_simps [simp]:
  "rd_id (fill_evaluation e r) = rd_id r" "rd_meter (fill_evaluation e r) = rd_meter r"
  "rd_period (fill_evaluation e r) = rd_period r" "rd_tenant (fill_evaluation e r) = rd_tenant r"
  "rd_value (fill_evaluation e r) = rd_value r" "rd_kind (fill_evaluation e r) = rd_kind r"
  "rd_previous (fill_evaluation e r) = rd_previous r" "rd_read_at (fill_evaluation e r) = rd_read_at r"
  "rd_status (fill_evaluation e r) = vl_status e" "rd_consumption (fill_evaluation e r) = vl_consumption e"
  by (simp_all add: fill_evaluation_def)

text \<open>A row that carries an evaluation of its own value and kind is sound.\<close>

lemma evaluated_sound:
  assumes "evaluate_value today thresholds periods stored m month prev v d kind = Inr e" "0 \<le> me_coefficient m"
    and "rd_value r = Some v" "rd_kind r = kind" "rd_status r = vl_status e" "rd_consumption r = vl_consumption e"
  shows "reading_sound r"
  using assms(1,2)
proof (cases rule: evaluate_cases)
  case refused
  then show ?thesis using assms(3-6) by (simp add: reading_sound_def accepted_status_def)
next
  case (accepted c)
  then show ?thesis using assms(3-6) by (auto simp: reading_sound_def accepted_status_def)
qed

lemma validate_and_fill_Inr:
  assumes "validate_and_fill today db m p data base = Inr r" "0 \<le> me_coefficient m"
  shows "reading_sound r" "rd_id r = rd_id base" "rd_meter r = rd_meter base" "rd_period r = rd_period base"
    "rd_tenant r = rd_tenant base" "rd_value r = in_value data"
proof -
  have "reading_sound r \<and> rd_id r = rd_id base \<and> rd_meter r = rd_meter base \<and> rd_period r = rd_period base
    \<and> rd_tenant r = rd_tenant base \<and> rd_value r = in_value data"
  proof (cases "in_value data")
    case None
    then show ?thesis using assms(1)
      by (auto simp: validate_and_fill_def Let_def reading_sound_def accepted_status_def split: if_splits)
  next
    case (Some v)
    define prev where "prev = value_of (get_previous_accepted (bk_periods db) (bk_readings db) (bk_readings db) (me_id m) (pe_month p))"
    define base' where "base' = base\<lparr>rd_kind := in_kind data, rd_missing_reason := in_missing_reason data,
                rd_comment := in_comment data, rd_photo := in_photo data, rd_previous := prev\<rparr>"
    obtain day e where e: "evaluate_value today (bk_rules db) (bk_periods db) (bk_readings db) m (pe_month p) prev v
        (Some day) (in_kind data) = Inr e"
      and r: "r = fill_evaluation e (base'\<lparr>rd_value := Some v, rd_read_at := Some day\<rparr>)"
      using assms(1) Some
      by (auto simp: validate_and_fill_def Let_def res_bind_Inr_iff prev_def base'_def split: option.splits)
    have "reading_sound r" by (rule evaluated_sound [OF e assms(2)]) (simp_all add: r base'_def)
    then show ?thesis by (simp add: r Some base'_def)
  qed
  then show "reading_sound r" "rd_id r = rd_id base" "rd_meter r = rd_meter base" "rd_period r = rd_period base"
    "rd_tenant r = rd_tenant base" "rd_value r = in_value data" by blast+
qed

lemma sound_updated_by: "reading_sound (r\<lparr>rd_updated_by := u\<rparr>) = reading_sound r"
  by (simp add: reading_sound_def accepted_status_def)

subsection \<open>Saving\<close>

lemma upsert_write:
  assumes ups: "upsert_reading today now i db m p data actor = Inr (db', r)"
    and inv: "books_inv db" and m: "m \<in> set (bk_meters db)" "me_tenant m = t" and p: "p \<in> set (bk_periods db)" "pe_tenant p = t"
    and fresh: "i \<notin> rd_id ` set (bk_readings db)"
  shows "book_write t I db db'" "bk_meters db' = bk_meters db" "bk_periods db' = bk_periods db"
    "rd_id ` set (bk_readings db') \<subseteq> insert i (rd_id ` set (bk_readings db))" "rd_value r = in_value data"
    "me_status m = ''active''" "rd_meter r = me_id m" "rd_period r = pe_id p" "r \<in> set (bk_readings db')"
proof -
  define old where "old = first_row (\<lambda>r. rd_meter r = me_id m \<and> rd_period r = pe_id p) (bk_readings db)"
  define base where "base = (case old of Some r \<Rightarrow> r | None \<Rightarrow> new_reading i actor m p)"
  obtain f where f: "validate_and_fill today db m p data base = Inr f"
    and r: "r = f\<lparr>rd_updated_by := Some (ac_id actor)\<rparr>"
    and st: "pe_status p \<in> set editable_statuses" "me_status m = ''active''"
    and db': "db' = db\<lparr>bk_readings := put_row r (bk_readings db),
                       bk_revisions := bk_revisions db @
                         (if value_of old = rd_value r then []
                          else [\<lparr>rv_reading = rd_id r, rv_old = value_of old, rv_new = rd_value r,
                                 rv_kind = in_kind data, rv_reason = in_comment data, rv_actor = Some (ac_id actor),
                                 rv_actor_name = Some (ac_name actor), rv_at = now\<rparr>])\<rparr>"
    using ups by (auto simp: upsert_reading_def Let_def res_bind_Inr_iff old_def base_def split: if_splits)
  have coeff: "0 \<le> me_coefficient m" using inv m(1) by (simp add: books_inv_def meters_ok_def)
  note ff = validate_and_fill_Inr [OF f coeff]
  have base: "rd_meter base = me_id m \<and> rd_period base = pe_id p \<and> rd_tenant base = t
     \<and> (case old of Some x \<Rightarrow> rd_id base = rd_id x | None \<Rightarrow> rd_id base = i)"
  proof (cases old)
    case None
    then show ?thesis using m(2) by (simp add: base_def new_reading_def)
  next
    case (Some x)
    have x: "x \<in> set (bk_readings db)" "rd_meter x = me_id m" "rd_period x = pe_id p"
      using slot_row [OF Some [unfolded old_def]] by simp_all
    have "rd_tenant x = me_tenant m" using meter_tenant [of db x m] inv x m by (simp add: books_inv_def)
    then show ?thesis using x m(2) Some by (simp add: base_def)
  qed
  have id: "case old of Some x \<Rightarrow> rd_id r = rd_id x | None \<Rightarrow> rd_id r \<notin> rd_id ` set (bk_readings db)"
    using base fresh ff(2) by (auto simp: r split: option.splits)
  have rr: "rd_meter r = me_id m" "rd_period r = pe_id p" "rd_tenant r = t" "rd_value r = in_value data" "reading_sound r"
    using base ff by (simp_all add: r sound_updated_by)
  show "book_write t I db db'"
    unfolding db'
    by (rule save_reading [OF m(1) p(1) m(2) p(2) st(1) rr(1,2,3,5) old_def id refl]) simp_all
  show "bk_meters db' = bk_meters db" "bk_periods db' = bk_periods db" by (simp_all add: db')
  have "rd_id r \<in> insert i (rd_id ` set (bk_readings db))"
  proof (cases old)
    case None
    then show ?thesis using base ff(2) by (simp add: r)
  next
    case (Some x)
    then show ?thesis using id slot_row(1) [OF Some [unfolded old_def]] by simp
  qed
  then show "rd_id ` set (bk_readings db') \<subseteq> insert i (rd_id ` set (bk_readings db))"
    by (auto simp: db' put_row_ids)
  show "rd_value r = in_value data" "me_status m = ''active''" "rd_meter r = me_id m" "rd_period r = pe_id p" using rr st by simp_all
  show "r \<in> set (bk_readings db')" by (simp add: db' put_row_in)
qed

text \<open>The rows a query finds.\<close>

lemma first_row_mem: "first_row P rows = Some x \<Longrightarrow> x \<in> set rows"
  using first_row_Some by fastforce

lemma own_meter_Inr:
  "own_meter db user i = Inr m \<Longrightarrow> m \<in> set (bk_meters db) \<and> me_tenant m = ac_tenant user \<and> me_id m = i"
  by (auto simp: own_meter_def find_meter_def split: option.splits if_splits dest!: first_row_Some)

lemma get_period_Inr:
  "get_period_or_404 db user month = Inr p \<Longrightarrow> p \<in> set (bk_periods db) \<and> pe_tenant p = ac_tenant user \<and> pe_month p = month"
  by (auto simp: get_period_or_404_def find_period_def split: option.splits dest!: first_row_Some)

text \<open>Fresh UUIDs.\<close>

definition used_ids :: "books \<Rightarrow> int set" where
  "used_ids db = rd_id ` set (bk_readings db) \<union> me_id ` set (bk_meters db) \<union> pe_id ` set (bk_periods db)
     \<union> ro_id ` set (bk_objects db)"

definition fresh_env :: "call_env \<Rightarrow> books \<Rightarrow> bool" where
  "fresh_env env db \<longleftrightarrow> inj (ev_uuid env) \<and> range (ev_uuid env) \<inter> used_ids db = {}"

lemma fresh_ids:
  assumes "fresh_env env db"
  shows "ev_uuid env n \<notin> rd_id ` set (bk_readings db)" "ev_uuid env n \<notin> me_id ` set (bk_meters db)"
    "ev_uuid env n \<notin> pe_id ` set (bk_periods db)" "ev_uuid env n \<notin> ro_id ` set (bk_objects db)"
  using assms unfolding fresh_env_def used_ids_def by blast+

text \<open>The UUIDs from the n-th on are unused.\<close>

definition unused_from :: "call_env \<Rightarrow> nat \<Rightarrow> books \<Rightarrow> bool" where
  "unused_from env n db \<longleftrightarrow> inj (ev_uuid env) \<and> (\<forall>k\<ge>n. ev_uuid env k \<notin> rd_id ` set (bk_readings db))"

lemma unused_from_fresh: "fresh_env env db \<Longrightarrow> unused_from env n db"
  using fresh_ids(1) by (auto simp: unused_from_def fresh_env_def)

lemma unused_from_upsert:
  assumes "unused_from env n db" "rd_id ` set (bk_readings db') \<subseteq> insert (ev_uuid env n) (rd_id ` set (bk_readings db))"
  shows "unused_from env (Suc n) db'"
  unfolding unused_from_def
proof (intro conjI allI impI)
  show inj: "inj (ev_uuid env)" using assms(1) by (simp add: unused_from_def)
  fix k assume "Suc n \<le> k"
  then have "ev_uuid env k \<noteq> ev_uuid env n" using inj by (simp add: inj_eq)
  moreover have "ev_uuid env k \<notin> rd_id ` set (bk_readings db)" using assms(1) \<open>Suc n \<le> k\<close> by (simp add: unused_from_def)
  ultimately show "ev_uuid env k \<notin> rd_id ` set (bk_readings db')" using assms(2) by blast
qed

lemma bulk_items_writes:
  assumes "bulk_items env user p n items db = Inr db'" "books_inv db" "p \<in> set (bk_periods db)" "pe_tenant p = ac_tenant user"
    and "unused_from env n db"
  shows "(book_write (ac_tenant user) {})\<^sup>*\<^sup>* db db'"
  using assms
proof (induction env user p n items db rule: bulk_items.induct)
  case (2 env user p n meter_id data items db)
  from 2(2) obtain m db1 r where m: "own_meter db user meter_id = Inr m"
    and u: "upsert_reading (ev_today env) (ev_now env) (ev_uuid env n) db m p data user = Inr (db1, r)"
    and rest: "bulk_items env user p (Suc n) items db1 = Inr db'"
    by (auto simp: res_bind_Inr_iff)
  have mm: "m \<in> set (bk_meters db)" "me_tenant m = ac_tenant user" using own_meter_Inr [OF m] by simp_all
  have fresh: "ev_uuid env n \<notin> rd_id ` set (bk_readings db)" using 2(6) by (simp add: unused_from_def)
  note w = upsert_write [OF u 2(3) mm 2(4,5) fresh]
  have "(book_write (ac_tenant user) {})\<^sup>*\<^sup>* db1 db'"
    using 2(1) [OF rest] books_write [OF w(1) 2(3)] 2(4,5) unused_from_upsert [OF 2(6) w(4)]
    by (simp add: w(3))
  then show ?case using w(1) by (rule converse_rtranclp_into_rtranclp [rotated])
qed simp

lemma commit_rows_writes:
  assumes "commit_rows env user p n rows db = Inr (db', k)" "books_inv db" "p \<in> set (bk_periods db)" "pe_tenant p = ac_tenant user"
    and "unused_from env n db"
  shows "(book_write (ac_tenant user) {})\<^sup>*\<^sup>* db db'"
  using assms
proof (induction env user p n rows db rule: commit_rows.induct)
  case (2 env user p n row rows db)
  show ?case
  proof (cases "ir_errors row \<noteq> [] \<or> Option.bind (ir_meter_id row) (find_meter db) = None
      \<or> (\<exists>m. Option.bind (ir_meter_id row) (find_meter db) = Some m \<and> me_tenant m \<noteq> ac_tenant user)")
    case True
    then have "commit_rows env user p n rows db = Inr (db', k)" using 2(5) by (auto split: if_splits)
    then show ?thesis using True 2(1-3) 2(6-9) by blast
  next
    case False
    then obtain m where b: "ir_errors row = []" "Option.bind (ir_meter_id row) (find_meter db) = Some m" "me_tenant m = ac_tenant user"
      by (cases "Option.bind (ir_meter_id row) (find_meter db)") auto
    then obtain data db1 r where d: "row_input row = Inr data"
      and u: "upsert_reading (ev_today env) (ev_now env) (ev_uuid env n) db m p data user = Inr (db1, r)"
      and rest: "commit_rows env user p (Suc n) rows db1 = Inr (db', k)"
      using 2(5) by (auto simp: res_bind_Inr_iff)
    have mm: "m \<in> set (bk_meters db)" using b(2) by (auto simp: bind_eq_Some_conv find_meter_def dest: first_row_mem)
    have fresh: "ev_uuid env n \<notin> rd_id ` set (bk_readings db)" using 2(9) by (simp add: unused_from_def)
    note w = upsert_write [OF u 2(6) mm b(3) 2(7,8) fresh]
    have "(book_write (ac_tenant user) {})\<^sup>*\<^sup>* db1 db'"
      by (rule 2(4)) (use b rest books_write [OF w(1) 2(6)] 2(7,8) unused_from_upsert [OF 2(9) w(4)] in \<open>simp_all add: w(3)\<close>)
    then show ?thesis using w(1) by (rule converse_rtranclp_into_rtranclp [rotated])
  qed
qed simp

subsection \<open>Corrections\<close>

lemma joined_mem:
  "(r, p) \<in> set (joined periods rows) \<Longrightarrow> r \<in> set rows \<and> p \<in> set periods \<and> pe_id p = rd_period r"
  by (auto simp: joined_def split: option.splits dest: first_row_Some [OF sym])

lemma put_row_session:
  assumes "list_all2 C rows session" "\<And>a s. C a s \<Longrightarrow> rd_id s = rd_id a"
    and "\<And>a s. a \<in> set rows \<Longrightarrow> C a s \<Longrightarrow> s \<in> set session \<Longrightarrow> rd_id a = rd_id r \<Longrightarrow> C a r"
    and "list_ex (\<lambda>s. rd_id s = rd_id r) session"
  shows "list_all2 C rows (put_row r session)"
proof -
  have "list_all2 C rows (map (\<lambda>s. if rd_id s = rd_id r then r else s) session)"
    unfolding list.rel_map
    using assms(1)
  proof (rule list.rel_mono_strong)
    fix a s assume a: "a \<in> set rows" "s \<in> set session" "C a s"
    show "C a (if rd_id s = rd_id r then r else s)"
    proof (cases "rd_id s = rd_id r")
      case True
      then have "rd_id a = rd_id r" using assms(2) [OF a(3)] by simp
      then show ?thesis using assms(3) [OF a(1,3,2)] True by simp
    qed (use a in simp)
  qed
  then show ?thesis using assms(4) by (simp add: put_row_map)
qed

lemma recompute_rows_corrected:
  assumes k: "keys_unique db" and coeff: "0 \<le> me_coefficient m"
  shows "recompute_rows today db m later session = Inr rows \<Longrightarrow>
   list_all2 (corrected_row db i (me_id m) new) (bk_readings db) session \<Longrightarrow>
   \<forall>(a, p)\<in>set later. a \<in> set (bk_readings db) \<and> p \<in> set (bk_periods db) \<and> pe_id p = rd_period a \<and> rd_meter a = me_id m \<Longrightarrow>
   list_all2 (corrected_row db i (me_id m) new) (bk_readings db) rows"
proof (induction later arbitrary: session)
  case (Cons x later)
  obtain row p where x: "x = (row, p)" by fastforce
  let ?C = "corrected_row db i (me_id m) new"
  note all = Cons.prems(2)
  consider (skip) "recompute_rows today db m later session = Inr rows"
    | (redo) r v prev e where "first_row (\<lambda>s. rd_id s = rd_id row) session = Some r" "pe_status p \<noteq> ''closed''"
      "rd_value r = Some v"
      "evaluate_value today (bk_rules db) (bk_periods db) (bk_readings db) m (pe_month p) prev v (rd_read_at r) (rd_kind r) = Inr e"
      "recompute_rows today db m later (put_row (fill_evaluation e (r\<lparr>rd_previous := prev\<rparr>)) session) = Inr rows"
    using Cons.prems(1) by (auto simp: x res_bind_Inr_iff Let_def split: option.splits if_splits)
  then show ?case
  proof cases
    case skip
    then show ?thesis using Cons by simp
  next
    case (redo r v prev e)
    let ?r = "fill_evaluation e (r\<lparr>rd_previous := prev\<rparr>)"
    have rr: "r \<in> set session" "rd_id r = rd_id row" using first_row_Some [OF redo(1)] by auto
    have sound: "reading_sound ?r" by (rule evaluated_sound [OF redo(4) coeff]) (simp_all add: redo(3))
    have "list_all2 ?C (bk_readings db) (put_row ?r session)"
    proof (rule put_row_session [OF all])
      fix a s assume a: "a \<in> set (bk_readings db)" and c: "?C a s" "s \<in> set session" "rd_id a = rd_id ?r"
      have "map rd_id session = map rd_id (bk_readings db)" using corrected_rows(1) [OF all] .
      then have "distinct (map rd_id session)" using k by (simp add: keys_unique_def)
      then have "s = r" using distinct_ids_inj [of rd_id session s r] c rr(1) by (simp add: corrected_row_def)
      moreover have "a = row" using distinct_ids_inj [of rd_id "bk_readings db" a row] k Cons.prems(3) a c(3) rr(2)
        by (auto simp: keys_unique_def x)
      ultimately show "?C a ?r" using c(1) sound redo(2) Cons.prems(3) by (auto simp: corrected_row_def x)
    qed (use rr in \<open>auto simp: corrected_row_def list_ex_iff\<close>)
    then show ?thesis using Cons.IH [OF redo(5)] Cons.prems(3) by simp
  qed
qed simp

lemma correction_write:
  assumes c: "apply_correction today now db r m p v reason kind actor = Inr db'"
    and inv: "books_inv db" and r: "r \<in> set (bk_readings db)" "rd_tenant r = t" "rd_meter r = me_id m"
    and m: "m \<in> set (bk_meters db)"
  shows "book_write t {rd_id r} db db'"
proof -
  define prev where "prev = value_of (get_previous_accepted (bk_periods db) (bk_readings db) (bk_readings db) (me_id m) (pe_month p))"
  obtain e where e: "evaluate_value today (bk_rules db) (bk_periods db) (bk_readings db) m (pe_month p) prev v (rd_read_at r) kind = Inr e"
    using c by (auto simp: apply_correction_def Let_def res_bind_Inr_iff prev_def)
  define r' where "r' = r\<lparr>rd_value := Some v, rd_kind := kind, rd_previous := prev,
                 rd_consumption := vl_consumption e, rd_status := vl_status e,
                 rd_message := Some (Corrected reason (case vl_notes e of None \<Rightarrow> [] | Some ns \<Rightarrow> ns)),
                 rd_updated_by := Some (ac_id actor)\<rparr>"
  define w where "w = \<lparr>rv_reading = rd_id r, rv_old = rd_value r, rv_new = Some v, rv_kind = kind,
                            rv_reason = Some reason, rv_actor = Some (ac_id actor),
                            rv_actor_name = Some (ac_name actor), rv_at = now\<rparr>"
  obtain rows where rows: "recompute_forward today db m (pe_month p) (put_row r' (bk_readings db)) = Inr rows"
    and db': "db' = db\<lparr>bk_readings := rows, bk_revisions := bk_revisions db @ [w]\<rparr>"
    using c e by (auto simp: apply_correction_def Let_def res_bind_Inr_iff prev_def r'_def w_def)
  let ?C = "corrected_row db (rd_id r) (me_id m) (Some v)"
  have k: "keys_unique db" and coeff: "0 \<le> me_coefficient m" using inv m by (simp_all add: books_inv_def meters_ok_def)
  have sound: "reading_sound r'" by (rule evaluated_sound [OF e coeff]) (simp_all add: r'_def)
  have one: "a = r" if "a \<in> set (bk_readings db)" "rd_id a = rd_id r" for a
    using distinct_ids_inj [of rd_id "bk_readings db" a r] k that r(1) by (simp add: keys_unique_def)
  have "put_row r' (bk_readings db) = map (\<lambda>s. if rd_id s = rd_id r' then r' else s) (bk_readings db)"
    using r(1) by (intro put_row_map) (auto simp: list_ex_iff r'_def)
  moreover have "?C a (if rd_id a = rd_id r' then r' else a)" if "a \<in> set (bk_readings db)" for a
  proof (cases "rd_id a = rd_id r")
    case True
    then have "a = r" by (rule one [OF that])
    then show ?thesis using sound r(3) by (simp add: corrected_row_def r'_def)
  next
    case False
    then show ?thesis using that inv by (simp add: corrected_row_def r'_def books_inv_def)
  qed
  ultimately have start: "list_all2 ?C (bk_readings db) (put_row r' (bk_readings db))"
    by (simp add: list.rel_map list_all2_same)
  have "list_all2 ?C (bk_readings db) rows"
    by (rule recompute_rows_corrected [OF k coeff rows [unfolded recompute_forward_def] start])
      (auto simp: later_rows_def dest: joined_mem)
  then have "list_all2 (corrected_row db (rd_id r) (rd_meter r) (rv_new w)) (bk_readings db) rows"
    by (simp add: r(3) w_def)
  then show ?thesis unfolding db'
    by (intro correct_reading [OF r(1,2)]) (simp_all add: w_def)
qed

subsection \<open>The registry\<close>

lemma two_steps: "P a b \<Longrightarrow> P b c \<Longrightarrow> P\<^sup>*\<^sup>* a c"
  by (rule converse_rtranclp_into_rtranclp [OF _ r_into_rtranclp])

lemma write_audit_step: "book_write t I db (write_audit user e i a b c db)"
  unfolding write_audit_def by (rule audit)

lemma audit_after:
  "book_write t I a b \<Longrightarrow> (book_write t I)\<^sup>*\<^sup>* a (write_audit user e i x y z b)"
  by (rule two_steps [where P = "book_write t I" and b = b]) (auto intro: write_audit_step)

lemma audit_after_all:
  "(book_write t I)\<^sup>*\<^sup>* a b \<Longrightarrow> (book_write t I)\<^sup>*\<^sup>* a (write_audit user e i x y z b)"
  by (rule rtranclp.rtrancl_into_rtrancl [where r = "book_write t I" and b = b]) (auto intro: write_audit_step)

lemma check_unique_Inr:
  assumes "check_unique_number db t n exclude = Inr ()" "meters_ok db" "me_tenant m = t" "me_normalized m = n"
    and "exclude = None \<or> exclude = Some (me_id m)"
  shows "number_free db m"
  unfolding number_free_def
proof (intro ballI impI)
  fix x assume x: "x \<in> set (bk_meters db)"
    and same: "me_tenant x = me_tenant m \<and> me_normalized x = me_normalized m \<and> me_status x = ''active''"
  let ?P = "\<lambda>m. me_tenant m = t \<and> me_normalized m = n \<and> me_status m = ''active''"
  have "first_row ?P (bk_meters db) \<noteq> None" using x same assms(3,4) unfolding first_row_None by blast
  then obtain y where y: "first_row ?P (bk_meters db) = Some y" by blast
  then have "y \<in> set (bk_meters db)" "?P y" using first_row_Some [OF y] by blast+
  moreover have "Some (me_id y) = exclude" using assms(1) y by (simp add: check_unique_number_def split: if_splits)
  ultimately have "number_free db y" "me_id y = me_id m" using assms(2,5) unfolding meters_ok_def by auto
  moreover have "me_tenant x = me_tenant y" "me_normalized x = me_normalized y"
    using same \<open>?P y\<close> assms(3,4) by simp_all
  ultimately show "me_id x = me_id m" using x same unfolding number_free_def by simp
qed

lemma own_object_Inr:
  "own_object db user i = Inr x \<Longrightarrow> x \<in> set (bk_objects db) \<and> ro_id x = i \<and> ro_tenant x = ac_tenant user"
  by (auto simp: own_object_def find_object_def split: option.splits if_splits dest!: first_row_Some)

lemma check_active_Inr:
  assumes "check_active_object db user i = Inr x" "me_object m = i" "me_tenant m = ac_tenant user"
  shows "housed db m"
proof -
  have "own_object db user i = Inr x" "ro_active x"
    using assms(1) by (auto simp: check_active_object_def res_bind_Inr_iff split: if_splits)
  then show ?thesis using own_object_Inr [of db user i x] assms(2,3) unfolding housed_def by auto
qed

lemma filter_replace:
  assumes "\<And>x. Q x \<Longrightarrow> P x" "\<And>y. y \<in> set ys \<Longrightarrow> \<not> Q y"
  shows "filter Q (filter P xs @ ys) = filter Q xs"
proof -
  have "filter Q (filter P xs) = filter Q xs" using assms(1) by (auto intro: filter_cong)
  moreover have "filter Q ys = []" using assms(2) by (simp add: filter_empty_conv)
  ultimately show ?thesis by simp
qed

lemma set_tags_filter:
  "set_tags tags owner ids t pairs = Inr pairs' \<Longrightarrow> i \<noteq> owner \<Longrightarrow>
   filter (\<lambda>x. fst x = i) pairs' = filter (\<lambda>x. fst x = i) pairs"
  by (auto simp: set_tags_def intro!: filter_replace split: if_splits)

lemma set_consumers_Inr:
  "set_consumers user m ls db = Inr db' \<Longrightarrow>
   \<exists>links. db' = db\<lparr>bk_links := links\<rparr> \<and> (\<forall>i. i \<noteq> me_id m \<longrightarrow>
     filter (\<lambda>l. ml_meter l = i) links = filter (\<lambda>l. ml_meter l = i) (bk_links db))"
  unfolding set_consumers_def res_bind_Inr_iff by (auto intro!: exI conjI allI filter_replace)

lemma links_write:
  assumes "m \<in> set (bk_meters db)" "me_tenant m = t"
    and "\<And>i. i \<noteq> me_id m \<Longrightarrow> filter (\<lambda>l. ml_meter l = i) links = filter (\<lambda>l. ml_meter l = i) (bk_links db)"
    and "\<And>i. i \<noteq> me_id m \<Longrightarrow> filter (\<lambda>x. fst x = i) mt = filter (\<lambda>x. fst x = i) (bk_meter_tags db)"
  shows "book_write t I db (db\<lparr>bk_links := links, bk_meter_tags := mt\<rparr>)"
proof -
  have "book_write t I db (db\<lparr>bk_links := links, bk_meter_tags := mt, bk_object_tags := bk_object_tags db\<rparr>)"
  proof (rule set_links)
    fix i assume "i \<notin> me_id ` {m \<in> set (bk_meters db). me_tenant m = t}"
    then have "i \<noteq> me_id m" using assms(1,2) by blast
    then show "filter (\<lambda>l. ml_meter l = i) links = filter (\<lambda>l. ml_meter l = i) (bk_links db)
        \<and> filter (\<lambda>x. fst x = i) mt = filter (\<lambda>x. fst x = i) (bk_meter_tags db)" using assms(3,4) by simp
  qed simp
  then show ?thesis by simp
qed

lemma store_meter_simps [simp]:
  "me_id (store_meter m) = me_id m" "me_tenant (store_meter m) = me_tenant m"
  "me_normalized (store_meter m) = me_normalized m" "me_status (store_meter m) = me_status m"
  "me_object (store_meter m) = me_object m" "me_number (store_meter m) = me_number m" "me_name (store_meter m) = me_name m"
  "me_coefficient (store_meter m) = store4 (me_coefficient m)"
  by (simp_all add: store_meter_def)

lemma insert_meter_writes:
  assumes res: "insert_meter i user rep d db = Inr (db', m)" and inv: "books_inv db"
    and fresh: "i \<notin> me_id ` set (bk_meters db)" and ok: "meter_in_ok d"
  shows "(book_write (ac_tenant user) I)\<^sup>*\<^sup>* db db'"
proof -
  let ?m = "build_meter i user rep d"
  obtain x pairs links where u: "check_unique_number db (ac_tenant user) (normalize_meter_number (mc_number d)) None = Inr ()"
    and x: "check_active_object db user (mc_object d) = Inr x"
    and tags: "set_tags (bk_tags db) i (mc_tags d) (ac_tenant user) (bk_meter_tags db) = Inr pairs"
    and db': "db' = db\<lparr>bk_meters := bk_meters db @ [store_meter ?m], bk_meter_tags := pairs, bk_links := links\<rparr>"
    and links: "\<forall>j. j \<noteq> i \<longrightarrow> filter (\<lambda>l. ml_meter l = j) links = filter (\<lambda>l. ml_meter l = j) (bk_links db)"
    using res
    by (auto simp: insert_meter_def Let_def res_bind_Inr_iff build_meter_def split: if_splits dest!: set_consumers_Inr)
  have ok': "meters_ok db" using inv by (simp add: books_inv_def)
  have free: "number_free db (store_meter ?m)"
    by (rule check_unique_Inr [OF u ok']) (simp_all add: build_meter_def)
  have home: "housed db (store_meter ?m)"
    by (rule check_active_Inr [OF x]) (simp_all add: build_meter_def)
  have "0 \<le> me_coefficient (store_meter ?m)"
    using ok by (simp add: meter_in_ok_def build_meter_def store4_nonneg)
  then have "book_write (ac_tenant user) I db (db\<lparr>bk_meters := bk_meters db @ [store_meter ?m]\<rparr>)"
    using free home fresh by (intro add_meter) (simp_all add: build_meter_def)
  moreover have "book_write (ac_tenant user) I (db\<lparr>bk_meters := bk_meters db @ [store_meter ?m]\<rparr>)
      (db\<lparr>bk_meters := bk_meters db @ [store_meter ?m], bk_links := links, bk_meter_tags := pairs\<rparr>)"
    using links set_tags_filter [OF tags]
    by (intro links_write [of "store_meter ?m"]) (simp_all add: build_meter_def)
  moreover have "db' = db\<lparr>bk_meters := bk_meters db @ [store_meter ?m], bk_links := links, bk_meter_tags := pairs\<rparr>"
    by (simp add: db')
  ultimately show ?thesis by (metis (no_types) two_steps)
qed

lemma update_meter_writes:
  assumes res: "update_meter user i d db = Inr db'" and inv: "books_inv db"
  shows "(book_write (ac_tenant user) I)\<^sup>*\<^sup>* db db'"
proof -
  let ?t = "ac_tenant user"
  obtain m pairs links where ok: "meter_update_ok d" and m: "own_meter db user i = Inr m"
    and home: "mu_object d = None \<or> (\<exists>j x. mu_object d = Some j \<and> check_active_object db user j = Inr x)"
    and tags: "\<forall>j. j \<noteq> i \<longrightarrow> filter (\<lambda>x. fst x = j) pairs = filter (\<lambda>x. fst x = j) (bk_meter_tags db)"
    and links: "\<forall>j. j \<noteq> i \<longrightarrow> filter (\<lambda>l. ml_meter l = j) links = filter (\<lambda>l. ml_meter l = j) (bk_links db)"
    and db': "db' = write_audit user ''meter'' i ''update''
                     [(''name'', Au_text (me_name m)), (''primary_object_id'', Au_ref (Some (me_object m)))]
                     [(''name'', Au_text (me_name (patch_meter d m))), (''primary_object_id'', Au_ref (Some (me_object (patch_meter d m))))]
                     ((put_meter (patch_meter d m) db)\<lparr>bk_links := links, bk_meter_tags := pairs\<rparr>)"
  proof -
    obtain m where ok: "meter_update_ok d" and m: "own_meter db user i = Inr m"
      using res by (auto simp: update_meter_def require_roles_def require_schema_def res_bind_Inr_iff split: if_splits)
    have mi: "me_id m = i" using own_meter_Inr [OF m] by simp
    let ?m = "patch_meter d m"
    obtain pairs db1 where home: "mu_object d = None \<or> (\<exists>j x. mu_object d = Some j \<and> check_active_object db user j = Inr x)"
      and tags: "(case mu_tags d of None \<Rightarrow> Inr (bk_meter_tags db)
                  | Some ts \<Rightarrow> set_tags (bk_tags db) i ts (ac_tenant user) (bk_meter_tags db)) = Inr pairs"
      and cons: "(case mu_consumers d of
                        None \<Rightarrow> Inr (put_meter ?m (db\<lparr>bk_meter_tags := pairs\<rparr>))
                      | Some ls \<Rightarrow> set_consumers user ?m ls (put_meter ?m (db\<lparr>bk_meter_tags := pairs\<rparr>))) = Inr db1"
      and db': "db' = write_audit user ''meter'' i ''update''
                     [(''name'', Au_text (me_name m)), (''primary_object_id'', Au_ref (Some (me_object m)))]
                     [(''name'', Au_text (me_name ?m)), (''primary_object_id'', Au_ref (Some (me_object ?m)))] db1"
      using res m
      by (auto simp: update_meter_def require_roles_def require_schema_def res_bind_Inr_iff Let_def
            split: if_splits option.splits)
    have "\<forall>j. j \<noteq> i \<longrightarrow> filter (\<lambda>x. fst x = j) pairs = filter (\<lambda>x. fst x = j) (bk_meter_tags db)"
      using tags set_tags_filter by (auto split: option.splits)
    moreover have "\<exists>links. db1 = (put_meter ?m db)\<lparr>bk_links := links, bk_meter_tags := pairs\<rparr>
       \<and> (\<forall>j. j \<noteq> i \<longrightarrow> filter (\<lambda>l. ml_meter l = j) links = filter (\<lambda>l. ml_meter l = j) (bk_links db))"
    proof (cases "mu_consumers d")
      case None
      have "put_meter ?m (db\<lparr>bk_meter_tags := pairs\<rparr>) = (put_meter ?m db)\<lparr>bk_links := bk_links db, bk_meter_tags := pairs\<rparr>"
        by (simp add: put_meter_def)
      then have "db1 = (put_meter ?m db)\<lparr>bk_links := bk_links db, bk_meter_tags := pairs\<rparr>" using cons None by simp
      then show ?thesis by blast
    next
      case (Some ls)
      have "me_id ?m = i" using mi by (simp add: patch_meter_def)
      then obtain links where "db1 = (put_meter ?m (db\<lparr>bk_meter_tags := pairs\<rparr>))\<lparr>bk_links := links\<rparr>"
        and l: "\<forall>j. j \<noteq> i \<longrightarrow> filter (\<lambda>l. ml_meter l = j) links = filter (\<lambda>l. ml_meter l = j) (bk_links db)"
        using cons Some set_consumers_Inr [of user ?m ls "put_meter ?m (db\<lparr>bk_meter_tags := pairs\<rparr>)" db1]
        by (auto simp: put_meter_def)
      then have "db1 = (put_meter ?m db)\<lparr>bk_links := links, bk_meter_tags := pairs\<rparr>" by (simp add: put_meter_def)
      then show ?thesis using l by blast
    qed
    ultimately show thesis using that ok m home db' by blast
  qed
  let ?m = "patch_meter d m" let ?s = "store_meter (patch_meter d m)"
  have mm: "m \<in> set (bk_meters db)" "me_tenant m = ?t" "me_id m = i" using own_meter_Inr [OF m] by simp_all
  have old: "0 \<le> me_coefficient m" "me_status m = ''active'' \<Longrightarrow> number_free db m \<and> housed db m"
    using inv mm(1) by (auto simp: books_inv_def meters_ok_def)
  have same: "me_id ?s = me_id m" "me_tenant ?s = me_tenant m" "me_status ?s = me_status m" "me_normalized ?s = me_normalized m"
    by (simp_all add: patch_meter_def)
  have "0 \<le> me_coefficient ?m"
    using ok old(1) by (auto simp: patch_meter_def patched_def meter_update_ok_def given_def split: option.splits)
  then have coeff: "0 \<le> me_coefficient ?s" by (simp add: store4_nonneg)
  have "housed db ?s" if "me_status m = ''active''"
  proof (cases "mu_object d")
    case None
    then show ?thesis using old(2) [OF that] by (simp add: housed_def patch_meter_def)
  next
    case (Some j)
    then obtain x where "check_active_object db user j = Inr x" using home by auto
    then show ?thesis using Some mm(2) by (intro check_active_Inr) (simp_all add: patch_meter_def)
  qed
  moreover have "number_free db ?s" if "me_status m = ''active''"
    using old(2) [OF that] same unfolding number_free_def by simp
  ultimately have "book_write ?t I db (db\<lparr>bk_meters := upd_where (\<lambda>x. me_id x = me_id m) (\<lambda>_. ?s) (bk_meters db)\<rparr>)"
    using coeff same mm by (intro change_meter) simp_all
  then have w1: "book_write ?t I db (put_meter ?m db)" using same(1) by (simp add: put_meter_def)
  have "?s \<in> set (bk_meters (put_meter ?m db))" using mm same(1) by (auto simp: put_meter_def set_upd_where)
  then have w2: "book_write ?t I (put_meter ?m db) ((put_meter ?m db)\<lparr>bk_links := links, bk_meter_tags := pairs\<rparr>)"
    using links tags mm same by (intro links_write [of ?s]) (simp_all add: put_meter_def)
  show ?thesis unfolding db'
    by (rule converse_rtranclp_into_rtranclp [of "book_write ?t I", OF w1 audit_after [OF w2]])
qed

text \<open>A meter that keeps its tenant, object and number, and loses its activity or keeps it.\<close>

lemma put_meter_write:
  assumes "books_inv db" "m \<in> set (bk_meters db)" "me_tenant m = t"
    and "me_id m' = me_id m" "me_tenant m' = t" "me_coefficient m' = me_coefficient m"
    and "me_status m' = ''active'' \<longrightarrow> me_status m = ''active'' \<and> me_object m' = me_object m \<and> number_free db m'"
  shows "book_write t I db (put_meter m' db)"
proof -
  have old: "0 \<le> me_coefficient m" "me_status m = ''active'' \<Longrightarrow> housed db m"
    using assms(1,2) by (auto simp: books_inv_def meters_ok_def)
  have "me_status m' = ''active'' \<Longrightarrow> housed db (store_meter m')"
    using assms(3,5,7) old(2) by (simp add: housed_def)
  moreover have "me_status m' = ''active'' \<Longrightarrow> number_free db (store_meter m')"
    using assms(7) unfolding number_free_def by simp
  ultimately have "book_write t I db (db\<lparr>bk_meters := upd_where (\<lambda>x. me_id x = me_id m) (\<lambda>_. store_meter m') (bk_meters db)\<rparr>)"
    using assms old(1) by (intro change_meter) (simp_all add: store4_nonneg)
  then show ?thesis by (simp add: put_meter_def assms(4))
qed

lemma archive_meter_writes:
  assumes "archive_meter user i db = Inr db'" "books_inv db"
  shows "(book_write (ac_tenant user) I)\<^sup>*\<^sup>* db db'"
proof -
  obtain m b a where m: "own_meter db user i = Inr m"
    and db': "db' = write_audit user ''meter'' i ''archive'' b a (put_meter (m\<lparr>me_status := ''archived''\<rparr>) db)"
    using assms(1) by (auto simp: archive_meter_def require_roles_def res_bind_Inr_iff split: if_splits)
  have "book_write (ac_tenant user) I db (put_meter (m\<lparr>me_status := ''archived''\<rparr>) db)"
    using own_meter_Inr [OF m] by (intro put_meter_write [OF assms(2), of m]) simp_all
  then show ?thesis unfolding db' by (rule audit_after)
qed

lemma correct_number_writes:
  assumes "correct_number user i n reason db = Inr db'" "books_inv db"
  shows "(book_write (ac_tenant user) I)\<^sup>*\<^sup>* db db'"
proof -
  let ?n = "normalize_meter_number n"
  obtain m b a where m: "own_meter db user i = Inr m"
    and u: "check_unique_number db (ac_tenant user) ?n (Some (me_id m)) = Inr ()"
    and db': "db' = write_audit user ''meter'' i ''correct_number'' b a
        (put_meter (m\<lparr>me_number := strip_points n, me_normalized := ?n\<rparr>) db)"
    using assms(1) by (auto simp: correct_number_def require_roles_def require_schema_def Let_def res_bind_Inr_iff split: if_splits)
  have mm: "m \<in> set (bk_meters db)" "me_tenant m = ac_tenant user" using own_meter_Inr [OF m] by simp_all
  have "number_free db (m\<lparr>me_number := strip_points n, me_normalized := ?n\<rparr>)"
    using assms(2) mm by (intro check_unique_Inr [OF u]) (simp_all add: books_inv_def)
  then have "book_write (ac_tenant user) I db (put_meter (m\<lparr>me_number := strip_points n, me_normalized := ?n\<rparr>) db)"
    using mm by (intro put_meter_write [OF assms(2), of m]) simp_all
  then show ?thesis unfolding db' by (rule audit_after)
qed

lemma replace_meter_writes:
  assumes "replace_meter env user i d db = Inr db'" "books_inv db" "fresh_env env db"
  shows "(book_write (ac_tenant user) I)\<^sup>*\<^sup>* db db'"
proof -
  obtain old new db1 b a where m: "own_meter db user i = Inr old" and ok: "replace_in_ok d"
    and ins: "insert_meter (ev_uuid env 0) user (Some (me_id old)) (re_meter d)
        (put_meter (old\<lparr>me_status := ''decommissioned'', me_removed := Some (re_removed d)\<rparr>) db) = Inr (db1, new)"
    and db': "db' = write_audit user ''meter'' i ''replace'' b a db1"
    using assms(1)
    by (auto simp: replace_meter_def require_roles_def require_schema_def res_bind_Inr_iff split: if_splits)
  let ?o = "old\<lparr>me_status := ''decommissioned'', me_removed := Some (re_removed d)\<rparr>"
  have w: "book_write (ac_tenant user) I db (put_meter ?o db)"
    using own_meter_Inr [OF m] by (intro put_meter_write [OF assms(2), of old]) simp_all
  have "map me_id (bk_meters (put_meter ?o db)) = map me_id (bk_meters db)"
    using own_meter_Inr [OF m] by (simp add: put_meter_def map_const_upd)
  then have "me_id ` set (bk_meters (put_meter ?o db)) = me_id ` set (bk_meters db)" by (metis list.set_map)
  then have "(book_write (ac_tenant user) I)\<^sup>*\<^sup>* (put_meter ?o db) db1"
    using fresh_ids(2) [OF assms(3)] ok
    by (intro insert_meter_writes [OF ins books_write [OF w assms(2)]]) (simp_all add: replace_in_ok_def)
  then have "(book_write (ac_tenant user) I)\<^sup>*\<^sup>* db db1" using w by (rule converse_rtranclp_into_rtranclp [rotated])
  then show ?thesis unfolding db' by (rule audit_after_all)
qed

subsection \<open>The objects\<close>

lemma object_tags_write:
  assumes "set_tags tags owner ids k (bk_object_tags db) = Inr pairs" "x \<in> set (bk_objects db)" "ro_id x = owner" "ro_tenant x = t"
  shows "book_write t I db (db\<lparr>bk_object_tags := pairs\<rparr>)"
proof -
  have "book_write t I db (db\<lparr>bk_links := bk_links db, bk_meter_tags := bk_meter_tags db, bk_object_tags := pairs\<rparr>)"
  proof (rule set_links)
    fix i assume "i \<notin> ro_id ` {x \<in> set (bk_objects db). ro_tenant x = t}"
    then have "i \<noteq> owner" using assms(2-4) by blast
    then show "filter (\<lambda>x. fst x = i) pairs = filter (\<lambda>x. fst x = i) (bk_object_tags db)" by (rule set_tags_filter [OF assms(1)])
  qed simp
  then show ?thesis by simp
qed

lemma create_object_writes:
  assumes "create_object env user d db = Inr db'" "books_inv db" "fresh_env env db"
  shows "(book_write (ac_tenant user) I)\<^sup>*\<^sup>* db db'"
proof -
  let ?row = "\<lparr>ro_id = ev_uuid env 0, ro_tenant = ac_tenant user, ro_name = oc_name d, ro_code = oc_code d,
                       ro_type = oc_type d, ro_parent = oc_parent d, ro_description = oc_description d,
                       ro_sort = oc_sort d, ro_active = True\<rparr>"
  let ?db = "db\<lparr>bk_objects := bk_objects db @ [?row]\<rparr>"
  obtain pairs b a where par: "oc_parent d = None \<or> (\<exists>p x. oc_parent d = Some p \<and> own_object db user p = Inr x)"
    and tags: "set_tags (bk_tags db) (ev_uuid env 0) (oc_tags d) (ac_tenant user) (bk_object_tags db) = Inr pairs"
    and db': "db' = write_audit user ''object'' (ev_uuid env 0) ''create'' b a (?db\<lparr>bk_object_tags := pairs\<rparr>)"
    using assms(1)
    by (auto simp: create_object_def require_roles_def require_schema_def Let_def res_bind_Inr_iff split: if_splits option.splits)
  have "\<forall>p. ro_parent ?row = Some p \<longrightarrow> (\<exists>y\<in>set (bk_objects db). ro_id y = p \<and> ro_tenant y = ac_tenant user)"
    using par own_object_Inr by fastforce
  then have w1: "book_write (ac_tenant user) I db ?db"
    using fresh_ids(4) [OF assms(3)] by (intro add_object) simp_all
  have w2: "book_write (ac_tenant user) I ?db (?db\<lparr>bk_object_tags := pairs\<rparr>)"
    using tags by (intro object_tags_write [of _ _ _ _ _ _ ?row]) simp_all
  show ?thesis unfolding db' by (rule audit_after_all [OF two_steps [where P = "book_write (ac_tenant user) I", OF w1 w2]])
qed

lemma update_object_writes:
  assumes "update_object user i d db = Inr db'" "books_inv db"
  shows "(book_write (ac_tenant user) I)\<^sup>*\<^sup>* db db'"
proof -
  let ?t = "ac_tenant user"
  obtain row parent pairs b a where row: "own_object db user i = Inr row" and par: "new_parent db user d row = Inr parent"
    and tags: "(case ou_tags d of None \<Rightarrow> Inr (bk_object_tags db)
               | Some ts \<Rightarrow> set_tags (bk_tags db) i ts ?t (bk_object_tags db)) = Inr pairs"
    and db': "db' = write_audit user ''object'' i ''update'' b a
        (db\<lparr>bk_objects := upd_where (\<lambda>y. ro_id y = i)
               (\<lambda>_. row\<lparr>ro_parent := parent, ro_name := patched (ro_name row) (ou_name d),
                    ro_code := (case ou_code d of None \<Rightarrow> ro_code row | Some x \<Rightarrow> x),
                    ro_type := (case ou_type d of None \<Rightarrow> ro_type row | Some x \<Rightarrow> x),
                    ro_description := (case ou_description d of None \<Rightarrow> ro_description row | Some x \<Rightarrow> x),
                    ro_sort := patched (ro_sort row) (ou_sort d)\<rparr>) (bk_objects db), bk_object_tags := pairs\<rparr>)"
    using assms(1)
    by (auto simp: update_object_def require_roles_def require_schema_def Let_def res_bind_Inr_iff split: if_splits)
  define x where "x = row\<lparr>ro_parent := parent, ro_name := patched (ro_name row) (ou_name d),
                    ro_code := (case ou_code d of None \<Rightarrow> ro_code row | Some x \<Rightarrow> x),
                    ro_type := (case ou_type d of None \<Rightarrow> ro_type row | Some x \<Rightarrow> x),
                    ro_description := (case ou_description d of None \<Rightarrow> ro_description row | Some x \<Rightarrow> x),
                    ro_sort := patched (ro_sort row) (ou_sort d)\<rparr>"
  have x: "ro_id x = ro_id row" "ro_tenant x = ro_tenant row" "ro_active x = ro_active row" "ro_parent x = parent"
    by (simp_all add: x_def)
  have r: "row \<in> set (bk_objects db)" "ro_id row = i" "ro_tenant row = ?t" using own_object_Inr [OF row] by simp_all
  have "parent = ro_parent row \<or> parent = None \<or> (assert_no_cycle (bk_objects db) (ro_id row) 100 parent = Inr ()
      \<and> (\<exists>y\<in>set (bk_objects db). Some (ro_id y) = parent \<and> ro_tenant y = ?t))"
    using par own_object_Inr [of db user]
    by (fastforce simp: new_parent_def res_bind_Inr_iff split: if_splits option.splits)
  then have w1: "book_write ?t I db (db\<lparr>bk_objects := upd_where (\<lambda>y. ro_id y = ro_id row) (\<lambda>_. x) (bk_objects db)\<rparr>)"
    using r x by (intro change_object) simp_all
  let ?db = "db\<lparr>bk_objects := upd_where (\<lambda>y. ro_id y = i) (\<lambda>_. x) (bk_objects db)\<rparr>"
  have w2: "(book_write ?t I)\<^sup>*\<^sup>* ?db (?db\<lparr>bk_object_tags := pairs\<rparr>)"
  proof (cases "ou_tags d")
    case None
    then have "pairs = bk_object_tags ?db" using tags by simp
    then have "?db\<lparr>bk_object_tags := pairs\<rparr> = ?db" by simp
    then show ?thesis by (simp only: rtranclp.rtrancl_refl)
  next
    case (Some ts)
    have "x \<in> set (bk_objects ?db)" using r x by (auto simp: set_upd_where)
    then have "book_write ?t I ?db (?db\<lparr>bk_object_tags := pairs\<rparr>)"
      using tags Some r x by (intro object_tags_write [of _ i _ _ _ _ x]) simp_all
    then show ?thesis by (rule r_into_rtranclp)
  qed
  have "(book_write ?t I)\<^sup>*\<^sup>* db (?db\<lparr>bk_object_tags := pairs\<rparr>)"
    by (rule converse_rtranclp_into_rtranclp [OF _ w2]) (use w1 r(2) in simp)
  then show ?thesis unfolding db' x_def by (intro audit_after_all) simp
qed

lemma archive_object_writes:
  assumes "archive_object user i db = Inr db'" "books_inv db"
  shows "(book_write (ac_tenant user) I)\<^sup>*\<^sup>* db db'"
proof -
  obtain row b a where row: "own_object db user i = Inr row"
    and free: "\<forall>m\<in>set (bk_meters db). me_object m = i \<longrightarrow> me_status m \<noteq> ''active''"
    and db': "db' = write_audit user ''object'' i ''archive'' b a
        (db\<lparr>bk_objects := upd_where (\<lambda>x. ro_id x = i) (\<lambda>x. x\<lparr>ro_active := False\<rparr>) (bk_objects db)\<rparr>)"
    using assms(1) by (auto simp: archive_object_def require_roles_def res_bind_Inr_iff list_ex_iff split: if_splits)
  have r: "row \<in> set (bk_objects db)" "ro_id row = i" "ro_tenant row = ac_tenant user" using own_object_Inr [OF row] by simp_all
  have only: "x = row" if "x \<in> set (bk_objects db)" "ro_id x = i" for x
    using distinct_ids_inj [of ro_id "bk_objects db" x row] assms(2) that r by (simp add: books_inv_def keys_unique_def)
  have same: "upd_where (\<lambda>x. ro_id x = i) (\<lambda>x. x\<lparr>ro_active := False\<rparr>) (bk_objects db)
      = upd_where (\<lambda>x. ro_id x = ro_id row) (\<lambda>_. row\<lparr>ro_active := False\<rparr>) (bk_objects db)"
    unfolding upd_where_def r(2)
  proof (rule map_cong [OF refl])
    fix x assume "x \<in> set (bk_objects db)"
    then show "(if ro_id x = i then x\<lparr>ro_active := False\<rparr> else x) = (if ro_id x = i then row\<lparr>ro_active := False\<rparr> else x)"
      using only [of x] by (cases "ro_id x = i") simp_all
  qed
  have "book_write (ac_tenant user) I db
      (db\<lparr>bk_objects := upd_where (\<lambda>x. ro_id x = ro_id row) (\<lambda>_. row\<lparr>ro_active := False\<rparr>) (bk_objects db)\<rparr>)"
    using r free by (intro change_object) auto
  then show ?thesis unfolding db' same by (rule audit_after)
qed

subsection \<open>The calls\<close>

datatype acct_call =
    Create_period string | To_review string | Reopen string | Submit string | Close string
  | Put_reading int string reading_in | Bulk_readings string "(int \<times> reading_in) list"
  | Correct_reading int rat utext string | Set_rule rule_in
  | Commit_import string "import_item list option" "nat list"
  | Create_meter meter_in | Update_meter int meter_update | Archive_meter int
  | Correct_number int utext utext | Replace_meter int replace_in
  | Create_object object_in | Update_object int object_update | Archive_object int

definition run_acct :: "call_env \<Rightarrow> account \<Rightarrow> acct_call \<Rightarrow> books \<Rightarrow> api_error + books" where
  "run_acct env user c db =
     (case c of
        Create_period month \<Rightarrow> create_period env user month db
      | To_review month \<Rightarrow> move_to_review user month db
      | Reopen month \<Rightarrow> reopen user month db
      | Submit month \<Rightarrow> submit_period user month db
      | Close month \<Rightarrow> close_period user month db
      | Put_reading i month d \<Rightarrow> put_reading env user i month d db
      | Bulk_readings month items \<Rightarrow> bulk_readings env user month items db
      | Correct_reading i v reason kind \<Rightarrow> create_correction env user i v reason kind db
      | Set_rule d \<Rightarrow> upsert_anomaly_rule env user d db
      | Commit_import month token skip \<Rightarrow> map_sum id fst (commit_import env user month token skip db)
      | Create_meter d \<Rightarrow> create_meter env user d db
      | Update_meter i d \<Rightarrow> update_meter user i d db
      | Archive_meter i \<Rightarrow> archive_meter user i db
      | Correct_number i n reason \<Rightarrow> correct_number user i n reason db
      | Replace_meter i d \<Rightarrow> replace_meter env user i d db
      | Create_object d \<Rightarrow> create_object env user d db
      | Update_object i d \<Rightarrow> update_object user i d db
      | Archive_object i \<Rightarrow> archive_object user i db)"

definition correctable :: "acct_call \<Rightarrow> int set" where
  "correctable c = (case c of Correct_reading i v reason kind \<Rightarrow> {i} | _ \<Rightarrow> {})"

definition acct_init :: "books \<Rightarrow> bool" where
  "acct_init db \<longleftrightarrow>
     bk_objects db = [] \<and> bk_meters db = [] \<and> bk_links db = [] \<and> bk_periods db = [] \<and> bk_readings db = []
     \<and> bk_revisions db = [] \<and> bk_rules db = [] \<and> bk_meter_tags db = [] \<and> bk_object_tags db = [] \<and> bk_audit db = []"

definition acct_step :: "books \<Rightarrow> books \<Rightarrow> bool" where
  "acct_step db db' \<longleftrightarrow> (\<exists>env user c. fresh_env env db \<and> run_acct env user c db = Inr db')"

text \<open>Between two calls every row is as its columns hold it.\<close>

definition all_stored :: "books \<Rightarrow> bool" where
  "all_stored db \<longleftrightarrow>
     map store_reading (bk_readings db) = bk_readings db \<and> map store_revision (bk_revisions db) = bk_revisions db"

lemma all_stored_commit [simp]: "all_stored (commit_books db)"
  by (simp add: all_stored_def)

lemma all_stored_same:
  "bk_readings db' = bk_readings db \<Longrightarrow> bk_revisions db' = bk_revisions db \<Longrightarrow> all_stored db' = all_stored db"
  by (simp add: all_stored_def)

lemma write_audit_simps [simp]:
  "bk_readings (write_audit u e i a x y db) = bk_readings db" "bk_revisions (write_audit u e i a x y db) = bk_revisions db"
  "bk_periods (write_audit u e i a x y db) = bk_periods db" "bk_meters (write_audit u e i a x y db) = bk_meters db"
  "bk_objects (write_audit u e i a x y db) = bk_objects db" "bk_rules (write_audit u e i a x y db) = bk_rules db"
  "bk_links (write_audit u e i a x y db) = bk_links db"
  by (simp_all add: write_audit_def)

lemma transition_writes:
  assumes "transition user month s db = Inr db'"
  shows "(book_write (ac_tenant user) I)\<^sup>*\<^sup>* db db'" "bk_readings db' = bk_readings db" "bk_revisions db' = bk_revisions db"
proof -
  obtain p ts where p: "get_period_or_404 db user month = Inr p" and ts: "map_of status_flow (pe_status p) = Some ts" "s \<in> set ts"
    and db': "db' = write_audit user ''period'' (pe_id p) (''status_'' @ s)
                       [(''status'', Au_str (pe_status p))] [(''status'', Au_str s)] (set_period_status (pe_id p) s db)"
    using assms by (auto simp: transition_def res_bind_Inr_iff split: option.splits if_splits)
  have "book_write (ac_tenant user) I db (set_period_status (pe_id p) s db)"
    using get_period_Inr [OF p] ts by (intro move_period) simp_all
  then show "(book_write (ac_tenant user) I)\<^sup>*\<^sup>* db db'" unfolding db' by (rule audit_after)
  show "bk_readings db' = bk_readings db" "bk_revisions db' = bk_revisions db" by (simp_all add: db')
qed

lemma commit_after: "(book_write t I)\<^sup>*\<^sup>* a b \<Longrightarrow> (book_write t I)\<^sup>*\<^sup>* a (commit_books (write_audit user e i x y z b))"
proof -
  assume "(book_write t I)\<^sup>*\<^sup>* a b"
  then have "(book_write t I)\<^sup>*\<^sup>* a (write_audit user e i x y z b)" by (rule audit_after_all)
  then show ?thesis by (rule rtranclp.rtrancl_into_rtrancl) (rule store)
qed

lemmas handler_unfold = require_roles_def require_schema_def res_bind_Inr_iff

lemma reading_call_writes:
  assumes "books_inv db" "fresh_env env db"
  shows "put_reading env user i month d db = Inr db' \<Longrightarrow> (book_write (ac_tenant user) {})\<^sup>*\<^sup>* db db' \<and> all_stored db'"
    and "bulk_readings env user month items db = Inr db' \<Longrightarrow> (book_write (ac_tenant user) {})\<^sup>*\<^sup>* db db' \<and> all_stored db'"
    and "commit_import env user month token skip db = Inr (db', k) \<Longrightarrow> (book_write (ac_tenant user) {})\<^sup>*\<^sup>* db db' \<and> all_stored db'"
proof -
  assume "put_reading env user i month d db = Inr db'"
  then obtain p m db1 r a b where p: "get_period_or_404 db user month = Inr p" and m: "own_meter db user i = Inr m"
    and u: "upsert_reading (ev_today env) (ev_now env) (ev_uuid env 0) db m p d user = Inr (db1, r)"
    and db': "db' = commit_books (write_audit user ''reading'' (rd_id r) ''upsert'' a b db1)"
    by (auto simp: put_reading_def handler_unfold split: if_splits)
  have "book_write (ac_tenant user) {} db db1"
    using own_meter_Inr [OF m] get_period_Inr [OF p] fresh_ids(1) [OF assms(2)]
    by (intro upsert_write(1) [OF u assms(1)]) simp_all
  then show "(book_write (ac_tenant user) {})\<^sup>*\<^sup>* db db' \<and> all_stored db'"
    unfolding db' by (intro conjI commit_after r_into_rtranclp all_stored_commit)
next
  assume "bulk_readings env user month items db = Inr db'"
  then obtain p db1 a b where p: "get_period_or_404 db user month = Inr p" and u: "bulk_items env user p 0 items db = Inr db1"
    and db': "db' = commit_books (write_audit user ''period'' (pe_id p) ''bulk_readings'' a b db1)"
    by (auto simp: bulk_readings_def handler_unfold split: if_splits)
  show "(book_write (ac_tenant user) {})\<^sup>*\<^sup>* db db' \<and> all_stored db'"
    unfolding db' using get_period_Inr [OF p]
    by (intro conjI commit_after bulk_items_writes [OF u assms(1)] unused_from_fresh [OF assms(2)] all_stored_commit) simp_all
next
  assume "commit_import env user month token skip db = Inr (db', k)"
  then obtain p rows db1 a b where p: "get_period_or_404 db user month = Inr p" and u: "commit_rows env user p 0 rows db = Inr (db1, k)"
    and db': "db' = commit_books (write_audit user ''period'' (pe_id p) ''import_commit'' a b db1)"
    by (auto simp: commit_import_def handler_unfold split: if_splits option.splits)
  show "(book_write (ac_tenant user) {})\<^sup>*\<^sup>* db db' \<and> all_stored db'"
    unfolding db' using get_period_Inr [OF p]
    by (intro conjI commit_after commit_rows_writes [OF u assms(1)] unused_from_fresh [OF assms(2)] all_stored_commit) simp_all
qed

lemma correction_call:
  assumes "create_correction env user i v reason kind db = Inr db'" "books_inv db"
  obtains r p m db1 where "r \<in> set (bk_readings db)" "rd_id r = i" "rd_tenant r = ac_tenant user"
    "p \<in> set (bk_periods db)" "pe_id p = rd_period r" "pe_status p \<notin> set editable_statuses"
    "m \<in> set (bk_meters db)" "me_id m = rd_meter r"
    "apply_correction (ev_today env) (ev_now env) db r m p v reason kind user = Inr db1"
    "list_all reading_fits (bk_readings db1)"
    "db' = commit_books (write_audit user ''reading'' (rd_id r) ''correction'' [(''value'', Au_dec (rd_value r))]
                                  [(''value'', Au_dec (Some v)), (''reason'', Au_text reason)] db1)"
  using assms(1)
  by (auto simp: create_correction_def handler_unfold find_reading_def find_meter_def
        split: if_splits option.splits dest!: first_row_Some)

lemma correction_call_writes:
  assumes "create_correction env user i v reason kind db = Inr db'" "books_inv db"
  shows "(book_write (ac_tenant user) {i})\<^sup>*\<^sup>* db db' \<and> all_stored db'"
proof -
  from correction_call [OF assms] obtain r p m db1 where r: "r \<in> set (bk_readings db)" "rd_id r = i" "rd_tenant r = ac_tenant user"
    and m: "m \<in> set (bk_meters db)" "me_id m = rd_meter r"
    and c: "apply_correction (ev_today env) (ev_now env) db r m p v reason kind user = Inr db1"
    and db': "db' = commit_books (write_audit user ''reading'' (rd_id r) ''correction'' [(''value'', Au_dec (rd_value r))]
                                  [(''value'', Au_dec (Some v)), (''reason'', Au_text reason)] db1)" by metis
  have "book_write (ac_tenant user) {rd_id r} db db1"
    using r m by (intro correction_write [OF c assms(2)]) simp_all
  then show ?thesis unfolding db' r(2) by (intro conjI commit_after r_into_rtranclp all_stored_commit)
qed

lemma plain_call:
  assumes "books_inv db" "fresh_env env db"
  shows "create_period env user month db = Inr db' \<Longrightarrow> (book_write (ac_tenant user) I)\<^sup>*\<^sup>* db db' \<and> bk_readings db' = bk_readings db \<and> bk_revisions db' = bk_revisions db"
    and "upsert_anomaly_rule env user d db = Inr db' \<Longrightarrow> (book_write (ac_tenant user) I)\<^sup>*\<^sup>* db db' \<and> bk_readings db' = bk_readings db \<and> bk_revisions db' = bk_revisions db"
proof -
  assume "create_period env user month db = Inr db'"
  then obtain p a b where none: "find_period db (ac_tenant user) month = None"
    and p: "p = \<lparr>pe_id = ev_uuid env 0, pe_tenant = ac_tenant user, pe_month = month, pe_status = ''open''\<rparr>"
    and db': "db' = write_audit user ''period'' (pe_id p) ''create'' a b (db\<lparr>bk_periods := bk_periods db @ [p]\<rparr>)"
    by (auto simp: create_period_def handler_unfold Let_def split: if_splits option.splits)
  have "book_write (ac_tenant user) I db (db\<lparr>bk_periods := bk_periods db @ [p]\<rparr>)"
    using none fresh_ids(3) [OF assms(2)]
    by (intro add_period) (auto simp: p find_period_def first_row_None)
  then show "(book_write (ac_tenant user) I)\<^sup>*\<^sup>* db db' \<and> bk_readings db' = bk_readings db \<and> bk_revisions db' = bk_revisions db"
    unfolding db' by (intro conjI audit_after) simp_all
next
  assume call: "upsert_anomaly_rule env user d db = Inr db'"
  define mine where "mine = (\<lambda>x :: anomaly_rule. an_tenant x = ac_tenant user \<and> an_resource x = ri_resource d)"
  define row where "row = \<lparr>an_tenant = ac_tenant user, an_resource = ri_resource d, an_abs = map_option store4 (ri_abs d),
                     an_pct = map_option store2 (ri_pct d), an_window = ri_window d, an_avg = map_option store2 (ri_avg d)\<rparr>"
  define rows where "rows = (if list_ex mine (bk_rules db) then upd_where mine (\<lambda>_. row) (bk_rules db) else bk_rules db @ [row])"
  have db': "db' = write_audit user ''anomaly_rule'' (ev_uuid env 0) ''upsert'' []
                    [(''resource_type'', Au_str (ri_resource d)), (''abs_threshold'', Au_dec (ri_abs d)),
                     (''pct_change_threshold'', Au_dec (ri_pct d)), (''avg_window_months'', Au_nat (ri_window d)),
                     (''avg_deviation_pct'', Au_dec (ri_avg d))] (db\<lparr>bk_rules := rows\<rparr>)"
    using call unfolding upsert_anomaly_rule_def handler_unfold Let_def rows_def row_def mine_def
    by (simp split: if_splits)
  have "filter (\<lambda>a. an_tenant a \<noteq> ac_tenant user) rows = filter (\<lambda>a. an_tenant a \<noteq> ac_tenant user) (bk_rules db)"
    using filter_upd_where [of "bk_rules db" mine "\<lambda>a. an_tenant a \<noteq> ac_tenant user" "\<lambda>_. row"]
    by (simp add: rows_def row_def mine_def)
  then have "book_write (ac_tenant user) I db (db\<lparr>bk_rules := rows\<rparr>)" by (rule set_rule)
  then show "(book_write (ac_tenant user) I)\<^sup>*\<^sup>* db db' \<and> bk_readings db' = bk_readings db \<and> bk_revisions db' = bk_revisions db"
    unfolding db' by (intro conjI audit_after) simp_all
qed

text \<open>The registry's handlers leave the readings alone.\<close>

lemma insert_meter_readings:
  assumes "insert_meter i user rep d db = Inr (db', m)"
  shows "bk_readings db' = bk_readings db" "bk_revisions db' = bk_revisions db" "bk_periods db' = bk_periods db"
  using assms by (auto simp: insert_meter_def Let_def res_bind_Inr_iff split: if_splits dest!: set_consumers_Inr)

lemma registry_readings:
  "create_meter env user d db = Inr db' \<Longrightarrow> bk_readings db' = bk_readings db \<and> bk_revisions db' = bk_revisions db"
  "replace_meter env user i rd db = Inr db' \<Longrightarrow> bk_readings db' = bk_readings db \<and> bk_revisions db' = bk_revisions db"
  "update_meter user i mu db = Inr db' \<Longrightarrow> bk_readings db' = bk_readings db \<and> bk_revisions db' = bk_revisions db"
  "archive_meter user i db = Inr db' \<Longrightarrow> bk_readings db' = bk_readings db \<and> bk_revisions db' = bk_revisions db"
  "correct_number user i n reason db = Inr db' \<Longrightarrow> bk_readings db' = bk_readings db \<and> bk_revisions db' = bk_revisions db"
  "create_object env user oi db = Inr db' \<Longrightarrow> bk_readings db' = bk_readings db \<and> bk_revisions db' = bk_revisions db"
  "update_object user i ou db = Inr db' \<Longrightarrow> bk_readings db' = bk_readings db \<and> bk_revisions db' = bk_revisions db"
  "archive_object user i db = Inr db' \<Longrightarrow> bk_readings db' = bk_readings db \<and> bk_revisions db' = bk_revisions db"
  by (auto simp: create_meter_def replace_meter_def update_meter_def archive_meter_def correct_number_def create_object_def
      update_object_def archive_object_def handler_unfold Let_def put_meter_def insert_meter_readings
      split: if_splits option.splits dest!: set_consumers_Inr)

lemma create_meter_writes:
  assumes "create_meter env user d db = Inr db'" "books_inv db" "fresh_env env db"
  shows "(book_write (ac_tenant user) I)\<^sup>*\<^sup>* db db'"
proof -
  obtain db1 m a b where ok: "meter_in_ok d" and i: "insert_meter (ev_uuid env 0) user None d db = Inr (db1, m)"
    and db': "db' = write_audit user ''meter'' (me_id m) ''create'' a b db1"
    using assms(1) by (auto simp: create_meter_def handler_unfold split: if_splits)
  show ?thesis unfolding db' by (intro audit_after_all insert_meter_writes [OF i assms(2) fresh_ids(2) [OF assms(3)] ok])
qed

lemma submit_transition: "submit_period user month db = Inr db' \<Longrightarrow> transition user month ''submitted'' db = Inr db'"
  by (auto simp: submit_period_def handler_unfold split: if_splits)

text \<open>Every call that succeeds is a sequence of writes of the account's tenant, and leaves every row as
  its columns hold it.\<close>

lemma call_writes:
  assumes run: "run_acct env user c db = Inr db'" and inv: "books_inv db" and fresh: "fresh_env env db"
  shows "(book_write (ac_tenant user) (correctable c))\<^sup>*\<^sup>* db db'" "all_stored db \<longrightarrow> all_stored db'"
proof -
  note regs = registry_readings
  have "(book_write (ac_tenant user) (correctable c))\<^sup>*\<^sup>* db db' \<and> (all_stored db \<longrightarrow> all_stored db')"
  proof (cases c)
    case (Correct_reading i v reason kind)
    then show ?thesis using run correction_call_writes [of env user i v reason kind db db'] inv
      by (simp add: run_acct_def correctable_def)
  next
    case (Put_reading i month d)
    then show ?thesis using run reading_call_writes(1) [OF inv fresh, of user i month d db']
      by (simp add: run_acct_def correctable_def)
  next
    case (Bulk_readings month items)
    then show ?thesis using run reading_call_writes(2) [OF inv fresh, of user month items db']
      by (simp add: run_acct_def correctable_def)
  next
    case (Commit_import month token skip)
    then obtain k where "commit_import env user month token skip db = Inr (db', k)"
      using run by (cases "commit_import env user month token skip db") (auto simp: run_acct_def)
    then show ?thesis using Commit_import reading_call_writes(3) [OF inv fresh, of user month token skip db' k]
      by (simp add: correctable_def)
  next
    case (Create_period month)
    then show ?thesis using run plain_call(1) [OF inv fresh, of user month db'] all_stored_same [of db' db]
      by (simp add: run_acct_def)
  next
    case (Set_rule d)
    then show ?thesis using run plain_call(2) [OF inv fresh, of user d db'] all_stored_same [of db' db]
      by (simp add: run_acct_def)
  next
    case (Submit month)
    then show ?thesis using run transition_writes [OF submit_transition, of user month db db'] all_stored_same [of db' db]
      by (simp add: run_acct_def)
  next
    case (Create_meter d)
    then show ?thesis using run create_meter_writes [OF _ inv fresh, of user d db'] regs(1) [of env user d db db'] all_stored_same [of db' db]
      by (simp add: run_acct_def)
  next
    case (Replace_meter i d)
    then show ?thesis using run replace_meter_writes [OF _ inv fresh, of user i d db'] regs(2) [of env user i d db db'] all_stored_same [of db' db]
      by (simp add: run_acct_def)
  next
    case (Update_meter i d)
    then show ?thesis using run update_meter_writes [OF _ inv, of user i d db'] regs(3) [of user i d db db'] all_stored_same [of db' db]
      by (simp add: run_acct_def)
  next
    case (Archive_meter i)
    then show ?thesis using run archive_meter_writes [OF _ inv, of user i db'] regs(4) [of user i db db'] all_stored_same [of db' db]
      by (simp add: run_acct_def)
  next
    case (Correct_number i n reason)
    then show ?thesis using run correct_number_writes [OF _ inv, of user i n reason db'] regs(5) [of user i n reason db db'] all_stored_same [of db' db]
      by (simp add: run_acct_def)
  next
    case (Create_object d)
    then show ?thesis using run create_object_writes [OF _ inv fresh, of user d db'] regs(6) [of env user d db db'] all_stored_same [of db' db]
      by (simp add: run_acct_def)
  next
    case (Update_object i d)
    then show ?thesis using run update_object_writes [OF _ inv, of user i d db'] regs(7) [of user i d db db'] all_stored_same [of db' db]
      by (simp add: run_acct_def)
  next
    case (Archive_object i)
    then show ?thesis using run archive_object_writes [OF _ inv, of user i db'] regs(8) [of user i db db'] all_stored_same [of db' db]
      by (simp add: run_acct_def)
  qed (use run transition_writes all_stored_same [of db' db] in
        \<open>auto simp: run_acct_def move_to_review_def reopen_def close_period_def require_roles_def split: if_splits\<close>)
  then show "(book_write (ac_tenant user) (correctable c))\<^sup>*\<^sup>* db db'" "all_stored db \<longrightarrow> all_stored db'" by blast+
qed

end
