(* ===== verification/AccountingHistory.thy ===== *)
theory AccountingHistory
  imports AccountingRuns
begin

section \<open>Resource accounting: what a later state of the books keeps of an earlier one\<close>

text \<open>
  Every call is a sequence of the writes of \<open>AccountingWrites\<close>; here are the relation between an
  earlier and a later state of the books that every write respects, and the interpretation of
  \<open>evolving\<close> on the calls of \<open>run_acct\<close>.
\<close>

subsection \<open>History\<close>

text \<open>What one state of the books keeps of an earlier one: the revisions, the readings as entities with
  their place, and the closed periods.\<close>

definition place_of :: "reading \<Rightarrow> int \<times> int \<times> int \<times> int" where
  "place_of r = (rd_id r, rd_tenant r, rd_meter r, rd_period r)"

definition closed_ids :: "books \<Rightarrow> int set" where
  "closed_ids db = pe_id ` {p \<in> set (bk_periods db). pe_status p = ''closed''}"

definition history_kept :: "books \<Rightarrow> books \<Rightarrow> bool" where
  "history_kept db db' \<longleftrightarrow>
     (\<exists>vs. map store_revision (bk_revisions db') = map store_revision (bk_revisions db) @ vs)
     \<and> place_of ` set (bk_readings db) \<subseteq> place_of ` set (bk_readings db')
     \<and> closed_ids db \<subseteq> closed_ids db'"

lemma place_of_simps [simp]:
  "place_of (store_reading r) = place_of r" "corrected_row db i mid new a b \<Longrightarrow> place_of b = place_of a"
  by (simp_all add: place_of_def corrected_row_def)

lemma history_refl: "history_kept db db"
  by (simp add: history_kept_def)

lemma history_trans: "history_kept a b \<Longrightarrow> history_kept b c \<Longrightarrow> history_kept a c"
proof -
  assume ab: "history_kept a b" and bc: "history_kept b c"
  then obtain vs ws where "map store_revision (bk_revisions b) = map store_revision (bk_revisions a) @ vs"
    "map store_revision (bk_revisions c) = map store_revision (bk_revisions b) @ ws"
    unfolding history_kept_def by blast
  then have "map store_revision (bk_revisions c) = map store_revision (bk_revisions a) @ (vs @ ws)" by simp
  then show "history_kept a c" using ab bc unfolding history_kept_def by blast
qed

lemma put_row_places:
  assumes r: "case old of Some x \<Rightarrow> rd_id r = rd_id x \<and> place_of x = place_of r | None \<Rightarrow> rd_id r \<notin> rd_id ` set rows"
    and old: "\<And>x. old = Some x \<Longrightarrow> x \<in> set rows" and d: "distinct (map rd_id rows)"
  shows "place_of ` set rows \<subseteq> place_of ` set (put_row r rows)"
proof
  fix q assume "q \<in> place_of ` set rows"
  then obtain s where s: "s \<in> set rows" "q = place_of s" by blast
  show "q \<in> place_of ` set (put_row r rows)"
  proof (cases "rd_id s = rd_id r")
    case False
    then show ?thesis using put_row_keeps [OF s(1)] s(2) by blast
  next
    case True
    then obtain x where x: "old = Some x" using r imageI [OF s(1), of rd_id] by (cases old) auto
    then have "s = x" using distinct_ids_inj [OF d s(1) old [OF x]] r True by simp
    then have "q = place_of r" using r x s(2) by simp
    then show ?thesis using put_row_in [of r rows] by blast
  qed
qed

lemma history_write:
  assumes w: "book_write t I db db'" and k: "keys_unique db" and at: "\<forall>r\<in>set (bk_readings db). placed db r"
  shows "history_kept db db'"
proof -
  have periods: "closed_ids db \<subseteq> closed_ids db'"
  proof
    fix i assume "i \<in> closed_ids db"
    then obtain p where p: "p \<in> set (bk_periods db)" "pe_status p = ''closed''" "i = pe_id p" by (auto simp: closed_ids_def)
    from periods_kept [OF w k p(1)] obtain q where q: "q \<in> set (bk_periods db')" "pe_id q = pe_id p"
      "pe_status q = pe_status p \<or> (\<exists>ts. map_of status_flow (pe_status p) = Some ts \<and> pe_status q \<in> set ts)" by blast
    then have "pe_status q = ''closed''" using p(2) by (auto simp: status_flow_def)
    then show "i \<in> closed_ids db'" using p(3) q(1,2) unfolding closed_ids_def by (intro image_eqI [of _ _ q]) simp_all
  qed
  have "(\<exists>vs. map store_revision (bk_revisions db') = map store_revision (bk_revisions db) @ vs)
      \<and> place_of ` set (bk_readings db) \<subseteq> place_of ` set (bk_readings db')"
    using w
  proof (cases rule: book_write.cases)
    case (save_reading m p r old vs v)
    have "place_of ` set (bk_readings db) \<subseteq> place_of ` set (put_row r (bk_readings db))"
    proof (rule put_row_places)
      show "distinct (map rd_id (bk_readings db))" using k by (simp add: keys_unique_def)
      show "x \<in> set (bk_readings db)" if "old = Some x" for x
        using slot_row [OF save_reading(11) [unfolded that, symmetric]] by simp
      show "case old of Some x \<Rightarrow> rd_id r = rd_id x \<and> place_of x = place_of r | None \<Rightarrow> rd_id r \<notin> rd_id ` set (bk_readings db)"
      proof (cases old)
        case (Some x)
        have x: "x \<in> set (bk_readings db)" "rd_meter x = me_id m" "rd_period x = pe_id p"
          using slot_row [OF save_reading(11) [unfolded Some, symmetric]] by simp_all
        have "rd_tenant x = me_tenant m" using meter_tenant [OF k _ save_reading(2) x(2)] at x(1) by blast
        then show ?thesis using Some x save_reading(4,7-9,12) by (simp add: place_of_def)
      qed (use save_reading(12) in simp)
    qed
    then show ?thesis by (simp add: save_reading(1))
  next
    case (correct_reading r v rows)
    have "map place_of rows = map place_of (bk_readings db)"
      by (rule all2_map [OF correct_reading(5)]) simp
    then have "place_of ` set rows = place_of ` set (bk_readings db)" unfolding set_map [symmetric] by (rule arg_cong)
    then show ?thesis by (simp add: correct_reading(1))
  next
    case store
    have "store_revision \<circ> store_revision = store_revision" by (simp add: fun_eq_iff)
    then show ?thesis using store by (simp add: image_image)
  qed simp_all
  then show ?thesis using periods by (simp add: history_kept_def)
qed

lemma history_writes: "(book_write t I)\<^sup>*\<^sup>* db db' \<Longrightarrow> books_inv db \<Longrightarrow> history_kept db db'"
proof (induction rule: rtranclp_induct)
  case (step b c)
  then have "books_inv b" using books_writes by blast
  then have "history_kept b c" using history_write [OF step.hyps(2)] by (simp add: books_inv_def)
  then show ?case using step history_trans by blast
qed (rule history_refl)

lemma inv_init: "acct_init db \<Longrightarrow> books_inv db \<and> all_stored db"
  by (auto simp: acct_init_def books_inv_def keys_unique_def trails_ok_def meters_ok_def forest_ok_def statuses_ok_def
      all_stored_def parent_rel_def parent_of_def acyclic_def)

interpretation books: evolving acct_init acct_step "\<lambda>db. books_inv db \<and> all_stored db" history_kept
proof unfold_locales
  show "books_inv t \<and> all_stored t" if si: "books_inv s \<and> all_stored s" and st: "acct_step s t" for s t
  proof -
    obtain env user c where c: "run_acct env user c s = Inr t" "fresh_env env s" using st unfolding acct_step_def by blast
    show ?thesis using books_writes [OF call_writes(1) [OF c(1) _ c(2)]] call_writes(2) [OF c(1) _ c(2)] si by simp
  qed
  show "history_kept s t" if si: "books_inv s \<and> all_stored s" and st: "acct_step s t" for s t
  proof -
    obtain env user c where c: "run_acct env user c s = Inr t" "fresh_env env s" using st unfolding acct_step_def by blast
    show ?thesis using history_writes [OF call_writes(1) [OF c(1) _ c(2)]] si by simp
  qed
  show "history_kept s u" if "history_kept s t" "history_kept t u" for s t u using that by (rule history_trans)
qed (simp_all add: inv_init history_refl)

end
