(* ===== verification/AccountingExamples.thy ===== *)
theory AccountingExamples
  imports AccountingHistory
begin

section \<open>Resource accounting: a run on concrete books\<close>

text \<open>
  The books of the witnesses: one object with one meter, two months with a reading each, the first
  month closed; then a correction in the closed month.
\<close>

lemma map_fixed: "map f xs = xs \<Longrightarrow> x \<in> set xs \<Longrightarrow> f x = x"
  by (induction xs) auto

definition example_env :: "int \<Rightarrow> call_env" where
  "example_env b = \<lparr>ev_today = 739700, ev_now = 0, ev_uuid = (\<lambda>n. b + int n)\<rparr>"

definition admin_one :: account where
  "admin_one = \<lparr>ac_id = 1, ac_tenant = 1, ac_role = ''resource_admin'', ac_name = [65]\<rparr>"

definition admin_two :: account where
  "admin_two = \<lparr>ac_id = 2, ac_tenant = 2, ac_role = ''resource_admin'', ac_name = [66]\<rparr>"

definition empty_books :: books where
  "empty_books =
     \<lparr>bk_objects = [], bk_meters = [], bk_links = [], bk_periods = [], bk_readings = [], bk_revisions = [],
      bk_rules = [], bk_tags = [], bk_meter_tags = [], bk_object_tags = [], bk_audit = []\<rparr>"

definition example_object :: object_in where
  "example_object = \<lparr>oc_name = [72], oc_code = None, oc_type = None, oc_parent = None, oc_description = None,
     oc_sort = 0, oc_tags = []\<rparr>"

definition example_meter :: meter_in where
  "example_meter = \<lparr>mc_number = [49, 50], mc_name = [69], mc_resource = ''electricity'', mc_unit = ''kWh'',
     mc_description = [100], mc_location = [108], mc_object = 100, mc_provider = None, mc_account = None,
     mc_serial = None, mc_coefficient = 20, mc_max_digits = Some 6, mc_installed = None, mc_photo = None,
     mc_note = None, mc_tags = [], mc_consumers = []\<rparr>"

definition example_reading :: "rat \<Rightarrow> reading_in" where
  "example_reading v = \<lparr>in_value = Some v, in_read_at = None, in_kind = ''normal'', in_missing_reason = None,
     in_comment = None, in_photo = None\<rparr>"

definition id_list :: "books \<Rightarrow> int list" where
  "id_list db = map rd_id (bk_readings db) @ map me_id (bk_meters db) @ map pe_id (bk_periods db) @ map ro_id (bk_objects db)"

text \<open>A run of calls, each with its block of UUIDs above those in use.\<close>

fun example_run :: "(int \<times> account \<times> acct_call) list \<Rightarrow> books \<Rightarrow> books option" where
  "example_run [] db = Some db"
| "example_run ((b, user, c) # calls) db =
     (if list_all (\<lambda>i. i < b) (id_list db) then
        case run_acct (example_env b) user c db of Inl _ \<Rightarrow> None | Inr db' \<Rightarrow> example_run calls db'
      else None)"

definition example_calls :: "(int \<times> account \<times> acct_call) list" where
  "example_calls =
     [(100, admin_one, Create_object example_object), (200, admin_one, Create_meter example_meter),
      (300, admin_one, Create_period ''2026-01''), (400, admin_one, Create_period ''2026-02''),
      (500, admin_one, Put_reading 200 ''2026-01'' (example_reading (21 / 2))),
      (600, admin_one, Put_reading 200 ''2026-02'' (example_reading 25)),
      (700, admin_one, To_review ''2026-01''), (700, admin_one, Submit ''2026-01''), (700, admin_one, Close ''2026-01'')]"

text \<open>The books after these calls, and after the correction of the closed reading to 12.\<close>

definition example_closed :: books where
  "example_closed =
     \<lparr>bk_objects =
       [\<lparr>ro_id = 100, ro_tenant = 1, ro_name = [72], ro_code = None, ro_type = None, ro_parent = None,
         ro_description = None, ro_sort = 0, ro_active = True\<rparr>],
      bk_meters =
       [\<lparr>me_id = 200, me_tenant = 1, me_number = [49, 50], me_normalized = [49, 50], me_name = [69],
         me_resource = ''electricity'', me_unit = ''kWh'', me_description = [100], me_location = [108],
         me_status = ''active'', me_object = 100, me_provider = None, me_account = None, me_serial = None,
         me_coefficient = 20, me_max_digits = Some 6, me_installed = None, me_removed = None, me_replaces = None,
         me_photo = None, me_note = None\<rparr>],
      bk_links = [],
      bk_periods =
       [\<lparr>pe_id = 300, pe_tenant = 1, pe_month = ''2026-01'', pe_status = ''closed''\<rparr>,
        \<lparr>pe_id = 400, pe_tenant = 1, pe_month = ''2026-02'', pe_status = ''open''\<rparr>],
      bk_readings =
       [\<lparr>rd_id = 500, rd_tenant = 1, rd_meter = 200, rd_period = 300, rd_value = Some (21 / 2), rd_read_at = Some 739647,
           rd_kind = ''normal'', rd_previous = None, rd_consumption = Some 210, rd_status = ''ok'',
           rd_message = None, rd_missing_reason = None, rd_comment = None, rd_photo = None,
           rd_created_by = Some 1, rd_updated_by = Some 1\<rparr>,
        \<lparr>rd_id = 600, rd_tenant = 1, rd_meter = 200, rd_period = 400, rd_value = Some 25, rd_read_at = Some 739675,
           rd_kind = ''normal'', rd_previous = Some (21 / 2), rd_consumption = Some 290, rd_status = ''ok'',
           rd_message = None, rd_missing_reason = None, rd_comment = None, rd_photo = None,
           rd_created_by = Some 1, rd_updated_by = Some 1\<rparr>],
      bk_revisions =
       [\<lparr>rv_reading = 500, rv_old = None, rv_new = Some (21 / 2), rv_kind = ''normal'', rv_reason = None,
           rv_actor = Some 1, rv_actor_name = Some [65], rv_at = 0\<rparr>,
        \<lparr>rv_reading = 600, rv_old = None, rv_new = Some 25, rv_kind = ''normal'', rv_reason = None,
           rv_actor = Some 1, rv_actor_name = Some [65], rv_at = 0\<rparr>],
      bk_rules = [], bk_tags = [], bk_meter_tags = [], bk_object_tags = [],
      bk_audit =
       [\<lparr>au_tenant = 1, au_entity = ''object'', au_entity_id = 100, au_action = ''create'', au_before = [],
           au_after = [(''name'', Au_text [72]), (''parent_id'', Au_ref None)], au_actor = 1\<rparr>,
        \<lparr>au_tenant = 1, au_entity = ''meter'', au_entity_id = 200, au_action = ''create'', au_before = [],
           au_after = [(''meter_number'', Au_text [49, 50]), (''name'', Au_text [69])], au_actor = 1\<rparr>,
        \<lparr>au_tenant = 1, au_entity = ''period'', au_entity_id = 300, au_action = ''create'', au_before = [],
           au_after = [(''month'', Au_str ''2026-01'')], au_actor = 1\<rparr>,
        \<lparr>au_tenant = 1, au_entity = ''period'', au_entity_id = 400, au_action = ''create'', au_before = [],
           au_after = [(''month'', Au_str ''2026-02'')], au_actor = 1\<rparr>,
        \<lparr>au_tenant = 1, au_entity = ''reading'', au_entity_id = 500, au_action = ''upsert'', au_before = [],
           au_after = [(''meter'', Au_text [49, 50]), (''month'', Au_str ''2026-01''), (''value'', Au_dec (Some (21 / 2)))], au_actor = 1\<rparr>,
        \<lparr>au_tenant = 1, au_entity = ''reading'', au_entity_id = 600, au_action = ''upsert'', au_before = [],
           au_after = [(''meter'', Au_text [49, 50]), (''month'', Au_str ''2026-02''), (''value'', Au_dec (Some 25))], au_actor = 1\<rparr>,
        \<lparr>au_tenant = 1, au_entity = ''period'', au_entity_id = 300, au_action = ''status_review'', au_before = [(''status'', Au_str ''open'')],
           au_after = [(''status'', Au_str ''review'')], au_actor = 1\<rparr>,
        \<lparr>au_tenant = 1, au_entity = ''period'', au_entity_id = 300, au_action = ''status_submitted'', au_before = [(''status'', Au_str ''review'')],
           au_after = [(''status'', Au_str ''submitted'')], au_actor = 1\<rparr>,
        \<lparr>au_tenant = 1, au_entity = ''period'', au_entity_id = 300, au_action = ''status_closed'', au_before = [(''status'', Au_str ''submitted'')],
           au_after = [(''status'', Au_str ''closed'')], au_actor = 1\<rparr>]\<rparr>"

definition example_corrected :: books where
  "example_corrected = example_closed
     \<lparr>bk_readings :=
       [\<lparr>rd_id = 500, rd_tenant = 1, rd_meter = 200, rd_period = 300, rd_value = Some 12, rd_read_at = Some 739647,
           rd_kind = ''normal'', rd_previous = None, rd_consumption = Some 240, rd_status = ''ok'',
           rd_message = Some (Corrected [101, 114, 114] []), rd_missing_reason = None, rd_comment = None, rd_photo = None,
           rd_created_by = Some 1, rd_updated_by = Some 1\<rparr>,
        \<lparr>rd_id = 600, rd_tenant = 1, rd_meter = 200, rd_period = 400, rd_value = Some 25, rd_read_at = Some 739675,
           rd_kind = ''normal'', rd_previous = Some 12, rd_consumption = Some 260, rd_status = ''ok'',
           rd_message = None, rd_missing_reason = None, rd_comment = None, rd_photo = None,
           rd_created_by = Some 1, rd_updated_by = Some 1\<rparr>],
      bk_revisions := bk_revisions example_closed @
       [\<lparr>rv_reading = 500, rv_old = Some (21 / 2), rv_new = Some 12, rv_kind = ''normal'', rv_reason = Some [101, 114, 114],
           rv_actor = Some 1, rv_actor_name = Some [65], rv_at = 0\<rparr>],
      bk_audit := bk_audit example_closed @
       [\<lparr>au_tenant = 1, au_entity = ''reading'', au_entity_id = 500, au_action = ''correction'', au_before = [(''value'', Au_dec (Some (21 / 2)))],
           au_after = [(''value'', Au_dec (Some 12)), (''reason'', Au_text [101, 114, 114])], au_actor = 1\<rparr>]\<rparr>"

definition example_correction :: acct_call where
  "example_correction = Correct_reading 500 12 [101, 114, 114] ''normal''"

lemma example_fresh:
  assumes "list_all (\<lambda>i. i < b) (id_list db)"
  shows "fresh_env (example_env b) db"
proof -
  have "used_ids db = set (id_list db)" by (simp add: used_ids_def id_list_def Un_assoc)
  then have below: "i < b" if "i \<in> used_ids db" for i using assms that by (simp add: list_all_iff)
  have "range (ev_uuid (example_env b)) \<inter> used_ids db = {}" using below by (force simp: example_env_def)
  moreover have "inj (ev_uuid (example_env b))" by (simp add: example_env_def inj_def)
  ultimately show ?thesis by (simp add: fresh_env_def)
qed

lemma example_run_reach:
  "example_run calls db = Some db' \<Longrightarrow> reach acct_init acct_step db \<Longrightarrow> reach acct_init acct_step db'"
proof (induction calls db rule: example_run.induct)
  case (2 b user c calls db)
  obtain db1 where b: "list_all (\<lambda>i. i < b) (id_list db)" and run: "run_acct (example_env b) user c db = Inr db1"
    and rest: "example_run calls db1 = Some db'"
    using 2(2) by (auto split: if_splits sum.splits)
  have "acct_step db db1" unfolding acct_step_def using example_fresh [OF b] run by blast
  then show ?case using 2(1) [OF b run rest] reach_step [OF 2(3)] by blast
qed simp

lemma empty_reach: "reach acct_init acct_step empty_books"
  by (rule reach_init) (simp add: acct_init_def empty_books_def)

lemma example_closed_run: "example_run example_calls empty_books = Some example_closed"
  by code_simp

lemma example_closed_reach: "reach acct_init acct_step example_closed"
  by (rule example_run_reach [OF example_closed_run empty_reach])

lemma example_closed_fresh: "fresh_env (example_env 700) example_closed"
  by (rule example_fresh) code_simp

lemma example_corrected_run: "run_acct (example_env 700) admin_one example_correction example_closed = Inr example_corrected"
  by code_simp

end
