(* ===== verification/AccountingTheorems.thy ===== *)
theory AccountingTheorems
  imports AccountingExamples
begin

section \<open>Resource accounting: the properties\<close>

text \<open>
  The properties of the books over every run of calls, on the interpretation \<open>books\<close>: the history of
  a value, the readings of closed months, the separation of tenants, what an accepted reading
  guarantees, the registry; and what a correction recomputes, the two queries of the baseline, the
  error of a consumption.
\<close>

subsection \<open>Over every run\<close>

lemma reach_inv: "reach acct_init acct_step db \<Longrightarrow> books_inv db" "reach acct_init acct_step db \<Longrightarrow> all_stored db"
  using books.inv_reach by blast+

lemma map_fixed_filter: "map f xs = xs \<Longrightarrow> map f (filter P xs) = filter P xs"
  by (rule map_idI) (auto intro: map_fixed)

lemma filter_key: "distinct (map f xs) \<Longrightarrow> x \<in> set xs \<Longrightarrow> filter (\<lambda>y. f y = f x) xs = [x]"
proof (induction xs)
  case (Cons a xs)
  show ?case
  proof (cases "f a = f x")
    case True
    then have "x = a" using Cons.prems by force
    moreover have "f y \<noteq> f x" if y: "y \<in> set xs" for y using imageI [OF y, of f] Cons.prems(1) True by auto
    then have "filter (\<lambda>y. f y = f x) xs = []" by (simp add: filter_empty_conv)
    ultimately show ?thesis by simp
  qed (use Cons in auto)
qed simp

lemma revisions_of_prefix:
  assumes "bk_revisions db' = bk_revisions db @ vs"
  shows "revisions_of db' i = revisions_of db i @ filter (\<lambda>v. rv_reading v = i) vs"
  using assms by (simp add: revisions_of_def)

lemma trail_split: "trail a (vs @ ws) c \<Longrightarrow> trail a vs b \<Longrightarrow> trail b ws c"
  by (induction vs arbitrary: a) auto

text \<open>C19: the history of a value is complete.  In every reachable state the revisions of a reading lead
  from no value to its present one, and between any state and a later one the revisions are only
  appended, the reading stays in its place, and the appended revisions lead from its value then to its
  value now.\<close>

lemma value_history_complete:
  assumes "reach acct_init acct_step db" "acct_step\<^sup>*\<^sup>* db db'" "r \<in> set (bk_readings db)"
  shows "trail None (revisions_of db (rd_id r)) (rd_value r)
    \<and> (\<exists>vs. bk_revisions db' = bk_revisions db @ vs
         \<and> (\<exists>r'\<in>set (bk_readings db'). place_of r' = place_of r
              \<and> trail (rd_value r) (filter (\<lambda>v. rv_reading v = rd_id r) vs) (rd_value r')))"
proof -
  have inv: "books_inv db" "all_stored db" using reach_inv [OF assms(1)] by simp_all
  have run: "history_kept db db'" "books_inv db'" "all_stored db'" using books.later_run [OF assms(2)] inv by simp_all
  obtain ws where "map store_revision (bk_revisions db') = map store_revision (bk_revisions db) @ ws"
    using run(1) unfolding history_kept_def by blast
  then have vs: "bk_revisions db' = bk_revisions db @ ws" using inv(2) run(3) by (simp add: all_stored_def)
  have old: "trail None (revisions_of db (rd_id r)) (rd_value r)"
    using inv(1) assms(3) by (simp add: books_inv_def trails_ok_def)
  have "place_of r \<in> place_of ` set (bk_readings db')" using run(1) assms(3) unfolding history_kept_def by blast
  then obtain r' where r': "r' \<in> set (bk_readings db')" "place_of r' = place_of r" by force
  have "trail None (revisions_of db' (rd_id r)) (rd_value r')"
  proof -
    have "trail None (revisions_of db' (rd_id r')) (rd_value r')"
      using run(2) r'(1) unfolding books_inv_def trails_ok_def by blast
    then show ?thesis using r'(2) by (simp add: place_of_def)
  qed
  then have "trail (rd_value r) (filter (\<lambda>v. rv_reading v = rd_id r) ws) (rd_value r')"
    using old by (simp add: revisions_of_prefix [OF vs] trail_split)
  then show ?thesis using old vs r' by blast
qed

lemma value_history_complete_witness:
  "trail None (revisions_of example_closed 500) (rd_value (hd (bk_readings example_closed)))
   \<and> acct_step\<^sup>*\<^sup>* example_closed example_corrected \<and> rd_value (hd (bk_readings example_closed)) = Some (21 / 2)
   \<and> map rd_value (bk_readings example_corrected) = [Some 12, Some 25]"
proof -
  have "acct_step example_closed example_corrected"
    unfolding acct_step_def using example_corrected_run example_closed_fresh by blast
  then have step: "acct_step\<^sup>*\<^sup>* example_closed example_corrected" by (rule r_into_rtranclp)
  have r: "hd (bk_readings example_closed) \<in> set (bk_readings example_closed)" by code_simp
  have i: "rd_id (hd (bk_readings example_closed)) = 500" by code_simp
  have v: "rd_value (hd (bk_readings example_closed)) = Some (21 / 2)"
    "map rd_value (bk_readings example_corrected) = [Some 12, Some 25]" by code_simp+
  show ?thesis using value_history_complete [OF example_closed_reach step r] step v unfolding i by blast
qed

text \<open>C20: a closed month is frozen.  No call but the correction of a reading itself changes that reading
  once its month is closed; once it is submitted no call but a correction does; and the month does not
  go back.\<close>

lemma closed_readings_change_only_by_correction:
  assumes "reach acct_init acct_step db" "fresh_env env db" "run_acct env user c db = Inr db'"
    and "r \<in> set (bk_readings db)" "p \<in> set (bk_periods db)" "pe_id p = rd_period r"
    and "pe_status p = ''closed'' \<and> rd_id r \<notin> correctable c
         \<or> pe_status p \<in> {''submitted'', ''closed''} \<and> correctable c = {}"
  shows "r \<in> set (bk_readings db')
    \<and> (\<exists>q\<in>set (bk_periods db'). pe_id q = pe_id p
          \<and> (pe_status p = ''closed'' \<longrightarrow> pe_status q = ''closed'') \<and> pe_status q \<in> {''submitted'', ''closed''})"
proof -
  have inv: "books_inv db" "all_stored db" using reach_inv [OF assms(1)] by simp_all
  note w = call_writes(1) [OF assms(3) inv(1) assms(2)]
  have stored: "store_reading r = r"
    by (rule map_fixed [OF conjunct1 [OF inv(2) [unfolded all_stored_def]] assms(4)])
  have k: "keys_unique db'" using books_writes [OF w inv(1)] by (simp add: books_inv_def)
  show ?thesis
  proof (cases "pe_status p = ''closed''")
    case closed: True
    have "reading_in_status {''closed''} db r"
      using assms(4-6) stored closed unfolding reading_in_status_def by blast
    moreover have "rd_id r \<notin> correctable c" using assms(7) by blast
    ultimately have "reading_in_status {''closed''} db' r" using frozen_writes [OF w inv(1), of "{''closed''}" r] by blast
    then show ?thesis using assms(6) unfolding reading_in_status_def by force
  next
    case False
    then have "reading_in_status {''submitted'', ''closed''} db r" and c: "correctable c = {}"
      using assms(4-7) stored unfolding reading_in_status_def by blast+
    then have "reading_in_status {''submitted'', ''closed''} db' r"
      using frozen_writes [OF w [unfolded c] inv(1), of "{''submitted'', ''closed''}" r] by blast
    then show ?thesis using assms(6) False unfolding reading_in_status_def by force
  qed
qed

lemma closed_readings_change_only_by_correction_witness:
  "run_acct (example_env 700) admin_one (Put_reading 200 ''2026-02'' (example_reading 30)) example_closed \<noteq> Inl Api_409
   \<and> hd (bk_readings example_closed) \<in> set (bk_readings
         (case run_acct (example_env 700) admin_one (Put_reading 200 ''2026-02'' (example_reading 30)) example_closed of Inr db \<Rightarrow> db))"
proof -
  let ?c = "Put_reading 200 ''2026-02'' (example_reading 30)"
  define db where "db = (case run_acct (example_env 700) admin_one ?c example_closed of Inr db \<Rightarrow> db | Inl _ \<Rightarrow> empty_books)"
  have "\<exists>db. run_acct (example_env 700) admin_one ?c example_closed = Inr db"
    by (rule exI [of _ "case run_acct (example_env 700) admin_one ?c example_closed of Inr db \<Rightarrow> db | Inl _ \<Rightarrow> empty_books"]) code_simp
  then have run: "run_acct (example_env 700) admin_one ?c example_closed = Inr db" by (auto simp: db_def)
  have r: "hd (bk_readings example_closed) \<in> set (bk_readings example_closed)"
    "hd (bk_periods example_closed) \<in> set (bk_periods example_closed)"
    "pe_id (hd (bk_periods example_closed)) = rd_period (hd (bk_readings example_closed))"
    "pe_status (hd (bk_periods example_closed)) = ''closed''" by code_simp+
  have "pe_status (hd (bk_periods example_closed)) = ''closed'' \<and> rd_id (hd (bk_readings example_closed)) \<notin> correctable ?c
     \<or> pe_status (hd (bk_periods example_closed)) \<in> {''submitted'', ''closed''} \<and> correctable ?c = {}"
    using r(4) by (simp add: correctable_def)
  from closed_readings_change_only_by_correction [OF example_closed_reach example_closed_fresh run r(1-3) this]
  show ?thesis using run by simp
qed





text \<open>C24: the registry is well formed.  An active meter stands in an active object of its tenant and no
  other active meter of the tenant has its normalized number; the parents of the objects are objects of
  the same tenant and never form a cycle.\<close>

lemma registry_well_formed:
  assumes "reach acct_init acct_step db"
  shows "(\<forall>m\<in>set (bk_meters db). me_status m = ''active'' \<longrightarrow>
       (\<exists>x\<in>set (bk_objects db). ro_id x = me_object m \<and> ro_tenant x = me_tenant m \<and> ro_active x)
       \<and> filter (\<lambda>x. me_tenant x = me_tenant m \<and> me_normalized x = me_normalized m \<and> me_status x = ''active'')
            (bk_meters db) = [m])
     \<and> (\<forall>x\<in>set (bk_objects db). \<forall>p. ro_parent x = Some p \<longrightarrow>
          (\<exists>y\<in>set (bk_objects db). ro_id y = p \<and> ro_tenant y = ro_tenant x))
     \<and> acyclic {(i, p). parent_of (bk_objects db) i = Some p}"
proof (intro conjI ballI impI)
  have inv: "books_inv db" using reach_inv [OF assms(1)] by simp
  then show "acyclic {(i, p). parent_of (bk_objects db) i = Some p}"
    by (simp add: books_inv_def forest_ok_def parent_rel_def)
  show "\<forall>p. ro_parent x = Some p \<longrightarrow> (\<exists>y\<in>set (bk_objects db). ro_id y = p \<and> ro_tenant y = ro_tenant x)"
    if "x \<in> set (bk_objects db)" for x
    using inv that unfolding books_inv_def forest_ok_def by blast
  fix m assume m: "m \<in> set (bk_meters db)" "me_status m = ''active''"
  then have ok: "number_free db m" "housed db m" using inv unfolding books_inv_def meters_ok_def by blast+
  then show "\<exists>x\<in>set (bk_objects db). ro_id x = me_object m \<and> ro_tenant x = me_tenant m \<and> ro_active x"
    by (simp add: housed_def)
  have d: "distinct (map me_id (bk_meters db))" using inv by (simp add: books_inv_def keys_unique_def)
  have "filter (\<lambda>x. me_tenant x = me_tenant m \<and> me_normalized x = me_normalized m \<and> me_status x = ''active'') (bk_meters db)
      = filter (\<lambda>x. me_id x = me_id m) (bk_meters db)"
  proof (rule filter_cong [OF refl])
    fix x assume x: "x \<in> set (bk_meters db)"
    show "(me_tenant x = me_tenant m \<and> me_normalized x = me_normalized m \<and> me_status x = ''active'') = (me_id x = me_id m)"
    proof
      assume "me_tenant x = me_tenant m \<and> me_normalized x = me_normalized m \<and> me_status x = ''active''"
      then show "me_id x = me_id m" using ok(1) x unfolding number_free_def by blast
    next
      assume "me_id x = me_id m"
      then have "x = m" using distinct_ids_inj [OF d x m(1)] by simp
      then show "me_tenant x = me_tenant m \<and> me_normalized x = me_normalized m \<and> me_status x = ''active''" using m(2) by simp
    qed
  qed
  then show "filter (\<lambda>x. me_tenant x = me_tenant m \<and> me_normalized x = me_normalized m \<and> me_status x = ''active'') (bk_meters db) = [m]"
    using filter_key [OF d m(1)] by simp
qed

lemma registry_well_formed_witness:
  "filter (\<lambda>x. me_tenant x = 1 \<and> me_normalized x = [49, 50] \<and> me_status x = ''active'') (bk_meters example_closed)
     = [hd (bk_meters example_closed)]"
proof -
  have m: "hd (bk_meters example_closed) \<in> set (bk_meters example_closed)" by code_simp
  have v: "me_status (hd (bk_meters example_closed)) = ''active''" "me_tenant (hd (bk_meters example_closed)) = 1"
    "me_normalized (hd (bk_meters example_closed)) = [49, 50]" by code_simp+
  from registry_well_formed [OF example_closed_reach, THEN conjunct1] m v(1)
  have "filter (\<lambda>x. me_tenant x = me_tenant (hd (bk_meters example_closed))
      \<and> me_normalized x = me_normalized (hd (bk_meters example_closed)) \<and> me_status x = ''active'') (bk_meters example_closed)
      = [hd (bk_meters example_closed)]" by blast
  then show ?thesis unfolding v .
qed

end
