(* ===== verification/AccountingReadings.thy ===== *)
theory AccountingReadings
  imports AccountingExamples
begin

section \<open>Resource accounting: baselines, corrections and the arithmetic of a consumption\<close>

text \<open>
  The two queries of the baseline agree; a correction recomputes every later reading of the meter
  against the baseline as it was accepted before the correction.
\<close>

subsection \<open>The two queries of the baseline\<close>

lemma latest_month_first:
  "latest_month xs = Some y \<Longrightarrow> y \<in> set xs \<and> (\<forall>x\<in>set xs. pe_month (snd x) \<le> pe_month (snd y))
     \<and> hd (filter (\<lambda>x. pe_month (snd x) = pe_month (snd y)) xs) = y"
proof (induction xs arbitrary: y)
  case (Cons x xs)
  show ?case
  proof (cases "latest_month xs")
    case None
    then have "xs = []" by (cases xs) (auto split: option.splits if_splits)
    then show ?thesis using Cons.prems by simp
  next
    case (Some z)
    note z = Cons.IH [OF Some]
    show ?thesis
    proof (cases "pe_month (snd x) < pe_month (snd z)")
      case True
      then have "y = z" using Cons.prems Some by simp
      then show ?thesis using z True by auto
    next
      case False
      then have "y = x" using Cons.prems Some by simp
      moreover have "pe_month (snd w) \<le> pe_month (snd x)" if "w \<in> set xs" for w using z that False by force
      ultimately show ?thesis by simp
    qed
  qed
qed simp

lemma latest_month_None: "latest_month xs = None \<longleftrightarrow> xs = []"
  by (cases xs) (auto split: option.splits if_splits)

lemma sorted_last: "sorted xs \<Longrightarrow> x \<in> set xs \<Longrightarrow> x \<le> last xs"
  by (induction xs) (auto split: if_splits)

lemma month_desc_first:
  assumes "latest_month xs = Some y"
  shows "\<exists>ys. month_desc xs = y # ys"
proof -
  define k :: "reading \<times> reporting_period \<Rightarrow> string" where "k = pe_month \<circ> snd"
  define s where "s = sort_key k (rev xs)"
  have y: "y \<in> set xs" "\<And>x. x \<in> set xs \<Longrightarrow> k x \<le> k y" "hd (filter (\<lambda>x. k x = k y) xs) = y"
    using latest_month_first [OF assms] by (simp_all add: k_def)
  have mem: "set s = set xs" by (simp add: s_def)
  then have ne: "s \<noteq> []" using y(1) by (cases s) auto
  have "k y \<le> last (map k s)" by (rule sorted_last) (use y(1) mem in \<open>simp_all add: s_def\<close>)
  then have "k y \<le> k (last s)" using ne by (simp add: last_map)
  moreover have "k (last s) \<le> k y" using y(2) mem last_in_set [OF ne] by simp
  ultimately have M: "k (last s) = k y" by simp
  have s: "s = butlast s @ [last s]" using ne by simp
  have "filter (\<lambda>x. k x = k y) s = filter (\<lambda>x. k x = k y) (rev xs)" unfolding s_def by (rule sort_key_stable)
  then have "filter (\<lambda>x. k x = k y) xs = rev (filter (\<lambda>x. k x = k y) s)" by (simp add: rev_filter [symmetric])
  also have "\<dots> = rev (filter (\<lambda>x. k x = k y) (butlast s @ [last s]))" by (simp only: s [symmetric])
  also have "\<dots> = last s # rev (filter (\<lambda>x. k x = k y) (butlast s))" using M by simp
  finally have "last s = y" using y(3) by simp
  then have "s = butlast s @ [y]" using s by simp
  then have "rev s = y # rev (butlast s)" by (metis rev_eq_Cons_iff rev_rev_ident)
  then show ?thesis unfolding month_desc_def s_def k_def by blast
qed

lemma first_numbered:
  "map fst (filter (\<lambda>(i, rn). rn = 1) (zip ys [1..<Suc (length ys)])) = take 1 ys"
proof (cases ys)
  case (Cons a as)
  have "filter (\<lambda>(i, rn). rn = 1) (zip as [Suc (Suc 0)..<Suc (Suc (length as))]) = []"
    by (auto simp: filter_empty_conv dest!: set_zip_rightD)
  then show ?thesis by (simp add: Cons upt_conv_Cons del: upt_Suc)
qed simp

lemma set_latest:
  "set (map fst (filter (\<lambda>(i, rn). rn = 1) (row_numbers ids xs)))
     = {rd_id r |r p m. m \<in> set ids \<and> latest_month (filter (\<lambda>(r, p). rd_meter r = m) xs) = Some (r, p)}"
proof -
  have part: "set (take 1 (map (rd_id \<circ> fst) (month_desc ys))) = {rd_id r |r p. latest_month ys = Some (r, p)}" for ys
  proof (cases "latest_month ys")
    case None
    then show ?thesis by (simp add: latest_month_None month_desc_def)
  next
    case (Some y)
    then obtain zs where "month_desc ys = y # zs" using month_desc_first by blast
    then show ?thesis using Some by (cases y) auto
  qed
  have "map fst (filter (\<lambda>(i, rn). rn = 1) (row_numbers ids xs))
      = concat (map (\<lambda>m. take 1 (map (rd_id \<circ> fst) (month_desc (filter (\<lambda>(r, p). rd_meter r = m) xs)))) (remdups ids))"
    unfolding row_numbers_def Let_def filter_concat map_concat map_map
    by (rule arg_cong [where f = concat], rule map_cong [OF refl])
      (use first_numbered [of "map (rd_id \<circ> fst) (month_desc (filter (\<lambda>(r, p). rd_meter r = _) xs))"] in simp)
  then have "set (map fst (filter (\<lambda>(i, rn). rn = 1) (row_numbers ids xs)))
      = (\<Union>m\<in>set ids. set (take 1 (map (rd_id \<circ> fst) (month_desc (filter (\<lambda>(r, p). rd_meter r = m) xs)))))"
    by (simp only: set_concat set_map set_remdups image_image)
  then show ?thesis unfolding part by blast
qed

text \<open>C25: the query for many meters agrees with the query for one.  For every meter of the list the
  ranked query of the worksheet and of an import finds the reading the single query finds: the accepted
  reading with a value of the latest earlier month.\<close>

lemma bulk_baseline_agrees:
  assumes "distinct (map rd_id rows)" "meter_id \<in> set ids"
  shows "get_previous_accepted_bulk periods rows ids month meter_id
       = get_previous_accepted periods rows rows meter_id month"
proof -
  define best where "best m = latest_month (filter (\<lambda>(r, p). rd_meter r = m) (baseline_rows periods rows month))" for m
  define latest where "latest = map fst (filter (\<lambda>(i, rn). rn = 1) (row_numbers ids (baseline_rows periods rows month)))"
  have latest: "set latest = {rd_id r |r p m. m \<in> set ids \<and> best m = Some (r, p)}"
    unfolding latest_def best_def by (rule set_latest)
  have best: "r \<in> set rows \<and> rd_meter r = m" if "best m = Some (r, p)" for m r p
    using latest_month_first [OF that [unfolded best_def]] joined_mem by (auto simp: baseline_rows_def)
  let ?assoc = "map (\<lambda>r. (rd_meter r, r)) (filter (\<lambda>r. rd_id r \<in> set latest) rows)"
  have only: "\<exists>p. best m = Some (r, p)" if mem: "(m, r) \<in> set ?assoc" for m r
  proof -
    have r: "r \<in> set rows" "rd_meter r = m" "rd_id r \<in> set latest" using mem by auto
    from r(3) obtain s p k where s: "rd_id r = rd_id s" "best k = Some (s, p)" unfolding latest by blast
    then have "s \<in> set rows" "rd_meter s = k" using best [OF s(2)] by simp_all
    then have "r = s" using distinct_ids_inj [OF assms(1) r(1) _ s(1)] by simp
    then show ?thesis using s(2) r(2) \<open>rd_meter s = k\<close> by auto
  qed
  have bulk: "get_previous_accepted_bulk periods rows ids month meter_id = map_of (rev ?assoc) meter_id"
    unfolding get_previous_accepted_bulk_def Let_def latest_def ..
  show ?thesis
  proof (cases "best meter_id")
    case None
    have "map_of (rev ?assoc) meter_id = None"
    proof (cases "map_of (rev ?assoc) meter_id")
      case (Some r)
      then have "(meter_id, r) \<in> set ?assoc" using map_of_SomeD by fastforce
      then show ?thesis using only None by fastforce
    qed
    then show ?thesis using None bulk by (simp add: get_previous_accepted_def best_def)
  next
    case (Some rp)
    obtain r p where rp: "rp = (r, p)" by fastforce
    have r: "r \<in> set rows" "rd_meter r = meter_id" using best Some rp by blast+
    have "rd_id r \<in> set latest" unfolding latest using assms(2) Some rp by blast
    then have mem: "(meter_id, r) \<in> set (rev ?assoc)" using r by (auto simp: image_iff)
    then obtain r' where r': "map_of (rev ?assoc) meter_id = Some r'" using weak_map_of_SomeI by fastforce
    then have "(meter_id, r') \<in> set ?assoc" using map_of_SomeD by fastforce
    then have "r' = r" using only [of meter_id r'] Some rp by auto
    then show ?thesis using bulk r' Some rp first_row_id [OF assms(1) r(1)]
      by (simp add: get_previous_accepted_def best_def)
  qed
qed

lemma bulk_baseline_agrees_witness:
  "map_option rd_value (get_previous_accepted_bulk (bk_periods example_closed) (bk_readings example_closed) [200] ''2026-02'' 200)
     = Some (Some (21 / 2))"
proof -
  have d: "distinct (map rd_id (bk_readings example_closed))" by code_simp
  have v: "map_option rd_value (get_previous_accepted (bk_periods example_closed) (bk_readings example_closed)
      (bk_readings example_closed) 200 ''2026-02'') = Some (Some (21 / 2))" by code_simp
  show ?thesis using bulk_baseline_agrees [OF d, of 200 "[200]" "bk_periods example_closed" "''2026-02''"] v by simp
qed

subsection \<open>What a correction recomputes\<close>

definition ids_values :: "reading list \<Rightarrow> (int \<times> rat option) list" where
  "ids_values rows = map (\<lambda>r. (rd_id r, rd_value r)) rows"

lemma ids_values_distinct: "ids_values A = ids_values B \<Longrightarrow> distinct (map rd_id A) = distinct (map rd_id B)"
proof -
  assume eq: "ids_values A = ids_values B"
  have "map fst (ids_values xs) = map rd_id xs" for xs by (simp add: ids_values_def)
  then show ?thesis using eq by metis
qed

lemma first_value:
  "ids_values A = ids_values B \<Longrightarrow>
   map_option (\<lambda>r. (rd_id r, rd_value r)) (first_row (\<lambda>s. rd_id s = i) A)
     = map_option (\<lambda>r. (rd_id r, rd_value r)) (first_row (\<lambda>s. rd_id s = i) B)"
proof (induction A arbitrary: B)
  case (Cons a A)
  then obtain b B' where "B = b # B'" by (cases B) (auto simp: ids_values_def)
  then show ?case using Cons by (auto simp: ids_values_def first_row_Cons)
qed (simp add: ids_values_def)

lemma baseline_value:
  assumes "ids_values A = ids_values B"
  shows "value_of (get_previous_accepted periods stored A i month) = value_of (get_previous_accepted periods stored B i month)"
proof -
  have "value_of (first_row (\<lambda>s. rd_id s = j) A) = value_of (first_row (\<lambda>s. rd_id s = j) B)" for j
    using first_value [OF assms, of j]
    by (cases "first_row (\<lambda>s. rd_id s = j) A"; cases "first_row (\<lambda>s. rd_id s = j) B") (auto simp: value_of_def)
  then show ?thesis by (simp add: get_previous_accepted_def value_of_def split: option.split prod.split)
qed

lemma first_put_row:
  assumes "list_ex (\<lambda>s. rd_id s = rd_id r) rows"
  shows "first_row (\<lambda>s. rd_id s = i) (put_row r rows)
       = (if i = rd_id r then Some r else first_row (\<lambda>s. rd_id s = i) rows)"
proof (cases "i = rd_id r")
  case True
  then show ?thesis unfolding put_row_map [OF assms] using assms by (induction rows) (auto simp: first_row_Cons)
next
  case False
  have "first_row (\<lambda>s. rd_id s = i) (map (\<lambda>s. if rd_id s = rd_id r then r else s) rows) = first_row (\<lambda>s. rd_id s = i) rows"
    using False by (induction rows) (auto simp: first_row_Cons)
  then show ?thesis unfolding put_row_map [OF assms] using False by simp
qed

lemma found_row: "first_row (\<lambda>s. rd_id s = i) session = Some r \<Longrightarrow> list_ex (\<lambda>s. rd_id s = rd_id r) session"
  by (auto dest!: first_row_Some simp: list_ex_iff)

lemma recomputed_row_values:
  assumes "first_row (\<lambda>s. rd_id s = i) session = Some r" "distinct (map rd_id session)" "rd_id r' = rd_id r" "rd_value r' = rd_value r"
  shows "ids_values (put_row r' session) = ids_values session"
  unfolding ids_values_def
  by (rule put_row_key [of r]) (use first_row_Some [OF assms(1)] assms in simp_all)

text \<open>A row of the later months is either passed over or evaluated anew.\<close>

lemma recompute_cases:
  assumes "recompute_rows today stored m ((row, p) # later) session = Inr rows"
  obtains "recompute_rows today stored m later session = Inr rows"
      "pe_status p = ''closed'' \<or> value_of (first_row (\<lambda>s. rd_id s = rd_id row) session) = None"
  | r v e where "first_row (\<lambda>s. rd_id s = rd_id row) session = Some r" "rd_value r = Some v"
      "evaluate_value today (bk_rules stored) (bk_periods stored) (bk_readings stored) m (pe_month p)
         (value_of (get_previous_accepted (bk_periods stored) (bk_readings stored) session (me_id m) (pe_month p)))
         v (rd_read_at r) (rd_kind r) = Inr e"
      "recompute_rows today stored m later (put_row (fill_evaluation e (r\<lparr>rd_previous :=
         value_of (get_previous_accepted (bk_periods stored) (bk_readings stored) session (me_id m) (pe_month p))\<rparr>)) session) = Inr rows"
  using assms by (auto simp: res_bind_Inr_iff Let_def value_of_def split: option.splits if_splits)

lemma recompute_keeps:
  "recompute_rows today stored m later session = Inr rows \<Longrightarrow> distinct (map rd_id session) \<Longrightarrow>
   ids_values rows = ids_values session
   \<and> (\<forall>i. i \<notin> (rd_id \<circ> fst) ` set later \<longrightarrow> first_row (\<lambda>s. rd_id s = i) rows = first_row (\<lambda>s. rd_id s = i) session)"
proof (induction later arbitrary: session)
  case (Cons x later)
  obtain row p where x: "x = (row, p)" by fastforce
  from Cons.prems(1) [unfolded x] show ?case
  proof (cases rule: recompute_cases)
    case 1
    then show ?thesis using Cons.IH [OF 1(1) Cons.prems(2)] by (auto simp: x)
  next
    case (2 r v e)
    let ?prev = "value_of (get_previous_accepted (bk_periods stored) (bk_readings stored) session (me_id m) (pe_month p))"
    let ?s = "fill_evaluation e (r\<lparr>rd_previous := ?prev\<rparr>)"
    have same: "ids_values (put_row ?s session) = ids_values session"
      by (rule recomputed_row_values [OF 2(1) Cons.prems(2)]) simp_all
    then have "distinct (map rd_id (put_row ?s session))" using ids_values_distinct Cons.prems(2) by blast
    note ih = Cons.IH [OF 2(4) this]
    have r: "rd_id r = rd_id row" using first_row_Some [OF 2(1)] by blast
    have ex: "list_ex (\<lambda>s. rd_id s = rd_id ?s) session" using found_row [OF 2(1)] by simp
    have "first_row (\<lambda>s. rd_id s = i) (put_row ?s session) = first_row (\<lambda>s. rd_id s = i) session" if "i \<noteq> rd_id row" for i
      using first_put_row [OF ex, of i] that r by simp
    then show ?thesis using ih same by (simp add: x)
  qed
qed simp

lemma recompute_settles:
  "recompute_rows today stored m later session = Inr rows \<Longrightarrow> distinct (map rd_id session) \<Longrightarrow>
   distinct (map (rd_id \<circ> fst) later) \<Longrightarrow> (row, p) \<in> set later \<Longrightarrow> pe_status p \<noteq> ''closed'' \<Longrightarrow>
   first_row (\<lambda>s. rd_id s = rd_id row) session = Some r \<Longrightarrow> rd_value r = Some v \<Longrightarrow>
   prev = value_of (get_previous_accepted (bk_periods stored) (bk_readings stored) rows (me_id m) (pe_month p)) \<Longrightarrow>
   \<exists>e. evaluate_value today (bk_rules stored) (bk_periods stored) (bk_readings stored) m (pe_month p)
         prev v (rd_read_at r) (rd_kind r) = Inr e
     \<and> first_row (\<lambda>s. rd_id s = rd_id row) rows = Some (fill_evaluation e (r\<lparr>rd_previous := prev\<rparr>))"
proof (induction later arbitrary: session)
  case (Cons x later)
  obtain row' p' where x: "x = (row', p')" by fastforce
  from Cons.prems(1) [unfolded x] show ?case
  proof (cases rule: recompute_cases)
    case 1
    then have "(row, p) \<noteq> (row', p')" using Cons.prems(5-7) by (auto simp: value_of_def)
    then show ?thesis using Cons.IH [OF 1(1) Cons.prems(2) _ _ Cons.prems(5-8)] Cons.prems(3,4) by (auto simp: x)
  next
    case (2 r' v' e)
    let ?prev = "value_of (get_previous_accepted (bk_periods stored) (bk_readings stored) session (me_id m) (pe_month p'))"
    let ?s = "fill_evaluation e (r'\<lparr>rd_previous := ?prev\<rparr>)"
    have same: "ids_values (put_row ?s session) = ids_values session"
      by (rule recomputed_row_values [OF 2(1) Cons.prems(2)]) simp_all
    then have d: "distinct (map rd_id (put_row ?s session))" using ids_values_distinct Cons.prems(2) by blast
    have r': "rd_id r' = rd_id row'" using first_row_Some [OF 2(1)] by blast
    have ex: "list_ex (\<lambda>s. rd_id s = rd_id ?s) session" using found_row [OF 2(1)] by simp
    note keeps = recompute_keeps [OF 2(4) d]
    show ?thesis
    proof (cases "(row, p) = (row', p')")
      case True
      then have eq: "r' = r" "v' = v" "p' = p" "row' = row" using 2(1,2) Cons.prems(6,7) by auto
      have "ids_values session = ids_values rows" using keeps same by simp
      then have prev: "?prev = prev" unfolding Cons.prems(8) eq by (rule baseline_value)
      have "rd_id row \<notin> (rd_id \<circ> fst) ` set later" using Cons.prems(3) by (simp add: x eq)
      then have "first_row (\<lambda>s. rd_id s = rd_id row) rows = first_row (\<lambda>s. rd_id s = rd_id row) (put_row ?s session)"
        using keeps by blast
      also have "\<dots> = Some ?s" using first_put_row [OF ex, of "rd_id row"] r' eq by simp
      finally show ?thesis using 2(3) prev eq by simp
    next
      case False
      then have mem: "(row, p) \<in> set later" using Cons.prems(4) unfolding x by auto
      then have "rd_id row \<noteq> rd_id row'" using Cons.prems(3) by (force simp: x)
      then have "first_row (\<lambda>s. rd_id s = rd_id row) (put_row ?s session) = Some r"
        using first_put_row [OF ex, of "rd_id row"] r' Cons.prems(6) by simp
      then show ?thesis using Cons.IH [OF 2(4) d _ mem Cons.prems(5) _ Cons.prems(7,8)] Cons.prems(3) by simp
    qed
  qed
qed simp

lemma joined_rows:
  assumes "s \<in> set rows" "q \<in> set periods" "pe_id q = rd_period s" "distinct (map pe_id periods)"
  shows "(s, q) \<in> set (joined periods rows)"
proof -
  have "first_row (\<lambda>p. pe_id p = rd_period s) periods = Some q"
    using first_row_id [OF assms(4,2)] assms(3) by simp
  then show ?thesis using assms(1) by (force simp: joined_def)
qed

lemma later_rows_distinct:
  assumes "distinct (map rd_id (bk_readings db))"
  shows "distinct (map (rd_id \<circ> fst) (later_rows db m month))"
proof -
  have "distinct (map (rd_id \<circ> fst) (joined periods rows))
      \<and> (rd_id \<circ> fst) ` set (joined periods rows) \<subseteq> rd_id ` set rows" if "distinct (map rd_id rows)" for periods rows
    using that by (induction rows) (auto simp: joined_def split: option.splits)
  then have "distinct (map (rd_id \<circ> fst) (joined (bk_periods db) (bk_readings db)))" using assms by blast
  then show ?thesis by (simp add: later_rows_def distinct_map inj_on_def)
qed

lemma session_values_stored:
  assumes "ids_values rows = ids_values (put_row r' old)" "map store_reading old = old"
    and "map_option store4 (rd_value r') = rd_value r'" "x \<in> set rows"
  shows "map_option store4 (rd_value x) = rd_value x"
proof -
  have "(rd_id x, rd_value x) \<in> set (ids_values rows)" using assms(4) by (auto simp: ids_values_def)
  then have "(rd_id x, rd_value x) \<in> set (ids_values (put_row r' old))" using assms(1) by simp
  then obtain y where y: "y \<in> set (put_row r' old)" "rd_value y = rd_value x" by (auto simp: ids_values_def)
  show ?thesis
  proof (cases "y = r'")
    case False
    then have "y \<in> set old" using put_row_members [OF y(1)] by simp
    then have "store_reading y = y" using assms(2) by (rule map_fixed [rotated])
    then show ?thesis using y(2) store_reading_simps(8) [of y] by simp
  qed (use y assms(3) in simp)
qed

lemma baseline_stored:
  assumes "\<And>x. x \<in> set rows \<Longrightarrow> map_option store4 (rd_value x) = rd_value x"
  shows "map_option store4 (value_of (get_previous_accepted periods stored rows i month))
       = value_of (get_previous_accepted periods stored rows i month)"
proof (cases "get_previous_accepted periods stored rows i month")
  case (Some x)
  then have "x \<in> set rows" by (auto simp: get_previous_accepted_def split: option.splits dest: first_row_mem)
  then show ?thesis using assms [of x] Some by (simp add: value_of_def)
qed (simp add: value_of_def)

text \<open>A reading that is not accepted is nobody's baseline, so its new value is not seen.\<close>

lemma unaccepted_unseen:
  assumes "ids_values rows = ids_values (put_row r' old)" "list_ex (\<lambda>s. rd_id s = rd_id r') old"
    and "distinct (map rd_id old)" "r \<in> set old" "rd_id r = rd_id r'" "\<not> accepted_status r"
  shows "value_of (get_previous_accepted periods old rows i month) = value_of (get_previous_accepted periods old old i month)"
proof -
  let ?xs = "filter (\<lambda>(r, p). rd_meter r = i) (baseline_rows periods old month)"
  show ?thesis
  proof (cases "latest_month ?xs")
    case (Some xp)
    obtain x p where xp: "xp = (x, p)" by fastforce
    have "x \<in> set old" "accepted_status x"
      using latest_month_first [OF Some] joined_mem by (auto simp: baseline_rows_def xp)
    then have "rd_id x \<noteq> rd_id r'" using distinct_ids_inj [OF assms(3) _ assms(4), of x] assms(5,6) by auto
    then have "first_row (\<lambda>s. rd_id s = rd_id x) (put_row r' old) = first_row (\<lambda>s. rd_id s = rd_id x) old"
      using first_put_row [OF assms(2)] by simp
    then have "value_of (get_previous_accepted periods old (put_row r' old) i month) = value_of (get_previous_accepted periods old old i month)"
      using Some xp by (simp add: get_previous_accepted_def)
    then show ?thesis using baseline_value [OF assms(1)] by simp
  qed (simp add: get_previous_accepted_def)
qed

text \<open>The row a correction writes.\<close>

definition corrected_reading :: "reading \<Rightarrow> rat \<Rightarrow> string \<Rightarrow> rat option \<Rightarrow> evaluation \<Rightarrow> utext \<Rightarrow> account \<Rightarrow> reading" where
  "corrected_reading r v kind prev e reason actor =
     r\<lparr>rd_value := Some v, rd_kind := kind, rd_previous := prev, rd_consumption := vl_consumption e, rd_status := vl_status e,
       rd_message := Some (Corrected reason (case vl_notes e of None \<Rightarrow> [] | Some ns \<Rightarrow> ns)), rd_updated_by := Some (ac_id actor)\<rparr>"

lemma correction_rows:
  assumes "create_correction env user i v reason kind db = Inr db'" "books_inv db"
  obtains r p m prev e rows where "r \<in> set (bk_readings db)" "rd_id r = i" "p \<in> set (bk_periods db)" "pe_id p = rd_period r"
    "m \<in> set (bk_meters db)" "me_id m = rd_meter r" "bk_readings db' = map store_reading rows"
    "recompute_forward (ev_today env) db m (pe_month p)
       (put_row (corrected_reading r v kind prev e reason user) (bk_readings db)) = Inr rows"
proof -
  from correction_call [OF assms] obtain r p m db1 where r: "r \<in> set (bk_readings db)" "rd_id r = i"
    and p: "p \<in> set (bk_periods db)" "pe_id p = rd_period r" and m: "m \<in> set (bk_meters db)" "me_id m = rd_meter r"
    and c: "apply_correction (ev_today env) (ev_now env) db r m p v reason kind user = Inr db1"
    and db': "db' = commit_books (write_audit user ''reading'' (rd_id r) ''correction'' [(''value'', Au_dec (rd_value r))]
                                  [(''value'', Au_dec (Some v)), (''reason'', Au_text reason)] db1)" by metis
  define prev where "prev = value_of (get_previous_accepted (bk_periods db) (bk_readings db) (bk_readings db) (me_id m) (pe_month p))"
  obtain e where e: "evaluate_value (ev_today env) (bk_rules db) (bk_periods db) (bk_readings db) m (pe_month p) prev v (rd_read_at r) kind = Inr e"
    using c by (auto simp: apply_correction_def Let_def res_bind_Inr_iff prev_def)
  obtain rows where rows: "recompute_forward (ev_today env) db m (pe_month p)
      (put_row (corrected_reading r v kind prev e reason user) (bk_readings db)) = Inr rows" "bk_readings db1 = rows"
    using c e by (auto simp: apply_correction_def Let_def res_bind_Inr_iff prev_def corrected_reading_def)
  have "bk_readings db' = map store_reading rows" by (simp add: db' rows(2))
  then show thesis using that r p m rows(1) by blast
qed

lemma evaluated_consumption_stored:
  assumes "evaluate_value today thresholds periods stored m month prev v d kind = Inr e" "0 \<le> me_coefficient m"
  shows "map_option store4 (vl_consumption e) = vl_consumption e"
  using assms
proof (cases rule: evaluate_cases)
  case (accepted c)
  then have "\<exists>x. quantize4 x = Some c"
    by (auto simp: compute_consumption_def quantized_Inr split: option.splits if_splits)
  then show ?thesis using accepted(2) quantize4_stored by auto
qed simp



end
