(* ===== verification/AccountingArithmetic.thy ===== *)
theory AccountingArithmetic
  imports AccountingRuns
begin

section \<open>Resource accounting: the arithmetic of a consumption\<close>

text \<open>
  A consumption is computed in a context of 28 digits and rounded to four places; here is its distance
  from the exact product.
\<close>

text \<open>The consumption without rounding, and numbers of four places.\<close>

definition exact_consumption :: "rat option \<Rightarrow> rat \<Rightarrow> rat \<Rightarrow> string \<Rightarrow> nat option \<Rightarrow> rat" where
  "exact_consumption previous current coefficient kind max_digits =
     (case previous of
        None \<Rightarrow> current * coefficient
      | Some p \<Rightarrow>
          if kind = ''replacement'' then current * coefficient
          else if kind = ''rollover'' then (10 ^ (case max_digits of None \<Rightarrow> 0 | Some d \<Rightarrow> d) - p + current) * coefficient
          else (current - p) * coefficient)"

definition places4 :: "rat \<Rightarrow> bool" where
  "places4 x \<longleftrightarrow> store4 x = x"

lemma places4_iff: "places4 x \<longleftrightarrow> (\<exists>n. x = of_int n / 10000)"
proof
  assume "places4 x"
  then show "\<exists>n. x = of_int n / 10000" unfolding places4_def store4_def by metis
next
  assume "\<exists>n. x = of_int n / 10000"
  then show "places4 x" by (elim exE) (simp only: places4_def store4_scaled)
qed

lemma places4_closed: "places4 x \<Longrightarrow> places4 y \<Longrightarrow> places4 (x + y)" "places4 x \<Longrightarrow> places4 y \<Longrightarrow> places4 (x - y)"
  unfolding places4_iff by (metis add_divide_distrib of_int_add) (metis diff_divide_distrib of_int_diff)

lemma places4_power [simp]: "places4 (10 ^ d)"
  unfolding places4_iff by (rule exI [of _ "10 ^ d * 10000"]) simp

lemma dec_places4:
  assumes "places4 x" "\<bar>x\<bar> < 10 ^ 24"
  shows "dec x = x"
proof -
  obtain n where n: "x = of_int n / 10000" using assms(1) by (auto simp: places4_iff)
  have "(of_int \<bar>n\<bar> :: rat) = \<bar>x\<bar> * 10000" by (simp add: n)
  also have "\<dots> < 10 ^ 24 * 10000" using assms(2) by simp
  finally have "(of_int \<bar>n\<bar> :: rat) < of_int (10 ^ 28)" by simp
  then have "\<bar>n\<bar> < 10 ^ 28" by (simp only: of_int_less_iff)
  then show ?thesis by (intro dec_exact [of x 4 n]) (simp_all add: n pow10_def)
qed

lemma dec_product:
  assumes "places4 x" "places4 y" "\<bar>x * y\<bar> < 10 ^ 20"
  shows "dec (x * y) = x * y"
proof -
  obtain n k where n: "x = of_int n / 10000" "y = of_int k / 10000" using assms(1,2) by (auto simp: places4_iff)
  have p: "x * y = of_int (n * k) / 10 ^ 8" by (simp add: n)
  have q: "(of_int (n * k) :: rat) = x * y * 10 ^ 8" by (simp add: p)
  have "(of_int \<bar>n * k\<bar> :: rat) = \<bar>x * y * 10 ^ 8\<bar>" by (simp only: of_int_abs q)
  also have "\<dots> = \<bar>x * y\<bar> * 10 ^ 8" by (simp add: abs_mult)
  also have "\<dots> < 10 ^ 20 * 10 ^ 8" using assms(3) by (intro mult_strict_right_mono) simp_all
  finally have "(of_int \<bar>n * k\<bar> :: rat) < of_int (10 ^ 28)" by simp
  then have "\<bar>n * k\<bar> < 10 ^ 28" by (simp only: of_int_less_iff)
  then show ?thesis by (intro dec_exact [of "x * y" 8 "n * k"]) (simp_all add: p pow10_def)
qed

lemma small_sums:
  fixes y p c :: rat
  assumes "0 \<le> y" "y \<le> 10 ^ 18" "\<bar>p\<bar> < 10 ^ 14" "\<bar>c\<bar> < 10 ^ 14"
  shows "\<bar>y - p\<bar> < 10 ^ 24 \<and> \<bar>y - p + c\<bar> < 10 ^ 24"
  using assms by (auto simp: abs_less_iff)

text \<open>C26: the error of a consumption.  For readings and a coefficient of four places the differences and
  the product are exact in the 28 digits of the decimal context as long as the product is below 10 to
  the 20, a million times what the column holds; then the computed consumption is within half a unit of
  its fourth place of the exact one, for a first reading, a normal one, a replacement and a rollover.\<close>

lemma consumption_within_half_unit:
  assumes "compute_consumption previous current coefficient kind max_digits = Inr c"
    and "case previous of None \<Rightarrow> True | Some p \<Rightarrow> places4 p \<and> \<bar>p\<bar> < 10 ^ 14"
    and "places4 current" "\<bar>current\<bar> < 10 ^ 14" "places4 coefficient"
    and "case max_digits of None \<Rightarrow> True | Some d \<Rightarrow> d \<le> 18"
    and "\<bar>exact_consumption previous current coefficient kind max_digits\<bar> < 10 ^ 20"
  shows "\<bar>c - exact_consumption previous current coefficient kind max_digits\<bar> \<le> 1 / 20000 \<and> places4 c"
proof -
  let ?exact = "exact_consumption previous current coefficient kind max_digits"
  have "\<exists>x. dec (x * coefficient) = ?exact \<and> quantize4 (dec (x * coefficient)) = Some c"
  proof (cases "previous = None \<or> kind = ''replacement''")
    case True
    then have e: "?exact = current * coefficient" by (auto simp: exact_consumption_def split: option.split)
    have "quantize4 (dec (current * coefficient)) = Some c"
      using assms(1) True by (auto simp: compute_consumption_def dec_mul_def quantized_Inr split: option.splits)
    then show ?thesis using dec_product [OF assms(3,5)] assms(7) e by auto
  next
    case False
    then obtain p where p: "previous = Some p" and k: "kind \<noteq> ''replacement''" by auto
    then have pp: "places4 p" "\<bar>p\<bar> < 10 ^ 14" using assms(2) by simp_all
    show ?thesis
    proof (cases "kind = ''rollover''")
      case True
      then obtain d where d: "max_digits = Some d" "d \<le> 18" using assms(1,6) p by (cases max_digits) (auto simp: compute_consumption_def)
      have cap: "0 \<le> (10 ^ d :: rat)" "(10 ^ d :: rat) \<le> 10 ^ 18" using power_increasing [OF d(2), of "10 :: rat"] by simp_all
      have p1: "places4 (10 ^ d - p)" by (rule places4_closed(2) [OF places4_power pp(1)])
      have p2: "places4 (10 ^ d - p + current)" by (rule places4_closed(1) [OF p1 assms(3)])
      have small: "\<bar>10 ^ d - p\<bar> < 10 ^ 24" "\<bar>10 ^ d - p + current\<bar> < 10 ^ 24"
        using small_sums [OF cap pp(2) assms(4)] by blast+
      have e: "?exact = (10 ^ d - p + current) * coefficient" using True p d(1) k by (simp add: exact_consumption_def)
      have "quantize4 (dec (dec (dec (10 ^ d - p) + current) * coefficient)) = Some c"
        using assms(1) True p d(1) by (auto simp: compute_consumption_def dec_mul_def dec_add_def dec_sub_def quantized_Inr split: if_splits)
      then have "quantize4 (dec ((10 ^ d - p + current) * coefficient)) = Some c"
        unfolding dec_places4 [OF p1 small(1)] dec_places4 [OF p2 small(2)] .
      then show ?thesis using dec_product [OF p2 assms(5)] assms(7) e by auto
    next
      case False
      have p1: "places4 (current - p)" by (rule places4_closed(2) [OF assms(3) pp(1)])
      have small: "\<bar>current - p\<bar> < 10 ^ 24" using pp(2) assms(4) by (simp add: abs_less_iff)
      have e: "?exact = (current - p) * coefficient" using False p k by (simp add: exact_consumption_def)
      have "quantize4 (dec (dec (current - p) * coefficient)) = Some c"
        using assms(1) False p k by (simp add: compute_consumption_def dec_mul_def dec_sub_def quantized_Inr)
      then have "quantize4 (dec ((current - p) * coefficient)) = Some c" unfolding dec_places4 [OF p1 small] .
      then show ?thesis using dec_product [OF p1 assms(5)] assms(7) e by auto
    qed
  qed
  then obtain x where x: "dec (x * coefficient) = ?exact" "quantize4 (dec (x * coefficient)) = Some c" by blast
  then have "quantize4 ?exact = Some c" by simp
  then show ?thesis using quantize4_near quantize4_stored by (simp add: places4_def)
qed

lemma consumption_within_half_unit_witness:
  "\<bar>1290 - exact_consumption (Some 999990) (21 / 2) (60 + 1 / 2) ''rollover'' (Some 6)\<bar> \<le> 1000
   \<and> (\<exists>c. compute_consumption (Some 999990) (21 / 2) (60 + 1 / 2) ''rollover'' (Some 6) = Inr c
        \<and> \<bar>c - exact_consumption (Some 999990) (21 / 2) (60 + 1 / 2) ''rollover'' (Some 6)\<bar> \<le> 1 / 20000)"
proof -
  have c: "compute_consumption (Some 999990) (21 / 2) (60 + 1 / 2) ''rollover'' (Some 6) = Inr (4961 / 4)" by code_simp
  have h: "case Some (999990 :: rat) of None \<Rightarrow> True | Some p \<Rightarrow> places4 p \<and> \<bar>p\<bar> < 10 ^ 14"
    "places4 (21 / 2)" "\<bar>21 / 2 :: rat\<bar> < 10 ^ 14" "places4 (60 + 1 / 2)"
    "case Some (6::nat) of None \<Rightarrow> True | Some d \<Rightarrow> d \<le> 18"
    "\<bar>exact_consumption (Some 999990) (21 / 2) (60 + 1 / 2) ''rollover'' (Some 6)\<bar> < 10 ^ 20" by code_simp+
  have "\<bar>1290 - exact_consumption (Some 999990) (21 / 2) (60 + 1 / 2) ''rollover'' (Some 6)\<bar> \<le> 1000" by code_simp
  then show ?thesis using consumption_within_half_unit [OF c h] c by blast
qed

end
