(* ===== verification/WorkflowTheorems.thy ===== *)
theory WorkflowTheorems
  imports WorkflowExamples
begin

section \<open>The theorems on the request workflow\<close>

text \<open>
  The properties of the workflow, stated on the model's own definitions, each with a witness on
  the example database.  The proofs rest on the interpretations \<open>workflow\<close> and
  \<open>workflow_run\<close> and on the lemmas of the component theories.
\<close>

lemma reach_row:
  "reach wf_initial (wf_step cfg) db \<Longrightarrow> db_requests db num = Some r \<Longrightarrow>
   row_inv num r \<and> assign_inv db num r \<and> rating_inv db num r \<and> outbox_inv cfg db num r"
  by (drule workflow.inv_reach) (rule wf_invD)

lemma ex_requests_of_status:
  "ex_status db = Some s \<Longrightarrow> \<exists>r. db_requests db ex_number = Some r \<and> row_status r = s"
  by (auto simp: ex_status_def)

text \<open>C1: in every reachable database a request in progress has an executor, and its stored
  status is its canonical status.\<close>

theorem in_progress_has_executor:
  assumes "reach wf_initial (wf_step cfg) db" "db_requests db num = Some r"
  shows "normalize_status (new_state_from r) = row_status r \<and>
         (row_status r = St_InProgress \<longrightarrow> row_executor r \<noteq> None)"
  using reach_row [OF assms] normalize_canonical_flags [of "new_state_from r"]
  by (auto simp: row_inv_def)

lemma in_progress_has_executor_witness:
  "\<exists>r. db_requests ex_assigned ex_number = Some r \<and> row_status r = St_InProgress \<and>
       row_executor r \<noteq> None"
proof -
  have reach: "reach wf_initial (wf_step ex_cfg) ex_assigned"
    unfolding ex_assigned_def by (rule ex_reach_do [OF ex_reach_db ex_assigned_ok])
  obtain r where r: "db_requests ex_assigned ex_number = Some r" "row_status r = St_InProgress"
    using ex_requests_of_status [OF ex_assigned_status] by blast
  show ?thesis using in_progress_has_executor [OF reach r(1)] r by simp
qed

text \<open>C2: in every reachable database a request has at most one active assignment, and that
  assignment names the executor and the type the request row names; a cancelled request has
  none.\<close>

theorem active_assignment_mirrors_request:
  assumes "reach wf_initial (wf_step cfg) db" "db_requests db num = Some r"
    and "a \<in> set (req_active db num)"
  shows "req_active db num = [a] \<and> as_executor a = row_executor r \<and>
         rq_cols r F_assignment_type = VStr (as_type a) \<and>
         (as_type a = ''group'' \<longleftrightarrow> as_executor a = None) \<and> row_status r \<noteq> St_Cancelled"
proof -
  have inv: "assign_inv db num r" using reach_row [OF assms(1,2)] by simp
  then have "req_active db num = [a]"
    using assms(3) by (cases "req_active db num") (auto simp: assign_inv_def)
  then show ?thesis using inv by (auto simp: assign_inv_def mirrors_def)
qed

lemma active_assignment_mirrors_request_witness:
  "\<exists>r a. db_requests ex_assigned ex_number = Some r \<and> req_active ex_assigned ex_number = [a] \<and>
         as_executor a = row_executor r"
proof -
  have reach: "reach wf_initial (wf_step ex_cfg) ex_assigned"
    unfolding ex_assigned_def by (rule ex_reach_do [OF ex_reach_db ex_assigned_ok])
  obtain r where r: "db_requests ex_assigned ex_number = Some r"
    using ex_requests_of_status [OF ex_assigned_status] by blast
  have "req_active ex_assigned ex_number \<noteq> []" by code_simp
  then obtain a where "a \<in> set (req_active ex_assigned ex_number)" by (meson list.set_sel(1))
  then show ?thesis using active_assignment_mirrors_request [OF reach r] r by blast
qed

text \<open>C4: along every run an accepted or cancelled request is frozen, no request disappears, no
  status version falls and no audit row is lost.\<close>

theorem terminal_requests_frozen:
  assumes "reach wf_initial (wf_step cfg) s" "(wf_step cfg)\<^sup>*\<^sup>* s t"
    and "db_requests s num = Some r"
  shows "\<exists>r' tail. db_requests t num = Some r' \<and> row_version r \<le> row_version r' \<and>
           (is_terminal (row_status r) \<longrightarrow> r' = r) \<and> db_audit t = db_audit s @ tail"
proof -
  have "wf_rel s t"
    using workflow_run.rel_run [OF good_run [OF assms(2) workflow.inv_reach [OF assms(1)]]] .
  then show ?thesis using assms(3) unfolding wf_rel_def by metis
qed

definition ex_cancelled :: wf_db where
  "ex_cancelled = ex_do (ex_principal 1) (ex_command CANCEL []) (ex_db ''resident'')"

lemma ex_principal_1_manager: "\<not> ex_ok (ex_principal 1) ex_assign (ex_db ''resident'')"
  by code_simp

lemma ex_cancelled_ok: "ex_ok (ex_principal 1) (ex_command CANCEL []) (ex_db ''resident'')"
  by code_simp

lemma terminal_requests_frozen_witness:
  "\<exists>r. db_requests ex_cancelled ex_number = Some r \<and> is_terminal (row_status r) \<and>
       (\<exists>r' tail. db_requests ex_cancelled ex_number = Some r' \<and> row_version r \<le> row_version r' \<and>
           (is_terminal (row_status r) \<longrightarrow> r' = r) \<and> db_audit ex_cancelled = db_audit ex_cancelled @ tail)"
proof -
  have reach: "reach wf_initial (wf_step ex_cfg) ex_cancelled"
    unfolding ex_cancelled_def by (rule ex_reach_do [OF ex_reach_db ex_cancelled_ok])
  have "ex_status ex_cancelled = Some St_Cancelled" by code_simp
  then obtain r where r: "db_requests ex_cancelled ex_number = Some r" "row_status r = St_Cancelled"
    using ex_requests_of_status by blast
  show ?thesis
    using terminal_requests_frozen [OF reach rtranclp.rtrancl_refl r(1)] r
    by (auto simp: is_terminal_iff)
qed

text \<open>C3: the commands of the runner implement the status graph: a successful command leaves the
  request where it was or moves it along an edge of the graph.\<close>

theorem run_command_refines_graph:
  assumes "reach wf_initial (wf_step cfg) db" "db_requests db num = Some r"
    and "run_command_sync cfg wall now num prin command db = Inr (out, db')"
  shows "\<exists>r'. db_requests db' num = Some r' \<and>
           (oc_no_op out \<and> db' = db \<or> (row_status r, row_status r') \<in> set legal_edges)"
proof (rule run_request_after [OF assms(3) workflow.inv_reach [OF assms(1)] assms(2)])
  assume "db' = db" "oc_no_op out"
  then show ?thesis using assms(2) by simp
next
  fix actor cmd result r'
  assume "db_requests db' = (db_requests db)(num \<mapsto> r')"
    "row_status r \<in> set (sp_from (action_table (cmd_action cmd)))"
    "row_status r' = effective_to_status (cmd_action cmd) (sp_to (action_table (cmd_action cmd)))
         (build_snapshot_sync db wall r actor)"
  then show ?thesis using action_edge by simp
qed

lemma run_command_refines_graph_witness:
  "\<exists>r'. db_requests ex_assigned ex_number = Some r' \<and> (St_New, row_status r') \<in> set legal_edges"
proof -
  obtain out where run: "run_command_sync ex_cfg 50 60 ex_number (ex_principal 2) ex_assign
      (ex_db ''resident'') = Inr (out, ex_assigned)"
    using ex_runs [OF ex_assigned_ok] unfolding ex_assigned_def by blast
  have "\<exists>r'. db_requests ex_assigned ex_number = Some r' \<and>
      (oc_no_op out \<and> ex_assigned = ex_db ''resident'' \<or>
       (row_status (ex_row ''resident''), row_status r') \<in> set legal_edges)"
    by (rule run_command_refines_graph [OF ex_reach_db _ run])
      (simp add: ex_db_def store_request_def ex_row_def)
  moreover have "row_status (ex_row ''resident'') = St_New"
    by (simp add: ex_row_def ex_cols_def row_status_def)
  moreover have "ex_status ex_assigned = Some St_InProgress" by (rule ex_assigned_status)
  ultimately show ?thesis by (auto simp: ex_status_def legal_edges_def)
qed

text \<open>A successful command raises the status version by one exactly when the stored status
  changed.\<close>

theorem status_version_counts_changes:
  assumes "reach wf_initial (wf_step cfg) db" "db_requests db num = Some r"
    and "run_command_sync cfg wall now num prin command db = Inr (out, db')"
  shows "\<exists>r'. db_requests db' num = Some r' \<and>
           row_version r' = row_version r + (if row_status r' \<noteq> row_status r then 1 else 0)"
proof (rule run_request_after [OF assms(3) workflow.inv_reach [OF assms(1)] assms(2)])
  assume "db' = db"
  then show ?thesis using assms(2) by simp
next
  fix actor result r'
  assume "r' = patched_row actor now result r" "db_requests db' = (db_requests db)(num \<mapsto> r')"
  then show ?thesis using patched_row_version [of actor now result r] by simp
qed

lemma status_version_counts_changes_witness:
  "\<exists>r'. db_requests ex_assigned ex_number = Some r' \<and> row_version r' = 1"
proof -
  obtain out where run: "run_command_sync ex_cfg 50 60 ex_number (ex_principal 2) ex_assign
      (ex_db ''resident'') = Inr (out, ex_assigned)"
    using ex_runs [OF ex_assigned_ok] unfolding ex_assigned_def by blast
  have r: "db_requests (ex_db ''resident'') ex_number = Some (ex_row ''resident'')"
    by (simp add: ex_db_def store_request_def ex_row_def)
  obtain r' where "db_requests ex_assigned ex_number = Some r'"
    "row_version r' = row_version (ex_row ''resident'') +
       (if row_status r' \<noteq> row_status (ex_row ''resident'') then 1 else 0)"
    using status_version_counts_changes [OF ex_reach_db r run] by blast
  moreover have "ex_status ex_assigned = Some St_InProgress" by (rule ex_assigned_status)
  moreover have "row_version (ex_row ''resident'') = 0" "row_status (ex_row ''resident'') = St_New"
    by (simp_all add: ex_row_def ex_cols_def row_status_def row_version_def)
  ultimately show ?thesis by (auto simp: ex_status_def)
qed

lemma audit_of_events:
  "List.map_filter (\<lambda>ev. case ev of EvAudit d \<Rightarrow> Some d | _ \<Rightarrow> None) (build_events act prin st to p) =
     [\<lparr>au_action = act, au_old_canon = normalize_status st, au_new_canon = to,
       au_old_raw = rs_status st, au_principal_kind = pr_kind prin,
       au_principal_id = principal_id_of prin, au_source = pr_source prin,
       au_payload = safe_payload p\<rparr>]"
  by (simp add: build_events_def Let_def map_filter_simps)

text \<open>Every successful command that is not a no-op leaves exactly one audit row, which names
  the request, the stored status after the command and the canonical status before, and whose
  payload holds none of the free text or media fields.\<close>

theorem one_audit_row_per_command:
  assumes "reach wf_initial (wf_step cfg) db" "db_requests db num = Some r"
    and "run_command_sync cfg wall now num prin command db = Inr (out, db')"
  shows "if oc_no_op out then db_audit db' = db_audit db
         else \<exists>row. db_audit db' = db_audit db @ [row] \<and> al_request row = num \<and>
                au_old_raw (al_data row) = row_status r \<and>
                al_new_status row = oc_new_status out \<and>
                fst ` set (au_payload (al_data row)) \<subseteq> set safe_payload_keys"
  using assms(3)
proof (cases rule: run_InrE)
  case no_op
  then show ?thesis by simp
next
  case (planned req actor cmd result req' db1)
  have r: "req = r" using planned(1) assms(2) by simp
  have n: "rq_number r = num" using reach_row [OF assms(1,2)] by (simp add: row_inv_def)
  have "db_audit db1 = db_audit db" using apply_domain_ops_frame [OF planned(7)] by simp
  then have audit: "db_audit db' = db_audit db @ [build_audit
      \<lparr>au_action = cmd_action cmd, au_old_canon = normalize_status (new_state_from r),
       au_new_canon = tr_new_canon result, au_old_raw = row_status r,
       au_principal_kind = pr_kind prin, au_principal_id = principal_id_of prin,
       au_source = pr_source prin, au_payload = safe_payload (cmd_payload cmd)\<rparr> req' actor]"
    using apply_events_audit [OF planned(8)] plan_parts(5) [OF planned(4)] r
    by (simp add: audit_of_events)
  have "fst ` set (safe_payload (cmd_payload cmd)) \<subseteq> set safe_payload_keys"
    using safe_payload_keys_only by fastforce
  then show ?thesis
    using audit planned(5,6,10) n r
    by (simp add: build_audit_def build_outcome_def Let_def)
qed

lemma one_audit_row_per_command_witness:
  "\<exists>row. db_audit ex_assigned = [row] \<and> al_request row = ex_number"
proof -
  obtain out where run: "run_command_sync ex_cfg 50 60 ex_number (ex_principal 2) ex_assign
      (ex_db ''resident'') = Inr (out, ex_assigned)"
    using ex_runs [OF ex_assigned_ok] unfolding ex_assigned_def by blast
  have r: "db_requests (ex_db ''resident'') ex_number = Some (ex_row ''resident'')"
    by (simp add: ex_db_def store_request_def ex_row_def)
  have "db_audit ex_assigned \<noteq> []" by code_simp
  moreover have "db_audit (ex_db ''resident'') = []"
    by (simp add: ex_db_def ex_empty_def)
  ultimately show ?thesis
    using one_audit_row_per_command [OF ex_reach_db r run] by (auto split: if_splits)
qed

text \<open>Once an executor has taken a request from the pool, every later attempt to take it or
  to promote it, by any principal and with any payload, is refused.\<close>

theorem claimed_request_stays_claimed:
  assumes "reach wf_initial (wf_step cfg) db"
    and "run_command_sync cfg wall now num prin
           (Explicit \<lparr>cmd_id = i, cmd_action = EXECUTOR_CLAIM, cmd_payload = p\<rparr>) db = Inr (out, db')"
    and "act \<in> {EXECUTOR_CLAIM, SYSTEM_AUTO_PROMOTE}"
  shows "\<exists>e. run_command_sync cfg wall' now' num prin'
           (Explicit \<lparr>cmd_id = i', cmd_action = act, cmd_payload = p'\<rparr>) db' = Inl e"
proof -
  obtain r where r: "db_requests db num = Some r"
    using assms(2) by (auto simp: run_command_sync_def split: option.splits)
  have inv: "wf_inv cfg db" by (rule workflow.inv_reach [OF assms(1)])
  have "\<exists>r'. db_requests db' num = Some r' \<and> row_executor r' \<noteq> None"
    using assms(2)
  proof (cases rule: run_InrE)
    case (no_op req actor cmd)
    then show ?thesis
      by (auto simp: resolve_given_def check_repeat_def spec_def Let_def split: if_splits)
  next
    case (planned req actor cmd result req' db1)
    have cmd: "cmd = \<lparr>cmd_id = i, cmd_action = EXECUTOR_CLAIM, cmd_payload = p\<rparr>"
      using planned(3) by (simp add: resolve_given_def)
    have "ac_kind actor = User"
      using executor_can_claimD(1) [of _ actor] allowed_authorized [OF plan_parts(2) [OF planned(4)]]
      by (auto simp: cmd spec_def)
    then obtain u where "ac_user_id actor = Some u" using load_actor_user(2) [OF planned(2)] by auto
    then have "row_executor req' = Some u"
      using row_executor_after(1) [OF planned(4), of now req] planned(6)
      by (simp add: cmd executor_after_def opt_int_val_def)
    moreover have "rq_number req' = num"
      using planned(1,6) wf_invD [OF inv planned(1)] by (simp add: row_inv_def)
    then have "db_requests db' num = Some req'"
      using apply_domain_ops_frame [OF planned(7)] apply_events_frame [OF planned(8)] by simp
    ultimately show ?thesis by simp
  qed
  then show ?thesis
    using claim_needs_free_request [OF run_keeps_inv [OF assms(2) inv]] assms(3)
    by (metis action_command.select_convs(2))
qed

definition ex_grouped :: wf_db where
  "ex_grouped =
     ex_do (ex_principal 2) (ex_command ASSIGN_GROUP [(''group'', VStr ''plumber'')]) (ex_db ''resident'')"

definition ex_claimed :: wf_db where
  "ex_claimed = ex_do (ex_principal 3) (ex_command EXECUTOR_CLAIM []) ex_grouped"

lemma ex_grouped_ok:
  "ex_ok (ex_principal 2) (ex_command ASSIGN_GROUP [(''group'', VStr ''plumber'')]) (ex_db ''resident'')"
  by code_simp

lemma ex_claimed_ok: "ex_ok (ex_principal 3) (ex_command EXECUTOR_CLAIM []) ex_grouped"
  by code_simp

lemma ex_reach_grouped: "reach wf_initial (wf_step ex_cfg) ex_grouped"
  unfolding ex_grouped_def by (rule ex_reach_do [OF ex_reach_db ex_grouped_ok])

lemma claimed_request_stays_claimed_witness:
  "ex_status ex_claimed = Some St_InProgress \<and>
   (\<exists>e. run_command_sync ex_cfg 50 60 ex_number (ex_principal 4)
          (Explicit \<lparr>cmd_id = ''d'', cmd_action = EXECUTOR_CLAIM, cmd_payload = []\<rparr>) ex_claimed = Inl e)"
proof -
  obtain out where run: "run_command_sync ex_cfg 50 60 ex_number (ex_principal 3)
      (Explicit \<lparr>cmd_id = ''c'', cmd_action = EXECUTOR_CLAIM, cmd_payload = []\<rparr>) ex_grouped =
        Inr (out, ex_claimed)"
    using ex_runs [OF ex_claimed_ok] unfolding ex_claimed_def ex_command_def by blast
  have "ex_status ex_claimed = Some St_InProgress" by code_simp
  then show ?thesis
    using claimed_request_stays_claimed [OF ex_reach_grouped run, of EXECUTOR_CLAIM] by blast
qed

end
