(* ===== verification/WorkflowTheorems2.thy ===== *)
theory WorkflowTheorems2
  imports WorkflowTheorems
begin

section \<open>Theorems on events, authorization and resolution\<close>

text \<open>
  The second group of workflow properties: the webhook a public status change owes, ratings,
  manager acceptance, system actors, group addressing, the exact success condition of a plan,
  the resolution of status commands, the parity of the two runners, and the skill dictionary.
\<close>

lemma run_no_op:
  "run_command_sync cfg wall now num prin command db = Inr (out, db') \<Longrightarrow> oc_no_op out \<Longrightarrow> db' = db"
  by (erule run_InrE) (simp_all add: build_outcome_def Let_def)

lemma apply_build_events:
  "apply_events cfg wall actor req (build_events act prin st to p) db = Inr db' \<Longrightarrow>
   (if public_of_canon to = project_public_status st then db_outbox db' = db_outbox db
    else emit_request_status_changed (rn_outbox cfg) wall (rs_number st) (project_public_status st)
           (public_of_canon to) (Some \<lparr>ei_version = rq_status_version req, ei_repair = None\<rparr>)
           (db_outbox db) = Inr (db_outbox db'))"
  by (auto simp: build_events_def Let_def split: sum.splits if_splits)

lemma project_public_canonical:
  "flags_canonical st \<Longrightarrow> project_public_status st = public_of_canon (rs_status st)"
  by (simp add: project_public_status_def normalize_canonical_flags public_of_canon_def Let_def)

text \<open>A successful command that changes the public status appends exactly one outbox row, with
  the old and the new public status and a version no earlier row of the request has, so the
  conflict rule of the outbox never swallows it; a command that does not change the public status
  appends none.\<close>

theorem webhook_never_swallowed:
  assumes "reach wf_initial (wf_step cfg) db" "db_requests db num = Some r"
    and "os_enabled (rn_outbox cfg)"
    and "run_command_sync cfg wall now num prin command db = Inr (out, db')"
  shows "\<exists>r'. db_requests db' num = Some r' \<and>
           db_outbox db' = db_outbox db @
             (if oc_public out = project_public_status (oc_old_state out) then []
              else [status_changed_row (os_source (rn_outbox cfg)) wall num
                      (project_public_status (oc_old_state out)) (oc_public out) (row_version r')])"
  using assms(4)
proof (cases rule: run_InrE)
  case (no_op req actor cmd)
  then show ?thesis by (auto simp: build_outcome_def no_op_result_def Let_def)
next
  case (planned req actor cmd result req' db1)
  let ?src = "os_source (rn_outbox cfg)"
  have r: "req = r" using planned(1) assms(2) by simp
  have inv: "row_inv num r" "outbox_inv cfg db num r" using reach_row [OF assms(1,2)] by simp_all
  then have n: "rq_number r = num" and f: "flags_canonical (new_state_from r)"
    by (simp_all add: row_inv_def)
  have st: "row_status req' = tr_new_canon result"
    using patched_row_status [OF planned(4)] planned(6) by simp
  have f': "flags_canonical (new_state_from req')"
    using row_flags_after [OF planned(4) _ ] f r planned(6) by simp
  have pub: "project_public_status (new_state_from r) = public_of_canon (row_status r)"
    "project_public_status (new_state_from req') = public_of_canon (tr_new_canon result)"
    using project_public_canonical [OF f] project_public_canonical [OF f'] st by simp_all
  have out: "oc_old_state out = new_state_from r" "oc_public out = public_of_canon (tr_new_canon result)"
    using planned(5,10) r pub(2) by (simp_all add: build_outcome_def Let_def)
  have ob: "db_outbox db1 = db_outbox db" using apply_domain_ops_frame [OF planned(7)] by simp
  have req: "db_requests db' num = Some req'"
    using apply_domain_ops_frame [OF planned(7)] apply_events_frame [OF planned(8)] planned(6) n r
    by simp
  note ev = apply_build_events [OF planned(8) [unfolded plan_parts(5) [OF planned(4)]]]
  show ?thesis
  proof (cases "oc_public out = project_public_status (oc_old_state out)")
    case True
    then show ?thesis using ev req ob out pub r by simp
  next
    case False
    then have ch: "row_status req' \<noteq> row_status r" using out pub(1) st by auto
    then have ver: "rq_status_version req' = Some (row_version req')"
      "row_version req' = row_version r + 1"
      using planned(6) r patched_row_version [of actor now result r]
      by (auto simp: patched_row_def row_version_def row_status_def Let_def)
    have "status_changed_name ?src num (row_version req') \<notin> ob_event_id ` set (db_outbox db)"
      using inv(2) ver(2) by (auto simp: outbox_inv_def)
    then show ?thesis
      using ev False req ob out pub r n assms(3) ver(1)
        emit_status_changed [of "rn_outbox cfg" wall num _ _ "row_version req'" "db_outbox db"]
      by (simp add: version_identity_def outbox_insert_def) (simp add: status_changed_row_def)
  qed
qed

lemma webhook_never_swallowed_witness:
  "\<exists>row. db_outbox ex_assigned = [row] \<and>
         ob_event_id row = status_changed_name ''uk'' ex_number 1"
proof -
  obtain out where run: "run_command_sync ex_cfg 50 60 ex_number (ex_principal 2) ex_assign
      (ex_db ''resident'') = Inr (out, ex_assigned)"
    using ex_runs [OF ex_assigned_ok] unfolding ex_assigned_def by blast
  have r: "db_requests (ex_db ''resident'') ex_number = Some (ex_row ''resident'')"
    by (simp add: ex_db_def store_request_def ex_row_def)
  have en: "os_enabled (rn_outbox ex_cfg)" "os_source (rn_outbox ex_cfg) = ''uk''"
    by (simp_all add: ex_cfg_def)
  have v: "map_option row_version (db_requests ex_assigned ex_number) = Some 1" by code_simp
  have "db_outbox ex_assigned \<noteq> []" by code_simp
  moreover have "db_outbox (ex_db ''resident'') = []" by (simp add: ex_db_def ex_empty_def)
  ultimately show ?thesis
    using webhook_never_swallowed [OF ex_reach_db r en(1) run] en(2) v
    by (auto simp: status_changed_row_def split: if_splits)
qed

text \<open>A rating exists only on an accepted request, and at most one.\<close>

theorem ratings_only_on_accepted:
  assumes "reach wf_initial (wf_step cfg) db" "db_requests db num = Some r"
    and "x \<in> set (req_ratings db num)"
  shows "row_status r = St_Approved \<and> req_ratings db num = [x]"
proof -
  have "rating_inv db num r" using reach_row [OF assms(1,2)] by simp
  then show ?thesis
    using assms(3) by (cases "req_ratings db num") (auto simp: rating_inv_def)
qed

definition ex_executed :: wf_db where
  "ex_executed = ex_do (ex_principal 3) (ex_command EXECUTOR_COMPLETE []) ex_assigned"

definition ex_confirmed :: wf_db where
  "ex_confirmed = ex_do (ex_principal 2) (ex_command MANAGER_CONFIRM []) ex_executed"

definition ex_accepted :: wf_db where
  "ex_accepted = ex_do (ex_principal 1) (ex_command APPLICANT_ACCEPT [(''rating'', VInt 5)]) ex_confirmed"

lemma ex_executed_ok: "ex_ok (ex_principal 3) (ex_command EXECUTOR_COMPLETE []) ex_assigned"
  by code_simp

lemma ex_confirmed_ok: "ex_ok (ex_principal 2) (ex_command MANAGER_CONFIRM []) ex_executed"
  by code_simp

lemma ex_accepted_ok:
  "ex_ok (ex_principal 1) (ex_command APPLICANT_ACCEPT [(''rating'', VInt 5)]) ex_confirmed"
  by code_simp

lemma ex_reach_assigned: "reach wf_initial (wf_step ex_cfg) ex_assigned"
  unfolding ex_assigned_def by (rule ex_reach_do [OF ex_reach_db ex_assigned_ok])

lemma ex_reach_executed: "reach wf_initial (wf_step ex_cfg) ex_executed"
  unfolding ex_executed_def by (rule ex_reach_do [OF ex_reach_assigned ex_executed_ok])

lemma ex_reach_confirmed: "reach wf_initial (wf_step ex_cfg) ex_confirmed"
  unfolding ex_confirmed_def by (rule ex_reach_do [OF ex_reach_executed ex_confirmed_ok])

lemma ex_reach_accepted: "reach wf_initial (wf_step ex_cfg) ex_accepted"
  unfolding ex_accepted_def by (rule ex_reach_do [OF ex_reach_confirmed ex_accepted_ok])

lemma ratings_only_on_accepted_witness:
  "\<exists>r x. db_requests ex_accepted ex_number = Some r \<and> row_status r = St_Approved \<and>
         req_ratings ex_accepted ex_number = [x]"
proof -
  have ne: "req_ratings ex_accepted ex_number \<noteq> []" by code_simp
  then obtain x where x: "x \<in> set (req_ratings ex_accepted ex_number)" by (meson list.set_sel(1))
  have "ex_status ex_accepted = Some St_Approved" by code_simp
  then obtain r where r: "db_requests ex_accepted ex_number = Some r"
    using ex_requests_of_status by blast
  show ?thesis using ratings_only_on_accepted [OF ex_reach_accepted r x] r by blast
qed

text \<open>For a request under manager acceptance no command leads to the resident's acceptance
  step or to a return by the resident, and none creates a rating: the manager's confirmation is
  final.\<close>

theorem manager_acceptance_is_final:
  assumes "reach wf_initial (wf_step cfg) db" "db_requests db num = Some r"
    and "rq_acceptance_mode r = Some acceptance_mode_manager"
    and "run_command_sync cfg wall now num prin command db = Inr (out, db')" "\<not> oc_no_op out"
  shows "\<exists>r'. db_requests db' num = Some r' \<and> row_status r' \<notin> {St_Completed, St_Returned} \<and>
           req_ratings db' num = req_ratings db num \<and>
           rq_acceptance_mode r' = Some acceptance_mode_manager"
  using assms(4)
proof (cases rule: run_InrE)
  case no_op
  then show ?thesis using assms(5) by simp
next
  case (planned req actor cmd result req' db1)
  have r: "req = r" using planned(1) assms(2) by simp
  have n: "rq_number r = num" using reach_row [OF assms(1,2)] by (simp add: row_inv_def)
  have mode: "rs_acceptance_mode (new_state_from r) = acceptance_mode_manager"
    using assms(3) by (simp add: new_state_from_def acceptance_mode_manager_def)
  have auth: "sp_authorize (action_table (cmd_action cmd)) (build_snapshot_sync db wall r actor) actor"
    using allowed_authorized [OF plan_parts(2) [OF planned(4)]] r by simp
  have acts: "cmd_action cmd \<noteq> APPLICANT_ACCEPT" "cmd_action cmd \<noteq> APPLICANT_RETURN"
    using auth mode by (auto simp: spec_def can_accept_def owner_can_return_def)
  have "row_status req' = effective_to_status (cmd_action cmd)
      (sp_to (action_table (cmd_action cmd))) (build_snapshot_sync db wall r actor)"
    using patched_row_status [OF planned(4)] plan_parts(3) [OF planned(4)] planned(6) r by simp
  then have "row_status req' \<notin> {St_Completed, St_Returned}"
    using acts mode by (cases "cmd_action cmd") (auto simp: spec_def effective_to_status_def)
  moreover have "req_ratings db1 num = req_ratings db num"
    using planned(7) plan_parts(4) [OF planned(4)] acts
    by (auto simp: build_domain_ops_def res_bind_Inr_iff req_ratings_def set_assignments_def
        group_to_individual_def store_request_def split: if_splits)
  moreover have "req_ratings db' num = req_ratings db1 num"
    using apply_events_frame [OF planned(8)] by (simp add: req_ratings_def)
  moreover have "db_requests db' num = Some req'"
    using apply_domain_ops_frame [OF planned(7)] apply_events_frame [OF planned(8)] planned(6) n r
    by simp
  ultimately show ?thesis using planned(6) r assms(3) by simp
qed

definition ex_managed :: wf_db where
  "ex_managed =
     ex_do (ex_principal 3) (ex_command EXECUTOR_COMPLETE [])
       (ex_do (ex_principal 2) ex_assign (ex_db ''manager''))"

lemma ex_managed_ok:
  "ex_ok (ex_principal 2) ex_assign (ex_db ''manager'')"
  "ex_ok (ex_principal 3) (ex_command EXECUTOR_COMPLETE [])
     (ex_do (ex_principal 2) ex_assign (ex_db ''manager''))"
  "ex_ok (ex_principal 2) (ex_command MANAGER_CONFIRM []) ex_managed"
  by code_simp+

lemma manager_acceptance_is_final_witness:
  "\<exists>r'. db_requests (ex_do (ex_principal 2) (ex_command MANAGER_CONFIRM []) ex_managed) ex_number =
          Some r' \<and> row_status r' = St_Approved \<and> row_status r' \<notin> {St_Completed, St_Returned}"
proof -
  let ?db = "ex_do (ex_principal 2) (ex_command MANAGER_CONFIRM []) ex_managed"
  have reach: "reach wf_initial (wf_step ex_cfg) ex_managed"
    unfolding ex_managed_def
    by (rule ex_reach_do [OF ex_reach_do [OF ex_reach_db ex_managed_ok(1)] ex_managed_ok(2)])
  obtain out where run: "run_command_sync ex_cfg 50 60 ex_number (ex_principal 2)
      (ex_command MANAGER_CONFIRM []) ex_managed = Inr (out, ?db)"
    using ex_runs [OF ex_managed_ok(3)] by blast
  have "ex_status ex_managed = Some St_Executed" by code_simp
  then obtain r where r: "db_requests ex_managed ex_number = Some r" "row_status r = St_Executed"
    using ex_requests_of_status by blast
  have "map_option rq_acceptance_mode (db_requests ex_managed ex_number) = Some (Some ''manager'')"
    by code_simp
  then have mode: "rq_acceptance_mode r = Some acceptance_mode_manager"
    using r by (simp add: acceptance_mode_manager_def)
  have st: "ex_status ?db = Some St_Approved" by code_simp
  have "\<not> oc_no_op out"
  proof
    assume "oc_no_op out"
    then have "?db = ex_managed" by (rule run_no_op [OF run])
    then show False using st \<open>ex_status ex_managed = Some St_Executed\<close> by simp
  qed
  from manager_acceptance_is_final [OF reach r(1) mode run this] st show ?thesis
    by (auto simp: ex_status_def)
qed

text \<open>A system principal changes a request only by the actions its capabilities list; no
  system actor other than the dispatcher and the auto-manager changes anything.\<close>

theorem system_principal_limited:
  assumes "pr_kind prin = System"
    and "run_command_sync cfg wall now num prin (Explicit c) db = Inr (out, db')" "\<not> oc_no_op out"
  shows "\<exists>name. pr_system_actor prin = Some name \<and> cmd_action c \<in> set (system_capabilities name) \<and>
           name \<in> {''dispatcher'', ''auto_manager''} \<and>
           (cmd_action c = SYSTEM_AUTO_PROMOTE \<longrightarrow> name = ''auto_manager'')"
  using assms(2)
proof (cases rule: run_InrE)
  case no_op
  then show ?thesis using assms(3) by simp
next
  case (planned req actor cmd result req' db1)
  have actor: "actor = system_context prin"
    using planned(2) assms(1) by (simp add: load_actor_context_sync_def)
  have "cmd = c" using planned(3) by (simp add: resolve_given_def)
  then have "cmd_action c \<in> set (system_capabilities
      (case pr_system_actor prin of None \<Rightarrow> [] | Some n \<Rightarrow> n))"
    using plan_parts(2) [OF planned(4)] actor
    by (simp add: action_allowed_def system_context_def Let_def split: if_splits)
  then show ?thesis
    by (cases "pr_system_actor prin") (auto simp: system_capabilities_def split: if_splits)
qed

definition ex_dispatched :: command where
  "ex_dispatched = ex_command SYSTEM_DISPATCH_ASSIGN [(''executor_id'', VInt 3)]"

lemma ex_dispatched_ok: "ex_ok (ex_system ''dispatcher'') ex_dispatched (ex_db ''resident'')"
  by code_simp

lemma system_principal_limited_witness:
  "ex_status (ex_do (ex_system ''dispatcher'') ex_dispatched (ex_db ''resident'')) = Some St_InProgress \<and>
   (\<exists>name. Some ''dispatcher'' = Some name \<and>
      SYSTEM_DISPATCH_ASSIGN \<in> set (system_capabilities name))"
proof -
  let ?db = "ex_do (ex_system ''dispatcher'') ex_dispatched (ex_db ''resident'')"
  obtain out where run: "run_command_sync ex_cfg 50 60 ex_number (ex_system ''dispatcher'')
      ex_dispatched (ex_db ''resident'') = Inr (out, ?db)"
    using ex_runs [OF ex_dispatched_ok] by blast
  have st: "ex_status ?db = Some St_InProgress" by code_simp
  have "ex_status (ex_db ''resident'') = Some St_New" by code_simp
  then have "\<not> oc_no_op out" using run_no_op [OF run] st by auto
  then show ?thesis
    using system_principal_limited [OF _ run [unfolded ex_dispatched_def ex_command_def]] st
    by (auto simp: ex_system_def)
qed

text \<open>Addressing a group leaves the request new and without executor, writes the group as the
  only active assignment, and the group is a canonical skill up to white space at its ends.\<close>

theorem assign_group_keeps_new:
  assumes "reach wf_initial (wf_step cfg) db" "db_requests db num = Some r"
    and "run_command_sync cfg wall now num prin
           (Explicit \<lparr>cmd_id = i, cmd_action = ASSIGN_GROUP, cmd_payload = p\<rparr>) db = Inr (out, db')"
  shows "\<exists>r' a g. db_requests db' num = Some r' \<and> row_status r' = St_New \<and>
           row_executor r' = None \<and> req_active db' num = [a] \<and> as_type a = ''group'' \<and>
           as_executor a = None \<and> as_group a = Some g \<and> is_canonical (py_strip g)"
  using assms(3)
proof (cases rule: run_InrE)
  case (no_op req actor cmd)
  then show ?thesis
    by (auto simp: resolve_given_def check_repeat_def spec_def Let_def split: if_splits)
next
  case (planned req actor cmd result req' db1)
  have r: "req = r" using planned(1) assms(2) by simp
  have n: "rq_number req' = num"
    using reach_row [OF assms(1,2)] planned(6) r by (simp add: row_inv_def)
  have cmd: "cmd_action cmd = ASSIGN_GROUP" "cmd_payload cmd = p"
    using planned(3) by (auto simp: resolve_given_def)
  note parts = plan_parts [OF planned(4)]
  have st: "row_status req' = St_New"
    using patched_row_status [OF planned(4)] parts(3) planned(6) cmd
    by (simp add: effective_to_status_def spec_def)
  have ex: "row_executor req' = None"
    using row_executor_after(1) [OF planned(4)] planned(6) cmd by (simp add: executor_after_def)
  have val: "pget p ''executor_id'' = VNone"
    using valid_assign_payload(2) [OF parts(1)] cmd by simp
  obtain g where g: "pget p ''group'' = VStr g" "is_canonical (py_strip g)"
    using parts(6) cmd
    by (cases "pget p ''group''") (auto simp: group_value_ok_def strip_val_def)
  then have "g \<noteq> []" by (auto simp: py_strip_cong_nil is_canonical_def canonical_specializations_def)
  have "tr_domain_ops result = [CreateAssignment p]"
    using parts(4) cmd g by (simp add: build_domain_ops_def is_assign_action_def)
  then obtain a creator where a: "new_assignment num p creator = Inr a" "req_active db1 num = [a]"
    using planned(7) assign_creates [of cfg actor req' p] n by metis
  then have "as_type a = ''group''" "as_executor a = None" "as_group a = Some g"
    using g(1) val \<open>g \<noteq> []\<close>
    by (auto simp: new_assignment_def text_column_def int_column_def)
  moreover have "req_active db' num = [a]"
    using a(2) apply_events_frame [OF planned(8)] by (simp add: req_active_def)
  moreover have "db_requests db' num = Some req'"
    using apply_domain_ops_frame [OF planned(7)] apply_events_frame [OF planned(8)] n by simp
  ultimately show ?thesis using st ex g(2) by blast
qed

lemma assign_group_keeps_new_witness:
  "\<exists>a g. req_active ex_grouped ex_number = [a] \<and> as_group a = Some g \<and> is_canonical (py_strip g)"
proof -
  obtain out where run: "run_command_sync ex_cfg 50 60 ex_number (ex_principal 2)
      (Explicit \<lparr>cmd_id = ''c'', cmd_action = ASSIGN_GROUP, cmd_payload = [(''group'', VStr ''plumber'')]\<rparr>)
      (ex_db ''resident'') = Inr (out, ex_grouped)"
    using ex_runs [OF ex_grouped_ok] unfolding ex_grouped_def ex_command_def by blast
  have r: "db_requests (ex_db ''resident'') ex_number = Some (ex_row ''resident'')"
    by (simp add: ex_db_def store_request_def ex_row_def)
  show ?thesis using assign_group_keeps_new [OF ex_reach_db r run] by blast
qed

subsection \<open>Who may do what\<close>

text \<open>The access policy, stated once and apart from the action table: what the actor of an
  action must be.\<close>

fun actor_requirement :: "action \<Rightarrow> workflow_snapshot \<Rightarrow> actor_context \<Rightarrow> bool" where
  "actor_requirement SYSTEM_DISPATCH_ASSIGN snap a = (ac_kind a = System)"
| "actor_requirement SYSTEM_AUTO_PROMOTE snap a =
     (ac_kind a = System \<and> sn_unclaimed snap \<and> rs_executor_id (sn_request snap) = None)"
| "actor_requirement ASSIGN_GROUP snap a =
     (ac_kind a = System \<or> role_manager \<in> ac_roles a)"
| "actor_requirement EXECUTOR_CLAIM snap a =
     (ac_kind a = User \<and> role_executor \<in> ac_roles a \<and> sn_on_shift snap \<and> sn_unclaimed snap \<and>
      (universal_specialization \<in> ac_specializations a \<or>
       ac_specializations a \<inter>
         parse_specialization_values (raw_opt (sn_assignment_group snap)) Need False \<noteq> {}))"
| "actor_requirement APPLICANT_ACCEPT snap a =
     (ac_kind a = User \<and> rs_acceptance_mode (sn_request snap) \<noteq> acceptance_mode_manager \<and>
      (ac_user_id a = Some (rs_user_id (sn_request snap)) \<or>
       (\<exists>apt. rs_apartment_id (sn_request snap) = Some apt \<and> apt \<in> ac_apartments a)))"
| "actor_requirement APPLICANT_RETURN snap a =
     (ac_kind a = User \<and> rs_acceptance_mode (sn_request snap) \<noteq> acceptance_mode_manager \<and>
      ac_user_id a = Some (rs_user_id (sn_request snap)))"
| "actor_requirement CANCEL snap a =
     (ac_kind a = User \<and>
      (role_manager \<in> ac_roles a \<or>
       role_applicant \<in> ac_roles a \<and> ac_user_id a = Some (rs_user_id (sn_request snap)) \<and>
       normalize_status (sn_request snap) = St_New))"
| "actor_requirement act snap a =
     (ac_kind a = User \<and>
      (if act \<in> {EXECUTOR_PURCHASE, EXECUTOR_RESUME, EXECUTOR_COMPLETE}
       then role_executor \<in> ac_roles a \<and> sn_on_shift snap \<and>
            (ac_user_id a = sn_assignment_executor snap \<or>
             ac_user_id a = rs_executor_id (sn_request snap))
       else role_manager \<in> ac_roles a))"

text \<open>A plan is made only for an actor that meets the access policy of the action, on a
  request that is not terminal, from a status the action starts from.\<close>

theorem planned_action_authorized:
  assumes "plan_transition snap cmd actor prin = Inr result"
  shows "actor_requirement (cmd_action cmd) snap actor \<and>
         \<not> is_terminal (normalize_status (sn_request snap)) \<and>
         normalize_status (sn_request snap) \<in> set (sp_from (action_table (cmd_action cmd)))"
proof -
  let ?act = "cmd_action cmd"
  have al: "action_allowed snap actor ?act" by (rule plan_parts(2) [OF assms])
  have fr: "normalize_status (sn_request snap) \<in> set (sp_from (action_table ?act))"
    by (rule allowed_from [OF al])
  have auth: "sp_authorize (action_table ?act) snap actor" by (rule allowed_authorized [OF al])
  have kind: "sp_system_only (action_table ?act) \<Longrightarrow> ac_kind actor = System"
    using system_only_user [OF _ al] by (cases "ac_kind actor") auto
  have "actor_requirement ?act snap actor"
    using auth kind executor_can_workD [of snap actor] executor_can_claimD [of snap actor]
      can_acceptD [of snap actor]
    by (cases ?act)
      (auto simp: spec_def is_manager_def system_can_promote_def owner_can_return_def is_owner_def
        can_cancel_def split: if_splits)
  then show ?thesis using fr from_not_terminal by blast
qed

definition ex_snapshot :: workflow_snapshot where
  "ex_snapshot =
     \<lparr>sn_request =
        \<lparr>rs_number = ex_number, rs_user_id = 1, rs_status = St_New, rs_manager_confirmed = False,
         rs_is_returned = False, rs_apartment_id = None, rs_executor_id = None,
         rs_acceptance_mode = acceptance_mode_resident\<rparr>,
      sn_has_rating = False, sn_assignment_executor = None, sn_on_shift = False,
      sn_assignment_type = None, sn_assignment_group = None, sn_unclaimed = False\<rparr>"

definition ex_manager :: actor_context where
  "ex_manager =
     \<lparr>ac_kind = User, ac_user_id = Some 2, ac_system_actor = None, ac_roles = {role_manager},
      ac_active_role = None, ac_apartments = {}, ac_specializations = {}\<rparr>"

lemma planned_action_authorized_witness:
  "\<exists>result. plan_transition ex_snapshot
      \<lparr>cmd_id = ''c'', cmd_action = MANAGER_PURCHASE, cmd_payload = []\<rparr> ex_manager (ex_principal 2) =
        Inr result \<and> actor_requirement MANAGER_PURCHASE ex_snapshot ex_manager"
proof -
  let ?cmd = "\<lparr>cmd_id = ''c'', cmd_action = MANAGER_PURCHASE, cmd_payload = []\<rparr>"
  have "\<not> (case plan_transition ex_snapshot ?cmd ex_manager (ex_principal 2) of
      Inl e \<Rightarrow> True | Inr r \<Rightarrow> False)"
    by code_simp
  then obtain result where
    "plan_transition ex_snapshot ?cmd ex_manager (ex_principal 2) = Inr result"
    by (cases "plan_transition ex_snapshot ?cmd ex_manager (ex_principal 2)") auto
  then show ?thesis using planned_action_authorized by fastforce
qed

text \<open>The resolution of a status command does not depend on the order in which Python
  iterates the set of allowed actions; the action it picks is allowed and leads to the target.\<close>

theorem resolve_command_order_independent:
  assumes "set order = set (allowed_actions snap actor)"
  shows "resolve_command order intent = resolve_command (allowed_actions snap actor) intent \<and>
         (\<forall>c. resolve_command order intent = Inr c \<longrightarrow>
            action_allowed snap actor (cmd_action c) \<and>
            sp_to (action_table (cmd_action c)) = in_target intent \<and>
            cmd_action c \<notin> {EXECUTOR_CLAIM, SYSTEM_AUTO_PROMOTE})"
  using resolve_order_irrelevant [OF assms] resolve_Inr [of order intent] assms
  by (auto simp: allowed_iff status_resolve_exclude_def)

lemma resolve_command_order_independent_witness:
  "resolve_command (rev (allowed_actions ex_snapshot ex_manager))
       \<lparr>in_id = ''c'', in_target = St_Purchase, in_payload = []\<rparr> =
     Inr \<lparr>cmd_id = ''c'', cmd_action = MANAGER_PURCHASE, cmd_payload = []\<rparr>"
proof -
  have "resolve_command (allowed_actions ex_snapshot ex_manager)
       \<lparr>in_id = ''c'', in_target = St_Purchase, in_payload = []\<rparr> =
     Inr \<lparr>cmd_id = ''c'', cmd_action = MANAGER_PURCHASE, cmd_payload = []\<rparr>"
    by code_simp
  then show ?thesis
    using resolve_command_order_independent [of "rev (allowed_actions ex_snapshot ex_manager)"
        ex_snapshot ex_manager] by simp
qed

text \<open>On tables with unique user ids the asynchronous runner of the web API and the
  synchronous runner of the bot give the same result on every command.\<close>

theorem runners_agree:
  assumes "distinct (map us_id (db_users db))"
  shows "run_command_async cfg wall now num prin command db =
         run_command_sync cfg wall now num prin command db"
  by (rule run_parity [OF assms])

lemma runners_agree_witness:
  "run_command_async ex_cfg 50 60 ex_number (ex_principal 2) ex_assign (ex_db ''resident'') =
   run_command_sync ex_cfg 50 60 ex_number (ex_principal 2) ex_assign (ex_db ''resident'')"
proof -
  have "distinct (map us_id (db_users (ex_db ''resident'')))"
    by (simp add: ex_db_def ex_empty_def ex_users_def ex_user_def)
  then show ?thesis by (rule runners_agree)
qed

text \<open>Repeating a dispatch with its complete payload is always a conflict, never the no-op its
  policy names, and a repeated bare confirmation succeeds as a no-op for every actor, because the
  repeat check runs before authorization.\<close>

theorem repeat_check_precedes_authorization:
  "(validate_payload (payload_schemas SYSTEM_DISPATCH_ASSIGN) p = None \<and>
      normalize_status (sn_request snap) = St_InProgress
      \<longrightarrow> decide snap \<lparr>cmd_id = i, cmd_action = SYSTEM_DISPATCH_ASSIGN, cmd_payload = p\<rparr> actor prin =
          Inl RepeatConflict) \<and>
   (normalize_status (sn_request snap) = St_Completed
      \<longrightarrow> decide snap \<lparr>cmd_id = i, cmd_action = MANAGER_CONFIRM, cmd_payload = []\<rparr> actor prin =
          Inr (no_op_result snap))"
proof (intro conjI impI)
  assume a: "validate_payload (payload_schemas SYSTEM_DISPATCH_ASSIGN) p = None \<and>
      normalize_status (sn_request snap) = St_InProgress"
  then have "isinstance (pget p ''executor_id'') TInt"
    using valid_assign_payload(1) [of SYSTEM_DISPATCH_ASSIGN p] by simp
  moreover from this obtain v where "map_of p ''executor_id'' = Some v"
    by (cases "map_of p ''executor_id''") (auto simp: pget_def)
  ultimately have "list_ex (\<lambda>(k, v). v \<noteq> VNone \<and> v \<noteq> VStr [] \<and> v \<noteq> VList []) p"
    by (auto simp: list_ex_iff pget_def dest!: map_of_SomeD
        intro!: bexI [where x = "(''executor_id'', v)"])
  then show "decide snap \<lparr>cmd_id = i, cmd_action = SYSTEM_DISPATCH_ASSIGN, cmd_payload = p\<rparr> actor prin =
      Inl RepeatConflict"
    using a by (simp add: decide_def check_repeat_def spec_def)
next
  assume "normalize_status (sn_request snap) = St_Completed"
  then show "decide snap \<lparr>cmd_id = i, cmd_action = MANAGER_CONFIRM, cmd_payload = []\<rparr> actor prin =
      Inr (no_op_result snap)"
    by (simp add: decide_def check_repeat_def spec_def)
qed

definition ex_snapshot_at :: "status \<Rightarrow> workflow_snapshot" where
  "ex_snapshot_at s = ex_snapshot\<lparr>sn_request := (sn_request ex_snapshot)\<lparr>rs_status := s\<rparr>\<rparr>"

lemma repeat_check_precedes_authorization_witness:
  "decide (ex_snapshot_at St_InProgress)
     \<lparr>cmd_id = ''c'', cmd_action = SYSTEM_DISPATCH_ASSIGN, cmd_payload = [(''executor_id'', VInt 3)]\<rparr>
     (system_context (ex_system ''dispatcher'')) (ex_system ''dispatcher'') = Inl RepeatConflict"
proof -
  have "validate_payload (payload_schemas SYSTEM_DISPATCH_ASSIGN) [(''executor_id'', VInt 3)] = None"
    "normalize_status (sn_request (ex_snapshot_at St_InProgress)) = St_InProgress"
    by code_simp+
  then show ?thesis using repeat_check_precedes_authorization by blast
qed

lemma clauses_agree_witness:
  "\<not> awaiting_applicant_clause (ex_row ''resident'') \<and>
   \<not> is_awaiting_applicant (new_state_from (ex_row ''resident''))"
proof -
  have typed: "row_typed (ex_row ''resident'')"
    using ex_row_fresh [of "''resident''"] by (simp add: fresh_request_def)
  have "\<not> awaiting_applicant_clause (ex_row ''resident'')" by code_simp
  then show ?thesis using clauses_agree [OF typed] by simp
qed

end
