(* ===== verification/HashChain.thy ===== *)
theory HashChain
  imports AccessDomain "HOL-Library.List_Lexorder" "HOL-Library.Char_ord"
begin

section \<open>Hash chains of the append-only tables\<close>

text \<open>
  \<open>access_control/services/hashchain.py\<close>: the canonical JSON text of a payload (sorted keys, no
  white space, no ASCII escaping) and the hash of the next row.  \<open>sha\<close> is \<open>sha256(..).hexdigest()\<close>
  on the text's UTF-8 bytes, a parameter of every definition that hashes.  The per-table advisory
  lock makes reading the tail and appending one step; here that is one function call.
\<close>

text \<open>\<open>json.dumps\<close> of a character of a string: the two mandatory escapes, the short escapes, and
  \<open>\u00xx\<close> for the other control characters.\<close>

definition hex_point :: "int \<Rightarrow> int" where
  "hex_point d = (if d < 10 then 48 + d else 87 + d)"

definition escape_point :: "int \<Rightarrow> utext" where
  "escape_point c =
     (if c = 34 then [92, 34] else if c = 92 then [92, 92]
      else if c = 8 then [92, 98] else if c = 9 then [92, 116] else if c = 10 then [92, 110]
      else if c = 12 then [92, 102] else if c = 13 then [92, 114]
      else if 0 \<le> c \<and> c < 32 then [92, 117, 48, 48, hex_point (c div 16), hex_point (c mod 16)]
      else [c])"

definition dump_text :: "utext \<Rightarrow> utext" where
  "dump_text s = 34 # concat (map escape_point s) @ [34]"

text \<open>\<open>sort_keys=True\<close> at every level, then the members in that order; the keys the services
  use are ASCII, where the order of characters is the order of code points.\<close>

primrec sort_keys :: "canon \<Rightarrow> canon" where
  "sort_keys CNull = CNull"
| "sort_keys (CInt i) = CInt i"
| "sort_keys (CText s) = CText s"
| "sort_keys (CObj ms) = CObj (sort_key fst (map (map_prod id sort_keys) ms))"

fun dump :: "canon \<Rightarrow> utext" and dump_members :: "bool \<Rightarrow> (string \<times> canon) list \<Rightarrow> utext" where
  "dump CNull = [110, 117, 108, 108]"
| "dump (CInt i) = utext_of (int_str i)"
| "dump (CText s) = dump_text s"
| "dump (CObj ms) = 123 # dump_members True ms @ [125]"
| "dump_members first [] = []"
| "dump_members first ((k, v) # ms) =
     (if first then [] else [44]) @ dump_text (utext_of k) @ 58 # dump v @ dump_members False ms"

definition canonical_json :: "canon \<Rightarrow> utext" where
  "canonical_json p = dump (sort_keys p)"

text \<open>What is hashed: \<open>(prev_hash or "") + canonical_json(payload)\<close>.\<close>

definition hash_base :: "string option \<Rightarrow> canon \<Rightarrow> utext" where
  "hash_base prev payload =
     (case prev of None \<Rightarrow> [] | Some h \<Rightarrow> utext_of h) @ canonical_json payload"

text \<open>\<open>next_hash\<close> on a table, held in the order of its ids: the tail's hash and the new one.\<close>

definition tail_hash :: "('r \<Rightarrow> string option) \<Rightarrow> 'r list \<Rightarrow> string option" where
  "tail_hash row rows = (if rows = [] then None else row (last rows))"

definition next_hash ::
    "(utext \<Rightarrow> string) \<Rightarrow> ('r \<Rightarrow> string option) \<Rightarrow> 'r list \<Rightarrow> canon \<Rightarrow> string option \<times> string" where
  "next_hash sha row rows payload =
     (let prev = tail_hash row rows in (prev, sha (hash_base prev payload)))"

subsection \<open>The text of a payload determines it\<close>

fun unescape :: "utext \<Rightarrow> int \<times> utext" where
  "unescape (c # r) =
     (if c \<noteq> 92 then (c, r)
      else case r of
             e # r' \<Rightarrow>
               if e = 34 \<or> e = 92 then (e, r')
               else if e = 98 then (8, r') else if e = 116 then (9, r') else if e = 110 then (10, r')
               else if e = 102 then (12, r') else if e = 114 then (13, r')
               else (let d = (\<lambda>x. if x < 87 then x - 48 else x - 87)
                     in (16 * d (r' ! 2) + d (r' ! 3), drop 4 r'))
           | [] \<Rightarrow> (0, []))"
| "unescape [] = (0, [])"

lemma unescape_escape: "unescape (escape_point c @ x) = (c, x)"
proof (cases "0 \<le> c \<and> c < 32 \<and> c \<notin> {8, 9, 10, 12, 13}")
  case True
  then have "c div 16 < 2" "c mod 16 < 16" "16 * (c div 16) + c mod 16 = c" by auto
  then show ?thesis using True
    by (simp add: escape_point_def hex_point_def Let_def)
next
  case False
  then show ?thesis by (auto simp: escape_point_def)
qed

lemma escape_point_inj:
  "escape_point c @ x = escape_point d @ y \<Longrightarrow> c = d \<and> x = y"
proof -
  assume "escape_point c @ x = escape_point d @ y"
  from arg_cong [OF this, of unescape] show "c = d \<and> x = y"
    by (simp only: unescape_escape prod.inject)
qed

lemma escape_point_head: "\<exists>e es. escape_point c = e # es \<and> e \<noteq> 34"
  by (simp add: escape_point_def)

lemma escaped_text_inj:
  "concat (map escape_point a) @ 34 # s = concat (map escape_point b) @ 34 # t
   \<Longrightarrow> a = b \<and> s = t"
proof (induction a arbitrary: b)
  case Nil
  then show ?case
    using escape_point_head [of "hd b"] by (cases b) auto
next
  case (Cons c a)
  show ?case
  proof (cases b)
    case Nil
    then show ?thesis using Cons.prems escape_point_head [of c] by auto
  next
    case (Cons d b')
    then have "escape_point c @ concat (map escape_point a) @ 34 # s
        = escape_point d @ concat (map escape_point b') @ 34 # t"
      using Cons.prems by simp
    then have "c = d \<and> concat (map escape_point a) @ 34 # s
        = concat (map escape_point b') @ 34 # t"
      by (rule escape_point_inj)
    then show ?thesis using Cons.IH [of b'] \<open>b = d # b'\<close> by simp
  qed
qed

lemma dump_text_inj: "dump_text a @ s = dump_text b @ t \<Longrightarrow> a = b \<and> s = t"
  using escaped_text_inj [of a s b t] by (simp add: dump_text_def)

lemma utext_of_inj: "utext_of a = utext_of b \<longleftrightarrow> a = b"
  by (simp add: utext_of_def inj_map_eq_map inj_of_char)

text \<open>A text that follows a value in a JSON text starts with a comma or a closing brace, or is
  empty; with it the value can be read off.\<close>

definition value_end :: "utext \<Rightarrow> bool" where
  "value_end s \<longleftrightarrow> (case s of [] \<Rightarrow> True | c # _ \<Rightarrow> c = 44 \<or> c = 125)"

lemma digit_point: "is_digit c \<Longrightarrow> 48 \<le> (of_char c :: int) \<and> (of_char c :: int) \<le> 57"
proof -
  have "(of_char c :: int) = int (of_char c)" by (rule of_nat_of_char [symmetric])
  then show "is_digit c \<Longrightarrow> ?thesis" by (simp add: is_digit_def)
qed

lemma int_str_points:
  "c \<in> set (utext_of (int_str i)) \<Longrightarrow> c = 45 \<or> 48 \<le> c \<and> c \<le> 57"
  by (auto simp: utext_of_def int_str_def dest!: nat_str_digit digit_point split: if_splits)

lemma nat_str_nonempty [simp]: "nat_str n \<noteq> []"
  by (subst nat_str.simps) simp

lemma int_str_nonempty [simp]: "int_str i \<noteq> []"
  by (simp add: int_str_def)

lemma int_text_inj:
  assumes "utext_of (int_str i) @ s = utext_of (int_str j) @ t" "value_end s" "value_end t"
  shows "i = j \<and> s = t"
proof -
  let ?N = "\<lambda>c :: int. c = 45 \<or> 48 \<le> c \<and> c \<le> 57"
  have cut: "takeWhile ?N (utext_of (int_str k) @ u) = utext_of (int_str k)" if "value_end u" for k u
    using that int_str_points by (cases u) (auto simp: value_end_def takeWhile_append)
  have "utext_of (int_str i) = utext_of (int_str j)"
    using cut [OF assms(2), of i] cut [OF assms(3), of j] assms(1) by simp
  then show ?thesis using assms(1) by (simp add: utext_of_inj int_str_inj)
qed

text \<open>The first character tells the kind of a value.\<close>

lemma dump_head:
  "\<exists>c cs. dump v = c # cs \<and>
     (case v of CNull \<Rightarrow> c = 110 | CInt _ \<Rightarrow> c = 45 \<or> 48 \<le> c \<and> c \<le> 57 | CText _ \<Rightarrow> c = 34
      | CObj _ \<Rightarrow> c = 123)"
proof (cases v)
  case (CInt i)
  then show ?thesis
    using int_str_points [of "hd (utext_of (int_str i))" i]
    by (cases "utext_of (int_str i)") (auto simp: utext_of_def)
qed (auto simp: dump_text_def)

lemma dump_members_head:
  "dump_members b ms @ 125 # s = dump_members b ms' @ 125 # t \<Longrightarrow> ms = [] \<longleftrightarrow> ms' = []"
  by (cases ms; cases ms'; cases b) (auto simp: dump_text_def)

lemma value_end_members: "value_end (dump_members False ms @ 125 # s)"
  by (cases ms) (auto simp: value_end_def)

lemma dump_inj:
  "dump v @ s = dump w @ t \<Longrightarrow> value_end s \<Longrightarrow> value_end t \<Longrightarrow> v = w \<and> s = t"
  "dump_members b ms @ 125 # s = dump_members b ms' @ 125 # t \<Longrightarrow> ms = ms' \<and> s = t"
proof (induction v and b ms arbitrary: w s t and ms' s t rule: dump_dump_members.induct)
  case 1
  then show ?case using dump_head [of w] by (cases w) auto
next
  case (2 i)
  show ?case
  proof (cases w)
    case (CInt j)
    then show ?thesis using int_text_inj [of i s j t] 2 by simp
  qed (use 2 dump_head [of w] dump_head [of "CInt i"] in auto)
next
  case (3 x)
  show ?case
  proof (cases w)
    case (CText y)
    then show ?thesis using dump_text_inj [of x s y t] 3 by simp
  qed (use 3 dump_head [of w] in \<open>auto simp: dump_text_def\<close>)
next
  case (4 ms)
  show ?case
  proof (cases w)
    case (CObj ms')
    then show ?thesis using 4 by simp
  qed (use 4(2) dump_head [of w] in auto)
next
  case (5 b)
  then show ?case using dump_members_head [of b "[]" s ms' t] by simp
next
  case (6 b k v ms)
  obtain k' v' ms'' where ms': "ms' = (k', v') # ms''"
    using dump_members_head [OF 6(3)] by (cases ms') auto
  have "dump_text (utext_of k) @ 58 # dump v @ dump_members False ms @ 125 # s
      = dump_text (utext_of k') @ 58 # dump v' @ dump_members False ms'' @ 125 # t"
    using 6(3) by (cases b) (simp_all add: ms')
  from dump_text_inj [OF this] have "k = k'"
    and rest: "dump v @ dump_members False ms @ 125 # s = dump v' @ dump_members False ms'' @ 125 # t"
    by (simp_all add: utext_of_inj)
  moreover have "v = v' \<and> dump_members False ms @ 125 # s = dump_members False ms'' @ 125 # t"
    by (rule 6(1) [OF rest value_end_members value_end_members])
  moreover have "ms = ms'' \<and> s = t"
    by (rule 6(2)) (use calculation in simp)
  ultimately show ?case by (simp add: ms')
qed

lemma canonical_json_inj:
  "canonical_json p = canonical_json q \<Longrightarrow> sort_keys p = sort_keys q"
  using dump_inj(1) [of "sort_keys p" "[]" "sort_keys q" "[]"]
  by (simp add: canonical_json_def value_end_def)

lemma canonical_json_obj: "\<exists>cs. canonical_json (CObj ms) = 123 # cs"
  by (simp add: canonical_json_def)

subsection \<open>Chains\<close>

text \<open>A table whose rows are linked: each names the hash before it and carries its own.\<close>

fun chained ::
    "(utext \<Rightarrow> string) \<Rightarrow> ('r \<Rightarrow> canon) \<Rightarrow> ('r \<Rightarrow> string option) \<Rightarrow> ('r \<Rightarrow> string option)
     \<Rightarrow> string option \<Rightarrow> 'r list \<Rightarrow> bool" where
  "chained sha payload prev row p [] = True"
| "chained sha payload prev row p (r # rows) =
     (prev r = p \<and> row r = Some (sha (hash_base p (payload r)))
      \<and> chained sha payload prev row (row r) rows)"

lemma chained_snoc:
  "chained sha payload prev row p (rows @ [r]) \<longleftrightarrow>
     chained sha payload prev row p rows
     \<and> prev r = (if rows = [] then p else row (last rows))
     \<and> row r = Some (sha (hash_base (if rows = [] then p else row (last rows)) (payload r)))"
  by (induction rows arbitrary: p) auto

text \<open>What a table of the append-only kind offers: a row is stamped with two hashes that are not
  part of its payload.  Appending through \<open>next_hash\<close> keeps such a table chained.\<close>

locale hashed_table =
  fixes payload :: "'r \<Rightarrow> canon"
    and prev :: "'r \<Rightarrow> string option"
    and row :: "'r \<Rightarrow> string option"
    and stamp :: "string option \<Rightarrow> string \<Rightarrow> 'r \<Rightarrow> 'r"
  assumes payload_stamp: "payload (stamp p h r) = payload r"
    and prev_stamp: "prev (stamp p h r) = p"
    and row_stamp: "row (stamp p h r) = Some h"
begin

lemma chained_append:
  assumes "chained sha payload prev row None rows"
    and "next_hash sha row rows (payload r) = (p, h)"
  shows "chained sha payload prev row None (rows @ [stamp p h r])"
  using assms
  by (auto simp: chained_snoc next_hash_def tail_hash_def Let_def payload_stamp prev_stamp row_stamp)

end

definition append_hashed ::
    "(utext \<Rightarrow> string) \<Rightarrow> ('r \<Rightarrow> canon) \<Rightarrow> ('r \<Rightarrow> string option)
     \<Rightarrow> (string option \<Rightarrow> string \<Rightarrow> 'r \<Rightarrow> 'r) \<Rightarrow> 'r list \<Rightarrow> 'r \<Rightarrow> 'r list" where
  "append_hashed sha payload row stamp rows r =
     (case next_hash sha row rows (payload r) of (p, h) \<Rightarrow> rows @ [stamp p h r])"

context hashed_table
begin

lemma chained_append_hashed:
  "chained sha payload prev row None rows
   \<Longrightarrow> chained sha payload prev row None (append_hashed sha payload row stamp rows r)"
  by (auto simp: append_hashed_def split: prod.split intro: chained_append)

end

lemma append_hashed_snoc:
  "\<exists>p h. append_hashed sha payload row stamp rows r = rows @ [stamp p h r]"
  by (auto simp: append_hashed_def split: prod.split)

subsection \<open>Tampering shows\<close>

text \<open>The texts hashed along a chain.\<close>

fun hashed_texts :: "('r \<Rightarrow> canon) \<Rightarrow> ('r \<Rightarrow> string option) \<Rightarrow> string option \<Rightarrow> 'r list \<Rightarrow> utext list" where
  "hashed_texts payload row p [] = []"
| "hashed_texts payload row p (r # rows) =
     hash_base p (payload r) # hashed_texts payload row (row r) rows"

text \<open>A digest is a non-empty text of hexadecimal digits.\<close>

definition hex_digest :: "string \<Rightarrow> bool" where
  "hex_digest h \<longleftrightarrow> h \<noteq> [] \<and> list_all (\<lambda>c. c \<in> set ''0123456789abcdef'') h"

lemma hex_digest_no_brace:
  assumes "hex_digest h"
  shows "123 \<notin> set (utext_of h)"
proof
  assume "123 \<in> set (utext_of h)"
  then obtain c where c: "c \<in> set h" "(of_char c :: int) = 123"
    unfolding utext_of_def by force
  have "(of_char c :: int) = of_char (CHR ''{'')" unfolding c(2) by simp
  then have "c = CHR ''{''" by (rule injD [OF inj_of_char])
  moreover have "c \<in> set ''0123456789abcdef''"
    using assms c(1) unfolding hex_digest_def list_all_iff by blast
  ultimately show False by simp
qed

lemma hex_digest_nonempty: "hex_digest h \<Longrightarrow> utext_of h \<noteq> []"
  by (simp add: hex_digest_def utext_of_def)

lemma hash_base_inj:
  assumes eq: "hash_base p (CObj ms) = hash_base q (CObj ms')"
    and p: "case p of None \<Rightarrow> True | Some h \<Rightarrow> hex_digest h"
    and q: "case q of None \<Rightarrow> True | Some h \<Rightarrow> hex_digest h"
  shows "p = q \<and> sort_keys (CObj ms) = sort_keys (CObj ms')"
proof -
  let ?t = "\<lambda>p. case p of None \<Rightarrow> [] | Some h \<Rightarrow> utext_of h"
  have no: "(123 :: int) \<notin> set (?t p)" if "case p of None \<Rightarrow> True | Some h \<Rightarrow> hex_digest h" for p
    using that hex_digest_no_brace by (auto split: option.splits)
  obtain cs ds where cs: "canonical_json (CObj ms) = 123 # cs"
    and ds: "canonical_json (CObj ms') = 123 # ds"
    using canonical_json_obj by blast
  have tw: "takeWhile (\<lambda>c. c \<noteq> 123) (?t p @ 123 # xs) = ?t p"
    if "case p of None \<Rightarrow> True | Some h \<Rightarrow> hex_digest h" for p and xs :: utext
    using no [OF that] by (subst takeWhile_append2) auto
  have "?t p @ 123 # cs = ?t q @ 123 # ds"
    using eq by (simp add: hash_base_def cs ds)
  moreover from this have t: "?t p = ?t q"
    using tw [OF p, of cs] tw [OF q, of ds] by simp
  ultimately have "canonical_json (CObj ms) = canonical_json (CObj ms')"
    by (simp add: cs ds)
  moreover have "p = q"
    using t p q by (cases p; cases q) (auto simp: utext_of_inj dest: hex_digest_nonempty)
  ultimately show ?thesis using canonical_json_inj by blast
qed

text \<open>Two chains that end in the same digest hold the same payloads, row for row: an altered,
  inserted or dropped row changes every later digest.\<close>

lemma chain_determines_rows:
  assumes "chained sha payload prev row None xs" "chained sha payload prev row None ys"
    and "xs \<noteq> []" "ys \<noteq> []" "row (last xs) = row (last ys)"
    and "inj_on sha (set (hashed_texts payload row None xs) \<union> set (hashed_texts payload row None ys))"
    and hex: "\<And>t. hex_digest (sha t)"
    and obj: "\<And>r. \<exists>ms. payload r = CObj ms"
  shows "map (sort_keys \<circ> payload) xs = map (sort_keys \<circ> payload) ys"
  using assms(1-6)
proof (induction xs arbitrary: ys rule: rev_induct)
  case Nil
  then show ?case by simp
next
  case (snoc x xs ys)
  obtain zs z where ys: "ys = zs @ [z]" using snoc.prems(4) by (cases ys rule: rev_cases) auto
  have texts: "hashed_texts payload row p (rows @ [r]) = hashed_texts payload row p rows
      @ [hash_base (if rows = [] then p else row (last rows)) (payload r)]" for p rows r
    by (induction rows arbitrary: p) auto
  let ?p = "\<lambda>rows. if rows = [] then None else row (last rows)"
  have dig: "case ?p rows of None \<Rightarrow> True | Some h \<Rightarrow> hex_digest h"
    if "chained sha payload prev row None rows" for rows
    using that hex by (cases rows rule: rev_cases) (auto simp: chained_snoc)
  have cx: "chained sha payload prev row None xs" "row x = Some (sha (hash_base (?p xs) (payload x)))"
    using snoc.prems(1) by (auto simp: chained_snoc)
  have cz: "chained sha payload prev row None zs" "row z = Some (sha (hash_base (?p zs) (payload z)))"
    using snoc.prems(2) by (auto simp: ys chained_snoc)
  have "sha (hash_base (?p xs) (payload x)) = sha (hash_base (?p zs) (payload z))"
    using snoc.prems(5) cx(2) cz(2) by (simp add: ys)
  then have base: "hash_base (?p xs) (payload x) = hash_base (?p zs) (payload z)"
    by (rule inj_onD [OF snoc.prems(6)]) (simp_all add: ys texts)
  obtain ms ms' where ms: "payload x = CObj ms" "payload z = CObj ms'" using obj by blast
  have same: "?p xs = ?p zs" "sort_keys (payload x) = sort_keys (payload z)"
    using hash_base_inj [OF base [unfolded ms] dig [OF cx(1)] dig [OF cz(1)]]
    by (simp_all add: ms)
  have some: "row (last rows) \<noteq> None" if "chained sha payload prev row None rows" "rows \<noteq> []" for rows
    using that by (cases rows rule: rev_cases) (auto simp: chained_snoc)
  have "map (sort_keys \<circ> payload) xs = map (sort_keys \<circ> payload) zs"
  proof (cases "xs = [] \<or> zs = []")
    case True
    then show ?thesis
      using same(1) some [OF cx(1)] some [OF cz(1)] by (auto split: if_splits)
  next
    case False
    have "inj_on sha (set (hashed_texts payload row None xs) \<union> set (hashed_texts payload row None zs))"
      by (rule inj_on_subset [OF snoc.prems(6)]) (auto simp: ys texts)
    then show ?thesis
      using snoc.IH [OF cx(1) cz(1)] False same(1) by (simp add: comp_def)
  qed
  then show ?case using same(2) by (simp add: ys comp_def)
qed

end
