(* ===== verification/AccessRepos.thy ===== *)
theory AccessRepos
  imports HashChain PlateNormalization
begin

section \<open>Repositories\<close>

text \<open>
  \<open>access_control/repositories\<close>: the queries and statements of the services, one definition per
  function.  A query without \<open>ORDER BY\<close> takes the first row in the table's order; where the code
  relies on one, the rows are unique by an index.  An insertion that would break a unique index
  the code does not name in \<open>ON CONFLICT\<close> is the fault \<open>Unique_violation\<close>; foreign keys are not
  checked.  The hashed payload of a row is a function of the row.
\<close>

subsection \<open>Payloads and stamps\<close>

fun hex_digits :: "nat \<Rightarrow> nat \<Rightarrow> string" where
  "hex_digits 0 n = []"
| "hex_digits (Suc k) n = hex_digits k (n div 16) @ [char_of (hex_point (int (n mod 16)))]"

text \<open>\<open>str(uuid)\<close> of a 128-bit value.\<close>

definition uuid_text :: "nat \<Rightarrow> string" where
  "uuid_text u =
     (let h = hex_digits 32 u
      in take 8 h @ ''-'' @ take 4 (drop 8 h) @ ''-'' @ take 4 (drop 12 h) @ ''-''
         @ take 4 (drop 16 h) @ ''-'' @ drop 20 h)"

definition group_text :: "nat option \<Rightarrow> string" where
  "group_text g = (case g of None \<Rightarrow> ''None'' | Some u \<Rightarrow> uuid_text u)"

definition decision_payload :: "access_decision \<Rightarrow> canon" where
  "decision_payload d =
     (case ad_supersedes d of
        None \<Rightarrow> CObj
          [(''camera_event_id'', CInt (ad_camera_event_id d)),
           (''decision_group_id'', ctext (group_text (ad_group_id d))),
           (''decision'', ctext (decision_value (ad_decision d))),
           (''status'', ctext (status_value (ad_status d))),
           (''reason'', copt (ctext \<circ> reason_value) (ad_reason d)),
           (''matched_vehicle_id'', copt CInt (ad_vehicle_id d)),
           (''matched_pass_id'', copt CInt (ad_pass_id d)),
           (''source'', ctext (source_value (ad_source d)))]
      | Some old \<Rightarrow> CObj
          [(''camera_event_id'', CInt (ad_camera_event_id d)),
           (''decision_group_id'', ctext (group_text (ad_group_id d))),
           (''supersedes_decision_id'', CInt old),
           (''decision'', ctext (decision_value (ad_decision d))),
           (''status'', ctext (status_value (ad_status d))),
           (''reason'', copt (ctext \<circ> reason_value) (ad_reason d)),
           (''source'', ctext (source_value (ad_source d)))])"

definition event_payload :: "access_event \<Rightarrow> canon" where
  "event_payload e = CObj
     [(''controller_id'', CInt (ae_controller_id e)),
      (''event_id'', ctext (ae_event_id e)),
      (''camera_event_id'', CInt (ae_camera_event_id e)),
      (''decision_id'', CInt (ae_decision_id e)),
      (''vehicle_id'', copt CInt (ae_vehicle_id e)),
      (''pass_id'', copt CInt (ae_pass_id e)),
      (''apartment_id'', copt CInt (ae_apartment_id e)),
      (''gate_id'', copt CInt (ae_gate_id e)),
      (''zone_id'', copt CInt (ae_zone_id e)),
      (''direction'', ctext (direction_value (ae_direction e))),
      (''plate_number_normalized'', copt CText (ae_plate e)),
      (''decision'', ctext (decision_value (ae_decision e))),
      (''reason'', copt (ctext \<circ> reason_value) (ae_reason e)),
      (''source'', ctext (source_value (ae_source e)))]"

definition opening_payload :: "manual_opening \<Rightarrow> canon" where
  "opening_payload m = CObj
     [(''barrier_id'', CInt (mo_barrier_id m)),
      (''command_id'', ctext (uuid_text (mo_command_id m))),
      (''decision_id'', copt CInt (mo_decision_id m)),
      (''operator_user_id'', CInt (mo_operator m)),
      (''reason'', CText (mo_reason m)),
      (''captured_event_id'', copt CInt (mo_captured_event m))]"

definition audit_payload :: "audit_entry \<Rightarrow> canon" where
  "audit_payload a = CObj
     [(''actor_user_id'', copt CInt (al_actor a)),
      (''action'', ctext (al_action a)),
      (''entity_type'', ctext (al_entity_type a)),
      (''entity_id'', copt (ctext \<circ> int_str) (al_entity_id a)),
      (''details'', CObj
         ([(''barrier_id'', copt CInt (al_barrier_id a)),
           (''source'', ctext (al_source a)),
           (''reason'', copt CText (al_reason a))]
          @ al_extra a)),
      (''ip_address'', copt ctext (al_ip_address a))]"

definition stamp_decision :: "string option \<Rightarrow> string \<Rightarrow> access_decision \<Rightarrow> access_decision" where
  "stamp_decision p h d = d\<lparr>ad_prev_hash := p, ad_row_hash := Some h\<rparr>"

definition stamp_event :: "string option \<Rightarrow> string \<Rightarrow> access_event \<Rightarrow> access_event" where
  "stamp_event p h e = e\<lparr>ae_prev_hash := p, ae_row_hash := Some h\<rparr>"

definition stamp_opening :: "string option \<Rightarrow> string \<Rightarrow> manual_opening \<Rightarrow> manual_opening" where
  "stamp_opening p h m = m\<lparr>mo_prev_hash := p, mo_row_hash := Some h\<rparr>"

definition stamp_audit :: "string option \<Rightarrow> string \<Rightarrow> audit_entry \<Rightarrow> audit_entry" where
  "stamp_audit p h a = a\<lparr>al_prev_hash := p, al_row_hash := Some h\<rparr>"

interpretation decision_chain: hashed_table decision_payload ad_prev_hash ad_row_hash stamp_decision
  by unfold_locales (simp_all add: stamp_decision_def decision_payload_def split: option.split)

interpretation event_chain: hashed_table event_payload ae_prev_hash ae_row_hash stamp_event
  by unfold_locales (simp_all add: stamp_event_def event_payload_def)

interpretation opening_chain: hashed_table opening_payload mo_prev_hash mo_row_hash stamp_opening
  by unfold_locales (simp_all add: stamp_opening_def opening_payload_def)

interpretation audit_chain: hashed_table audit_payload al_prev_hash al_row_hash stamp_audit
  by unfold_locales (simp_all add: stamp_audit_def audit_payload_def)

text \<open>The four chains of a database.\<close>

definition chains_ok :: "(utext \<Rightarrow> string) \<Rightarrow> access_db \<Rightarrow> bool" where
  "chains_ok sha db \<longleftrightarrow>
     chained sha decision_payload ad_prev_hash ad_row_hash None (decisions db)
     \<and> chained sha event_payload ae_prev_hash ae_row_hash None (access_events db)
     \<and> chained sha opening_payload mo_prev_hash mo_row_hash None (manual_openings db)
     \<and> chained sha audit_payload al_prev_hash al_row_hash None (audit_logs db)"

subsection \<open>Equipment\<close>

definition get_controller :: "access_db \<Rightarrow> int \<Rightarrow> edge_controller option" where
  "get_controller db c = first_row (\<lambda>r. ec_id r = c) (controllers db)"

definition gate_belongs_to_controller :: "access_db \<Rightarrow> int \<Rightarrow> int \<Rightarrow> bool" where
  "gate_belongs_to_controller db g c =
     list_ex (\<lambda>r. ga_id r = g \<and> ga_controller_id r = Some c) (gates db)"

definition first_active_gate_for_controller :: "access_db \<Rightarrow> int \<Rightarrow> int option" where
  "first_active_gate_for_controller db c =
     map_option ga_id (least_row ga_id
       (filter (\<lambda>r. ga_controller_id r = Some c \<and> ga_is_active r) (gates db)))"

definition first_active_barrier_row :: "access_db \<Rightarrow> int \<Rightarrow> access_barrier option" where
  "first_active_barrier_row db g =
     least_row ba_id (filter (\<lambda>r. ba_gate_id r = g \<and> ba_is_active r) (barriers db))"

definition first_active_barrier_for_gate :: "access_db \<Rightarrow> int \<Rightarrow> int option" where
  "first_active_barrier_for_gate db g = map_option ba_id (first_active_barrier_row db g)"

definition camera_event_row :: "access_db \<Rightarrow> int \<Rightarrow> camera_event option" where
  "camera_event_row db e = first_row (\<lambda>r. ce_id r = e) (camera_events db)"

definition barrier_and_controller_for_event :: "access_db \<Rightarrow> int \<Rightarrow> int option \<times> int option" where
  "barrier_and_controller_for_event db e =
     (case camera_event_row db e of
        None \<Rightarrow> (None, None)
      | Some ce \<Rightarrow>
          (case ce_gate_id ce of
             None \<Rightarrow> (None, None)
           | Some g \<Rightarrow>
               (case first_active_barrier_row db g of
                  None \<Rightarrow> (None, None)
                | Some b \<Rightarrow> (Some (ba_id b), ba_controller_id b))))"

definition active_controller_for_barrier :: "access_db \<Rightarrow> int \<Rightarrow> int option" where
  "active_controller_for_barrier db b =
     (case first_row (\<lambda>r. ba_id r = b \<and> ba_is_active r) (barriers db) of
        None \<Rightarrow> None | Some r \<Rightarrow> ba_controller_id r)"

subsection \<open>Locks\<close>

text \<open>\<open>barrier_id or gate_id or controller_id\<close>, and the key of a stored event.\<close>

definition canonical_lock_key :: "int option \<Rightarrow> int option \<Rightarrow> int option \<Rightarrow> int option" where
  "canonical_lock_key barrier gate controller = py_or_int barrier (py_or_int gate controller)"

definition lock_key_for_event :: "access_db \<Rightarrow> int \<Rightarrow> int option" where
  "lock_key_for_event db e =
     (case camera_event_row db e of
        None \<Rightarrow> None
      | Some ce \<Rightarrow>
          canonical_lock_key
            (case ce_gate_id ce of None \<Rightarrow> None | Some g \<Rightarrow> first_active_barrier_for_gate db g)
            (ce_gate_id ce) (Some (ce_controller_id ce)))"

end
