(* ===== verification/AccessWrites.thy ===== *)
theory AccessWrites
  imports AccessRepos
begin

section \<open>Repositories: events, decisions, commands, passes, presence, journals\<close>

text \<open>
  The reads and writes of \<open>access_control/repositories\<close> on the tables that change.  A write
  returns the new database, and what the statement returns; the fault of a violated unique index
  aborts the transaction.
\<close>

subsection \<open>Camera events\<close>

text \<open>The event as the services pass it on (\<open>AnprIngestInput\<close>).\<close>

record ingest_input =
  in_controller_id :: int
  in_event_id :: string
  in_zone_id :: "int option"
  in_gate_id :: "int option"
  in_camera_id :: "int option"
  in_barrier_id :: "int option"
  in_plate_original :: "utext option"
  in_direction :: direction
  in_confidence :: "rat option"
  in_captured_at :: instant
  in_plate_photo :: "string option"
  in_overview_photo :: "string option"
  in_source :: event_source

definition find_event_id :: "access_db \<Rightarrow> int \<Rightarrow> string \<Rightarrow> int option" where
  "find_event_id db c e =
     map_option ce_id (first_row (\<lambda>r. ce_controller_id r = c \<and> ce_event_id r = e) (camera_events db))"

definition initial_for_event :: "access_db \<Rightarrow> int \<Rightarrow> access_decision option" where
  "initial_for_event db e =
     first_row (\<lambda>d. ad_camera_event_id d = e \<and> ad_supersedes d = None) (decisions db)"

definition find_window_duplicate ::
    "access_db \<Rightarrow> ingest_input \<Rightarrow> utext option \<Rightarrow> int \<Rightarrow> int option" where
  "find_window_duplicate db data normalized window =
     (case (normalized, in_gate_id data) of
        (Some plate, Some gate) \<Rightarrow>
          map_option ce_id (least_row ce_captured_at
            (filter (\<lambda>ce. initial_for_event db (ce_id ce) \<noteq> None
                \<and> ce_gate_id ce = Some gate
                \<and> ce_direction ce = in_direction data
                \<and> ce_plate ce = Some plate
                \<and> in_captured_at data - seconds window \<le> ce_captured_at ce
                \<and> ce_captured_at ce \<le> in_captured_at data + seconds window
                \<and> \<not> (ce_controller_id ce = in_controller_id data \<and> ce_event_id ce = in_event_id data))
              (camera_events db)))
      | _ \<Rightarrow> None)"

text \<open>\<open>ON CONFLICT (controller_id, event_id) DO NOTHING RETURNING id\<close>.\<close>

definition insert_idempotent ::
    "ambient \<Rightarrow> access_db \<Rightarrow> ingest_input \<Rightarrow> utext option \<Rightarrow> access_db \<times> int option" where
  "insert_idempotent env db data normalized =
     (if list_ex (\<lambda>r. ce_controller_id r = in_controller_id data \<and> ce_event_id r = in_event_id data)
           (camera_events db)
      then (db, None)
      else
        let i = next_id (map ce_id (camera_events db));
            r = \<lparr>ce_id = i, ce_controller_id = in_controller_id data,
                 ce_event_id = in_event_id data, ce_gate_id = in_gate_id data,
                 ce_zone_id = in_zone_id data, ce_plate = normalized,
                 ce_direction = in_direction data, ce_confidence = in_confidence data,
                 ce_captured_at = in_captured_at data, ce_received_at = env_now env,
                 ce_source = in_source data, ce_plate_photo = in_plate_photo data,
                 ce_overview_photo = in_overview_photo data\<rparr>
        in (db\<lparr>camera_events := camera_events db @ [r]\<rparr>, Some i))"

text \<open>The later upload of a photo; the left result is the \<open>ValueError\<close> of an unknown kind.\<close>

definition update_photo_ref ::
    "access_db \<Rightarrow> int \<Rightarrow> string \<Rightarrow> string \<Rightarrow> string \<Rightarrow> string + (access_db \<times> int option)" where
  "update_photo_ref db c e kind ref =
     (let hit = (\<lambda>r. ce_controller_id r = c \<and> ce_event_id r = e) in
      if kind = ''plate'' then
        Inr (db\<lparr>camera_events := upd_where hit (\<lambda>r. r\<lparr>ce_plate_photo := Some ref\<rparr>) (camera_events db)\<rparr>,
             find_event_id db c e)
      else if kind = ''overview'' then
        Inr (db\<lparr>camera_events := upd_where hit (\<lambda>r. r\<lparr>ce_overview_photo := Some ref\<rparr>) (camera_events db)\<rparr>,
             find_event_id db c e)
      else Inl kind)"

subsection \<open>Decisions\<close>

definition get_decision :: "access_db \<Rightarrow> int \<Rightarrow> access_decision option" where
  "get_decision db i = first_row (\<lambda>d. ad_id d = i) (decisions db)"

definition latest_for_event :: "access_db \<Rightarrow> int \<Rightarrow> access_decision option" where
  "latest_for_event db e =
     least_row (\<lambda>d. - ad_id d) (filter (\<lambda>d. ad_camera_event_id d = e) (decisions db))"

text \<open>\<open>ad.id = (SELECT max(id) ... WHERE camera_event_id = ad.camera_event_id)\<close>.\<close>

definition is_current :: "access_db \<Rightarrow> access_decision \<Rightarrow> bool" where
  "is_current db d \<longleftrightarrow>
     list_all (\<lambda>x. ad_camera_event_id x = ad_camera_event_id d \<longrightarrow> ad_id x \<le> ad_id d) (decisions db)"

text \<open>The join of a decision's event with the barrier at the event's gate.\<close>

definition at_barrier :: "access_db \<Rightarrow> int \<Rightarrow> access_decision \<Rightarrow> bool" where
  "at_barrier db b d \<longleftrightarrow>
     list_ex (\<lambda>ce. ce_id ce = ad_camera_event_id d
        \<and> list_ex (\<lambda>r. ba_id r = b \<and> ce_gate_id ce = Some (ba_gate_id r)) (barriers db))
       (camera_events db)"

definition active_pending_event_for_barrier :: "access_db \<Rightarrow> int \<Rightarrow> instant \<Rightarrow> int option" where
  "active_pending_event_for_barrier db b now =
     map_option ad_camera_event_id (least_row (\<lambda>d. - ad_id d)
       (filter (\<lambda>d. at_barrier db b d \<and> ad_status d = Pending_review \<and> is_current db d
            \<and> (case ad_review_deadline d of None \<Rightarrow> True | Some t \<Rightarrow> now \<le> t))
          (decisions db)))"

definition overdue :: "instant \<Rightarrow> access_decision \<Rightarrow> bool" where
  "overdue now d \<longleftrightarrow>
     ad_status d = Pending_review
     \<and> (case ad_review_deadline d of None \<Rightarrow> False | Some t \<Rightarrow> t < now)"

definition expired_pending_ids_for_barrier :: "access_db \<Rightarrow> int \<Rightarrow> instant \<Rightarrow> int list" where
  "expired_pending_ids_for_barrier db b now =
     map ad_id (filter (\<lambda>d. at_barrier db b d \<and> overdue now d \<and> is_current db d) (decisions db))"

text \<open>\<open>db.add(row); db.flush()\<close>: the hash is computed, the key assigned, the unique index of
  initial decisions checked.\<close>

definition append_decision ::
    "(utext \<Rightarrow> string) \<Rightarrow> access_db \<Rightarrow> access_decision \<Rightarrow> access_db \<times> access_decision" where
  "append_decision sha db d =
     (let rows = append_hashed sha decision_payload ad_row_hash stamp_decision (decisions db)
            (d\<lparr>ad_id := next_id (map ad_id (decisions db))\<rparr>)
      in (db\<lparr>decisions := rows\<rparr>, last rows))"

definition insert_initial ::
    "(utext \<Rightarrow> string) \<Rightarrow> ambient \<Rightarrow> access_db \<Rightarrow> int \<Rightarrow> decision_type \<Rightarrow> decision_status
     \<Rightarrow> decision_reason option \<Rightarrow> int option \<Rightarrow> int option \<Rightarrow> instant option \<Rightarrow> event_source
     \<Rightarrow> access_fault + (access_db \<times> access_decision)" where
  "insert_initial sha env db e decision st reason vehicle pass deadline source =
     (if initial_for_event db e \<noteq> None
      then Inl (Unique_violation ''uq_access_decisions_initial_per_event'')
      else Inr (append_decision sha db
        \<lparr>ad_id = 0, ad_camera_event_id = e, ad_group_id = Some (env_group_uuid env),
         ad_supersedes = None, ad_decision = decision, ad_status = st, ad_reason = reason,
         ad_vehicle_id = vehicle, ad_pass_id = pass, ad_review_deadline = deadline,
         ad_resolved_by = None, ad_resolved_at = None, ad_source = source,
         ad_prev_hash = None, ad_row_hash = None\<rparr>))"

definition insert_transition ::
    "(utext \<Rightarrow> string) \<Rightarrow> access_db \<Rightarrow> access_decision \<Rightarrow> decision_status \<Rightarrow> decision_type
     \<Rightarrow> user_id option \<Rightarrow> instant \<Rightarrow> access_db \<times> access_decision" where
  "insert_transition sha db current new_status new_decision operator now =
     append_decision sha db
       \<lparr>ad_id = 0, ad_camera_event_id = ad_camera_event_id current,
        ad_group_id = ad_group_id current, ad_supersedes = Some (ad_id current),
        ad_decision = new_decision, ad_status = new_status, ad_reason = ad_reason current,
        ad_vehicle_id = ad_vehicle_id current, ad_pass_id = ad_pass_id current,
        ad_review_deadline = None, ad_resolved_by = operator, ad_resolved_at = Some now,
        ad_source = ad_source current, ad_prev_hash = None, ad_row_hash = None\<rparr>"

subsection \<open>Access events\<close>

definition vehicle_id_by_plate :: "access_db \<Rightarrow> utext \<Rightarrow> int option" where
  "vehicle_id_by_plate db plate =
     map_option ve_id (least_row ve_id
       (filter (\<lambda>v. ve_plate v = plate \<and> ve_status v \<noteq> Vehicle_archived) (vehicles db)))"

definition apartment_for_vehicle :: "access_db \<Rightarrow> int \<Rightarrow> int option" where
  "apartment_for_vehicle db v =
     map_option va_apartment_id (least_row va_id
       (filter (\<lambda>l. va_vehicle_id l = v \<and> va_status l = Link_active) (vehicle_apartments db)))"

definition insert_access_event ::
    "(utext \<Rightarrow> string) \<Rightarrow> access_db \<Rightarrow> ingest_input \<Rightarrow> int \<Rightarrow> access_decision \<Rightarrow> utext option
     \<Rightarrow> access_fault + access_db" where
  "insert_access_event sha db data e d normalized =
     (if list_ex (\<lambda>r. ae_controller_id r = in_controller_id data \<and> ae_event_id r = in_event_id data)
           (access_events db)
      then Inl (Unique_violation ''uq_access_events_controller_event'')
      else Inr (db\<lparr>access_events :=
        append_hashed sha event_payload ae_row_hash stamp_event (access_events db)
          \<lparr>ae_controller_id = in_controller_id data, ae_event_id = in_event_id data,
           ae_camera_event_id = e, ae_decision_id = ad_id d, ae_vehicle_id = ad_vehicle_id d,
           ae_pass_id = ad_pass_id d,
           ae_apartment_id =
             (case ad_vehicle_id d of None \<Rightarrow> None | Some v \<Rightarrow> apartment_for_vehicle db v),
           ae_gate_id = in_gate_id data, ae_zone_id = in_zone_id data,
           ae_direction = in_direction data, ae_plate = normalized,
           ae_decision = ad_decision d, ae_reason = ad_reason d,
           ae_occurred_at = in_captured_at data, ae_source = in_source data,
           ae_prev_hash = None, ae_row_hash = None\<rparr>\<rparr>))"

subsection \<open>Barrier commands\<close>

record command_out =
  co_command_id :: nat
  co_barrier_id :: int
  co_expires_at :: "instant option"

definition command_out_of :: "barrier_command \<Rightarrow> command_out" where
  "command_out_of c =
     \<lparr>co_command_id = bc_command_id c, co_barrier_id = bc_barrier_id c,
      co_expires_at = bc_expires_at c\<rparr>"

definition command_for_decision :: "access_db \<Rightarrow> int \<Rightarrow> barrier_command option" where
  "command_for_decision db d = first_row (\<lambda>c. bc_decision_id c = Some d) (commands db)"

text \<open>A command per decision (\<open>ON CONFLICT (decision_id) DO NOTHING\<close>, then the stored one is
  returned); without a decision every call adds one.  A repeated \<open>command_id\<close> breaks the primary
  key.\<close>

definition create_open_command ::
    "ambient \<Rightarrow> access_db \<Rightarrow> int \<Rightarrow> int \<Rightarrow> int option \<Rightarrow> int \<Rightarrow> access_fault + (access_db \<times> command_out)" where
  "create_open_command env db controller barrier decision ttl =
     (let expires = env_now env + seconds ttl;
          c = \<lparr>bc_command_id = env_command_uuid env, bc_decision_id = decision,
               bc_controller_id = controller, bc_barrier_id = barrier,
               bc_status = Command_pending, bc_lease_token = None, bc_lease_expires_at = None,
               bc_leased_at = None, bc_attempts = 0, bc_expires_at = Some expires,
               bc_acked_at = None, bc_ack_result = None, bc_created_at = env_tx_now env\<rparr>;
          existing = (case decision of None \<Rightarrow> None | Some d \<Rightarrow> command_for_decision db d)
      in case existing of
           Some old \<Rightarrow> Inr (db, command_out_of old)
         | None \<Rightarrow>
             if list_ex (\<lambda>r. bc_command_id r = env_command_uuid env) (commands db)
             then Inl (Unique_violation ''barrier_commands_pkey'')
             else Inr (db\<lparr>commands := commands db @ [c]\<rparr>, command_out_of c))"

subsection \<open>Passes\<close>

text \<open>\<open>UPDATE ... SET used_entries = used_entries + 1 WHERE id = :p AND used_entries < max_entries\<close>.\<close>

definition consume_taxi_entry :: "access_db \<Rightarrow> int \<Rightarrow> access_db \<times> bool" where
  "consume_taxi_entry db p =
     (let hit = (\<lambda>r. pa_id r = p \<and> pa_used_entries r < pa_max_entries r);
          f = (\<lambda>r. r\<lparr>pa_used_entries := pa_used_entries r + 1,
                      pa_status := if pa_max_entries r \<le> pa_used_entries r + 1 then Pass_used
                                   else pa_status r\<rparr>)
      in (db\<lparr>passes := upd_where hit f (passes db)\<rparr>, row_count hit (passes db) = 1))"

subsection \<open>Presence sessions\<close>

definition open_session ::
    "access_db \<Rightarrow> int \<Rightarrow> int option \<Rightarrow> int \<Rightarrow> instant \<Rightarrow> int option \<Rightarrow> access_db \<times> int option" where
  "open_session db v apartment z entered event =
     (if list_ex (\<lambda>s. ps_vehicle_id s = v \<and> ps_zone_id s = z \<and> ps_status s = Presence_open) (presence db)
      then (db, None)
      else
        let i = next_id (map ps_id (presence db))
        in (db\<lparr>presence := presence db @
              [\<lparr>ps_id = i, ps_vehicle_id = v, ps_apartment_id = apartment, ps_zone_id = z,
                ps_entered_at = entered, ps_exited_at = None, ps_status = Presence_open,
                ps_entry_event = event, ps_exit_event = None, ps_closed_by = None,
                ps_close_reason = None\<rparr>]\<rparr>, Some i))"

definition close_open_session_for_vehicle_zone ::
    "access_db \<Rightarrow> int \<Rightarrow> int \<Rightarrow> instant \<Rightarrow> int option \<Rightarrow> access_db \<times> int option" where
  "close_open_session_for_vehicle_zone db v z exited event =
     (let hit = (\<lambda>s. ps_vehicle_id s = v \<and> ps_zone_id s = z \<and> ps_status s = Presence_open)
      in (db\<lparr>presence := upd_where hit
               (\<lambda>s. s\<lparr>ps_status := Presence_closed, ps_exited_at := Some exited,
                       ps_exit_event := event, ps_close_reason := Some ''exit_event''\<rparr>)
               (presence db)\<rparr>,
          map_option ps_id (first_row hit (presence db))))"

definition count_open_for_apartment_zone :: "access_db \<Rightarrow> int list \<Rightarrow> int option \<Rightarrow> nat" where
  "count_open_for_apartment_zone db apts z =
     (if apts = [] then 0
      else row_count (\<lambda>s. (case ps_apartment_id s of None \<Rightarrow> False | Some a \<Rightarrow> a \<in> set apts)
              \<and> Some (ps_zone_id s) = z \<and> ps_status s = Presence_open) (presence db))"

definition get_session :: "access_db \<Rightarrow> int \<Rightarrow> presence_session option" where
  "get_session db i = first_row (\<lambda>s. ps_id s = i) (presence db)"

definition close_session_manual ::
    "access_db \<Rightarrow> int \<Rightarrow> user_id \<Rightarrow> string \<Rightarrow> instant \<Rightarrow> access_db \<times> int option" where
  "close_session_manual db i user reason exited =
     (let hit = (\<lambda>s. ps_id s = i \<and> ps_status s = Presence_open)
      in (db\<lparr>presence := upd_where hit
               (\<lambda>s. s\<lparr>ps_status := Presence_closed, ps_exited_at := Some exited,
                       ps_closed_by := Some user, ps_close_reason := Some reason\<rparr>)
               (presence db)\<rparr>,
          map_option ps_id (first_row hit (presence db))))"

text \<open>The open sessions for the operator's choice, newest entry first, and how many there are.\<close>

definition list_open_sessions ::
    "access_db \<Rightarrow> int option \<Rightarrow> int option \<Rightarrow> nat \<Rightarrow> nat
     \<Rightarrow> (int \<times> int \<times> utext option \<times> int option \<times> int \<times> instant) list \<times> nat" where
  "list_open_sessions db z a limit offset =
     (let hits = filter (\<lambda>s. ps_status s = Presence_open
             \<and> (case z of None \<Rightarrow> True | Some z' \<Rightarrow> ps_zone_id s = z')
             \<and> (case a of None \<Rightarrow> True | Some a' \<Rightarrow> ps_apartment_id s = Some a')) (presence db);
          ordered = sort_key (\<lambda>s. - ps_entered_at s) (sort_key (\<lambda>s. - ps_id s) hits);
          item = (\<lambda>s. (ps_id s, ps_vehicle_id s,
             map_option ve_plate (first_row (\<lambda>v. ve_id v = ps_vehicle_id s) (vehicles db)),
             ps_apartment_id s, ps_zone_id s, ps_entered_at s))
      in (map item (take limit (drop offset ordered)), length hits))"

subsection \<open>Manual openings and audit\<close>

definition recent_open_exists :: "access_db \<Rightarrow> int \<Rightarrow> instant \<Rightarrow> bool" where
  "recent_open_exists db b since =
     list_ex (\<lambda>m. mo_barrier_id m = b \<and> since \<le> mo_created_at m) (manual_openings db)"

definition insert_manual_opening ::
    "(utext \<Rightarrow> string) \<Rightarrow> ambient \<Rightarrow> access_db \<Rightarrow> int \<Rightarrow> nat \<Rightarrow> int option \<Rightarrow> user_id \<Rightarrow> utext
     \<Rightarrow> int option \<Rightarrow> access_db \<times> int" where
  "insert_manual_opening sha env db b cmd d operator reason event =
     (let i = next_id (map mo_id (manual_openings db))
      in (db\<lparr>manual_openings :=
            append_hashed sha opening_payload mo_row_hash stamp_opening (manual_openings db)
              \<lparr>mo_id = i, mo_barrier_id = b, mo_command_id = cmd, mo_decision_id = d,
               mo_operator = operator, mo_reason = reason, mo_captured_event = event,
               mo_created_at = env_tx_now env, mo_prev_hash = None, mo_row_hash = None\<rparr>\<rparr>, i))"

definition insert_audit ::
    "(utext \<Rightarrow> string) \<Rightarrow> access_db \<Rightarrow> user_id option \<Rightarrow> string \<Rightarrow> string \<Rightarrow> int option \<Rightarrow> int option
     \<Rightarrow> string \<Rightarrow> utext option \<Rightarrow> string option \<Rightarrow> (string \<times> canon) list \<Rightarrow> access_db" where
  "insert_audit sha db actor act etype eid barrier source reason ip extra =
     db\<lparr>audit_logs :=
       append_hashed sha audit_payload al_row_hash stamp_audit (audit_logs db)
         \<lparr>al_actor = actor, al_action = act, al_entity_type = etype, al_entity_id = eid,
          al_barrier_id = barrier, al_source = source, al_reason = reason,
          al_extra = extra, al_ip_address = ip, al_prev_hash = None,
          al_row_hash = None\<rparr>\<rparr>"

end
