(* ===== verification/DecisionEngine.thy ===== *)
theory DecisionEngine
  imports AccessWrites
begin

section \<open>Decision engine\<close>

text \<open>
  \<open>access_control/services/decision_engine.py\<close>: the decision on an entry, from the event and the
  tables, without writing.  The branches come in the code's order: confidence, permanent vehicle
  (blocked, explicit rule, assigned or shared zone), taxi pass.
\<close>

record decision_input =
  di_zone_id :: "int option"
  di_plate :: utext
  di_direction :: direction
  di_confidence :: "rat option"
  di_captured_at :: instant

record engine_decision =
  en_decision :: decision_type
  en_reason :: "decision_reason option"
  en_status :: decision_status
  en_vehicle_id :: "int option"
  en_pass_id :: "int option"

definition within_window :: "instant \<Rightarrow> instant option \<Rightarrow> instant option \<Rightarrow> bool" where
  "within_window moment from until \<longleftrightarrow>
     (case from of None \<Rightarrow> True | Some f \<Rightarrow> f \<le> moment)
     \<and> (case until of None \<Rightarrow> True | Some u \<Rightarrow> moment \<le> u)"

definition engine_allow :: "decision_reason \<Rightarrow> int option \<Rightarrow> int option \<Rightarrow> engine_decision" where
  "engine_allow reason v p =
     \<lparr>en_decision = Allow, en_reason = Some reason, en_status = Allowed,
      en_vehicle_id = v, en_pass_id = p\<rparr>"

definition engine_deny :: "decision_reason \<Rightarrow> int option \<Rightarrow> int option \<Rightarrow> engine_decision" where
  "engine_deny reason v p =
     \<lparr>en_decision = Deny, en_reason = Some reason, en_status = Denied,
      en_vehicle_id = v, en_pass_id = p\<rparr>"

definition engine_manual_review :: "decision_reason \<Rightarrow> int option \<Rightarrow> int option \<Rightarrow> engine_decision" where
  "engine_manual_review reason v p =
     \<lparr>en_decision = Manual_review, en_reason = Some reason, en_status = Pending_review,
      en_vehicle_id = v, en_pass_id = p\<rparr>"

lemmas engine_defs = engine_allow_def engine_deny_def engine_manual_review_def

definition active_apartment_ids :: "access_db \<Rightarrow> int \<Rightarrow> instant \<Rightarrow> int list" where
  "active_apartment_ids db v moment =
     map va_apartment_id
       (filter (\<lambda>l. within_window moment (va_valid_from l) (va_valid_until l))
         (filter (\<lambda>l. va_vehicle_id l = v \<and> va_status l = Link_active) (vehicle_apartments db)))"

text \<open>\<open>zone_id == NULL\<close> selects no rule; an empty or missing direction list allows both.\<close>

definition rule_applies ::
    "int \<Rightarrow> int list \<Rightarrow> direction \<Rightarrow> instant \<Rightarrow> access_rule \<Rightarrow> bool" where
  "rule_applies v apts dir moment r \<longleftrightarrow>
     (ru_vehicle_id r = Some v
        \<or> (case ru_apartment_id r of None \<Rightarrow> False | Some a \<Rightarrow> a \<in> set apts))
     \<and> within_window moment (ru_valid_from r) (ru_valid_until r)
     \<and> (case ru_allowed_directions r of None \<Rightarrow> True | Some ds \<Rightarrow> ds = [] \<or> dir \<in> set ds)"

definition zone_rule_matches ::
    "access_db \<Rightarrow> int \<Rightarrow> int list \<Rightarrow> int option \<Rightarrow> direction \<Rightarrow> instant \<Rightarrow> bool" where
  "zone_rule_matches db v apts zone dir moment =
     list_ex (rule_applies v apts dir moment)
       (filter (\<lambda>r. ru_is_active r \<and> Some (ru_zone_id r) = zone) (rules db))"

definition apartment_served_by_zone :: "access_db \<Rightarrow> int \<Rightarrow> int \<Rightarrow> bool" where
  "apartment_served_by_zone db apt zone =
     list_ex (\<lambda>a. ap_id a = apt
        \<and> list_ex (\<lambda>b. bl_id b = ap_building_id a
             \<and> list_ex (\<lambda>y. zy_yard_id y = bl_yard_id b \<and> zy_zone_id y = zone) (zone_yards db))
            (buildings db)) (apartments db)"

text \<open>An inner join yields a row per link and vehicle; vehicle ids are unique.\<close>

definition count_active_apartment_vehicles :: "access_db \<Rightarrow> int \<Rightarrow> instant \<Rightarrow> nat" where
  "count_active_apartment_vehicles db apt moment =
     row_count (\<lambda>l. va_apartment_id l = apt \<and> va_status l = Link_active
        \<and> list_ex (\<lambda>v. ve_id v = va_vehicle_id l \<and> ve_status v = Vehicle_active) (vehicles db)
        \<and> within_window moment (va_valid_from l) (va_valid_until l)) (vehicle_apartments db)"

definition spot_in_zone :: "access_db \<Rightarrow> int option \<Rightarrow> int \<Rightarrow> bool" where
  "spot_in_zone db zone spot =
     list_ex (\<lambda>s. sp_id s = spot \<and> Some (sp_zone_id s) = zone \<and> sp_status s = Spot_active) (spots db)"

definition decide_assigned ::
    "access_db \<Rightarrow> vehicle \<Rightarrow> int list \<Rightarrow> int option \<Rightarrow> instant \<Rightarrow> engine_decision" where
  "decide_assigned db v apts zone moment =
     (if apts = [] then engine_deny Spot_not_assigned (Some (ve_id v)) None
      else
        let rows = filter (\<lambda>r. spot_in_zone db zone (sa_spot_id r) \<and> sa_apartment_id r \<in> set apts
               \<and> (sa_status r = Spot_assignment_active \<or> sa_status r = Spot_assignment_expired))
             (spot_assignments db);
            active = filter (\<lambda>r. sa_status r = Spot_assignment_active
               \<and> within_window moment (sa_valid_from r) (sa_valid_until r)) rows
        in if active \<noteq> [] then
             (if list_all sa_enforce_limit active
                 \<and> length active \<le> count_open_for_apartment_zone db apts zone
              then engine_manual_review Parking_spot_occupied (Some (ve_id v)) None
              else engine_allow Assigned_spot_allowed (Some (ve_id v)) None)
           else if list_ex (\<lambda>r. case sa_valid_until r of None \<Rightarrow> False | Some u \<Rightarrow> u < moment) rows
             then engine_deny Spot_rental_expired (Some (ve_id v)) None
           else engine_deny Spot_not_assigned (Some (ve_id v)) None)"

definition decide_shared ::
    "access_db \<Rightarrow> vehicle \<Rightarrow> int list \<Rightarrow> parking_zone \<Rightarrow> instant \<Rightarrow> engine_decision" where
  "decide_shared db v apts zone moment =
     (let served = filter (\<lambda>a. apartment_served_by_zone db a (zn_id zone)) apts
      in if served = [] then engine_deny Zone_not_allowed (Some (ve_id v)) None
         else if (case zn_max_permanent zone of
                    None \<Rightarrow> False
                  | Some cap \<Rightarrow>
                      list_ex (\<lambda>a. cap < int (count_active_apartment_vehicles db a moment)) served)
           then engine_manual_review Per_apartment_limit_exceeded (Some (ve_id v)) None
         else engine_allow Shared_access_allowed (Some (ve_id v)) None)"

definition vehicle_by_plate :: "access_db \<Rightarrow> utext \<Rightarrow> vehicle option" where
  "vehicle_by_plate db plate =
     first_row (\<lambda>v. ve_plate v = plate \<and> ve_status v \<noteq> Vehicle_archived) (vehicles db)"

definition decide_permanent :: "access_db \<Rightarrow> decision_input \<Rightarrow> engine_decision option" where
  "decide_permanent db data =
     (case vehicle_by_plate db (di_plate data) of
        None \<Rightarrow> None
      | Some v \<Rightarrow>
          Some (if ve_status v = Vehicle_blocked
                then engine_deny Vehicle_is_blocked (Some (ve_id v)) None
                else
                  let apts = active_apartment_ids db (ve_id v) (di_captured_at data)
                  in if zone_rule_matches db (ve_id v) apts (di_zone_id data) (di_direction data)
                          (di_captured_at data)
                     then engine_allow Permanent_vehicle_allowed (Some (ve_id v)) None
                     else
                       case first_row (\<lambda>z. Some (zn_id z) = di_zone_id data) (zones db) of
                         None \<Rightarrow> engine_deny Zone_not_allowed (Some (ve_id v)) None
                       | Some z \<Rightarrow>
                           (case zn_parking_type z of
                              Assigned \<Rightarrow> decide_assigned db v apts (di_zone_id data) (di_captured_at data)
                            | Shared \<Rightarrow> decide_shared db v apts z (di_captured_at data))))"

text \<open>\<open>ORDER BY created_at DESC\<close>; between equal instants the first row of the table.\<close>

definition newest_taxi_pass :: "access_db \<Rightarrow> utext \<Rightarrow> access_pass option" where
  "newest_taxi_pass db plate =
     least_row (\<lambda>p. - pa_created_at p)
       (filter (\<lambda>p. pa_plate p = Some plate \<and> pa_pass_type p = Taxi
            \<and> (pa_status p = Pass_active \<or> pa_status p = Pass_used)) (passes db))"

definition decide_taxi :: "access_db \<Rightarrow> decision_input \<Rightarrow> engine_decision" where
  "decide_taxi db data =
     (case newest_taxi_pass db (di_plate data) of
        None \<Rightarrow> engine_deny Vehicle_not_found None None
      | Some p \<Rightarrow>
          if pa_zone_id p \<noteq> None \<and> di_zone_id data \<noteq> None \<and> pa_zone_id p \<noteq> di_zone_id data
          then engine_deny Zone_not_allowed None (Some (pa_id p))
          else if \<not> within_window (di_captured_at data) (pa_valid_from p) (pa_valid_until p)
          then engine_deny Pass_is_expired None (Some (pa_id p))
          else if pa_max_entries p \<le> pa_used_entries p
          then engine_deny Pass_already_used None (Some (pa_id p))
          else engine_allow Temporary_pass_allowed None (Some (pa_id p)))"

definition decide_entry :: "access_db \<Rightarrow> decision_input \<Rightarrow> rat \<Rightarrow> engine_decision" where
  "decide_entry db data threshold =
     (if (case di_confidence data of None \<Rightarrow> False | Some c \<Rightarrow> c < threshold)
      then engine_manual_review Low_confidence None None
      else case decide_permanent db data of
             Some d \<Rightarrow> d
           | None \<Rightarrow> decide_taxi db data)"

end
