(* ===== verification/Ingestion.thy ===== *)
theory Ingestion
  imports DecisionEngine
begin

section \<open>Ingestion of a plate-recognition event\<close>

text \<open>
  \<open>access_control/services/ingestion.py\<close>: one call of \<open>ingest_anpr\<close> as one transaction, a
  function from the database to the committed database and the result.  The advisory lock
  serialises the calls that share a key, so a call is one step of the model.  Metrics, logging,
  the broadcast and the resident's notification follow the commit and change no table; they are
  left out.
\<close>

definition dedup_window_seconds :: int where "dedup_window_seconds = 10"
definition command_ttl_seconds :: int where "command_ttl_seconds = 120"
definition review_deadline_seconds :: int where "review_deadline_seconds = 120"
definition confidence_threshold :: rat where "confidence_threshold = 7 / 10"

text \<open>\<open>is_captured_at_fresh\<close> with its default skew of 300 seconds.\<close>

definition is_captured_at_fresh :: "instant \<Rightarrow> instant \<Rightarrow> int \<Rightarrow> bool" where
  "is_captured_at_fresh captured now max_skew \<longleftrightarrow> \<bar>now - captured\<bar> \<le> seconds max_skew"

record ingest_result =
  ir_decision :: decision_type
  ir_status :: decision_status
  ir_reason :: "decision_reason option"
  ir_decision_id :: "int option"
  ir_group_id :: "nat option"
  ir_command :: "command_out option"
  ir_replayed :: bool

record scope =
  sc_zone_id :: "int option"
  sc_gate_id :: "int option"
  sc_barrier_id :: "int option"
  sc_violation :: "decision_reason option"

definition authorize_scope :: "access_db \<Rightarrow> ingest_input \<Rightarrow> scope" where
  "authorize_scope db data =
     (let ctrl_zone = (case get_controller db (in_controller_id data) of
                         None \<Rightarrow> None | Some c \<Rightarrow> ec_zone_id c)
      in if in_zone_id data \<noteq> None \<and> ctrl_zone \<noteq> None \<and> in_zone_id data \<noteq> ctrl_zone
         then \<lparr>sc_zone_id = ctrl_zone, sc_gate_id = None, sc_barrier_id = None,
               sc_violation = Some Zone_not_allowed\<rparr>
         else
           let zone = (if ctrl_zone \<noteq> None then ctrl_zone else in_zone_id data);
               barrier_of = (\<lambda>gate. case gate of None \<Rightarrow> None
                                    | Some g \<Rightarrow> first_active_barrier_for_gate db g)
           in case in_gate_id data of
                Some g \<Rightarrow>
                  if gate_belongs_to_controller db g (in_controller_id data)
                  then \<lparr>sc_zone_id = zone, sc_gate_id = Some g,
                        sc_barrier_id = barrier_of (Some g), sc_violation = None\<rparr>
                  else \<lparr>sc_zone_id = zone, sc_gate_id = None, sc_barrier_id = None,
                        sc_violation = Some Zone_not_allowed\<rparr>
              | None \<Rightarrow>
                  let gate = first_active_gate_for_controller db (in_controller_id data)
                  in \<lparr>sc_zone_id = zone, sc_gate_id = gate, sc_barrier_id = barrier_of gate,
                      sc_violation = None\<rparr>)"

definition load_existing_result :: "access_db \<Rightarrow> int \<Rightarrow> ingest_result" where
  "load_existing_result db e =
     (case initial_for_event db e of
        None \<Rightarrow> \<lparr>ir_decision = Deny, ir_status = Denied, ir_reason = None, ir_decision_id = None,
                 ir_group_id = None, ir_command = None, ir_replayed = True\<rparr>
      | Some d \<Rightarrow> \<lparr>ir_decision = ad_decision d, ir_status = ad_status d, ir_reason = ad_reason d,
                 ir_decision_id = Some (ad_id d), ir_group_id = ad_group_id d,
                 ir_command = map_option command_out_of (command_for_decision db (ad_id d)),
                 ir_replayed = True\<rparr>)"

definition decide_exit :: "access_db \<Rightarrow> utext option \<Rightarrow> engine_decision" where
  "decide_exit db normalized =
     \<lparr>en_decision = Allow, en_reason = None, en_status = Allowed,
      en_vehicle_id = (case normalized of None \<Rightarrow> None
                        | Some p \<Rightarrow> if p = [] then None else vehicle_id_by_plate db p),
      en_pass_id = None\<rparr>"

definition open_presence_session :: "access_db \<Rightarrow> ingest_input \<Rightarrow> int \<Rightarrow> int \<Rightarrow> access_db" where
  "open_presence_session db data e v =
     (case in_zone_id data of
        None \<Rightarrow> db
      | Some z \<Rightarrow> fst (open_session db v (apartment_for_vehicle db v) z (in_captured_at data) (Some e)))"

definition close_presence_session_on_exit :: "access_db \<Rightarrow> ingest_input \<Rightarrow> int \<Rightarrow> int \<Rightarrow> access_db" where
  "close_presence_session_on_exit db data e v =
     (case in_zone_id data of
        None \<Rightarrow> db
      | Some z \<Rightarrow> fst (close_open_session_for_vehicle_zone db v z (in_captured_at data) (Some e)))"

text \<open>The decision on a new event: a violated scope denies, an exit is allowed, an entry goes to
  the engine.\<close>

definition engine_for :: "access_db \<Rightarrow> scope \<Rightarrow> ingest_input \<Rightarrow> utext option \<Rightarrow> rat \<Rightarrow> engine_decision" where
  "engine_for db scope data normalized threshold =
     (case sc_violation scope of
        Some reason \<Rightarrow> engine_deny reason None None
      | None \<Rightarrow>
          if in_direction data = Exit then decide_exit db normalized
          else decide_entry db
                 \<lparr>di_zone_id = in_zone_id data,
                  di_plate = (case normalized of None \<Rightarrow> [] | Some p \<Rightarrow> p),
                  di_direction = in_direction data, di_confidence = in_confidence data,
                  di_captured_at = in_captured_at data\<rparr> threshold)"

text \<open>An allowed taxi pass is consumed; when nothing was left of it the decision becomes a
  denial.\<close>

definition settle_taxi :: "access_db \<Rightarrow> engine_decision \<Rightarrow> access_db \<times> engine_decision" where
  "settle_taxi db en =
     (case (en_decision en, en_reason en, en_pass_id en) of
        (Allow, Some Temporary_pass_allowed, Some p) \<Rightarrow>
          (case consume_taxi_entry db p of
             (db', True) \<Rightarrow> (db', en)
           | (db', False) \<Rightarrow> (db', engine_deny Pass_already_used None (Some p)))
      | _ \<Rightarrow> (db, en))"

text \<open>A review is settled at once when an operator opened the barrier after the event; otherwise it
  waits until its deadline.\<close>

definition settle_review ::
    "ambient \<Rightarrow> access_db \<Rightarrow> int option \<Rightarrow> instant \<Rightarrow> engine_decision
     \<Rightarrow> engine_decision \<times> decision_status \<times> instant option" where
  "settle_review env db barrier captured en =
     (if en_decision en = Manual_review then
        if (case barrier of None \<Rightarrow> False | Some b \<Rightarrow> recent_open_exists db b captured)
        then (en\<lparr>en_decision := Allow, en_status := Allowed_manually\<rparr>, Allowed_manually, None)
        else (en, Pending_review, Some (env_now env + seconds review_deadline_seconds))
      else (en, en_status en, None))"

text \<open>The command of an allowed entry or exit, and the presence session it opens or closes.\<close>

definition issue_command ::
    "ambient \<Rightarrow> access_db \<Rightarrow> ingest_input \<Rightarrow> int option \<Rightarrow> access_decision \<Rightarrow> int
     \<Rightarrow> access_fault + (access_db \<times> command_out option)" where
  "issue_command env db data barrier d ttl =
     (case barrier of
        Some b \<Rightarrow>
          if ad_decision d = Allow \<and> ad_status d = Allowed then
            res_bind (create_open_command env db (in_controller_id data) b (Some (ad_id d)) ttl)
              (\<lambda>(db', c). Inr (db', Some c))
          else Inr (db, None)
      | None \<Rightarrow> Inr (db, None))"

definition track_presence :: "access_db \<Rightarrow> ingest_input \<Rightarrow> int \<Rightarrow> access_decision \<Rightarrow> access_db" where
  "track_presence db data e d =
     (case ad_vehicle_id d of
        Some v \<Rightarrow>
          if ad_decision d = Allow then
            if in_direction data = Exit then close_presence_session_on_exit db data e v
            else if ad_status d = Allowed then open_presence_session db data e v
            else db
          else db
      | None \<Rightarrow> db)"

text \<open>Steps 4 to 11 on an event just stored.\<close>

definition record_decision ::
    "(utext \<Rightarrow> string) \<Rightarrow> ambient \<Rightarrow> access_db \<Rightarrow> scope \<Rightarrow> ingest_input \<Rightarrow> utext option \<Rightarrow> int
     \<Rightarrow> int \<Rightarrow> rat \<Rightarrow> access_fault + (access_db \<times> ingest_result)" where
  "record_decision sha env db scope data normalized e ttl threshold =
     (case settle_taxi db (engine_for db scope data normalized threshold) of
        (db1, en1) \<Rightarrow>
     (case settle_review env db1 (sc_barrier_id scope) (in_captured_at data) en1 of
        (en, final, deadline) \<Rightarrow>
     res_bind (insert_initial sha env db1 e (en_decision en) final (en_reason en)
                 (en_vehicle_id en) (en_pass_id en) deadline (in_source data))
       (\<lambda>(db2, d).
     res_bind (insert_access_event sha db2 data e d normalized)
       (\<lambda>db3.
     res_bind (issue_command env db3 data (sc_barrier_id scope) d ttl)
       (\<lambda>(db4, cmd).
     Inr (track_presence db4 data e d,
          \<lparr>ir_decision = en_decision en, ir_status = final, ir_reason = en_reason en,
           ir_decision_id = Some (ad_id d), ir_group_id = ad_group_id d,
           ir_command = cmd, ir_replayed = False\<rparr>))))))"

definition run_ingest ::
    "(utext \<Rightarrow> string) \<Rightarrow> ambient \<Rightarrow> int \<Rightarrow> int \<Rightarrow> rat \<Rightarrow> access_db \<Rightarrow> ingest_input
     \<Rightarrow> access_fault + (access_db \<times> ingest_result)" where
  "run_ingest sha env window ttl threshold db raw =
     (let scope = authorize_scope db raw;
          data = raw\<lparr>in_zone_id := sc_zone_id scope, in_gate_id := sc_gate_id scope,
                     in_barrier_id := sc_barrier_id scope\<rparr>
      in case find_event_id db (in_controller_id data) (in_event_id data) of
           Some old \<Rightarrow> Inr (db, load_existing_result db old)
         | None \<Rightarrow>
             let normalized = (case in_plate_original data of
                    None \<Rightarrow> None
                  | Some p \<Rightarrow> if p = [] then None else Some (np_normalized (normalize_plate p None)))
             in case find_window_duplicate db data normalized window of
                  Some dup \<Rightarrow> Inr (db, load_existing_result db dup)
                | None \<Rightarrow>
                    (case insert_idempotent env db data normalized of
                       (db1, None) \<Rightarrow>
                         (case find_event_id db1 (in_controller_id data) (in_event_id data) of
                            None \<Rightarrow> Inl Desync
                          | Some old \<Rightarrow> Inr (db1, load_existing_result db1 old))
                     | (db1, Some e) \<Rightarrow>
                         record_decision sha env db1 scope data normalized e ttl threshold))"

definition ingest_anpr ::
    "(utext \<Rightarrow> string) \<Rightarrow> ambient \<Rightarrow> access_db \<Rightarrow> ingest_input
     \<Rightarrow> access_fault + (access_db \<times> ingest_result)" where
  "ingest_anpr sha env db raw =
     run_ingest sha env dedup_window_seconds command_ttl_seconds confidence_threshold db raw"

end
