(* ===== verification/ReviewLifecycle.thy ===== *)
theory ReviewLifecycle
  imports Ingestion
begin

section \<open>Reviews: resolution, manual opening, expiry\<close>

text \<open>
  \<open>services/lifecycle.py\<close>, \<open>services/review_expiry.py\<close> and \<open>services/presence.py\<close>.  A step of a
  decision's life is a new row that names the row it supersedes.  An operation returns the
  committed database with its result, or the database an aborted operation leaves with its
  error: \<open>db.rollback()\<close> before a \<open>raise\<close> leaves the old one, \<open>db.commit()\<close> before it keeps what was
  written.  Each operation runs under the lock of the event or barrier, one step of the model.
\<close>

definition manual_command_ttl_seconds :: int where "manual_command_ttl_seconds = 120"

datatype resolve_action = Manual_open | Deny_review | Other_action string

datatype lifecycle_error =
    NoPendingReview | InvalidResolveAction | UnknownBarrier | PendingReviewConflict int
  | DecisionIdMismatch | BarrierUnavailable | PresenceSessionNotFound | Fault access_fault

record resolve_result =
  rr_status :: decision_status
  rr_decision_id :: int
  rr_group_id :: "nat option"
  rr_command_id :: "nat option"
  rr_replayed :: bool

record manual_open_result =
  mr_opening_id :: int
  mr_command_id :: nat
  mr_barrier_id :: int

text \<open>\<open>reason and reason.strip()\<close> on a reason of any characters.\<close>

definition given_text :: "utext option \<Rightarrow> bool" where
  "given_text r = (case r of None \<Rightarrow> False | Some t \<Rightarrow> list_ex (\<lambda>c. \<not> py_space_point c) t)"

definition lift_fault :: "access_db \<Rightarrow> access_fault + 'a \<Rightarrow> (lifecycle_error \<times> access_db) + 'a" where
  "lift_fault db m = (case m of Inl f \<Rightarrow> Inl (Fault f, db) | Inr x \<Rightarrow> Inr x)"

definition replay_result :: "access_db \<Rightarrow> access_decision \<Rightarrow> resolve_result" where
  "replay_result db current =
     \<lparr>rr_status = ad_status current, rr_decision_id = ad_id current,
      rr_group_id = ad_group_id current,
      rr_command_id = (if ad_status current = Allowed_manually
                       then map_option bc_command_id (command_for_decision db (ad_id current))
                       else None),
      rr_replayed = True\<rparr>"

definition resolved :: "access_decision \<Rightarrow> access_decision \<Rightarrow> nat option \<Rightarrow> resolve_result" where
  "resolved current new cmd =
     \<lparr>rr_status = ad_status new, rr_decision_id = ad_id new, rr_group_id = ad_group_id current,
      rr_command_id = cmd, rr_replayed = False\<rparr>"

record resolve_args =
  ra_event_id :: int
  ra_action :: resolve_action
  ra_operator :: user_id
  ra_reason :: "utext option"
  ra_barrier_id :: "int option"
  ra_decision_id :: "int option"
  ra_source :: string
  ra_ip :: "string option"

text \<open>The opening of the barrier for a pending review.\<close>

definition resolve_open ::
    "(utext \<Rightarrow> string) \<Rightarrow> ambient \<Rightarrow> access_db \<Rightarrow> resolve_args \<Rightarrow> access_decision \<Rightarrow> int \<Rightarrow> int \<Rightarrow> utext
     \<Rightarrow> (lifecycle_error \<times> access_db) + (access_db \<times> resolve_result)" where
  "resolve_open sha env db args current barrier controller reason =
     (case insert_transition sha db current Allowed_manually Allow (Some (ra_operator args)) (env_now env) of
        (db1, new) \<Rightarrow>
          res_bind (lift_fault db (create_open_command env db1 controller barrier (Some (ad_id new))
                      manual_command_ttl_seconds))
            (\<lambda>(db2, cmd).
              let db3 = fst (insert_manual_opening sha env db2 barrier (co_command_id cmd)
                          (Some (ad_id new)) (ra_operator args) reason (Some (ra_event_id args)));
                  db4 = insert_audit sha db3 (Some (ra_operator args)) ''access.manual_open''
                          ''access_decision'' (Some (ad_id new)) (Some barrier) (ra_source args)
                          (ra_reason args) (ra_ip args) []
              in Inr (db4, resolved current new (Some (co_command_id cmd)))))"

definition resolve_deny ::
    "(utext \<Rightarrow> string) \<Rightarrow> ambient \<Rightarrow> access_db \<Rightarrow> resolve_args \<Rightarrow> access_decision \<Rightarrow> int option
     \<Rightarrow> access_db \<times> resolve_result" where
  "resolve_deny sha env db args current barrier =
     (case insert_transition sha db current Denied_manually Deny (Some (ra_operator args)) (env_now env) of
        (db1, new) \<Rightarrow>
          (insert_audit sha db1 (Some (ra_operator args)) ''access.deny'' ''access_decision''
             (Some (ad_id new)) barrier (ra_source args) (ra_reason args) (ra_ip args) [],
           resolved current new None))"

definition expire_on_resolve ::
    "(utext \<Rightarrow> string) \<Rightarrow> ambient \<Rightarrow> access_db \<Rightarrow> resolve_args \<Rightarrow> access_decision \<Rightarrow> int option
     \<Rightarrow> access_db \<times> resolve_result" where
  "expire_on_resolve sha env db args current barrier =
     (case insert_transition sha db current Expired Manual_review None (env_now env) of
        (db1, new) \<Rightarrow>
          (insert_audit sha db1 None ''access.review_expired_lazy'' ''access_decision''
             (Some (ad_id new)) barrier (ra_source args) None (ra_ip args)
             [(''triggered_by_user_id'', CInt (ra_operator args))],
           resolved current new None))"

definition resolve_event ::
    "(utext \<Rightarrow> string) \<Rightarrow> ambient \<Rightarrow> access_db \<Rightarrow> resolve_args
     \<Rightarrow> (lifecycle_error \<times> access_db) + (access_db \<times> resolve_result)" where
  "resolve_event sha env db args =
     (case ra_action args of
        Other_action _ \<Rightarrow> Inl (InvalidResolveAction, db)
      | _ \<Rightarrow>
     (case barrier_and_controller_for_event db (ra_event_id args) of
        (barrier, controller) \<Rightarrow>
     (if lock_key_for_event db (ra_event_id args) = None then Inl (NoPendingReview, db)
      else case latest_for_event db (ra_event_id args) of
        None \<Rightarrow> Inl (NoPendingReview, db)
      | Some current \<Rightarrow>
          if overdue (env_now env) current then Inr (expire_on_resolve sha env db args current barrier)
          else if ad_status current \<noteq> Pending_review then Inr (db, replay_result db current)
          else if (case ra_decision_id args of None \<Rightarrow> False | Some d \<Rightarrow> d \<noteq> ad_id current)
            then Inl (DecisionIdMismatch, db)
          else if ra_action args = Manual_open then
            (if \<not> given_text (ra_reason args) \<or> ra_barrier_id args = None \<or> ra_decision_id args = None
             then Inl (InvalidResolveAction, db)
             else case (barrier, controller, ra_reason args) of
                    (Some b, Some c, Some reason) \<Rightarrow> resolve_open sha env db args current b c reason
                  | _ \<Rightarrow> Inl (BarrierUnavailable, db))
          else if \<not> given_text (ra_reason args) then Inl (InvalidResolveAction, db)
          else Inr (resolve_deny sha env db args current barrier))))"

subsection \<open>Standalone manual opening\<close>

definition expire_ids ::
    "(utext \<Rightarrow> string) \<Rightarrow> instant \<Rightarrow> access_db \<Rightarrow> int list \<Rightarrow> access_db" where
  "expire_ids sha now =
     foldl (\<lambda>db i. case get_decision db i of
              None \<Rightarrow> db
            | Some current \<Rightarrow>
                if ad_status current \<noteq> Pending_review then db
                else fst (insert_transition sha db current Expired Manual_review None now))"

definition lazy_expire_barrier_pending ::
    "(utext \<Rightarrow> string) \<Rightarrow> access_db \<Rightarrow> int \<Rightarrow> instant \<Rightarrow> access_db" where
  "lazy_expire_barrier_pending sha db b now =
     expire_ids sha now db (expired_pending_ids_for_barrier db b now)"

record manual_open_args =
  ma_barrier_id :: int
  ma_operator :: user_id
  ma_reason :: utext
  ma_source :: string
  ma_ip :: "string option"

definition manual_open_barrier ::
    "(utext \<Rightarrow> string) \<Rightarrow> ambient \<Rightarrow> access_db \<Rightarrow> manual_open_args
     \<Rightarrow> (lifecycle_error \<times> access_db) + (access_db \<times> manual_open_result)" where
  "manual_open_barrier sha env db args =
     (if \<not> given_text (Some (ma_reason args)) then Inl (InvalidResolveAction, db)
      else case active_controller_for_barrier db (ma_barrier_id args) of
        None \<Rightarrow> Inl (UnknownBarrier, db)
      | Some c \<Rightarrow>
          let b = ma_barrier_id args;
              db1 = lazy_expire_barrier_pending sha db b (env_now env)
          in case active_pending_event_for_barrier db1 b (env_now env) of
               Some e \<Rightarrow> Inl (PendingReviewConflict e, db1)
             | None \<Rightarrow>
                 res_bind (lift_fault db (create_open_command env db1 c b None manual_command_ttl_seconds))
                   (\<lambda>(db2, cmd).
                     case insert_manual_opening sha env db2 b (co_command_id cmd) None
                            (ma_operator args) (ma_reason args) None of
                       (db3, i) \<Rightarrow>
                         Inr (insert_audit sha db3 (Some (ma_operator args))
                                ''access.barrier_manual_open'' ''access_barrier'' (Some b) (Some b)
                                (ma_source args) (Some (ma_reason args)) (ma_ip args) [],
                              \<lparr>mr_opening_id = i, mr_command_id = co_command_id cmd,
                               mr_barrier_id = b\<rparr>)))"

subsection \<open>The expiry worker\<close>

text \<open>The due reviews with the active barriers at their gate: a row per barrier, or one without.\<close>

definition barriers_of_decision :: "access_db \<Rightarrow> access_decision \<Rightarrow> int option list" where
  "barriers_of_decision db d =
     concat (map (\<lambda>ce.
        let bs = filter (\<lambda>b. ce_gate_id ce = Some (ba_gate_id b) \<and> ba_is_active b) (barriers db)
        in if bs = [] then [None] else map (Some \<circ> ba_id) bs)
       (filter (\<lambda>ce. ce_id ce = ad_camera_event_id d) (camera_events db)))"

definition due_reviews :: "access_db \<Rightarrow> instant \<Rightarrow> (int \<times> int option) list" where
  "due_reviews db now =
     sort_key fst (concat (map (\<lambda>d. map (Pair (ad_id d)) (barriers_of_decision db d))
       (filter (\<lambda>d. overdue now d \<and> is_current db d) (decisions db))))"

definition current_decision_if_pending :: "access_db \<Rightarrow> int \<Rightarrow> access_decision option" where
  "current_decision_if_pending db i =
     (case get_decision db i of
        None \<Rightarrow> None
      | Some d \<Rightarrow>
          if ad_status d \<noteq> Pending_review \<or> list_ex (\<lambda>x. ad_supersedes x = Some i) (decisions db)
          then None else Some d)"

text \<open>\<open>_write_expired_transition\<close> writes the row that \<open>insert_transition\<close> writes without an
  operator.\<close>

definition expire_one ::
    "(utext \<Rightarrow> string) \<Rightarrow> instant \<Rightarrow> access_db \<times> nat \<Rightarrow> int \<times> int option \<Rightarrow> access_db \<times> nat" where
  "expire_one sha now st due =
     (case st of (db, n) \<Rightarrow>
      (case current_decision_if_pending db (fst due) of
         None \<Rightarrow> (db, n)
       | Some current \<Rightarrow>
           (case insert_transition sha db current Expired Manual_review None now of
              (db1, new) \<Rightarrow>
                (insert_audit sha db1 None ''access.review_expired'' ''access_decision''
                   (Some (ad_id new)) (snd due) ''review_expiry_worker'' None None [],
                 Suc n))))"

definition expire_due_reviews ::
    "(utext \<Rightarrow> string) \<Rightarrow> access_db \<Rightarrow> instant \<Rightarrow> access_db \<times> nat" where
  "expire_due_reviews sha db now = foldl (expire_one sha now) (db, 0) (due_reviews db now)"

subsection \<open>Closing a presence session by hand\<close>

record presence_close_result =
  pc_session_id :: int
  pc_status :: presence_status
  pc_closed_by :: "user_id option"
  pc_replayed :: bool

definition close_presence_session ::
    "(utext \<Rightarrow> string) \<Rightarrow> ambient \<Rightarrow> access_db \<Rightarrow> int \<Rightarrow> user_id \<Rightarrow> string \<Rightarrow> string option
     \<Rightarrow> (lifecycle_error \<times> access_db) + (access_db \<times> presence_close_result)" where
  "close_presence_session sha env db i operator reason ip =
     (case get_session db i of
        None \<Rightarrow> Inl (PresenceSessionNotFound, db)
      | Some s \<Rightarrow>
          if ps_status s \<noteq> Presence_open
          then Inr (db, \<lparr>pc_session_id = ps_id s, pc_status = ps_status s,
                          pc_closed_by = ps_closed_by s, pc_replayed = True\<rparr>)
          else
            case close_session_manual db i operator (take 32 reason) (env_now env) of
              (_, None) \<Rightarrow> Inr (db, \<lparr>pc_session_id = i, pc_status = ps_status s,
                                   pc_closed_by = ps_closed_by s, pc_replayed = True\<rparr>)
            | (db1, Some _) \<Rightarrow>
                Inr (insert_audit sha db1 (Some operator) ''access.presence_close''
                       ''vehicle_presence_session'' (Some i) None ''operator_presence_close''
                       (Some (utext_of reason)) ip [],
                     \<lparr>pc_session_id = i, pc_status = Presence_closed,
                      pc_closed_by = Some operator, pc_replayed = False\<rparr>))"

end
