(* ===== verification/GuestCodes.thy ===== *)
theory GuestCodes
  imports AccessWrites
begin

section \<open>One-time guest codes\<close>

text \<open>
  \<open>services/one_time_codes.py\<close> and \<open>services/code_rate_limit.py\<close>.  \<open>hmac\<close> is
  \<open>HMAC-SHA256(code, ACCESS_CODE_SECRET)\<close> in hexadecimal, a parameter.  Every refusal is the one
  \<open>CodeRedeemError\<close> and rolls back.
\<close>

definition guest_code_command_ttl_seconds :: int where "guest_code_command_ttl_seconds = 120"

datatype redeem_error = CodeRedeemError | Redeem_fault access_fault

record redeem_result =
  re_pass_id :: int
  re_apartment_id :: int
  re_pass_type :: pass_type
  re_valid_until :: "instant option"
  re_command_id :: nat
  re_barrier_id :: int

text \<open>A named barrier must be active; otherwise the first active barrier in the pass's zone.  The
  left result is \<open>int(None)\<close> on a barrier of that zone without a controller.\<close>

definition resolve_barrier ::
    "access_db \<Rightarrow> int option \<Rightarrow> int option \<Rightarrow> access_fault + (int \<times> int) option" where
  "resolve_barrier db zone barrier =
     (case barrier of
        Some b \<Rightarrow> Inr (map_option (Pair b) (active_controller_for_barrier db b))
      | None \<Rightarrow>
          (case zone of
             None \<Rightarrow> Inr None
           | Some z \<Rightarrow>
               (case least_row ba_id (filter (\<lambda>b. ba_is_active b
                        \<and> list_ex (\<lambda>g. ga_id g = ba_gate_id b \<and> ga_zone_id g = z) (gates db))
                      (barriers db)) of
                  None \<Rightarrow> Inr None
                | Some b \<Rightarrow>
                    (case ba_controller_id b of
                       None \<Rightarrow> Inl Type_error
                     | Some c \<Rightarrow> Inr (Some (ba_id b, c))))))"

definition redeemable :: "string \<Rightarrow> instant \<Rightarrow> access_pass \<Rightarrow> bool" where
  "redeemable hash now p \<longleftrightarrow>
     pa_pass_type p = Guest \<and> pa_code_hash p = Some hash \<and> pa_status p = Pass_active
     \<and> (case pa_valid_until p of None \<Rightarrow> False | Some u \<Rightarrow> now < u)
     \<and> pa_used_entries p < pa_max_entries p"

definition find_candidate :: "access_db \<Rightarrow> string \<Rightarrow> instant \<Rightarrow> access_pass option" where
  "find_candidate db hash now = first_row (redeemable hash now) (passes db)"

text \<open>The atomic \<open>UPDATE\<close> and its row count.\<close>

definition redeem_entry :: "access_db \<Rightarrow> int \<Rightarrow> access_db \<times> nat" where
  "redeem_entry db p =
     (let hit = (\<lambda>r. pa_id r = p \<and> pa_status r = Pass_active \<and> pa_used_entries r < pa_max_entries r);
          f = (\<lambda>r. r\<lparr>pa_used_entries := pa_used_entries r + 1,
                      pa_status := if pa_max_entries r \<le> pa_used_entries r + 1 then Pass_used
                                   else pa_status r\<rparr>)
      in (db\<lparr>passes := upd_where hit f (passes db)\<rparr>, row_count hit (passes db)))"

definition redeem_code ::
    "(utext \<Rightarrow> string) \<Rightarrow> (string \<Rightarrow> string) \<Rightarrow> ambient \<Rightarrow> access_db \<Rightarrow> string \<Rightarrow> user_id
     \<Rightarrow> int option \<Rightarrow> string option \<Rightarrow> redeem_error + (access_db \<times> redeem_result)" where
  "redeem_code sha hmac env db code operator barrier ip =
     (let hash = hmac code in
      case find_candidate db hash (env_now env) of
        None \<Rightarrow> Inl CodeRedeemError
      | Some cand \<Rightarrow>
          if pa_code_hash cand \<noteq> Some hash then Inl CodeRedeemError
          else
            case resolve_barrier db (pa_zone_id cand) barrier of
              Inl f \<Rightarrow> Inl (Redeem_fault f)
            | Inr None \<Rightarrow> Inl CodeRedeemError
            | Inr (Some (b, c)) \<Rightarrow>
                (case redeem_entry db (pa_id cand) of
                   (db1, n) \<Rightarrow>
                     if n \<noteq> 1 then Inl CodeRedeemError
                     else
                       case create_open_command env db1 c b None guest_code_command_ttl_seconds of
                         Inl f \<Rightarrow> Inl (Redeem_fault f)
                       | Inr (db2, cmd) \<Rightarrow>
                           let db3 = fst (insert_manual_opening sha env db2 b (co_command_id cmd) None
                                       operator (utext_of ''guest_code'') None);
                               db4 = insert_audit sha db3 (Some operator) ''access.guest_code_redeemed''
                                       ''access_pass'' (Some (pa_id cand)) (Some b) ''guest_code'' None ip
                                       [(''apartment_id'', CInt (pa_apartment_id cand)),
                                        (''pass_type'', ctext (pass_type_value (pa_pass_type cand)))]
                           in Inr (db4, \<lparr>re_pass_id = pa_id cand,
                                re_apartment_id = pa_apartment_id cand,
                                re_pass_type = pa_pass_type cand,
                                re_valid_until = pa_valid_until cand,
                                re_command_id = co_command_id cmd, re_barrier_id = b\<rparr>)))"

subsection \<open>Failure counters\<close>

definition failure_threshold :: nat where "failure_threshold = 5"
definition failure_window_seconds :: int where "failure_window_seconds = 600"

text \<open>The in-memory store: the instants of the failed attempts of each key, oldest first.  The
  periodic rebuild of a large dictionary drops nothing a count looks at.\<close>

type_synonym failure_store = "string \<Rightarrow> instant list"

definition prune :: "instant \<Rightarrow> int \<Rightarrow> instant list \<Rightarrow> instant list" where
  "prune now window ts = filter (\<lambda>t. now - seconds window < t) ts"

definition record_failure :: "instant \<Rightarrow> failure_store \<Rightarrow> string \<Rightarrow> int \<Rightarrow> failure_store \<times> nat" where
  "record_failure now st k window =
     (let kept = prune now window (st k) @ [now] in (st(k := kept), length kept))"

definition failure_count :: "instant \<Rightarrow> failure_store \<Rightarrow> string \<Rightarrow> int \<Rightarrow> failure_store \<times> nat" where
  "failure_count now st k window =
     (let kept = prune now window (st k) in (st(k := kept), length kept))"

text \<open>The Redis store: a count with the end of its window, set by the first failure.\<close>

type_synonym redis_store = "string \<Rightarrow> (nat \<times> instant) option"

definition redis_live :: "instant \<Rightarrow> redis_store \<Rightarrow> string \<Rightarrow> (nat \<times> instant) option" where
  "redis_live now st k = (case st k of None \<Rightarrow> None | Some (n, e) \<Rightarrow> if e \<le> now then None else Some (n, e))"

definition redis_record_failure :: "instant \<Rightarrow> redis_store \<Rightarrow> string \<Rightarrow> int \<Rightarrow> redis_store \<times> nat" where
  "redis_record_failure now st k window =
     (case redis_live now st k of
        None \<Rightarrow> (st(k := Some (1, now + seconds window)), 1)
      | Some (n, e) \<Rightarrow> (st(k := Some (Suc n, e)), Suc n))"

definition redis_failure_count :: "instant \<Rightarrow> redis_store \<Rightarrow> string \<Rightarrow> int \<Rightarrow> redis_store \<times> nat" where
  "redis_failure_count now st k window =
     (case redis_live now st k of None \<Rightarrow> (st, 0) | Some (n, e) \<Rightarrow> (st, n))"

text \<open>The account, the address and the code's hash are counted; \<open>source_ip or 'unknown'\<close>.\<close>

definition rate_limit_keys :: "user_id \<Rightarrow> string option \<Rightarrow> string \<Rightarrow> string list" where
  "rate_limit_keys operator ip hash =
     [''op:'' @ int_str operator,
      ''ip:'' @ (if py_truthy_str ip then the ip else ''unknown''),
      ''code:'' @ hash]"

text \<open>\<open>any(...)\<close> stops at the first blocked key.\<close>

fun is_blocked ::
    "('s \<Rightarrow> string \<Rightarrow> int \<Rightarrow> 's \<times> nat) \<Rightarrow> 's \<Rightarrow> string list \<Rightarrow> 's \<times> bool" where
  "is_blocked counter st [] = (st, False)"
| "is_blocked counter st (k # ks) =
     (case counter st k failure_window_seconds of
        (st', n) \<Rightarrow> if failure_threshold \<le> n then (st', True) else is_blocked counter st' ks)"

fun record_failures ::
    "('s \<Rightarrow> string \<Rightarrow> int \<Rightarrow> 's \<times> nat) \<Rightarrow> 's \<Rightarrow> string list \<Rightarrow> 's \<times> bool" where
  "record_failures rec st [] = (st, False)"
| "record_failures rec st (k # ks) =
     (case rec st k failure_window_seconds of
        (st', n) \<Rightarrow>
          (case record_failures rec st' ks of
             (st'', later) \<Rightarrow> (st'', failure_threshold \<le> n \<or> later)))"

end
