(* ===== verification/BarrierQueue.thy ===== *)
theory BarrierQueue
  imports AccessWrites
begin

section \<open>The command queue of a controller\<close>

text \<open>
  \<open>api/commands.py\<close>: a controller leases one pending command at a time and acknowledges it by
  compare-and-set on the hash of the token it was given; \<open>services/barrier_worker.py\<close> counts the
  queue.  \<open>sha\<close> is SHA-256 in hexadecimal.  An attempt is one transaction; the long poll repeats
  attempts until one returns a command or the time is over.
\<close>

definition lease_ttl_seconds :: int where "lease_ttl_seconds = 30"

definition hash_lease_token :: "(utext \<Rightarrow> string) \<Rightarrow> string \<Rightarrow> string" where
  "hash_lease_token sha token = sha (utext_of token)"

record leased_command =
  lc_command_id :: nat
  lc_barrier_id :: int
  lc_lease_token :: string
  lc_expires_at :: "instant option"

definition leasable :: "instant \<Rightarrow> int \<Rightarrow> int \<Rightarrow> barrier_command \<Rightarrow> bool" where
  "leasable now controller ttl c \<longleftrightarrow>
     bc_controller_id c = controller \<and> bc_status c = Command_pending
     \<and> (case bc_expires_at c of None \<Rightarrow> True | Some t \<Rightarrow> now + seconds ttl < t)"

definition lease_row :: "instant \<Rightarrow> int \<Rightarrow> string \<Rightarrow> barrier_command \<Rightarrow> barrier_command" where
  "lease_row now ttl hash c =
     c\<lparr>bc_status := Command_leased, bc_lease_token := Some hash,
       bc_lease_expires_at := Some (now + seconds ttl), bc_attempts := bc_attempts c + 1,
       bc_leased_at := Some now\<rparr>"

text \<open>One attempt: the oldest leasable command, by \<open>created_at\<close>.  \<open>now\<close> is the database's clock and
  \<open>token\<close> the \<open>uuid4\<close> text drawn for the lease.\<close>

definition try_lease ::
    "(utext \<Rightarrow> string) \<Rightarrow> access_db \<Rightarrow> instant \<Rightarrow> string \<Rightarrow> int \<Rightarrow> int
     \<Rightarrow> access_db \<times> leased_command option" where
  "try_lease sha db now token controller ttl =
     (case least_row bc_created_at (filter (leasable now controller ttl) (commands db)) of
        None \<Rightarrow> (db, None)
      | Some c \<Rightarrow>
          (db\<lparr>commands := upd_where (\<lambda>r. bc_command_id r = bc_command_id c)
                (lease_row now ttl (hash_lease_token sha token)) (commands db)\<rparr>,
           Some \<lparr>lc_command_id = bc_command_id c, lc_barrier_id = bc_barrier_id c,
                 lc_lease_token = token, lc_expires_at = bc_expires_at c\<rparr>))"

text \<open>The poll on a database nobody else writes: the attempts' clock readings and tokens in order.\<close>

fun lease_next_command ::
    "(utext \<Rightarrow> string) \<Rightarrow> access_db \<Rightarrow> (instant \<times> string) list \<Rightarrow> int \<Rightarrow> int
     \<Rightarrow> access_db \<times> leased_command option" where
  "lease_next_command sha db [] controller ttl = (db, None)"
| "lease_next_command sha db ((now, token) # attempts) controller ttl =
     (case try_lease sha db now token controller ttl of
        (db', Some l) \<Rightarrow> (db', Some l)
      | (db', None) \<Rightarrow> lease_next_command sha db' attempts controller ttl)"

record ack_outcome =
  ao_command_id :: nat
  ao_result :: "string option"
  ao_replayed :: bool

definition ack_row :: "instant \<Rightarrow> string option \<Rightarrow> barrier_command \<Rightarrow> barrier_command" where
  "ack_row now result c =
     c\<lparr>bc_status := Command_acked, bc_acked_at := Some now, bc_ack_result := result\<rparr>"

text \<open>\<open>None\<close> is the raised \<open>AckConflict\<close>, after a rollback.\<close>

definition ack_command ::
    "(utext \<Rightarrow> string) \<Rightarrow> access_db \<Rightarrow> instant \<Rightarrow> int \<Rightarrow> nat \<Rightarrow> string \<Rightarrow> string option
     \<Rightarrow> (access_db \<times> ack_outcome) option" where
  "ack_command sha db now controller cmd token result =
     (let hash = hash_lease_token sha token;
          mine = (\<lambda>c. bc_command_id c = cmd \<and> bc_controller_id c = controller);
          hit = (\<lambda>c. mine c \<and> bc_lease_token c = Some hash \<and> bc_status c = Command_leased)
      in if 0 < row_count hit (commands db)
         then Some (db\<lparr>commands := upd_where hit (ack_row now result) (commands db)\<rparr>,
                    \<lparr>ao_command_id = cmd, ao_result = result, ao_replayed = False\<rparr>)
         else case first_row mine (commands db) of
                Some c \<Rightarrow>
                  if bc_status c = Command_acked \<and> bc_lease_token c = Some hash
                  then Some (db, \<lparr>ao_command_id = cmd, ao_result = bc_ack_result c, ao_replayed = True\<rparr>)
                  else None
              | None \<Rightarrow> None)"

record queue_metrics =
  qm_max_pending_age :: "int option"
  qm_pending :: nat
  qm_leased :: nat
  qm_dead :: nat

definition queue_metrics_of :: "access_db \<Rightarrow> instant \<Rightarrow> int \<Rightarrow> queue_metrics" where
  "queue_metrics_of db now controller =
     (let mine = filter (\<lambda>c. bc_controller_id c = controller) (commands db);
          pending = filter (\<lambda>c. bc_status c = Command_pending) mine
      in \<lparr>qm_max_pending_age = map_option (\<lambda>c. now - bc_created_at c) (least_row bc_created_at pending),
          qm_pending = length pending,
          qm_leased = row_count (\<lambda>c. bc_status c = Command_leased) mine,
          qm_dead = row_count (\<lambda>c. bc_status c = Command_dead) mine\<rparr>)"

end
