(* ===== verification/EdgeConsumer.thy ===== *)
theory EdgeConsumer
  imports BarrierQueue
begin

section \<open>The edge side: relay and consumer\<close>

text \<open>
  \<open>integrations/relay.py\<close> and \<open>edge/command_consumer.py\<close>.  A relay is the adapter's \<open>open\<close>, as a
  function from the command and the relay's state; what the consumer keeps between calls is its
  store of processed commands.  The two stores of the source, the dictionary and the JSON file
  that survives a restart, are instances of one interface.
\<close>

record relay_result =
  rl_command_id :: nat
  rl_opened :: bool
  rl_deduplicated :: bool
  rl_detail :: "string option"

subsection \<open>The mock relay\<close>

record mock_relay =
  mk_calls :: "nat list"
  mk_results :: "nat \<Rightarrow> relay_result option"
  mk_opens :: "nat \<Rightarrow> nat"

definition mock_open :: "mock_relay \<Rightarrow> nat \<Rightarrow> mock_relay \<times> relay_result" where
  "mock_open m c =
     (let m' = m\<lparr>mk_calls := mk_calls m @ [c]\<rparr>
      in case mk_results m c of
           Some saved \<Rightarrow> (m', saved\<lparr>rl_deduplicated := True\<rparr>)
         | None \<Rightarrow>
             let r = \<lparr>rl_command_id = c, rl_opened = True, rl_deduplicated = False, rl_detail = None\<rparr>
             in (m'\<lparr>mk_opens := (mk_opens m)(c := mk_opens m c + 1),
                    mk_results := (mk_results m)(c := Some r)\<rparr>, r))"

definition mock_new :: mock_relay where
  "mock_new = \<lparr>mk_calls = [], mk_results = (\<lambda>_. None), mk_opens = (\<lambda>_. 0)\<rparr>"

subsection \<open>Stores of processed commands\<close>

text \<open>\<open>ProcessedStore\<close>: what is put is found, up to the two fields a consumer relies on, and
  nothing else changes.\<close>

locale processed_store =
  fixes get :: "'s \<Rightarrow> nat \<Rightarrow> relay_result option"
    and put :: "'s \<Rightarrow> nat \<Rightarrow> relay_result \<Rightarrow> 's"
  assumes get_put_same: "\<exists>r'. get (put s c r) c = Some r' \<and> rl_opened r' = rl_opened r"
    and get_put_other: "c \<noteq> d \<Longrightarrow> get (put s c r) d = get s d"
begin

lemma get_put_known: "get s d \<noteq> None \<Longrightarrow> get (put s c r) d \<noteq> None"
  using get_put_same [of s c r] get_put_other [of c d s r] by (cases "c = d") auto

end

type_synonym memory_store = "nat \<Rightarrow> relay_result option"

definition memory_get :: "memory_store \<Rightarrow> nat \<Rightarrow> relay_result option" where
  "memory_get s c = s c"

definition memory_put :: "memory_store \<Rightarrow> nat \<Rightarrow> relay_result \<Rightarrow> memory_store" where
  "memory_put s c r = s(c := Some r)"

text \<open>The file holds, per command, whether the relay opened and the detail; a restart reads the
  file the last \<open>put\<close> replaced.\<close>

record file_store =
  fs_data :: "nat \<Rightarrow> (bool \<times> string option) option"
  fs_file :: "(nat \<Rightarrow> (bool \<times> string option) option) option"

definition file_get :: "file_store \<Rightarrow> nat \<Rightarrow> relay_result option" where
  "file_get s c =
     map_option (\<lambda>(opened, detail).
       \<lparr>rl_command_id = c, rl_opened = opened, rl_deduplicated = False, rl_detail = detail\<rparr>)
     (fs_data s c)"

definition file_put :: "file_store \<Rightarrow> nat \<Rightarrow> relay_result \<Rightarrow> file_store" where
  "file_put s c r =
     (let d = (fs_data s)(c := Some (rl_opened r, rl_detail r))
      in s\<lparr>fs_data := d, fs_file := Some d\<rparr>)"

definition file_restart :: "file_store \<Rightarrow> file_store" where
  "file_restart s = s\<lparr>fs_data := (case fs_file s of None \<Rightarrow> (\<lambda>_. None) | Some d \<Rightarrow> d)\<rparr>"

interpretation memory: processed_store memory_get memory_put
  by unfold_locales (auto simp: memory_get_def memory_put_def)

interpretation file_backed: processed_store file_get file_put
  by unfold_locales (auto simp: file_get_def file_put_def Let_def)

subsection \<open>The consumer\<close>

text \<open>The relay as the consumer sees it: what \<open>open\<close> returns for a command.  The second component holds the
  commands the relay was called with, in order.\<close>

definition open_once ::
    "('s \<Rightarrow> nat \<Rightarrow> relay_result option) \<Rightarrow> ('s \<Rightarrow> nat \<Rightarrow> relay_result \<Rightarrow> 's)
     \<Rightarrow> (nat \<Rightarrow> int \<Rightarrow> relay_result) \<Rightarrow> 's \<times> nat list \<Rightarrow> nat \<Rightarrow> int
     \<Rightarrow> ('s \<times> nat list) \<times> relay_result" where
  "open_once get put relay st c b =
     (case st of (s, calls) \<Rightarrow>
      (case get s c of
         Some saved \<Rightarrow> ((s, calls), saved\<lparr>rl_deduplicated := True\<rparr>)
       | None \<Rightarrow> (let r = relay c b in ((put s c r, calls @ [c]), r))))"

record process_outcome =
  po_command_id :: nat
  po_relay_opened :: bool
  po_deduplicated :: bool
  po_acked :: bool
  po_ack_replayed :: bool
  po_expired :: bool

definition on_fast_path ::
    "('s \<Rightarrow> nat \<Rightarrow> relay_result option) \<Rightarrow> ('s \<Rightarrow> nat \<Rightarrow> relay_result \<Rightarrow> 's)
     \<Rightarrow> (nat \<Rightarrow> int \<Rightarrow> relay_result) \<Rightarrow> 's \<times> nat list \<Rightarrow> nat \<Rightarrow> int
     \<Rightarrow> ('s \<times> nat list) \<times> process_outcome" where
  "on_fast_path get put relay st c b =
     (case open_once get put relay st c b of
        (st', r) \<Rightarrow> (st', \<lparr>po_command_id = c, po_relay_opened = rl_opened r,
                          po_deduplicated = rl_deduplicated r, po_acked = False,
                          po_ack_replayed = False, po_expired = False\<rparr>))"

definition is_expired :: "instant \<Rightarrow> instant option \<Rightarrow> bool" where
  "is_expired now expires = (case expires of None \<Rightarrow> False | Some t \<Rightarrow> t \<le> now)"

text \<open>One pull against the server's queue: lease, open unless the command is stale, acknowledge
  with the token of the lease.  The results are the two JSON bodies.\<close>

definition pull_once ::
    "('s \<Rightarrow> nat \<Rightarrow> relay_result option) \<Rightarrow> ('s \<Rightarrow> nat \<Rightarrow> relay_result \<Rightarrow> 's)
     \<Rightarrow> (nat \<Rightarrow> int \<Rightarrow> relay_result) \<Rightarrow> (utext \<Rightarrow> string) \<Rightarrow> int \<Rightarrow> instant \<Rightarrow> instant \<Rightarrow> string
     \<Rightarrow> access_db \<Rightarrow> 's \<times> nat list \<Rightarrow> (access_db \<times> ('s \<times> nat list)) \<times> process_outcome option" where
  "pull_once get put relay sha controller db_now edge_now token db st =
     (case try_lease sha db db_now token controller lease_ttl_seconds of
        (db1, None) \<Rightarrow> ((db1, st), None)
      | (db1, Some l) \<Rightarrow>
          let c = lc_command_id l;
              acked = (\<lambda>db result. ack_command sha db db_now controller c (lc_lease_token l) (Some result));
              after = (\<lambda>a db. case a of None \<Rightarrow> db | Some (db', _) \<Rightarrow> db');
              replayed = (\<lambda>a. case a of None \<Rightarrow> False | Some (_, out) \<Rightarrow> ao_replayed out)
          in if is_expired edge_now (lc_expires_at l) then
               let a = acked db1 ''skipped: expired''
               in ((after a db1, st),
                   Some \<lparr>po_command_id = c, po_relay_opened = False, po_deduplicated = False,
                         po_acked = (a \<noteq> None), po_ack_replayed = replayed a, po_expired = True\<rparr>)
             else
               (case open_once get put relay st c (lc_barrier_id l) of
                  (st', r) \<Rightarrow>
                    let a = acked db1 (if rl_opened r then ''opened: true'' else ''opened: false'')
                    in ((after a db1, st'),
                        Some \<lparr>po_command_id = c, po_relay_opened = rl_opened r,
                              po_deduplicated = rl_deduplicated r, po_acked = (a \<noteq> None),
                              po_ack_replayed = replayed a, po_expired = False\<rparr>)))"

end
