(* ===== verification/AccessSteps.thy ===== *)
theory AccessSteps
  imports ReviewLifecycle GuestCodes EdgeConsumer "HOL-Library.Sublist"
begin

section \<open>Elementary writes and the invariant of the access database\<close>

text \<open>
  Every operation of the access services is a sequence of elementary writes, each with the guard
  under which the code makes it.  The invariant is proved once per write; the operations inherit
  it by being such sequences.
\<close>

subsection \<open>The writes\<close>

definition unsuperseded :: "access_db \<Rightarrow> access_decision \<Rightarrow> bool" where
  "unsuperseded db d \<longleftrightarrow>
     d \<in> set (decisions db) \<and> list_all (\<lambda>x. ad_supersedes x \<noteq> Some (ad_id d)) (decisions db)"

definition decision_shape :: "access_decision \<Rightarrow> bool" where
  "decision_shape d \<longleftrightarrow>
     (case ad_decision d of
        Allow \<Rightarrow> ad_status d = Allowed \<or> ad_status d = Allowed_manually
      | Deny \<Rightarrow> ad_status d = Denied \<or> ad_status d = Denied_manually
      | Manual_review \<Rightarrow> ad_status d = Pending_review \<or> ad_status d = Expired)"

definition settled_status :: "decision_status \<Rightarrow> bool" where
  "settled_status st \<longleftrightarrow> st = Allowed_manually \<or> st = Denied_manually \<or> st = Expired"

text \<open>A command may name a decision only if that decision let the vehicle in.\<close>

definition granted :: "access_db \<Rightarrow> int \<Rightarrow> bool" where
  "granted db i \<longleftrightarrow>
     list_ex (\<lambda>d. ad_id d = i \<and> ad_decision d = Allow) (decisions db)"

definition consumed :: "access_pass \<Rightarrow> access_pass" where
  "consumed r =
     r\<lparr>pa_used_entries := pa_used_entries r + 1,
       pa_status := if pa_max_entries r \<le> pa_used_entries r + 1 then Pass_used else pa_status r\<rparr>"

inductive touch :: "(utext \<Rightarrow> string) \<Rightarrow> access_db \<Rightarrow> access_db \<Rightarrow> bool" for sha where
  touch_event: "\<not> list_ex (\<lambda>r. ce_controller_id r = ce_controller_id e \<and> ce_event_id r = ce_event_id e)
      (camera_events db) \<Longrightarrow> ce_id e = next_id (map ce_id (camera_events db)) \<Longrightarrow>
    touch sha db (db\<lparr>camera_events := camera_events db @ [e]\<rparr>)"
| touch_photo: "(\<And>r. ce_controller_id (f r) = ce_controller_id r \<and> ce_event_id (f r) = ce_event_id r
      \<and> ce_id (f r) = ce_id r) \<Longrightarrow>
    touch sha db (db\<lparr>camera_events := upd_where P f (camera_events db)\<rparr>)"
| touch_initial: "initial_for_event db (ad_camera_event_id d) = None \<Longrightarrow> ad_supersedes d = None \<Longrightarrow>
    decision_shape d \<Longrightarrow> ad_camera_event_id d \<in> ce_id ` set (camera_events db) \<Longrightarrow>
    touch sha db (fst (append_decision sha db d))"
| touch_transition: "unsuperseded db current \<Longrightarrow> ad_status current = Pending_review \<Longrightarrow>
    ad_camera_event_id d = ad_camera_event_id current \<Longrightarrow> ad_supersedes d = Some (ad_id current) \<Longrightarrow>
    decision_shape d \<Longrightarrow> settled_status (ad_status d) \<Longrightarrow>
    touch sha db (fst (append_decision sha db d))"
| touch_passage: "\<not> list_ex (\<lambda>r. ae_controller_id r = ae_controller_id e \<and> ae_event_id r = ae_event_id e)
      (access_events db) \<Longrightarrow>
    (ae_controller_id e, ae_event_id e)
      \<in> (\<lambda>r. (ce_controller_id r, ce_event_id r)) ` set (camera_events db) \<Longrightarrow>
    touch sha db (db\<lparr>access_events :=
      append_hashed sha event_payload ae_row_hash stamp_event (access_events db) e\<rparr>)"
| touch_opening:
    "touch sha db (db\<lparr>manual_openings :=
      append_hashed sha opening_payload mo_row_hash stamp_opening (manual_openings db) m\<rparr>)"
| touch_audit:
    "touch sha db (db\<lparr>audit_logs :=
      append_hashed sha audit_payload al_row_hash stamp_audit (audit_logs db) a\<rparr>)"
| touch_command: "\<not> list_ex (\<lambda>r. bc_command_id r = bc_command_id c) (commands db) \<Longrightarrow>
    (case bc_decision_id c of None \<Rightarrow> True
       | Some d \<Rightarrow> command_for_decision db d = None \<and> granted db d) \<Longrightarrow>
    bc_status c = Command_pending \<Longrightarrow>
    touch sha db (db\<lparr>commands := commands db @ [c]\<rparr>)"
| touch_lease: "touch sha db (db\<lparr>commands :=
      upd_where (\<lambda>r. bc_command_id r = i \<and> bc_status r = Command_pending) (lease_row now ttl h)
        (commands db)\<rparr>)"
| touch_ack: "touch sha db (db\<lparr>commands :=
      upd_where (\<lambda>r. P r \<and> bc_status r = Command_leased) (ack_row now res) (commands db)\<rparr>)"
| touch_pass: "touch sha db (db\<lparr>passes :=
      upd_where (\<lambda>r. P r \<and> pa_used_entries r < pa_max_entries r) consumed (passes db)\<rparr>)"
| touch_enter: "\<not> list_ex (\<lambda>r. ps_vehicle_id r = ps_vehicle_id s \<and> ps_zone_id r = ps_zone_id s
      \<and> ps_status r = Presence_open) (presence db) \<Longrightarrow>
    touch sha db (db\<lparr>presence := presence db @ [s]\<rparr>)"
| touch_leave: "(\<And>r. ps_status (f r) = Presence_closed) \<Longrightarrow>
    touch sha db (db\<lparr>presence := upd_where P f (presence db)\<rparr>)"

subsection \<open>The invariant\<close>

definition history :: "access_db \<Rightarrow> int \<Rightarrow> access_decision list" where
  "history db e = filter (\<lambda>d. ad_camera_event_id d = e) (decisions db)"

text \<open>The decisions on an event: none, an initial one, or a pending one and what settled it.\<close>

fun history_ok :: "access_decision list \<Rightarrow> bool" where
  "history_ok [] = True"
| "history_ok [d] = (ad_supersedes d = None)"
| "history_ok [d, d'] =
     (ad_supersedes d = None \<and> ad_status d = Pending_review
      \<and> ad_supersedes d' = Some (ad_id d) \<and> settled_status (ad_status d'))"
| "history_ok (_ # _ # _ # _) = False"

definition decisions_ok :: "access_db \<Rightarrow> bool" where
  "decisions_ok db \<longleftrightarrow>
     sorted_wrt (<) (map ad_id (decisions db))
     \<and> (\<forall>e. history_ok (history db e))
     \<and> list_all decision_shape (decisions db)"

definition command_granted :: "access_db \<Rightarrow> barrier_command \<Rightarrow> bool" where
  "command_granted db c \<longleftrightarrow> (case bc_decision_id c of None \<Rightarrow> True | Some d \<Rightarrow> granted db d)"

definition commands_ok :: "access_db \<Rightarrow> bool" where
  "commands_ok db \<longleftrightarrow>
     distinct (map bc_command_id (commands db))
     \<and> distinct (List.map_filter bc_decision_id (commands db))
     \<and> list_all (command_granted db) (commands db)"

definition presence_ok :: "access_db \<Rightarrow> bool" where
  "presence_ok db \<longleftrightarrow>
     distinct (map (\<lambda>s. (ps_vehicle_id s, ps_zone_id s))
       (filter (\<lambda>s. ps_status s = Presence_open) (presence db)))"

definition passes_ok :: "access_db \<Rightarrow> bool" where
  "passes_ok db \<longleftrightarrow> list_all pass_checks (passes db) \<and> distinct (map pa_id (passes db))"

definition events_ok :: "access_db \<Rightarrow> bool" where
  "events_ok db \<longleftrightarrow>
     distinct (map (\<lambda>r. (ce_controller_id r, ce_event_id r)) (camera_events db))
     \<and> distinct (map ce_id (camera_events db))
     \<and> distinct (map (\<lambda>r. (ae_controller_id r, ae_event_id r)) (access_events db))"

text \<open>Decisions belong to stored events, and a passage is journalled only for one.\<close>

definition links_ok :: "access_db \<Rightarrow> bool" where
  "links_ok db \<longleftrightarrow>
     ad_camera_event_id ` set (decisions db) \<subseteq> ce_id ` set (camera_events db)
     \<and> (\<lambda>r. (ae_controller_id r, ae_event_id r)) ` set (access_events db)
         \<subseteq> (\<lambda>r. (ce_controller_id r, ce_event_id r)) ` set (camera_events db)"

definition access_inv :: "(utext \<Rightarrow> string) \<Rightarrow> access_db \<Rightarrow> bool" where
  "access_inv sha db \<longleftrightarrow>
     chains_ok sha db \<and> decisions_ok db \<and> commands_ok db \<and> presence_ok db \<and> passes_ok db
     \<and> events_ok db \<and> links_ok db"

subsection \<open>Appending a decision\<close>

lemma append_decision_row:
  obtains p h where
    "fst (append_decision sha db d) =
       db\<lparr>decisions := decisions db @
          [stamp_decision p h (d\<lparr>ad_id := next_id (map ad_id (decisions db))\<rparr>)]\<rparr>"
    "snd (append_decision sha db d) =
       stamp_decision p h (d\<lparr>ad_id := next_id (map ad_id (decisions db))\<rparr>)"
proof -
  let ?r = "d\<lparr>ad_id := next_id (map ad_id (decisions db))\<rparr>"
  obtain p h where "append_hashed sha decision_payload ad_row_hash stamp_decision (decisions db) ?r
      = decisions db @ [stamp_decision p h ?r]"
    using append_hashed_snoc [of sha decision_payload ad_row_hash stamp_decision "decisions db" ?r]
    by blast
  then show thesis
    by (intro that [of p h]) (simp_all add: append_decision_def Let_def)
qed

lemma stamp_decision_fields [simp]:
  "ad_id (stamp_decision p h d) = ad_id d"
  "ad_camera_event_id (stamp_decision p h d) = ad_camera_event_id d"
  "ad_group_id (stamp_decision p h d) = ad_group_id d"
  "ad_supersedes (stamp_decision p h d) = ad_supersedes d"
  "ad_decision (stamp_decision p h d) = ad_decision d"
  "ad_status (stamp_decision p h d) = ad_status d"
  "ad_reason (stamp_decision p h d) = ad_reason d"
  "ad_vehicle_id (stamp_decision p h d) = ad_vehicle_id d"
  "ad_pass_id (stamp_decision p h d) = ad_pass_id d"
  "ad_review_deadline (stamp_decision p h d) = ad_review_deadline d"
  by (simp_all add: stamp_decision_def)

lemma decision_shape_stamp [simp]:
  "decision_shape (stamp_decision p h (d\<lparr>ad_id := i\<rparr>)) = decision_shape d"
  by (cases "ad_decision d") (simp_all add: decision_shape_def)

lemma command_granted_frame [simp]:
  "command_granted (db\<lparr>commands := cs\<rparr>) = command_granted db"
  "command_granted (db\<lparr>presence := ss\<rparr>) = command_granted db"
  "command_granted (db\<lparr>passes := ps\<rparr>) = command_granted db"
  "command_granted (db\<lparr>camera_events := es\<rparr>) = command_granted db"
  "command_granted (db\<lparr>access_events := ae\<rparr>) = command_granted db"
  "command_granted (db\<lparr>manual_openings := ms\<rparr>) = command_granted db"
  "command_granted (db\<lparr>audit_logs := ls\<rparr>) = command_granted db"
  by (simp_all add: fun_eq_iff command_granted_def granted_def split: option.split)

subsection \<open>Each write keeps the invariant\<close>

lemma touch_chains:
  assumes "touch sha db db'" "chains_ok sha db"
  shows "chains_ok sha db'"
  using assms
  by (cases rule: touch.cases)
     (auto simp: chains_ok_def append_decision_def Let_def
       intro: decision_chain.chained_append_hashed event_chain.chained_append_hashed
         opening_chain.chained_append_hashed audit_chain.chained_append_hashed)

lemma history_first: "history_ok (d # h) \<Longrightarrow> ad_supersedes d = None"
  by (cases "d # h" rule: history_ok.cases) auto

lemma no_initial_no_history:
  assumes "initial_for_event db e = None" "history_ok (history db e)"
  shows "history db e = []"
proof (cases "history db e")
  case (Cons d h)
  then have "d \<in> set (decisions db)" "ad_camera_event_id d = e"
    by (auto simp: history_def filter_eq_Cons_iff)
  moreover have "ad_supersedes d = None" using assms(2) Cons history_first by simp
  ultimately show ?thesis using assms(1) by (auto simp: initial_for_event_def first_row_None)
qed

lemma pending_history:
  assumes "unsuperseded db d" "ad_status d = Pending_review"
    and ok: "history_ok (history db (ad_camera_event_id d))"
  shows "history db (ad_camera_event_id d) = [d]"
proof -
  let ?h = "history db (ad_camera_event_id d)"
  have mem: "d \<in> set ?h" using assms(1) by (simp add: history_def unsuperseded_def)
  have uns: "\<And>x. x \<in> set ?h \<Longrightarrow> ad_supersedes x \<noteq> Some (ad_id d)"
    using assms(1) by (auto simp: history_def unsuperseded_def list_all_iff)
  show ?thesis
  proof (cases ?h rule: history_ok.cases)
    case (3 a b)
    have "d = a \<or> d = b" using mem 3 by simp
    then show ?thesis
    proof
      assume "d = a"
      then have "ad_supersedes b = Some (ad_id d)" using ok 3 by simp
      then show ?thesis using uns [of b] 3 by simp
    next
      assume "d = b"
      then show ?thesis using ok assms(2) 3 by (simp add: settled_status_def)
    qed
  qed (use mem ok in auto)
qed

lemma decisions_ok_append:
  assumes "decisions_ok db" "ad_id r = next_id (map ad_id (decisions db))" "decision_shape r"
    and h: "history_ok (history db (ad_camera_event_id r) @ [r])"
  shows "decisions_ok (db\<lparr>decisions := decisions db @ [r]\<rparr>)"
proof -
  have "\<forall>d\<in>set (decisions db). ad_id d < ad_id r"
    unfolding assms(2) by (auto intro: next_id_gt)
  moreover have "history_ok (history (db\<lparr>decisions := decisions db @ [r]\<rparr>) e)" for e
    using assms(1) h by (cases "e = ad_camera_event_id r") (auto simp: history_def decisions_ok_def)
  ultimately show ?thesis using assms by (simp add: decisions_ok_def sorted_wrt_append)
qed

lemma history_ok_settle:
  "history_ok [d] \<Longrightarrow> ad_status d = Pending_review \<Longrightarrow> ad_supersedes r = Some (ad_id d) \<Longrightarrow>
   settled_status (ad_status r) \<Longrightarrow> history_ok [d, r]"
  by simp

lemma touch_decisions:
  assumes "touch sha db db'" "decisions_ok db"
  shows "decisions_ok db'"
  using assms(1)
proof (cases rule: touch.cases)
  case (touch_initial d)
  obtain p h where db': "db' = db\<lparr>decisions := decisions db @
      [stamp_decision p h (d\<lparr>ad_id := next_id (map ad_id (decisions db))\<rparr>)]\<rparr>"
    using touch_initial(1) append_decision_row [of sha db d] by metis
  have "history db (ad_camera_event_id d) = []"
    using no_initial_no_history touch_initial(2) assms(2) by (auto simp: decisions_ok_def)
  then show ?thesis unfolding db' using touch_initial assms(2)
    by (intro decisions_ok_append) simp_all
next
  case (touch_transition current d)
  obtain p h where db': "db' = db\<lparr>decisions := decisions db @
      [stamp_decision p h (d\<lparr>ad_id := next_id (map ad_id (decisions db))\<rparr>)]\<rparr>"
    using touch_transition(1) append_decision_row [of sha db d] by metis
  have h: "history db (ad_camera_event_id current) = [current]"
    using pending_history touch_transition assms(2) by (auto simp: decisions_ok_def)
  moreover have "history_ok (history db (ad_camera_event_id current))"
    using assms(2) by (simp add: decisions_ok_def)
  ultimately show ?thesis unfolding db' using touch_transition assms(2)
    by (intro decisions_ok_append) simp_all
qed (use assms(2) in \<open>simp_all add: decisions_ok_def history_def\<close>)

lemma granted_append:
  "granted db i \<Longrightarrow> decisions db' = decisions db @ rs \<Longrightarrow> granted db' i"
  by (auto simp: granted_def)

lemma map_filter_upd_where:
  "(\<And>r. g (f r) = g r) \<Longrightarrow> List.map_filter g (upd_where P f rows) = List.map_filter g rows"
  by (induction rows) (auto simp: upd_where_def List.map_filter_def)

lemma commands_ok_upd:
  assumes "commands_ok db" "\<And>c. bc_command_id (f c) = bc_command_id c"
    "\<And>c. bc_decision_id (f c) = bc_decision_id c"
  shows "commands_ok (db\<lparr>commands := upd_where P f (commands db)\<rparr>)"
proof -
  have "list_all (command_granted db) (upd_where P f (commands db))"
    using assms by (auto simp: commands_ok_def command_granted_def list_all_iff set_upd_where)
  then show ?thesis
    using assms map_upd_where [of P bc_command_id f "commands db"]
      map_filter_upd_where [of bc_decision_id f P "commands db"]
    by (simp add: commands_ok_def)
qed

lemma commands_ok_append:
  assumes "commands_ok db" "\<not> list_ex (\<lambda>r. bc_command_id r = bc_command_id c) (commands db)"
    and "case bc_decision_id c of None \<Rightarrow> True
           | Some d \<Rightarrow> command_for_decision db d = None \<and> granted db d"
  shows "commands_ok (db\<lparr>commands := commands db @ [c]\<rparr>)"
proof -
  have "d \<notin> set (List.map_filter bc_decision_id (commands db))" if "bc_decision_id c = Some d" for d
    using assms(3) that
    by (auto simp: command_for_decision_def first_row_None List.map_filter_def)
  moreover have "List.map_filter bc_decision_id (commands db @ [c])
      = List.map_filter bc_decision_id (commands db) @ (case bc_decision_id c of None \<Rightarrow> [] | Some d \<Rightarrow> [d])"
    by (auto simp: List.map_filter_def split: option.split)
  ultimately show ?thesis using assms
    by (auto simp: commands_ok_def command_granted_def list_ex_iff split: option.splits)
qed

lemma commands_ok_more_decisions:
  "commands_ok db \<Longrightarrow> commands_ok (db\<lparr>decisions := decisions db @ rs\<rparr>)"
  by (auto simp: commands_ok_def command_granted_def list_all_iff granted_def split: option.splits)

lemma touch_commands:
  assumes "touch sha db db'" "commands_ok db"
  shows "commands_ok db'"
  using assms(1)
proof (cases rule: touch.cases)
  case (touch_initial d)
  then show ?thesis
    using append_decision_row [of sha db d] commands_ok_more_decisions [OF assms(2)] by metis
next
  case (touch_transition current d)
  then show ?thesis
    using append_decision_row [of sha db d] commands_ok_more_decisions [OF assms(2)] by metis
next
  case (touch_command c)
  then show ?thesis using commands_ok_append [OF assms(2)] by simp
next
  case (touch_lease i now ttl h)
  then show ?thesis using commands_ok_upd [OF assms(2), of "lease_row now ttl h"]
    by (simp add: lease_row_def)
next
  case (touch_ack P now res)
  then show ?thesis using commands_ok_upd [OF assms(2), of "ack_row now res"]
    by (simp add: ack_row_def)
qed (use assms(2) in \<open>simp_all add: commands_ok_def\<close>)

lemma presence_ok_append:
  assumes "presence_ok db"
    and "\<not> list_ex (\<lambda>r. ps_vehicle_id r = ps_vehicle_id s \<and> ps_zone_id r = ps_zone_id s
            \<and> ps_status r = Presence_open) (presence db)"
  shows "presence_ok (db\<lparr>presence := presence db @ [s]\<rparr>)"
  using assms by (auto simp: presence_ok_def list_ex_iff)

text \<open>Closing sessions leaves a sublist of the open ones.\<close>

lemma open_after_close:
  assumes "\<And>r. ps_status (f r) = Presence_closed"
  shows "subseq (filter (\<lambda>s. ps_status s = Presence_open) (upd_where P f rows))
           (filter (\<lambda>s. ps_status s = Presence_open) rows)"
  using assms by (induction rows) (auto simp: upd_where_def)

lemma subseq_distinct: "subseq xs ys \<Longrightarrow> distinct ys \<Longrightarrow> distinct xs"
  by (auto simp: subseq_conv_nths intro: distinct_nthsI)

lemma presence_ok_close:
  assumes "presence_ok db" "\<And>r. ps_status (f r) = Presence_closed"
  shows "presence_ok (db\<lparr>presence := upd_where P f (presence db)\<rparr>)"
proof -
  have "subseq (map (\<lambda>s. (ps_vehicle_id s, ps_zone_id s))
      (filter (\<lambda>s. ps_status s = Presence_open) (upd_where P f (presence db))))
    (map (\<lambda>s. (ps_vehicle_id s, ps_zone_id s))
      (filter (\<lambda>s. ps_status s = Presence_open) (presence db)))"
    by (rule subseq_map [OF open_after_close [OF assms(2)]])
  then show ?thesis
    using assms(1) subseq_distinct by (auto simp: presence_ok_def)
qed

lemma touch_presence:
  assumes "touch sha db db'" "presence_ok db"
  shows "presence_ok db'"
  using assms(1)
proof (cases rule: touch.cases)
  case (touch_enter s)
  then show ?thesis using presence_ok_append [OF assms(2)] by simp
next
  case (touch_leave f P)
  then show ?thesis using presence_ok_close [OF assms(2)] by simp
qed (use assms(2) in \<open>simp_all add: presence_ok_def append_decision_def Let_def\<close>)

lemma pass_checks_consumed:
  "pass_checks p \<Longrightarrow> pa_used_entries p < pa_max_entries p \<Longrightarrow> pass_checks (consumed p)"
  by (simp add: pass_checks_def consumed_def)

lemma passes_ok_consume:
  assumes "passes_ok db"
  shows "passes_ok (db\<lparr>passes :=
    upd_where (\<lambda>r. P r \<and> pa_used_entries r < pa_max_entries r) consumed (passes db)\<rparr>)"
proof -
  have "map pa_id (upd_where (\<lambda>r. P r \<and> pa_used_entries r < pa_max_entries r) consumed (passes db))
      = map pa_id (passes db)"
    by (rule map_upd_where) (simp add: consumed_def)
  then show ?thesis
    using assms pass_checks_consumed
    by (auto simp: passes_ok_def list_all_iff set_upd_where)
qed

lemma touch_passes:
  assumes "touch sha db db'" "passes_ok db"
  shows "passes_ok db'"
  using assms(1)
proof (cases rule: touch.cases)
  case (touch_pass P)
  then show ?thesis using passes_ok_consume [OF assms(2)] by simp
qed (use assms(2) in \<open>simp_all add: passes_ok_def append_decision_def Let_def\<close>)

lemma stamp_event_key [simp]:
  "ae_controller_id (stamp_event p h e) = ae_controller_id e"
  "ae_event_id (stamp_event p h e) = ae_event_id e"
  by (simp_all add: stamp_event_def)

lemma touch_events:
  assumes "touch sha db db'" "events_ok db"
  shows "events_ok db'"
  using assms(1)
proof (cases rule: touch.cases)
  case (touch_event e)
  then show ?thesis using assms(2) next_id_fresh [of "map ce_id (camera_events db)"]
    by (auto simp: events_ok_def list_ex_iff)
next
  case (touch_photo f P)
  then have "map (\<lambda>r. (ce_controller_id r, ce_event_id r)) (upd_where P f (camera_events db))
      = map (\<lambda>r. (ce_controller_id r, ce_event_id r)) (camera_events db)"
    "map ce_id (upd_where P f (camera_events db)) = map ce_id (camera_events db)"
    by (simp_all add: map_upd_where)
  then show ?thesis using touch_photo(1) assms(2) by (simp add: events_ok_def)
next
  case (touch_passage e)
  obtain p h where "append_hashed sha event_payload ae_row_hash stamp_event (access_events db) e
      = access_events db @ [stamp_event p h e]"
    using append_hashed_snoc [of sha event_payload ae_row_hash stamp_event "access_events db" e]
    by blast
  then show ?thesis using touch_passage assms(2)
    by (auto simp: events_ok_def list_ex_iff)
qed (use assms(2) in \<open>simp_all add: events_ok_def append_decision_def Let_def\<close>)

lemma touch_links:
  assumes "touch sha db db'" "links_ok db"
  shows "links_ok db'"
  using assms(1)
proof (cases rule: touch.cases)
  case (touch_photo f P)
  then have "(\<lambda>r. (ce_controller_id r, ce_event_id r)) ` set (upd_where P f (camera_events db))
      = (\<lambda>r. (ce_controller_id r, ce_event_id r)) ` set (camera_events db)"
    "ce_id ` set (upd_where P f (camera_events db)) = ce_id ` set (camera_events db)"
    unfolding set_map [symmetric] by (simp_all add: map_upd_where)
  then show ?thesis using touch_photo(1) assms(2) by (simp add: links_ok_def)
next
  case (touch_initial d)
  then show ?thesis using append_decision_row [of sha db d] assms(2)
    by (auto simp: links_ok_def append_decision_def Let_def append_hashed_def split: prod.splits)
next
  case (touch_transition current d)
  then have "ad_camera_event_id d \<in> ce_id ` set (camera_events db)"
    using assms(2) by (auto simp: links_ok_def unsuperseded_def)
  then show ?thesis using touch_transition(1) assms(2)
    by (auto simp: links_ok_def append_decision_def Let_def append_hashed_def split: prod.splits)
next
  case (touch_passage e)
  then show ?thesis using assms(2)
    by (auto simp: links_ok_def append_hashed_def split: prod.splits)
qed (use assms(2) in \<open>auto simp: links_ok_def\<close>)

lemmas touch_keeps = touch_chains touch_decisions touch_commands touch_presence touch_passes
  touch_events touch_links

lemma touch_inv:
  assumes "access_inv sha db" and t: "touch sha db db'"
  shows "access_inv sha db'"
  using assms(1) touch_keeps [OF t] by (simp add: access_inv_def)

subsection \<open>The writes keep the invariant and only append to the journals\<close>

definition grows :: "access_db \<Rightarrow> access_db \<Rightarrow> bool" where
  "grows db db' \<longleftrightarrow>
     prefix (decisions db) (decisions db') \<and> prefix (access_events db) (access_events db')
     \<and> prefix (manual_openings db) (manual_openings db') \<and> prefix (audit_logs db) (audit_logs db')"

lemma grows_refl: "grows db db"
  by (simp add: grows_def)

lemma grows_trans: "grows a b \<Longrightarrow> grows b c \<Longrightarrow> grows a c"
  by (auto simp: grows_def prefix_def)

lemma prefix_append_hashed: "prefix rows (append_hashed sha payload row stamp rows r)"
  using append_hashed_snoc [of sha payload row stamp rows r] by (auto simp: prefix_def)

lemma touch_grows: "touch sha db db' \<Longrightarrow> grows db db'"
  by (erule touch.cases)
     (simp_all add: grows_def append_decision_def Let_def prefix_append_hashed)

text \<open>The invariant of the writes carries over to every sequence of them, and so does growth.\<close>

interpretation writes: preserved "access_inv sha" "touch sha" "access_inv sha" for sha
  by unfold_locales (auto intro: touch_inv)

interpretation write_journals: monotone_steps "touch sha" grows for sha
  by unfold_locales (auto intro: grows_refl grows_trans touch_grows)

end
