(* ===== verification/AccessOps.thy ===== *)
theory AccessOps
  imports AccessSteps
begin

section \<open>The operations as sequences of writes\<close>

text \<open>
  For every operation of the access services: a call that ends is a sequence of elementary writes.
  The invariant and the growth of the journals follow for all of them.
\<close>

abbreviation writes_to :: "(utext \<Rightarrow> string) \<Rightarrow> access_db \<Rightarrow> access_db \<Rightarrow> bool" where
  "writes_to sha \<equiv> (touch sha)\<^sup>*\<^sup>*"

lemma writes_then: "writes_to sha a b \<Longrightarrow> touch sha b c \<Longrightarrow> writes_to sha a c"
  by (rule rtranclp.rtrancl_into_rtrancl)

lemma one_write: "touch sha a b \<Longrightarrow> writes_to sha a b"
  by (rule r_into_rtranclp)

lemma writes_and_writes: "writes_to sha a b \<Longrightarrow> writes_to sha b c \<Longrightarrow> writes_to sha a c"
  by (rule rtranclp_trans)

subsection \<open>Engine decisions\<close>

definition engine_shape :: "engine_decision \<Rightarrow> bool" where
  "engine_shape en \<longleftrightarrow>
     (case en_decision en of
        Allow \<Rightarrow> en_status en = Allowed
      | Deny \<Rightarrow> en_status en = Denied
      | Manual_review \<Rightarrow> en_status en = Pending_review)"

lemma engine_shapes [simp]:
  "engine_shape (engine_allow r v p)"
  "engine_shape (engine_deny r v p)"
  "engine_shape (engine_manual_review r v p)"
  by (simp_all add: engine_shape_def engine_defs)

lemma decide_assigned_shape: "engine_shape (decide_assigned db v apts zone moment)"
  by (simp add: decide_assigned_def Let_def)

lemma decide_shared_shape: "engine_shape (decide_shared db v apts zone moment)"
  by (simp add: decide_shared_def Let_def)

lemma decide_permanent_shape: "decide_permanent db data = Some d \<Longrightarrow> engine_shape d"
  by (auto simp: decide_permanent_def Let_def decide_assigned_shape decide_shared_shape
      split: option.splits parking_type.splits if_splits)

lemma decide_taxi_shape: "engine_shape (decide_taxi db data)"
  by (simp add: decide_taxi_def split: option.split)

lemma decide_entry_shape: "engine_shape (decide_entry db data th)"
  by (auto simp: decide_entry_def decide_taxi_shape dest: decide_permanent_shape split: option.split)

lemma engine_for_shape: "engine_shape (engine_for db scope data n th)"
  by (auto simp: engine_for_def decide_entry_shape decide_exit_def engine_shape_def [of "\<lparr>en_decision = _, en_reason = _, en_status = _, en_vehicle_id = _, en_pass_id = _\<rparr>"]
      split: option.split)

subsection \<open>Ingestion\<close>

lemma consume_writes:
  assumes "consume_taxi_entry db p = (db', ok)"
  shows "touch sha db db'"
proof -
  have "db' = db\<lparr>passes := upd_where (\<lambda>r. pa_id r = p \<and> pa_used_entries r < pa_max_entries r)
      consumed (passes db)\<rparr>"
    using assms unfolding consume_taxi_entry_def consumed_def [abs_def] by (simp add: Let_def)
  then show ?thesis using touch_pass [of sha db "\<lambda>r. pa_id r = p"] by simp
qed

lemma settle_taxi_writes:
  assumes "settle_taxi db en = (db', en')" "engine_shape en"
  shows "writes_to sha db db' \<and> engine_shape en' \<and> decisions db' = decisions db
    \<and> camera_events db' = camera_events db \<and> access_events db' = access_events db
    \<and> commands db' = commands db \<and> manual_openings db' = manual_openings db"
proof (cases "en_decision en = Allow \<and> en_reason en = Some Temporary_pass_allowed \<and> en_pass_id en \<noteq> None")
  case True
  then obtain p where p: "en_pass_id en = Some p" by auto
  obtain db1 ok where c: "consume_taxi_entry db p = (db1, ok)" by (cases "consume_taxi_entry db p")
  have "db' = db1 \<and> engine_shape en'"
    using assms True p c by (cases ok) (auto simp: settle_taxi_def)
  moreover have "touch sha db db1" by (rule consume_writes [OF c])
  moreover have "decisions db1 = decisions db \<and> camera_events db1 = camera_events db
    \<and> access_events db1 = access_events db \<and> commands db1 = commands db
    \<and> manual_openings db1 = manual_openings db"
    using c by (auto simp: consume_taxi_entry_def Let_def)
  ultimately show ?thesis by auto
next
  case False
  then have "db' = db \<and> en' = en"
    using assms(1)
    by (auto simp: settle_taxi_def split: decision_type.splits option.splits decision_reason.splits)
  then show ?thesis using assms(2) by simp
qed

lemma settle_review_shape:
  assumes "settle_review env db b t en = (en', final, deadline)" "engine_shape en"
  shows "decision_shape (d\<lparr>ad_decision := en_decision en', ad_status := final\<rparr>)"
    "final = Pending_review \<longleftrightarrow> deadline \<noteq> None"
    "final \<noteq> Denied_manually \<and> final \<noteq> Expired"
  using assms
  by (cases "en_decision en"; auto simp: settle_review_def engine_shape_def decision_shape_def split: if_splits)+

lemma append_decision_tables:
  assumes "append_decision sha db d = (db', r)"
  shows "decisions db' = decisions db @ [r]" "camera_events db' = camera_events db"
    "access_events db' = access_events db" "commands db' = commands db" "passes db' = passes db"
    "presence db' = presence db" "barriers db' = barriers db" "gates db' = gates db"
    "manual_openings db' = manual_openings db" "audit_logs db' = audit_logs db"
    "ad_id r = next_id (map ad_id (decisions db))" "ad_camera_event_id r = ad_camera_event_id d"
    "ad_supersedes r = ad_supersedes d" "ad_decision r = ad_decision d" "ad_status r = ad_status d"
    "ad_reason r = ad_reason d" "ad_vehicle_id r = ad_vehicle_id d" "ad_pass_id r = ad_pass_id d"
    "ad_group_id r = ad_group_id d" "ad_review_deadline r = ad_review_deadline d"
proof -
  obtain p h where "db' = db\<lparr>decisions := decisions db @
        [stamp_decision p h (d\<lparr>ad_id := next_id (map ad_id (decisions db))\<rparr>)]\<rparr>"
    "r = stamp_decision p h (d\<lparr>ad_id := next_id (map ad_id (decisions db))\<rparr>)"
    using append_decision_row [of sha db d] assms by (metis fst_conv snd_conv)
  then show "decisions db' = decisions db @ [r]" "camera_events db' = camera_events db"
    "access_events db' = access_events db" "commands db' = commands db" "passes db' = passes db"
    "presence db' = presence db" "barriers db' = barriers db" "gates db' = gates db"
    "manual_openings db' = manual_openings db" "audit_logs db' = audit_logs db"
    "ad_id r = next_id (map ad_id (decisions db))" "ad_camera_event_id r = ad_camera_event_id d"
    "ad_supersedes r = ad_supersedes d" "ad_decision r = ad_decision d" "ad_status r = ad_status d"
    "ad_reason r = ad_reason d" "ad_vehicle_id r = ad_vehicle_id d" "ad_pass_id r = ad_pass_id d"
    "ad_group_id r = ad_group_id d" "ad_review_deadline r = ad_review_deadline d"
    by simp_all
qed

lemma insert_initial_writes:
  assumes "insert_initial sha env db e dec st reason v p deadline src = Inr (db', d)"
    and "e \<in> ce_id ` set (camera_events db)"
    and "\<And>x. decision_shape (x\<lparr>ad_decision := dec, ad_status := st\<rparr>)"
  shows "touch sha db db' \<and> initial_for_event db e = None \<and> ad_camera_event_id d = e
    \<and> ad_supersedes d = None \<and> ad_decision d = dec \<and> ad_status d = st \<and> ad_reason d = reason
    \<and> ad_vehicle_id d = v \<and> ad_pass_id d = p \<and> ad_group_id d = Some (env_group_uuid env)
    \<and> ad_review_deadline d = deadline
    \<and> decisions db' = decisions db @ [d] \<and> camera_events db' = camera_events db
    \<and> access_events db' = access_events db \<and> commands db' = commands db
    \<and> passes db' = passes db \<and> presence db' = presence db"
proof -
  define x where "x = \<lparr>ad_id = 0, ad_camera_event_id = e, ad_group_id = Some (env_group_uuid env),
         ad_supersedes = None, ad_decision = dec, ad_status = st, ad_reason = reason,
         ad_vehicle_id = v, ad_pass_id = p, ad_review_deadline = deadline,
         ad_resolved_by = None, ad_resolved_at = None, ad_source = src,
         ad_prev_hash = None, ad_row_hash = None\<rparr>"
  have none: "initial_for_event db e = None" and a: "append_decision sha db x = (db', d)"
    using assms(1) by (auto simp: insert_initial_def x_def split: if_splits)
  have "decision_shape x"
    using assms(3) [of x] by (simp add: x_def)
  then have "touch sha db (fst (append_decision sha db x))"
    using none assms(2) by (intro touch_initial) (simp_all add: x_def)
  then show ?thesis using a none append_decision_tables [OF a] by (simp add: x_def)
qed

lemma insert_access_event_writes:
  assumes "insert_access_event sha db data e d n = Inr db'"
    and "(in_controller_id data, in_event_id data)
      \<in> (\<lambda>r. (ce_controller_id r, ce_event_id r)) ` set (camera_events db)"
  shows "touch sha db db' \<and> decisions db' = decisions db \<and> commands db' = commands db
    \<and> presence db' = presence db \<and> camera_events db' = camera_events db \<and> passes db' = passes db"
proof -
  define row where "row = \<lparr>ae_controller_id = in_controller_id data, ae_event_id = in_event_id data,
           ae_camera_event_id = e, ae_decision_id = ad_id d, ae_vehicle_id = ad_vehicle_id d,
           ae_pass_id = ad_pass_id d,
           ae_apartment_id =
             (case ad_vehicle_id d of None \<Rightarrow> None | Some v \<Rightarrow> apartment_for_vehicle db v),
           ae_gate_id = in_gate_id data, ae_zone_id = in_zone_id data,
           ae_direction = in_direction data, ae_plate = n,
           ae_decision = ad_decision d, ae_reason = ad_reason d,
           ae_occurred_at = in_captured_at data, ae_source = in_source data,
           ae_prev_hash = None, ae_row_hash = None\<rparr>"
  have fresh: "\<not> list_ex (\<lambda>r. ae_controller_id r = in_controller_id data
        \<and> ae_event_id r = in_event_id data) (access_events db)"
    and db': "db' = db\<lparr>access_events :=
        append_hashed sha event_payload ae_row_hash stamp_event (access_events db) row\<rparr>"
    using assms(1) unfolding insert_access_event_def row_def by (auto split: if_splits)
  have "touch sha db db'" unfolding db'
    using fresh assms(2) by (intro touch_passage) (simp_all add: row_def)
  then show ?thesis by (simp add: db')
qed

lemma create_open_command_writes:
  assumes "create_open_command env db c b d ttl = Inr (db', out)"
    and "case d of None \<Rightarrow> True | Some i \<Rightarrow> granted db i"
  shows "writes_to sha db db' \<and> decisions db' = decisions db \<and> presence db' = presence db"
proof (cases "case d of None \<Rightarrow> None | Some i \<Rightarrow> command_for_decision db i")
  case (Some old)
  then show ?thesis using assms(1) by (simp add: create_open_command_def Let_def)
next
  case None
  define row where "row = \<lparr>bc_command_id = env_command_uuid env, bc_decision_id = d,
               bc_controller_id = c, bc_barrier_id = b,
               bc_status = Command_pending, bc_lease_token = None, bc_lease_expires_at = None,
               bc_leased_at = None, bc_attempts = 0,
               bc_expires_at = Some (env_now env + seconds ttl),
               bc_acked_at = None, bc_ack_result = None, bc_created_at = env_tx_now env\<rparr>"
  have "\<not> list_ex (\<lambda>r. bc_command_id r = env_command_uuid env) (commands db)"
    and db': "db' = db\<lparr>commands := commands db @ [row]\<rparr>"
    using assms(1) None unfolding create_open_command_def row_def
    by (auto simp: Let_def split: if_splits)
  then have "touch sha db db'" unfolding db'
    using assms(2) None by (intro touch_command) (auto simp: row_def split: option.splits)
  then show ?thesis by (simp add: db' r_into_rtranclp)
qed

lemma issue_command_writes:
  assumes "issue_command env db data b d ttl = Inr (db', cmd)" "d \<in> set (decisions db)"
  shows "writes_to sha db db' \<and> decisions db' = decisions db \<and> presence db' = presence db"
proof (cases "b \<noteq> None \<and> ad_decision d = Allow \<and> ad_status d = Allowed")
  case True
  then obtain i where b: "b = Some i" by auto
  obtain db1 out where c: "create_open_command env db (in_controller_id data) i (Some (ad_id d)) ttl
      = Inr (db1, out)" "db' = db1"
    using assms(1) True b by (auto simp: issue_command_def res_bind_Inr_iff)
  have "granted db (ad_id d)" using True assms(2) by (auto simp: granted_def list_ex_iff)
  then show ?thesis using create_open_command_writes [OF c(1)] c(2) by simp
next
  case False
  then show ?thesis using assms(1) by (auto simp: issue_command_def split: option.splits if_splits)
qed

lemma open_session_writes: "writes_to sha db (fst (open_session db v apt z t e))"
proof (cases "list_ex (\<lambda>s. ps_vehicle_id s = v \<and> ps_zone_id s = z \<and> ps_status s = Presence_open)
    (presence db)")
  case False
  then show ?thesis
    by (simp add: open_session_def Let_def) (rule r_into_rtranclp, rule touch_enter, simp)
qed (simp add: open_session_def)

lemma close_open_session_writes:
  "touch sha db (fst (close_open_session_for_vehicle_zone db v z t e))"
  by (simp add: close_open_session_for_vehicle_zone_def Let_def) (rule touch_leave, simp)

lemma track_presence_writes: "writes_to sha db (track_presence db data e d)"
  by (auto simp: track_presence_def open_presence_session_def close_presence_session_on_exit_def
      intro: open_session_writes close_open_session_writes split: option.split)

text \<open>What recording a decision does: the two settlements, the decision row, the passage, the
  command and the presence session, in this order.\<close>

lemma record_decisionE:
  assumes "record_decision sha env db scope data n e ttl th = Inr (db', res)"
  obtains db1 en1 en final deadline db2 d db3 db4 cmd where
    "settle_taxi db (engine_for db scope data n th) = (db1, en1)"
    "settle_review env db1 (sc_barrier_id scope) (in_captured_at data) en1 = (en, final, deadline)"
    "insert_initial sha env db1 e (en_decision en) final (en_reason en)
       (en_vehicle_id en) (en_pass_id en) deadline (in_source data) = Inr (db2, d)"
    "insert_access_event sha db2 data e d n = Inr db3"
    "issue_command env db3 data (sc_barrier_id scope) d ttl = Inr (db4, cmd)"
    "db' = track_presence db4 data e d"
    "res = \<lparr>ir_decision = en_decision en, ir_status = final, ir_reason = en_reason en,
           ir_decision_id = Some (ad_id d), ir_group_id = ad_group_id d,
           ir_command = cmd, ir_replayed = False\<rparr>"
proof -
  obtain db1 en1 where s1: "settle_taxi db (engine_for db scope data n th) = (db1, en1)"
    by (cases "settle_taxi db (engine_for db scope data n th)")
  obtain en final deadline where s2:
    "settle_review env db1 (sc_barrier_id scope) (in_captured_at data) en1 = (en, final, deadline)"
    by (cases "settle_review env db1 (sc_barrier_id scope) (in_captured_at data) en1")
  note r = assms [unfolded record_decision_def s1 s2 prod.case]
  obtain x where x: "insert_initial sha env db1 e (en_decision en) final (en_reason en)
       (en_vehicle_id en) (en_pass_id en) deadline (in_source data) = Inr x"
    using r by (rule res_bind_InrE)
  obtain db2 d where xd: "x = (db2, d)" by (cases x)
  note r = r [unfolded x xd res_bind_simps prod.case]
  obtain db3 where s4: "insert_access_event sha db2 data e d n = Inr db3"
    using r by (rule res_bind_InrE)
  note r = r [unfolded s4 res_bind_simps]
  obtain y where y: "issue_command env db3 data (sc_barrier_id scope) d ttl = Inr y"
    using r by (rule res_bind_InrE)
  obtain db4 cmd where yd: "y = (db4, cmd)" by (cases y)
  note r = r [unfolded y yd res_bind_simps prod.case]
  show thesis
    by (rule that [OF s1 s2 x [unfolded xd] s4 y [unfolded yd]]) (use r in simp_all)
qed

lemma record_decision_writes:
  assumes r: "record_decision sha env db scope data n e ttl th = Inr (db', res)"
    and e: "e \<in> ce_id ` set (camera_events db)"
    and k: "(in_controller_id data, in_event_id data)
      \<in> (\<lambda>r. (ce_controller_id r, ce_event_id r)) ` set (camera_events db)"
  shows "writes_to sha db db'"
  using r
proof (rule record_decisionE)
  fix db1 en1 en final deadline db2 d db3 db4 cmd
  assume s1: "settle_taxi db (engine_for db scope data n th) = (db1, en1)"
    and s2: "settle_review env db1 (sc_barrier_id scope) (in_captured_at data) en1 = (en, final, deadline)"
    and s3: "insert_initial sha env db1 e (en_decision en) final (en_reason en)
       (en_vehicle_id en) (en_pass_id en) deadline (in_source data) = Inr (db2, d)"
    and s4: "insert_access_event sha db2 data e d n = Inr db3"
    and s5: "issue_command env db3 data (sc_barrier_id scope) d ttl = Inr (db4, cmd)"
    and s6: "db' = track_presence db4 data e d"
  have t1: "writes_to sha db db1" "engine_shape en1" "camera_events db1 = camera_events db"
    using settle_taxi_writes [OF s1 engine_for_shape] by simp_all
  have t2: "touch sha db1 db2" "camera_events db2 = camera_events db" "decisions db2 = decisions db1 @ [d]"
    using insert_initial_writes [OF s3 _ settle_review_shape(1) [OF s2 t1(2)]] e t1(3) by simp_all
  have t3: "touch sha db2 db3" "decisions db3 = decisions db2"
    using insert_access_event_writes [OF s4] k t2(2) by simp_all
  have t4: "writes_to sha db3 db4"
    using issue_command_writes [OF s5] t2(3) t3(2) by simp
  have "writes_to sha db4 db'"
    unfolding s6 by (rule track_presence_writes)
  with t1(1) t2(1) t3(1) t4 show ?thesis
    by (meson rtranclp.rtrancl_into_rtrancl rtranclp_trans)
qed

lemma insert_idempotent_writes:
  assumes "insert_idempotent env db data n = (db', Some e)"
  shows "touch sha db db'" "e \<in> ce_id ` set (camera_events db')"
    "(in_controller_id data, in_event_id data)
      \<in> (\<lambda>r. (ce_controller_id r, ce_event_id r)) ` set (camera_events db')"
    "e = next_id (map ce_id (camera_events db))" "decisions db' = decisions db"
    "access_events db' = access_events db" "commands db' = commands db"
proof -
  define r where "r = \<lparr>ce_id = next_id (map ce_id (camera_events db)),
                 ce_controller_id = in_controller_id data,
                 ce_event_id = in_event_id data, ce_gate_id = in_gate_id data,
                 ce_zone_id = in_zone_id data, ce_plate = n,
                 ce_direction = in_direction data, ce_confidence = in_confidence data,
                 ce_captured_at = in_captured_at data, ce_received_at = env_now env,
                 ce_source = in_source data, ce_plate_photo = in_plate_photo data,
                 ce_overview_photo = in_overview_photo data\<rparr>"
  have new: "\<not> list_ex (\<lambda>r. ce_controller_id r = in_controller_id data
        \<and> ce_event_id r = in_event_id data) (camera_events db)"
    using assms by (simp add: insert_idempotent_def Let_def split: if_splits)
  have r: "db' = db\<lparr>camera_events := camera_events db @ [r]\<rparr>" "ce_id r = e"
    "ce_controller_id r = in_controller_id data" "ce_event_id r = in_event_id data"
    and e: "e = next_id (map ce_id (camera_events db))"
    using assms new by (auto simp: insert_idempotent_def Let_def r_def)
  show "touch sha db db'"
    unfolding r(1) using new r e by (intro touch_event) simp_all
  show "e \<in> ce_id ` set (camera_events db')"
    "(in_controller_id data, in_event_id data)
      \<in> (\<lambda>r. (ce_controller_id r, ce_event_id r)) ` set (camera_events db')"
    "e = next_id (map ce_id (camera_events db))" "decisions db' = decisions db"
    "access_events db' = access_events db" "commands db' = commands db"
    using r e by auto
qed

text \<open>The data a call works with, and its three ends: a stored result replayed, or a new event.\<close>

definition scoped :: "access_db \<Rightarrow> ingest_input \<Rightarrow> ingest_input" where
  "scoped db raw =
     (let scope = authorize_scope db raw
      in raw\<lparr>in_zone_id := sc_zone_id scope, in_gate_id := sc_gate_id scope,
             in_barrier_id := sc_barrier_id scope\<rparr>)"

definition plate_of :: "ingest_input \<Rightarrow> utext option" where
  "plate_of data =
     (case in_plate_original data of
        None \<Rightarrow> None
      | Some p \<Rightarrow> if p = [] then None else Some (np_normalized (normalize_plate p None)))"

lemma insert_idempotent_None:
  "insert_idempotent env db data n = (db', None) \<Longrightarrow>
   db' = db \<and> find_event_id db (in_controller_id data) (in_event_id data) \<noteq> None"
  by (auto simp: insert_idempotent_def find_event_id_def first_row_None list_ex_iff Let_def
      split: if_splits)

lemma run_ingest_cases:
  assumes "run_ingest sha env window ttl th db raw = Inr (db', res)"
  obtains (replay) old where "db' = db" "res = load_existing_result db old"
      "find_event_id db (in_controller_id raw) (in_event_id raw) = Some old
       \<or> find_window_duplicate db (scoped db raw) (plate_of raw) window = Some old"
  | (recorded) db1 e where
      "find_event_id db (in_controller_id raw) (in_event_id raw) = None"
      "find_window_duplicate db (scoped db raw) (plate_of raw) window = None"
      "insert_idempotent env db (scoped db raw) (plate_of raw) = (db1, Some e)"
      "record_decision sha env db1 (authorize_scope db raw) (scoped db raw) (plate_of raw) e ttl th
         = Inr (db', res)"
proof (cases "find_event_id db (in_controller_id raw) (in_event_id raw)")
  case (Some old)
  then show ?thesis using assms by (intro replay [of old]) (auto simp: run_ingest_def Let_def)
next
  case None
  show ?thesis
  proof (cases "find_window_duplicate db (scoped db raw) (plate_of raw) window")
    case (Some dup)
    then show ?thesis using assms None
      by (intro replay [of dup]) (auto simp: run_ingest_def Let_def scoped_def plate_of_def)
  next
    case no_dup: None
    obtain db1 i where ins: "insert_idempotent env db (scoped db raw) (plate_of raw) = (db1, i)"
      by (cases "insert_idempotent env db (scoped db raw) (plate_of raw)")
    then obtain e where "i = Some e"
      using None insert_idempotent_None [of env db "scoped db raw" "plate_of raw"]
      by (cases i) (auto simp: scoped_def Let_def)
    then show ?thesis using assms None no_dup ins
      by (intro recorded [of db1 e]) (auto simp: run_ingest_def Let_def scoped_def plate_of_def)
  qed
qed

lemma run_ingest_writes:
  assumes "run_ingest sha env window ttl th db raw = Inr (db', res)"
  shows "writes_to sha db db'"
  using assms
proof (cases rule: run_ingest_cases)
  case (recorded db1 e)
  note i = insert_idempotent_writes [OF recorded(3)]
  have "writes_to sha db1 db'"
    using record_decision_writes [OF recorded(4) i(2,3)] .
  then show ?thesis using i(1) [of sha] by (rule converse_rtranclp_into_rtranclp [rotated])
qed simp

subsection \<open>Reviews\<close>

lemma insert_transition_writes:
  assumes "unsuperseded db current" "ad_status current = Pending_review"
    and t: "insert_transition sha db current st dec op now = (db', d)"
    and "\<And>x. decision_shape (x\<lparr>ad_decision := dec, ad_status := st\<rparr>)" "settled_status st"
  shows "touch sha db db'"
proof -
  define x where "x = \<lparr>ad_id = 0, ad_camera_event_id = ad_camera_event_id current,
        ad_group_id = ad_group_id current, ad_supersedes = Some (ad_id current),
        ad_decision = dec, ad_status = st, ad_reason = ad_reason current,
        ad_vehicle_id = ad_vehicle_id current, ad_pass_id = ad_pass_id current,
        ad_review_deadline = None, ad_resolved_by = op, ad_resolved_at = Some now,
        ad_source = ad_source current, ad_prev_hash = None, ad_row_hash = None\<rparr>"
  have "append_decision sha db x = (db', d)"
    using t by (simp add: insert_transition_def x_def)
  moreover have "decision_shape x" using assms(4) [of x] by (simp add: x_def)
  then have "touch sha db (fst (append_decision sha db x))"
    by (intro touch_transition [OF assms(1,2)]) (simp_all add: x_def assms(5))
  ultimately show ?thesis by simp
qed

lemma insert_transition_tables:
  assumes "insert_transition sha db current st dec op now = (db', d)"
  shows "decisions db' = decisions db @ [d]" "camera_events db' = camera_events db"
    "commands db' = commands db" "barriers db' = barriers db" "manual_openings db' = manual_openings db"
    "presence db' = presence db" "passes db' = passes db" "access_events db' = access_events db"
    "ad_id d = next_id (map ad_id (decisions db))" "ad_camera_event_id d = ad_camera_event_id current"
    "ad_supersedes d = Some (ad_id current)" "ad_decision d = dec" "ad_status d = st"
    "ad_group_id d = ad_group_id current"
  using append_decision_tables [OF assms [unfolded insert_transition_def]] by simp_all

lemma audit_writes: "touch sha db (insert_audit sha db actor act et ei b src r ip extra)"
  unfolding insert_audit_def by (rule touch_audit)

lemma opening_writes: "touch sha db (fst (insert_manual_opening sha env db b c d op r e))"
  by (simp add: insert_manual_opening_def Let_def) (rule touch_opening)

lemma settled_shapes:
  "decision_shape (x\<lparr>ad_decision := Allow, ad_status := Allowed_manually\<rparr>)"
  "decision_shape (x\<lparr>ad_decision := Deny, ad_status := Denied_manually\<rparr>)"
  "decision_shape (x\<lparr>ad_decision := Manual_review, ad_status := Expired\<rparr>)"
  by (simp_all add: decision_shape_def)

text \<open>Of the decisions on an event the latest is not superseded.\<close>

lemma sorted_ids_inj:
  "sorted_wrt (<) (map ad_id ds) \<Longrightarrow> a \<in> set ds \<Longrightarrow> b \<in> set ds \<Longrightarrow> ad_id a = ad_id b \<Longrightarrow> a = b"
  by (auto simp: strict_sorted_iff distinct_map inj_on_def)

lemma history_sorted:
  "decisions_ok db \<Longrightarrow> sorted_wrt (\<lambda>a b. ad_id a < ad_id b) (history db e)"
  by (auto simp: decisions_ok_def history_def sorted_wrt_map intro: sorted_wrt_filter)

lemma history_member:
  "history db e = h \<Longrightarrow> x \<in> set h \<Longrightarrow> x \<in> set (decisions db) \<and> ad_camera_event_id x = e"
  by (auto simp: history_def)

lemma superseding_in_history:
  assumes ok: "decisions_ok db" and x: "x \<in> set (decisions db)" "ad_supersedes x = Some (ad_id d)"
    and d: "d \<in> set (decisions db)"
  shows "history db (ad_camera_event_id d) = [d, x]"
proof -
  let ?h = "history db (ad_camera_event_id x)"
  have mem: "x \<in> set ?h" and hok: "history_ok ?h" using ok x by (auto simp: history_def decisions_ok_def)
  obtain a where h: "?h = [a, x]" and s: "ad_supersedes x = Some (ad_id a)"
    using mem hok x(2) by (cases ?h rule: history_ok.cases) auto
  have "a \<in> set (decisions db)" "ad_camera_event_id a = ad_camera_event_id x"
    using history_member [OF h, of a] by simp_all
  moreover from this have "a = d"
    using sorted_ids_inj [of "decisions db" a d] ok d s x(2) by (auto simp: decisions_ok_def)
  ultimately show ?thesis using h by simp
qed

lemma latest_unsuperseded:
  assumes ok: "decisions_ok db" and "latest_for_event db e = Some d"
  shows "unsuperseded db d" "ad_camera_event_id d = e"
proof -
  have d: "d \<in> set (history db e)" and max: "\<forall>x\<in>set (history db e). ad_id x \<le> ad_id d"
    using least_row_Some [OF assms(2) [unfolded latest_for_event_def]] by (auto simp: history_def)
  then show e: "ad_camera_event_id d = e" by (simp add: history_def)
  have "ad_supersedes x \<noteq> Some (ad_id d)" if "x \<in> set (decisions db)" for x
  proof
    assume x: "ad_supersedes x = Some (ad_id d)"
    have "d \<in> set (decisions db)" using d by (simp add: history_def)
    then have h: "history db e = [d, x]" using superseding_in_history [OF ok that x] e by simp
    then have "ad_id d < ad_id x" using history_sorted [OF ok, of e] by simp
    then show False using max h by auto
  qed
  then show "unsuperseded db d" using d by (auto simp: unsuperseded_def history_def list_all_iff)
qed

lemma current_unsuperseded:
  assumes ok: "decisions_ok db" and d: "d \<in> set (decisions db)" "is_current db d"
  shows "unsuperseded db d"
proof -
  have "ad_supersedes x \<noteq> Some (ad_id d)" if x: "x \<in> set (decisions db)" for x
  proof
    assume "ad_supersedes x = Some (ad_id d)"
    then have h: "history db (ad_camera_event_id d) = [d, x]"
      using superseding_in_history [OF ok x _ d(1)] by simp
    then have "ad_id d < ad_id x" using history_sorted [OF ok, of "ad_camera_event_id d"] by simp
    moreover have "ad_camera_event_id x = ad_camera_event_id d"
      using history_member [OF h, of x] by simp
    ultimately show False using d(2) x by (auto simp: is_current_def list_all_iff)
  qed
  then show ?thesis using d(1) by (simp add: unsuperseded_def list_all_iff)
qed

text \<open>What a call leaves behind, whether it returns or raises.\<close>

definition left_db :: "(lifecycle_error \<times> access_db) + (access_db \<times> 'a) \<Rightarrow> access_db" where
  "left_db r = (case r of Inl (e, db) \<Rightarrow> db | Inr (db, x) \<Rightarrow> db)"

lemma left_db_simps [simp]: "left_db (Inl (e, db)) = db" "left_db (Inr (db, x)) = db"
  by (simp_all add: left_db_def)

lemma resolve_open_writes:
  assumes "unsuperseded db current" "ad_status current = Pending_review"
  shows "writes_to sha db (left_db (resolve_open sha env db args current b c reason))"
proof -
  obtain db1 new where t: "insert_transition sha db current Allowed_manually Allow
      (Some (ra_operator args)) (env_now env) = (db1, new)"
    by (cases "insert_transition sha db current Allowed_manually Allow
      (Some (ra_operator args)) (env_now env)")
  have w1: "touch sha db db1"
    using insert_transition_writes [OF assms t settled_shapes(1)] by (simp add: settled_status_def)
  have g: "granted db1 (ad_id new)"
    using insert_transition_tables [OF t] by (simp add: granted_def)
  show ?thesis
  proof (cases "create_open_command env db1 c b (Some (ad_id new)) manual_command_ttl_seconds")
    case (Inl f)
    then show ?thesis by (simp add: resolve_open_def t lift_fault_def)
  next
    case (Inr x)
    obtain db2 cmd where x: "x = (db2, cmd)" by (cases x)
    have w2: "writes_to sha db1 db2"
      using create_open_command_writes [OF Inr [unfolded x]] g by simp
    have "writes_to sha db db2"
      using w1 w2 by (rule converse_rtranclp_into_rtranclp)
    then show ?thesis
      unfolding resolve_open_def t prod.case Inr x lift_fault_def sum.case res_bind_simps Let_def
        left_db_simps
      by (rule writes_then [OF writes_then [OF _ opening_writes] audit_writes])
  qed
qed

lemma resolve_deny_writes:
  assumes "unsuperseded db current" "ad_status current = Pending_review"
  shows "writes_to sha db (fst (resolve_deny sha env db args current b))"
proof -
  obtain db1 new where t: "insert_transition sha db current Denied_manually Deny
      (Some (ra_operator args)) (env_now env) = (db1, new)"
    by (cases "insert_transition sha db current Denied_manually Deny
      (Some (ra_operator args)) (env_now env)")
  have "touch sha db db1"
    using insert_transition_writes [OF assms t settled_shapes(2)] by (simp add: settled_status_def)
  then show ?thesis
    unfolding resolve_deny_def t prod.case fst_conv
    by (rule writes_then [OF r_into_rtranclp audit_writes])
qed

lemma expire_on_resolve_writes:
  assumes "unsuperseded db current" "ad_status current = Pending_review"
  shows "writes_to sha db (fst (expire_on_resolve sha env db args current b))"
proof -
  obtain db1 new where t: "insert_transition sha db current Expired Manual_review None (env_now env)
      = (db1, new)"
    by (cases "insert_transition sha db current Expired Manual_review None (env_now env)")
  have "touch sha db db1"
    using insert_transition_writes [OF assms t settled_shapes(3)] by (simp add: settled_status_def)
  then show ?thesis
    unfolding expire_on_resolve_def t prod.case fst_conv
    by (rule writes_then [OF r_into_rtranclp audit_writes])
qed

text \<open>The ends of a resolution: refused or replayed without a write, expired, opened, denied.\<close>

lemma resolve_event_cases:
  obtains (refused) e where "resolve_event sha env db args = Inl (e, db)"
  | (replayed) current where "latest_for_event db (ra_event_id args) = Some current"
      "ad_status current \<noteq> Pending_review"
      "resolve_event sha env db args = Inr (db, replay_result db current)"
  | (expired) current where "latest_for_event db (ra_event_id args) = Some current"
      "overdue (env_now env) current"
      "resolve_event sha env db args
         = Inr (expire_on_resolve sha env db args current
                  (fst (barrier_and_controller_for_event db (ra_event_id args))))"
  | (opened) current b c reason where "latest_for_event db (ra_event_id args) = Some current"
      "ad_status current = Pending_review" "\<not> overdue (env_now env) current"
      "ra_decision_id args = Some (ad_id current)" "ra_action args = Manual_open"
      "barrier_and_controller_for_event db (ra_event_id args) = (Some b, Some c)"
      "resolve_event sha env db args = resolve_open sha env db args current b c reason"
  | (denied) current where "latest_for_event db (ra_event_id args) = Some current"
      "ad_status current = Pending_review" "\<not> overdue (env_now env) current"
      "ra_action args = Deny_review"
      "resolve_event sha env db args
         = Inr (resolve_deny sha env db args current
                  (fst (barrier_and_controller_for_event db (ra_event_id args))))"
proof (cases "latest_for_event db (ra_event_id args)")
  case None
  then have "resolve_event sha env db args = Inl (InvalidResolveAction, db)
      \<or> resolve_event sha env db args = Inl (NoPendingReview, db)"
    by (cases "ra_action args") (simp_all add: resolve_event_def split: prod.splits)
  then show thesis using refused by blast
next
  case (Some current)
  obtain b c where bc: "barrier_and_controller_for_event db (ra_event_id args) = (b, c)"
    by (cases "barrier_and_controller_for_event db (ra_event_id args)")
  note base = resolve_event_def Some bc
  consider (other) x where "ra_action args = Other_action x"
    | (no_lock) "\<forall>x. ra_action args \<noteq> Other_action x" "lock_key_for_event db (ra_event_id args) = None"
    | (go) "\<forall>x. ra_action args \<noteq> Other_action x" "lock_key_for_event db (ra_event_id args) \<noteq> None"
    by blast
  then show thesis
  proof cases
    case other
    then show ?thesis using refused by (simp add: base)
  next
    case no_lock
    then show ?thesis using refused [of NoPendingReview]
      by (cases "ra_action args") (simp_all add: base)
  next
    case go
    consider (late) "overdue (env_now env) current"
      | (finished) "\<not> overdue (env_now env) current" "ad_status current \<noteq> Pending_review"
      | (live) "\<not> overdue (env_now env) current" "ad_status current = Pending_review"
      by blast
    then show ?thesis
    proof cases
      case late
      then show ?thesis using expired [OF Some late] go
        by (cases "ra_action args") (simp_all add: base)
    next
      case finished
      then show ?thesis using replayed [OF Some finished(2)] go
        by (cases "ra_action args") (simp_all add: base)
    next
      case live
      from go(2) obtain k where k: "lock_key_for_event db (ra_event_id args) = Some k" by auto
      let ?mis = "case ra_decision_id args of None \<Rightarrow> False | Some d \<Rightarrow> d \<noteq> ad_id current"
      show ?thesis
      proof (cases "ra_action args")
        case (Other_action x)
        then show ?thesis using go by simp
      next
        case Deny_review
        then have E: "resolve_event sha env db args =
            (if ?mis then Inl (DecisionIdMismatch, db)
             else if \<not> given_text (ra_reason args) then Inl (InvalidResolveAction, db)
             else Inr (resolve_deny sha env db args current b))"
          using live by (simp add: base k)
        show ?thesis
        proof (cases "?mis \<or> \<not> given_text (ra_reason args)")
          case True
          then have "resolve_event sha env db args = Inl (DecisionIdMismatch, db)
              \<or> resolve_event sha env db args = Inl (InvalidResolveAction, db)"
            unfolding E by argo
          then show ?thesis using refused by blast
        next
          case False
          then have "resolve_event sha env db args = Inr (resolve_deny sha env db args current b)"
            unfolding E by argo
          then show ?thesis using denied [OF Some live(2,1) Deny_review] bc by simp
        qed
      next
        case Manual_open
        let ?bad = "\<not> given_text (ra_reason args) \<or> ra_barrier_id args = None
          \<or> ra_decision_id args = None"
        let ?open = "case (b, c, ra_reason args) of
            (Some b', Some c', Some reason) \<Rightarrow> resolve_open sha env db args current b' c' reason
          | _ \<Rightarrow> Inl (BarrierUnavailable, db)"
        from Manual_open have E: "resolve_event sha env db args =
            (if ?mis then Inl (DecisionIdMismatch, db)
             else if ?bad then Inl (InvalidResolveAction, db) else ?open)"
          using live by (simp add: base k)
        show ?thesis
        proof (cases "?mis \<or> ?bad \<or> b = None \<or> c = None")
          case True
          have "b = None \<or> c = None \<Longrightarrow> ?open = Inl (BarrierUnavailable, db)"
            by (auto split: option.split)
          then have "resolve_event sha env db args = Inl (DecisionIdMismatch, db)
              \<or> resolve_event sha env db args = Inl (InvalidResolveAction, db)
              \<or> resolve_event sha env db args = Inl (BarrierUnavailable, db)"
            unfolding E using True by argo
          then show ?thesis using refused by blast
        next
          case False
          then obtain b' c' r d where v: "b = Some b'" "c = Some c'" "ra_reason args = Some r"
              "ra_decision_id args = Some d"
            by (cases "ra_reason args") (auto simp: given_text_def)
          have d: "ra_decision_id args = Some (ad_id current)" using False v(4) by simp
          have "resolve_event sha env db args = resolve_open sha env db args current b' c' r"
            unfolding E using False by (auto simp: v d)
          then show ?thesis
            using opened [OF Some live(2,1) d Manual_open] bc v by simp
        qed
      qed
    qed
  qed
qed

lemma overdue_pending: "overdue now d \<Longrightarrow> ad_status d = Pending_review"
  by (simp add: overdue_def)

lemma resolve_event_writes:
  assumes "decisions_ok db"
  shows "writes_to sha db (left_db (resolve_event sha env db args))"
proof (cases rule: resolve_event_cases [of sha env db args])
  case (expired current)
  then show ?thesis
    using expire_on_resolve_writes latest_unsuperseded [OF assms expired(1)]
      overdue_pending [OF expired(2)]
    by (simp add: left_db_def split: prod.split) (metis fst_conv)
next
  case (opened current b c reason)
  then show ?thesis
    using resolve_open_writes latest_unsuperseded [OF assms opened(1)] by simp
next
  case (denied current)
  then show ?thesis
    using resolve_deny_writes latest_unsuperseded [OF assms denied(1)]
    by (simp add: left_db_def split: prod.split) (metis fst_conv)
qed simp_all

subsection \<open>Expiry and standalone opening\<close>

lemma get_decision_Some: "get_decision db i = Some d \<Longrightarrow> d \<in> set (decisions db) \<and> ad_id d = i"
  unfolding get_decision_def by (drule first_row_Some) simp

text \<open>The ids still to expire belong to rows nobody has superseded.\<close>

definition expirable :: "access_db \<Rightarrow> int list \<Rightarrow> bool" where
  "expirable db ids \<longleftrightarrow>
     distinct ids
     \<and> (\<forall>d\<in>set (decisions db). ad_id d \<in> set ids \<and> ad_status d = Pending_review
          \<longrightarrow> unsuperseded db d)"

lemma expirable_step:
  assumes "expirable db (i # ids)" "get_decision db i = Some current"
    and t: "insert_transition sha db current Expired Manual_review None now = (db', d)"
  shows "expirable db' ids"
proof -
  note f = insert_transition_tables [OF t]
  have i: "ad_id current = i" using get_decision_Some [OF assms(2)] by simp
  have "unsuperseded db' x"
    if x: "x \<in> set (decisions db')" "ad_id x \<in> set ids" "ad_status x = Pending_review" for x
  proof -
    have "x \<in> set (decisions db)" using x(1,3) f(1,13) by auto
    moreover from this have "unsuperseded db x" using assms(1) x by (simp add: expirable_def)
    moreover have "i \<noteq> ad_id x" using assms(1) x(2) by (auto simp: expirable_def)
    ultimately show ?thesis using f(1,11) i by (simp add: unsuperseded_def)
  qed
  then show ?thesis using assms(1) by (simp add: expirable_def)
qed

lemma expire_ids_writes:
  "expirable db ids \<Longrightarrow> writes_to sha db (expire_ids sha now db ids)"
proof (induction ids arbitrary: db)
  case Nil
  then show ?case by (simp add: expire_ids_def)
next
  case (Cons i ids)
  have skip: "expirable db ids" using Cons.prems by (simp add: expirable_def)
  show ?case
  proof (cases "get_decision db i")
    case None
    then show ?thesis using Cons.IH [OF skip] by (simp add: expire_ids_def)
  next
    case (Some current)
    show ?thesis
    proof (cases "ad_status current = Pending_review")
      case False
      then show ?thesis using Cons.IH [OF skip] Some by (simp add: expire_ids_def)
    next
      case True
      obtain db1 d where t: "insert_transition sha db current Expired Manual_review None now = (db1, d)"
        by (cases "insert_transition sha db current Expired Manual_review None now")
      have "unsuperseded db current"
        using Cons.prems get_decision_Some [OF Some] True by (simp add: expirable_def)
      then have w: "touch sha db db1"
        using insert_transition_writes [OF _ True t settled_shapes(3)] by (simp add: settled_status_def)
      have "writes_to sha db1 (expire_ids sha now db1 ids)"
        by (rule Cons.IH [OF expirable_step [OF Cons.prems Some t]])
      with w have "writes_to sha db (expire_ids sha now db1 ids)"
        by (rule converse_rtranclp_into_rtranclp)
      then show ?thesis using Some True t by (simp add: expire_ids_def)
    qed
  qed
qed

lemma decision_ids_distinct: "decisions_ok db \<Longrightarrow> distinct (map ad_id (decisions db))"
  by (simp add: decisions_ok_def strict_sorted_iff)

lemma expired_pending_expirable:
  assumes "decisions_ok db"
  shows "expirable db (expired_pending_ids_for_barrier db b now)"
proof -
  let ?P = "\<lambda>d. at_barrier db b d \<and> overdue now d \<and> is_current db d"
  have "unsuperseded db d"
    if d: "d \<in> set (decisions db)" "ad_id d \<in> set (expired_pending_ids_for_barrier db b now)" for d
  proof -
    obtain x where "x \<in> set (decisions db)" "?P x" "ad_id x = ad_id d"
      using d(2) by (auto simp: expired_pending_ids_for_barrier_def)
    moreover from this have "x = d"
      using sorted_ids_inj [of "decisions db" x d] assms d(1) by (simp add: decisions_ok_def)
    ultimately show ?thesis using current_unsuperseded [OF assms] by simp
  qed
  moreover have "distinct (expired_pending_ids_for_barrier db b now)"
    using decision_ids_distinct [OF assms]
    by (simp add: expired_pending_ids_for_barrier_def distinct_map_filter)
  ultimately show ?thesis by (simp add: expirable_def)
qed

lemma lazy_expire_writes:
  "decisions_ok db \<Longrightarrow> writes_to sha db (lazy_expire_barrier_pending sha db b now)"
  unfolding lazy_expire_barrier_pending_def
  by (rule expire_ids_writes [OF expired_pending_expirable])

text \<open>The ends of a standalone opening.\<close>

lemma manual_open_cases:
  obtains (refused) e where "manual_open_barrier sha env db args = Inl (e, db)"
  | (conflict) e where
      "active_pending_event_for_barrier
         (lazy_expire_barrier_pending sha db (ma_barrier_id args) (env_now env))
         (ma_barrier_id args) (env_now env) = Some e"
      "manual_open_barrier sha env db args
         = Inl (PendingReviewConflict e,
                lazy_expire_barrier_pending sha db (ma_barrier_id args) (env_now env))"
  | (opened) c db2 cmd where
      "active_controller_for_barrier db (ma_barrier_id args) = Some c"
      "active_pending_event_for_barrier
         (lazy_expire_barrier_pending sha db (ma_barrier_id args) (env_now env))
         (ma_barrier_id args) (env_now env) = None"
      "create_open_command env
         (lazy_expire_barrier_pending sha db (ma_barrier_id args) (env_now env)) c
         (ma_barrier_id args) None manual_command_ttl_seconds = Inr (db2, cmd)"
      "manual_open_barrier sha env db args =
         Inr (insert_audit sha
                (fst (insert_manual_opening sha env db2 (ma_barrier_id args) (co_command_id cmd) None
                   (ma_operator args) (ma_reason args) None))
                (Some (ma_operator args))
                ''access.barrier_manual_open'' ''access_barrier'' (Some (ma_barrier_id args))
                (Some (ma_barrier_id args))
                (ma_source args) (Some (ma_reason args)) (ma_ip args) [],
              \<lparr>mr_opening_id = snd (insert_manual_opening sha env db2 (ma_barrier_id args)
                   (co_command_id cmd) None (ma_operator args) (ma_reason args) None),
               mr_command_id = co_command_id cmd, mr_barrier_id = ma_barrier_id args\<rparr>)"
proof (cases "given_text (Some (ma_reason args))")
  case False
  then show thesis using refused by (simp add: manual_open_barrier_def)
next
  case given: True
  show thesis
  proof (cases "active_controller_for_barrier db (ma_barrier_id args)")
    case None
    then show ?thesis using refused given by (simp add: manual_open_barrier_def)
  next
    case (Some c)
    let ?db1 = "lazy_expire_barrier_pending sha db (ma_barrier_id args) (env_now env)"
    show ?thesis
    proof (cases "active_pending_event_for_barrier ?db1 (ma_barrier_id args) (env_now env)")
      case pending: (Some e)
      then show ?thesis using conflict given Some by (simp add: manual_open_barrier_def Let_def)
    next
      case None
      show ?thesis
      proof (cases "create_open_command env ?db1 c (ma_barrier_id args) None manual_command_ttl_seconds")
        case (Inl f)
        then show ?thesis using refused [of "Fault f"] given Some None
          by (simp add: manual_open_barrier_def Let_def lift_fault_def)
      next
        case (Inr x)
        obtain db2 cmd where x: "x = (db2, cmd)" by (cases x)
        show ?thesis
          by (rule opened [OF Some None Inr [unfolded x]])
             (simp add: manual_open_barrier_def Let_def lift_fault_def given Some None
                Inr [unfolded x] split: prod.split)
      qed
    qed
  qed
qed

lemma manual_open_writes:
  assumes "decisions_ok db"
  shows "writes_to sha db (left_db (manual_open_barrier sha env db args))"
proof (cases rule: manual_open_cases [of sha env db args])
  case (conflict e)
  then show ?thesis using lazy_expire_writes [OF assms] by simp
next
  case (opened c db2 cmd)
  have "writes_to sha db db2"
    using create_open_command_writes [OF opened(3)]
      writes_and_writes [OF lazy_expire_writes [OF assms, of sha "ma_barrier_id args" "env_now env"],
        of db2]
    by simp
  then show ?thesis
    unfolding opened(4) left_db_simps
    by (rule writes_then [OF writes_then [OF _ opening_writes] audit_writes])
qed simp

lemma expire_one_writes:
  "expire_one sha now (db, n) due = (db', n') \<Longrightarrow> writes_to sha db db'"
proof (cases "current_decision_if_pending db (fst due)")
  case None
  then show "expire_one sha now (db, n) due = (db', n') \<Longrightarrow> ?thesis" by (simp add: expire_one_def)
next
  case (Some current)
  assume e: "expire_one sha now (db, n) due = (db', n')"
  obtain db1 d where t: "insert_transition sha db current Expired Manual_review None now = (db1, d)"
    by (cases "insert_transition sha db current Expired Manual_review None now")
  have g: "get_decision db (fst due) = Some current" "ad_status current = Pending_review"
    "\<not> list_ex (\<lambda>x. ad_supersedes x = Some (fst due)) (decisions db)"
    using Some by (auto simp: current_decision_if_pending_def split: option.splits if_splits)
  then have "unsuperseded db current"
    using get_decision_Some [OF g(1)] by (auto simp: unsuperseded_def list_ex_iff list_all_iff)
  then have "touch sha db db1"
    using insert_transition_writes [OF _ g(2) t settled_shapes(3)] by (simp add: settled_status_def)
  then have "writes_to sha db (insert_audit sha db1 None ''access.review_expired'' ''access_decision''
       (Some (ad_id d)) (snd due) ''review_expiry_worker'' None None [])"
    by (rule writes_then [OF r_into_rtranclp audit_writes])
  then show ?thesis using e Some t by (simp add: expire_one_def)
qed

lemma expire_fold_writes: "writes_to sha db (fst (foldl (expire_one sha now) (db, n) dues))"
proof (induction dues arbitrary: db n)
  case (Cons due dues)
  obtain db1 n1 where e: "expire_one sha now (db, n) due = (db1, n1)"
    by (cases "expire_one sha now (db, n) due")
  show ?case
    using expire_one_writes [OF e] Cons.IH [of db1 n1] by (simp add: e)
qed simp

lemma expire_due_writes: "writes_to sha db (fst (expire_due_reviews sha db now))"
  unfolding expire_due_reviews_def by (rule expire_fold_writes)

subsection \<open>Presence, queue, codes\<close>

lemma close_presence_writes:
  "writes_to sha db (left_db (close_presence_session sha env db i op reason ip))"
proof (cases "get_session db i")
  case None
  then show ?thesis by (simp add: close_presence_session_def)
next
  case (Some s)
  obtain db1 r where c: "close_session_manual db i op (take 32 reason) (env_now env) = (db1, r)"
    by (cases "close_session_manual db i op (take 32 reason) (env_now env)")
  have "touch sha db (fst (close_session_manual db i op (take 32 reason) (env_now env)))"
    by (simp add: close_session_manual_def Let_def) (rule touch_leave, simp)
  then have w: "touch sha db db1" by (simp add: c)
  show ?thesis
  proof (cases "ps_status s = Presence_open \<and> r \<noteq> None")
    case True
    then show ?thesis
      by (auto simp: close_presence_session_def Some c
          intro: writes_then [OF one_write [OF w] audit_writes])
  next
    case False
    then show ?thesis by (auto simp: close_presence_session_def Some c)
  qed
qed

lemma upd_where_one:
  assumes "distinct (map g rows)" "c \<in> set rows" "Q c"
  shows "upd_where (\<lambda>r. g r = g c) f rows = upd_where (\<lambda>r. g r = g c \<and> Q r) f rows"
proof -
  have "g r = g c \<Longrightarrow> r \<in> set rows \<Longrightarrow> r = c" for r
    using assms(1,2) by (auto simp: distinct_map inj_on_def)
  then show ?thesis using assms(3) by (auto simp: upd_where_def)
qed

lemma try_lease_cases:
  obtains (none) "try_lease sha db now token controller ttl = (db, None)"
      "\<not> list_ex (leasable now controller ttl) (commands db)"
  | (leased) c where "c \<in> set (commands db)" "leasable now controller ttl c"
      "\<And>x. x \<in> set (commands db) \<Longrightarrow> leasable now controller ttl x \<Longrightarrow> bc_created_at c \<le> bc_created_at x"
      "try_lease sha db now token controller ttl =
         (db\<lparr>commands := upd_where (\<lambda>r. bc_command_id r = bc_command_id c)
                (lease_row now ttl (hash_lease_token sha token)) (commands db)\<rparr>,
           Some \<lparr>lc_command_id = bc_command_id c, lc_barrier_id = bc_barrier_id c,
                 lc_lease_token = token, lc_expires_at = bc_expires_at c\<rparr>)"
proof (cases "least_row bc_created_at (filter (leasable now controller ttl) (commands db))")
  case None
  then show thesis
    by (intro none) (auto simp: try_lease_def filter_empty_conv list_ex_iff)
next
  case (Some c)
  then show thesis
    using least_row_Some [OF Some] by (intro leased [of c]) (auto simp: try_lease_def)
qed

lemma try_lease_writes:
  assumes "commands_ok db"
  shows "writes_to sha db (fst (try_lease sha db now token controller ttl))"
proof (cases rule: try_lease_cases [of sha db now token controller ttl])
  case (leased c)
  have "upd_where (\<lambda>r. bc_command_id r = bc_command_id c) f (commands db)
      = upd_where (\<lambda>r. bc_command_id r = bc_command_id c \<and> bc_status r = Command_pending) f (commands db)"
    for f
    by (rule upd_where_one) (use assms leased(1,2) in \<open>simp_all add: commands_ok_def leasable_def\<close>)
  then show ?thesis
    unfolding leased(4) fst_conv by (metis r_into_rtranclp touch_lease)
qed simp

lemma lease_next_writes:
  "access_inv sha db \<Longrightarrow> writes_to sha db (fst (lease_next_command sha db attempts controller ttl))"
proof (induction attempts arbitrary: db)
  case (Cons a attempts)
  obtain now token where a: "a = (now, token)" by (cases a)
  obtain db1 r where l: "try_lease sha db now token controller ttl = (db1, r)"
    by (cases "try_lease sha db now token controller ttl")
  have w: "writes_to sha db db1"
    using try_lease_writes [of db sha now token controller ttl] Cons.prems l
    by (simp add: access_inv_def)
  show ?case
  proof (cases r)
    case None
    have "access_inv sha db1" by (rule writes.inv_closed [OF w Cons.prems])
    from rtranclp_trans [OF w Cons.IH [OF this]] show ?thesis by (simp add: a l None)
  next
    case (Some x)
    then show ?thesis using w by (simp add: a l)
  qed
qed simp

lemma ack_command_writes:
  assumes "ack_command sha db now controller cmd token result = Some (db', out)"
  shows "writes_to sha db db'"
proof -
  let ?P = "\<lambda>c. (bc_command_id c = cmd \<and> bc_controller_id c = controller)
     \<and> bc_lease_token c = Some (hash_lease_token sha token)"
  have "db' = db \<or> db' = db\<lparr>commands :=
      upd_where (\<lambda>r. ?P r \<and> bc_status r = Command_leased) (ack_row now result) (commands db)\<rparr>"
    using assms by (auto simp: ack_command_def Let_def conj_assoc split: if_splits option.splits)
  then show ?thesis using touch_ack [of sha db ?P now result] by auto
qed

lemma redeem_entry_writes: "touch sha db (fst (redeem_entry db p))"
proof -
  have "fst (redeem_entry db p) = db\<lparr>passes := upd_where
      (\<lambda>r. (pa_id r = p \<and> pa_status r = Pass_active) \<and> pa_used_entries r < pa_max_entries r)
      consumed (passes db)\<rparr>"
    unfolding redeem_entry_def consumed_def [abs_def] by (simp add: Let_def)
  then show ?thesis
    using touch_pass [of sha db "\<lambda>r. pa_id r = p \<and> pa_status r = Pass_active"] by simp
qed

text \<open>A redeemed code: what held of the pass, and the state after the entry was taken.\<close>

lemma redeem_codeE:
  assumes "redeem_code sha hmac env db code op barrier ip = Inr (db', res)"
  obtains cand b c db2 cmd where
    "find_candidate db (hmac code) (env_now env) = Some cand"
    "resolve_barrier db (pa_zone_id cand) barrier = Inr (Some (b, c))"
    "snd (redeem_entry db (pa_id cand)) = 1"
    "create_open_command env (fst (redeem_entry db (pa_id cand))) c b None
       guest_code_command_ttl_seconds = Inr (db2, cmd)"
    "db' = insert_audit sha (fst (insert_manual_opening sha env db2 b (co_command_id cmd) None
             op (utext_of ''guest_code'') None)) (Some op) ''access.guest_code_redeemed''
             ''access_pass'' (Some (pa_id cand)) (Some b) ''guest_code'' None ip
             [(''apartment_id'', CInt (pa_apartment_id cand)),
              (''pass_type'', ctext (pass_type_value (pa_pass_type cand)))]"
    "re_pass_id res = pa_id cand"
proof -
  obtain cand where cand: "find_candidate db (hmac code) (env_now env) = Some cand"
    using assms by (cases "find_candidate db (hmac code) (env_now env)") (auto simp: redeem_code_def Let_def)
  obtain b c where r: "resolve_barrier db (pa_zone_id cand) barrier = Inr (Some (b, c))"
    using assms cand
    by (cases "resolve_barrier db (pa_zone_id cand) barrier")
       (auto simp: redeem_code_def Let_def split: if_splits option.splits)
  obtain db1 n where e: "redeem_entry db (pa_id cand) = (db1, n)"
    by (cases "redeem_entry db (pa_id cand)")
  have n: "n = 1" using assms cand r e by (auto simp: redeem_code_def Let_def split: if_splits)
  obtain db2 cmd where m: "create_open_command env db1 c b None guest_code_command_ttl_seconds
      = Inr (db2, cmd)"
    using assms cand r e n
    by (cases "create_open_command env db1 c b None guest_code_command_ttl_seconds")
       (auto simp: redeem_code_def Let_def split: if_splits)
  show thesis
    by (rule that [OF cand r]) (use assms cand r e n m in
        \<open>auto simp: redeem_code_def Let_def split: if_splits\<close>)
qed

lemma redeem_code_writes:
  assumes "redeem_code sha hmac env db code op barrier ip = Inr (db', res)"
  shows "writes_to sha db db'"
  using assms
proof (rule redeem_codeE)
  fix cand b c db2 cmd
  assume m: "create_open_command env (fst (redeem_entry db (pa_id cand))) c b None
       guest_code_command_ttl_seconds = Inr (db2, cmd)"
    and db': "db' = insert_audit sha (fst (insert_manual_opening sha env db2 b (co_command_id cmd) None
             op (utext_of ''guest_code'') None)) (Some op) ''access.guest_code_redeemed''
             ''access_pass'' (Some (pa_id cand)) (Some b) ''guest_code'' None ip
             [(''apartment_id'', CInt (pa_apartment_id cand)),
              (''pass_type'', ctext (pass_type_value (pa_pass_type cand)))]"
  have "writes_to sha db db2"
    using create_open_command_writes [OF m]
      writes_and_writes [OF one_write [OF redeem_entry_writes [of sha db "pa_id cand"]], of db2]
    by simp
  then show ?thesis
    unfolding db' by (rule writes_then [OF writes_then [OF _ opening_writes] audit_writes])
qed

lemma photo_writes:
  assumes "update_photo_ref db c e kind ref = Inr (db', i)"
  shows "writes_to sha db db'"
proof -
  let ?hit = "\<lambda>r. ce_controller_id r = c \<and> ce_event_id r = e"
  have "db' = db\<lparr>camera_events := upd_where ?hit (\<lambda>r. r\<lparr>ce_plate_photo := Some ref\<rparr>) (camera_events db)\<rparr>
      \<or> db' = db\<lparr>camera_events := upd_where ?hit (\<lambda>r. r\<lparr>ce_overview_photo := Some ref\<rparr>) (camera_events db)\<rparr>"
    using assms by (auto simp: update_photo_ref_def Let_def split: if_splits)
  then show ?thesis
    using touch_photo [of "\<lambda>r. r\<lparr>ce_plate_photo := Some ref\<rparr>" sha db ?hit]
      touch_photo [of "\<lambda>r. r\<lparr>ce_overview_photo := Some ref\<rparr>" sha db ?hit]
    by auto
qed

end
