(* ===== verification/AccessRuns.thy ===== *)
theory AccessRuns
  imports AccessOps
begin

section \<open>Runs of the access services\<close>

text \<open>
  The step relation of the access services: any operation on any input, or an administrator's
  change to the registry (territory, vehicles, rules, passes, equipment) that respects the
  constraints on passes.  The invariant holds in every reachable state, the journals grow, and
  what identifies an event, a decision's command or a taken command stays.
\<close>

definition registry_change :: "access_db \<Rightarrow> access_db \<Rightarrow> bool" where
  "registry_change db db' \<longleftrightarrow>
     camera_events db' = camera_events db \<and> decisions db' = decisions db
     \<and> access_events db' = access_events db \<and> commands db' = commands db
     \<and> presence db' = presence db \<and> manual_openings db' = manual_openings db
     \<and> audit_logs db' = audit_logs db \<and> passes_ok db'"

inductive acc_step :: "(utext \<Rightarrow> string) \<Rightarrow> access_db \<Rightarrow> access_db \<Rightarrow> bool" for sha where
  acc_ingest: "ingest_anpr sha env db data = Inr (db', res) \<Longrightarrow> acc_step sha db db'"
| acc_resolve: "acc_step sha db (left_db (resolve_event sha env db rargs))"
| acc_manual_open: "acc_step sha db (left_db (manual_open_barrier sha env db margs))"
| acc_expire: "acc_step sha db (fst (expire_due_reviews sha db now))"
| acc_close: "acc_step sha db (left_db (close_presence_session sha env db i op reason ip))"
| acc_lease: "acc_step sha db (fst (lease_next_command sha db attempts controller ttl))"
| acc_ack: "ack_command sha db now controller cmd token result = Some (db', out) \<Longrightarrow>
    acc_step sha db db'"
| acc_redeem: "redeem_code sha hmac env db code op barrier ip = Inr (db', red) \<Longrightarrow>
    acc_step sha db db'"
| acc_photo: "update_photo_ref db c e kind ref = Inr (db', i) \<Longrightarrow> acc_step sha db db'"
| acc_registry: "registry_change db db' \<Longrightarrow> acc_step sha db db'"

inductive_cases acc_stepE [elim]: "acc_step sha db db'"

text \<open>A new installation: a registry, and no event yet.\<close>

definition acc_init :: "access_db \<Rightarrow> bool" where
  "acc_init db \<longleftrightarrow>
     camera_events db = [] \<and> decisions db = [] \<and> access_events db = [] \<and> commands db = []
     \<and> presence db = [] \<and> manual_openings db = [] \<and> audit_logs db = [] \<and> passes_ok db"

lemma access_inv_init: "acc_init db \<Longrightarrow> access_inv sha db"
  by (simp add: acc_init_def access_inv_def chains_ok_def decisions_ok_def history_def commands_ok_def
      presence_ok_def events_ok_def links_ok_def List.map_filter_def)

text \<open>A step is a sequence of writes, or leaves the tables of the services alone.\<close>

lemma acc_step_writes:
  assumes "acc_step sha db db'" "access_inv sha db"
  shows "writes_to sha db db' \<or> registry_change db db'"
  using assms(1)
proof cases
  case (acc_ingest env data res)
  then show ?thesis unfolding ingest_anpr_def by (blast intro: run_ingest_writes)
next
  case (acc_resolve env rargs)
  then show ?thesis using resolve_event_writes assms(2) by (simp add: access_inv_def)
next
  case (acc_manual_open env margs)
  then show ?thesis using manual_open_writes assms(2) by (simp add: access_inv_def)
next
  case (acc_expire now)
  then show ?thesis using expire_due_writes by simp
next
  case (acc_close env i op reason ip)
  then show ?thesis using close_presence_writes by simp
next
  case (acc_lease attempts controller ttl)
  then show ?thesis using lease_next_writes assms(2) by simp
next
  case (acc_ack now controller cmd token result out)
  then show ?thesis by (blast intro: ack_command_writes)
next
  case (acc_redeem hmac env code op barrier ip red)
  then show ?thesis by (blast intro: redeem_code_writes)
next
  case (acc_photo c e kind ref i)
  then show ?thesis by (blast intro: photo_writes)
next
  case acc_registry
  then show ?thesis by simp
qed

lemma registry_change_inv:
  assumes "registry_change db db'" "access_inv sha db"
  shows "access_inv sha db'"
proof -
  have g: "granted db' = granted db" using assms(1) by (simp add: fun_eq_iff granted_def registry_change_def)
  have "command_granted db' = command_granted db"
    by (simp add: fun_eq_iff command_granted_def g split: option.split)
  then show ?thesis
    using assms by (simp add: registry_change_def access_inv_def chains_ok_def decisions_ok_def
        history_def commands_ok_def presence_ok_def events_ok_def links_ok_def)
qed

lemma access_inv_step:
  assumes "access_inv sha db" "acc_step sha db db'"
  shows "access_inv sha db'"
proof (rule disjE [OF acc_step_writes [OF assms(2,1)]])
  assume "writes_to sha db db'"
  then show ?thesis by (rule writes.inv_closed) (rule assms(1))
next
  assume "registry_change db db'"
  then show ?thesis by (rule registry_change_inv) (rule assms(1))
qed

interpretation access: preserved acc_init "acc_step sha" "access_inv sha" for sha
proof unfold_locales
  show "access_inv sha db" if "acc_init db" for db sha using that by (rule access_inv_init)
  show "access_inv sha db'" if "access_inv sha db" "acc_step sha db db'" for db db' sha
    using that by (rule access_inv_step)
qed

subsection \<open>What stays\<close>

definition command_of :: "access_db \<Rightarrow> int \<Rightarrow> nat option" where
  "command_of db d = map_option bc_command_id (command_for_decision db d)"

definition taken :: "access_db \<Rightarrow> nat \<Rightarrow> bool" where
  "taken db i \<longleftrightarrow> list_ex (\<lambda>c. bc_command_id c = i \<and> bc_status c \<noteq> Command_pending) (commands db)"

definition persists :: "access_db \<Rightarrow> access_db \<Rightarrow> bool" where
  "persists db db' \<longleftrightarrow>
     grows db db'
     \<and> (\<forall>c e i. find_event_id db c e = Some i \<longrightarrow> find_event_id db' c e = Some i)
     \<and> (\<forall>d i. command_of db d = Some i \<longrightarrow> command_of db' d = Some i)
     \<and> (\<forall>i. taken db i \<longrightarrow> taken db' i)
     \<and> prefix (map bc_command_id (commands db)) (map bc_command_id (commands db'))"

lemma persists_refl: "persists db db"
  by (simp add: persists_def grows_refl)

lemma persists_trans: "persists a b \<Longrightarrow> persists b c \<Longrightarrow> persists a c"
  unfolding persists_def by (auto intro: grows_trans simp: prefix_def)

lemma first_row_append_Some: "first_row P xs = Some r \<Longrightarrow> first_row P (xs @ ys) = Some r"
  by (simp add: first_row_append)

lemma command_of_upd:
  assumes "\<And>c. bc_decision_id (f c) = bc_decision_id c" "\<And>c. bc_command_id (f c) = bc_command_id c"
  shows "command_of (db\<lparr>commands := upd_where P f (commands db)\<rparr>) d = command_of db d"
  using assms
  by (simp add: command_of_def command_for_decision_def first_row_upd_where)
     (cases "first_row (\<lambda>c. bc_decision_id c = Some d) (commands db)"; simp)

lemma taken_upd:
  assumes "\<And>c. bc_command_id (f c) = bc_command_id c" "\<And>c. bc_status (f c) \<noteq> Command_pending"
    and "taken db i"
  shows "taken (db\<lparr>commands := upd_where P f (commands db)\<rparr>) i"
proof -
  obtain c where c: "c \<in> set (commands db)" "bc_command_id c = i" "bc_status c \<noteq> Command_pending"
    using assms(3) by (auto simp: taken_def list_ex_iff)
  have "(if P c then f c else c) \<in> set (upd_where P f (commands db))"
    using c(1) by (simp add: upd_where_def)
  then show ?thesis using assms(1,2) c(2,3) unfolding taken_def list_ex_iff
    by (intro bexI [where x = "if P c then f c else c"]) auto
qed

lemma find_event_upd:
  assumes "\<And>r. ce_controller_id (f r) = ce_controller_id r \<and> ce_event_id (f r) = ce_event_id r
      \<and> ce_id (f r) = ce_id r"
  shows "find_event_id (db\<lparr>camera_events := upd_where P f (camera_events db)\<rparr>) c e = find_event_id db c e"
  using assms
  by (simp add: find_event_id_def first_row_upd_where)
     (cases "first_row (\<lambda>r. ce_controller_id r = c \<and> ce_event_id r = e) (camera_events db)"; simp)

lemma frame_facts:
  "commands db' = commands db \<Longrightarrow> command_of db' = command_of db \<and> taken db' = taken db"
  "camera_events db' = camera_events db \<Longrightarrow> find_event_id db' = find_event_id db"
  by (simp_all add: fun_eq_iff command_of_def command_for_decision_def taken_def find_event_id_def)

lemma touch_persists: "touch sha db db' \<Longrightarrow> persists db db'"
proof -
  assume t: "touch sha db db'"
  note g = touch_grows [OF t]
  have frame: "persists db db'" if "commands db' = commands db" "camera_events db' = camera_events db"
    using g frame_facts(1) [OF that(1)] frame_facts(2) [OF that(2)] that by (simp add: persists_def)
  from t show ?thesis
  proof (cases rule: touch.cases)
    case (touch_event e)
    have f: "commands db' = commands db" using touch_event by simp
    have "find_event_id db c k = Some i \<longrightarrow> find_event_id db' c k = Some i" for c k i
      using touch_event(1) by (auto simp: find_event_id_def first_row_append)
    then show ?thesis using g frame_facts(1) [OF f] f by (simp add: persists_def)
  next
    case (touch_photo f P)
    have c: "commands db' = commands db" using touch_photo by simp
    show ?thesis
      using g frame_facts(1) [OF c] c find_event_upd [OF touch_photo(2)] touch_photo(1)
      by (simp add: persists_def)
  next
    case (touch_command c)
    have f: "camera_events db' = camera_events db" using touch_command by simp
    have "command_of db d = Some i \<longrightarrow> command_of db' d = Some i" for d i
      using touch_command(1) by (auto simp: command_of_def command_for_decision_def first_row_append)
    moreover have "taken db i \<longrightarrow> taken db' i" for i
      using touch_command(1) by (simp add: taken_def)
    ultimately show ?thesis using g frame_facts(2) [OF f] touch_command(1) by (simp add: persists_def)
  next
    case (touch_lease i now ttl h)
    have f: "camera_events db' = camera_events db" using touch_lease by simp
    show ?thesis
      using g frame_facts(2) [OF f] touch_lease
        command_of_upd [where f = "lease_row now ttl h" and db = db]
        taken_upd [where f = "lease_row now ttl h" and db = db]
      by (simp add: persists_def lease_row_def map_upd_where)
  next
    case (touch_ack P now res)
    have f: "camera_events db' = camera_events db" using touch_ack by simp
    show ?thesis
      using g frame_facts(2) [OF f] touch_ack
        command_of_upd [where f = "ack_row now res" and db = db]
        taken_upd [where f = "ack_row now res" and db = db]
      by (simp add: persists_def ack_row_def map_upd_where)
  qed (use frame in \<open>simp_all add: append_decision_def Let_def\<close>)
qed

interpretation write_persistence: monotone_steps "touch sha" persists for sha
proof unfold_locales
  show "persists db db" for db by (rule persists_refl)
  show "persists a c" if "persists a b" "persists b c" for a b c using that by (rule persists_trans)
  show "persists db db'" if "touch sha db db'" for db db' sha using that by (rule touch_persists)
qed

text \<open>The same for the steps of the services, from a state with the invariant.\<close>

definition inv_step :: "(utext \<Rightarrow> string) \<Rightarrow> access_db \<Rightarrow> access_db \<Rightarrow> bool" where
  "inv_step sha db db' \<longleftrightarrow> access_inv sha db \<and> acc_step sha db db'"

lemma registry_change_persists: "registry_change db db' \<Longrightarrow> persists db db'"
  using frame_facts(1) [of db' db] frame_facts(2) [of db' db]
  by (simp add: registry_change_def persists_def grows_def)

interpretation access_persistence: monotone_steps "inv_step sha" persists for sha
proof unfold_locales
  show "persists db db" for db by (rule persists_refl)
  show "persists a c" if "persists a b" "persists b c" for a b c using that by (rule persists_trans)
  show "persists db db'" if "inv_step sha db db'" for db db' sha
    using acc_step_writes [of sha db db'] that write_persistence.rel_run [of sha db db']
      registry_change_persists [of db db'] by (auto simp: inv_step_def)
qed

lemma inv_run:
  assumes "access_inv sha db" "(acc_step sha)\<^sup>*\<^sup>* db db'"
  shows "(inv_step sha)\<^sup>*\<^sup>* db db' \<and> access_inv sha db'"
  using assms(2)
proof (induction rule: rtranclp_induct)
  case base
  then show ?case using assms(1) by simp
next
  case (step y z)
  then have "inv_step sha y z" by (simp add: inv_step_def)
  then show ?case using step access_inv_step by (auto intro: rtranclp.rtrancl_into_rtrancl)
qed

lemma run_persists:
  "access_inv sha db \<Longrightarrow> (acc_step sha)\<^sup>*\<^sup>* db db' \<Longrightarrow> persists db db'"
proof -
  assume a: "access_inv sha db" and b: "(acc_step sha)\<^sup>*\<^sup>* db db'"
  have r: "(inv_step sha)\<^sup>*\<^sup>* db db'" using inv_run [OF a b] by (rule conjunct1)
  show "persists db db'" by (rule access_persistence.rel_run [OF r])
qed

end
