(* ===== verification/AccessIngestFacts.thy ===== *)
theory AccessIngestFacts
  imports AccessRuns
begin

section \<open>What one ingestion does\<close>

text \<open>
  The facts about a single call of \<open>ingest_anpr\<close> that the properties use: what is stored of a new
  event, when the call succeeds, and which barrier and decision its command belongs to.
\<close>

lemma track_presence_tables [simp]:
  "decisions (track_presence db data e d) = decisions db"
  "commands (track_presence db data e d) = commands db"
  "camera_events (track_presence db data e d) = camera_events db"
  "access_events (track_presence db data e d) = access_events db"
  "passes (track_presence db data e d) = passes db"
  by (auto simp: track_presence_def open_presence_session_def close_presence_session_on_exit_def
      open_session_def close_open_session_for_vehicle_zone_def Let_def split: option.split)

lemma insert_access_event_tables:
  assumes "insert_access_event sha db data e d n = Inr db'"
  shows "decisions db' = decisions db" "commands db' = commands db"
    "camera_events db' = camera_events db" "passes db' = passes db" "presence db' = presence db"
    "length (access_events db') = Suc (length (access_events db))" "barriers db' = barriers db"
  using assms
  by (auto simp: insert_access_event_def append_hashed_def split: if_splits prod.splits)

lemma create_open_command_out:
  assumes "create_open_command env db c b d ttl = Inr (db', out)"
    and none: "case d of None \<Rightarrow> True | Some i \<Rightarrow> command_for_decision db i = None"
  shows "\<exists>row. commands db' = commands db @ [row] \<and> out = command_out_of row
      \<and> bc_command_id row = env_command_uuid env \<and> bc_barrier_id row = b
      \<and> bc_controller_id row = c \<and> bc_decision_id row = d \<and> bc_status row = Command_pending"
    "decisions db' = decisions db" "camera_events db' = camera_events db"
    "access_events db' = access_events db" "passes db' = passes db" "presence db' = presence db"
  using assms
  by (auto simp: create_open_command_def Let_def split: if_splits option.splits)

lemma create_open_command_total:
  assumes "\<not> list_ex (\<lambda>r. bc_command_id r = env_command_uuid env) (commands db)"
  shows "\<exists>db' out. create_open_command env db c b d ttl = Inr (db', out)"
  using assms
  by (cases "case d of None \<Rightarrow> None | Some d \<Rightarrow> command_for_decision db d")
     (simp_all add: create_open_command_def Let_def)

text \<open>A decision just made has no command yet.\<close>

lemma fresh_decision_no_command:
  assumes "commands_ok db" "decisions_ok db"
  shows "command_for_decision db (next_id (map ad_id (decisions db))) = None"
proof -
  have "bc_decision_id c \<noteq> Some (next_id (map ad_id (decisions db)))" if c: "c \<in> set (commands db)" for c
  proof
    assume i: "bc_decision_id c = Some (next_id (map ad_id (decisions db)))"
    have "command_granted db c" using assms(1) c by (simp add: commands_ok_def list_all_iff)
    then have "granted db (next_id (map ad_id (decisions db)))" by (simp add: command_granted_def i)
    then obtain d where "d \<in> set (decisions db)" "ad_id d = next_id (map ad_id (decisions db))"
      by (auto simp: granted_def list_ex_iff)
    then show False using next_id_fresh [of "map ad_id (decisions db)"] by (metis image_eqI list.set_map)
  qed
  then show ?thesis by (auto simp: command_for_decision_def first_row_None)
qed

lemma issue_command_cases:
  assumes "issue_command env db data b d ttl = Inr (db', cmd)"
    and fresh: "command_for_decision db (ad_id d) = None"
  obtains (none) "cmd = None" "db' = db"
      "b = None \<or> \<not> (ad_decision d = Allow \<and> ad_status d = Allowed)"
  | (issued) i row where "b = Some i" "ad_decision d = Allow" "ad_status d = Allowed"
      "cmd = Some (command_out_of row)" "commands db' = commands db @ [row]"
      "bc_barrier_id row = i" "bc_controller_id row = in_controller_id data"
      "bc_decision_id row = Some (ad_id d)" "bc_status row = Command_pending"
      "decisions db' = decisions db" "camera_events db' = camera_events db"
      "access_events db' = access_events db" "passes db' = passes db" "presence db' = presence db"
proof (cases "b \<noteq> None \<and> ad_decision d = Allow \<and> ad_status d = Allowed")
  case True
  then obtain i where b: "b = Some i" by auto
  obtain db1 out where c: "create_open_command env db (in_controller_id data) i (Some (ad_id d)) ttl
      = Inr (db1, out)" "db' = db1" "cmd = Some out"
    using assms(1) True b by (auto simp: issue_command_def res_bind_Inr_iff)
  have n: "case Some (ad_id d) of None \<Rightarrow> True | Some j \<Rightarrow> command_for_decision db j = None"
    using fresh by simp
  note o = create_open_command_out [OF c(1) n]
  obtain row where row: "commands db1 = commands db @ [row]" "out = command_out_of row"
      "bc_barrier_id row = i" "bc_controller_id row = in_controller_id data"
      "bc_decision_id row = Some (ad_id d)" "bc_status row = Command_pending"
    using o(1) by blast
  show thesis
    by (rule issued [OF b]) (use True row o(2-6) c(2,3) in simp_all)
next
  case False
  then show thesis using assms(1)
    by (intro none) (auto simp: issue_command_def split: option.splits if_splits)
qed

lemma inv_parts_cong:
  assumes "decisions db' = decisions db" "commands db' = commands db"
  shows "commands_ok db' = commands_ok db" "decisions_ok db' = decisions_ok db"
proof -
  have "granted db' = granted db" using assms(1) by (simp add: fun_eq_iff granted_def)
  then have "command_granted db' = command_granted db" by (simp add: fun_eq_iff command_granted_def split: option.split)
  then show "commands_ok db' = commands_ok db" "decisions_ok db' = decisions_ok db"
    using assms by (simp_all add: commands_ok_def decisions_ok_def history_def)
qed

text \<open>The stored event, decision, passage and command of a new event.\<close>

lemma record_decision_tables:
  assumes r: "record_decision sha env db scope data n e ttl th = Inr (db', res)"
    and e: "e \<in> ce_id ` set (camera_events db)" and inv: "commands_ok db" "decisions_ok db"
  obtains d row where
    "decisions db' = decisions db @ [d]" "ad_camera_event_id d = e" "ad_supersedes d = None"
    "camera_events db' = camera_events db"
    "length (access_events db') = Suc (length (access_events db))"
    "res = \<lparr>ir_decision = ad_decision d, ir_status = ad_status d, ir_reason = ad_reason d,
           ir_decision_id = Some (ad_id d), ir_group_id = ad_group_id d,
           ir_command = (if row = [] then None else Some (command_out_of (hd row))),
           ir_replayed = False\<rparr>"
    "initial_for_event db e = None"
    "commands db' = commands db @ row" "length row \<le> 1"
    "row \<noteq> [] \<Longrightarrow> sc_barrier_id scope = Some (bc_barrier_id (hd row)) \<and> ad_decision d = Allow
       \<and> ad_status d = Allowed \<and> bc_controller_id (hd row) = in_controller_id data
       \<and> bc_decision_id (hd row) = Some (ad_id d)"
    "ad_decision d = Allow \<Longrightarrow> ad_status d = Allowed \<Longrightarrow> sc_barrier_id scope \<noteq> None \<Longrightarrow> row \<noteq> []"
  using r
proof (rule record_decisionE)
  fix db1 en1 en final deadline db2 d db3 db4 cmd
  assume s1: "settle_taxi db (engine_for db scope data n th) = (db1, en1)"
    and s2: "settle_review env db1 (sc_barrier_id scope) (in_captured_at data) en1 = (en, final, deadline)"
    and s3: "insert_initial sha env db1 e (en_decision en) final (en_reason en)
       (en_vehicle_id en) (en_pass_id en) deadline (in_source data) = Inr (db2, d)"
    and s4: "insert_access_event sha db2 data e d n = Inr db3"
    and s5: "issue_command env db3 data (sc_barrier_id scope) d ttl = Inr (db4, cmd)"
    and s6: "db' = track_presence db4 data e d"
    and s7: "res = \<lparr>ir_decision = en_decision en, ir_status = final, ir_reason = en_reason en,
           ir_decision_id = Some (ad_id d), ir_group_id = ad_group_id d,
           ir_command = cmd, ir_replayed = False\<rparr>"
  have f1: "engine_shape en1" "decisions db1 = decisions db" "camera_events db1 = camera_events db"
    "access_events db1 = access_events db" "commands db1 = commands db"
    using settle_taxi_writes [OF s1 engine_for_shape] by simp_all
  have e1: "e \<in> ce_id ` set (camera_events db1)" using e f1(3) by simp
  note f2 = insert_initial_writes [OF s3 e1 settle_review_shape(1) [OF s2 f1(1)]]
  have i1: "initial_for_event db1 e = initial_for_event db e"
    using f1(2) by (simp add: initial_for_event_def)
  note f3 = insert_access_event_tables [OF s4]
  have ok1: "commands_ok db1" "decisions_ok db1"
    using inv inv_parts_cong [OF f1(2) f1(5)] by simp_all
  have id: "ad_id d = next_id (map ad_id (decisions db1))"
    using s3 append_decision_tables(11)
    by (auto simp: insert_initial_def split: if_splits)
  have nc: "command_for_decision db3 (ad_id d) = None"
    using fresh_decision_no_command [OF ok1] id f2 f3(2)
    by (simp add: command_for_decision_def)
  show thesis
    using s5 nc
  proof (cases rule: issue_command_cases)
    case none
    show ?thesis
      by (rule that [of d "[]"]) (use none s6 s7 f1 f2 f3 i1 in auto)
  next
    case (issued i row)
    show ?thesis
      by (rule that [of d "[row]"]) (use issued s6 s7 f1 f2 f3 i1 in auto)
  qed
qed

text \<open>A new event: its rows, and what a later lookup finds.\<close>

lemma ingest_recorded:
  assumes inv: "access_inv sha db"
    and r: "run_ingest sha env window ttl th db raw = Inr (db', res)" "\<not> ir_replayed res"
  obtains e d row where
    "find_event_id db (in_controller_id raw) (in_event_id raw) = None"
    "find_event_id db' (in_controller_id raw) (in_event_id raw) = Some e"
    "initial_for_event db' e = Some d"
    "decisions db' = decisions db @ [d]"
    "length (camera_events db') = Suc (length (camera_events db))"
    "length (access_events db') = Suc (length (access_events db))"
    "res = \<lparr>ir_decision = ad_decision d, ir_status = ad_status d, ir_reason = ad_reason d,
           ir_decision_id = Some (ad_id d), ir_group_id = ad_group_id d,
           ir_command = (if row = [] then None else Some (command_out_of (hd row))),
           ir_replayed = False\<rparr>"
    "commands db' = commands db @ row" "length row \<le> 1"
    "row \<noteq> [] \<Longrightarrow> sc_barrier_id (authorize_scope db raw) = Some (bc_barrier_id (hd row))
       \<and> ad_decision d = Allow \<and> ad_status d = Allowed
       \<and> bc_controller_id (hd row) = in_controller_id raw
       \<and> bc_decision_id (hd row) = Some (ad_id d)"
    "ad_decision d = Allow \<Longrightarrow> ad_status d = Allowed \<Longrightarrow> sc_barrier_id (authorize_scope db raw) \<noteq> None
       \<Longrightarrow> row \<noteq> []"
  using r(1)
proof (cases rule: run_ingest_cases)
  case (replay old)
  then show ?thesis using r(2) by (simp add: load_existing_result_def split: option.splits)
next
  case (recorded db1 e)
  note i = insert_idempotent_writes [OF recorded(3)]
  have inv1: "access_inv sha db1" by (rule touch_inv [OF inv i(1)])
  have key: "in_controller_id (scoped db raw) = in_controller_id raw"
    "in_event_id (scoped db raw) = in_event_id raw"
    by (simp_all add: scoped_def Let_def)
  have cam: "\<exists>x. camera_events db1 = camera_events db @ [x] \<and> ce_id x = e
      \<and> ce_controller_id x = in_controller_id raw \<and> ce_event_id x = in_event_id raw"
    using recorded(3) key by (auto simp: insert_idempotent_def Let_def split: if_splits)
  have ok: "commands_ok db1" "decisions_ok db1" using inv1 by (simp_all add: access_inv_def)
  show ?thesis
  proof (rule record_decision_tables [OF recorded(4) i(2) ok])
    fix d row
    assume d: "decisions db' = decisions db1 @ [d]" "ad_camera_event_id d = e" "ad_supersedes d = None"
    "camera_events db' = camera_events db1"
    "length (access_events db') = Suc (length (access_events db1))"
    "res = \<lparr>ir_decision = ad_decision d, ir_status = ad_status d, ir_reason = ad_reason d,
           ir_decision_id = Some (ad_id d), ir_group_id = ad_group_id d,
           ir_command = (if row = [] then None else Some (command_out_of (hd row))),
           ir_replayed = False\<rparr>"
    "initial_for_event db1 e = None"
    "commands db' = commands db1 @ row" "length row \<le> 1"
    "row \<noteq> [] \<Longrightarrow> sc_barrier_id (authorize_scope db raw) = Some (bc_barrier_id (hd row))
       \<and> ad_decision d = Allow \<and> ad_status d = Allowed
       \<and> bc_controller_id (hd row) = in_controller_id (scoped db raw)
       \<and> bc_decision_id (hd row) = Some (ad_id d)"
    "ad_decision d = Allow \<Longrightarrow> ad_status d = Allowed \<Longrightarrow> sc_barrier_id (authorize_scope db raw) \<noteq> None
       \<Longrightarrow> row \<noteq> []"
  have find: "find_event_id db' (in_controller_id raw) (in_event_id raw) = Some e"
    using cam d(4) recorded(1)
    by (auto simp: find_event_id_def first_row_append sql_simps split: option.splits)
  have ini: "initial_for_event db' e = Some d"
    using d(1-3,7) by (simp add: initial_for_event_def first_row_append sql_simps)
  have lens: "length (camera_events db') = Suc (length (camera_events db))"
    using cam d(4) by auto
  show ?thesis
    by (rule that [OF recorded(1) find ini _ lens _ d(6) _ d(9) _ d(11)])
       (simp_all add: d(1,5,8,10) i(5-7) key)
  qed
qed

text \<open>A call on a state with the invariant and with a fresh command key does not fail.\<close>

lemma record_decision_total:
  assumes none: "initial_for_event db e = None"
    and fresh: "\<not> list_ex (\<lambda>r. ae_controller_id r = in_controller_id data
            \<and> ae_event_id r = in_event_id data) (access_events db)"
    and uuid: "\<not> list_ex (\<lambda>r. bc_command_id r = env_command_uuid env) (commands db)"
    and e: "e \<in> ce_id ` set (camera_events db)"
  shows "\<exists>db' res. record_decision sha env db scope data n e ttl th = Inr (db', res)"
proof -
  obtain db1 en1 where s1: "settle_taxi db (engine_for db scope data n th) = (db1, en1)"
    by (cases "settle_taxi db (engine_for db scope data n th)")
  obtain en final deadline where s2:
    "settle_review env db1 (sc_barrier_id scope) (in_captured_at data) en1 = (en, final, deadline)"
    by (cases "settle_review env db1 (sc_barrier_id scope) (in_captured_at data) en1")
  have f1: "engine_shape en1" "decisions db1 = decisions db" "camera_events db1 = camera_events db"
    "access_events db1 = access_events db" "commands db1 = commands db"
    using settle_taxi_writes [OF s1 engine_for_shape] by simp_all
  have n1: "initial_for_event db1 e = None" using none f1(2) by (simp add: initial_for_event_def)
  have "\<exists>x. insert_initial sha env db1 e (en_decision en) final (en_reason en)
       (en_vehicle_id en) (en_pass_id en) deadline (in_source data) = Inr x"
    by (simp add: insert_initial_def n1)
  then obtain db2 d where s3: "insert_initial sha env db1 e (en_decision en) final (en_reason en)
       (en_vehicle_id en) (en_pass_id en) deadline (in_source data) = Inr (db2, d)"
    by (metis surj_pair)
  have e1: "e \<in> ce_id ` set (camera_events db1)" using e f1(3) by simp
  note f2 = insert_initial_writes [OF s3 e1 settle_review_shape(1) [OF s2 f1(1)]]
  obtain db3 where s4: "insert_access_event sha db2 data e d n = Inr db3"
    using fresh f2 f1(4) by (auto simp: insert_access_event_def)
  have u3: "\<not> list_ex (\<lambda>r. bc_command_id r = env_command_uuid env) (commands db3)"
    using uuid f2 f1(5) insert_access_event_tables(2) [OF s4] by simp
  have "\<exists>db4 cmd. issue_command env db3 data (sc_barrier_id scope) d ttl = Inr (db4, cmd)"
  proof (cases "sc_barrier_id scope")
    case (Some b)
    obtain db4 out where "create_open_command env db3 (in_controller_id data) b (Some (ad_id d)) ttl
        = Inr (db4, out)"
      using create_open_command_total [OF u3] by blast
    then show ?thesis by (simp add: issue_command_def Some)
  qed (simp add: issue_command_def)
  then obtain db4 cmd where s5: "issue_command env db3 data (sc_barrier_id scope) d ttl = Inr (db4, cmd)"
    by blast
  show ?thesis by (simp add: record_decision_def s1 s2 s3 s4 s5)
qed

lemma run_ingest_total:
  assumes inv: "access_inv sha db"
    and uuid: "\<not> list_ex (\<lambda>r. bc_command_id r = env_command_uuid env) (commands db)"
  shows "\<exists>db' res. run_ingest sha env window ttl th db raw = Inr (db', res)"
proof (cases "find_event_id db (in_controller_id raw) (in_event_id raw)
    = None \<and> find_window_duplicate db (scoped db raw) (plate_of raw) window = None")
  case False
  then show ?thesis
    by (auto simp: run_ingest_def Let_def scoped_def plate_of_def split: option.split)
next
  case True
  have key: "in_controller_id (scoped db raw) = in_controller_id raw"
    "in_event_id (scoped db raw) = in_event_id raw"
    by (simp_all add: scoped_def Let_def)
  obtain db1 i where ins: "insert_idempotent env db (scoped db raw) (plate_of raw) = (db1, i)"
    by (cases "insert_idempotent env db (scoped db raw) (plate_of raw)")
  then obtain e where i: "i = Some e"
    using True insert_idempotent_None [of env db "scoped db raw" "plate_of raw"]
    by (cases i) (auto simp: key)
  note w = insert_idempotent_writes [OF ins [unfolded i]]
  have links: "links_ok db" using inv by (simp add: access_inv_def)
  have none: "initial_for_event db1 e = None"
  proof -
    have "ad_camera_event_id d \<noteq> e" if "d \<in> set (decisions db)" for d
    proof -
      have "ad_camera_event_id d \<in> set (map ce_id (camera_events db))"
        using links that by (auto simp: links_ok_def)
      then show ?thesis using next_id_fresh [of "map ce_id (camera_events db)"] w(4) by auto
    qed
    then show ?thesis by (auto simp: initial_for_event_def first_row_None w(5))
  qed
  have fresh: "\<not> list_ex (\<lambda>r. ae_controller_id r = in_controller_id (scoped db raw)
      \<and> ae_event_id r = in_event_id (scoped db raw)) (access_events db1)"
  proof -
    have "ae_controller_id r \<noteq> in_controller_id raw \<or> ae_event_id r \<noteq> in_event_id raw"
      if r: "r \<in> set (access_events db)" for r
    proof -
      have "(ae_controller_id r, ae_event_id r)
          \<in> (\<lambda>r. (ce_controller_id r, ce_event_id r)) ` set (camera_events db)"
        using links r unfolding links_ok_def by blast
      then show ?thesis using True by (auto simp: find_event_id_def first_row_None)
    qed
    then show ?thesis by (auto simp: list_ex_iff w(6) key)
  qed
  have u1: "\<not> list_ex (\<lambda>r. bc_command_id r = env_command_uuid env) (commands db1)"
    using uuid w(7) by simp
  have "\<exists>db' res. record_decision sha env db1 (authorize_scope db raw) (scoped db raw) (plate_of raw)
      e ttl th = Inr (db', res)"
    by (rule record_decision_total [OF none fresh u1 w(2)])
  then show ?thesis
    using True ins i by (simp add: run_ingest_def Let_def scoped_def plate_of_def)
qed

end
