(* ===== verification/AccessExamples.thy ===== *)
theory AccessExamples
  imports AccessIngestFacts
begin

section \<open>A small installation\<close>

text \<open>
  One shared zone with a gate and a barrier, its controller, a resident's car, a blocked car, a
  single-entry taxi pass and a guest pass: the inputs on which the properties are applied.
\<close>

definition ex_sha :: "utext \<Rightarrow> string" where
  "ex_sha t = (if t \<noteq> [] \<and> hd t = 123 then ''a1'' else ''b2'')"

definition ex_adb :: access_db where
  "ex_adb =
     \<lparr>zones = [\<lparr>zn_id = 1, zn_parking_type = Shared, zn_max_permanent = None\<rparr>],
      zone_yards = [\<lparr>zy_zone_id = 1, zy_yard_id = 10\<rparr>],
      apartments = [\<lparr>ap_id = 100, ap_building_id = 20\<rparr>],
      buildings = [\<lparr>bl_id = 20, bl_yard_id = 10\<rparr>],
      vehicles = [\<lparr>ve_id = 1, ve_plate = utext_of ''A1'', ve_status = Vehicle_active\<rparr>,
                  \<lparr>ve_id = 2, ve_plate = utext_of ''B2'', ve_status = Vehicle_blocked\<rparr>],
      vehicle_apartments = [\<lparr>va_id = 1, va_vehicle_id = 1, va_apartment_id = 100,
                  va_status = Link_active, va_valid_from = None, va_valid_until = None\<rparr>],
      spots = [], spot_assignments = [], presence = [], rules = [],
      passes = [\<lparr>pa_id = 5, pa_apartment_id = 100, pa_pass_type = Taxi, pa_zone_id = Some 1,
                  pa_plate = Some (utext_of ''T3''), pa_valid_from = None,
                  pa_valid_until = Some 900000000, pa_max_entries = 1, pa_used_entries = 0,
                  pa_status = Pass_active, pa_code_hash = None, pa_created_at = 0\<rparr>,
                \<lparr>pa_id = 6, pa_apartment_id = 100, pa_pass_type = Guest, pa_zone_id = Some 1,
                  pa_plate = None, pa_valid_from = None,
                  pa_valid_until = Some 900000000, pa_max_entries = 1, pa_used_entries = 0,
                  pa_status = Pass_active, pa_code_hash = Some ''h:42'', pa_created_at = 0\<rparr>],
      controllers = [\<lparr>ec_id = 7, ec_zone_id = Some 1, ec_uid = ''gate-7'', ec_api_key_hash = ''6b'',
                  ec_ip_allowlist = JScalar JNull, ec_last_heartbeat_at = None,
                  ec_clock_offset_ms = None, ec_status = Controller_active, ec_is_active = True\<rparr>],
      gates = [\<lparr>ga_id = 3, ga_zone_id = 1, ga_controller_id = Some 7, ga_is_active = True\<rparr>],
      barriers = [\<lparr>ba_id = 9, ba_gate_id = 3, ba_controller_id = Some 7, ba_is_active = True\<rparr>],
      camera_events = [], decisions = [], access_events = [], commands = [],
      manual_openings = [], audit_logs = []\<rparr>"

definition ex_hmac :: "string \<Rightarrow> string" where
  "ex_hmac code = ''h:'' @ code"

definition ex_env :: "instant \<Rightarrow> nat \<Rightarrow> ambient" where
  "ex_env t n = \<lparr>env_now = t, env_tx_now = t, env_group_uuid = n, env_command_uuid = n\<rparr>"

definition ex_event :: "string \<Rightarrow> string \<Rightarrow> rat \<Rightarrow> instant \<Rightarrow> ingest_input" where
  "ex_event key plate conf t =
     \<lparr>in_controller_id = 7, in_event_id = key, in_zone_id = None, in_gate_id = None,
      in_camera_id = None, in_barrier_id = None, in_plate_original = Some (utext_of plate),
      in_direction = Entry, in_confidence = Some conf, in_captured_at = t,
      in_plate_photo = None, in_overview_photo = None, in_source = Connected\<rparr>"

lemma ex_adb_init: "acc_init ex_adb"
  by (simp add: acc_init_def ex_adb_def passes_ok_def pass_checks_def)

text \<open>
  The rows the runs below store.
\<close>

definition ex_ev1 :: camera_event where
  "ex_ev1 =
    \<lparr>ce_id = 1, ce_controller_id = 7, ce_event_id = ''e1'', ce_gate_id = Some 3,
      ce_zone_id = Some 1, ce_plate = Some (utext_of ''A1''), ce_direction = Entry, ce_confidence
      = Some (9 / 10), ce_captured_at = 500, ce_received_at = 1000, ce_source = Connected,
      ce_plate_photo = None, ce_overview_photo = None\<rparr>"

definition ex_ev2 :: camera_event where
  "ex_ev2 =
    \<lparr>ce_id = 2, ce_controller_id = 7, ce_event_id = ''e2'', ce_gate_id = Some 3,
      ce_zone_id = Some 1, ce_plate = Some (utext_of ''C4''), ce_direction = Entry, ce_confidence
      = Some (1 / 2), ce_captured_at = 1500, ce_received_at = 2000, ce_source = Connected,
      ce_plate_photo = None, ce_overview_photo = None\<rparr>"

definition ex_d1 :: access_decision where
  "ex_d1 =
    \<lparr>ad_id = 1, ad_camera_event_id = 1, ad_group_id = Some 1, ad_supersedes = None,
      ad_decision = Allow, ad_status = Allowed, ad_reason = Some Shared_access_allowed,
      ad_vehicle_id = Some 1, ad_pass_id = None, ad_review_deadline = None, ad_resolved_by =
      None, ad_resolved_at = None, ad_source = Connected, ad_prev_hash = None, ad_row_hash =
      Some ''a1''\<rparr>"

definition ex_d2 :: access_decision where
  "ex_d2 =
    \<lparr>ad_id = 2, ad_camera_event_id = 2, ad_group_id = Some 2, ad_supersedes = None,
      ad_decision = Manual_review, ad_status = Pending_review, ad_reason = Some Low_confidence,
      ad_vehicle_id = None, ad_pass_id = None, ad_review_deadline = Some 120002000,
      ad_resolved_by = None, ad_resolved_at = None, ad_source = Connected, ad_prev_hash = Some
      ''a1'', ad_row_hash = Some ''b2''\<rparr>"

definition ex_d3 :: access_decision where
  "ex_d3 =
    \<lparr>ad_id = 3, ad_camera_event_id = 2, ad_group_id = Some 2, ad_supersedes = Some 2,
      ad_decision = Allow, ad_status = Allowed_manually, ad_reason = Some Low_confidence,
      ad_vehicle_id = None, ad_pass_id = None, ad_review_deadline = None, ad_resolved_by = Some
      2, ad_resolved_at = Some 3000, ad_source = Connected, ad_prev_hash = Some ''b2'',
      ad_row_hash = Some ''b2''\<rparr>"

definition ex_pg1 :: access_event where
  "ex_pg1 =
    \<lparr>ae_controller_id = 7, ae_event_id = ''e1'', ae_camera_event_id = 1, ae_decision_id =
      1, ae_vehicle_id = Some 1, ae_pass_id = None, ae_apartment_id = Some 100, ae_gate_id =
      Some 3, ae_zone_id = Some 1, ae_direction = Entry, ae_plate = Some (utext_of ''A1''),
      ae_decision = Allow, ae_reason = Some Shared_access_allowed, ae_occurred_at = 500,
      ae_source = Connected, ae_prev_hash = None, ae_row_hash = Some ''a1''\<rparr>"

definition ex_pg2 :: access_event where
  "ex_pg2 =
    \<lparr>ae_controller_id = 7, ae_event_id = ''e2'', ae_camera_event_id = 2, ae_decision_id =
      2, ae_vehicle_id = None, ae_pass_id = None, ae_apartment_id = None, ae_gate_id = Some 3,
      ae_zone_id = Some 1, ae_direction = Entry, ae_plate = Some (utext_of ''C4''), ae_decision =
      Manual_review, ae_reason = Some Low_confidence, ae_occurred_at = 1500, ae_source =
      Connected, ae_prev_hash = Some ''a1'', ae_row_hash = Some ''b2''\<rparr>"

definition ex_c1 :: barrier_command where
  "ex_c1 =
    \<lparr>bc_command_id = 1, bc_decision_id = Some 1, bc_controller_id = 7, bc_barrier_id = 9,
      bc_status = Command_pending, bc_lease_token = None, bc_lease_expires_at = None,
      bc_leased_at = None, bc_attempts = 0, bc_expires_at = Some 120001000, bc_acked_at = None,
      bc_ack_result = None, bc_created_at = 1000\<rparr>"

definition ex_c2 :: barrier_command where
  "ex_c2 =
    \<lparr>bc_command_id = 3, bc_decision_id = Some 3, bc_controller_id = 7, bc_barrier_id = 9,
      bc_status = Command_pending, bc_lease_token = None, bc_lease_expires_at = None,
      bc_leased_at = None, bc_attempts = 0, bc_expires_at = Some 120003000, bc_acked_at = None,
      bc_ack_result = None, bc_created_at = 3000\<rparr>"

definition ex_s1 :: presence_session where
  "ex_s1 =
    \<lparr>ps_id = 1, ps_vehicle_id = 1, ps_apartment_id = Some 100, ps_zone_id = 1,
      ps_entered_at = 500, ps_exited_at = None, ps_status = Presence_open, ps_entry_event = Some
      1, ps_exit_event = None, ps_closed_by = None, ps_close_reason = None\<rparr>"

definition ex_m1 :: manual_opening where
  "ex_m1 =
    \<lparr>mo_id = 1, mo_barrier_id = 9, mo_command_id = 3, mo_decision_id = Some 3,
      mo_operator = 2, mo_reason = utext_of ''guest'', mo_captured_event = Some 2,
      mo_created_at = 3000, mo_prev_hash = None, mo_row_hash = Some ''a1''\<rparr>"

definition ex_a1 :: audit_entry where
  "ex_a1 =
    \<lparr>al_actor = Some 2, al_action = ''access.manual_open'', al_entity_type =
      ''access_decision'', al_entity_id = Some 3, al_barrier_id = Some 9, al_source =
      ''operator'', al_reason = Some (utext_of ''guest''), al_extra = [], al_ip_address = None,
      al_prev_hash = None, al_row_hash = Some ''a1''\<rparr>"

text \<open>
  The states: the resident's car has entered; a badly read plate waits for review; the operator
  has opened for it.
\<close>

definition ex_db1 :: access_db where
  "ex_db1 = ex_adb\<lparr>presence := [ex_s1], camera_events := [ex_ev1], decisions := [ex_d1],
     access_events := [ex_pg1], commands := [ex_c1]\<rparr>"

definition ex_db2 :: access_db where
  "ex_db2 = ex_db1\<lparr>camera_events := [ex_ev1, ex_ev2], decisions := [ex_d1, ex_d2],
     access_events := [ex_pg1, ex_pg2]\<rparr>"

definition ex_db2a :: access_db where
  "ex_db2a = ex_db2\<lparr>decisions := [ex_d1, ex_d2, ex_d3]\<rparr>"

definition ex_db2b :: access_db where
  "ex_db2b = ex_db2a\<lparr>commands := [ex_c1, ex_c2]\<rparr>"

definition ex_db2c :: access_db where
  "ex_db2c = ex_db2b\<lparr>manual_openings := [ex_m1]\<rparr>"

definition ex_db3 :: access_db where
  "ex_db3 = ex_db2c\<lparr>audit_logs := [ex_a1]\<rparr>"

definition ex_in1 :: ingest_input where
  "ex_in1 = ex_event ''e1'' ''a 1'' (9/10) 500"

definition ex_in2 :: ingest_input where
  "ex_in2 = ex_event ''e2'' ''c 4'' (1/2) 1500"

definition ex_res1 :: ingest_result where
  "ex_res1 =
    \<lparr>ir_decision = Allow, ir_status = Allowed, ir_reason = Some Shared_access_allowed,
      ir_decision_id = Some 1, ir_group_id = Some 1, ir_command = Some \<lparr>co_command_id =
      1, co_barrier_id = 9, co_expires_at = Some 120001000\<rparr>, ir_replayed =
      False\<rparr>"

definition ex_res2 :: ingest_result where
  "ex_res2 =
    \<lparr>ir_decision = Manual_review, ir_status = Pending_review, ir_reason = Some
      Low_confidence, ir_decision_id = Some 2, ir_group_id = Some 2, ir_command = None,
      ir_replayed = False\<rparr>"

definition ex_resolve :: resolve_args where
  "ex_resolve = \<lparr>ra_event_id = 2, ra_action = Manual_open, ra_operator = 2,
     ra_reason = Some (utext_of ''guest''), ra_barrier_id = Some 9, ra_decision_id = Some 2,
     ra_source = ''operator'', ra_ip = None\<rparr>"

definition ex_res3 :: resolve_result where
  "ex_res3 =
    \<lparr>rr_status = Allowed_manually, rr_decision_id = 3, rr_group_id = Some 2,
      rr_command_id = Some 3, rr_replayed = False\<rparr>"

lemma ex_run1: "ingest_anpr ex_sha (ex_env 1000 1) ex_adb ex_in1 = Inr (ex_db1, ex_res1)"
  by code_simp

lemma ex_run2: "ingest_anpr ex_sha (ex_env 2000 2) ex_db1 ex_in2 = Inr (ex_db2, ex_res2)"
  by code_simp

text \<open>The manual opening, one write after the other.\<close>

lemma ex_run3_writes:
  "insert_transition ex_sha ex_db2 ex_d2 Allowed_manually Allow (Some 2) 3000 = (ex_db2a, ex_d3)"
  "create_open_command (ex_env 3000 3) ex_db2a 7 9 (Some 3) manual_command_ttl_seconds
   = Inr (ex_db2b, command_out_of ex_c2)"
  "insert_manual_opening ex_sha (ex_env 3000 3) ex_db2b 9 3 (Some 3) 2 (utext_of ''guest'') (Some 2)
   = (ex_db2c, 1)"
  "insert_audit ex_sha ex_db2c (Some 2) ''access.manual_open'' ''access_decision'' (Some 3) (Some 9)
     ''operator'' (Some (utext_of ''guest'')) None [] = ex_db3"
  by code_simp+

lemma ex_run3_reads:
  "latest_for_event ex_db2 2 = Some ex_d2"
  "barrier_and_controller_for_event ex_db2 2 = (Some 9, Some 7)"
  "lock_key_for_event ex_db2 2 \<noteq> None"
  "overdue 3000 ex_d2 = False"
  "given_text (Some (utext_of ''guest''))"
  "ad_status ex_d2 = Pending_review" "ad_id ex_d2 = 2" "ad_id ex_d3 = 3"
  "ad_group_id ex_d2 = Some 2" "ad_status ex_d3 = Allowed_manually" "ad_group_id ex_d3 = Some 2"
  by code_simp+

lemma ex_run3: "resolve_event ex_sha (ex_env 3000 3) ex_db2 ex_resolve = Inr (ex_db3, ex_res3)"
  using ex_run3_writes ex_run3_reads
  by (simp add: resolve_event_def resolve_open_def ex_resolve_def Let_def lift_fault_def
      ex_env_def resolved_def ex_res3_def command_out_of_def ex_c2_def)

lemma ex_step1: "acc_step ex_sha ex_adb ex_db1"
  by (rule acc_ingest) (rule ex_run1)

lemma ex_step2: "acc_step ex_sha ex_db1 ex_db2"
  by (rule acc_ingest) (rule ex_run2)

lemma ex_step3: "acc_step ex_sha ex_db2 ex_db3"
  using acc_resolve [of ex_sha ex_db2 "ex_env 3000 3" ex_resolve]
  by (simp add: ex_run3 left_db_def)

lemma ex_reach1: "reach acc_init (acc_step ex_sha) ex_db1"
  using reach_step [of acc_init "acc_step ex_sha" ex_adb ex_db1] reach_init [of acc_init ex_adb]
    ex_adb_init ex_step1 by simp

lemma ex_reach2: "reach acc_init (acc_step ex_sha) ex_db2"
  using reach_step [of acc_init "acc_step ex_sha" ex_db1 ex_db2] ex_reach1 ex_step2 by simp

lemma ex_reach3: "reach acc_init (acc_step ex_sha) ex_db3"
  using reach_step [of acc_init "acc_step ex_sha" ex_db2 ex_db3] ex_reach2 ex_step3 by simp

lemma ex_reach0: "reach acc_init (acc_step ex_sha) ex_adb"
  by (simp add: reach_init ex_adb_init)

lemmas ex_reach = ex_reach0 ex_reach1 ex_reach2 ex_reach3

lemma ex_run12: "(acc_step ex_sha)\<^sup>*\<^sup>* ex_db1 ex_db2"
  by (rule r_into_rtranclp) (rule ex_step2)

text \<open>A taxi enters with its single-entry pass.\<close>

definition ex_in_taxi :: ingest_input where
  "ex_in_taxi = ex_event ''t1'' ''t 3'' (9/10) 500"

definition ex_db_taxi :: access_db where
  "ex_db_taxi = ex_adb
     \<lparr>passes := [consumed (hd (passes ex_adb)), last (passes ex_adb)],
      camera_events := [ex_ev1\<lparr>ce_event_id := ''t1'', ce_plate := Some (utext_of ''T3'')\<rparr>],
      decisions := [ex_d1\<lparr>ad_reason := Some Temporary_pass_allowed, ad_vehicle_id := None,
        ad_pass_id := Some 5\<rparr>],
      access_events := [ex_pg1\<lparr>ae_event_id := ''t1'', ae_vehicle_id := None, ae_pass_id := Some 5,
        ae_apartment_id := None, ae_plate := Some (utext_of ''T3''),
        ae_reason := Some Temporary_pass_allowed\<rparr>],
      commands := [ex_c1]\<rparr>"

definition ex_res_taxi :: ingest_result where
  "ex_res_taxi = ex_res1\<lparr>ir_reason := Some Temporary_pass_allowed\<rparr>"

lemma ex_run_taxi: "ingest_anpr ex_sha (ex_env 1000 1) ex_adb ex_in_taxi = Inr (ex_db_taxi, ex_res_taxi)"
  by code_simp

lemma ex_step_taxi: "acc_step ex_sha ex_adb ex_db_taxi"
  by (rule acc_ingest) (rule ex_run_taxi)

lemma ex_reach_taxi: "reach acc_init (acc_step ex_sha) ex_db_taxi"
  using reach_step [of acc_init "acc_step ex_sha" ex_adb ex_db_taxi] ex_reach0 ex_step_taxi by simp

end
