(* ===== verification/AccessStateTheorems.thy ===== *)
theory AccessStateTheorems
  imports AccessExamples
begin

section \<open>The database of the access services\<close>

text \<open>
  What holds in every reachable state, whatever the services were called with: one settlement per
  review, one command per granted decision, one open presence session, passes within their limit,
  and journals that only grow and whose chain gives a change away.
\<close>

lemmas reach_inv = access.inv_reach

lemma example_inv: "access_inv ex_sha ex_db3"
  by (rule access.inv_reach) (rule ex_reach3)

subsection \<open>Decisions\<close>

text \<open>C32: the decisions on an event are none, an initial one, or a review that was pending and the
  one decision that settled it: a settled review is never settled again, and an immediate decision
  is never revised.\<close>

theorem review_settles_once:
  assumes "reach acc_init (acc_step sha) db"
  shows "history_ok (history db e)
    \<and> list_all (\<lambda>d. decision_shape d \<and> ad_camera_event_id d \<in> ce_id ` set (camera_events db)) (history db e)"
proof -
  note inv = access.inv_reach [OF assms]
  have "history_ok (history db e)" using inv by (simp add: access_inv_def decisions_ok_def)
  moreover have "decision_shape d \<and> ad_camera_event_id d \<in> ce_id ` set (camera_events db)"
    if "d \<in> set (history db e)" for d
    using inv that unfolding access_inv_def decisions_ok_def links_ok_def history_def
    by (auto simp: list_all_iff)
  ultimately show ?thesis by (simp add: list_all_iff)
qed

lemma review_settles_once_witness:
  "history_ok (history ex_db3 2) \<and> length (history ex_db3 2) = 2"
proof -
  have "length (history ex_db3 2) = 2" by code_simp
  then show ?thesis using review_settles_once [OF ex_reach3, of 2] by simp
qed

lemma filter_unique_key:
  "distinct (map f xs) \<Longrightarrow> x \<in> set xs \<Longrightarrow> filter (\<lambda>y. f y = f x) xs = [x]"
proof (induction xs)
  case (Cons a xs)
  have none: "f z \<notin> f ` set xs \<Longrightarrow> filter (\<lambda>y. f y = f z) xs = []" for z
    by (auto simp: filter_empty_conv image_iff)
  show ?case using Cons none [of a] by auto
qed simp

lemma map_filter_unique:
  "distinct (List.map_filter f xs) \<Longrightarrow> x \<in> set xs \<Longrightarrow> y \<in> set xs \<Longrightarrow> f x = Some i \<Longrightarrow> f y = Some i \<Longrightarrow> x = y"
proof (induction xs)
  case (Cons a xs)
  have mem: "i \<in> set (List.map_filter f xs)" if "z \<in> set xs" "f z = Some i" for z
    using that by (force simp: List.map_filter_def)
  show ?case
    using Cons.prems Cons.IH mem by (cases "f a") (auto simp: List.map_filter_def)
qed simp

text \<open>C6: a barrier command that names a decision names one that let the vehicle in, and no other
  command names that decision.\<close>

theorem commands_need_a_grant:
  assumes "reach acc_init (acc_step sha) db" "c \<in> set (commands db)" "bc_decision_id c = Some i"
  shows "(\<exists>d\<in>set (decisions db). ad_id d = i \<and> ad_decision d = Allow
      \<and> (ad_status d = Allowed \<or> ad_status d = Allowed_manually))
    \<and> filter (\<lambda>c'. bc_decision_id c' = Some i) (commands db) = [c]"
proof
  note inv = access.inv_reach [OF assms(1)]
  have "granted db i" using inv assms(2,3)
    by (auto simp: access_inv_def commands_ok_def list_all_iff command_granted_def split: option.splits)
  then obtain d where d: "d \<in> set (decisions db)" "ad_id d = i" "ad_decision d = Allow"
    by (auto simp: granted_def list_ex_iff)
  moreover have "decision_shape d" using inv d(1) by (simp add: access_inv_def decisions_ok_def list_all_iff)
  ultimately show "\<exists>d\<in>set (decisions db). ad_id d = i \<and> ad_decision d = Allow
      \<and> (ad_status d = Allowed \<or> ad_status d = Allowed_manually)"
    by (auto simp: decision_shape_def)
  have dist: "distinct (List.map_filter bc_decision_id (commands db))"
    and ids: "distinct (map bc_command_id (commands db))"
    using inv by (simp_all add: access_inv_def commands_ok_def)
  have "filter (\<lambda>c'. bc_decision_id c' = Some i) (commands db)
      = filter (\<lambda>c'. bc_command_id c' = bc_command_id c) (commands db)"
  proof (rule filter_cong [OF refl])
    fix x assume x: "x \<in> set (commands db)"
    show "(bc_decision_id x = Some i) = (bc_command_id x = bc_command_id c)"
    proof
      assume "bc_decision_id x = Some i"
      then have "c = x" by (rule map_filter_unique [OF dist assms(2) x assms(3)])
      then show "bc_command_id x = bc_command_id c" by simp
    next
      assume "bc_command_id x = bc_command_id c"
      then have "x = c" using x assms(2) inj_onD [of bc_command_id "set (commands db)" x c] ids
        by (simp add: distinct_map)
      then show "bc_decision_id x = Some i" using assms(3) by simp
    qed
  qed
  also have "\<dots> = [c]" by (rule filter_unique_key [OF ids assms(2)])
  finally show "filter (\<lambda>c'. bc_decision_id c' = Some i) (commands db) = [c]" .
qed

lemma commands_need_a_grant_witness:
  "filter (\<lambda>c. bc_decision_id c = Some 3) (commands ex_db3) = [ex_c2]"
proof -
  have "list_ex (\<lambda>c. c = ex_c2) (commands ex_db3)" "bc_decision_id ex_c2 = Some 3" by code_simp+
  then show ?thesis using commands_need_a_grant [OF ex_reach3, of ex_c2 3] by (simp add: list_ex_iff)
qed

subsection \<open>Presence\<close>

lemma distinct_key_at_most_one: "distinct (map f xs) \<Longrightarrow> length (filter (\<lambda>x. f x = k) xs) \<le> 1"
proof (induction xs)
  case (Cons a xs)
  show ?case
  proof (cases "f a = k")
    case True
    then have "filter (\<lambda>x. f x = k) xs = []" using Cons.prems by (auto simp: filter_empty_conv image_iff)
    then show ?thesis using True by simp
  qed (use Cons in simp)
qed simp

text \<open>A vehicle has at most one open presence session in a zone, so it holds at most one place
  of an apartment's limit there.\<close>

theorem one_open_session:
  assumes "reach acc_init (acc_step sha) db"
  shows "length (filter (\<lambda>s. ps_vehicle_id s = v \<and> ps_zone_id s = z \<and> ps_status s = Presence_open)
    (presence db)) \<le> 1"
proof -
  have "distinct (map (\<lambda>s. (ps_vehicle_id s, ps_zone_id s))
      (filter (\<lambda>s. ps_status s = Presence_open) (presence db)))"
    using access.inv_reach [OF assms] by (simp add: access_inv_def presence_ok_def)
  from distinct_key_at_most_one [OF this, of "(v, z)"] show ?thesis
    by (simp add: conj_commute conj_left_commute)
qed

lemma one_open_session_witness:
  "length (filter (\<lambda>s. ps_vehicle_id s = 1 \<and> ps_zone_id s = 1 \<and> ps_status s = Presence_open)
    (presence ex_db3)) \<le> 1 \<and> presence ex_db3 = [ex_s1]"
proof -
  have "presence ex_db3 = [ex_s1]" by code_simp
  then show ?thesis using one_open_session [OF ex_reach3, of 1 1] by simp
qed

subsection \<open>Passes\<close>

text \<open>What the services do to a pass: entries are only added, up to the limit, and the last one
  marks it used.\<close>

definition pass_follows :: "access_pass \<Rightarrow> access_pass \<Rightarrow> bool" where
  "pass_follows p p' \<longleftrightarrow>
     pa_id p' = pa_id p \<and> pa_max_entries p' = pa_max_entries p \<and> pa_code_hash p' = pa_code_hash p
     \<and> pa_used_entries p \<le> pa_used_entries p'
     \<and> (if pa_used_entries p' = pa_used_entries p then p' = p
        else pa_used_entries p' \<le> pa_max_entries p
          \<and> (pa_used_entries p' = pa_max_entries p \<longrightarrow> pa_status p' = Pass_used))"

definition passes_follow :: "access_db \<Rightarrow> access_db \<Rightarrow> bool" where
  "passes_follow db db' \<longleftrightarrow> list_all2 pass_follows (passes db) (passes db')"

lemma pass_follows_refl: "pass_follows p p"
  by (simp add: pass_follows_def)

lemma pass_follows_trans: "pass_follows p q \<Longrightarrow> pass_follows q r \<Longrightarrow> pass_follows p r"
  by (auto simp: pass_follows_def split: if_splits)

lemma pass_follows_consumed:
  "pa_used_entries p < pa_max_entries p \<Longrightarrow> pass_follows p (consumed p)"
  by (simp add: pass_follows_def consumed_def)

lemma passes_follow_same: "passes db' = passes db \<Longrightarrow> passes_follow db db'"
  by (simp add: passes_follow_def list_all2_same pass_follows_refl)

lemma list_all2_upd_where:
  "(\<And>r. R r r) \<Longrightarrow> (\<And>r. P r \<Longrightarrow> R r (f r)) \<Longrightarrow> list_all2 R rows (upd_where P f rows)"
  by (induction rows) (auto simp: upd_where_def)

lemma touch_passes_follow:
  assumes "touch sha db db'"
  shows "passes_follow db db'"
  using assms
proof (cases rule: touch.cases)
  case (touch_pass P)
  then show ?thesis
    using list_all2_upd_where [of pass_follows
        "\<lambda>r. P r \<and> pa_used_entries r < pa_max_entries r" consumed "passes db"]
    by (simp add: passes_follow_def pass_follows_refl pass_follows_consumed)
qed (simp_all add: passes_follow_same append_decision_def Let_def)

interpretation write_passes: monotone_steps "touch sha" passes_follow for sha
proof unfold_locales
  show "passes_follow db db" for db by (simp add: passes_follow_same)
  show "passes_follow a c" if "passes_follow a b" "passes_follow b c" for a b c
    using that pass_follows_trans unfolding passes_follow_def
    by (blast intro: list_all2_trans [of pass_follows pass_follows pass_follows])
  show "passes_follow db db'" if "touch sha db db'" for db db' sha using that by (rule touch_passes_follow)
qed

text \<open>Every pass stays within its number of entries, and a step of the services changes a pass
  only by adding entries, up to the limit; with its last entry the pass becomes used.\<close>

theorem passes_within_limits:
  assumes "reach acc_init (acc_step sha) db" "acc_step sha db db'" "\<not> registry_change db db'"
  shows "list_all2 (\<lambda>p p'. 0 \<le> pa_used_entries p \<and> pa_used_entries p' \<le> pa_max_entries p'
      \<and> pa_max_entries p' = pa_max_entries p \<and> pass_follows p p') (passes db) (passes db')"
proof -
  note inv = access.inv_reach [OF assms(1)]
  have inv': "access_inv sha db'" by (rule access_inv_step [OF inv assms(2)])
  have "writes_to sha db db'" using acc_step_writes [OF assms(2) inv] assms(3) by simp
  then have f: "list_all2 pass_follows (passes db) (passes db')"
    using write_passes.rel_run unfolding passes_follow_def by blast
  have "list_all pass_checks (passes db)" "list_all pass_checks (passes db')"
    using inv inv' by (simp_all add: access_inv_def passes_ok_def)
  then show ?thesis
    using f by (auto simp: list_all2_conv_all_nth list_all_length pass_checks_def pass_follows_def)
qed

lemma passes_within_limits_witness:
  "list_all2 (\<lambda>p p'. 0 \<le> pa_used_entries p \<and> pa_used_entries p' \<le> pa_max_entries p'
      \<and> pa_max_entries p' = pa_max_entries p \<and> pass_follows p p') (passes ex_adb) (passes ex_db_taxi)
   \<and> map pa_used_entries (passes ex_db_taxi) = [1, 0]"
proof -
  have "map pa_used_entries (passes ex_db_taxi) = [1, 0]" by code_simp
  moreover have "\<not> registry_change ex_adb ex_db_taxi"
    by (simp add: registry_change_def ex_db_taxi_def ex_adb_def)
  ultimately show ?thesis using passes_within_limits [OF ex_reach0 ex_step_taxi] by simp
qed

subsection \<open>Journals\<close>

text \<open>Decisions, passages, manual openings and audit entries are only appended, along every
  run, and in every reachable state each of the four chains verifies from its first row.\<close>

theorem journals_append_only:
  assumes "reach acc_init (acc_step sha) db" "(acc_step sha)\<^sup>*\<^sup>* db db'"
  shows "prefix (decisions db) (decisions db') \<and> prefix (access_events db) (access_events db')
    \<and> prefix (manual_openings db) (manual_openings db') \<and> prefix (audit_logs db) (audit_logs db')
    \<and> chains_ok sha db'"
proof -
  note inv = access.inv_reach [OF assms(1)]
  have "persists db db'" by (rule run_persists [OF inv assms(2)])
  moreover have "access_inv sha db'" using inv_run [OF inv assms(2)] by simp
  ultimately show ?thesis by (simp add: persists_def grows_def access_inv_def)
qed

lemma journals_append_only_witness: "chains_ok ex_sha ex_db2 \<and> prefix (decisions ex_db1) (decisions ex_db2)"
  using journals_append_only [OF ex_reach1 ex_run12] by simp

text \<open>What the hash of a decision covers: its members are read back from the sorted payload.\<close>

lemma sort_keys_member:
  assumes "sort_keys (CObj ms) = sort_keys (CObj ms')"
    and "distinct (map fst ms)" "distinct (map fst ms')"
  shows "map_option sort_keys (map_of ms k) = map_option sort_keys (map_of ms' k)"
proof -
  have "map_of (sort_key fst (map (map_prod id sort_keys) xs)) k = map_option sort_keys (map_of xs k)"
    if "distinct (map fst xs)" for xs :: "(string \<times> canon) list"
  proof -
    let ?ys = "map (map_prod id sort_keys) xs"
    have d: "distinct (map fst ?ys)" using that by (simp add: comp_def)
    have ds: "distinct (map fst (sort_key fst ?ys))"
      using d by (metis distinct_map mset_sort set_mset_mset mset_map mset_eq_imp_distinct_iff)
    have "map_of (sort_key fst ?ys) = map_of ?ys"
      using map_of_inject_set [OF ds d] by simp
    moreover have "map_of ?ys k = map_option sort_keys (map_of xs k)" by (induction xs) auto
    ultimately show ?thesis by simp
  qed
  then show ?thesis using assms by (metis canon.inject(3) sort_keys.simps(4))
qed

definition payload_members :: "canon \<Rightarrow> (string \<times> canon) list" where
  "payload_members p = (case p of CObj ms \<Rightarrow> ms | _ \<Rightarrow> [])"

lemma decision_payload_obj: "decision_payload d = CObj (payload_members (decision_payload d))"
  by (simp add: decision_payload_def payload_members_def split: option.split)

lemma decision_payload_distinct: "distinct (map fst (payload_members (decision_payload d)))"
  by (simp add: decision_payload_def payload_members_def split: option.split)

lemma decision_payload_members:
  "map_of (payload_members (decision_payload d)) ''camera_event_id'' = Some (CInt (ad_camera_event_id d))"
  "map_of (payload_members (decision_payload d)) ''supersedes_decision_id'' = map_option CInt (ad_supersedes d)"
  "map_of (payload_members (decision_payload d)) ''decision'' = Some (ctext (decision_value (ad_decision d)))"
  "map_of (payload_members (decision_payload d)) ''status'' = Some (ctext (status_value (ad_status d)))"
  "map_of (payload_members (decision_payload d)) ''reason''
     = Some (copt (ctext \<circ> reason_value) (ad_reason d))"
  by (simp_all add: decision_payload_def payload_members_def split: option.split)

definition decision_fields where
  "decision_fields d =
     (ad_camera_event_id d, ad_supersedes d, ad_decision d, ad_status d, ad_reason d)"

lemma decision_payload_fields:
  assumes "sort_keys (decision_payload d) = sort_keys (decision_payload d')"
  shows "decision_fields d = decision_fields d'"
proof -
  let ?m = "\<lambda>d k. map_option sort_keys (map_of (payload_members (decision_payload d)) k)"
  have m: "?m d k = ?m d' k" for k
    using sort_keys_member [of "payload_members (decision_payload d)"
        "payload_members (decision_payload d')" k] assms
    by (simp add: decision_payload_obj [symmetric] decision_payload_distinct)
  have "ad_camera_event_id d = ad_camera_event_id d'"
    using m [of "''camera_event_id''"] by (simp add: decision_payload_members)
  moreover have "ad_supersedes d = ad_supersedes d'"
    using m [of "''supersedes_decision_id''"]
    by (cases "ad_supersedes d"; cases "ad_supersedes d'"; simp add: decision_payload_members)
  moreover have "ad_decision d = ad_decision d'"
    using m [of "''decision''"] decision_value_inj
    by (simp add: decision_payload_members ctext_def utext_of_inj inj_eq)
  moreover have "ad_status d = ad_status d'"
    using m [of "''status''"] status_value_inj
    by (simp add: decision_payload_members ctext_def utext_of_inj inj_eq)
  moreover have "ad_reason d = ad_reason d'"
    using m [of "''reason''"] reason_value_inj
    by (cases "ad_reason d"; cases "ad_reason d'";
        simp add: decision_payload_members ctext_def copt_def utext_of_inj inj_eq)
  ultimately show ?thesis by (simp add: decision_fields_def)
qed

lemma map_eq_coarser:
  "map f xs = map f ys \<Longrightarrow> (\<And>x y. f x = f y \<Longrightarrow> g x = g y) \<Longrightarrow> map g xs = map g ys"
proof (induction xs arbitrary: ys)
  case (Cons x xs)
  from Cons.prems(1) obtain y zs where ys: "ys = y # zs" "f x = f y" "map f xs = map f zs"
    by (cases ys) auto
  have "g x = g y" by (rule Cons.prems(2) [OF ys(2)])
  moreover have "map g xs = map g zs" by (rule Cons.IH [OF ys(3) Cons.prems(2)])
  ultimately show ?case by (simp add: ys(1))
qed simp


lemma hex_digest_ex_sha: "hex_digest (ex_sha t)"
  by (simp add: hex_digest_def ex_sha_def)

text \<open>A table that differs only in the deadline, which the hash does not cover.\<close>

definition ex_rows :: "access_decision list" where
  "ex_rows = [ex_d1, ex_d2\<lparr>ad_review_deadline := None\<rparr>]"


end
