(* ===== verification/CodeLockout.thy ===== *)
theory CodeLockout
  imports GuestCodes
begin

section \<open>Lockout after failed codes\<close>

text \<open>
  The two failure counters, the in-memory sliding window and the Redis fixed window, behind one
  interface: a counter notes failures since an instant, and what was noted is still counted until
  the window from that instant is over.  \<open>noted t n st k\<close> reads: since \<open>t\<close> at least \<open>n\<close> failures of
  the key \<open>k\<close> are in \<open>st\<close>.
\<close>

definition within_failure_window :: "instant \<Rightarrow> instant \<Rightarrow> bool" where
  "within_failure_window start now \<longleftrightarrow> start \<le> now \<and> now < start + seconds failure_window_seconds"

locale failure_counter =
  fixes record_one :: "instant \<Rightarrow> 's \<Rightarrow> string \<Rightarrow> int \<Rightarrow> 's \<times> nat"
    and count_one :: "instant \<Rightarrow> 's \<Rightarrow> string \<Rightarrow> int \<Rightarrow> 's \<times> nat"
    and noted :: "instant \<Rightarrow> nat \<Rightarrow> 's \<Rightarrow> string \<Rightarrow> bool"
  assumes noted_less: "noted start n st k \<Longrightarrow> m \<le> n \<Longrightarrow> noted start m st k"
    and record_same: "noted start n st k \<Longrightarrow> within_failure_window start now \<Longrightarrow>
      noted start (Suc n) (fst (record_one now st k failure_window_seconds)) k
      \<and> Suc n \<le> snd (record_one now st k failure_window_seconds)"
    and record_other: "noted start n st k \<Longrightarrow> within_failure_window start now \<Longrightarrow> j \<noteq> k \<Longrightarrow>
      noted start n (fst (record_one now st j failure_window_seconds)) k"
    and count_keeps: "noted start n st k \<Longrightarrow> within_failure_window start now \<Longrightarrow>
      noted start n (fst (count_one now st j failure_window_seconds)) k"
    and count_sees: "noted start n st k \<Longrightarrow> within_failure_window start now \<Longrightarrow>
      n \<le> snd (count_one now st k failure_window_seconds)"
begin

lemma record_any:
  assumes "noted start n st k" "within_failure_window start now"
  shows "noted start n (fst (record_one now st j failure_window_seconds)) k"
  using record_same [OF assms] record_other [OF assms, of j] noted_less [of start "Suc n" _ k n]
  by (cases "j = k") auto

lemma record_failures_keeps:
  "noted start n st k \<Longrightarrow> within_failure_window start now \<Longrightarrow>
   noted start n (fst (record_failures (record_one now) st ks)) k"
proof (induction ks arbitrary: st)
  case (Cons j ks)
  show ?case
    using Cons.IH [OF record_any [OF Cons.prems, of j] Cons.prems(2)]
    by (simp add: case_prod_beta)
qed simp

lemma record_failures_counts:
  "noted start n st k \<Longrightarrow> within_failure_window start now \<Longrightarrow> k \<in> set ks \<Longrightarrow>
   noted start (Suc n) (fst (record_failures (record_one now) st ks)) k"
proof (induction ks arbitrary: st)
  case (Cons j ks)
  show ?case
  proof (cases "j = k")
    case True
    have "noted start (Suc n) (fst (record_one now st j failure_window_seconds)) k"
      using record_same [OF Cons.prems(1,2)] True by simp
    from record_failures_keeps [OF this Cons.prems(2), of ks] show ?thesis by (simp add: case_prod_beta)
  next
    case False
    then have "k \<in> set ks" using Cons.prems(3) by simp
    from Cons.IH [OF record_any [OF Cons.prems(1,2), of j] Cons.prems(2) this]
    show ?thesis by (simp add: case_prod_beta)
  qed
qed simp

text \<open>A key with as many noted failures as the threshold blocks every attempt that carries it.\<close>

lemma is_blocked_noted:
  "noted start failure_threshold st k \<Longrightarrow> within_failure_window start now \<Longrightarrow> k \<in> set ks \<Longrightarrow>
   snd (is_blocked (count_one now) st ks)"
proof (induction ks arbitrary: st)
  case (Cons j ks)
  show ?case
  proof (cases "j = k")
    case True
    then show ?thesis using count_sees [OF Cons.prems(1,2)] by (simp add: case_prod_beta)
  next
    case False
    then have "k \<in> set ks" using Cons.prems(3) by simp
    from Cons.IH [OF count_keeps [OF Cons.prems(1,2), of j] Cons.prems(2) this]
    show ?thesis by (simp add: case_prod_beta)
  qed
qed simp

text \<open>Failed attempts, each with its instant and its keys.\<close>

lemma attempts_noted:
  assumes "noted start n st k"
    and "list_all (\<lambda>(now, ks). within_failure_window start now \<and> k \<in> set ks) attempts"
  shows "noted start (n + length attempts)
    (foldl (\<lambda>st (now, ks). fst (record_failures (record_one now) st ks)) st attempts) k"
  using assms
proof (induction attempts arbitrary: st n)
  case (Cons a attempts)
  obtain now ks where a: "a = (now, ks)" by (cases a)
  have "noted start (Suc n) (fst (record_failures (record_one now) st ks)) k"
    using record_failures_counts [OF Cons.prems(1)] Cons.prems(2) a by simp
  from Cons.IH [OF this] Cons.prems(2) show ?case by (simp add: a)
qed simp

lemma attempts_block:
  assumes "noted start 0 st k" "failure_threshold \<le> length attempts"
    and "list_all (\<lambda>(now, ks). within_failure_window start now \<and> k \<in> set ks) attempts"
    and "within_failure_window start now" "k \<in> set ks"
  shows "snd (is_blocked (count_one now)
    (foldl (\<lambda>st (now, ks). fst (record_failures (record_one now) st ks)) st attempts) ks)"
  by (rule is_blocked_noted [OF noted_less [OF attempts_noted [OF assms(1,3)]] assms(4,5)])
    (use assms(2) in simp)

end

text \<open>The sliding window: the stored instants from the start on.\<close>

definition memory_noted :: "instant \<Rightarrow> nat \<Rightarrow> failure_store \<Rightarrow> string \<Rightarrow> bool" where
  "memory_noted start n st k \<longleftrightarrow> n \<le> length (filter (\<lambda>t. start \<le> t) (st k))"

lemma prune_keeps:
  "within_failure_window start now \<Longrightarrow>
   filter (\<lambda>t. start \<le> t) (prune now failure_window_seconds ts) = filter (\<lambda>t. start \<le> t) ts"
  unfolding prune_def filter_filter
  by (rule filter_cong) (auto simp: within_failure_window_def)

interpretation sliding: failure_counter record_failure failure_count memory_noted
proof unfold_locales
  show "memory_noted start m st k" if "memory_noted start n st k" "m \<le> n" for start n st k m
    using that by (simp add: memory_noted_def)
  show "memory_noted start (Suc n) (fst (record_failure now st k failure_window_seconds)) k
      \<and> Suc n \<le> snd (record_failure now st k failure_window_seconds)"
    if n: "memory_noted start n st k" and w: "within_failure_window start now" for start n st k now
  proof -
    have "length (filter (\<lambda>t. start \<le> t) (prune now failure_window_seconds (st k)))
        \<le> length (prune now failure_window_seconds (st k))" by (rule length_filter_le)
    then show ?thesis using n w prune_keeps [OF w, of "st k"]
      by (simp add: record_failure_def memory_noted_def Let_def within_failure_window_def)
  qed
  show "memory_noted start n (fst (record_failure now st j failure_window_seconds)) k"
    if "memory_noted start n st k" "within_failure_window start now" "j \<noteq> k" for start n st k now j
    using that by (simp add: record_failure_def memory_noted_def Let_def)
  show "memory_noted start n (fst (failure_count now st j failure_window_seconds)) k"
    if "memory_noted start n st k" "within_failure_window start now" for start n st k now j
    using that prune_keeps [OF that(2), of "st j"]
    by (cases "j = k") (simp_all add: failure_count_def memory_noted_def Let_def)
  show "n \<le> snd (failure_count now st k failure_window_seconds)"
    if n: "memory_noted start n st k" and w: "within_failure_window start now" for start n st k now
  proof -
    have "length (filter (\<lambda>t. start \<le> t) (prune now failure_window_seconds (st k)))
        \<le> length (prune now failure_window_seconds (st k))" by (rule length_filter_le)
    then show ?thesis using n prune_keeps [OF w, of "st k"]
      by (simp add: failure_count_def memory_noted_def Let_def)
  qed
qed

text \<open>The fixed window: a count whose window ends no earlier than the one from the start; nothing is
  noted yet of a key whose last window is over.\<close>

definition redis_noted :: "instant \<Rightarrow> nat \<Rightarrow> redis_store \<Rightarrow> string \<Rightarrow> bool" where
  "redis_noted start n st k \<longleftrightarrow>
     (case st k of
        None \<Rightarrow> n = 0
      | Some (m, e) \<Rightarrow>
          (n \<le> m \<and> start + seconds failure_window_seconds \<le> e) \<or> (n = 0 \<and> e \<le> start))"

lemma redis_record_other:
  "j \<noteq> k \<Longrightarrow> fst (redis_record_failure now st j w) k = st k"
  by (simp add: redis_record_failure_def split: option.split)

interpretation fixed: failure_counter redis_record_failure redis_failure_count redis_noted
proof unfold_locales
  show "redis_noted start m st k" if "redis_noted start n st k" "m \<le> n" for start n st k m
    using that by (auto simp: redis_noted_def split: option.splits)
  show "redis_noted start (Suc n) (fst (redis_record_failure now st k failure_window_seconds)) k
      \<and> Suc n \<le> snd (redis_record_failure now st k failure_window_seconds)"
    if "redis_noted start n st k" "within_failure_window start now" for start n st k now
    using that
    by (auto simp: redis_noted_def redis_record_failure_def redis_live_def within_failure_window_def
        split: option.splits)
  show "redis_noted start n (fst (redis_record_failure now st j failure_window_seconds)) k"
    if "redis_noted start n st k" "within_failure_window start now" "j \<noteq> k" for start n st k now j
    using that by (simp add: redis_noted_def redis_record_other)
  show "redis_noted start n (fst (redis_failure_count now st j failure_window_seconds)) k"
    if "redis_noted start n st k" "within_failure_window start now" for start n st k now j
    using that by (simp add: redis_failure_count_def split: option.split)
  show "n \<le> snd (redis_failure_count now st k failure_window_seconds)"
    if "redis_noted start n st k" "within_failure_window start now" for start n st k now
    using that
    by (auto simp: redis_noted_def redis_failure_count_def redis_live_def within_failure_window_def
        split: option.splits)
qed

text \<open>Five failed attempts that share a key (the account, the address or the code), within one
  window of ten minutes and whatever their other keys, block every further attempt with that key
  until the window from the first instant is over: in the memory store always, in the Redis store
  when the key had no running window at that instant.\<close>

theorem lockout_after_five_failures:
  assumes "5 \<le> length attempts"
    and "list_all (\<lambda>(t, ks). within_failure_window start t \<and> k \<in> set ks) attempts"
    and "within_failure_window start now" "k \<in> set (rate_limit_keys operator ip hash)"
  shows "snd (is_blocked (failure_count now)
      (foldl (\<lambda>st (t, ks). fst (record_failures (record_failure t) st ks)) mem attempts)
      (rate_limit_keys operator ip hash))
    \<and> (redis_live start red k = None \<longrightarrow>
        snd (is_blocked (redis_failure_count now)
          (foldl (\<lambda>st (t, ks). fst (record_failures (redis_record_failure t) st ks)) red attempts)
          (rate_limit_keys operator ip hash)))"
proof
  have l: "failure_threshold \<le> length attempts" using assms(1) by (simp add: failure_threshold_def)
  have m: "memory_noted start 0 mem k" by (simp add: memory_noted_def)
  show "snd (is_blocked (failure_count now)
      (foldl (\<lambda>st (t, ks). fst (record_failures (record_failure t) st ks)) mem attempts)
      (rate_limit_keys operator ip hash))"
    by (rule sliding.attempts_block [OF m l assms(2-4)])
  show "redis_live start red k = None \<longrightarrow>
        snd (is_blocked (redis_failure_count now)
          (foldl (\<lambda>st (t, ks). fst (record_failures (redis_record_failure t) st ks)) red attempts)
          (rate_limit_keys operator ip hash))"
  proof
    assume "redis_live start red k = None"
    then have "redis_noted start 0 red k"
      by (auto simp: redis_noted_def redis_live_def split: option.splits if_splits)
    then show "snd (is_blocked (redis_failure_count now)
          (foldl (\<lambda>st (t, ks). fst (record_failures (redis_record_failure t) st ks)) red attempts)
          (rate_limit_keys operator ip hash))"
      by (rule fixed.attempts_block [OF _ l assms(2-4)])
  qed
qed

text \<open>Five codes tried from one address.\<close>

lemma lockout_after_five_failures_witness:
  "snd (is_blocked (failure_count 500)
      (foldl (\<lambda>st (t, ks). fst (record_failures (record_failure t) st ks)) (\<lambda>_. [])
        (map (\<lambda>i. (i, rate_limit_keys 1 (Some ''10.0.0.1'') (int_str i))) [10, 20, 30, 40, 50]))
      (rate_limit_keys 2 (Some ''10.0.0.1'') ''99''))"
proof -
  have k: "list_all (\<lambda>(t, ks). within_failure_window 10 t \<and> ''ip:10.0.0.1'' \<in> set ks)
      (map (\<lambda>i. (i, rate_limit_keys 1 (Some ''10.0.0.1'') (int_str i))) [10, 20, 30, 40, 50])"
    by (simp add: within_failure_window_def rate_limit_keys_def py_truthy_str_def
        failure_window_seconds_def seconds_def)
  show ?thesis
    by (rule lockout_after_five_failures [OF _ k, THEN conjunct1])
      (simp_all add: within_failure_window_def rate_limit_keys_def py_truthy_str_def
        failure_window_seconds_def seconds_def)
qed

end
