(* ===== verification/AccessCodeTheorems.thy ===== *)
theory AccessCodeTheorems
  imports AccessStateTheorems CodeLockout
begin

section \<open>Redeeming guest codes\<close>

lemma create_open_command_tables:
  assumes "create_open_command env db c b None ttl = Inr (db', cmd)"
  shows "passes db' = passes db
    \<and> (\<exists>row. commands db' = commands db @ [row] \<and> bc_barrier_id row = b \<and> bc_controller_id row = c
        \<and> bc_decision_id row = None \<and> bc_command_id row = co_command_id cmd)"
  using create_open_command_out(1,5) [OF assms] by (auto simp: command_out_of_def)

lemma redeem_entry_passes:
  assumes "distinct (map pa_id (passes db))" "p \<in> set (passes db)" "pa_status p = Pass_active"
    "pa_used_entries p < pa_max_entries p"
  shows "passes (fst (redeem_entry db (pa_id p))) = upd_where (\<lambda>r. pa_id r = pa_id p) consumed (passes db)"
proof -
  let ?Q = "\<lambda>r. pa_status r = Pass_active \<and> pa_used_entries r < pa_max_entries r"
  have "passes (fst (redeem_entry db (pa_id p)))
    = upd_where (\<lambda>r. pa_id r = pa_id p \<and> ?Q r) consumed (passes db)"
    by (simp add: redeem_entry_def consumed_def [abs_def] Let_def)
  then show ?thesis using upd_where_one [OF assms(1,2), of ?Q consumed] assms(3,4) by simp
qed

lemma find_candidate_Some:
  "find_candidate db h now = Some p \<Longrightarrow> p \<in> set (passes db) \<and> redeemable h now p"
  unfolding find_candidate_def by (drule first_row_Some) simp

lemma redeem_effect:
  assumes "access_inv sha db"
    and "redeem_code sha hmac env db code operator barrier ip = Inr (db1, out)"
  shows "\<exists>p\<in>set (passes db). re_pass_id out = pa_id p \<and> redeemable (hmac code) (env_now env) p
    \<and> passes db1 = upd_where (\<lambda>r. pa_id r = pa_id p) consumed (passes db)
    \<and> (\<exists>c. commands db1 = commands db @ [c] \<and> bc_decision_id c = None)"
  using assms(2)
proof (rule redeem_codeE)
  fix cand b c db2 cmd
  assume f: "find_candidate db (hmac code) (env_now env) = Some cand"
    and m: "create_open_command env (fst (redeem_entry db (pa_id cand))) c b None
       guest_code_command_ttl_seconds = Inr (db2, cmd)"
    and db1: "db1 = insert_audit sha (fst (insert_manual_opening sha env db2 b (co_command_id cmd) None
             operator (utext_of ''guest_code'') None)) (Some operator) ''access.guest_code_redeemed''
             ''access_pass'' (Some (pa_id cand)) (Some b) ''guest_code'' None ip
             [(''apartment_id'', CInt (pa_apartment_id cand)),
              (''pass_type'', ctext (pass_type_value (pa_pass_type cand)))]"
    and out: "re_pass_id out = pa_id cand"
  note p = find_candidate_Some [OF f]
  have d: "distinct (map pa_id (passes db))"
    using assms(1) by (simp add: access_inv_def passes_ok_def)
  have u: "passes (fst (redeem_entry db (pa_id cand)))
      = upd_where (\<lambda>r. pa_id r = pa_id cand) consumed (passes db)"
    using redeem_entry_passes [OF d] p by (simp add: redeemable_def)
  have "commands (fst (redeem_entry db (pa_id cand))) = commands db"
    by (simp add: redeem_entry_def Let_def)
  then show ?thesis
    using create_open_command_tables [OF m] u p out
    by (auto simp: db1 insert_audit_def insert_manual_opening_def Let_def intro!: bexI [of _ cand])
qed

text \<open>A code opens only for an active guest pass that carries the code's hash, has not run out
  and has an entry left; it costs that pass one entry, changes no other, and creates exactly one
  command, which names no decision.\<close>

theorem guest_code_costs_an_entry:
  assumes "reach acc_init (acc_step sha) db"
    and "redeem_code sha hmac env db code operator barrier ip = Inr (db1, out)"
  shows "\<exists>p\<in>set (passes db). re_pass_id out = pa_id p \<and> redeemable (hmac code) (env_now env) p
    \<and> passes db1 = upd_where (\<lambda>r. pa_id r = pa_id p) consumed (passes db)
    \<and> (\<exists>c. commands db1 = commands db @ [c] \<and> bc_decision_id c = None)"
  by (rule redeem_effect [OF access.inv_reach [OF assms(1)] assms(2)])

definition ex_redeemed :: "redeem_error + (access_db \<times> redeem_result)" where
  "ex_redeemed = redeem_code ex_sha ex_hmac (ex_env 1000 1) ex_adb ''42'' 2 None None"

lemma ex_redeemed_ok: "\<exists>db out. ex_redeemed = Inr (db, out) \<and> re_pass_id out = 6"
proof -
  have c: "find_candidate ex_adb (ex_hmac ''42'') (env_now (ex_env 1000 1)) = Some (last (passes ex_adb))"
    "resolve_barrier ex_adb (pa_zone_id (last (passes ex_adb))) None = Inr (Some (9, 7))"
    "snd (redeem_entry ex_adb 6) = 1" "pa_id (last (passes ex_adb)) = 6"
    "pa_code_hash (last (passes ex_adb)) = Some (ex_hmac ''42'')"
    by code_simp+
  have "commands (fst (redeem_entry ex_adb 6)) = []" by code_simp
  then obtain db2 cmd where m: "create_open_command (ex_env 1000 1) (fst (redeem_entry ex_adb 6)) 7 9 None
      guest_code_command_ttl_seconds = Inr (db2, cmd)"
    using create_open_command_total [of "ex_env 1000 1" "fst (redeem_entry ex_adb 6)" 7 9 None
        guest_code_command_ttl_seconds] by auto
  show ?thesis
    using c m by (simp add: ex_redeemed_def redeem_code_def Let_def case_prod_beta)
qed

lemma guest_code_costs_an_entry_witness:
  "\<exists>db1 out. ex_redeemed = Inr (db1, out)
     \<and> (\<exists>p\<in>set (passes ex_adb). pa_id p = 6 \<and> passes db1 = upd_where (\<lambda>r. pa_id r = pa_id p) consumed (passes ex_adb))"
proof -
  obtain db1 out where r: "ex_redeemed = Inr (db1, out)" "re_pass_id out = 6" using ex_redeemed_ok by blast
  show ?thesis
    using guest_code_costs_an_entry [OF ex_reach0 r(1) [unfolded ex_redeemed_def]] r by force
qed

subsection \<open>Once\<close>

text \<open>The steps of the services, without an administrator's change.\<close>

definition service_step :: "(utext \<Rightarrow> string) \<Rightarrow> access_db \<Rightarrow> access_db \<Rightarrow> bool" where
  "service_step sha db db' \<longleftrightarrow> acc_step sha db db' \<and> \<not> registry_change db db'"

lemma service_run_writes:
  assumes "access_inv sha db" "(service_step sha)\<^sup>*\<^sup>* db db'"
  shows "writes_to sha db db' \<and> access_inv sha db'"
  using assms(2)
proof (induction rule: rtranclp_induct)
  case base
  then show ?case using assms(1) by simp
next
  case (step y z)
  then have s: "acc_step sha y z" "\<not> registry_change y z" by (simp_all add: service_step_def)
  have "writes_to sha y z" using acc_step_writes [OF s(1)] s(2) step.IH by simp
  then show ?case using step.IH writes_and_writes access_inv_step [OF _ s(1)] by blast
qed

text \<open>The last entry of a pass is good for one opening: once a code took it, and no other pass
  carries the same hash, the code is refused from then on, however the services are used, as long
  as the administration does not change the passes.\<close>

theorem spent_code_is_refused:
  assumes "reach acc_init (acc_step sha) db"
    and "redeem_code sha hmac env db code operator barrier ip = Inr (db1, out)"
    and "\<forall>q\<in>set (passes db). pa_code_hash q = Some (hmac code) \<longrightarrow>
      pa_id q = re_pass_id out \<and> pa_max_entries q = pa_used_entries q + 1"
    and "(service_step sha)\<^sup>*\<^sup>* db1 db2"
  shows "redeem_code sha hmac env2 db2 code operator2 barrier2 ip2 = Inl CodeRedeemError"
proof -
  note inv = access.inv_reach [OF assms(1)]
  obtain p where p: "p \<in> set (passes db)" "re_pass_id out = pa_id p"
      "passes db1 = upd_where (\<lambda>r. pa_id r = pa_id p) consumed (passes db)"
    using redeem_effect [OF inv assms(2)] by blast
  have inv1: "access_inv sha db1"
    by (rule access_inv_step [OF inv]) (rule acc_redeem [OF assms(2)])
  have f: "list_all2 pass_follows (passes db1) (passes db2)"
    using write_passes.rel_run service_run_writes [OF inv1 assms(4)] unfolding passes_follow_def by blast
  have spent: "pa_max_entries q = pa_used_entries q"
    if q: "q \<in> set (passes db1)" "pa_code_hash q = Some (hmac code)" for q
  proof -
    obtain r where r: "r \<in> set (passes db)" "q = (if pa_id r = pa_id p then consumed r else r)"
      using q(1) p(3) by (auto simp: upd_where_def)
    have "pa_code_hash r = Some (hmac code)" using q(2) r(2) by (auto simp: consumed_def split: if_splits)
    then have "pa_id r = pa_id p \<and> pa_max_entries r = pa_used_entries r + 1" using assms(3) r(1) p(2) by simp
    then show ?thesis using r(2) by (simp add: consumed_def)
  qed
  have "\<not> redeemable (hmac code) (env_now env2) q'" if q': "q' \<in> set (passes db2)" for q'
  proof
    assume a: "redeemable (hmac code) (env_now env2) q'"
    obtain q where q: "q \<in> set (passes db1)" "pass_follows q q'"
      using f q' by (auto simp: list_all2_conv_all_nth in_set_conv_nth) (metis in_set_conv_nth nth_mem)
    have h: "pa_code_hash q = Some (hmac code)"
      using a q(2) by (simp add: redeemable_def pass_follows_def)
    show False using a q(2) spent [OF q(1) h]
      by (auto simp: redeemable_def pass_follows_def split: if_splits)
  qed
  then have "find_candidate db2 (hmac code) (env_now env2) = None"
    by (auto simp: find_candidate_def first_row_None)
  then show ?thesis by (simp add: redeem_code_def)
qed

lemma spent_code_is_refused_witness:
  "\<exists>db1 out. ex_redeemed = Inr (db1, out)
     \<and> redeem_code ex_sha ex_hmac (ex_env 2000 2) db1 ''42'' 2 None None = Inl CodeRedeemError"
proof -
  obtain db1 out where r: "ex_redeemed = Inr (db1, out)" "re_pass_id out = 6" using ex_redeemed_ok by blast
  have "list_all (\<lambda>q. pa_code_hash q = Some (ex_hmac ''42'') \<longrightarrow>
      pa_id q = 6 \<and> pa_max_entries q = pa_used_entries q + 1) (passes ex_adb)"
    by code_simp
  then have q: "\<forall>q\<in>set (passes ex_adb). pa_code_hash q = Some (ex_hmac ''42'') \<longrightarrow>
      pa_id q = re_pass_id out \<and> pa_max_entries q = pa_used_entries q + 1"
    using r(2) by (simp add: list_all_iff)
  show ?thesis
    using spent_code_is_refused [OF ex_reach0 r(1) [unfolded ex_redeemed_def] q rtranclp.rtrancl_refl] r(1)
    by blast
qed

text \<open>The window of a pass begins in an hour, and its code opens now.\<close>

lemma code_opens_before_valid_from:
  "redeemable (ex_hmac ''42'') 1000 ((last (passes ex_adb))\<lparr>pa_valid_from := Some (seconds 3600)\<rparr>)"
  by code_simp

end
