(* ===== verification/AccessIngestTheorems.thy ===== *)
theory AccessIngestTheorems
  imports AccessExamples
begin

section \<open>Ingestion of events\<close>

text \<open>
  One event is decided once and every delivery of it is answered the same way; a call does not
  fail; a foreign zone or gate is refused; a command goes to the controller's own barrier; a taxi
  pass is consumed exactly when it let the taxi in.
\<close>

lemma prefix_first_row:
  "prefix xs ys \<Longrightarrow> first_row P xs = Some r \<Longrightarrow> first_row P ys = Some r"
  by (auto simp: prefix_def first_row_append)

lemma grows_initial:
  "grows db db' \<Longrightarrow> initial_for_event db e = Some d \<Longrightarrow> initial_for_event db' e = Some d"
  unfolding grows_def initial_for_event_def by (blast intro: prefix_first_row)

lemma replay_of_stored:
  assumes "find_event_id db (in_controller_id raw) (in_event_id raw) = Some e"
  shows "ingest_anpr sha env db raw = Inr (db, load_existing_result db e)"
  by (simp add: ingest_anpr_def run_ingest_def Let_def assms)

text \<open>C5: an event is decided once.  After its decision was stored, every later delivery under the
  same controller and event id, in any later state and with any other content, changes nothing and
  is answered with the stored decision, its status, reason and ids, and with the id of the same
  command when there was one.\<close>

theorem event_decided_once:
  assumes "reach acc_init (acc_step sha) db"
    and "ingest_anpr sha env db raw = Inr (db1, res)" "\<not> ir_replayed res"
    and "(acc_step sha)\<^sup>*\<^sup>* db1 db2"
    and "in_controller_id raw2 = in_controller_id raw" "in_event_id raw2 = in_event_id raw"
  shows "\<exists>cmd. ingest_anpr sha env2 db2 raw2 = Inr (db2, res\<lparr>ir_command := cmd, ir_replayed := True\<rparr>)
    \<and> (ir_command res \<noteq> None \<longrightarrow> map_option co_command_id cmd = map_option co_command_id (ir_command res))"
proof (rule ingest_recorded [OF access.inv_reach [OF assms(1)] assms(2) [unfolded ingest_anpr_def] assms(3)])
  fix e d row
  assume f: "find_event_id db1 (in_controller_id raw) (in_event_id raw) = Some e"
    "initial_for_event db1 e = Some d" "commands db1 = commands db @ row" "length row \<le> 1"
    "row \<noteq> [] \<Longrightarrow> sc_barrier_id (authorize_scope db raw) = Some (bc_barrier_id (hd row))
       \<and> ad_decision d = Allow \<and> ad_status d = Allowed
       \<and> bc_controller_id (hd row) = in_controller_id raw
       \<and> bc_decision_id (hd row) = Some (ad_id d)"
    and res: "res = \<lparr>ir_decision = ad_decision d, ir_status = ad_status d, ir_reason = ad_reason d,
           ir_decision_id = Some (ad_id d), ir_group_id = ad_group_id d,
           ir_command = (if row = [] then None else Some (command_out_of (hd row))),
           ir_replayed = False\<rparr>"
  have "acc_step sha db db1" by (rule acc_ingest) (rule assms(2))
  then have inv1: "access_inv sha db1"
    by (rule access_inv_step [OF access.inv_reach [OF assms(1)]])
  have p: "persists db1 db2" by (rule run_persists [OF inv1 assms(4)])
  have e2: "find_event_id db2 (in_controller_id raw2) (in_event_id raw2) = Some e"
    using p f(1) assms(5,6) by (simp add: persists_def)
  have d2: "initial_for_event db2 e = Some d"
    using p f(2) unfolding persists_def by (blast intro: grows_initial)
  have c2: "command_of db2 (ad_id d) = Some (bc_command_id (hd row))" if "row \<noteq> []"
  proof -
    define c where "c = hd row"
    have row: "row = [c]" using that f(4) by (cases row) (auto simp: c_def)
    have "distinct (List.map_filter bc_decision_id (commands db @ [c]))"
      using inv1 f(3) row by (simp add: access_inv_def commands_ok_def)
    then have "\<forall>r\<in>set (commands db). bc_decision_id r \<noteq> Some (ad_id d)"
      using f(5) row by (force simp: List.map_filter_def)
    then have "command_of db1 (ad_id d) = Some (bc_command_id c)"
      using f(5) row by (simp add: command_of_def command_for_decision_def f(3) first_row_append
          first_row_None [symmetric] sql_simps)
    then show ?thesis using p row by (simp add: persists_def)
  qed
  have "ir_command res \<noteq> None \<longrightarrow> map_option co_command_id
      (map_option command_out_of (command_for_decision db2 (ad_id d)))
      = map_option co_command_id (ir_command res)"
    using c2 res by (auto simp: command_of_def command_out_of_def)
  moreover have "load_existing_result db2 e
      = res\<lparr>ir_command := map_option command_out_of (command_for_decision db2 (ad_id d)),
            ir_replayed := True\<rparr>"
    by (simp add: load_existing_result_def d2 res)
  ultimately show ?thesis using replay_of_stored [OF e2] by metis
qed

lemma event_decided_once_witness:
  "\<exists>cmd. ingest_anpr ex_sha (ex_env 9000 9) ex_db2 (ex_event ''e1'' ''b 2'' 1 8000)
     = Inr (ex_db2, ex_res1\<lparr>ir_command := cmd, ir_replayed := True\<rparr>)"
proof -
  have r: "\<not> ir_replayed ex_res1" by (simp add: ex_res1_def)
  have k: "in_controller_id (ex_event ''e1'' ''b 2'' 1 8000) = in_controller_id ex_in1"
    "in_event_id (ex_event ''e1'' ''b 2'' 1 8000) = in_event_id ex_in1"
    by (simp_all add: ex_in1_def ex_event_def)
  show ?thesis using event_decided_once [OF ex_reach0 ex_run1 r ex_run12 k] by blast
qed



text \<open>The barrier of an event's scope.\<close>

lemma scope_barrier:
  assumes "sc_barrier_id (authorize_scope db raw) = Some b"
  shows "\<exists>x\<in>set (barriers db). ba_id x = b \<and> ba_is_active x
    \<and> (\<exists>g\<in>set (gates db). ga_id g = ba_gate_id x \<and> ga_controller_id g = Some (in_controller_id raw))"
proof -
  have bar: "\<exists>x\<in>set (barriers db). ba_id x = b \<and> ba_is_active x \<and> ba_gate_id x = g"
    if "first_active_barrier_for_gate db g = Some b" for g
    using that by (auto simp: first_active_barrier_for_gate_def first_active_barrier_row_def
        dest!: least_row_Some)
  have gate: "\<exists>x\<in>set (gates db). ga_id x = g \<and> ga_controller_id x = Some (in_controller_id raw)"
    if "gate_belongs_to_controller db g (in_controller_id raw)
      \<or> first_active_gate_for_controller db (in_controller_id raw) = Some g" for g
    using that by (auto simp: gate_belongs_to_controller_def first_active_gate_for_controller_def
        list_ex_iff dest!: least_row_Some)
  obtain g where "first_active_barrier_for_gate db g = Some b"
    "gate_belongs_to_controller db g (in_controller_id raw)
      \<or> first_active_gate_for_controller db (in_controller_id raw) = Some g"
    using assms by (auto simp: authorize_scope_def Let_def split: if_splits option.splits)
  from bar [OF this(1)] gate [OF this(2)] show ?thesis by blast
qed

text \<open>A command of an event opens only for an allowed decision, and it is addressed to the
  reporting controller and to an active barrier of a gate of that controller.\<close>

theorem command_goes_to_own_barrier:
  assumes "reach acc_init (acc_step sha) db"
    and "ingest_anpr sha env db raw = Inr (db', res)" "\<not> ir_replayed res" "ir_command res = Some out"
  shows "ir_decision res = Allow \<and> ir_status res = Allowed
    \<and> (\<exists>c. commands db' = commands db @ [c] \<and> bc_controller_id c = in_controller_id raw
         \<and> bc_barrier_id c = co_barrier_id out \<and> bc_decision_id c = ir_decision_id res)
    \<and> (\<exists>x\<in>set (barriers db). ba_id x = co_barrier_id out \<and> ba_is_active x
         \<and> (\<exists>g\<in>set (gates db). ga_id g = ba_gate_id x
               \<and> ga_controller_id g = Some (in_controller_id raw)))"
proof (rule ingest_recorded [OF access.inv_reach [OF assms(1)] assms(2) [unfolded ingest_anpr_def] assms(3)])
  fix e d row
  assume f: "commands db' = commands db @ row" "length row \<le> 1"
    "row \<noteq> [] \<Longrightarrow> sc_barrier_id (authorize_scope db raw) = Some (bc_barrier_id (hd row))
       \<and> ad_decision d = Allow \<and> ad_status d = Allowed
       \<and> bc_controller_id (hd row) = in_controller_id raw
       \<and> bc_decision_id (hd row) = Some (ad_id d)"
    and res: "res = \<lparr>ir_decision = ad_decision d, ir_status = ad_status d, ir_reason = ad_reason d,
           ir_decision_id = Some (ad_id d), ir_group_id = ad_group_id d,
           ir_command = (if row = [] then None else Some (command_out_of (hd row))),
           ir_replayed = False\<rparr>"
  obtain c where row: "row = [c]" and out: "out = command_out_of c"
    using assms(4) f(2) res by (cases row) auto
  have b: "sc_barrier_id (authorize_scope db raw) = Some (co_barrier_id out)"
    using f(3) row out by (simp add: command_out_of_def)
  from scope_barrier [OF b] f res row out show ?thesis by (simp add: command_out_of_def)
qed

lemma command_goes_to_own_barrier_witness:
  "ir_decision ex_res1 = Allow \<and> (\<exists>x\<in>set (barriers ex_adb). ba_id x = 9 \<and> ba_is_active x)"
proof -
  obtain out where out: "ir_command ex_res1 = Some out" "co_barrier_id out = 9" "\<not> ir_replayed ex_res1"
    by (simp add: ex_res1_def)
  then show ?thesis using command_goes_to_own_barrier [OF ex_reach0 ex_run1 out(3,1)] by auto
qed

subsection \<open>Foreign zones and gates\<close>

lemma foreign_scope:
  assumes "get_controller db (in_controller_id raw) = Some c"
    and "(\<exists>z z'. ec_zone_id c = Some z \<and> in_zone_id raw = Some z' \<and> z \<noteq> z')
      \<or> (\<exists>g. in_gate_id raw = Some g \<and> \<not> gate_belongs_to_controller db g (in_controller_id raw))"
  shows "sc_violation (authorize_scope db raw) = Some Zone_not_allowed"
  using assms by (auto simp: authorize_scope_def Let_def split: option.split)

lemma insert_access_event_presence:
  "insert_access_event sha db data e d n = Inr db' \<Longrightarrow> presence db' = presence db \<and> passes db' = passes db"
  using insert_access_event_tables(4,5) by blast

lemma record_violation:
  assumes "record_decision sha env db scope data n e ttl th = Inr (db', res)"
    and v: "sc_violation scope = Some reason"
  shows "ir_decision res = Deny \<and> ir_status res = Denied \<and> ir_reason res = Some reason
    \<and> ir_command res = None \<and> commands db' = commands db \<and> passes db' = passes db
    \<and> presence db' = presence db"
  using assms(1)
proof (rule record_decisionE)
  fix db1 en1 en final deadline db2 d db3 db4 cmd
  assume s1: "settle_taxi db (engine_for db scope data n th) = (db1, en1)"
    and s2: "settle_review env db1 (sc_barrier_id scope) (in_captured_at data) en1 = (en, final, deadline)"
    and s3: "insert_initial sha env db1 e (en_decision en) final (en_reason en)
       (en_vehicle_id en) (en_pass_id en) deadline (in_source data) = Inr (db2, d)"
    and s4: "insert_access_event sha db2 data e d n = Inr db3"
    and s5: "issue_command env db3 data (sc_barrier_id scope) d ttl = Inr (db4, cmd)"
    and s6: "db' = track_presence db4 data e d"
    and s7: "res = \<lparr>ir_decision = en_decision en, ir_status = final, ir_reason = en_reason en,
           ir_decision_id = Some (ad_id d), ir_group_id = ad_group_id d,
           ir_command = cmd, ir_replayed = False\<rparr>"
  have a: "db1 = db" "en1 = engine_deny reason None None"
    using s1 v by (simp_all add: engine_for_def settle_taxi_def engine_deny_def)
  have b: "en = engine_deny reason None None" "final = Denied"
    using s2 a(2) by (simp_all add: settle_review_def engine_deny_def)
  obtain x where x: "append_decision sha db1 x = (db2, d)" "ad_decision x = Deny" "ad_vehicle_id x = None"
    using s3 b by (auto simp: insert_initial_def engine_deny_def split: if_splits)
  note t = append_decision_tables [OF x(1)]
  have d: "ad_decision d = Deny" using t x(2) by simp
  note f = insert_access_event_tables [OF s4]
  have i: "db4 = db3" "cmd = None"
    using s5 d by (auto simp: issue_command_def split: option.splits)
  have "db' = db4" using s6 d by (simp add: track_presence_def split: option.split)
  then show ?thesis using a b t f i s7 by (simp add: engine_deny_def)
qed

text \<open>An event that names another zone than its controller's, or a gate that is not its
  controller's, is denied: no command, no pass consumed, no presence session opened or closed.\<close>

theorem foreign_zone_or_gate_refused:
  assumes "reach acc_init (acc_step sha) db"
    and "ingest_anpr sha env db raw = Inr (db', res)" "\<not> ir_replayed res"
    and "get_controller db (in_controller_id raw) = Some c"
    and "(\<exists>z z'. ec_zone_id c = Some z \<and> in_zone_id raw = Some z' \<and> z \<noteq> z')
      \<or> (\<exists>g. in_gate_id raw = Some g \<and> \<not> gate_belongs_to_controller db g (in_controller_id raw))"
  shows "ir_decision res = Deny \<and> ir_status res = Denied \<and> ir_reason res = Some Zone_not_allowed
    \<and> ir_command res = None \<and> commands db' = commands db \<and> passes db' = passes db
    \<and> presence db' = presence db"
  using assms(2) [unfolded ingest_anpr_def]
proof (cases rule: run_ingest_cases)
  case (replay old)
  then show ?thesis using assms(3) by (simp add: load_existing_result_def split: option.splits)
next
  case (recorded db1 e)
  note v = record_violation [OF recorded(4) foreign_scope [OF assms(4,5)]]
  have "commands db1 = commands db \<and> passes db1 = passes db \<and> presence db1 = presence db"
    using recorded(3) by (auto simp: insert_idempotent_def Let_def split: if_splits)
  then show ?thesis using v by simp
qed

definition ex_in_foreign :: ingest_input where
  "ex_in_foreign = ex_in1\<lparr>in_zone_id := Some 2\<rparr>"

lemma foreign_zone_or_gate_refused_witness:
  "\<exists>db' res. ingest_anpr ex_sha (ex_env 1000 1) ex_adb ex_in_foreign = Inr (db', res)
     \<and> ir_decision res = Deny \<and> passes db' = passes ex_adb"
proof -
  let ?r = "ingest_anpr ex_sha (ex_env 1000 1) ex_adb ex_in_foreign"
  have r: "case ?r of Inr (db', res) \<Rightarrow> \<not> ir_replayed res | Inl _ \<Rightarrow> False" by code_simp
  then obtain db' res where e: "?r = Inr (db', res)" "\<not> ir_replayed res"
    by (cases ?r) auto
  obtain ctrl where c: "get_controller ex_adb (in_controller_id ex_in_foreign) = Some ctrl"
      "ec_zone_id ctrl = Some 1"
  proof -
    have "map_option ec_zone_id (get_controller ex_adb (in_controller_id ex_in_foreign)) = Some (Some 1)"
      by code_simp
    then show ?thesis by (auto intro: that)
  qed
  have z: "in_zone_id ex_in_foreign = Some 2" by code_simp
  show ?thesis
    using foreign_zone_or_gate_refused [OF ex_reach0 e c(1)] e c(2) z by auto
qed

subsection \<open>Taxi passes\<close>

text \<open>A decision of the engine that rests on a taxi pass names a usable pass of that plate, and a
  review never does.\<close>

definition taxi_grant :: "access_db \<Rightarrow> utext option \<Rightarrow> engine_decision \<Rightarrow> bool" where
  "taxi_grant db n en \<longleftrightarrow>
     (en_reason en = Some Temporary_pass_allowed \<longrightarrow>
        en_decision en = Allow
        \<and> (\<exists>p\<in>set (passes db). en_pass_id en = Some (pa_id p) \<and> pa_pass_type p = Taxi
             \<and> pa_plate p = Some (case n of None \<Rightarrow> [] | Some t \<Rightarrow> t)
             \<and> pa_used_entries p < pa_max_entries p))"

lemma taxi_grant_other: "en_reason en \<noteq> Some Temporary_pass_allowed \<Longrightarrow> taxi_grant db n en"
  by (simp add: taxi_grant_def)

lemma permanent_not_temporary:
  "decide_permanent db data = Some en \<Longrightarrow> en_reason en \<noteq> Some Temporary_pass_allowed"
  by (auto simp: decide_permanent_def decide_assigned_def decide_shared_def engine_defs Let_def
      split: option.splits parking_type.splits if_splits)

lemma taxi_grant_taxi: "taxi_grant db (Some (di_plate data)) (decide_taxi db data)"
proof (cases "newest_taxi_pass db (di_plate data)")
  case (Some p)
  have "p \<in> set (passes db) \<and> pa_plate p = Some (di_plate data) \<and> pa_pass_type p = Taxi"
    using least_row_Some [OF Some [unfolded newest_taxi_pass_def]] by auto
  then show ?thesis by (auto simp: decide_taxi_def Some taxi_grant_def engine_defs)
qed (simp add: decide_taxi_def engine_defs taxi_grant_other)

lemma taxi_grant_engine:
  assumes "sc_violation scope \<noteq> Some Temporary_pass_allowed"
  shows "taxi_grant db n (engine_for db scope data n th)"
proof (cases "sc_violation scope")
  case None
  let ?d = "\<lparr>di_zone_id = in_zone_id data, di_plate = (case n of None \<Rightarrow> [] | Some p \<Rightarrow> p),
     di_direction = in_direction data, di_confidence = in_confidence data,
     di_captured_at = in_captured_at data\<rparr>"
  have t: "taxi_grant db n (decide_taxi db ?d)"
    using taxi_grant_taxi [of db ?d] by (simp add: taxi_grant_def)
  have "taxi_grant db n (decide_entry db ?d th)"
  proof (cases "decide_permanent db ?d")
    case None
    then show ?thesis
      using t by (simp add: decide_entry_def taxi_grant_other engine_manual_review_def split: option.split)
  next
    case (Some en)
    then show ?thesis using permanent_not_temporary [OF Some]
      by (simp add: decide_entry_def taxi_grant_other engine_manual_review_def split: option.split)
  qed
  then show ?thesis using None
    by (simp add: engine_for_def decide_exit_def taxi_grant_other)
next
  case (Some r)
  then show ?thesis using assms
    by (simp add: engine_for_def taxi_grant_other engine_deny_def)
qed

lemma scope_violation_reason: "sc_violation (authorize_scope db raw) \<noteq> Some Temporary_pass_allowed"
  by (simp add: authorize_scope_def Let_def split: option.split)

lemma row_count_key:
  "distinct (map f rows) \<Longrightarrow> r \<in> set rows \<Longrightarrow> Q r \<Longrightarrow> row_count (\<lambda>x. f x = f r \<and> Q x) rows = 1"
proof (induction rows)
  case (Cons a rows)
  show ?case
  proof (cases "a = r")
    case True
    have "row_count (\<lambda>x. f x = f r \<and> Q x) rows = 0"
      using Cons.prems(1) True by (auto simp: row_count_zero_iff image_iff)
    then show ?thesis using Cons.prems True by (simp add: row_count_Cons)
  next
    case False
    then have "r \<in> set rows" "f a \<noteq> f r" using Cons.prems by (auto simp: image_iff)
    then show ?thesis using Cons by (simp add: row_count_Cons)
  qed
qed simp

text \<open>Consuming: an engine decision that rests on a pass keeps its outcome, and one entry of that
  pass is gone.\<close>

lemma settle_taxi_passes:
  assumes "settle_taxi db en = (db1, en1)" and g: "taxi_grant db n en" and d: "distinct (map pa_id (passes db))"
  shows "if en_reason en1 = Some Temporary_pass_allowed
    then en1 = en \<and> en_decision en1 = Allow
      \<and> (\<exists>p\<in>set (passes db). pa_pass_type p = Taxi
        \<and> pa_plate p = Some (case n of None \<Rightarrow> [] | Some t \<Rightarrow> t) \<and> pa_used_entries p < pa_max_entries p
        \<and> passes db1 = upd_where (\<lambda>r. pa_id r = pa_id p) consumed (passes db))
    else passes db1 = passes db"
proof (cases "en_reason en = Some Temporary_pass_allowed")
  case False
  then have "db1 = db \<and> en1 = en"
    using assms(1) by (auto simp: settle_taxi_def split: decision_type.splits option.splits decision_reason.splits)
  then show ?thesis using False by simp
next
  case True
  then obtain p where p: "p \<in> set (passes db)" "en_pass_id en = Some (pa_id p)" "pa_pass_type p = Taxi"
      "pa_plate p = Some (case n of None \<Rightarrow> [] | Some t \<Rightarrow> t)" "pa_used_entries p < pa_max_entries p"
    and a: "en_decision en = Allow" using g by (auto simp: taxi_grant_def)
  let ?hit = "\<lambda>r. pa_id r = pa_id p \<and> pa_used_entries r < pa_max_entries r"
  have one: "row_count ?hit (passes db) = 1"
    using row_count_key [OF d p(1), of "\<lambda>r. pa_used_entries r < pa_max_entries r"] p(5) by simp
  have c: "consume_taxi_entry db (pa_id p)
      = (db\<lparr>passes := upd_where ?hit consumed (passes db)\<rparr>, True)"
    using one by (simp add: consume_taxi_entry_def consumed_def [abs_def] Let_def)
  have "upd_where ?hit consumed (passes db) = upd_where (\<lambda>r. pa_id r = pa_id p) consumed (passes db)"
    using upd_where_one [OF d p(1), of "\<lambda>r. pa_used_entries r < pa_max_entries r" consumed] p(5) by simp
  moreover have "db1 = db\<lparr>passes := upd_where ?hit consumed (passes db)\<rparr>" "en1 = en"
    using assms(1) True a p(2) c by (simp_all add: settle_taxi_def)
  ultimately show ?thesis using True a p by auto
qed

lemma insert_initial_passes:
  "insert_initial sha env db e dec st reason v p deadline src = Inr (db', d) \<Longrightarrow> passes db' = passes db"
  by (auto simp: insert_initial_def append_decision_tables(5) split: if_splits)

lemma settle_review_reason:
  "settle_review env db b t en = (en', st, dl) \<Longrightarrow> en_reason en' = en_reason en"
  by (auto simp: settle_review_def split: if_splits)

lemma issue_command_passes:
  "issue_command env db data b d ttl = Inr (db', cmd) \<Longrightarrow> passes db' = passes db"
  by (auto simp: issue_command_def create_open_command_def Let_def res_bind_Inr_iff split: option.splits if_splits)

text \<open>A new event consumes an entry exactly when a taxi pass let the vehicle in: then one entry
  of one pass, a taxi pass of that plate that had one left; otherwise no pass changes.\<close>

theorem taxi_entry_consumes_one:
  assumes "reach acc_init (acc_step sha) db"
    and "ingest_anpr sha env db raw = Inr (db', res)" "\<not> ir_replayed res"
  shows "if ir_reason res = Some Temporary_pass_allowed
    then ir_decision res = Allow
      \<and> (\<exists>p\<in>set (passes db). pa_pass_type p = Taxi
        \<and> pa_plate p = Some (case plate_of raw of None \<Rightarrow> [] | Some t \<Rightarrow> t)
        \<and> pa_used_entries p < pa_max_entries p
        \<and> passes db' = upd_where (\<lambda>r. pa_id r = pa_id p) consumed (passes db))
    else passes db' = passes db"
  using assms(2) [unfolded ingest_anpr_def]
proof (cases rule: run_ingest_cases)
  case (replay old)
  then show ?thesis using assms(3) by (simp add: load_existing_result_def split: option.splits)
next
  case (recorded db1 e)
  have p1: "passes db1 = passes db"
    using recorded(3) by (auto simp: insert_idempotent_def Let_def split: if_splits)
  have d1: "distinct (map pa_id (passes db1))"
    using access.inv_reach [OF assms(1)] p1 by (simp add: access_inv_def passes_ok_def)
  note g = taxi_grant_engine [OF scope_violation_reason [of db raw], of db1 "plate_of raw"
      "scoped db raw" confidence_threshold]
  from recorded(4) show ?thesis
  proof (rule record_decisionE)
    fix db2 en1 en final deadline db3 d db4 db5 cmd
    assume s: "settle_taxi db1 (engine_for db1 (authorize_scope db raw) (scoped db raw)
          (plate_of raw) confidence_threshold) = (db2, en1)"
      "settle_review env db2 (sc_barrier_id (authorize_scope db raw)) (in_captured_at (scoped db raw)) en1
        = (en, final, deadline)"
      "insert_initial sha env db2 e (en_decision en) final (en_reason en)
        (en_vehicle_id en) (en_pass_id en) deadline (in_source (scoped db raw)) = Inr (db3, d)"
      "insert_access_event sha db3 (scoped db raw) e d (plate_of raw) = Inr db4"
      "issue_command env db4 (scoped db raw) (sc_barrier_id (authorize_scope db raw)) d
        command_ttl_seconds = Inr (db5, cmd)"
      and db': "db' = track_presence db5 (scoped db raw) e d"
      and res: "res = \<lparr>ir_decision = en_decision en, ir_status = final, ir_reason = en_reason en,
           ir_decision_id = Some (ad_id d), ir_group_id = ad_group_id d,
           ir_command = cmd, ir_replayed = False\<rparr>"
    have p2: "passes db' = passes db2"
      using db' issue_command_passes [OF s(5)] insert_access_event_tables(4) [OF s(4)]
        insert_initial_passes [OF s(3)] by simp
    have dec: "en_decision en = en_decision en1" if "en_decision en1 = Allow"
      using s(2) that by (auto simp: settle_review_def split: if_splits)
    show ?thesis
      using settle_taxi_passes [OF s(1) g d1] settle_review_reason [OF s(2)] dec res p1 p2 by auto
  qed
qed

lemma taxi_entry_consumes_one_witness:
  "\<exists>p\<in>set (passes ex_adb). pa_pass_type p = Taxi \<and> pa_plate p = Some (utext_of ''T3'')
     \<and> passes ex_db_taxi = upd_where (\<lambda>r. pa_id r = pa_id p) consumed (passes ex_adb)"
proof -
  have n: "\<not> ir_replayed ex_res_taxi" "ir_reason ex_res_taxi = Some Temporary_pass_allowed"
    by (simp_all add: ex_res_taxi_def ex_res1_def)
  have "plate_of ex_in_taxi = Some (utext_of ''T3'')" by code_simp
  then show ?thesis using taxi_entry_consumes_one [OF ex_reach0 ex_run_taxi n(1)] n(2) by auto
qed

end
