(* ===== verification/AccessEngineTheorems.thy ===== *)
theory AccessEngineTheorems
  imports AccessExamples
begin

section \<open>What an allowed entry rests on\<close>

text \<open>
  The engine's answer, traced back to the registry: an entry is allowed only on rows that grant
  it.  The rows are named table by table, without the engine's own queries.
\<close>

definition active_link :: "access_db \<Rightarrow> vehicle \<Rightarrow> instant \<Rightarrow> vehicle_apartment \<Rightarrow> bool" where
  "active_link db v moment l \<longleftrightarrow>
     l \<in> set (vehicle_apartments db) \<and> va_vehicle_id l = ve_id v \<and> va_status l = Link_active
     \<and> within_window moment (va_valid_from l) (va_valid_until l)"

definition right_by_rule :: "access_db \<Rightarrow> vehicle \<Rightarrow> decision_input \<Rightarrow> bool" where
  "right_by_rule db v data \<longleftrightarrow>
     (\<exists>r\<in>set (rules db). ru_is_active r \<and> Some (ru_zone_id r) = di_zone_id data
        \<and> within_window (di_captured_at data) (ru_valid_from r) (ru_valid_until r)
        \<and> (\<forall>ds. ru_allowed_directions r = Some ds \<longrightarrow> ds = [] \<or> di_direction data \<in> set ds)
        \<and> (ru_vehicle_id r = Some (ve_id v)
           \<or> (\<exists>l. active_link db v (di_captured_at data) l \<and> ru_apartment_id r = Some (va_apartment_id l))))"

text \<open>The assignments of the vehicle's apartments to active spots of a zone, in force now.\<close>

definition places :: "access_db \<Rightarrow> vehicle \<Rightarrow> decision_input \<Rightarrow> spot_assignment list" where
  "places db v data =
     filter (\<lambda>s. sa_status s = Spot_assignment_active
         \<and> within_window (di_captured_at data) (sa_valid_from s) (sa_valid_until s)
         \<and> list_ex (\<lambda>l. active_link db v (di_captured_at data) l \<and> va_apartment_id l = sa_apartment_id s)
             (vehicle_apartments db)
         \<and> list_ex (\<lambda>p. sp_id p = sa_spot_id s \<and> Some (sp_zone_id p) = di_zone_id data
             \<and> sp_status p = Spot_active) (spots db))
       (spot_assignments db)"

definition right_by_place :: "access_db \<Rightarrow> vehicle \<Rightarrow> decision_input \<Rightarrow> bool" where
  "right_by_place db v data \<longleftrightarrow>
     (\<exists>z\<in>set (zones db). Some (zn_id z) = di_zone_id data \<and> zn_parking_type z = Assigned)
     \<and> places db v data \<noteq> []
     \<and> (list_all sa_enforce_limit (places db v data) \<longrightarrow>
          count_open_for_apartment_zone db (active_apartment_ids db (ve_id v) (di_captured_at data))
            (di_zone_id data) < length (places db v data))"

definition right_by_yard :: "access_db \<Rightarrow> vehicle \<Rightarrow> decision_input \<Rightarrow> bool" where
  "right_by_yard db v data \<longleftrightarrow>
     (\<exists>z\<in>set (zones db). Some (zn_id z) = di_zone_id data \<and> zn_parking_type z = Shared
        \<and> (\<exists>l. active_link db v (di_captured_at data) l
             \<and> (\<exists>a\<in>set (apartments db). ap_id a = va_apartment_id l
                  \<and> (\<exists>b\<in>set (buildings db). bl_id b = ap_building_id a
                       \<and> (\<exists>y\<in>set (zone_yards db). zy_yard_id y = bl_yard_id b \<and> zy_zone_id y = zn_id z)))
             \<and> (\<forall>cap. zn_max_permanent z = Some cap \<longrightarrow>
                  int (count_active_apartment_vehicles db (va_apartment_id l) (di_captured_at data)) \<le> cap)))"

definition right_by_taxi_pass :: "access_db \<Rightarrow> decision_input \<Rightarrow> bool" where
  "right_by_taxi_pass db data \<longleftrightarrow>
     (\<exists>p\<in>set (passes db). pa_pass_type p = Taxi \<and> pa_plate p = Some (di_plate data)
        \<and> (pa_status p = Pass_active \<or> pa_status p = Pass_used)
        \<and> (pa_zone_id p = None \<or> di_zone_id data = None \<or> pa_zone_id p = di_zone_id data)
        \<and> within_window (di_captured_at data) (pa_valid_from p) (pa_valid_until p)
        \<and> pa_used_entries p < pa_max_entries p)"

lemma active_apartment_ids_iff:
  "a \<in> set (active_apartment_ids db (ve_id v) t) \<longleftrightarrow> (\<exists>l. active_link db v t l \<and> va_apartment_id l = a)"
  by (auto simp: active_apartment_ids_def active_link_def)

lemma rule_right:
  "zone_rule_matches db (ve_id v) (active_apartment_ids db (ve_id v) (di_captured_at data))
     (di_zone_id data) (di_direction data) (di_captured_at data) \<Longrightarrow> right_by_rule db v data"
  unfolding zone_rule_matches_def right_by_rule_def rule_applies_def
  by (fastforce simp: list_ex_iff active_apartment_ids_iff split: option.splits)

lemma places_eq:
  "filter (\<lambda>r. sa_status r = Spot_assignment_active
      \<and> within_window (di_captured_at data) (sa_valid_from r) (sa_valid_until r))
    (filter (\<lambda>r. spot_in_zone db (di_zone_id data) (sa_spot_id r)
        \<and> sa_apartment_id r \<in> set (active_apartment_ids db (ve_id v) (di_captured_at data))
        \<and> (sa_status r = Spot_assignment_active \<or> sa_status r = Spot_assignment_expired))
      (spot_assignments db)) = places db v data"
  unfolding places_def filter_filter
  by (rule filter_cong)
    (auto simp: spot_in_zone_def list_ex_iff active_apartment_ids_iff active_link_def)

lemmas places_eq' = places_eq [simplified]

lemma assigned_right:
  assumes "en_decision (decide_assigned db v (active_apartment_ids db (ve_id v) (di_captured_at data))
      (di_zone_id data) (di_captured_at data)) = Allow"
    and "\<exists>z\<in>set (zones db). Some (zn_id z) = di_zone_id data \<and> zn_parking_type z = Assigned"
  shows "right_by_place db v data"
  using assms
  by (auto simp: decide_assigned_def Let_def places_eq' right_by_place_def engine_defs not_le
      split: if_splits)

lemma shared_right:
  assumes "en_decision (decide_shared db v (active_apartment_ids db (ve_id v) (di_captured_at data))
      z (di_captured_at data)) = Allow"
    and z: "z \<in> set (zones db)" "Some (zn_id z) = di_zone_id data" "zn_parking_type z = Shared"
  shows "right_by_yard db v data"
proof -
  let ?served = "filter (\<lambda>a. apartment_served_by_zone db a (zn_id z))
    (active_apartment_ids db (ve_id v) (di_captured_at data))"
  have ne: "?served \<noteq> []"
    and cap: "\<not> (case zn_max_permanent z of None \<Rightarrow> False
      | Some cap \<Rightarrow> list_ex (\<lambda>a. cap < int (count_active_apartment_vehicles db a (di_captured_at data))) ?served)"
    using assms(1) by (auto simp: decide_shared_def Let_def engine_defs split: if_splits)
  obtain a where a: "a \<in> set ?served" using ne by (cases ?served) auto
  then obtain l where l: "active_link db v (di_captured_at data) l" "va_apartment_id l = a"
    by (auto simp: active_apartment_ids_iff)
  have "\<forall>c. zn_max_permanent z = Some c \<longrightarrow>
      int (count_active_apartment_vehicles db a (di_captured_at data)) \<le> c"
    using cap a by (auto simp: list_ex_iff not_less split: option.splits)
  moreover have "apartment_served_by_zone db a (zn_id z)" using a by simp
  ultimately show ?thesis
    using l z unfolding right_by_yard_def apartment_served_by_zone_def list_ex_iff
    by (intro bexI [OF _ z(1)] conjI exI [where x = l]) simp_all
qed

lemma taxi_right: "en_decision (decide_taxi db data) = Allow \<Longrightarrow> right_by_taxi_pass db data"
proof -
  assume a: "en_decision (decide_taxi db data) = Allow"
  then obtain p where p: "newest_taxi_pass db (di_plate data) = Some p"
    by (auto simp: decide_taxi_def engine_defs split: option.splits)
  have m: "p \<in> set (passes db)" "pa_plate p = Some (di_plate data)" "pa_pass_type p = Taxi"
    "pa_status p = Pass_active \<or> pa_status p = Pass_used"
    using least_row_Some [OF p [unfolded newest_taxi_pass_def]] by auto
  show ?thesis unfolding right_by_taxi_pass_def
    by (rule bexI [OF _ m(1)]) (use a p m in \<open>auto simp: decide_taxi_def engine_defs split: if_splits\<close>)
qed

lemma permanent_right:
  assumes "decide_permanent db data = Some en" "en_decision en = Allow"
  shows "\<exists>v\<in>set (vehicles db). ve_plate v = di_plate data \<and> ve_status v = Vehicle_active
    \<and> (right_by_rule db v data \<or> right_by_place db v data \<or> right_by_yard db v data)"
proof -
  obtain v where v: "vehicle_by_plate db (di_plate data) = Some v"
    using assms(1) by (auto simp: decide_permanent_def split: option.splits)
  have vp: "v \<in> set (vehicles db)" "ve_plate v = di_plate data" "ve_status v \<noteq> Vehicle_archived"
    using first_row_Some [OF v [unfolded vehicle_by_plate_def]] by auto
  have nb: "ve_status v \<noteq> Vehicle_blocked"
    using assms v by (auto simp: decide_permanent_def engine_defs)
  have "right_by_rule db v data \<or> right_by_place db v data \<or> right_by_yard db v data"
  proof (cases "zone_rule_matches db (ve_id v) (active_apartment_ids db (ve_id v) (di_captured_at data))
     (di_zone_id data) (di_direction data) (di_captured_at data)")
    case True
    then show ?thesis using rule_right by simp
  next
    case False
    obtain z where z: "first_row (\<lambda>z. Some (zn_id z) = di_zone_id data) (zones db) = Some z"
      using assms v nb False by (auto simp: decide_permanent_def Let_def engine_defs split: option.splits)
    have zp: "z \<in> set (zones db)" "Some (zn_id z) = di_zone_id data" using first_row_Some [OF z] by auto
    show ?thesis
      using assms v nb False z zp assigned_right [of db v data] shared_right [of db v data z]
      by (cases "zn_parking_type z") (auto simp: decide_permanent_def Let_def)
  qed
  moreover have "ve_status v = Vehicle_active" using nb vp(3) by (cases "ve_status v") auto
  ultimately show ?thesis using vp by blast
qed

text \<open>C7: the engine allows an entry only on a confident reading and on a right in the registry: a
  registered active vehicle of that plate with a rule, a free assigned place or a served shared
  yard within its limit, or, when no vehicle has that plate, a taxi pass of the plate with an
  entry left.\<close>

theorem entry_allowed_only_by_right:
  assumes "en_decision (decide_entry db data threshold) = Allow"
  shows "(\<forall>c. di_confidence data = Some c \<longrightarrow> threshold \<le> c)
    \<and> ((\<exists>v\<in>set (vehicles db). ve_plate v = di_plate data \<and> ve_status v = Vehicle_active
          \<and> (right_by_rule db v data \<or> right_by_place db v data \<or> right_by_yard db v data))
       \<or> ((\<forall>v\<in>set (vehicles db). ve_plate v = di_plate data \<longrightarrow> ve_status v = Vehicle_archived)
          \<and> right_by_taxi_pass db data))"
proof -
  have conf: "\<not> (case di_confidence data of None \<Rightarrow> False | Some c \<Rightarrow> c < threshold)"
    using assms by (auto simp: decide_entry_def engine_manual_review_def split: if_splits)
  then have "\<forall>c. di_confidence data = Some c \<longrightarrow> threshold \<le> c" by auto
  moreover have "(\<exists>v\<in>set (vehicles db). ve_plate v = di_plate data \<and> ve_status v = Vehicle_active
          \<and> (right_by_rule db v data \<or> right_by_place db v data \<or> right_by_yard db v data))
       \<or> ((\<forall>v\<in>set (vehicles db). ve_plate v = di_plate data \<longrightarrow> ve_status v = Vehicle_archived)
          \<and> right_by_taxi_pass db data)"
  proof (cases "decide_permanent db data")
    case None
    then have "vehicle_by_plate db (di_plate data) = None"
      by (auto simp: decide_permanent_def split: option.splits)
    then have "\<forall>v\<in>set (vehicles db). ve_plate v = di_plate data \<longrightarrow> ve_status v = Vehicle_archived"
      by (auto simp: vehicle_by_plate_def first_row_None)
    then show ?thesis using assms conf None taxi_right [of db data] by (simp add: decide_entry_def)
  next
    case (Some en)
    then show ?thesis using assms conf permanent_right [OF Some] by (simp add: decide_entry_def)
  qed
  ultimately show ?thesis by simp
qed

definition ex_entry :: "string \<Rightarrow> decision_input" where
  "ex_entry plate = \<lparr>di_zone_id = Some 1, di_plate = utext_of plate, di_direction = Entry,
     di_confidence = Some (9 / 10), di_captured_at = 500\<rparr>"

lemma entry_allowed_only_by_right_witness:
  "\<exists>v\<in>set (vehicles ex_adb). ve_plate v = utext_of ''A1'' \<and> ve_status v = Vehicle_active"
proof -
  have a: "en_decision (decide_entry ex_adb (ex_entry ''A1'') (7 / 10)) = Allow" by code_simp
  have p: "list_ex (\<lambda>v. ve_plate v = di_plate (ex_entry ''A1'') \<and> ve_status v \<noteq> Vehicle_archived)
      (vehicles ex_adb)" "di_plate (ex_entry ''A1'') = utext_of ''A1''"
    by code_simp+
  show ?thesis using entry_allowed_only_by_right [OF a] p by (auto simp: list_ex_iff)
qed

definition ex_used_pass :: access_pass where
  "ex_used_pass = (hd (passes ex_adb))\<lparr>pa_id := 8, pa_used_entries := 1, pa_status := Pass_used,
     pa_created_at := 10\<rparr>"

text \<open>A newer used taxi pass hides an older one with an entry left.\<close>

lemma newer_pass_hides_valid_one:
  "right_by_taxi_pass (ex_adb\<lparr>passes := passes ex_adb @ [ex_used_pass]\<rparr>) (ex_entry ''T3'')
   \<and> en_reason (decide_entry (ex_adb\<lparr>passes := passes ex_adb @ [ex_used_pass]\<rparr>) (ex_entry ''T3'') (7 / 10))
     = Some Pass_already_used"
proof
  have "list_ex (\<lambda>p. pa_pass_type p = Taxi \<and> pa_plate p = Some (di_plate (ex_entry ''T3''))
      \<and> (pa_status p = Pass_active \<or> pa_status p = Pass_used)
      \<and> (pa_zone_id p = None \<or> di_zone_id (ex_entry ''T3'') = None \<or> pa_zone_id p = di_zone_id (ex_entry ''T3''))
      \<and> within_window (di_captured_at (ex_entry ''T3'')) (pa_valid_from p) (pa_valid_until p)
      \<and> pa_used_entries p < pa_max_entries p) (passes (ex_adb\<lparr>passes := passes ex_adb @ [ex_used_pass]\<rparr>))"
    by code_simp
  then show "right_by_taxi_pass (ex_adb\<lparr>passes := passes ex_adb @ [ex_used_pass]\<rparr>) (ex_entry ''T3'')"
    by (simp add: right_by_taxi_pass_def list_ex_iff)
  show "en_reason (decide_entry (ex_adb\<lparr>passes := passes ex_adb @ [ex_used_pass]\<rparr>) (ex_entry ''T3'') (7 / 10))
      = Some Pass_already_used"
    by code_simp
qed

end
