(* ===== verification/AccessReviewTheorems.thy ===== *)
theory AccessReviewTheorems
  imports AccessExamples
begin

section \<open>Reviews\<close>

text \<open>
  A settled review stays settled and every later resolution is answered from it; an overdue review
  opens nothing; a pending one blocks a standalone opening; the expiry worker leaves none behind.
\<close>

subsection \<open>The history of an event\<close>

lemma prefix_filter: "prefix xs ys \<Longrightarrow> prefix (filter P xs) (filter P ys)"
  by (auto simp: prefix_def)

lemma grows_history: "grows db db' \<Longrightarrow> prefix (history db e) (history db' e)"
  by (simp add: grows_def history_def prefix_filter)

lemma settled_history_stays:
  assumes "grows db db'" "history_ok (history db' e)" "history db e = [d, d']"
  shows "history db' e = [d, d']"
proof -
  have "prefix [d, d'] (history db' e)" using grows_history [OF assms(1), of e] assms(3) by simp
  then obtain zs where "history db' e = d # d' # zs" by (auto simp: prefix_def)
  then show ?thesis using assms(2) by (cases zs) simp_all
qed

lemma latest_settled:
  assumes "decisions_ok db" "history db e = [d, d']"
  shows "latest_for_event db e = Some d'"
proof -
  have "ad_id d < ad_id d'" using history_sorted [OF assms(1), of e] assms(2) by simp
  moreover have "latest_for_event db e = least_row (\<lambda>d. - ad_id d) (history db e)"
    by (simp add: latest_for_event_def history_def)
  ultimately show ?thesis by (simp add: assms(2))
qed

lemma decided_event_has_lock:
  assumes "links_ok db" "d \<in> set (decisions db)" "ad_camera_event_id d = e"
  shows "lock_key_for_event db e \<noteq> None"
proof -
  have "e \<in> ce_id ` set (camera_events db)" using assms by (auto simp: links_ok_def)
  then have "camera_event_row db e \<noteq> None" by (auto simp: camera_event_row_def first_row_None)
  then show ?thesis
    by (auto simp: lock_key_for_event_def canonical_lock_key_def py_or_int_def split: option.splits)
qed

text \<open>A settled review is final.  In every later state its event has the same two decisions, and
  a further resolution, to open or to deny, by whomever, writes nothing and is answered with the
  decision that settled it.\<close>

theorem settled_review_is_final:
  assumes "reach acc_init (acc_step sha) db" "history db e = [d, d']"
    and "(acc_step sha)\<^sup>*\<^sup>* db db2"
    and "ra_event_id rargs = e" "ra_action rargs = Manual_open \<or> ra_action rargs = Deny_review"
  shows "history db2 e = [d, d'] \<and> resolve_event sha env db2 rargs = Inr (db2, replay_result db2 d')"
proof
  note inv = access.inv_reach [OF assms(1)]
  have inv2: "access_inv sha db2" using inv_run [OF inv assms(3)] by simp
  have "grows db db2" using run_persists [OF inv assms(3)] by (simp add: persists_def)
  moreover have ok: "decisions_ok db2" using inv2 by (simp add: access_inv_def)
  ultimately show h: "history db2 e = [d, d']"
    using settled_history_stays [OF _ _ assms(2)] by (simp add: decisions_ok_def)
  have l: "latest_for_event db2 (ra_event_id rargs) = Some d'"
    using latest_settled [OF ok h] assms(4) by simp
  have "history_ok [d, d']" using ok h unfolding decisions_ok_def by metis
  then have st: "settled_status (ad_status d')" by simp
  then have np: "ad_status d' \<noteq> Pending_review" by (auto simp: settled_status_def)
  have "d' \<in> set (history db2 e)" using h by simp
  then have k: "lock_key_for_event db2 (ra_event_id rargs) \<noteq> None"
    using decided_event_has_lock [of db2 d' e] inv2 assms(4) by (simp add: history_def access_inv_def)
  show "resolve_event sha env db2 rargs = Inr (db2, replay_result db2 d')"
    using assms(5) k l np
    by (auto simp: resolve_event_def overdue_def split: prod.split)
qed

lemma settled_review_is_final_witness:
  "resolve_event ex_sha (ex_env 9000 9) ex_db3 (ex_resolve\<lparr>ra_action := Deny_review\<rparr>)
     = Inr (ex_db3, replay_result ex_db3 ex_d3)"
proof -
  have h: "history ex_db3 2 = [ex_d2, ex_d3]" by code_simp
  show ?thesis
    using settled_review_is_final [OF ex_reach3 h rtranclp.rtrancl_refl,
        of "ex_resolve\<lparr>ra_action := Deny_review\<rparr>" "ex_env 9000 9"]
    by (simp add: ex_resolve_def)
qed

subsection \<open>Overdue reviews\<close>

text \<open>The operator comes too late: whatever the resolution of an overdue review asks for, the
  review expires, and no command is created and no opening recorded.\<close>

theorem overdue_review_never_opens:
  assumes "reach acc_init (acc_step sha) db"
    and "latest_for_event db (ra_event_id rargs) = Some current" "overdue (env_now env) current"
    and "ra_action rargs = Manual_open \<or> ra_action rargs = Deny_review"
  shows "\<exists>db' out new. resolve_event sha env db rargs = Inr (db', out) \<and> rr_status out = Expired
    \<and> rr_command_id out = None \<and> commands db' = commands db \<and> manual_openings db' = manual_openings db
    \<and> history db' (ra_event_id rargs) = [current, new] \<and> ad_status new = Expired"
proof -
  note inv = access.inv_reach [OF assms(1)]
  have ok: "decisions_ok db" using inv by (simp add: access_inv_def)
  note u = latest_unsuperseded [OF ok assms(2)]
  have h: "history db (ad_camera_event_id current) = [current]"
    using pending_history [OF u(1) overdue_pending [OF assms(3)]] ok by (simp add: decisions_ok_def)
  have k: "lock_key_for_event db (ra_event_id rargs) \<noteq> None"
    using decided_event_has_lock [of db current] inv u by (simp add: access_inv_def unsuperseded_def)
  obtain db1 new where t: "insert_transition sha db current Expired Manual_review None (env_now env) = (db1, new)"
    by (cases "insert_transition sha db current Expired Manual_review None (env_now env)")
  note f = insert_transition_tables [OF t]
  let ?b = "fst (barrier_and_controller_for_event db (ra_event_id rargs))"
  have r: "resolve_event sha env db rargs = Inr (expire_on_resolve sha env db rargs current ?b)"
    using assms(2-4) k by (auto simp: resolve_event_def split: prod.split)
  have "history db1 (ra_event_id rargs) = [current, new]"
    using h u(2) f by (simp add: history_def)
  then show ?thesis using f
    by (simp add: r expire_on_resolve_def t resolved_def insert_audit_def history_def)
qed

lemma overdue_review_never_opens_witness:
  "\<exists>db' out. resolve_event ex_sha (ex_env 200000000 3) ex_db2 ex_resolve = Inr (db', out)
     \<and> rr_status out = Expired \<and> commands db' = [ex_c1]"
proof -
  have l: "latest_for_event ex_db2 (ra_event_id ex_resolve) = Some ex_d2"
    "overdue (env_now (ex_env 200000000 3)) ex_d2" "ra_action ex_resolve = Manual_open"
    "commands ex_db2 = [ex_c1]"
    by code_simp+
  show ?thesis using overdue_review_never_opens [OF ex_reach2 l(1,2)] l(3,4) by auto
qed

subsection \<open>A pending review blocks a standalone opening\<close>

lemma expire_ids_Cons:
  "expire_ids sha now db (i # ids) = expire_ids sha now
     (case get_decision db i of
        None \<Rightarrow> db
      | Some current \<Rightarrow>
          if ad_status current \<noteq> Pending_review then db
          else fst (insert_transition sha db current Expired Manual_review None now)) ids"
  by (simp add: expire_ids_def)

text \<open>Expiring reviews of other events leaves an event's history, and all but the decisions.\<close>

lemma expire_ids_frame:
  assumes "\<forall>i\<in>set ids. \<exists>c. get_decision db i = Some c \<and> ad_camera_event_id c \<noteq> e"
  shows "history (expire_ids sha now db ids) e = history db e
    \<and> camera_events (expire_ids sha now db ids) = camera_events db
    \<and> barriers (expire_ids sha now db ids) = barriers db
    \<and> commands (expire_ids sha now db ids) = commands db
    \<and> manual_openings (expire_ids sha now db ids) = manual_openings db
    \<and> set (decisions db) \<subseteq> set (decisions (expire_ids sha now db ids))"
  using assms
proof (induction ids arbitrary: db)
  case (Cons i ids)
  obtain c where c: "get_decision db i = Some c" "ad_camera_event_id c \<noteq> e" using Cons.prems by auto
  show ?case
  proof (cases "ad_status c = Pending_review")
    case False
    then show ?thesis using Cons.IH [of db] Cons.prems c by (simp add: expire_ids_Cons)
  next
    case True
    obtain db1 new where t: "insert_transition sha db c Expired Manual_review None now = (db1, new)"
      by (cases "insert_transition sha db c Expired Manual_review None now")
    note f = insert_transition_tables [OF t]
    have "\<forall>i\<in>set ids. \<exists>c. get_decision db1 i = Some c \<and> ad_camera_event_id c \<noteq> e"
      using Cons.prems by (auto simp: get_decision_def f(1) first_row_append)
    from Cons.IH [OF this] show ?thesis
      using c True t f by (auto simp: expire_ids_Cons history_def)
  qed
qed (simp add: expire_ids_def)

lemma get_decision_member:
  assumes "decisions_ok db" "d \<in> set (decisions db)"
  shows "get_decision db (ad_id d) = Some d"
proof -
  obtain x where x: "get_decision db (ad_id d) = Some x"
    using assms(2) by (cases "get_decision db (ad_id d)") (auto simp: get_decision_def first_row_None)
  then have "x \<in> set (decisions db)" "ad_id x = ad_id d" using get_decision_Some by auto
  then have "x = d"
    using decision_ids_distinct [OF assms(1)] assms(2) inj_onD [of ad_id "set (decisions db)" x d]
    by (simp add: distinct_map)
  then show ?thesis using x by simp
qed

lemma pending_survives_lazy_expiry:
  fixes sha :: "utext \<Rightarrow> string" and b :: int
  assumes inv: "decisions_ok db"
    and d: "unsuperseded db d" "ad_status d = Pending_review" "\<not> overdue now d"
  defines "db1 \<equiv> lazy_expire_barrier_pending sha db b now"
  shows "history db1 (ad_camera_event_id d) = [d] \<and> d \<in> set (decisions db1)
    \<and> camera_events db1 = camera_events db \<and> barriers db1 = barriers db
    \<and> commands db1 = commands db \<and> manual_openings db1 = manual_openings db"
proof -
  have h: "history db (ad_camera_event_id d) = [d]"
    using pending_history [OF d(1,2)] inv by (simp add: decisions_ok_def)
  have "\<exists>c. get_decision db i = Some c \<and> ad_camera_event_id c \<noteq> ad_camera_event_id d"
    if i: "i \<in> set (expired_pending_ids_for_barrier db b now)" for i
  proof -
    obtain c where c: "c \<in> set (decisions db)" "ad_id c = i" "overdue now c"
      using i by (auto simp: expired_pending_ids_for_barrier_def)
    have "ad_camera_event_id c \<noteq> ad_camera_event_id d"
    proof
      assume "ad_camera_event_id c = ad_camera_event_id d"
      then have "c \<in> set (history db (ad_camera_event_id d))" using c(1) by (simp add: history_def)
      then show False using h c(3) d(3) by simp
    qed
    then show ?thesis using get_decision_member [OF inv c(1)] c(2) by auto
  qed
  then show ?thesis
    using expire_ids_frame [of "expired_pending_ids_for_barrier db b now" db "ad_camera_event_id d" sha now]
      h d(1) by (auto simp: db1_def lazy_expire_barrier_pending_def unsuperseded_def)
qed

text \<open>While a review at a barrier's gate is pending and its deadline has not passed, a standalone
  opening of that barrier is refused: no command, no manual opening.\<close>

theorem pending_review_blocks_opening:
  assumes "reach acc_init (acc_step sha) db"
    and "unsuperseded db d" "ad_status d = Pending_review" "\<not> overdue (env_now env) d"
    and "at_barrier db (ma_barrier_id margs) d"
  shows "\<exists>err db'. manual_open_barrier sha env db margs = Inl (err, db')
    \<and> commands db' = commands db \<and> manual_openings db' = manual_openings db"
proof -
  have ok: "decisions_ok db" using access.inv_reach [OF assms(1)] by (simp add: access_inv_def)
  let ?db1 = "lazy_expire_barrier_pending sha db (ma_barrier_id margs) (env_now env)"
  note s = pending_survives_lazy_expiry [OF ok assms(2-4), of sha "ma_barrier_id margs"]
  show ?thesis
  proof (cases rule: manual_open_cases [of sha env db margs])
    case (opened c db2 cmd)
    have "is_current ?db1 d"
    proof -
      have "ad_id x \<le> ad_id d" if "x \<in> set (decisions ?db1)" "ad_camera_event_id x = ad_camera_event_id d" for x
      proof -
        have "x \<in> set (history ?db1 (ad_camera_event_id d))" using that by (simp add: history_def)
        then show ?thesis using s by simp
      qed
      then show ?thesis by (simp add: is_current_def list_all_iff)
    qed
    moreover have "at_barrier ?db1 (ma_barrier_id margs) d" using assms(5) s by (simp add: at_barrier_def)
    moreover have "case ad_review_deadline d of None \<Rightarrow> True | Some t \<Rightarrow> env_now env \<le> t"
      using assms(3,4) by (auto simp: overdue_def split: option.splits)
    ultimately have "active_pending_event_for_barrier ?db1 (ma_barrier_id margs) (env_now env) \<noteq> None"
      using s assms(3) unfolding active_pending_event_for_barrier_def
      by (auto simp: filter_empty_conv)
    then show ?thesis using opened(2) by simp
  qed (use s in auto)
qed

definition ex_opening :: manual_open_args where
  "ex_opening = \<lparr>ma_barrier_id = 9, ma_operator = 2, ma_reason = utext_of ''guest'',
     ma_source = ''operator'', ma_ip = None\<rparr>"

lemma pending_review_blocks_opening_witness:
  "\<exists>err db'. manual_open_barrier ex_sha (ex_env 3000 3) ex_db2 ex_opening = Inl (err, db')
     \<and> manual_openings db' = []"
proof -
  have u: "list_ex (\<lambda>d. d = ex_d2) (decisions ex_db2)"
    "list_all (\<lambda>x. ad_supersedes x \<noteq> Some (ad_id ex_d2)) (decisions ex_db2)"
    by code_simp+
  then have u': "unsuperseded ex_db2 ex_d2" by (simp add: unsuperseded_def list_ex_iff)
  have p: "ad_status ex_d2 = Pending_review" "\<not> overdue (env_now (ex_env 3000 3)) ex_d2"
    "at_barrier ex_db2 (ma_barrier_id ex_opening) ex_d2" "manual_openings ex_db2 = []"
    by code_simp+
  show ?thesis using pending_review_blocks_opening [OF ex_reach2 u' p(1,2,3)] p(4) by auto
qed

subsection \<open>The expiry worker\<close>

text \<open>A review the worker has handled is not pending and current any more, and stays so: the rows
  written meanwhile are expiries.\<close>

definition handled :: "access_db \<Rightarrow> int \<Rightarrow> bool" where
  "handled db i \<longleftrightarrow>
     (\<forall>d\<in>set (decisions db). ad_id d = i \<longrightarrow> ad_status d \<noteq> Pending_review \<or> \<not> is_current db d)"

definition only_expired :: "access_db \<Rightarrow> access_db \<Rightarrow> nat \<Rightarrow> bool" where
  "only_expired db db' k \<longleftrightarrow>
     (\<exists>rows. decisions db' = decisions db @ rows \<and> length rows = k
        \<and> (\<forall>r\<in>set rows. ad_status r = Expired))
     \<and> camera_events db' = camera_events db \<and> commands db' = commands db"

lemma is_current_mono:
  "is_current db' d \<Longrightarrow> set (decisions db) \<subseteq> set (decisions db') \<Longrightarrow> is_current db d"
  by (auto simp: is_current_def list_all_iff)

lemma handled_mono: "handled db i \<Longrightarrow> only_expired db db' k \<Longrightarrow> handled db' i"
proof -
  assume h: "handled db i" and o: "only_expired db db' k"
  obtain rows where rows: "decisions db' = decisions db @ rows" "\<forall>r\<in>set rows. ad_status r = Expired"
    using o by (auto simp: only_expired_def)
  have "ad_status d \<noteq> Pending_review \<or> \<not> is_current db' d"
    if d: "d \<in> set (decisions db')" "ad_id d = i" for d
    using h d rows is_current_mono [of db' d db] by (auto simp: handled_def)
  then show ?thesis by (simp add: handled_def)
qed

lemma expire_one_handles:
  assumes ok: "decisions_ok db" and e: "expire_one sha now (db, n) due = (db', n')"
  shows "decisions_ok db' \<and> only_expired db db' (n' - n) \<and> n \<le> n' \<and> handled db' (fst due)"
proof -
  have w: "writes_to sha db db'" by (rule expire_one_writes [OF e])
  have ok': "decisions_ok db'"
    using w ok by (induction rule: rtranclp_induct) (auto intro: touch_decisions)
  have past: "handled db (fst due)" if n: "current_decision_if_pending db (fst due) = None"
  proof -
    have "ad_status d \<noteq> Pending_review \<or> \<not> is_current db d"
      if d: "d \<in> set (decisions db)" "ad_id d = fst due" for d
    proof (rule ccontr)
      assume c: "\<not> (ad_status d \<noteq> Pending_review \<or> \<not> is_current db d)"
      have g: "get_decision db (fst due) = Some d" using get_decision_member [OF ok d(1)] d(2) by simp
      then obtain x where x: "x \<in> set (decisions db)" "ad_supersedes x = Some (ad_id d)"
        using n c d(2) by (auto simp: current_decision_if_pending_def list_ex_iff split: if_splits)
      show False using current_unsuperseded [OF ok d(1)] c x by (auto simp: unsuperseded_def list_all_iff)
    qed
    then show ?thesis by (simp add: handled_def)
  qed
  show ?thesis
  proof (cases "current_decision_if_pending db (fst due)")
    case None
    then have "db' = db" "n' = n" using e by (simp_all add: expire_one_def)
    then show ?thesis using past [OF None] ok by (simp add: only_expired_def)
  next
    case (Some c)
    have c: "c \<in> set (decisions db)" "ad_id c = fst due"
      using Some get_decision_Some [of db "fst due" c]
      by (auto simp: current_decision_if_pending_def split: option.splits if_splits)
    obtain db1 new where t: "insert_transition sha db c Expired Manual_review None now = (db1, new)"
      by (cases "insert_transition sha db c Expired Manual_review None now")
    note f = insert_transition_tables [OF t]
    have r: "decisions db' = decisions db @ [new]" "n' = Suc n"
      "camera_events db' = camera_events db" "commands db' = commands db"
      using e f by (auto simp: expire_one_def Some t insert_audit_def)
    have "ad_id c < ad_id new" using c(1) f(9) by (auto intro: next_id_gt)
    then have "\<not> is_current db' c" using r(1) f(10) by (auto simp: is_current_def)
    moreover have "x = c" if "x \<in> set (decisions db)" "ad_id x = fst due" for x
      using that c decision_ids_distinct [OF ok] inj_onD [of ad_id "set (decisions db)" x c]
      by (simp add: distinct_map)
    ultimately have "handled db' (fst due)" using r(1) f(13) by (auto simp: handled_def)
    then show ?thesis using ok' r f(13) by (simp add: only_expired_def)
  qed
qed

lemma only_expired_trans:
  "only_expired a b j \<Longrightarrow> only_expired b c k \<Longrightarrow> only_expired a c (j + k)"
  by (auto simp: only_expired_def)

lemma expire_fold_handles:
  "decisions_ok db \<Longrightarrow> foldl (expire_one sha now) (db, n) dues = (db', n') \<Longrightarrow>
   decisions_ok db' \<and> only_expired db db' (n' - n) \<and> n \<le> n' \<and> (\<forall>due\<in>set dues. handled db' (fst due))"
proof (induction dues arbitrary: db n)
  case Nil
  then show ?case by (simp add: only_expired_def)
next
  case (Cons due dues)
  obtain db1 n1 where e: "expire_one sha now (db, n) due = (db1, n1)"
    by (cases "expire_one sha now (db, n) due")
  note o = expire_one_handles [OF Cons.prems(1) e]
  have r: "decisions_ok db' \<and> only_expired db1 db' (n' - n1) \<and> n1 \<le> n'
      \<and> (\<forall>due\<in>set dues. handled db' (fst due))"
    using Cons.IH [of db1 n1] Cons.prems(2) o e by simp
  have "only_expired db db' ((n1 - n) + (n' - n1))" using only_expired_trans o r by blast
  moreover have "handled db' (fst due)" using handled_mono o r by blast
  ultimately show ?case using o r by simp
qed

lemma due_reviews_complete:
  assumes "links_ok db" "d \<in> set (decisions db)" "overdue now d" "is_current db d"
  shows "ad_id d \<in> fst ` set (due_reviews db now)"
proof -
  obtain ce where ce: "ce \<in> set (camera_events db)" "ce_id ce = ad_camera_event_id d"
    using assms(1,2) by (auto simp: links_ok_def)
  define g where "g ce = (let bs = filter (\<lambda>b. ce_gate_id ce = Some (ba_gate_id b) \<and> ba_is_active b) (barriers db)
      in if bs = [] then [None] else map (Some \<circ> ba_id) bs)" for ce :: camera_event
  have "g ce \<noteq> []" by (simp add: g_def Let_def)
  moreover have "barriers_of_decision db d
      = concat (map g (filter (\<lambda>ce. ce_id ce = ad_camera_event_id d) (camera_events db)))"
    by (simp add: barriers_of_decision_def g_def [abs_def])
  ultimately have "barriers_of_decision db d \<noteq> []" using ce by auto
  then obtain b where "b \<in> set (barriers_of_decision db d)" by (cases "barriers_of_decision db d") auto
  then have "(ad_id d, b) \<in> set (due_reviews db now)" using assms by (auto simp: due_reviews_def)
  then show ?thesis by force
qed

text \<open>C40: one pass of the expiry worker settles every overdue review: afterwards no pending decision
  that is current is past its deadline; it wrote one expiry for each review it counts and no
  command, and a second pass at the same instant finds nothing to do.\<close>

theorem expiry_leaves_no_overdue_review:
  assumes "reach acc_init (acc_step sha) db"
  shows "\<exists>db' n. expire_due_reviews sha db now = (db', n)
    \<and> filter (\<lambda>d. overdue now d \<and> is_current db' d) (decisions db') = []
    \<and> length (decisions db') = length (decisions db) + n \<and> commands db' = commands db
    \<and> expire_due_reviews sha db' now = (db', 0)"
proof -
  note inv = access.inv_reach [OF assms]
  have ok: "decisions_ok db" and links: "links_ok db" using inv by (simp_all add: access_inv_def)
  obtain db' n where e: "expire_due_reviews sha db now = (db', n)" by (cases "expire_due_reviews sha db now")
  have f: "decisions_ok db'" "only_expired db db' n" "\<forall>due\<in>set (due_reviews db now). handled db' (fst due)"
    using expire_fold_handles [OF ok, of sha now 0 "due_reviews db now" db' n] e
    by (simp_all add: expire_due_reviews_def)
  obtain rows where rows: "decisions db' = decisions db @ rows" "length rows = n"
    "\<forall>r\<in>set rows. ad_status r = Expired" "commands db' = commands db"
    using f(2) by (auto simp: only_expired_def)
  have "\<not> (overdue now d \<and> is_current db' d)" if d: "d \<in> set (decisions db')" for d
  proof
    assume a: "overdue now d \<and> is_current db' d"
    have old: "d \<in> set (decisions db)" using d a rows by (auto simp: overdue_def)
    have "is_current db d" using a is_current_mono [of db' d db] rows(1) by simp
    then have "ad_id d \<in> fst ` set (due_reviews db now)"
      using due_reviews_complete [OF links old] a by simp
    then have "handled db' (ad_id d)" using f(3) by force
    then show False using d a by (auto simp: handled_def overdue_def)
  qed
  then have none: "filter (\<lambda>d. overdue now d \<and> is_current db' d) (decisions db') = []"
    by (auto simp: filter_empty_conv)
  then have "due_reviews db' now = []" by (simp add: due_reviews_def)
  then have "expire_due_reviews sha db' now = (db', 0)" by (simp add: expire_due_reviews_def)
  then show ?thesis using e none rows by auto
qed

lemma expiry_leaves_no_overdue_review_witness:
  "\<exists>db' n. expire_due_reviews ex_sha ex_db2 200000000 = (db', n) \<and> commands db' = [ex_c1]
     \<and> filter (\<lambda>d. overdue 200000000 d \<and> is_current db' d) (decisions db') = []
     \<and> filter (\<lambda>d. overdue 200000000 d \<and> is_current ex_db2 d) (decisions ex_db2) = [ex_d2]"
proof -
  have "commands ex_db2 = [ex_c1]"
    "filter (\<lambda>d. overdue 200000000 d \<and> is_current ex_db2 d) (decisions ex_db2) = [ex_d2]"
    by code_simp+
  then show ?thesis using expiry_leaves_no_overdue_review [OF ex_reach2, of 200000000] by auto
qed

end
