(* ===== verification/DeviceAuth.thy ===== *)
theory DeviceAuth
  imports AccessRepos PlateNormalization "HOL-Library.Word" "HOL-Library.AList"
begin

section \<open>Device authentication\<close>

text \<open>
  \<open>access_control/services/device_auth.py\<close>: what an edge request must carry before any endpoint
  sees it.  SHA-256, HMAC-SHA256, the process environment and the membership test of the
  \<open>ipaddress\<close> module come in one record \<open>runtime\<close>; bytes are 8-bit words.  Header values are
  Latin-1 text, as the server decodes them, and a path is a list of code points.  \<open>authenticate\<close>
  takes the nonce store's \<open>seen\<close> as an argument, as the code takes any object with that method.
\<close>

type_synonym byte = "8 word"

record runtime =
  rt_sha256 :: "byte list \<Rightarrow> byte list"
  rt_hmac :: "byte list \<Rightarrow> byte list \<Rightarrow> byte list"
  rt_env :: "string \<Rightarrow> string option"
  rt_ip_in_network :: "string \<Rightarrow> string \<Rightarrow> bool option"

text \<open>An uncaught Python exception ends as an answer 500.\<close>

datatype auth_fault = Device_auth_error int string | Raised_type_error | Raised_runtime_error

datatype http_fault = Http int string | Server_error

subsection \<open>Bytes and texts\<close>

definition hex_digit :: "nat \<Rightarrow> char" where
  "hex_digit d = char_of (if d < 10 then 48 + d else 87 + d)"

definition hexdigest :: "byte list \<Rightarrow> string" where
  "hexdigest bs = concat (map (\<lambda>b. [hex_digit (unat b div 16), hex_digit (unat b mod 16)]) bs)"

text \<open>\<open>str.encode("utf-8")\<close>.\<close>

definition utf8_code :: "int \<Rightarrow> int list" where
  "utf8_code c =
     (if c < 128 then [c]
      else if c < 2048 then [192 + c div 64, 128 + c mod 64]
      else if c < 65536 then [224 + c div 4096, 128 + c div 64 mod 64, 128 + c mod 64]
      else [240 + c div 262144, 128 + c div 4096 mod 64, 128 + c div 64 mod 64, 128 + c mod 64])"

definition utf8 :: "utext \<Rightarrow> byte list" where
  "utf8 s = map word_of_int (concat (map utf8_code s))"

text \<open>\<open>int(text)\<close>: white space around, one sign, digits with single underscores between them, at
  most \<open>int_max_str_digits\<close> digits, Python's default limit.  \<open>None\<close> is \<open>ValueError\<close>.\<close>

definition int_space :: "char \<Rightarrow> bool" where
  "int_space c \<longleftrightarrow> (of_char c :: nat) \<in> {9, 10, 11, 12, 13, 32, 133, 160}"

definition int_max_str_digits :: nat where "int_max_str_digits = 4300"

definition int_digits :: "string \<Rightarrow> int option" where
  "int_digits body =
     (let parts = py_split CHR ''_'' body; ds = concat parts
      in if list_all (\<lambda>w. w \<noteq> [] \<and> list_all is_digit w) parts \<and> length ds \<le> int_max_str_digits
         then Some (digits_val ds) else None)"

definition py_int :: "string \<Rightarrow> int option" where
  "py_int s =
     (case rev (dropWhile int_space (rev (dropWhile int_space s))) of
        [] \<Rightarrow> None
      | c # body \<Rightarrow>
          if c = CHR ''-'' then map_option uminus (int_digits body)
          else if c = CHR ''+'' then int_digits body
          else int_digits (c # body))"

text \<open>\<open>hmac.compare_digest\<close> on texts raises \<open>TypeError\<close> when one is not ASCII.\<close>

definition ascii_text :: "string \<Rightarrow> bool" where
  "ascii_text s \<longleftrightarrow> list_all (\<lambda>c. (of_char c :: nat) < 128) s"

definition compare_digest :: "string \<Rightarrow> string \<Rightarrow> auth_fault + bool" where
  "compare_digest a b = (if ascii_text a \<and> ascii_text b then Inr (a = b) else Inl Raised_type_error)"

subsection \<open>Hashes, secrets and signatures\<close>

definition default_timestamp_window_seconds :: int where "default_timestamp_window_seconds = 300"
definition default_nonce_ttl_seconds :: int where "default_nonce_ttl_seconds = 600"
definition max_edge_body_bytes :: int where "max_edge_body_bytes = 10 * 1024 * 1024"

definition hash_api_key :: "runtime \<Rightarrow> string \<Rightarrow> string" where
  "hash_api_key rt api_key = hexdigest (rt_sha256 rt (utf8 (utext_of api_key)))"

definition hmac_seed :: "runtime \<Rightarrow> auth_fault + string" where
  "hmac_seed rt =
     (case rt_env rt ''ACCESS_DEVICE_HMAC_SEED'' of
        Some seed \<Rightarrow> if seed = [] then Inl Raised_runtime_error else Inr seed
      | None \<Rightarrow> Inl Raised_runtime_error)"

definition resolve_device_secret :: "runtime \<Rightarrow> string \<Rightarrow> auth_fault + byte list" where
  "resolve_device_secret rt ref =
     (let override = rt_env rt (''ACCESS_DEVICE_SECRET__'' @ ref)
      in if py_truthy_str override then Inr (utf8 (utext_of (the override)))
         else res_bind (hmac_seed rt)
                (\<lambda>seed. Inr (rt_sha256 rt (utf8 (utext_of (seed @ '':'' @ ref))))))"

definition body_hash :: "runtime \<Rightarrow> byte list \<Rightarrow> string" where
  "body_hash rt body = hexdigest (rt_sha256 rt body)"

text \<open>The five lines of the signed text; the code point 10 is the line feed.\<close>

definition canonical_string ::
    "runtime \<Rightarrow> string \<Rightarrow> utext \<Rightarrow> int \<Rightarrow> string \<Rightarrow> byte list \<Rightarrow> utext" where
  "canonical_string rt method path timestamp nonce body =
     concat (map upper_point (utext_of method)) @ 10 # path @ 10 # utext_of (int_str timestamp)
       @ 10 # utext_of nonce @ 10 # utext_of (body_hash rt body)"

definition compute_signature :: "runtime \<Rightarrow> byte list \<Rightarrow> utext \<Rightarrow> string" where
  "compute_signature rt secret canonical = hexdigest (rt_hmac rt secret (utf8 canonical))"

text \<open>\<open>sign_request\<close> builds the headers; \<open>wall\<close> is the clock and \<open>uuid\<close> the random nonce, used when
  none is given.\<close>

definition sign_request ::
    "runtime \<Rightarrow> instant \<Rightarrow> string \<Rightarrow> string \<Rightarrow> utext \<Rightarrow> byte list \<Rightarrow> string \<Rightarrow> string \<Rightarrow> byte list
     \<Rightarrow> int option \<Rightarrow> string option \<Rightarrow> string \<Rightarrow> string option" where
  "sign_request rt wall uuid method path body controller_uid api_key secret timestamp nonce =
     (let ts = (case timestamp of None \<Rightarrow> wall div seconds 1 | Some t \<Rightarrow> t);
          nc = (if py_truthy_str nonce then the nonce else uuid)
      in map_of [(''x-ac-controller'', controller_uid), (''x-ac-key'', api_key),
                 (''x-ac-timestamp'', int_str ts), (''x-ac-nonce'', nc),
                 (''x-ac-signature'',
                    compute_signature rt secret (canonical_string rt method path ts nc body))])"

subsection \<open>Nonce stores\<close>

text \<open>The in-memory store is a dictionary from keys to the instants of the monotonic clock until
  which they count; it is swept of the dead entries when it holds more than 4096.\<close>

type_synonym memory_store = "(string \<times> instant) list"

definition memory_seen :: "instant \<Rightarrow> memory_store \<Rightarrow> string \<Rightarrow> int \<Rightarrow> memory_store \<times> bool" where
  "memory_seen now st key ttl =
     (let swept = (if 4096 < length st then filter (\<lambda>(k, v). now < v) st else st);
          live = (case map_of swept key of None \<Rightarrow> False | Some expires \<Rightarrow> now < expires)
      in if live then (swept, True) else (AList.update key (now + seconds ttl) swept, False))"

text \<open>Redis: \<open>SET NX EX\<close> sets a key that is absent or expired, and reports whether it did.\<close>

type_synonym redis_store = "string \<Rightarrow> instant option"

definition set_nx_ex :: "instant \<Rightarrow> redis_store \<Rightarrow> string \<Rightarrow> int \<Rightarrow> redis_store \<times> bool" where
  "set_nx_ex now st key ttl =
     (case st key of
        Some expires \<Rightarrow> if now < expires then (st, False) else (st(key \<mapsto> now + seconds ttl), True)
      | None \<Rightarrow> (st(key \<mapsto> now + seconds ttl), True))"

definition redis_key :: "string \<Rightarrow> string" where
  "redis_key key = ''ac:nonce:'' @ key"

definition redis_seen :: "instant \<Rightarrow> redis_store \<Rightarrow> string \<Rightarrow> int \<Rightarrow> redis_store \<times> bool" where
  "redis_seen now st key ttl =
     (let (st', was_set) = set_nx_ex now st (redis_key key) ttl in (st', \<not> was_set))"

text \<open>The process's store is one of the two.\<close>

datatype nonce_store = Memory_store memory_store | Redis_store redis_store

definition store_seen :: "instant \<Rightarrow> nonce_store \<Rightarrow> string \<Rightarrow> int \<Rightarrow> nonce_store \<times> bool" where
  "store_seen now st key ttl =
     (case st of
        Memory_store m \<Rightarrow> map_prod Memory_store id (memory_seen now m key ttl)
      | Redis_store r \<Rightarrow> map_prod Redis_store id (redis_seen now r key ttl))"

text \<open>\<open>get_nonce_store\<close>: \<open>pinged\<close> is the state of a Redis that answers the ping.  Without one the
  call raises \<open>RuntimeError\<close>; it does not fall back on memory.\<close>

definition get_nonce_store ::
    "runtime \<Rightarrow> bool \<Rightarrow> redis_store option \<Rightarrow> nonce_store option \<Rightarrow> auth_fault + nonce_store" where
  "get_nonce_store rt debug pinged cached =
     (case cached of
        Some st \<Rightarrow> Inr st
      | None \<Rightarrow>
          let backend = (case rt_env rt ''ACCESS_NONCE_BACKEND'' of
                           None \<Rightarrow> if debug then ''memory'' else ''redis''
                         | Some b \<Rightarrow> b)
          in if py_lower backend = ''redis''
             then (case pinged of None \<Rightarrow> Inl Raised_runtime_error | Some r \<Rightarrow> Inr (Redis_store r))
             else Inr (Memory_store []))"

subsection \<open>The client's address\<close>

definition trusted_proxies :: "runtime \<Rightarrow> string list" where
  "trusted_proxies rt =
     (let raw = (case rt_env rt ''ACCESS_TRUSTED_PROXIES'' of None \<Rightarrow> [] | Some r \<Rightarrow> r)
      in filter (\<lambda>x. x \<noteq> []) (map py_strip (py_split CHR '','' raw)))"

definition resolve_client_ip ::
    "runtime \<Rightarrow> string option \<Rightarrow> (string \<Rightarrow> string option) \<Rightarrow> string option" where
  "resolve_client_ip rt direct headers =
     (case direct of
        None \<Rightarrow> None
      | Some host \<Rightarrow>
          if host \<in> set (trusted_proxies rt) then
            (let xff = headers ''x-forwarded-for''; xri = headers ''x-real-ip''
             in if py_truthy_str xff then Some (py_strip (hd (py_split CHR '','' (the xff))))
                else if py_truthy_str xri then Some (py_strip (the xri))
                else direct)
          else direct)"

text \<open>An entry is an address or a network; what \<open>ipaddress\<close> cannot parse matches nothing.\<close>

definition ip_entry_matches :: "runtime \<Rightarrow> string option \<Rightarrow> string \<Rightarrow> bool" where
  "ip_entry_matches rt client_ip entry =
     (case client_ip of
        None \<Rightarrow> False
      | Some ip \<Rightarrow> if ip = entry then True
                   else (case rt_ip_in_network rt ip entry of None \<Rightarrow> False | Some b \<Rightarrow> b))"

fun falsy_json :: "jval \<Rightarrow> bool" where
  "falsy_json (JScalar JNull) = True"
| "falsy_json (JScalar (JBool b)) = (\<not> b)"
| "falsy_json (JScalar (JInt i)) = (i = 0)"
| "falsy_json (JScalar (JStr s)) = (s = [])"
| "falsy_json (JList vs) = (vs = [])"

definition allowlist_entries :: "jval \<Rightarrow> string list" where
  "allowlist_entries allowlist =
     filter (\<lambda>x. x \<noteq> [])
       (map py_strip (case allowlist of
          JList vs \<Rightarrow> map py_str vs
        | JScalar v \<Rightarrow> py_split CHR '','' (py_str v)))"

definition client_ip_allowed :: "runtime \<Rightarrow> edge_controller \<Rightarrow> string option \<Rightarrow> bool" where
  "client_ip_allowed rt controller client_ip =
     (if falsy_json (ec_ip_allowlist controller) then True
      else list_ex (ip_entry_matches rt client_ip) (allowlist_entries (ec_ip_allowlist controller)))"

subsection \<open>Authentication of a request\<close>

record credentials =
  cr_controller_uid :: string
  cr_api_key :: string
  cr_timestamp :: string
  cr_nonce :: string
  cr_signature :: string

definition header_or_empty :: "(string \<Rightarrow> string option) \<Rightarrow> string \<Rightarrow> string" where
  "header_or_empty headers name = (case headers name of None \<Rightarrow> [] | Some v \<Rightarrow> v)"

text \<open>The five headers; an absent one and an empty one count alike.\<close>

definition credentials_of :: "(string \<Rightarrow> string option) \<Rightarrow> credentials" where
  "credentials_of headers =
     \<lparr>cr_controller_uid = header_or_empty headers ''x-ac-controller'',
      cr_api_key = header_or_empty headers ''x-ac-key'',
      cr_timestamp = header_or_empty headers ''x-ac-timestamp'',
      cr_nonce = header_or_empty headers ''x-ac-nonce'',
      cr_signature = header_or_empty headers ''x-ac-signature''\<rparr>"

definition all_present :: "credentials \<Rightarrow> bool" where
  "all_present cr \<longleftrightarrow>
     cr_controller_uid cr \<noteq> [] \<and> cr_api_key cr \<noteq> [] \<and> cr_timestamp cr \<noteq> [] \<and> cr_nonce cr \<noteq> []
     \<and> cr_signature cr \<noteq> []"

definition unauthorized :: auth_fault where
  "unauthorized = Device_auth_error 401 ''unauthorized''"

definition active_controller :: "access_db \<Rightarrow> string \<Rightarrow> edge_controller option" where
  "active_controller db uid =
     first_row (\<lambda>r. ec_uid r = uid \<and> ec_is_active r \<and> ec_status r = Controller_active) (controllers db)"

text \<open>The checks before the nonce, in their order; \<open>wall\<close> is \<open>time.time()\<close>.\<close>

definition check_credentials ::
    "runtime \<Rightarrow> access_db \<Rightarrow> instant \<Rightarrow> int \<Rightarrow> string \<Rightarrow> utext \<Rightarrow> byte list \<Rightarrow> credentials
     \<Rightarrow> string option \<Rightarrow> auth_fault + edge_controller" where
  "check_credentials rt db wall window method path body cr client_ip =
     (if \<not> all_present cr then Inl (Device_auth_error 401 ''missing device credentials'')
      else case active_controller db (cr_controller_uid cr) of
        None \<Rightarrow> Inl unauthorized
      | Some controller \<Rightarrow>
          if \<not> client_ip_allowed rt controller client_ip
          then Inl (Device_auth_error 403 ''client ip not allowed'')
          else
     res_bind (compare_digest (hash_api_key rt (cr_api_key cr)) (ec_api_key_hash controller))
       (\<lambda>key_ok. if \<not> key_ok then Inl unauthorized
        else case py_int (cr_timestamp cr) of
          None \<Rightarrow> Inl unauthorized
        | Some ts \<Rightarrow>
            if window < \<bar>wall div seconds 1 - ts\<bar> then Inl unauthorized
            else
     res_bind (resolve_device_secret rt (ec_uid controller))
       (\<lambda>secret.
     res_bind (compare_digest
         (compute_signature rt secret (canonical_string rt method path ts (cr_nonce cr) body))
         (cr_signature cr))
       (\<lambda>sig_ok. if \<not> sig_ok then Inl unauthorized else Inr controller))))"

text \<open>The nonce is spent last; \<open>ticks\<close> is the store's clock.\<close>

definition nonce_key :: "credentials \<Rightarrow> string" where
  "nonce_key cr = cr_controller_uid cr @ '':'' @ cr_nonce cr"

definition authenticate ::
    "(instant \<Rightarrow> 's \<Rightarrow> string \<Rightarrow> int \<Rightarrow> 's \<times> bool) \<Rightarrow> runtime \<Rightarrow> access_db \<Rightarrow> instant \<Rightarrow> instant
     \<Rightarrow> int \<Rightarrow> int \<Rightarrow> string \<Rightarrow> utext \<Rightarrow> byte list \<Rightarrow> (string \<Rightarrow> string option) \<Rightarrow> string option \<Rightarrow> 's
     \<Rightarrow> 's \<times> (auth_fault + edge_controller)" where
  "authenticate seen rt db wall ticks window ttl method path body headers client_ip store =
     (let cr = credentials_of headers
      in case check_credentials rt db wall window method path body cr client_ip of
           Inl f \<Rightarrow> (store, Inl f)
         | Inr controller \<Rightarrow>
             (case seen ticks store (nonce_key cr) ttl of
                (store', True) \<Rightarrow> (store', Inl unauthorized)
              | (store', False) \<Rightarrow> (store', Inr controller)))"

subsection \<open>The request's body and the endpoint's dependency\<close>

record edge_request =
  rq_method :: string
  rq_path :: utext
  rq_headers :: "string \<Rightarrow> string option"
  rq_client_host :: "string option"
  rq_chunks :: "byte list list"
  rq_controller_id :: "string option"

text \<open>The loop over the stream; \<open>body\<close> is what was read so far.\<close>

fun read_chunks :: "int \<Rightarrow> byte list \<Rightarrow> byte list list \<Rightarrow> http_fault + byte list" where
  "read_chunks cap body [] = Inr body"
| "read_chunks cap body (chunk # chunks) =
     (if cap < int (length body + length chunk) then Inl (Http 413 ''request body too large'')
      else read_chunks cap (body @ chunk) chunks)"

definition read_body_capped ::
    "int \<Rightarrow> (string \<Rightarrow> string option) \<Rightarrow> byte list list \<Rightarrow> http_fault + byte list" where
  "read_body_capped cap headers chunks =
     (case headers ''content-length'' of
        None \<Rightarrow> read_chunks cap [] chunks
      | Some declared \<Rightarrow>
          (case py_int declared of
             None \<Rightarrow> Inl (Http 400 ''invalid content-length'')
           | Some n \<Rightarrow>
               if cap < n then Inl (Http 413 ''request body too large'')
               else res_bind (read_chunks cap [] chunks)
                 (\<lambda>body. if int (length body) \<noteq> n then Inl (Http 400 ''content-length mismatch'')
                   else Inr body)))"

definition http_of_auth :: "auth_fault \<Rightarrow> http_fault" where
  "http_of_auth f = (case f of Device_auth_error code detail \<Rightarrow> Http code detail | _ \<Rightarrow> Server_error)"

definition authenticate_edge ::
    "(instant \<Rightarrow> 's \<Rightarrow> string \<Rightarrow> int \<Rightarrow> 's \<times> bool) \<Rightarrow> runtime \<Rightarrow> access_db \<Rightarrow> instant \<Rightarrow> instant
     \<Rightarrow> edge_request \<Rightarrow> 's \<Rightarrow> 's \<times> (http_fault + (edge_controller \<times> byte list))" where
  "authenticate_edge seen rt db wall ticks rq store =
     (case read_body_capped max_edge_body_bytes (rq_headers rq) (rq_chunks rq) of
        Inl f \<Rightarrow> (store, Inl f)
      | Inr body \<Rightarrow>
          (case authenticate seen rt db wall ticks default_timestamp_window_seconds
                  default_nonce_ttl_seconds (rq_method rq) (rq_path rq) body (rq_headers rq)
                  (resolve_client_ip rt (rq_client_host rq) (rq_headers rq)) store of
             (store', Inl f) \<Rightarrow> (store', Inl (http_of_auth f))
           | (store', Inr controller) \<Rightarrow>
               (case rq_controller_id rq of
                  None \<Rightarrow> (store', Inr (controller, body))
                | Some uid \<Rightarrow>
                    if uid \<noteq> ec_uid controller
                    then (store', Inl (Http 403 ''controller path mismatch''))
                    else (store', Inr (controller, body)))))"

text \<open>Requests one after another, each with the database and the clocks of its moment.\<close>

fun serve_edge ::
    "(instant \<Rightarrow> 's \<Rightarrow> string \<Rightarrow> int \<Rightarrow> 's \<times> bool) \<Rightarrow> runtime \<Rightarrow> 's
     \<Rightarrow> (access_db \<times> instant \<times> instant \<times> edge_request) list \<Rightarrow> 's" where
  "serve_edge seen rt store [] = store"
| "serve_edge seen rt store ((db, wall, ticks, rq) # rest) =
     serve_edge seen rt (fst (authenticate_edge seen rt db wall ticks rq store)) rest"

subsection \<open>What an accepted request has shown\<close>

lemma check_credentials_accepts:
  assumes "check_credentials rt db wall window method path body cr ip = Inr c"
  shows "all_present cr" "active_controller db (cr_controller_uid cr) = Some c"
    and "client_ip_allowed rt c ip" "hash_api_key rt (cr_api_key cr) = ec_api_key_hash c"
    and "\<exists>ts secret. py_int (cr_timestamp cr) = Some ts \<and> \<bar>wall div seconds 1 - ts\<bar> \<le> window
      \<and> resolve_device_secret rt (ec_uid c) = Inr secret
      \<and> cr_signature cr
          = compute_signature rt secret (canonical_string rt method path ts (cr_nonce cr) body)"
  using assms
  by (auto simp: check_credentials_def compare_digest_def res_bind_def
      split: if_splits option.splits sum.splits)

lemma check_credentials_other_clock:
  assumes "check_credentials rt db wall window method path body cr ip = Inr c"
    and "py_int (cr_timestamp cr) = Some ts" "\<bar>wall' div seconds 1 - ts\<bar> \<le> window"
  shows "check_credentials rt db wall' window method path body cr ip = Inr c"
  using assms
  by (auto simp: check_credentials_def res_bind_def split: if_splits option.splits sum.splits)

lemma authenticate_cases:
  obtains (refused) f where "check_credentials rt db wall window method path body (credentials_of headers) ip = Inl f"
      "authenticate seen rt db wall ticks window ttl method path body headers ip st = (st, Inl f)"
  | (replayed) st' where "seen ticks st (nonce_key (credentials_of headers)) ttl = (st', True)"
      "authenticate seen rt db wall ticks window ttl method path body headers ip st = (st', Inl unauthorized)"
  | (accepted) st' c where "check_credentials rt db wall window method path body (credentials_of headers) ip = Inr c"
      "seen ticks st (nonce_key (credentials_of headers)) ttl = (st', False)"
      "authenticate seen rt db wall ticks window ttl method path body headers ip st = (st', Inr c)"
proof (cases "check_credentials rt db wall window method path body (credentials_of headers) ip")
  case (Inl f)
  then show ?thesis using refused by (simp add: authenticate_def)
next
  case (Inr c)
  obtain st' b where s: "seen ticks st (nonce_key (credentials_of headers)) ttl = (st', b)"
    by (cases "seen ticks st (nonce_key (credentials_of headers)) ttl")
  show ?thesis using replayed accepted s Inr by (cases b) (simp_all add: authenticate_def)
qed

lemma authenticate_edge_store:
  "fst (authenticate_edge seen rt db wall ticks rq st) = st
   \<or> fst (authenticate_edge seen rt db wall ticks rq st)
       = fst (seen ticks st (nonce_key (credentials_of (rq_headers rq))) default_nonce_ttl_seconds)"
proof (cases "read_body_capped max_edge_body_bytes (rq_headers rq) (rq_chunks rq)")
  case (Inr body)
  show ?thesis
    by (cases rule: authenticate_cases [of rt db wall default_timestamp_window_seconds "rq_method rq"
          "rq_path rq" body "rq_headers rq" "resolve_client_ip rt (rq_client_host rq) (rq_headers rq)"
          seen ticks default_nonce_ttl_seconds st])
       (simp_all add: authenticate_edge_def Inr split: option.split)
qed (simp add: authenticate_edge_def)

lemma authenticate_edge_accepts:
  assumes "authenticate_edge seen rt db wall ticks rq st = (st', Inr (c, body))"
  shows "read_body_capped max_edge_body_bytes (rq_headers rq) (rq_chunks rq) = Inr body"
    and "check_credentials rt db wall default_timestamp_window_seconds (rq_method rq) (rq_path rq) body
      (credentials_of (rq_headers rq)) (resolve_client_ip rt (rq_client_host rq) (rq_headers rq)) = Inr c"
    and "seen ticks st (nonce_key (credentials_of (rq_headers rq))) default_nonce_ttl_seconds = (st', False)"
    and "\<forall>uid. rq_controller_id rq = Some uid \<longrightarrow> uid = ec_uid c"
  using assms
  by (auto simp: authenticate_edge_def authenticate_def Let_def
      split: sum.splits prod.splits option.splits bool.splits if_splits)

end
