(* ===== verification/NonceStores.thy ===== *)
theory NonceStores
  imports DeviceAuth
begin

section \<open>Nonce stores behind one interface\<close>

text \<open>
  \<open>NonceStore\<close>, the protocol of \<open>device_auth.py\<close>, as a locale: \<open>live st k\<close> is the instant until
  which the key \<open>k\<close> counts as seen.  A key that is live is refused and stays live; a key that is
  not refused is live afterwards for its whole time; a key never seen, or seen too long ago, is not
  refused; and a refusal adds nothing.  \<open>wf\<close> is what the representation keeps, for a dictionary that
  its keys are distinct.  The in-memory store, Redis and the process's choice of the two are its
  instances.
\<close>

locale replay_guard =
  fixes seen :: "instant \<Rightarrow> 's \<Rightarrow> string \<Rightarrow> int \<Rightarrow> 's \<times> bool"
    and live :: "'s \<Rightarrow> string \<Rightarrow> instant option"
    and wf :: "'s \<Rightarrow> bool"
  assumes refused: "live st k = Some e \<Longrightarrow> now < e \<Longrightarrow> snd (seen now st k ttl)"
    and noted: "\<not> snd (seen now st k ttl) \<Longrightarrow> live (fst (seen now st k ttl)) k = Some (now + seconds ttl)"
    and kept: "live st k = Some e \<Longrightarrow> now < e \<Longrightarrow> live (fst (seen now st j ttl)) k = Some e"
    and fresh: "live st k = None \<Longrightarrow> \<not> snd (seen now st k ttl)"
    and expired: "wf st \<Longrightarrow> live st k = Some e \<Longrightarrow> e \<le> now \<Longrightarrow> \<not> snd (seen now st k ttl)"
    and refusal_adds_nothing: "wf st \<Longrightarrow> snd (seen now st k ttl) \<Longrightarrow>
      live (fst (seen now st k ttl)) j = Some e \<Longrightarrow> live st j = Some e"
    and wf_seen: "wf st \<Longrightarrow> wf (fst (seen now st k ttl))"
begin

text \<open>One request, whatever its outcome, keeps the live keys.\<close>

lemma authenticate_edge_keeps:
  assumes "live st k = Some e" "ticks < e"
  shows "live (fst (authenticate_edge seen rt db wall ticks rq st)) k = Some e"
  using authenticate_edge_store [of seen rt db wall ticks rq st] kept [OF assms] assms(1) by auto

lemma serve_keeps:
  assumes "live st k = Some e" "list_all (\<lambda>(db, wall, ticks, rq). ticks < e) xs"
  shows "live (serve_edge seen rt st xs) k = Some e"
  using assms
proof (induction xs arbitrary: st)
  case (Cons x xs)
  obtain db wall ticks rq where x: "x = (db, wall, ticks, rq)" by (metis surj_pair)
  have "live (fst (authenticate_edge seen rt db wall ticks rq st)) k = Some e"
    using authenticate_edge_keeps Cons.prems x by simp
  from Cons.IH [OF this] Cons.prems show ?case by (simp add: x)
qed simp

text \<open>An accepted request leaves its nonce live; a request with a live nonce is not accepted.\<close>

lemma accepted_nonce_live:
  assumes "authenticate_edge seen rt db wall ticks rq st = (st', Inr (c, body))"
  shows "live st' (nonce_key (credentials_of (rq_headers rq)))
    = Some (ticks + seconds default_nonce_ttl_seconds)"
  using noted [of ticks st "nonce_key (credentials_of (rq_headers rq))" default_nonce_ttl_seconds]
    authenticate_edge_accepts(3) [OF assms] by simp

lemma live_nonce_refused:
  assumes "live st (nonce_key (credentials_of (rq_headers rq))) = Some e" "ticks < e"
  shows "\<exists>f. snd (authenticate_edge seen rt db wall ticks rq st) = Inl f"
proof (cases "snd (authenticate_edge seen rt db wall ticks rq st)")
  case (Inr cb)
  then obtain st' c body where "authenticate_edge seen rt db wall ticks rq st = (st', Inr (c, body))"
    by (metis prod.collapse)
  from authenticate_edge_accepts(3) [OF this] show ?thesis
    using refused [OF assms, of default_nonce_ttl_seconds] by simp
qed simp

text \<open>A refused request spends no nonce, unless it was refused for the path alone.\<close>

lemma refusal_spends_nothing:
  assumes "wf st" "authenticate_edge seen rt db wall ticks rq st = (st', Inl f)"
    and "f \<noteq> Http 403 ''controller path mismatch''" "live st' k = Some e"
  shows "live st k = Some e"
proof (cases "read_body_capped max_edge_body_bytes (rq_headers rq) (rq_chunks rq)")
  case (Inl g)
  then show ?thesis using assms by (simp add: authenticate_edge_def)
next
  case (Inr body)
  show ?thesis
  proof (cases rule: authenticate_cases [of rt db wall default_timestamp_window_seconds "rq_method rq"
          "rq_path rq" body "rq_headers rq" "resolve_client_ip rt (rq_client_host rq) (rq_headers rq)"
          seen ticks default_nonce_ttl_seconds st])
    case (refused g)
    then show ?thesis using assms by (simp add: authenticate_edge_def Inr)
  next
    case (replayed s)
    then have "st' = s" using assms(2) by (simp add: authenticate_edge_def Inr)
    then show ?thesis
      using refusal_adds_nothing [OF assms(1), of ticks "nonce_key (credentials_of (rq_headers rq))"
          default_nonce_ttl_seconds k e] replayed(1) assms(4) by simp
  next
    case (accepted s c)
    then show ?thesis using assms(2,3)
      by (simp add: authenticate_edge_def Inr split: option.splits if_splits)
  qed
qed

end

text \<open>The two stores and the choice.\<close>

lemma map_of_sweep:
  "map_of st k = Some e \<Longrightarrow> now < e \<Longrightarrow> map_of (filter (\<lambda>(k, v). now < v) st) k = Some e"
  by (induction st) (auto split: if_splits)

lemma map_of_sweep_None: "map_of st k = None \<Longrightarrow> map_of (filter (\<lambda>(k, v). now < v) st) k = None"
  by (auto simp: map_of_eq_None_iff)

lemma map_of_swept:
  assumes "distinct (map fst st)" "map_of (filter P st) k = Some e"
  shows "map_of st k = Some e"
  using assms map_of_SomeD [OF assms(2)] by simp

definition distinct_keys :: "memory_store \<Rightarrow> bool" where
  "distinct_keys st \<longleftrightarrow> distinct (map fst st)"

lemma distinct_keys_update: "distinct_keys st \<Longrightarrow> distinct_keys (AList.update k v st)"
  unfolding distinct_keys_def by (rule distinct_update)

lemma distinct_keys_filter: "distinct_keys st \<Longrightarrow> distinct_keys (filter P st)"
  by (induction st) (auto simp: distinct_keys_def)

interpretation memory: replay_guard memory_seen map_of distinct_keys
proof unfold_locales
  show "\<not> snd (memory_seen now st k ttl)"
    if "distinct_keys st" "map_of st k = Some e" "e \<le> now" for st k e now ttl
    using that unfolding memory_seen_def Let_def distinct_keys_def
    by (auto split: option.splits if_splits simp del: map_of_eq_Some_iff dest!: map_of_swept)
  show "map_of st j = Some e"
    if "distinct_keys st" "snd (memory_seen now st k ttl)" "map_of (fst (memory_seen now st k ttl)) j = Some e"
    for st k j e now ttl
    using that map_of_swept [of st _ j]
    by (auto simp: memory_seen_def Let_def distinct_keys_def split: if_splits)
  show "distinct_keys (fst (memory_seen now st k ttl))" if "distinct_keys st" for st k now ttl
    using that
    by (auto simp: memory_seen_def Let_def intro: distinct_keys_update distinct_keys_filter)
qed (auto simp: memory_seen_def Let_def update_conv' map_of_sweep map_of_sweep_None split: if_splits)

interpretation redis: replay_guard redis_seen "\<lambda>st k. st (redis_key k)" "\<lambda>_. True"
  by unfold_locales (auto simp: redis_seen_def set_nx_ex_def split: option.splits if_splits)

definition store_live :: "nonce_store \<Rightarrow> string \<Rightarrow> instant option" where
  "store_live st k =
     (case st of Memory_store m \<Rightarrow> map_of m k | Redis_store r \<Rightarrow> r (redis_key k))"

definition store_wf :: "nonce_store \<Rightarrow> bool" where
  "store_wf st = (case st of Memory_store m \<Rightarrow> distinct_keys m | Redis_store r \<Rightarrow> True)"

interpretation store: replay_guard store_seen store_live store_wf
proof unfold_locales
  fix st k e now ttl j
  show "store_live st k = Some e \<Longrightarrow> now < e \<Longrightarrow> snd (store_seen now st k ttl)"
    by (cases st) (auto simp: store_live_def store_seen_def intro: memory.refused redis.refused)
  show "\<not> snd (store_seen now st k ttl) \<Longrightarrow>
      store_live (fst (store_seen now st k ttl)) k = Some (now + seconds ttl)"
    by (cases st) (auto simp: store_live_def store_seen_def intro: memory.noted redis.noted)
  show "store_live st k = Some e \<Longrightarrow> now < e \<Longrightarrow> store_live (fst (store_seen now st j ttl)) k = Some e"
    by (cases st) (auto simp: store_live_def store_seen_def intro: memory.kept redis.kept)
  show "store_live st k = None \<Longrightarrow> \<not> snd (store_seen now st k ttl)"
    by (cases st) (auto simp: store_live_def store_seen_def dest: memory.fresh redis.fresh)
  show "store_wf st \<Longrightarrow> store_live st k = Some e \<Longrightarrow> e \<le> now \<Longrightarrow> \<not> snd (store_seen now st k ttl)"
    by (cases st) (auto simp: store_live_def store_seen_def store_wf_def dest: memory.expired redis.expired [OF TrueI])
  show "store_wf st \<Longrightarrow> snd (store_seen now st k ttl) \<Longrightarrow>
      store_live (fst (store_seen now st k ttl)) j = Some e \<Longrightarrow> store_live st j = Some e"
    by (cases st)
       (auto simp: store_live_def store_seen_def store_wf_def
         dest: memory.refusal_adds_nothing redis.refusal_adds_nothing [OF TrueI])
  show "store_wf st \<Longrightarrow> store_wf (fst (store_seen now st k ttl))"
    by (cases st) (auto simp: store_seen_def store_wf_def intro: memory.wf_seen)
qed

end
