(* ===== verification/EdgeEndpoints.thy ===== *)
theory EdgeEndpoints
  imports NonceStores AccessRuns
begin

section \<open>The endpoints of the edge\<close>

text \<open>
  \<open>api/camera_events.py\<close>, the handlers of \<open>api/commands.py\<close> and \<open>api/edge.py\<close>: a handler runs on the
  controller that \<open>authenticate_edge\<close> returns.  A state is the nonce store and the database; the
  result is an HTTP error or the handler's answer.  \<open>decode\<close> is the framework's validation of the
  JSON body, \<open>None\<close> its 422; a session closed without a commit leaves the database as it was.
\<close>

type_synonym 's edge_state = "'s \<times> access_db"

text \<open>The two clocks and the random values of one call.\<close>

record moment =
  mo_ticks :: instant
  mo_ambient :: ambient

abbreviation wall_clock :: "moment \<Rightarrow> instant" where
  "wall_clock m \<equiv> env_now (mo_ambient m)"

definition with_controller ::
    "(instant \<Rightarrow> 's \<Rightarrow> string \<Rightarrow> int \<Rightarrow> 's \<times> bool) \<Rightarrow> runtime \<Rightarrow> moment \<Rightarrow> edge_request
     \<Rightarrow> (edge_controller \<Rightarrow> byte list \<Rightarrow> access_db \<Rightarrow> access_db \<times> (http_fault + 'r))
     \<Rightarrow> 's edge_state \<Rightarrow> 's edge_state \<times> (http_fault + 'r)" where
  "with_controller seen rt m rq handler s =
     (case authenticate_edge seen rt (snd s) (wall_clock m) (mo_ticks m) rq (fst s) of
        (st', Inl f) \<Rightarrow> ((st', snd s), Inl f)
      | (st', Inr (controller, body)) \<Rightarrow>
          (case handler controller body (snd s) of (db', r) \<Rightarrow> ((st', db'), r)))"

subsection \<open>Plate events\<close>

record anpr_payload =
  ap_controller_uid :: string
  ap_event_id :: string
  ap_zone_id :: "int option"
  ap_gate_id :: "int option"
  ap_camera_id :: "int option"
  ap_barrier_id :: "int option"
  ap_plate_number :: "utext option"
  ap_direction :: direction
  ap_source :: event_source
  ap_confidence :: "rat option"
  ap_captured_at :: instant

definition captured_at_max_skew_seconds :: int where "captured_at_max_skew_seconds = 300"

definition anpr_input :: "edge_controller \<Rightarrow> anpr_payload \<Rightarrow> ingest_input" where
  "anpr_input c p =
     \<lparr>in_controller_id = ec_id c, in_event_id = ap_event_id p, in_zone_id = ap_zone_id p,
      in_gate_id = ap_gate_id p, in_camera_id = ap_camera_id p, in_barrier_id = ap_barrier_id p,
      in_plate_original = ap_plate_number p, in_direction = ap_direction p,
      in_confidence = ap_confidence p, in_captured_at = ap_captured_at p,
      in_plate_photo = None, in_overview_photo = None, in_source = ap_source p\<rparr>"

definition post_anpr_event ::
    "(instant \<Rightarrow> 's \<Rightarrow> string \<Rightarrow> int \<Rightarrow> 's \<times> bool) \<Rightarrow> runtime \<Rightarrow> (utext \<Rightarrow> string)
     \<Rightarrow> (byte list \<Rightarrow> anpr_payload option) \<Rightarrow> moment \<Rightarrow> edge_request \<Rightarrow> 's edge_state
     \<Rightarrow> 's edge_state \<times> (http_fault + ingest_result)" where
  "post_anpr_event seen rt sha decode m rq s =
     with_controller seen rt m rq
       (\<lambda>controller body db.
          case decode body of
            None \<Rightarrow> (db, Inl (Http 422 ''validation error''))
          | Some p \<Rightarrow>
              if ap_controller_uid p \<noteq> ec_uid controller
              then (db, Inl (Http 403 ''controller mismatch''))
              else if \<not> is_captured_at_fresh (ap_captured_at p) (wall_clock m) captured_at_max_skew_seconds
              then (db, Inl (Http 422 ''captured_at not fresh''))
              else (case ingest_anpr sha (mo_ambient m) db (anpr_input controller p) of
                      Inl _ \<Rightarrow> (db, Inl (Http 500 ''internal error''))
                    | Inr (db', res) \<Rightarrow> (db', Inr res))) s"

subsection \<open>Commands\<close>

text \<open>The poll: \<open>None\<close> is the answer 204.  \<open>attempts\<close> are the clock readings and tokens of the tries.\<close>

definition get_next_command ::
    "(instant \<Rightarrow> 's \<Rightarrow> string \<Rightarrow> int \<Rightarrow> 's \<times> bool) \<Rightarrow> runtime \<Rightarrow> (utext \<Rightarrow> string)
     \<Rightarrow> (instant \<times> string) list \<Rightarrow> moment \<Rightarrow> edge_request \<Rightarrow> 's edge_state
     \<Rightarrow> 's edge_state \<times> (http_fault + leased_command option)" where
  "get_next_command seen rt sha attempts m rq s =
     with_controller seen rt m rq
       (\<lambda>controller body db.
          case lease_next_command sha db attempts (ec_id controller) lease_ttl_seconds of
            (db', l) \<Rightarrow> (db', Inr l)) s"

text \<open>The acknowledgement: the command's id comes from the path, the token and the relay's result from
  the body.\<close>

definition post_command_ack ::
    "(instant \<Rightarrow> 's \<Rightarrow> string \<Rightarrow> int \<Rightarrow> 's \<times> bool) \<Rightarrow> runtime \<Rightarrow> (utext \<Rightarrow> string)
     \<Rightarrow> (byte list \<Rightarrow> (string \<times> string option) option) \<Rightarrow> nat \<Rightarrow> moment \<Rightarrow> edge_request \<Rightarrow> 's edge_state
     \<Rightarrow> 's edge_state \<times> (http_fault + ack_outcome)" where
  "post_command_ack seen rt sha decode command m rq s =
     with_controller seen rt m rq
       (\<lambda>controller body db.
          case decode body of
            None \<Rightarrow> (db, Inl (Http 422 ''validation error''))
          | Some (token, result) \<Rightarrow>
              (case ack_command sha db (env_tx_now (mo_ambient m)) (ec_id controller) command token result of
                 None \<Rightarrow> (db, Inl (Http 409 ''stale or invalid lease token''))
               | Some (db', out) \<Rightarrow> (db', Inr out))) s"

subsection \<open>Heartbeats and photos\<close>

definition connected_drift_warning_ms :: int where "connected_drift_warning_ms = 5000"
definition fail_closed_drift_ms :: int where "fail_closed_drift_ms = 30000"

record heartbeat_answer =
  hb_clock_offset_ms :: int
  hb_fail_closed :: bool
  hb_warning :: bool
  hb_offline_mode :: "string option"

definition heartbeat_answer_of :: "int \<Rightarrow> heartbeat_answer" where
  "heartbeat_answer_of offset =
     (let fail_closed = fail_closed_drift_ms < \<bar>offset\<bar>
      in \<lparr>hb_clock_offset_ms = offset, hb_fail_closed = fail_closed,
          hb_warning = (\<not> fail_closed \<and> connected_drift_warning_ms < \<bar>offset\<bar>),
          hb_offline_mode = (if fail_closed then Some ''fail_closed'' else None)\<rparr>)"

definition post_heartbeat ::
    "(instant \<Rightarrow> 's \<Rightarrow> string \<Rightarrow> int \<Rightarrow> 's \<times> bool) \<Rightarrow> runtime \<Rightarrow> (byte list \<Rightarrow> int option) \<Rightarrow> moment
     \<Rightarrow> edge_request \<Rightarrow> 's edge_state \<Rightarrow> 's edge_state \<times> (http_fault + heartbeat_answer)" where
  "post_heartbeat seen rt decode m rq s =
     with_controller seen rt m rq
       (\<lambda>controller body db.
          case decode body of
            None \<Rightarrow> (db, Inl (Http 422 ''validation error''))
          | Some offset \<Rightarrow>
              (db\<lparr>controllers := upd_where (\<lambda>r. ec_id r = ec_id controller)
                    (\<lambda>r. r\<lparr>ec_last_heartbeat_at := Some (env_tx_now (mo_ambient m)),
                           ec_clock_offset_ms := Some offset\<rparr>) (controllers db)\<rparr>,
               Inr (heartbeat_answer_of offset))) s"

text \<open>The photos of an event: \<open>upload kind\<close> is \<open>None\<close> when the form has no file of that kind, else
  what the media service returns, an exception or an id.\<close>

fun store_photos ::
    "(string \<Rightarrow> (unit + string) option) \<Rightarrow> int \<Rightarrow> string \<Rightarrow> string list \<Rightarrow> string list \<Rightarrow> access_db
     \<Rightarrow> http_fault + (access_db \<times> string list)" where
  "store_photos upload c e [] updated db = Inr (db, updated)"
| "store_photos upload c e (kind # kinds) updated db =
     (case upload kind of
        None \<Rightarrow> store_photos upload c e kinds updated db
      | Some (Inl _) \<Rightarrow> Inl Server_error
      | Some (Inr media_id) \<Rightarrow>
          (case update_photo_ref db c e kind (''media://'' @ media_id) of
             Inl _ \<Rightarrow> Inl Server_error
           | Inr (_, None) \<Rightarrow> Inl (Http 404 ''camera event not found'')
           | Inr (db', Some _) \<Rightarrow> store_photos upload c e kinds (updated @ [kind]) db'))"

definition post_camera_event_photos ::
    "(instant \<Rightarrow> 's \<Rightarrow> string \<Rightarrow> int \<Rightarrow> 's \<times> bool) \<Rightarrow> runtime \<Rightarrow> (byte list \<Rightarrow> string \<Rightarrow> (unit + string) option)
     \<Rightarrow> string \<Rightarrow> moment \<Rightarrow> edge_request \<Rightarrow> 's edge_state \<Rightarrow> 's edge_state \<times> (http_fault + string list)" where
  "post_camera_event_photos seen rt upload event m rq s =
     with_controller seen rt m rq
       (\<lambda>controller body db.
          case store_photos (upload body) (ec_id controller) event [''plate'', ''overview''] [] db of
            Inl f \<Rightarrow> (db, Inl f)
          | Inr (db', updated) \<Rightarrow> (db', Inr updated)) s"

subsection \<open>Deferred offline events\<close>

text \<open>The table \<open>controller_sync_events\<close>, read and written by this endpoint only.  \<open>isofmt\<close> is
  \<open>datetime.isoformat\<close>.\<close>

record sync_event =
  se_event_id :: string
  se_captured_at :: "instant option"
  se_plate_number :: "utext option"
  se_direction :: direction
  se_decision :: "utext option"
  se_snapshot_expired :: bool
  se_conflict :: bool
  se_attributes :: "(string \<times> canon) list"

record sync_row =
  sr_controller_id :: int
  sr_event_id :: string
  sr_payload :: canon
  sr_conflict :: bool
  sr_snapshot_expired :: bool
  sr_received_at :: instant

text \<open>\<open>{**attributes, "source": ..., ...}\<close>: the fixed keys override the attributes.\<close>

definition stored_payload :: "(instant \<Rightarrow> string) \<Rightarrow> sync_event \<Rightarrow> canon" where
  "stored_payload isofmt ev =
     CObj (foldl (\<lambda>m (k, v). AList.update k v m) (se_attributes ev)
       [(''source'', ctext (source_value Edge_offline)), (''decision'', copt CText (se_decision ev)),
        (''plate_number'', copt CText (se_plate_number ev)),
        (''direction'', ctext (direction_value (se_direction ev))),
        (''captured_at'', copt (\<lambda>t. ctext (isofmt t)) (se_captured_at ev))])"

record sync_counts =
  sy_accepted :: nat
  sy_duplicates :: nat
  sy_conflicts :: nat

definition known_sync :: "int \<Rightarrow> string \<Rightarrow> sync_row list \<Rightarrow> bool" where
  "known_sync c e rows \<longleftrightarrow> list_ex (\<lambda>r. sr_controller_id r = c \<and> sr_event_id r = e) rows"

text \<open>One event: \<open>INSERT ... ON CONFLICT (controller_id, event_id) DO NOTHING RETURNING id\<close>.\<close>

definition sync_one ::
    "(instant \<Rightarrow> string) \<Rightarrow> instant \<Rightarrow> int \<Rightarrow> sync_row list \<times> sync_counts \<Rightarrow> sync_event \<Rightarrow> sync_row list \<times> sync_counts" where
  "sync_one isofmt now c acc ev =
     (case acc of (rows, n) \<Rightarrow>
        if known_sync c (se_event_id ev) rows then (rows, n\<lparr>sy_duplicates := Suc (sy_duplicates n)\<rparr>)
        else (rows @ [\<lparr>sr_controller_id = c, sr_event_id = se_event_id ev, sr_payload = stored_payload isofmt ev,
                       sr_conflict = se_conflict ev, sr_snapshot_expired = se_snapshot_expired ev,
                       sr_received_at = now\<rparr>],
              n\<lparr>sy_accepted := Suc (sy_accepted n),
                sy_conflicts := (if se_conflict ev \<or> se_snapshot_expired ev then Suc (sy_conflicts n)
                                 else sy_conflicts n)\<rparr>))"

definition sync_events ::
    "(instant \<Rightarrow> string) \<Rightarrow> instant \<Rightarrow> int \<Rightarrow> sync_event list \<Rightarrow> sync_row list \<Rightarrow> sync_row list \<times> sync_counts" where
  "sync_events isofmt now c events rows =
     foldl (sync_one isofmt now c) (rows, \<lparr>sy_accepted = 0, sy_duplicates = 0, sy_conflicts = 0\<rparr>) events"

definition post_sync_events ::
    "(instant \<Rightarrow> 's \<Rightarrow> string \<Rightarrow> int \<Rightarrow> 's \<times> bool) \<Rightarrow> runtime \<Rightarrow> (instant \<Rightarrow> string)
     \<Rightarrow> (byte list \<Rightarrow> sync_event list option) \<Rightarrow> moment \<Rightarrow> edge_request \<Rightarrow> access_db \<Rightarrow> 's \<times> sync_row list
     \<Rightarrow> ('s \<times> sync_row list) \<times> (http_fault + sync_counts)" where
  "post_sync_events seen rt isofmt decode m rq db s =
     (case authenticate_edge seen rt db (wall_clock m) (mo_ticks m) rq (fst s) of
        (st', Inl f) \<Rightarrow> ((st', snd s), Inl f)
      | (st', Inr (controller, body)) \<Rightarrow>
          (case decode body of
             None \<Rightarrow> ((st', snd s), Inl (Http 422 ''validation error''))
           | Some events \<Rightarrow>
               (case sync_events isofmt (env_tx_now (mo_ambient m)) (ec_id controller) events (snd s) of
                  (rows, n) \<Rightarrow> ((st', rows), Inr n))))"

end
