(* ===== verification/SignedText.thy ===== *)
theory SignedText
  imports DeviceAuth HashChain
begin

section \<open>The signed text and its bytes\<close>

text \<open>
  UTF-8 is injective, the five lines of the canonical text can be told apart, and \<open>int\<close> reads
  back what \<open>str\<close> wrote: so the bytes under the HMAC determine what was signed.
\<close>

subsection \<open>UTF-8\<close>

definition code_point :: "int \<Rightarrow> bool" where
  "code_point c \<longleftrightarrow> 0 \<le> c \<and> c < 1114112"

text \<open>The first byte gives the length, and the bytes of one length give the point.\<close>

lemma utf8_code_cases:
  assumes "code_point c"
  obtains (one) "0 \<le> c" "c < 128" "utf8_code c = [c]"
  | (two) a b where "c = 64 * a + b" "2 \<le> a" "a < 32" "0 \<le> b" "b < 64"
      "utf8_code c = [192 + a, 128 + b]"
  | (three) a b d where "c = 4096 * a + 64 * b + d" "0 \<le> a" "a < 16" "0 \<le> b" "b < 64" "0 \<le> d" "d < 64"
      "utf8_code c = [224 + a, 128 + b, 128 + d]"
  | (four) a b d e where "c = 262144 * a + 4096 * b + 64 * d + e" "0 \<le> a" "a < 8" "0 \<le> b" "b < 64"
      "0 \<le> d" "d < 64" "0 \<le> e" "e < 64" "utf8_code c = [240 + a, 128 + b, 128 + d, 128 + e]"
proof -
  have c: "0 \<le> c" "c < 1114112" using assms by (simp_all add: code_point_def)
  have m: "0 \<le> x mod 64" "x mod 64 < 64" "x = 64 * (x div 64) + x mod 64" for x :: int by simp_all
  have d2: "c div 64 div 64 = c div 4096" and d3: "c div 4096 div 64 = c div 262144"
    by (simp_all add: zdiv_zmult2_eq [symmetric])
  consider "c < 128" | "128 \<le> c" "c < 2048" | "2048 \<le> c" "c < 65536" | "65536 \<le> c" by linarith
  then show ?thesis
  proof cases
    case 1
    then show ?thesis using one c by (simp add: utf8_code_def)
  next
    case 2
    have "2 \<le> c div 64" "c div 64 < 32" using 2 by linarith+
    then show ?thesis using 2 m [of c] by (intro two [of "c div 64" "c mod 64"]) (simp_all add: utf8_code_def)
  next
    case 3
    have top: "0 \<le> c div 4096" "c div 4096 < 16" using 3 by linarith+
    have "c = 4096 * (c div 4096) + 64 * (c div 64 mod 64) + c mod 64"
      using m(3) [of c] m(3) [of "c div 64"] d2 by linarith
    from three [OF this top m(1,2) m(1,2)] show ?thesis using 3 by (simp add: utf8_code_def)
  next
    case 4
    have top: "0 \<le> c div 262144" "c div 262144 < 8" using 4 c by linarith+
    have "c = 262144 * (c div 262144) + 4096 * (c div 4096 mod 64) + 64 * (c div 64 mod 64) + c mod 64"
      using m(3) [of c] m(3) [of "c div 64"] m(3) [of "c div 4096"] d2 d3 by linarith
    from four [OF this top m(1,2) m(1,2) m(1,2)] show ?thesis using 4 by (simp add: utf8_code_def)
  qed
qed

lemma utf8_code_inj:
  assumes "code_point c" "code_point d" "utf8_code c @ s = utf8_code d @ t"
  shows "c = d \<and> s = t"
  using assms(3)
  by (cases rule: utf8_code_cases [OF assms(1)]; cases rule: utf8_code_cases [OF assms(2)]) simp_all

lemma utf8_code_bytes:
  assumes "code_point c" "x \<in> set (utf8_code c)"
  shows "0 \<le> x \<and> x < 256"
  using assms(2) by (cases rule: utf8_code_cases [OF assms(1)]) auto

lemma utf8_code_nonempty: "utf8_code c \<noteq> []"
  by (simp add: utf8_code_def)

lemma utf8_codes_inj:
  "list_all code_point s \<Longrightarrow> list_all code_point t \<Longrightarrow>
   concat (map utf8_code s) = concat (map utf8_code t) \<Longrightarrow> s = t"
proof (induction s arbitrary: t)
  case Nil
  then show ?case by (cases t) (simp_all add: utf8_code_nonempty)
next
  case (Cons c s)
  obtain d t' where t: "t = d # t'"
    using Cons.prems(3) by (cases t) (simp_all add: utf8_code_nonempty)
  have "c = d \<and> concat (map utf8_code s) = concat (map utf8_code t')"
    by (rule utf8_code_inj) (use Cons.prems in \<open>simp_all add: t\<close>)
  with Cons.IH [of t'] Cons.prems(1,2) show ?case by (simp add: t)
qed

lemma inj_on_byte: "inj_on (word_of_int :: int \<Rightarrow> byte) {0..<256}"
  by (rule inj_onI) (simp add: word_of_int_eq_iff take_bit_int_eq_self)

lemma utf8_inj:
  assumes "list_all code_point s" "list_all code_point t" "utf8 s = utf8 t"
  shows "s = t"
proof -
  have "set (concat (map utf8_code u)) \<subseteq> {0..<256}" if "list_all code_point u" for u
    using that utf8_code_bytes by (fastforce simp: list_all_iff)
  then have "inj_on (word_of_int :: int \<Rightarrow> byte)
      (set (concat (map utf8_code s)) \<union> set (concat (map utf8_code t)))"
    using assms(1,2) by (intro inj_on_subset [OF inj_on_byte]) simp
  then have "concat (map utf8_code s) = concat (map utf8_code t)"
    using assms(3) unfolding utf8_def by (rule map_inj_on [rotated])
  then show ?thesis using utf8_codes_inj assms(1,2) by blast
qed

subsection \<open>The lines of the canonical text\<close>

lemma cut_first_line:
  assumes "a @ 10 # s = b @ 10 # t" "(10 :: int) \<notin> set a" "10 \<notin> set b"
  shows "a = b \<and> s = t"
proof -
  have cut: "takeWhile (\<lambda>c. c \<noteq> 10) (x @ 10 # u) = x" if "10 \<notin> set x" for x u :: "int list"
    using that by (induction x) auto
  have "a = b" using cut [OF assms(2), of s] cut [OF assms(3), of t] assms(1) by simp
  then show ?thesis using assms(1) by simp
qed

lemma cut_last_line:
  assumes "s @ 10 # a = t @ 10 # b" "(10 :: int) \<notin> set a" "10 \<notin> set b"
  shows "s = t \<and> a = b"
proof -
  have "rev a @ 10 # rev s = rev b @ 10 # rev t" using arg_cong [OF assms(1), of rev] by simp
  from cut_first_line [OF this] assms(2,3) show ?thesis by simp
qed

lemma hex_digit_point:
  "d < 16 \<Longrightarrow> (of_char (hex_digit d) :: int) \<noteq> 10 \<and> (of_char (hex_digit d) :: nat) < 128"
proof -
  have "(of_char (hex_digit d) :: int) = int (of_char (hex_digit d))" by (rule of_nat_of_char [symmetric])
  moreover have "(of_char (hex_digit d) :: nat) = (if d < 10 then 48 + d else 87 + d)" if "d < 16"
    using that by (auto simp: hex_digit_def)
  ultimately show "d < 16 \<Longrightarrow> ?thesis" by simp
qed

lemma byte_digits: "unat (b :: byte) div 16 < 16" "unat b mod 16 < 16"
proof -
  have "unat b < 2 ^ 8" using unsigned_less [of b] by simp
  then show "unat b div 16 < 16" "unat b mod 16 < 16" by (simp_all add: less_mult_imp_div_less)
qed

lemma hexdigest_digit: "c \<in> set (hexdigest bs) \<Longrightarrow> \<exists>d<16. c = hex_digit d"
  unfolding hexdigest_def using byte_digits by (auto intro: exI [of _ "unat _ div 16"] exI [of _ "unat _ mod 16"])

lemma hexdigest_one_line: "10 \<notin> set (utext_of (hexdigest bs))"
  using hexdigest_digit hex_digit_point by (fastforce simp: utext_of_def)

lemma hexdigest_ascii: "ascii_text (hexdigest bs)"
  using hexdigest_digit hex_digit_point by (fastforce simp: ascii_text_def list_all_iff)

lemma no_line_feed: "CHR 0x0A \<notin> set s \<Longrightarrow> 10 \<notin> set (utext_of s)"
proof
  assume a: "CHR 0x0A \<notin> set s" "10 \<in> set (utext_of s)"
  then obtain c where "c \<in> set s" "(of_char c :: int) = of_char (CHR 0x0A)"
    by (auto simp: utext_of_def)
  then show False using a(1) by (metis inj_of_char injD)
qed

lemma int_str_one_line: "10 \<notin> set (utext_of (int_str i))"
  using int_str_points by fastforce

lemma upper_one_line: "10 \<notin> set s \<Longrightarrow> 10 \<notin> set (concat (map upper_point s))"
proof -
  have "c = 10" if "10 \<in> set (upper_point c)" for c
    using that upper_point_shape [of c] by (auto simp: upper_image_def)
  then show "10 \<notin> set s \<Longrightarrow> ?thesis" by auto
qed

lemma of_char_point: "code_point (of_char c)"
proof -
  have "(of_char c :: int) = int (of_char c)" by (rule of_nat_of_char [symmetric])
  then have "0 \<le> (of_char c :: int)" "(of_char c :: int) < int 256"
    using nat_of_char_less_256 [of c] by (simp_all only: of_nat_less_iff of_nat_0_le_iff)
  then show ?thesis by (simp add: code_point_def)
qed

lemma utext_of_points: "list_all code_point (utext_of s)"
  by (simp add: utext_of_def list_all_iff of_char_point)

lemma upper_points: "list_all code_point s \<Longrightarrow> list_all code_point (concat (map upper_point s))"
proof -
  have "code_point d" if "code_point c" "d \<in> set (upper_point c)" for c d
    using that upper_point_shape [of c] by (auto simp: code_point_def upper_image_def)
  then show "list_all code_point s \<Longrightarrow> ?thesis" by (auto simp: list_all_iff)
qed

subsection \<open>The fields under the HMAC\<close>

lemma canonical_points:
  assumes "list_all code_point path"
  shows "list_all code_point (canonical_string rt method path ts nonce body)"
  using assms upper_points [OF utext_of_points]
  by (simp add: canonical_string_def utext_of_points) (simp add: code_point_def)

lemma canonical_string_lines:
  assumes "canonical_string rt m1 p1 t1 n1 b1 = canonical_string rt m2 p2 t2 n2 b2"
    and "10 \<notin> set (utext_of m1)" "10 \<notin> set (utext_of m2)"
    and "10 \<notin> set (utext_of n1)" "10 \<notin> set (utext_of n2)"
  shows "concat (map upper_point (utext_of m1)) = concat (map upper_point (utext_of m2))
    \<and> p1 = p2 \<and> t1 = t2 \<and> n1 = n2 \<and> body_hash rt b1 = body_hash rt b2"
proof -
  have m: "concat (map upper_point (utext_of m1)) = concat (map upper_point (utext_of m2))"
    and r: "p1 @ 10 # utext_of (int_str t1) @ 10 # utext_of n1 @ 10 # utext_of (body_hash rt b1)
      = p2 @ 10 # utext_of (int_str t2) @ 10 # utext_of n2 @ 10 # utext_of (body_hash rt b2)"
    using cut_first_line [OF assms(1) [unfolded canonical_string_def]] assms(2,3) upper_one_line
    by blast+
  let ?f = "\<lambda>p t n. (p @ 10 # utext_of (int_str t)) @ 10 # utext_of n"
  have "?f p1 t1 n1 @ 10 # utext_of (body_hash rt b1) = ?f p2 t2 n2 @ 10 # utext_of (body_hash rt b2)"
    using r by simp
  from cut_last_line [OF this]
  have r2: "?f p1 t1 n1 = ?f p2 t2 n2" and "utext_of (body_hash rt b1) = utext_of (body_hash rt b2)"
    by (simp_all add: body_hash_def hexdigest_one_line)
  then have h: "body_hash rt b1 = body_hash rt b2" by (simp add: utext_of_inj)
  from cut_last_line [OF r2 assms(4,5)]
  have n: "n1 = n2" and r3: "p1 @ 10 # utext_of (int_str t1) = p2 @ 10 # utext_of (int_str t2)"
    by (simp_all add: utext_of_inj)
  from cut_last_line [OF r3 int_str_one_line int_str_one_line]
  have "p1 = p2" "t1 = t2" by (auto simp: utext_of_inj int_str_inj)
  then show ?thesis using m h n by simp
qed

subsection \<open>Reading a numeral back\<close>

lemma length_nat_str: "n < 10 ^ k \<Longrightarrow> 0 < k \<Longrightarrow> length (nat_str n) \<le> k"
proof (induction n arbitrary: k rule: nat_str.induct)
  case (1 n)
  show ?case
  proof (cases "n < 10")
    case True
    then show ?thesis using 1(3) by (subst nat_str.simps) simp
  next
    case False
    then obtain j where j: "k = Suc j" "0 < j"
      using 1(2,3) by (cases k; cases "k - 1") auto
    then have "n div 10 < 10 ^ j" using 1(2) by (simp add: less_mult_imp_div_less mult.commute)
    from 1(1) [OF False this j(2)] show ?thesis using False j(1) by (subst nat_str.simps) simp
  qed
qed

lemma py_split_absent: "sep \<notin> set s \<Longrightarrow> py_split sep s = [s]"
  by (induction s) auto

lemma int_digits_nat_str:
  assumes "n < 10 ^ int_max_str_digits"
  shows "int_digits (nat_str n) = Some (int n)"
proof -
  have d: "list_all is_digit (nat_str n)" using nat_str_digit by (auto simp: list_all_iff)
  then have "CHR ''_'' \<notin> set (nat_str n)" by (auto simp: list_all_iff is_digit_def)
  moreover have "0 < int_max_str_digits" by (simp add: int_max_str_digits_def)
  ultimately show ?thesis using d length_nat_str [OF assms] digits_val_nat_str [of n]
    by (simp add: int_digits_def py_split_absent)
qed

lemma dropWhile_none: "\<forall>x\<in>set xs. \<not> P x \<Longrightarrow> dropWhile P xs = xs"
  by (cases xs) auto

lemma py_int_int_str:
  assumes "\<bar>i\<bar> < 10 ^ int_max_str_digits"
  shows "py_int (int_str i) = Some i"
proof -
  have "\<not> int_space c" if "is_digit c" for c using that by (auto simp: int_space_def is_digit_def)
  then have ns: "\<not> int_space c" if "c \<in> set (int_str i)" for c
    using that nat_str_digit by (auto simp: int_str_def int_space_def split: if_splits)
  have strip: "rev (dropWhile int_space (rev (dropWhile int_space (int_str i)))) = int_str i"
    using ns by (simp add: dropWhile_none)
  have head: "c \<noteq> CHR ''-'' \<and> c \<noteq> CHR ''+''" if "nat_str n = c # s" for c s n
    using nat_str_digit [of c n] that by (auto simp: is_digit_def)
  have "nat \<bar>i\<bar> < 10 ^ int_max_str_digits" using assms by (simp add: nat_less_iff)
  from int_digits_nat_str [OF this] show ?thesis
    unfolding py_int_def strip
    by (auto simp: int_str_def split: list.split dest: head)
qed

end
