(* ===== verification/DeviceTheorems.thy ===== *)
theory DeviceTheorems
  imports NonceStores SignedText AccessExamples
begin

section \<open>Theorems on device authentication\<close>

text \<open>
  Who gets past \<open>authenticate_edge\<close>: exactly a caller that signed this very request with the secret
  of an active controller, once.  The witnesses use a runtime whose hash is the identity, whose
  MAC is the length of the text, and the controller of the example database.
\<close>

definition ex_rt :: runtime where
  "ex_rt = \<lparr>rt_sha256 = (\<lambda>bs. bs), rt_hmac = (\<lambda>secret msg. [word_of_nat (length secret + length msg)]),
            rt_env = map_of [(''ACCESS_DEVICE_HMAC_SEED'', ''seed'')],
            rt_ip_in_network = (\<lambda>_ _. None)\<rparr>"

text \<open>What the example controller sends: a poll of its own queue, signed for the second \<open>ts\<close>.\<close>

definition ex_path :: utext where
  "ex_path = utext_of ''/api/v1/access/edge/gate-7/commands/next''"

definition ex_headers :: "int \<Rightarrow> string \<Rightarrow> string option" where
  "ex_headers ts = sign_request ex_rt 0 ''u'' ''GET'' ex_path [] ''gate-7'' ''k''
     (utf8 (utext_of ''seed:gate-7'')) (Some ts) (Some ''n1'')"

definition ex_poll :: "int \<Rightarrow> edge_request" where
  "ex_poll ts = \<lparr>rq_method = ''GET'', rq_path = ex_path, rq_headers = ex_headers ts,
     rq_client_host = Some ''10.0.0.5'', rq_chunks = [], rq_controller_id = Some ''gate-7''\<rparr>"

subsection \<open>Acceptance\<close>

lemma read_chunks_Inr_iff:
  assumes "int (length body0) \<le> cap"
  shows "read_chunks cap body0 chunks = Inr body \<longleftrightarrow>
    body = body0 @ concat chunks \<and> int (length body) \<le> cap"
  using assms
proof (induction chunks arbitrary: body0)
  case Nil
  then show ?case by auto
next
  case (Cons c cs)
  show ?case
  proof (cases "cap < int (length body0 + length c)")
    case True
    then show ?thesis by auto
  next
    case False
    then show ?thesis using Cons.IH [of "body0 @ c"] by simp
  qed
qed

lemma read_body_Inr_iff:
  "read_body_capped max_edge_body_bytes headers chunks = Inr body \<longleftrightarrow>
     body = concat chunks \<and> int (length body) \<le> max_edge_body_bytes
     \<and> (case headers ''content-length'' of None \<Rightarrow> True
          | Some declared \<Rightarrow> py_int declared = Some (int (length body)))"
proof -
  have chunks: "read_chunks max_edge_body_bytes [] chunks = Inr b \<longleftrightarrow>
      b = concat chunks \<and> int (length b) \<le> max_edge_body_bytes" for b
    using read_chunks_Inr_iff [of "[]" max_edge_body_bytes chunks b]
    by (simp add: max_edge_body_bytes_def)
  show ?thesis
    by (auto simp: read_body_capped_def chunks res_bind_Inr_iff split: option.split)
qed

text \<open>A body is read when it fits the limit and is as long as declared, and then it is the
  concatenation of the chunks, whole: nothing is cut off.\<close>

theorem body_read_whole_or_refused:
  "read_body_capped max_edge_body_bytes headers chunks = Inr body \<longleftrightarrow>
     body = concat chunks \<and> int (length body) \<le> max_edge_body_bytes
     \<and> (case headers ''content-length'' of None \<Rightarrow> True
          | Some declared \<Rightarrow> py_int declared = Some (int (length body)))"
  by (rule read_body_Inr_iff)

lemma few_digits: "\<bar>i\<bar> < (10 :: int) ^ 8 \<Longrightarrow> \<bar>i\<bar> < 10 ^ int_max_str_digits"
  by (rule less_le_trans, assumption, rule power_increasing) (simp_all add: int_max_str_digits_def)

text \<open>What the credentials of a signed request are, whatever other headers it carries.\<close>

lemma credentials_of_signed:
  "credentials_of (extra ++ sign_request rt wall uuid method path body uid key secret (Some ts) (Some n))
   = \<lparr>cr_controller_uid = uid, cr_api_key = key, cr_timestamp = int_str ts,
      cr_nonce = (if n = [] then uuid else n),
      cr_signature = compute_signature rt secret
        (canonical_string rt method path ts (if n = [] then uuid else n) body)\<rparr>"
  by (simp add: credentials_of_def header_or_empty_def sign_request_def map_add_def Let_def)

lemma signed_other_header:
  "h \<notin> {''x-ac-controller'', ''x-ac-key'', ''x-ac-timestamp'', ''x-ac-nonce'', ''x-ac-signature''} \<Longrightarrow>
   (extra ++ sign_request rt wall uuid method path body uid key secret ts n) h = extra h"
  by (simp add: sign_request_def map_add_def Let_def)

text \<open>C38: a request that a client signs with \<open>sign_request\<close> under the key and the secret of an
  active controller passes, if it comes from an allowed address, within the time window, with a
  nonce not seen before and a body within the limit.\<close>

theorem signed_request_accepted:
  assumes "active_controller db uid = Some c" "uid \<noteq> []" "key \<noteq> []" "nonce \<noteq> []"
    and "hash_api_key rt key = ec_api_key_hash c"
    and "resolve_device_secret rt (ec_uid c) = Inr secret" "rt_hmac rt secret msg \<noteq> []"
    and "msg = utf8 (canonical_string rt (rq_method rq) (rq_path rq) ts nonce (concat (rq_chunks rq)))"
    and "rq_headers rq = extra ++ sign_request rt sent uuid (rq_method rq) (rq_path rq)
           (concat (rq_chunks rq)) uid key secret (Some ts) (Some nonce)"
    and "extra ''content-length'' \<in> {None, Some (int_str (int (length (concat (rq_chunks rq)))))}"
    and "int (length (concat (rq_chunks rq))) \<le> max_edge_body_bytes"
    and "client_ip_allowed rt c (resolve_client_ip rt (rq_client_host rq) (rq_headers rq))"
    and "\<bar>wall div seconds 1 - ts\<bar> \<le> default_timestamp_window_seconds"
    and "\<bar>ts\<bar> < 10 ^ int_max_str_digits"
    and "store_live st (uid @ '':'' @ nonce) = None"
    and "rq_controller_id rq = None \<or> rq_controller_id rq = Some uid"
  shows "\<exists>st'. authenticate_edge store_seen rt db wall ticks rq st = (st', Inr (c, concat (rq_chunks rq)))"
proof -
  let ?body = "concat (rq_chunks rq)"
  let ?cr = "credentials_of (rq_headers rq)"
  have cr: "?cr = \<lparr>cr_controller_uid = uid, cr_api_key = key, cr_timestamp = int_str ts, cr_nonce = nonce,
      cr_signature = hexdigest (rt_hmac rt secret msg)\<rparr>"
    using assms(4,8) by (simp add: assms(9) credentials_of_signed compute_signature_def)
  have len: "\<bar>int (length ?body)\<bar> < 10 ^ int_max_str_digits"
    by (rule few_digits) (use assms(11) in \<open>simp add: max_edge_body_bytes_def\<close>)
  have body: "read_body_capped max_edge_body_bytes (rq_headers rq) (rq_chunks rq) = Inr ?body"
    using assms(10,11) len by (auto simp: read_body_Inr_iff assms(9) signed_other_header py_int_int_str)
  have uid: "ec_uid c = uid"
    using first_row_Some [OF assms(1) [unfolded active_controller_def]] by simp
  have "hexdigest (rt_hmac rt secret msg) \<noteq> []"
    using assms(7) by (cases "rt_hmac rt secret msg") (simp_all add: hexdigest_def)
  then have present: "all_present ?cr" using assms(2-4) by (simp add: cr all_present_def)
  have key: "compare_digest (hash_api_key rt key) (ec_api_key_hash c) = Inr True"
    using hexdigest_ascii by (simp add: assms(5) [symmetric] compare_digest_def hash_api_key_def)
  have sig: "compare_digest (compute_signature rt secret
      (canonical_string rt (rq_method rq) (rq_path rq) ts nonce ?body)) (hexdigest (rt_hmac rt secret msg)) = Inr True"
    using hexdigest_ascii assms(8) by (simp add: compare_digest_def compute_signature_def)
  have "check_credentials rt db wall default_timestamp_window_seconds (rq_method rq) (rq_path rq) ?body
      ?cr (resolve_client_ip rt (rq_client_host rq) (rq_headers rq)) = Inr c"
    using present assms(1,6,12,13) key sig py_int_int_str [OF assms(14)]
    by (simp add: check_credentials_def cr)
  moreover have "\<not> snd (store_seen ticks st (nonce_key ?cr) default_nonce_ttl_seconds)"
    by (rule store.fresh) (use assms(15) in \<open>simp add: cr nonce_key_def\<close>)
  then obtain st' where "store_seen ticks st (nonce_key ?cr) default_nonce_ttl_seconds = (st', False)"
    by (cases "store_seen ticks st (nonce_key ?cr) default_nonce_ttl_seconds") simp
  ultimately show ?thesis using assms(16) uid body
    by (auto simp: authenticate_edge_def authenticate_def Let_def split: option.split)
qed

lemma ex_active: "\<exists>c. active_controller ex_adb ''gate-7'' = Some c \<and> ec_uid c = ''gate-7''
    \<and> ec_api_key_hash c = ''6b'' \<and> ec_ip_allowlist c = JScalar JNull"
proof -
  have "case active_controller ex_adb ''gate-7'' of None \<Rightarrow> False
      | Some c \<Rightarrow> ec_uid c = ''gate-7'' \<and> ec_api_key_hash c = ''6b'' \<and> ec_ip_allowlist c = JScalar JNull"
    by code_simp
  then show ?thesis by (auto split: option.splits)
qed

lemma ex_secret: "resolve_device_secret ex_rt ''gate-7'' = Inr (utf8 (utext_of ''seed:gate-7''))"
  by code_simp

lemma ex_key: "hash_api_key ex_rt ''k'' = ''6b''"
  by code_simp

lemma signed_request_accepted_witness:
  "\<exists>st' c. authenticate_edge store_seen ex_rt ex_adb 1000000000 0 (ex_poll 1000) (Memory_store [])
     = (st', Inr (c, []))"
proof -
  obtain c where c: "active_controller ex_adb ''gate-7'' = Some c" "ec_uid c = ''gate-7''"
      "ec_api_key_hash c = ''6b''" "ec_ip_allowlist c = JScalar JNull"
    using ex_active by blast
  have "\<exists>st'. authenticate_edge store_seen ex_rt ex_adb 1000000000 0 (ex_poll 1000) (Memory_store [])
     = (st', Inr (c, concat (rq_chunks (ex_poll 1000))))"
    by (rule signed_request_accepted [where uid = "''gate-7''" and key = "''k''" and nonce = "''n1''"
          and secret = "utf8 (utext_of ''seed:gate-7'')" and ts = 1000 and extra = Map.empty
          and sent = 0 and uuid = "''u''", OF c(1) _ _ _ _ _ _ refl])
       (use c ex_key ex_secret few_digits [of 1000] in \<open>simp_all add: ex_rt_def ex_poll_def ex_headers_def
          client_ip_allowed_def default_timestamp_window_seconds_def seconds_def
          max_edge_body_bytes_def store_live_def\<close>)
  then show ?thesis by (auto simp: ex_poll_def)
qed

text \<open>The example request is accepted; the witnesses below apply to it.\<close>

lemma ex_poll_accepted:
  assumes "wall div seconds 1 = ts + d" "\<bar>d\<bar> \<le> 300" "\<bar>ts\<bar> < 10 ^ 8"
    and "\<not> snd (store_seen ticks st ''gate-7:n1'' 600)" "controllers db = controllers ex_adb"
  shows "\<exists>c. active_controller ex_adb ''gate-7'' = Some c \<and>
    authenticate_edge store_seen ex_rt db wall ticks (ex_poll ts) st
     = (fst (store_seen ticks st ''gate-7:n1'' 600), Inr (c, []))"
proof -
  obtain c where c: "active_controller ex_adb ''gate-7'' = Some c" "ec_uid c = ''gate-7''"
      "ec_api_key_hash c = ''6b''" "ec_ip_allowlist c = JScalar JNull"
    using ex_active by blast
  let ?sig = "compute_signature ex_rt (utf8 (utext_of ''seed:gate-7''))
      (canonical_string ex_rt ''GET'' ex_path ts ''n1'' [])"
  have cr: "credentials_of (ex_headers ts) = \<lparr>cr_controller_uid = ''gate-7'', cr_api_key = ''k'',
      cr_timestamp = int_str ts, cr_nonce = ''n1'', cr_signature = ?sig\<rparr>"
    using credentials_of_signed [of Map.empty] by (simp add: ex_headers_def)
  have sig: "compare_digest ?sig ?sig = Inr True" "?sig \<noteq> []"
    using hexdigest_ascii by (simp_all add: compare_digest_def compute_signature_def)
      (simp add: hexdigest_def ex_rt_def)
  have key: "compare_digest (hash_api_key ex_rt ''k'') ''6b'' = Inr True"
    by (simp add: ex_key compare_digest_def ascii_text_def)
  have same: "active_controller db = active_controller ex_adb"
    using assms(5) by (simp add: fun_eq_iff active_controller_def)
  have "check_credentials ex_rt db wall 300 ''GET'' ex_path [] (credentials_of (ex_headers ts)) ip = Inr c" for ip
    using c sig key ex_secret py_int_int_str [OF few_digits [OF assms(3)]] assms(1,2)
    by (simp add: check_credentials_def same cr all_present_def client_ip_allowed_def)
  moreover have "ex_headers ts ''content-length'' = None"
    by (simp add: ex_headers_def sign_request_def Let_def)
  moreover have "nonce_key (credentials_of (ex_headers ts)) = ''gate-7:n1''"
    by (simp add: cr nonce_key_def)
  ultimately show ?thesis using assms(4) c(1,2)
    by (auto simp: authenticate_edge_def authenticate_def ex_poll_def read_body_Inr_iff Let_def
        read_body_capped_def default_timestamp_window_seconds_def default_nonce_ttl_seconds_def
        split: prod.split bool.split)
qed

text \<open>C10: whoever is accepted as a controller has shown the controller's key, comes from its
  allowed addresses, has a time stamp within the window, and has signed this method, this path,
  this time stamp, this nonce and this whole body with the controller's own secret; and a path that
  names a controller names this one.\<close>

theorem accepted_request_is_authentic:
  assumes "authenticate_edge seen rt db wall ticks rq st = (st', Inr (c, body))"
  shows "c \<in> set (controllers db) \<and> ec_is_active c \<and> ec_status c = Controller_active
    \<and> rq_headers rq ''x-ac-controller'' = Some (ec_uid c)
    \<and> rq_controller_id rq \<in> {None, Some (ec_uid c)}
    \<and> (\<exists>key. rq_headers rq ''x-ac-key'' = Some key \<and> hash_api_key rt key = ec_api_key_hash c)
    \<and> client_ip_allowed rt c (resolve_client_ip rt (rq_client_host rq) (rq_headers rq))
    \<and> body = concat (rq_chunks rq)
    \<and> (\<exists>stamp ts nonce secret. rq_headers rq ''x-ac-timestamp'' = Some stamp \<and> py_int stamp = Some ts
         \<and> \<bar>wall div seconds 1 - ts\<bar> \<le> default_timestamp_window_seconds
         \<and> rq_headers rq ''x-ac-nonce'' = Some nonce \<and> resolve_device_secret rt (ec_uid c) = Inr secret
         \<and> rq_headers rq ''x-ac-signature''
             = Some (compute_signature rt secret
                 (canonical_string rt (rq_method rq) (rq_path rq) ts nonce body)))"
proof -
  let ?cr = "credentials_of (rq_headers rq)"
  note a = authenticate_edge_accepts [OF assms]
  note k = check_credentials_accepts [OF a(2)]
  have h: "rq_headers rq n = Some v" if "header_or_empty (rq_headers rq) n = v" "v \<noteq> []" for n v
    using that by (auto simp: header_or_empty_def split: option.splits)
  have fields: "rq_headers rq ''x-ac-controller'' = Some (cr_controller_uid ?cr)"
    "rq_headers rq ''x-ac-key'' = Some (cr_api_key ?cr)"
    "rq_headers rq ''x-ac-timestamp'' = Some (cr_timestamp ?cr)"
    "rq_headers rq ''x-ac-nonce'' = Some (cr_nonce ?cr)"
    "rq_headers rq ''x-ac-signature'' = Some (cr_signature ?cr)"
    using k(1) by (auto intro!: h simp: all_present_def credentials_of_def)
  have c: "c \<in> set (controllers db) \<and> ec_uid c = cr_controller_uid ?cr \<and> ec_is_active c
      \<and> ec_status c = Controller_active"
    using first_row_Some [OF k(2) [unfolded active_controller_def]] by simp
  have body: "body = concat (rq_chunks rq)" using a(1) by (simp add: read_body_Inr_iff)
  show ?thesis using c fields k(3-5) a(4) body by (cases "rq_controller_id rq") auto
qed

lemma accepted_request_is_authentic_witness:
  "\<exists>c. c \<in> set (controllers ex_adb) \<and> ec_is_active c \<and> Some (ec_uid c) = ex_headers 1000 ''x-ac-controller''"
proof -
  have "\<not> snd (store_seen 0 (Memory_store []) ''gate-7:n1'' 600)"
    by (simp add: store_seen_def memory_seen_def Let_def)
  from ex_poll_accepted [OF _ _ _ this refl, of 1000000000 1000 0] obtain c where
    "authenticate_edge store_seen ex_rt ex_adb 1000000000 0 (ex_poll 1000) (Memory_store [])
     = (fst (store_seen 0 (Memory_store []) ''gate-7:n1'' 600), Inr (c, []))"
    by (auto simp: seconds_def)
  from accepted_request_is_authentic [OF this] show ?thesis
    by (intro exI [of _ c]) (simp add: ex_poll_def)
qed

subsection \<open>Replays\<close>

text \<open>C31: what was accepted once is not accepted again.  Let a request be accepted whose time stamp
  is less than the whole window ahead of the clock.  After any other requests in between, every
  request with the same controller, nonce and time stamp headers is refused, in memory and in
  Redis, as long as the store's clock and the wall clock run alike.\<close>

theorem replay_refused:
  assumes "authenticate_edge store_seen rt db wall ticks rq st = (st1, Inr (c, body))"
    and "rq_headers rq ''x-ac-timestamp'' = Some stamp" "py_int stamp = Some ts"
    and "ts < wall div seconds 1 + default_timestamp_window_seconds"
    and "list_all (\<lambda>(db, wall, tk, rq). tk \<le> ticks') between"
    and "\<forall>h\<in>{''x-ac-controller'', ''x-ac-nonce'', ''x-ac-timestamp''}. rq_headers rq' h = rq_headers rq h"
    and "wall \<le> wall'" "wall' - wall = ticks' - ticks"
  shows "\<exists>f. snd (authenticate_edge store_seen rt db' wall' ticks' rq'
      (serve_edge store_seen rt st1 between)) = Inl f"
proof (cases "snd (authenticate_edge store_seen rt db' wall' ticks' rq'
      (serve_edge store_seen rt st1 between))")
  case (Inr r)
  let ?cr = "credentials_of (rq_headers rq)"
  have cr: "nonce_key (credentials_of (rq_headers rq')) = nonce_key ?cr"
      "cr_timestamp (credentials_of (rq_headers rq')) = stamp"
    using assms(2,6) by (simp_all add: nonce_key_def credentials_of_def header_or_empty_def)
  obtain st2 c' body' where acc: "authenticate_edge store_seen rt db' wall' ticks' rq'
      (serve_edge store_seen rt st1 between) = (st2, Inr (c', body'))"
    using Inr by (metis prod.collapse)
  have "\<bar>wall' div seconds 1 - ts\<bar> \<le> default_timestamp_window_seconds"
    using check_credentials_accepts(5) [OF authenticate_edge_accepts(2) [OF acc]] cr(2) assms(3) by auto
  then have "wall' < wall + seconds default_nonce_ttl_seconds"
    using assms(4) by (simp add: seconds_def default_timestamp_window_seconds_def
        default_nonce_ttl_seconds_def abs_le_iff) linarith
  then have before: "ticks' < ticks + seconds default_nonce_ttl_seconds" using assms(8) by linarith
  have "list_all (\<lambda>(db, wall, tk, rq). tk < ticks + seconds default_nonce_ttl_seconds) between"
    using assms(5) before by (fastforce simp: list_all_iff)
  from store.serve_keeps [OF store.accepted_nonce_live [OF assms(1)] this]
  have "store_live (serve_edge store_seen rt st1 between) (nonce_key (credentials_of (rq_headers rq')))
      = Some (ticks + seconds default_nonce_ttl_seconds)" by (simp add: cr(1))
  from store.live_nonce_refused [OF this before] show ?thesis .
qed simp

lemma replay_refused_witness:
  "\<exists>st1 c. authenticate_edge store_seen ex_rt ex_adb 1000000000 0 (ex_poll 1000) (Memory_store [])
       = (st1, Inr (c, []))
     \<and> (\<exists>f. snd (authenticate_edge store_seen ex_rt ex_adb 1300000000 300000000 (ex_poll 1000) st1) = Inl f)"
proof -
  have "\<not> snd (store_seen 0 (Memory_store []) ''gate-7:n1'' 600)"
    by (simp add: store_seen_def memory_seen_def Let_def)
  from ex_poll_accepted [OF _ _ _ this refl, of 1000000000 1000 0] obtain c where
    a: "authenticate_edge store_seen ex_rt ex_adb 1000000000 0 (ex_poll 1000) (Memory_store [])
     = (fst (store_seen 0 (Memory_store []) ''gate-7:n1'' 600), Inr (c, []))"
    by (auto simp: seconds_def)
  have "rq_headers (ex_poll 1000) ''x-ac-timestamp'' = Some (int_str 1000)"
    by (simp add: ex_poll_def ex_headers_def sign_request_def Let_def)
  from replay_refused [OF a this py_int_int_str [OF few_digits], where between = "[]"
      and ticks' = 300000000 and rq' = "ex_poll 1000" and wall' = 1300000000 and db' = ex_adb]
  show ?thesis using a
    by (auto simp: seconds_def default_timestamp_window_seconds_def)
qed

text \<open>The bound on the time stamp is needed.  A request accepted a whole window ahead of its
  time stamp is accepted again, unchanged, when the nonce has just died: the lifetime of a nonce is
  twice the window, and the last instant of the one is the first after the other.\<close>

theorem replay_at_window_edge:
  assumes "authenticate_edge store_seen rt db wall ticks rq st = (st1, Inr (c, body))" "store_wf st"
    and "rq_headers rq ''x-ac-timestamp'' = Some stamp" "py_int stamp = Some ts"
    and "ts = wall div seconds 1 + default_timestamp_window_seconds"
  shows "\<exists>st2. authenticate_edge store_seen rt db (wall + seconds 600) (ticks + seconds 600) rq st1
    = (st2, Inr (c, body))"
proof -
  let ?cr = "credentials_of (rq_headers rq)"
  note a = authenticate_edge_accepts [OF assms(1)]
  have w: "(wall + seconds 600) div seconds 1 = wall div seconds 1 + 600" by (simp add: seconds_def)
  have stamp: "cr_timestamp ?cr = stamp"
    using assms(3) by (simp add: credentials_of_def header_or_empty_def)
  have passes: "check_credentials rt db (wall + seconds 600) default_timestamp_window_seconds (rq_method rq)
      (rq_path rq) body ?cr (resolve_client_ip rt (rq_client_host rq) (rq_headers rq)) = Inr c"
    by (rule check_credentials_other_clock [OF a(2), of ts])
       (use assms(4,5) in \<open>simp_all add: stamp w default_timestamp_window_seconds_def\<close>)
  have "store_wf st1" using store.wf_seen [OF assms(2)] a(3) by (metis fst_conv)
  then have "\<not> snd (store_seen (ticks + seconds 600) st1 (nonce_key ?cr) default_nonce_ttl_seconds)"
    by (rule store.expired [OF _ store.accepted_nonce_live [OF assms(1)]])
       (simp add: default_nonce_ttl_seconds_def)
  then obtain st2 where "store_seen (ticks + seconds 600) st1 (nonce_key ?cr) default_nonce_ttl_seconds = (st2, False)"
    by (cases "store_seen (ticks + seconds 600) st1 (nonce_key ?cr) default_nonce_ttl_seconds") simp
  then show ?thesis using passes a(1,4)
    by (auto simp: authenticate_edge_def authenticate_def Let_def split: option.split)
qed

lemma replay_at_window_edge_witness:
  "\<exists>st1 st2 c. authenticate_edge store_seen ex_rt ex_adb 700000000 0 (ex_poll 1000) (Memory_store [])
       = (st1, Inr (c, []))
     \<and> authenticate_edge store_seen ex_rt ex_adb 1300000000 600000000 (ex_poll 1000) st1 = (st2, Inr (c, []))"
proof -
  have "\<not> snd (store_seen 0 (Memory_store []) ''gate-7:n1'' 600)"
    by (simp add: store_seen_def memory_seen_def Let_def)
  from ex_poll_accepted [OF _ _ _ this refl, of 700000000 1000 "- 300"] obtain c where
    a: "authenticate_edge store_seen ex_rt ex_adb 700000000 0 (ex_poll 1000) (Memory_store [])
     = (fst (store_seen 0 (Memory_store []) ''gate-7:n1'' 600), Inr (c, []))"
    by (auto simp: seconds_def)
  have "rq_headers (ex_poll 1000) ''x-ac-timestamp'' = Some (int_str 1000)"
    by (simp add: ex_poll_def ex_headers_def sign_request_def Let_def)
  moreover have "store_wf (Memory_store [])" by (simp add: store_wf_def distinct_keys_def)
  moreover have "py_int (int_str 1000) = Some 1000" by (rule py_int_int_str [OF few_digits]) simp
  moreover have "1000 = 700000000 div seconds 1 + default_timestamp_window_seconds"
    by (simp add: seconds_def default_timestamp_window_seconds_def)
  ultimately obtain st2 where "authenticate_edge store_seen ex_rt ex_adb (700000000 + seconds 600) (0 + seconds 600)
      (ex_poll 1000) (fst (store_seen 0 (Memory_store []) ''gate-7:n1'' 600)) = (st2, Inr (c, []))"
    using replay_at_window_edge [OF a] by blast
  moreover have "700000000 + seconds 600 = 1300000000" "0 + seconds 600 = 600000000"
    by (simp_all add: seconds_def)
  ultimately show ?thesis using a by (intro exI conjI) simp_all
qed

text \<open>A refused request spends no nonce: unless it was refused only for the path, every key that
  the store holds afterwards it held before, and every live key stays live.\<close>

theorem refusal_spends_no_nonce:
  assumes "authenticate_edge store_seen rt db wall ticks rq st = (st', Inl f)" "store_wf st"
    and "f \<noteq> Http 403 ''controller path mismatch''"
  shows "(\<forall>k e. store_live st' k = Some e \<longrightarrow> store_live st k = Some e)
    \<and> (\<forall>k e. store_live st k = Some e \<and> ticks < e \<longrightarrow> store_live st' k = Some e)"
proof -
  have "store_live st' k = Some e" if "store_live st k = Some e" "ticks < e" for k e
    using store.authenticate_edge_keeps [OF that, of rt db wall rq] assms(1) by simp
  then show ?thesis using store.refusal_spends_nothing [OF assms(2,1,3)] by blast
qed

lemma refusal_spends_no_nonce_witness:
  "store_live (fst (authenticate_edge store_seen ex_rt ex_adb 2000000000 0 (ex_poll 1000) (Memory_store [(''x'', 5)])))
     ''x'' = Some 5"
proof -
  let ?r = "authenticate_edge store_seen ex_rt ex_adb 2000000000 0 (ex_poll 1000) (Memory_store [(''x'', 5)])"
  have "case snd ?r of Inl (Http code _) \<Rightarrow> code = 401 | _ \<Rightarrow> False" by code_simp
  then obtain st' f where r: "?r = (st', Inl f)" "f \<noteq> Http 403 ''controller path mismatch''"
    by (cases ?r) (auto split: sum.splits http_fault.splits)
  from refusal_spends_no_nonce [OF r(1) _ r(2)] show ?thesis
    using r(1) by (simp add: store_wf_def distinct_keys_def store_live_def)
qed

subsection \<open>What is signed\<close>

text \<open>The bytes under the HMAC determine the request: if two requests, with methods and nonces of
  one line, have the same signed bytes, they agree in the method (up to case), the path, the time
  stamp, the nonce and the hash of the body.\<close>

theorem signature_covers_request:
  assumes "utf8 (canonical_string rt m1 p1 t1 n1 b1) = utf8 (canonical_string rt m2 p2 t2 n2 b2)"
    and "list_all code_point p1" "list_all code_point p2"
    and "CHR 0x0A \<notin> set m1" "CHR 0x0A \<notin> set m2" "CHR 0x0A \<notin> set n1" "CHR 0x0A \<notin> set n2"
  shows "concat (map upper_point (utext_of m1)) = concat (map upper_point (utext_of m2))
    \<and> p1 = p2 \<and> t1 = t2 \<and> n1 = n2 \<and> body_hash rt b1 = body_hash rt b2"
proof -
  have "canonical_string rt m1 p1 t1 n1 b1 = canonical_string rt m2 p2 t2 n2 b2"
    using utf8_inj [OF _ _ assms(1)] canonical_points assms(2,3) by blast
  from canonical_string_lines [OF this] show ?thesis
    using assms(4-7) no_line_feed by blast
qed

lemma signature_covers_request_witness:
  "utf8 (canonical_string ex_rt ''get'' ex_path 5 ''n'' [1]) = utf8 (canonical_string ex_rt ''GET'' ex_path 5 ''n'' [1])
   \<and> concat (map upper_point (utext_of ''get'')) = concat (map upper_point (utext_of ''GET''))"
proof -
  have p: "list_all code_point ex_path" unfolding ex_path_def by (rule utext_of_points)
  have e: "utf8 (canonical_string ex_rt ''get'' ex_path 5 ''n'' [1]) = utf8 (canonical_string ex_rt ''GET'' ex_path 5 ''n'' [1])"
    by code_simp
  have "concat (map upper_point (utext_of ''get'')) = concat (map upper_point (utext_of ''GET''))"
    using signature_covers_request [OF e p p] by simp
  with e show ?thesis by simp
qed

end
