(* ===== verification/AccessQueueTheorems.thy ===== *)
theory AccessQueueTheorems
  imports AccessExamples
begin

section \<open>The command queue and the edge\<close>

text \<open>
  A command is leased at most once, the oldest first and only to its controller; an
  acknowledgement is a compare-and-set that repeats harmlessly; and the edge calls its relay at
  most once per command, over repeated deliveries and restarts.
\<close>

subsection \<open>Leases\<close>

text \<open>An attempt to lease hands out a command only when one is pending for that controller and
  does not expire within the lease, and then the oldest such command, which it marks leased under
  the hash of the token; otherwise it changes nothing.\<close>

theorem lease_takes_oldest_own_command:
  "case try_lease sha db now token controller ttl of
     (db', None) \<Rightarrow> db' = db \<and> filter (leasable now controller ttl) (commands db) = []
   | (db', Some l) \<Rightarrow> lc_lease_token l = token
       \<and> (\<exists>c\<in>set (commands db). lc_command_id l = bc_command_id c
           \<and> lc_barrier_id l = bc_barrier_id c \<and> bc_controller_id c = controller
           \<and> bc_status c = Command_pending
           \<and> (\<forall>t. bc_expires_at c = Some t \<longrightarrow> now + seconds ttl < t)
           \<and> list_all (\<lambda>c'. bc_created_at c \<le> bc_created_at c')
               (filter (leasable now controller ttl) (commands db))
           \<and> commands db' = upd_where (\<lambda>r. bc_command_id r = bc_command_id c)
               (\<lambda>r. r\<lparr>bc_status := Command_leased, bc_lease_token := Some (sha (utext_of token)),
                      bc_lease_expires_at := Some (now + seconds ttl),
                      bc_attempts := bc_attempts r + 1, bc_leased_at := Some now\<rparr>) (commands db))"
proof (cases rule: try_lease_cases [of sha db now token controller ttl])
  case none
  then show ?thesis by (auto simp: filter_empty_conv list_ex_iff)
next
  case (leased c)
  have c: "bc_controller_id c = controller" "bc_status c = Command_pending"
    "\<forall>t. bc_expires_at c = Some t \<longrightarrow> now + seconds ttl < t"
    using leased(2) by (auto simp: leasable_def split: option.splits)
  have old: "list_all (\<lambda>c'. bc_created_at c \<le> bc_created_at c')
      (filter (leasable now controller ttl) (commands db))"
    using leased(3) by (auto simp: list_all_iff)
  have f: "lease_row now ttl (hash_lease_token sha token)
    = (\<lambda>r. r\<lparr>bc_status := Command_leased, bc_lease_token := Some (sha (utext_of token)),
        bc_lease_expires_at := Some (now + seconds ttl), bc_attempts := bc_attempts r + 1,
        bc_leased_at := Some now\<rparr>)"
    by (simp add: lease_row_def [abs_def] hash_lease_token_def)
  show ?thesis unfolding leased(4) f
    by (simp, rule bexI [OF _ leased(1)]) (use c old in simp)
qed

lemma lease_takes_oldest_own_command_witness:
  "\<exists>db' l. try_lease ex_sha ex_db3 5000 ''tok'' 7 30 = (db', Some l) \<and> lc_lease_token l = ''tok''
     \<and> (\<exists>c\<in>set (commands ex_db3). lc_command_id l = bc_command_id c \<and> bc_controller_id c = 7)"
proof -
  let ?r = "try_lease ex_sha ex_db3 5000 ''tok'' 7 30"
  have "snd ?r \<noteq> None" by code_simp
  then obtain db' l where r: "?r = (db', Some l)" by (cases ?r) auto
  then show ?thesis using lease_takes_oldest_own_command [where sha = ex_sha and db = ex_db3 and now = 5000
        and token = "''tok''" and controller = 7 and ttl = 30] by auto
qed

lemma lease_next_Some:
  assumes "lease_next_command sha db attempts controller ttl = (db', Some l)"
  shows "\<exists>now token. (now, token) \<in> set attempts
    \<and> try_lease sha db now token controller ttl = (db', Some l)"
  using assms
proof (induction attempts arbitrary: db)
  case (Cons a attempts)
  obtain now token where a: "a = (now, token)" by (cases a)
  show ?case
  proof (cases rule: try_lease_cases [of sha db now token controller ttl])
    case none
    have "lease_next_command sha db attempts controller ttl = (db', Some l)"
      using Cons.prems none(1) a by simp
    from Cons.IH [OF this] show ?thesis using a by auto
  next
    case (leased c)
    then show ?thesis using Cons.prems a by auto
  qed
qed simp

lemma lease_takes:
  assumes "try_lease sha db now token controller ttl = (db', Some l)"
  shows "taken db' (lc_command_id l)
    \<and> (\<exists>c\<in>set (commands db). bc_command_id c = lc_command_id l \<and> bc_status c = Command_pending)"
  using assms
proof (cases rule: try_lease_cases [of sha db now token controller ttl])
  case (leased c)
  let ?f = "lease_row now ttl (hash_lease_token sha token)"
  have "?f c \<in> set (upd_where (\<lambda>r. bc_command_id r = bc_command_id c) ?f (commands db))"
    using leased(1) by (auto simp: set_upd_where)
  moreover have "bc_command_id (?f c) = bc_command_id c" "bc_status (?f c) = Command_leased"
    by (simp_all add: lease_row_def)
  ultimately have "taken (db\<lparr>commands := upd_where (\<lambda>r. bc_command_id r = bc_command_id c) ?f (commands db)\<rparr>)
      (bc_command_id c)"
    by (auto simp: taken_def list_ex_iff intro!: bexI [where x = "?f c"])
  then show ?thesis using leased assms by (auto simp: leasable_def)
qed simp


definition ex_db_two :: access_db where
  "ex_db_two = fst (lease_next_command ex_sha ex_db3 [(5000, ''tok'')] 7 30)"


subsection \<open>Acknowledgements\<close>

text \<open>The row of a command in a table with unique ids.\<close>

definition sole_command :: "access_db \<Rightarrow> nat \<Rightarrow> barrier_command \<Rightarrow> bool" where
  "sole_command db cmd c \<longleftrightarrow>
     c \<in> set (commands db) \<and> bc_command_id c = cmd
     \<and> (\<forall>x\<in>set (commands db). bc_command_id x = cmd \<longrightarrow> x = c)"

lemma sole_command_unique:
  assumes "distinct (map bc_command_id (commands db))" "c \<in> set (commands db)"
  shows "sole_command db (bc_command_id c) c"
proof -
  have "x = c" if "x \<in> set (commands db)" "bc_command_id x = bc_command_id c" for x
    using that assms inj_onD [of bc_command_id "set (commands db)" x c] by (simp add: distinct_map)
  then show ?thesis using assms(2) by (simp add: sole_command_def)
qed

lemma sole_command_upd:
  assumes "sole_command db cmd c" "P c" "bc_command_id (f c) = cmd" "\<And>x. P x \<Longrightarrow> bc_command_id x = cmd"
  shows "sole_command (db\<lparr>commands := upd_where P f (commands db)\<rparr>) cmd (f c)"
  unfolding sole_command_def
proof (intro conjI ballI impI)
  show "f c \<in> set (commands (db\<lparr>commands := upd_where P f (commands db)\<rparr>))"
    using assms(1,2) by (auto simp: sole_command_def set_upd_where)
  show "bc_command_id (f c) = cmd" by (rule assms(3))
next
  fix x assume x: "x \<in> set (commands (db\<lparr>commands := upd_where P f (commands db)\<rparr>))" "bc_command_id x = cmd"
  then obtain y where y: "y \<in> set (commands db)" "x = (if P y then f y else y)"
    by (auto simp: upd_where_def)
  have "bc_command_id y = cmd" using x(2) y(2) assms(4) by (auto split: if_splits)
  then have "y = c" using assms(1) y(1) by (simp add: sole_command_def)
  then show "x = f c" using y(2) assms(2) by simp
qed

lemma ack_on_acked:
  assumes "sole_command db cmd c" "bc_controller_id c = controller" "bc_status c = Command_acked"
  shows "ack_command sha db now controller cmd token result =
    (if bc_lease_token c = Some (sha (utext_of token))
     then Some (db, \<lparr>ao_command_id = cmd, ao_result = bc_ack_result c, ao_replayed = True\<rparr>) else None)"
proof -
  let ?mine = "\<lambda>x. bc_command_id x = cmd \<and> bc_controller_id x = controller"
  have "row_count (\<lambda>x. ?mine x \<and> bc_lease_token x = Some (hash_lease_token sha token)
      \<and> bc_status x = Command_leased) (commands db) = 0"
    using assms by (auto simp: row_count_zero_iff sole_command_def)
  moreover have "first_row ?mine (commands db) = Some c"
  proof -
    obtain x where x: "first_row ?mine (commands db) = Some x"
      using assms by (cases "first_row ?mine (commands db)") (auto simp: first_row_None sole_command_def)
    then have "x = c" using first_row_Some [OF x] assms(1) by (auto simp: sole_command_def)
    then show ?thesis using x by simp
  qed
  ultimately show ?thesis using assms(3) by (simp add: ack_command_def Let_def hash_lease_token_def)
qed

lemma ack_cases:
  assumes "ack_command sha db now controller cmd token result = Some (db1, out)"
  obtains (first) c where "c \<in> set (commands db)" "bc_command_id c = cmd" "bc_controller_id c = controller"
      "bc_lease_token c = Some (sha (utext_of token))" "bc_status c = Command_leased"
      "out = \<lparr>ao_command_id = cmd, ao_result = result, ao_replayed = False\<rparr>"
      "db1 = db\<lparr>commands := upd_where (\<lambda>x. (bc_command_id x = cmd \<and> bc_controller_id x = controller)
          \<and> bc_lease_token x = Some (sha (utext_of token)) \<and> bc_status x = Command_leased)
          (ack_row now result) (commands db)\<rparr>"
  | (again) c where "c \<in> set (commands db)" "bc_command_id c = cmd" "bc_controller_id c = controller"
      "bc_lease_token c = Some (sha (utext_of token))" "bc_status c = Command_acked"
      "out = \<lparr>ao_command_id = cmd, ao_result = bc_ack_result c, ao_replayed = True\<rparr>" "db1 = db"
proof (cases "0 < row_count (\<lambda>x. (bc_command_id x = cmd \<and> bc_controller_id x = controller)
          \<and> bc_lease_token x = Some (sha (utext_of token)) \<and> bc_status x = Command_leased) (commands db)")
  case True
  moreover from this obtain c where "c \<in> set (commands db)" "bc_command_id c = cmd"
      "bc_controller_id c = controller" "bc_lease_token c = Some (sha (utext_of token))"
      "bc_status c = Command_leased"
    by (auto simp: row_count_pos_iff)
  ultimately show thesis using assms
    by (intro first [of c]) (simp_all add: ack_command_def Let_def hash_lease_token_def)
next
  case False
  then obtain c where f: "first_row (\<lambda>x. bc_command_id x = cmd \<and> bc_controller_id x = controller)
        (commands db) = Some c"
    and c: "bc_status c = Command_acked" "bc_lease_token c = Some (sha (utext_of token))"
      "out = \<lparr>ao_command_id = cmd, ao_result = bc_ack_result c, ao_replayed = True\<rparr>" "db1 = db"
    using assms by (auto simp: ack_command_def Let_def hash_lease_token_def split: option.splits if_splits)
  show thesis using first_row_Some [OF f] c by (intro again [of c]) simp_all
qed

text \<open>An acknowledgement is accepted only for a command of that controller under the token it was
  leased with.  The first one, on a leased command, stores its result; repeating it in the state it
  left, with any result, changes nothing and is answered with the stored result; and in that state
  another token (one with another hash) is a conflict.\<close>

theorem ack_is_compare_and_set:
  assumes "reach acc_init (acc_step sha) db"
    and "ack_command sha db now controller cmd token result = Some (db1, out)"
  shows "(\<exists>c\<in>set (commands db). bc_command_id c = cmd \<and> bc_controller_id c = controller
      \<and> bc_lease_token c = Some (sha (utext_of token))
      \<and> (if ao_replayed out then bc_status c = Command_acked \<and> db1 = db \<and> ao_result out = bc_ack_result c
         else bc_status c = Command_leased \<and> ao_result out = result
           \<and> (\<exists>c'\<in>set (commands db1). bc_command_id c' = cmd \<and> bc_status c' = Command_acked
                \<and> bc_ack_result c' = result)))
    \<and> ack_command sha db1 now2 controller cmd token result2 = Some (db1, out\<lparr>ao_replayed := True\<rparr>)
    \<and> (sha (utext_of token2) \<noteq> sha (utext_of token)
        \<longrightarrow> ack_command sha db1 now2 controller cmd token2 result2 = None)"
proof -
  have dist: "distinct (map bc_command_id (commands db))"
    using access.inv_reach [OF assms(1)] by (simp add: access_inv_def commands_ok_def)
  from assms(2) show ?thesis
  proof (cases rule: ack_cases)
    case (first c)
    let ?c = "ack_row now result c"
    have s: "sole_command db1 cmd ?c"
      unfolding first(7)
      by (rule sole_command_upd) (use sole_command_unique [OF dist first(1)] first(2-5) in \<open>simp_all add: ack_row_def\<close>)
    have c: "bc_controller_id ?c = controller" "bc_status ?c = Command_acked"
      "bc_lease_token ?c = Some (sha (utext_of token))" "bc_ack_result ?c = result" "bc_command_id ?c = cmd"
      using first by (simp_all add: ack_row_def)
    have m: "?c \<in> set (commands db1)" using s by (simp add: sole_command_def)
    have "\<exists>c'\<in>set (commands db1). bc_command_id c' = cmd \<and> bc_status c' = Command_acked \<and> bc_ack_result c' = result"
      by (rule bexI [OF _ m]) (simp add: c)
    then show ?thesis
      using ack_on_acked [OF s c(1,2)] c first by (auto intro: bexI [OF _ first(1)])
  next
    case (again c)
    have s: "sole_command db cmd c" using sole_command_unique [OF dist again(1)] again(2) by simp
    show ?thesis
      using ack_on_acked [OF s again(3,5)] again by (auto intro: bexI [OF _ again(1)])
  qed
qed

definition ex_db_acked :: access_db where
  "ex_db_acked = ex_db_two\<lparr>commands := [ack_row 5500 (Some ''opened'') (hd (commands ex_db_two)), ex_c2]\<rparr>"

lemma ex_reach_two: "reach acc_init (acc_step ex_sha) ex_db_two"
  using reach_step [OF ex_reach3 acc_lease] unfolding ex_db_two_def by blast

lemma ack_is_compare_and_set_witness:
  "\<exists>out. ack_command ex_sha ex_db_acked 5600 7 1 ''tok'' None = Some (ex_db_acked, out)
     \<and> ao_result out = Some ''opened''"
proof -
  have a: "ack_command ex_sha ex_db_two 5500 7 1 ''tok'' (Some ''opened'')
    = Some (ex_db_acked, \<lparr>ao_command_id = 1, ao_result = Some ''opened'', ao_replayed = False\<rparr>)"
    by code_simp
  show ?thesis
    using ack_is_compare_and_set [OF ex_reach_two a, of 5600 None "''other''"] by simp
qed

subsection \<open>The edge\<close>

text \<open>What a consumer on any store keeps: the relay was called once for each command it was called
  for, and each of them is known to the store.\<close>

definition called_once :: "('s \<Rightarrow> nat \<Rightarrow> relay_result option) \<Rightarrow> 's \<times> nat list \<Rightarrow> bool" where
  "called_once get st \<longleftrightarrow> distinct (snd st) \<and> list_all (\<lambda>c. get (fst st) c \<noteq> None) (snd st)"

context processed_store
begin

lemma open_once_called_once:
  assumes "called_once get st" "open_once get put relay st c b = (st', r)"
  shows "called_once get st'"
proof (cases st)
  case (Pair s calls)
  show ?thesis
  proof (cases "get s c")
    case None
    then have "c \<notin> set calls" using assms(1) Pair by (auto simp: called_once_def list_all_iff)
    moreover have "get (put s c r') d \<noteq> None" if "d \<in> set calls \<or> d = c" for r' d
      using that assms(1) Pair get_put_known [of s d c r'] get_put_same [of s c r']
      by (auto simp: called_once_def list_all_iff)
    ultimately show ?thesis using assms Pair None
      by (auto simp: open_once_def called_once_def list_all_iff Let_def)
  next
    case (Some saved)
    then show ?thesis using assms Pair by (simp add: open_once_def)
  qed
qed

lemma fast_path_called_once:
  "called_once get st \<Longrightarrow> called_once get (fst (on_fast_path get put relay st c b))"
  using open_once_called_once [of st relay c b]
  by (simp add: on_fast_path_def split: prod.split)

lemma pull_called_once:
  assumes "called_once get st" "pull_once get put relay sha controller t1 t2 token db st = ((db', st'), out)"
  shows "called_once get st'"
proof (cases "try_lease sha db t1 token controller lease_ttl_seconds")
  case (Pair db1 l)
  show ?thesis
  proof (cases l)
    case None
    then show ?thesis using assms Pair by (simp add: pull_once_def)
  next
    case (Some x)
    obtain st1 r where o: "open_once get put relay st (lc_command_id x) (lc_barrier_id x) = (st1, r)"
      by (cases "open_once get put relay st (lc_command_id x) (lc_barrier_id x)")
    have "st' = st \<or> st' = st1"
      using assms(2) Pair Some o by (auto simp: pull_once_def Let_def split: if_splits)
    then show ?thesis using assms(1) open_once_called_once [OF assms(1) o] by auto
  qed
qed

end

text \<open>The edge with its file store: a push of the fast path, a pull against the server's queue, a
  restart of the process, and any change of the server's database.\<close>

inductive edge_step ::
    "(nat \<Rightarrow> int \<Rightarrow> relay_result) \<Rightarrow> (utext \<Rightarrow> string)
     \<Rightarrow> access_db \<times> (file_store \<times> nat list) \<Rightarrow> access_db \<times> (file_store \<times> nat list) \<Rightarrow> bool"
  for relay sha where
  edge_push: "edge_step relay sha (db, st) (db, fst (on_fast_path file_get file_put relay st c b))"
| edge_pull: "pull_once file_get file_put relay sha controller t1 t2 token db st = ((db', st'), out) \<Longrightarrow>
    edge_step relay sha (db, st) (db', st')"
| edge_restart: "edge_step relay sha (db, (s, calls)) (db, (file_restart s, calls))"
| edge_server: "edge_step relay sha (db, st) (db', st)"

text \<open>What the file holds is what the process knows.\<close>

definition file_synced :: "file_store \<Rightarrow> bool" where
  "file_synced s \<longleftrightarrow> (case fs_file s of None \<Rightarrow> fs_data s = (\<lambda>_. None) | Some d \<Rightarrow> fs_data s = d)"

lemma file_synced_put: "file_synced (file_put s c r)"
  by (simp add: file_synced_def file_put_def Let_def)

lemma file_restart_synced: "file_synced s \<Longrightarrow> file_restart s = s"
  by (cases s) (auto simp: file_synced_def file_restart_def split: option.splits)

lemma open_once_synced:
  "file_synced (fst st) \<Longrightarrow> open_once file_get file_put relay st c b = (st', r) \<Longrightarrow> file_synced (fst st')"
  by (cases st) (auto simp: open_once_def file_synced_put Let_def split: option.splits)

lemma pull_synced:
  assumes "file_synced (fst st)"
    "pull_once file_get file_put relay sha controller t1 t2 token db st = ((db', st'), out)"
  shows "file_synced (fst st')"
proof (cases "try_lease sha db t1 token controller lease_ttl_seconds")
  case (Pair db1 l)
  show ?thesis
  proof (cases l)
    case None
    then show ?thesis using assms Pair by (simp add: pull_once_def)
  next
    case (Some x)
    obtain st1 r where o: "open_once file_get file_put relay st (lc_command_id x) (lc_barrier_id x) = (st1, r)"
      by (cases "open_once file_get file_put relay st (lc_command_id x) (lc_barrier_id x)")
    have "st' = st \<or> st' = st1"
      using assms(2) Pair Some o by (auto simp: pull_once_def Let_def split: if_splits)
    then show ?thesis using assms(1) open_once_synced [OF assms(1) o] by auto
  qed
qed

definition edge_new :: "access_db \<times> (file_store \<times> nat list) \<Rightarrow> bool" where
  "edge_new st \<longleftrightarrow> snd st = (\<lparr>fs_data = (\<lambda>_. None), fs_file = None\<rparr>, [])"

definition edge_inv :: "access_db \<times> (file_store \<times> nat list) \<Rightarrow> bool" where
  "edge_inv st \<longleftrightarrow> called_once file_get (snd st) \<and> file_synced (fst (snd st))"

interpretation edge: preserved edge_new "edge_step relay sha" edge_inv for relay sha
proof unfold_locales
  show "edge_inv st" if "edge_new st" for st
    using that by (simp add: edge_new_def edge_inv_def called_once_def file_synced_def)
  show "edge_inv st'" if "edge_inv st" "edge_step relay sha st st'" for st st' relay sha
    using that(2,1)
  proof cases
    case (edge_push db st c b)
    obtain st1 r where o: "open_once file_get file_put relay st c b = (st1, r)"
      by (cases "open_once file_get file_put relay st c b")
    show ?thesis using edge_push that(1) open_once_synced [of st relay c b st1 r] o
        file_backed.fast_path_called_once [of st relay c b]
      by (simp add: edge_inv_def on_fast_path_def)
  next
    case (edge_pull controller t1 t2 token db st db' st'' out)
    then show ?thesis using that(1) pull_synced [OF _ edge_pull(3)]
        file_backed.pull_called_once [OF _ edge_pull(3)]
      by (simp add: edge_inv_def)
  next
    case (edge_restart db s calls)
    then show ?thesis using that(1) by (simp add: edge_inv_def file_restart_synced)
  next
    case (edge_server db st db')
    then show ?thesis using that(1) by (simp add: edge_inv_def)
  qed
qed

text \<open>Over any sequence of pushes, pulls and restarts, and whatever the server does meanwhile, the
  edge calls its relay at most once for a command.\<close>

theorem relay_called_at_most_once:
  assumes "reach edge_new (edge_step relay sha) (db, (s, calls))"
  shows "distinct calls"
  using edge.inv_reach [OF assms] by (simp add: edge_inv_def called_once_def)

definition ex_relay :: "nat \<Rightarrow> int \<Rightarrow> relay_result" where
  "ex_relay c b = \<lparr>rl_command_id = c, rl_opened = True, rl_deduplicated = False, rl_detail = None\<rparr>"

lemma relay_called_at_most_once_witness:
  "\<exists>st. reach edge_new (edge_step ex_relay ex_sha) (ex_db3, st) \<and> snd st = [4] \<and> distinct (snd st)"
proof -
  let ?s0 = "(\<lparr>fs_data = (\<lambda>_. None), fs_file = None\<rparr>, [])"
  let ?push = "\<lambda>st. fst (on_fast_path file_get file_put ex_relay st 4 9)"
  let ?s1 = "?push ?s0"
  let ?s2 = "?push (file_restart (fst ?s1), snd ?s1)"
  have r: "reach edge_new (edge_step ex_relay ex_sha) (ex_db3, ?s0)"
    by (rule reach_init) (simp add: edge_new_def)
  have "reach edge_new (edge_step ex_relay ex_sha) (ex_db3, ?s1)"
    using r by (rule reach_step) (rule edge_push)
  then have "reach edge_new (edge_step ex_relay ex_sha) (ex_db3, (fst ?s1, snd ?s1))" by simp
  then have "reach edge_new (edge_step ex_relay ex_sha) (ex_db3, (file_restart (fst ?s1), snd ?s1))"
    by (rule reach_step) (rule edge_restart)
  then have "reach edge_new (edge_step ex_relay ex_sha) (ex_db3, ?s2)"
    by (rule reach_step) (rule edge_push)
  then have 2: "reach edge_new (edge_step ex_relay ex_sha) (ex_db3, (fst ?s2, snd ?s2))" by simp
  have "snd ?s2 = [4]"
    by (simp add: on_fast_path_def open_once_def file_get_def file_put_def file_restart_def ex_relay_def Let_def)
  then show ?thesis using relay_called_at_most_once [OF 2] 2 by auto
qed

end
