(* ===== verification/EdgeTheorems.thy ===== *)
theory EdgeTheorems
  imports EdgeEndpoints DeviceTheorems AccessQueueTheorems
begin

section \<open>Theorems on the endpoints of the edge\<close>

text \<open>
  What the edge can do over HTTP: only steps of the services, only when authenticated, and only on
  the rows of the controller that signed the request.
\<close>

subsection \<open>Calls\<close>

inductive edge_call ::
    "(instant \<Rightarrow> 's \<Rightarrow> string \<Rightarrow> int \<Rightarrow> 's \<times> bool) \<Rightarrow> runtime \<Rightarrow> (utext \<Rightarrow> string) \<Rightarrow> moment
     \<Rightarrow> edge_request \<Rightarrow> 's edge_state \<Rightarrow> 's edge_state \<Rightarrow> bool" for seen rt sha m rq where
  call_anpr: "edge_call seen rt sha m rq s (fst (post_anpr_event seen rt sha decode m rq s))"
| call_poll: "edge_call seen rt sha m rq s (fst (get_next_command seen rt sha attempts m rq s))"
| call_ack: "edge_call seen rt sha m rq s (fst (post_command_ack seen rt sha decode_ack command m rq s))"
| call_heartbeat: "edge_call seen rt sha m rq s (fst (post_heartbeat seen rt decode_beat m rq s))"
| call_photos: "edge_call seen rt sha m rq s (fst (post_camera_event_photos seen rt upload event m rq s))"

text \<open>A call authenticates and then either leaves the database or lets the handler work on it.\<close>

lemma with_controller_cases:
  obtains (same) "snd (fst (with_controller seen rt m rq handler s)) = snd s"
  | (handled) c body st' where
      "authenticate_edge seen rt (snd s) (wall_clock m) (mo_ticks m) rq (fst s) = (st', Inr (c, body))"
      "snd (fst (with_controller seen rt m rq handler s)) = fst (handler c body (snd s))"
proof -
  obtain st' r where a: "authenticate_edge seen rt (snd s) (wall_clock m) (mo_ticks m) rq (fst s) = (st', r)"
    by (metis surj_pair)
  show ?thesis
  proof (cases r)
    case (Inl f)
    then show ?thesis using same a by (simp add: with_controller_def)
  next
    case (Inr cb)
    obtain c body where "cb = (c, body)" by (cases cb)
    then show ?thesis using handled a Inr
      by (simp add: with_controller_def case_prod_beta)
  qed
qed

text \<open>The rows of the other controllers.\<close>

definition foreign_rows ::
    "int \<Rightarrow> access_db \<Rightarrow> camera_event list \<times> barrier_command list \<times> edge_controller list" where
  "foreign_rows c db =
     (filter (\<lambda>r. ce_controller_id r \<noteq> c) (camera_events db),
      filter (\<lambda>r. bc_controller_id r \<noteq> c) (commands db),
      filter (\<lambda>r. ec_id r \<noteq> c) (controllers db))"

lemma filter_upd_where_other:
  assumes "\<And>r. r \<in> set rows \<Longrightarrow> P r \<Longrightarrow> \<not> Q r" "\<And>r. Q (f r) = Q r"
  shows "filter Q (upd_where P f rows) = filter Q rows"
  using assms(1)
proof (induction rows)
  case (Cons r rows)
  then show ?case using assms(2) by (auto simp: upd_where_def)
qed (simp add: upd_where_def)

lemma touch_controllers: "touch sha a b \<Longrightarrow> controllers b = controllers a"
  by (erule touch.cases) (simp_all add: append_decision_def Let_def split: prod.split)

lemma writes_controllers: "writes_to sha a b \<Longrightarrow> controllers b = controllers a"
  by (induction rule: rtranclp_induct) (auto dest: touch_controllers)

lemma ingest_foreign:
  assumes "access_inv sha db" "ingest_anpr sha env db raw = Inr (db', res)"
  shows "foreign_rows (in_controller_id raw) db' = foreign_rows (in_controller_id raw) db"
proof -
  note run = assms(2) [unfolded ingest_anpr_def]
  have ctrl: "controllers db' = controllers db" using writes_controllers run_ingest_writes [OF run] by blast
  from run show ?thesis
  proof (cases rule: run_ingest_cases)
    case (recorded db1 e)
    note i = insert_idempotent_writes [OF recorded(3)]
    have key: "in_controller_id (scoped db raw) = in_controller_id raw" by (simp add: scoped_def Let_def)
    have cam: "\<exists>x. camera_events db1 = camera_events db @ [x] \<and> ce_controller_id x = in_controller_id raw"
      and com: "commands db1 = commands db"
      using recorded(3) key by (auto simp: insert_idempotent_def Let_def split: if_splits)
    have "access_inv sha db1" by (rule touch_inv [OF assms(1) i(1)])
    then have ok: "commands_ok db1" "decisions_ok db1" by (simp_all add: access_inv_def)
    show ?thesis
    proof (rule record_decision_tables [OF recorded(4) i(2) ok])
      fix d row
      assume "camera_events db' = camera_events db1" "commands db' = commands db1 @ row"
        "length row \<le> 1" "row \<noteq> [] \<Longrightarrow> sc_barrier_id (authorize_scope db raw) = Some (bc_barrier_id (hd row))
           \<and> ad_decision d = Allow \<and> ad_status d = Allowed
           \<and> bc_controller_id (hd row) = in_controller_id (scoped db raw)
           \<and> bc_decision_id (hd row) = Some (ad_id d)"
      moreover from this(3,4) have "filter (\<lambda>r. bc_controller_id r \<noteq> in_controller_id raw) row = []"
        using key by (cases row) auto
      ultimately show ?thesis using cam com ctrl by (auto simp: foreign_rows_def)
    qed
  qed (simp add: foreign_rows_def)
qed

lemma lease_foreign:
  assumes "commands_ok db"
  shows "foreign_rows c (fst (lease_next_command sha db attempts c ttl)) = foreign_rows c db"
proof (induction attempts)
  case (Cons a attempts)
  obtain now token where a: "a = (now, token)" by (cases a)
  show ?case
  proof (cases rule: try_lease_cases [of sha db now token c ttl])
    case none
    then show ?thesis using Cons.IH by (simp add: a)
  next
    case (leased x)
    have one: "r = x" if "r \<in> set (commands db)" "bc_command_id r = bc_command_id x" for r
      using assms that leased(1) by (auto simp: commands_ok_def distinct_map dest: inj_onD)
    have "\<not> bc_controller_id r \<noteq> c" if "r \<in> set (commands db)" "bc_command_id r = bc_command_id x" for r
      unfolding one [OF that] using leased(2) by (simp add: leasable_def)
    then have "filter (\<lambda>r. bc_controller_id r \<noteq> c) (upd_where (\<lambda>r. bc_command_id r = bc_command_id x)
        (lease_row now ttl (hash_lease_token sha token)) (commands db))
      = filter (\<lambda>r. bc_controller_id r \<noteq> c) (commands db)"
      by (rule filter_upd_where_other) (simp_all add: lease_row_def)
    then show ?thesis by (simp add: a leased(4) foreign_rows_def)
  qed
qed simp

lemma ack_foreign:
  "ack_command sha db now c i token result = Some (db', out) \<Longrightarrow> foreign_rows c db' = foreign_rows c db"
  by (auto simp: ack_command_def Let_def foreign_rows_def ack_row_def
      intro!: filter_upd_where_other split: if_splits option.splits)

lemma photo_foreign:
  "update_photo_ref db c e kind ref = Inr (db', i) \<Longrightarrow> foreign_rows c db' = foreign_rows c db"
  by (auto simp: update_photo_ref_def Let_def foreign_rows_def
      intro!: filter_upd_where_other split: if_splits)

lemma store_photos_foreign:
  "store_photos upload c e kinds updated db = Inr (db', u) \<Longrightarrow> foreign_rows c db' = foreign_rows c db"
proof (induction kinds arbitrary: updated db)
  case (Cons kind kinds)
  then show ?case
    by (auto split: option.splits sum.splits dest!: photo_foreign Cons.IH)
qed simp

text \<open>The steps of the services behind a call.\<close>

lemma store_photos_steps:
  "store_photos upload c e kinds updated db = Inr (db', u) \<Longrightarrow> (acc_step sha)\<^sup>*\<^sup>* db db'"
proof (induction kinds arbitrary: updated db)
  case (Cons kind kinds)
  then show ?case
    by (auto split: option.splits sum.splits dest!: acc_photo Cons.IH intro: converse_rtranclp_into_rtranclp)
qed simp

lemma heartbeat_step:
  assumes "access_inv sha db"
  shows "acc_step sha db (db\<lparr>controllers := upd_where P f (controllers db)\<rparr>)"
  by (rule acc_registry) (use assms in \<open>simp add: registry_change_def access_inv_def passes_ok_def\<close>)

definition effect_on_own :: "(utext \<Rightarrow> string) \<Rightarrow> edge_controller \<Rightarrow> access_db \<Rightarrow> access_db \<Rightarrow> bool" where
  "effect_on_own sha c db db' \<longleftrightarrow>
     (acc_step sha)\<^sup>*\<^sup>* db db' \<and> foreign_rows (ec_id c) db' = foreign_rows (ec_id c) db"

lemma effect_refl: "effect_on_own sha c db db"
  by (simp add: effect_on_own_def)

lemma effect_step:
  "acc_step sha db db' \<Longrightarrow> foreign_rows (ec_id c) db' = foreign_rows (ec_id c) db \<Longrightarrow> effect_on_own sha c db db'"
  by (simp add: effect_on_own_def)

lemma with_controller_effect:
  assumes "\<And>c body. effect_on_own sha c (snd s) (fst (handler c body (snd s)))"
  shows "snd (fst (with_controller seen rt m rq handler s)) = snd s
    \<or> (\<exists>c body st'. authenticate_edge seen rt (snd s) (wall_clock m) (mo_ticks m) rq (fst s) = (st', Inr (c, body))
         \<and> effect_on_own sha c (snd s) (snd (fst (with_controller seen rt m rq handler s))))"
  using assms by (cases rule: with_controller_cases [of seen rt m rq handler s]) auto

lemma edge_call_effect:
  assumes "edge_call seen rt sha m rq s s'" "access_inv sha (snd s)"
  shows "snd s' = snd s
    \<or> (\<exists>c body st'. authenticate_edge seen rt (snd s) (wall_clock m) (mo_ticks m) rq (fst s) = (st', Inr (c, body))
         \<and> effect_on_own sha c (snd s) (snd s'))"
  using assms(1)
proof cases
  case (call_anpr decode)
  show ?thesis unfolding call_anpr post_anpr_event_def
  proof (rule with_controller_effect, goal_cases)
    case (1 c body)
    have "in_controller_id (anpr_input c p) = ec_id c" for p by (simp add: anpr_input_def)
    then show ?case using ingest_foreign [OF assms(2)]
      by (auto simp: effect_refl intro!: effect_step acc_ingest split: option.split sum.split)
        (metis ingest_foreign [OF assms(2)])
  qed
next
  case (call_poll attempts)
  have "commands_ok (snd s)" using assms(2) by (simp add: access_inv_def)
  note f = lease_foreign [OF this]
  show ?thesis unfolding call_poll get_next_command_def
    by (rule with_controller_effect) (auto simp: case_prod_beta f intro!: effect_step acc_lease)
next
  case (call_ack decode command)
  show ?thesis unfolding call_ack post_command_ack_def
    by (rule with_controller_effect)
       (auto simp: effect_refl intro!: effect_step acc_ack ack_foreign split: option.split)
next
  case (call_heartbeat decode)
  have "foreign_rows (ec_id c) (db\<lparr>controllers := upd_where (\<lambda>r. ec_id r = ec_id c)
      (\<lambda>r. r\<lparr>ec_last_heartbeat_at := t, ec_clock_offset_ms := o'\<rparr>) (controllers db)\<rparr>) = foreign_rows (ec_id c) db"
    for c :: edge_controller and t o' and db :: access_db
    by (auto simp: foreign_rows_def intro!: filter_upd_where_other)
  then show ?thesis unfolding call_heartbeat post_heartbeat_def
    by (intro with_controller_effect)
       (auto simp: effect_refl intro!: effect_step heartbeat_step [OF assms(2)] split: option.split)
next
  case (call_photos upload event)
  show ?thesis unfolding call_photos post_camera_event_photos_def
    by (rule with_controller_effect)
       (auto simp: effect_on_own_def simp del: store_photos.simps
         intro: store_photos_steps dest: store_photos_foreign split: sum.split)
qed

subsection \<open>The theorems\<close>

lemma reach_star: "step\<^sup>*\<^sup>* a b \<Longrightarrow> reach ini step a \<Longrightarrow> reach ini step b"
  by (induction rule: rtranclp_induct) (auto intro: reach_step)

text \<open>The example controller polls while a command of its own is pending.\<close>

definition ex_moment :: moment where
  "ex_moment = \<lparr>mo_ticks = 0, mo_ambient = ex_env 1000000000 1\<rparr>"

lemma ex_poll_call:
  "\<exists>c st' db' l. ec_id c = 7
   \<and> authenticate_edge store_seen ex_rt ex_db3 (wall_clock ex_moment) (mo_ticks ex_moment) (ex_poll 1000)
       (Memory_store []) = (st', Inr (c, []))
   \<and> get_next_command store_seen ex_rt ex_sha [(5000, ''tok'')] ex_moment (ex_poll 1000) (Memory_store [], ex_db3)
       = ((st', db'), Inr (Some l)) \<and> lc_command_id l = 1 \<and> db' \<noteq> ex_db3"
proof -
  have n: "\<not> snd (store_seen 0 (Memory_store []) ''gate-7:n1'' 600)"
    by (simp add: store_seen_def memory_seen_def Let_def)
  have same: "controllers ex_db3 = controllers ex_adb"
    by (simp add: ex_db3_def ex_db2c_def ex_db2b_def ex_db2a_def ex_db2_def ex_db1_def ex_adb_def)
  from ex_poll_accepted [OF _ _ _ n same, of 1000000000 1000 0] obtain c where
    a: "active_controller ex_adb ''gate-7'' = Some c"
    "authenticate_edge store_seen ex_rt ex_db3 1000000000 0 (ex_poll 1000) (Memory_store [])
     = (fst (store_seen 0 (Memory_store []) ''gate-7:n1'' 600), Inr (c, []))"
    by (auto simp: seconds_def)
  have "map_option ec_id (active_controller ex_adb ''gate-7'') = Some 7" by code_simp
  then have c: "ec_id c = 7" using a(1) by simp
  let ?l = "lease_next_command ex_sha ex_db3 [(5000, ''tok'')] 7 lease_ttl_seconds"
  have "case snd ?l of Some l \<Rightarrow> lc_command_id l = 1 | None \<Rightarrow> False" by code_simp
  then obtain db' l where l: "?l = (db', Some l)" "lc_command_id l = 1"
    by (cases ?l) (auto split: option.splits)
  have "map bc_status (commands (fst ?l)) \<noteq> map bc_status (commands ex_db3)" by code_simp
  then have "db' \<noteq> ex_db3" using l(1) by auto
  then show ?thesis using a(2) l c
    by (auto simp: get_next_command_def with_controller_def ex_moment_def ex_env_def)
qed

text \<open>C9: a call that changes the database was accepted for a controller; it changes no camera event,
  no command and no registration of any other controller; and it is a sequence of steps of the
  services, so whatever holds in their reachable states holds behind the endpoints.\<close>

theorem edge_call_touches_own_rows:
  assumes "reach acc_init (acc_step sha) (snd s)" "edge_call seen rt sha m rq s s'" "snd s' \<noteq> snd s"
  shows "\<exists>c body st'. authenticate_edge seen rt (snd s) (wall_clock m) (mo_ticks m) rq (fst s) = (st', Inr (c, body))
    \<and> foreign_rows (ec_id c) (snd s') = foreign_rows (ec_id c) (snd s)
    \<and> reach acc_init (acc_step sha) (snd s')"
proof -
  have "access_inv sha (snd s)" by (rule access.inv_reach [OF assms(1)])
  from edge_call_effect [OF assms(2) this] assms(3)
  obtain c body st' where "authenticate_edge seen rt (snd s) (wall_clock m) (mo_ticks m) rq (fst s) = (st', Inr (c, body))"
    and e: "effect_on_own sha c (snd s) (snd s')" by blast
  moreover have "reach acc_init (acc_step sha) (snd s')"
    using e reach_star assms(1) by (auto simp: effect_on_own_def)
  ultimately show ?thesis using e by (auto simp: effect_on_own_def)
qed

lemma edge_call_touches_own_rows_witness:
  "\<exists>st' db'. edge_call store_seen ex_rt ex_sha ex_moment (ex_poll 1000) (Memory_store [], ex_db3) (st', db')
     \<and> db' \<noteq> ex_db3 \<and> reach acc_init (acc_step ex_sha) db' \<and> foreign_rows 7 db' = foreign_rows 7 ex_db3"
proof -
  obtain c st' db' l where e: "ec_id c = 7"
      "authenticate_edge store_seen ex_rt ex_db3 (wall_clock ex_moment) (mo_ticks ex_moment) (ex_poll 1000)
         (Memory_store []) = (st', Inr (c, []))"
      "get_next_command store_seen ex_rt ex_sha [(5000, ''tok'')] ex_moment (ex_poll 1000) (Memory_store [], ex_db3)
         = ((st', db'), Inr (Some l))" "db' \<noteq> ex_db3"
    using ex_poll_call by blast
  have call: "edge_call store_seen ex_rt ex_sha ex_moment (ex_poll 1000) (Memory_store [], ex_db3) (st', db')"
    using call_poll [of store_seen ex_rt ex_sha ex_moment "ex_poll 1000" "(Memory_store [], ex_db3)"
        "[(5000, ''tok'')]"] e(3) by simp
  from edge_call_touches_own_rows [OF _ call] show ?thesis
    using e ex_reach3 call by auto
qed

text \<open>A command leaves the server only in the answer to a request that its own controller signed,
  on its own path; it was pending, and when it stems from a decision, that decision let the vehicle
  in.\<close>

theorem commands_go_to_their_controller:
  assumes "reach acc_init (acc_step sha) (snd s)"
    and "get_next_command seen rt sha attempts m rq s = (s', Inr (Some l))"
  shows "\<exists>c\<in>set (controllers (snd s)). \<exists>row\<in>set (commands (snd s)).
      rq_headers rq ''x-ac-controller'' = Some (ec_uid c) \<and> rq_controller_id rq \<in> {None, Some (ec_uid c)}
    \<and> ec_is_active c \<and> ec_status c = Controller_active
    \<and> lc_command_id l = bc_command_id row \<and> bc_controller_id row = ec_id c
    \<and> bc_status row = Command_pending
    \<and> (\<forall>i. bc_decision_id row = Some i \<longrightarrow>
         (\<exists>d\<in>set (decisions (snd s)). ad_id d = i \<and> ad_decision d = Allow))"
proof -
  obtain c body st' where a: "authenticate_edge seen rt (snd s) (wall_clock m) (mo_ticks m) rq (fst s) = (st', Inr (c, body))"
    and l: "snd (lease_next_command sha (snd s) attempts (ec_id c) lease_ttl_seconds) = Some l"
    using assms(2) by (auto simp: get_next_command_def with_controller_def case_prod_beta split: sum.splits)
      (metis prod.collapse)
  obtain now token db' where "try_lease sha (snd s) now token (ec_id c) lease_ttl_seconds = (db', Some l)"
    using lease_next_Some [of sha "snd s" attempts "ec_id c" lease_ttl_seconds _ l] l by (metis prod.collapse)
  then obtain row where row: "row \<in> set (commands (snd s))" "leasable now (ec_id c) lease_ttl_seconds row"
      "lc_command_id l = bc_command_id row"
    by (cases rule: try_lease_cases [of sha "snd s" now token "ec_id c" lease_ttl_seconds]) auto
  have "access_inv sha (snd s)" by (rule access.inv_reach [OF assms(1)])
  then have "command_granted (snd s) row" using row(1)
    by (simp add: access_inv_def commands_ok_def list_all_iff)
  then have granted: "\<forall>i. bc_decision_id row = Some i \<longrightarrow>
      (\<exists>d\<in>set (decisions (snd s)). ad_id d = i \<and> ad_decision d = Allow)"
    by (auto simp: command_granted_def granted_def list_ex_iff)
  note acc = authenticate_edge_accepts [OF a]
  note k = check_credentials_accepts [OF acc(2)]
  have c: "c \<in> set (controllers (snd s))" "ec_is_active c" "ec_status c = Controller_active"
    "ec_uid c = cr_controller_uid (credentials_of (rq_headers rq))"
    using first_row_Some [OF k(2) [unfolded active_controller_def]] by simp_all
  have h: "rq_headers rq ''x-ac-controller'' = Some (ec_uid c)"
    using k(1) c(4) by (auto simp: all_present_def credentials_of_def header_or_empty_def split: option.splits)
  have p: "rq_controller_id rq \<in> {None, Some (ec_uid c)}" using acc(4) by (cases "rq_controller_id rq") auto
  show ?thesis
    by (intro bexI [OF _ c(1)] bexI [OF _ row(1)] conjI h p c(2,3) row(3) granted)
      (use row(2) in \<open>simp_all add: leasable_def\<close>)
qed

lemma commands_go_to_their_controller_witness:
  "\<exists>c\<in>set (controllers ex_db3). \<exists>row\<in>set (commands ex_db3). bc_command_id row = 1
     \<and> bc_controller_id row = ec_id c \<and> ex_headers 1000 ''x-ac-controller'' = Some (ec_uid c)"
proof -
  obtain s' l where e: "get_next_command store_seen ex_rt ex_sha [(5000, ''tok'')] ex_moment (ex_poll 1000)
      (Memory_store [], ex_db3) = (s', Inr (Some l))" "lc_command_id l = 1"
    using ex_poll_call by blast
  have r: "reach acc_init (acc_step ex_sha) (snd (Memory_store [], ex_db3))" using ex_reach3 by simp
  show ?thesis
    using commands_go_to_their_controller [OF r e(1)] e(2) unfolding ex_poll_def edge_request.simps snd_conv
    by metis
qed

subsection \<open>Deferred events\<close>

lemma sync_fold:
  "case foldl (sync_one isofmt now c) (rows, n) events of
     (rows', n') \<Rightarrow> (\<exists>new. rows' = rows @ new \<and> sy_accepted n' = sy_accepted n + length new
         \<and> list_all (\<lambda>r. sr_controller_id r = c) new)
       \<and> sy_accepted n' + sy_duplicates n' = sy_accepted n + sy_duplicates n + length events
       \<and> list_all (\<lambda>ev. known_sync c (se_event_id ev) rows') events"
proof (induction events arbitrary: rows n)
  case (Cons ev events)
  obtain rows1 n1 where one: "sync_one isofmt now c (rows, n) ev = (rows1, n1)" by (metis surj_pair)
  obtain rows2 n2 where rest: "foldl (sync_one isofmt now c) (rows1, n1) events = (rows2, n2)" by (metis surj_pair)
  have first: "\<exists>new. rows1 = rows @ new \<and> sy_accepted n1 = sy_accepted n + length new
      \<and> list_all (\<lambda>r. sr_controller_id r = c) new"
    "sy_accepted n1 + sy_duplicates n1 = Suc (sy_accepted n + sy_duplicates n)"
    "known_sync c (se_event_id ev) rows1"
    using one by (auto simp: sync_one_def known_sync_def split: if_splits)
  have ih: "\<exists>new. rows2 = rows1 @ new \<and> sy_accepted n2 = sy_accepted n1 + length new
      \<and> list_all (\<lambda>r. sr_controller_id r = c) new"
    "sy_accepted n2 + sy_duplicates n2 = sy_accepted n1 + sy_duplicates n1 + length events"
    "list_all (\<lambda>ev. known_sync c (se_event_id ev) rows2) events"
    using Cons.IH [of rows1 n1] rest by simp_all
  have "known_sync c (se_event_id ev) rows2"
    using first(3) ih(1) by (auto simp: known_sync_def)
  then show ?case using first(1,2) ih by (auto simp: one rest)
qed simp

lemma sync_known:
  "list_all (\<lambda>ev. known_sync c (se_event_id ev) rows) events \<Longrightarrow>
   foldl (sync_one isofmt now c) (rows, n) events = (rows, n\<lparr>sy_duplicates := sy_duplicates n + length events\<rparr>)"
  by (induction events arbitrary: n) (simp_all add: sync_one_def)

text \<open>A batch of deferred events is taken once.  Every event of it is counted as accepted or as a
  duplicate, the accepted ones are appended as rows of this controller, and sending the whole batch
  again changes nothing and counts every event as a duplicate.\<close>

theorem resent_batch_is_ignored:
  "case sync_events isofmt now c events rows of
     (rows', n) \<Rightarrow>
       (\<exists>new. rows' = rows @ new \<and> sy_accepted n = length new \<and> list_all (\<lambda>r. sr_controller_id r = c) new)
       \<and> sy_accepted n + sy_duplicates n = length events
       \<and> sync_events isofmt later c events rows' =
           (rows', \<lparr>sy_accepted = 0, sy_duplicates = length events, sy_conflicts = 0\<rparr>)"
proof -
  obtain rows' n where r: "sync_events isofmt now c events rows = (rows', n)" by (metis surj_pair)
  note f = sync_fold [where isofmt = isofmt and now = now and c = c and rows = rows and events = events
      and n = "\<lparr>sy_accepted = 0, sy_duplicates = 0, sy_conflicts = 0\<rparr>"]
  have k: "list_all (\<lambda>ev. known_sync c (se_event_id ev) rows') events"
    using f r by (simp add: sync_events_def)
  show ?thesis using f r sync_known [OF k, where isofmt = isofmt and now = later] by (simp add: sync_events_def)
qed

end
