(* ===== verification/Warehouse.thy ===== *)
theory Warehouse
  imports PlateNormalization Decimals
begin

section \<open>The materials warehouse\<close>

text \<open>
  \<open>services/material_service\<close> over the tables of \<open>database/models/material.py\<close>: receipts are lots,
  issues take from lots first in first out, corrections are reversals.  A call is one transaction
  under row locks, a function from the warehouse to the committed warehouse and a result, or a
  fault after a rollback.  A \<open>Decimal\<close> is a rational; its 28 digits and the columns' widths are
  checks that end in \<open>Unhandled\<close>, an exception outside the service's own errors.  The tables'
  \<open>CHECK\<close> constraints are not part of the operations: the theorems show that they hold.
\<close>

datatype material_fault =
    Validation_error | Not_found | Conflict | Request_not_found | Insufficient_stock rat | Unhandled

subsection \<open>Decimals\<close>

text \<open>\<open>money\<close>: \<open>quantize(Decimal("0.01"), ROUND_HALF_UP)\<close>, which fails beyond 28 digits.\<close>

definition money :: "rat \<Rightarrow> rat" where
  "money x = of_int (round_half_up (x * 100)) / 100"

text \<open>The comparison with a NaN and \<open>quantize\<close> of an infinity raise \<open>InvalidOperation\<close> outside the
  \<open>try\<close>.\<close>

definition parse_qty :: "decimal_arg \<Rightarrow> material_fault + rat" where
  "parse_qty v =
     (case v of
        Unparsable \<Rightarrow> Inl Validation_error
      | Dec_nan \<Rightarrow> Inl Unhandled
      | Dec_inf \<Rightarrow> Inl Unhandled
      | Dec_neg_inf \<Rightarrow> Inl Validation_error
      | Dec q \<Rightarrow>
          if q \<le> 0 then Inl Validation_error
          else if \<not> fits_digits 1000 q then Inl Unhandled
          else if \<not> whole (q * 1000) then Inl Validation_error
          else Inr q)"

definition parse_price :: "decimal_arg \<Rightarrow> material_fault + rat" where
  "parse_price v =
     (case v of
        Unparsable \<Rightarrow> Inl Validation_error
      | Dec_nan \<Rightarrow> Inl Unhandled
      | Dec_inf \<Rightarrow> Inl Unhandled
      | Dec_neg_inf \<Rightarrow> Inl Validation_error
      | Dec p \<Rightarrow>
          if p < 0 then Inl Validation_error
          else if \<not> fits_digits 100 p then Inl Unhandled
          else Inr (money p))"

text \<open>\<open>Numeric(12, 3)\<close> and \<open>Numeric(14, 2)\<close>.\<close>

definition qty_column :: "rat \<Rightarrow> bool" where "qty_column x \<longleftrightarrow> \<bar>x\<bar> < 10 ^ 9"
definition money_column :: "rat \<Rightarrow> bool" where "money_column x \<longleftrightarrow> \<bar>x\<bar> < 10 ^ 12"

subsection \<open>Tables\<close>

definition material_units :: "string list" where
  "material_units = [''pcs'', ''m'', ''m2'', ''l'', ''kg'', ''pack'', ''set'']"

definition receipt_doc_types :: "string list" where
  "receipt_doc_types = [''purchase'', ''surplus'']"

definition issue_doc_types :: "string list" where
  "issue_doc_types = [''request'', ''household'', ''shortage'']"

record material =
  mt_id :: int
  mt_name :: utext
  mt_unit :: string
  mt_category :: "utext option"
  mt_min_stock :: "rat option"
  mt_is_active :: bool

record receipt =
  mr_id :: int
  mr_material_id :: int
  mr_doc_type :: string
  mr_qty :: rat
  mr_remaining :: rat
  mr_unit_price :: rat
  mr_total_amount :: rat
  mr_supplier :: "utext option"
  mr_doc_number :: "utext option"
  mr_doc_date :: "int option"
  mr_note :: "utext option"
  mr_reversal_of_issue_id :: "int option"
  mr_material_name :: utext
  mr_unit :: string
  mr_created_by :: int
  mr_created_at :: instant

record issue =
  mi_id :: int
  mi_material_id :: int
  mi_doc_type :: string
  mi_qty :: rat
  mi_total_cost :: rat
  mi_request_number :: "string option"
  mi_reason :: "utext option"
  mi_reversal_of_receipt_id :: "int option"
  mi_material_name :: utext
  mi_unit :: string
  mi_created_by :: int
  mi_created_at :: instant

record issue_allocation =
  al_id :: int
  al_issue_id :: int
  al_receipt_id :: int
  al_qty :: rat
  al_unit_price :: rat
  al_amount :: rat

text \<open>The numbers of the existing requests stand for the table of requests.\<close>

record warehouse =
  materials :: "material list"
  receipts :: "receipt list"
  issues :: "issue list"
  allocations :: "issue_allocation list"
  request_numbers :: "string list"

subsection \<open>The first-in-first-out core\<close>

record allocation =
  an_receipt_id :: int
  an_qty :: rat
  an_unit_price :: rat
  an_amount :: rat

definition take_from :: "receipt \<Rightarrow> rat \<Rightarrow> allocation" where
  "take_from b q = \<lparr>an_receipt_id = mr_id b, an_qty = q, an_unit_price = mr_unit_price b,
     an_amount = money (q * mr_unit_price b)\<rparr>"

text \<open>The loop over the lots: the lines made and what is left to take.\<close>

fun fifo_loop :: "receipt list \<Rightarrow> rat \<Rightarrow> allocation list \<times> rat" where
  "fifo_loop [] remaining = ([], remaining)"
| "fifo_loop (b # bs) remaining =
     (if remaining \<le> 0 then ([], remaining)
      else if mr_remaining b \<le> 0 then fifo_loop bs remaining
      else let q = min (mr_remaining b) remaining
           in case fifo_loop bs (remaining - q) of (lines, left) \<Rightarrow> (take_from b q # lines, left))"

definition allocate_fifo :: "receipt list \<Rightarrow> rat \<Rightarrow> material_fault + allocation list" where
  "allocate_fifo bs qty =
     (case fifo_loop bs qty of
        (lines, left) \<Rightarrow>
          if 0 < left then Inl (Insufficient_stock (sum_list (map mr_remaining bs))) else Inr lines)"

definition validate_unit :: "string \<Rightarrow> material_fault + string" where
  "validate_unit u = (if u \<in> set material_units then Inr u else Inl Validation_error)"

definition truthy_utext :: "utext option \<Rightarrow> bool" where
  "truthy_utext t = (case t of None \<Rightarrow> False | Some s \<Rightarrow> s \<noteq> [])"

definition validate_issue_target :: "string \<Rightarrow> string option \<Rightarrow> utext option \<Rightarrow> material_fault + unit" where
  "validate_issue_target doc_type request_number reason =
     (if doc_type \<notin> set issue_doc_types then Inl Validation_error
      else if doc_type = ''request'' then
        (if \<not> py_truthy_str request_number then Inl Validation_error
         else if truthy_utext reason then Inl Validation_error else Inr ())
      else if \<not> truthy_utext reason then Inl Validation_error
      else if py_truthy_str request_number then Inl Validation_error else Inr ())"

text \<open>Who does it, and the transaction's \<open>now()\<close>.\<close>

record actor_time =
  at_user :: int
  at_now :: instant

definition decrement_batches :: "allocation list \<Rightarrow> receipt list \<Rightarrow> receipt list" where
  "decrement_batches lines rows =
     foldl (\<lambda>rows a. upd_where (\<lambda>r. mr_id r = an_receipt_id a)
              (\<lambda>r. r\<lparr>mr_remaining := mr_remaining r - an_qty a\<rparr>) rows) rows lines"

definition build_issue ::
    "warehouse \<Rightarrow> actor_time \<Rightarrow> allocation list \<Rightarrow> material \<Rightarrow> rat \<Rightarrow> string \<Rightarrow> string option \<Rightarrow> utext option
     \<Rightarrow> int option \<Rightarrow> issue" where
  "build_issue w who lines m qty doc_type request_number reason reversal =
     \<lparr>mi_id = next_id (map mi_id (issues w)), mi_material_id = mt_id m, mi_doc_type = doc_type, mi_qty = qty,
      mi_total_cost = money (sum_list (map an_amount lines)), mi_request_number = request_number,
      mi_reason = reason, mi_reversal_of_receipt_id = reversal, mi_material_name = mt_name m,
      mi_unit = mt_unit m, mi_created_by = at_user who, mi_created_at = at_now who\<rparr>"

fun build_allocations :: "int \<Rightarrow> allocation list \<Rightarrow> issue_allocation list \<Rightarrow> issue_allocation list" where
  "build_allocations i [] rows = rows"
| "build_allocations i (a # lines) rows =
     build_allocations i lines
       (rows @ [\<lparr>al_id = next_id (map al_id rows), al_issue_id = i, al_receipt_id = an_receipt_id a,
                 al_qty = an_qty a, al_unit_price = an_unit_price a, al_amount = an_amount a\<rparr>])"

text \<open>\<open>_apply_issue\<close> and its asynchronous mirror.\<close>

definition apply_issue ::
    "warehouse \<Rightarrow> actor_time \<Rightarrow> allocation list \<Rightarrow> material \<Rightarrow> rat \<Rightarrow> string \<Rightarrow> string option \<Rightarrow> utext option
     \<Rightarrow> int option \<Rightarrow> material_fault + (warehouse \<times> issue)" where
  "apply_issue w who lines m qty doc_type request_number reason reversal =
     (let i = build_issue w who lines m qty doc_type request_number reason reversal
      in if qty_column qty \<and> money_column (mi_total_cost i) \<and> list_all (\<lambda>a. money_column (an_amount a)) lines
         then Inr (w\<lparr>receipts := decrement_batches lines (receipts w), issues := issues w @ [i],
                     allocations := build_allocations (mi_id i) lines (allocations w)\<rparr>, i)
         else Inl Unhandled)"

subsection \<open>Receipts and issues\<close>

definition find_material :: "warehouse \<Rightarrow> int \<Rightarrow> material option" where
  "find_material w i = first_row (\<lambda>m. mt_id m = i) (materials w)"

definition get_active_material :: "warehouse \<Rightarrow> int \<Rightarrow> material_fault + material" where
  "get_active_material w i =
     (case find_material w i of
        None \<Rightarrow> Inl Not_found
      | Some m \<Rightarrow> if mt_is_active m then Inr m else Inl Validation_error)"

record receipt_args =
  ra_material_id :: int
  ra_qty :: decimal_arg
  ra_unit_price :: decimal_arg
  ra_supplier :: "utext option"
  ra_doc_number :: "utext option"
  ra_doc_date :: "int option"
  ra_note :: "utext option"
  ra_doc_type :: string
  ra_reversal_of_issue_id :: "int option"

definition text_column :: "nat \<Rightarrow> utext option \<Rightarrow> bool" where
  "text_column n t \<longleftrightarrow> (case t of None \<Rightarrow> True | Some s \<Rightarrow> length s \<le> n)"

definition receipt_fits :: "receipt \<Rightarrow> bool" where
  "receipt_fits r \<longleftrightarrow>
     qty_column (mr_qty r) \<and> money_column (mr_unit_price r) \<and> money_column (mr_total_amount r)
     \<and> text_column 200 (mr_supplier r) \<and> text_column 100 (mr_doc_number r)"

definition new_receipt :: "warehouse \<Rightarrow> actor_time \<Rightarrow> material \<Rightarrow> rat \<Rightarrow> rat \<Rightarrow> receipt_args \<Rightarrow> receipt" where
  "new_receipt w who m qty price args =
     \<lparr>mr_id = next_id (map mr_id (receipts w)), mr_material_id = mt_id m, mr_doc_type = ra_doc_type args,
      mr_qty = qty, mr_remaining = qty, mr_unit_price = price, mr_total_amount = money (qty * price),
      mr_supplier = ra_supplier args, mr_doc_number = ra_doc_number args, mr_doc_date = ra_doc_date args,
      mr_note = ra_note args, mr_reversal_of_issue_id = ra_reversal_of_issue_id args,
      mr_material_name = mt_name m, mr_unit = mt_unit m, mr_created_by = at_user who,
      mr_created_at = at_now who\<rparr>"

definition create_receipt ::
    "warehouse \<Rightarrow> actor_time \<Rightarrow> receipt_args \<Rightarrow> material_fault + (warehouse \<times> receipt)" where
  "create_receipt w who args =
     (if ra_doc_type args \<notin> set receipt_doc_types then Inl Validation_error
      else res_bind (parse_qty (ra_qty args)) (\<lambda>qty.
           res_bind (parse_price (ra_unit_price args)) (\<lambda>price.
           res_bind (get_active_material w (ra_material_id args)) (\<lambda>m.
             let r = new_receipt w who m qty price args
             in if receipt_fits r then Inr (w\<lparr>receipts := receipts w @ [r]\<rparr>, r) else Inl Unhandled))))"

text \<open>The lots an issue draws on: \<open>qty_remaining > 0\<close>, \<open>ORDER BY created_at, id\<close>.\<close>

definition open_lots :: "warehouse \<Rightarrow> int \<Rightarrow> receipt list" where
  "open_lots w i =
     sort_key mr_created_at (sort_key mr_id
       (filter (\<lambda>r. mr_material_id r = i \<and> 0 < mr_remaining r) (receipts w)))"

record issue_args =
  ia_material_id :: int
  ia_qty :: decimal_arg
  ia_doc_type :: string
  ia_request_number :: "string option"
  ia_reason :: "utext option"

definition request_exists :: "warehouse \<Rightarrow> string option \<Rightarrow> bool" where
  "request_exists w n = (case n of None \<Rightarrow> False | Some s \<Rightarrow> s \<in> set (request_numbers w))"

definition issue_material ::
    "warehouse \<Rightarrow> actor_time \<Rightarrow> issue_args \<Rightarrow> material_fault + (warehouse \<times> issue)" where
  "issue_material w who args =
     res_bind (parse_qty (ia_qty args)) (\<lambda>qty.
     res_bind (validate_issue_target (ia_doc_type args) (ia_request_number args) (ia_reason args)) (\<lambda>_.
     res_bind (get_active_material w (ia_material_id args)) (\<lambda>m.
       if ia_doc_type args = ''request'' \<and> \<not> request_exists w (ia_request_number args)
       then Inl Request_not_found
       else res_bind (allocate_fifo (open_lots w (ia_material_id args)) qty) (\<lambda>lines.
              apply_issue w who lines m qty (ia_doc_type args) (ia_request_number args) (ia_reason args) None))))"

subsection \<open>Reversals and adjustments\<close>

text \<open>The dictionary of quantities by price, in order of insertion.\<close>

fun add_price :: "rat \<Rightarrow> rat \<Rightarrow> (rat \<times> rat) list \<Rightarrow> (rat \<times> rat) list" where
  "add_price p q [] = [(p, q)]"
| "add_price p q ((p', q') # xs) = (if p' = p then (p', q' + q) # xs else (p', q') # add_price p q xs)"

definition by_price :: "issue_allocation list \<Rightarrow> (rat \<times> rat) list" where
  "by_price rows = foldl (\<lambda>d a. add_price (al_unit_price a) (al_qty a) d) [] rows"

fun create_surplus ::
    "warehouse \<Rightarrow> actor_time \<Rightarrow> int \<Rightarrow> int \<Rightarrow> utext option \<Rightarrow> (rat \<times> rat) list
     \<Rightarrow> material_fault + (warehouse \<times> receipt list)" where
  "create_surplus w who mid i reason [] = Inr (w, [])"
| "create_surplus w who mid i reason ((price, qty) # ps) =
     res_bind (create_receipt w who
         \<lparr>ra_material_id = mid, ra_qty = Dec qty, ra_unit_price = Dec price, ra_supplier = None,
          ra_doc_number = None, ra_doc_date = None, ra_note = reason, ra_doc_type = ''surplus'',
          ra_reversal_of_issue_id = Some i\<rparr>) (\<lambda>(w', r).
       res_bind (create_surplus w' who mid i reason ps) (\<lambda>(w'', rs). Inr (w'', r # rs)))"

definition reverse_issue ::
    "warehouse \<Rightarrow> actor_time \<Rightarrow> int \<Rightarrow> int \<Rightarrow> utext option \<Rightarrow> material_fault + (warehouse \<times> receipt list)" where
  "reverse_issue w who mid i reason =
     (case first_row (\<lambda>x. mi_id x = i) (issues w) of
        None \<Rightarrow> Inl Validation_error
      | Some x \<Rightarrow>
          if mi_material_id x \<noteq> mid then Inl Conflict
          else if list_ex (\<lambda>r. mr_reversal_of_issue_id r = Some i) (receipts w) then Inl Conflict
          else let rows = sort_key al_id (filter (\<lambda>a. al_issue_id a = i) (allocations w))
               in if rows = [] then Inl Conflict
                  else create_surplus w who mid i reason (by_price rows))"

definition reverse_receipt ::
    "warehouse \<Rightarrow> actor_time \<Rightarrow> int \<Rightarrow> int \<Rightarrow> utext option \<Rightarrow> material_fault + (warehouse \<times> issue)" where
  "reverse_receipt w who mid i reason =
     (case first_row (\<lambda>r. mr_id r = i) (receipts w) of
        None \<Rightarrow> Inl Validation_error
      | Some r \<Rightarrow>
          if mr_material_id r \<noteq> mid then Inl Conflict
          else if mr_remaining r \<noteq> mr_qty r then Inl Conflict
          else case find_material w mid of
                 None \<Rightarrow> Inl Unhandled
               | Some m \<Rightarrow>
                   apply_issue w who [take_from r (mr_qty r)] m (mr_qty r) ''shortage'' None reason (Some i))"

record adjust_args =
  aj_material_id :: int
  aj_direction :: string
  aj_reason :: "utext option"
  aj_qty :: "decimal_arg option"
  aj_unit_price :: "decimal_arg option"
  aj_reversal_of_issue_id :: "int option"
  aj_reversal_of_receipt_id :: "int option"

datatype adjusted = Receipts_made "receipt list" | Issue_made issue

definition blank :: "utext option \<Rightarrow> bool" where
  "blank t \<longleftrightarrow> (case t of None \<Rightarrow> True | Some s \<Rightarrow> strip_points s = [])"

definition adjust :: "warehouse \<Rightarrow> actor_time \<Rightarrow> adjust_args \<Rightarrow> material_fault + (warehouse \<times> adjusted)" where
  "adjust w who args =
     (let is_reversal = aj_reversal_of_issue_id args \<noteq> None \<or> aj_reversal_of_receipt_id args \<noteq> None
      in if aj_direction args \<notin> {''surplus'', ''shortage''} then Inl Validation_error
         else if blank (aj_reason args) then Inl Validation_error
         else if aj_reversal_of_issue_id args \<noteq> None \<and> aj_reversal_of_receipt_id args \<noteq> None
         then Inl Validation_error
         else if is_reversal \<and> aj_qty args \<noteq> None then Inl Validation_error
         else if aj_unit_price args \<noteq> None \<and> (is_reversal \<or> aj_direction args = ''shortage'')
         then Inl Validation_error
         else case aj_reversal_of_issue_id args of
           Some i \<Rightarrow>
             if aj_direction args \<noteq> ''surplus'' then Inl Validation_error
             else map_sum id (map_prod id Receipts_made)
                    (reverse_issue w who (aj_material_id args) i (aj_reason args))
         | None \<Rightarrow>
             (case aj_reversal_of_receipt_id args of
                Some i \<Rightarrow>
                  if aj_direction args \<noteq> ''shortage'' then Inl Validation_error
                  else map_sum id (map_prod id Issue_made)
                         (reverse_receipt w who (aj_material_id args) i (aj_reason args))
              | None \<Rightarrow>
                  (case aj_qty args of
                     None \<Rightarrow> Inl Validation_error
                   | Some q \<Rightarrow>
                       if aj_direction args = ''surplus'' then
                         map_sum id (map_prod id (\<lambda>r. Receipts_made [r]))
                           (create_receipt w who
                             \<lparr>ra_material_id = aj_material_id args, ra_qty = q,
                              ra_unit_price = (case aj_unit_price args of Some p \<Rightarrow> p | None \<Rightarrow> Dec 0),
                              ra_supplier = None, ra_doc_number = None, ra_doc_date = None,
                              ra_note = aj_reason args, ra_doc_type = ''surplus'',
                              ra_reversal_of_issue_id = None\<rparr>)
                       else
                         map_sum id (map_prod id Issue_made)
                           (issue_material w who
                             \<lparr>ia_material_id = aj_material_id args, ia_qty = q, ia_doc_type = ''shortage'',
                              ia_request_number = None, ia_reason = aj_reason args\<rparr>))))"

subsection \<open>The catalogue\<close>

definition parse_min_stock :: "decimal_arg option \<Rightarrow> material_fault + rat option" where
  "parse_min_stock v = (case v of None \<Rightarrow> Inr None | Some d \<Rightarrow> res_bind (parse_qty d) (\<lambda>q. Inr (Some q)))"

definition material_fits :: "material \<Rightarrow> bool" where
  "material_fits m \<longleftrightarrow>
     length (mt_name m) \<le> 200 \<and> text_column 100 (mt_category m)
     \<and> (case mt_min_stock m of None \<Rightarrow> True | Some q \<Rightarrow> qty_column q)"

definition create_material ::
    "warehouse \<Rightarrow> utext option \<Rightarrow> string \<Rightarrow> utext option \<Rightarrow> decimal_arg option
     \<Rightarrow> material_fault + (warehouse \<times> material)" where
  "create_material w name u category min_stock =
     (let n = strip_points (case name of None \<Rightarrow> [] | Some s \<Rightarrow> s)
      in if n = [] then Inl Validation_error
         else res_bind (validate_unit u) (\<lambda>_.
              res_bind (parse_min_stock min_stock) (\<lambda>low.
                if list_ex (\<lambda>m. mt_name m = n) (materials w) then Inl Conflict
                else let m = \<lparr>mt_id = next_id (map mt_id (materials w)), mt_name = n, mt_unit = u,
                              mt_category = category, mt_min_stock = low, mt_is_active = True\<rparr>
                     in if material_fits m then Inr (w\<lparr>materials := materials w @ [m]\<rparr>, m)
                        else Inl Unhandled)))"

text \<open>\<open>mp_min_stock = None\<close> is the absent field (\<open>...\<close>).\<close>

record material_patch =
  mp_name :: "utext option"
  mp_category :: "utext option"
  mp_min_stock :: "decimal_arg option option"
  mp_is_active :: "bool option"
  mp_unit :: "string option"

definition patch_unit :: "warehouse \<Rightarrow> material \<Rightarrow> string option \<Rightarrow> material_fault + material" where
  "patch_unit w m u =
     (case u of
        None \<Rightarrow> Inr m
      | Some v \<Rightarrow>
          if v = mt_unit m then Inr m
          else res_bind (validate_unit v) (\<lambda>_.
                 if list_ex (\<lambda>r. mr_material_id r = mt_id m) (receipts w) then Inl Conflict
                 else Inr (m\<lparr>mt_unit := v\<rparr>)))"

definition patch_name :: "warehouse \<Rightarrow> material \<Rightarrow> utext option \<Rightarrow> material_fault + material" where
  "patch_name w m name =
     (case name of
        None \<Rightarrow> Inr m
      | Some s \<Rightarrow>
          let n = strip_points s
          in if n = [] then Inl Validation_error
             else if n = mt_name m then Inr m
             else if list_ex (\<lambda>x. mt_name x = n \<and> mt_id x \<noteq> mt_id m) (materials w) then Inl Conflict
             else Inr (m\<lparr>mt_name := n\<rparr>))"

definition patch_rest :: "material \<Rightarrow> material_patch \<Rightarrow> material_fault + material" where
  "patch_rest m p =
     (let m1 = (case mp_category p of
                  None \<Rightarrow> m
                | Some c \<Rightarrow> m\<lparr>mt_category := (if c = [] then None else Some c)\<rparr>)
      in res_bind
           (case mp_min_stock p of
              None \<Rightarrow> Inr m1
            | Some v \<Rightarrow> res_bind (parse_min_stock v) (\<lambda>low. Inr (m1\<lparr>mt_min_stock := low\<rparr>)))
           (\<lambda>m2. Inr (case mp_is_active p of None \<Rightarrow> m2 | Some b \<Rightarrow> m2\<lparr>mt_is_active := b\<rparr>)))"

definition update_material ::
    "warehouse \<Rightarrow> int \<Rightarrow> material_patch \<Rightarrow> material_fault + (warehouse \<times> material)" where
  "update_material w i p =
     (case find_material w i of
        None \<Rightarrow> Inl Not_found
      | Some m \<Rightarrow>
          res_bind (patch_unit w m (mp_unit p)) (\<lambda>m1.
          res_bind (patch_name w m1 (mp_name p)) (\<lambda>m2.
          res_bind (patch_rest m2 p) (\<lambda>m3.
            if material_fits m3
            then Inr (w\<lparr>materials := upd_where (\<lambda>x. mt_id x = i) (\<lambda>_. m3) (materials w)\<rparr>, m3)
            else Inl Unhandled))))"

subsection \<open>Reports\<close>

definition material_stock :: "warehouse \<Rightarrow> int \<Rightarrow> rat" where
  "material_stock w i = sum_list (map mr_remaining (filter (\<lambda>r. mr_material_id r = i) (receipts w)))"

text \<open>\<open>ORDER BY name\<close> is in the database's collation, a parameter.\<close>

definition list_materials_with_stock :: "(utext \<Rightarrow> int) \<Rightarrow> warehouse \<Rightarrow> (material \<times> rat) list" where
  "list_materials_with_stock collation w =
     map (\<lambda>m. (m, sum_list (map mr_remaining (filter (\<lambda>r. mr_material_id r = mt_id m \<and> 0 < mr_remaining r) (receipts w)))))
       (sort_key (\<lambda>m. collation (mt_name m))
         (filter (\<lambda>m. mt_is_active m \<and> list_ex (\<lambda>r. mr_material_id r = mt_id m \<and> 0 < mr_remaining r) (receipts w))
           (materials w)))"

record stock_row =
  sr_material_id :: int
  sr_name :: utext
  sr_unit :: string
  sr_category :: "utext option"
  sr_min_stock :: "rat option"
  sr_stock :: rat
  sr_stock_value :: rat
  sr_low_stock :: bool

definition stock_of :: "warehouse \<Rightarrow> material \<Rightarrow> stock_row" where
  "stock_of w m =
     (let lots = filter (\<lambda>r. mr_material_id r = mt_id m \<and> 0 < mr_remaining r) (receipts w);
          n = sum_list (map mr_remaining lots)
      in \<lparr>sr_material_id = mt_id m, sr_name = mt_name m, sr_unit = mt_unit m, sr_category = mt_category m,
          sr_min_stock = mt_min_stock m, sr_stock = n,
          sr_stock_value = money (sum_list (map (\<lambda>r. mr_remaining r * mr_unit_price r) lots)),
          sr_low_stock = (case mt_min_stock m of None \<Rightarrow> False | Some low \<Rightarrow> n < low)\<rparr>)"

text \<open>\<open>matches\<close> is the search on the name, everything when there is no search text.\<close>

definition get_stock :: "(utext \<Rightarrow> int) \<Rightarrow> (utext \<Rightarrow> bool) \<Rightarrow> bool \<Rightarrow> warehouse \<Rightarrow> stock_row list" where
  "get_stock collation matches only_low w =
     filter (\<lambda>s. sr_low_stock s \<or> \<not> only_low)
       (map (stock_of w)
         (sort_key (\<lambda>m. collation (mt_name m)) (filter (\<lambda>m. mt_is_active m \<and> matches (mt_name m)) (materials w))))"

text \<open>The deficit of \<open>get_procurement\<close>: the material and how much to buy.\<close>

definition deficit :: "(utext \<Rightarrow> int) \<Rightarrow> warehouse \<Rightarrow> (int \<times> rat) list" where
  "deficit collation w =
     List.map_filter (\<lambda>s. map_option (\<lambda>low. (sr_material_id s, low - sr_stock s)) (sr_min_stock s))
       (get_stock collation (\<lambda>_. True) True w)"

definition is_reversed :: "warehouse \<Rightarrow> issue \<Rightarrow> bool" where
  "is_reversed w i \<longleftrightarrow> list_ex (\<lambda>r. mr_reversal_of_issue_id r = Some (mi_id i)) (receipts w)"

definition get_request_materials :: "warehouse \<Rightarrow> string \<Rightarrow> (issue \<times> bool) list \<times> rat" where
  "get_request_materials w n =
     (let rows = sort_key mi_created_at
           (filter (\<lambda>i. mi_request_number i = Some n \<and> mi_doc_type i = ''request'') (issues w))
      in (map (\<lambda>i. (i, is_reversed w i)) rows,
          money (sum_list (map mi_total_cost (filter (\<lambda>i. \<not> is_reversed w i) rows)))))"

end
