(* ===== verification/WarehouseInvariant.thy ===== *)
theory WarehouseInvariant
  imports Warehouse
begin

section \<open>The warehouse invariant\<close>

text \<open>
  Every operation of the warehouse comes down to four writes: a new card, a changed card, new
  lots, an issue with its lines.  The invariant says what the tables' \<open>CHECK\<close> and \<open>UNIQUE\<close>
  constraints ask and what they cannot: what is left of a lot is what came in less the lines on
  it, an issue is the sum of its lines, a reversal returns its issue price by price.
\<close>

subsection \<open>Sums over rows\<close>

definition sum_where :: "('a \<Rightarrow> bool) \<Rightarrow> ('a \<Rightarrow> rat) \<Rightarrow> 'a list \<Rightarrow> rat" where
  "sum_where P f rows = sum_list (map f (filter P rows))"

lemma sum_where_simps [simp]:
  "sum_where P f [] = 0"
  "sum_where P f (r # rows) = (if P r then f r else 0) + sum_where P f rows"
  "sum_where P f (xs @ ys) = sum_where P f xs + sum_where P f ys"
  by (simp_all add: sum_where_def)

lemma sum_where_none: "(\<And>r. r \<in> set rows \<Longrightarrow> \<not> P r) \<Longrightarrow> sum_where P f rows = 0"
  by (induction rows) auto

lemma sum_where_nonneg: "(\<And>r. r \<in> set rows \<Longrightarrow> P r \<Longrightarrow> 0 \<le> f r) \<Longrightarrow> 0 \<le> sum_where P f rows"
  by (induction rows) (auto intro: add_nonneg_nonneg)

lemma sum_where_member:
  "r \<in> set rows \<Longrightarrow> P r \<Longrightarrow> (\<And>x. x \<in> set rows \<Longrightarrow> 0 \<le> f x) \<Longrightarrow> f r \<le> sum_where P f rows"
proof (induction rows)
  case (Cons a rows)
  have n: "0 \<le> sum_where P f rows" by (rule sum_where_nonneg) (simp add: Cons.prems)
  from Cons show ?case
  proof (cases "r = a")
    case False
    then have "f r \<le> sum_where P f rows" using Cons by simp
    moreover have "0 \<le> f a" using Cons.prems by simp
    ultimately show ?thesis by simp
  qed (use n in simp)
qed simp

lemma sum_where_cong:
  "(\<And>r. r \<in> set rows \<Longrightarrow> P r \<longleftrightarrow> Q r) \<Longrightarrow> (\<And>r. r \<in> set rows \<Longrightarrow> Q r \<Longrightarrow> f r = g r) \<Longrightarrow>
   sum_where P f rows = sum_where Q g rows"
  by (induction rows) auto

lemma sum_where_all2:
  assumes "list_all2 R xs ys"
    and "\<And>x y. R x y \<Longrightarrow> P x \<longleftrightarrow> Q y" "\<And>x y. R x y \<Longrightarrow> f x = g y"
  shows "sum_where P f xs = sum_where Q g ys"
  using assms(1) by (induction rule: list_all2_induct) (simp_all add: assms(2,3))

lemma sum_list_one:
  "distinct ks \<Longrightarrow> (\<Sum>x\<leftarrow>ks. if k = x then v else 0) = (if k \<in> set ks then v else (0::rat))"
  by (induction ks) auto

text \<open>A sum over all rows splits over the values of a key.\<close>

lemma sum_where_keys:
  assumes "distinct ks" "\<And>r. r \<in> set rows \<Longrightarrow> P r \<Longrightarrow> key r \<in> set ks"
  shows "sum_where P f rows = sum_list (map (\<lambda>k. sum_where (\<lambda>r. P r \<and> key r = k) f rows) ks)"
  using assms(2)
proof (induction rows)
  case Nil
  show ?case by (simp add: sum_list_0)
next
  case (Cons a rows)
  have one: "sum_list (map (\<lambda>k. if P a \<and> key a = k then f a else 0) ks) = (if P a then f a else 0)"
      using Cons.prems [of a] by (cases "P a") (simp_all add: sum_list_one assms(1) sum_list_0)
  show ?case using Cons by (simp add: sum_list_addf one)
qed

subsection \<open>The invariant\<close>

definition has_card :: "warehouse \<Rightarrow> int \<Rightarrow> string \<Rightarrow> bool" where
  "has_card w i u \<longleftrightarrow> (\<exists>m\<in>set (materials w). mt_id m = i \<and> mt_unit m = u)"

definition lot_shape :: "warehouse \<Rightarrow> receipt \<Rightarrow> bool" where
  "lot_shape w r \<longleftrightarrow>
     0 < mr_qty r \<and> 0 \<le> mr_unit_price r \<and> whole (mr_unit_price r * 100) \<and> mr_total_amount r = money (mr_qty r * mr_unit_price r)
     \<and> mr_doc_type r \<in> set receipt_doc_types \<and> has_card w (mr_material_id r) (mr_unit r)"

definition issue_shape :: "warehouse \<Rightarrow> issue \<Rightarrow> bool" where
  "issue_shape w i \<longleftrightarrow>
     0 < mi_qty i \<and> mi_doc_type i \<in> set issue_doc_types
     \<and> (if mi_doc_type i = ''request'' then mi_request_number i \<noteq> None else mi_reason i \<noteq> None)
     \<and> has_card w (mi_material_id i) (mi_unit i)"

text \<open>A line takes a positive quantity from a lot of the issue's material at the lot's price.\<close>

definition line_shape :: "warehouse \<Rightarrow> int \<Rightarrow> issue_allocation \<Rightarrow> bool" where
  "line_shape w mid a \<longleftrightarrow>
     0 < al_qty a \<and> al_amount a = money (al_qty a * al_unit_price a)
     \<and> (\<exists>l\<in>set (receipts w). mr_id l = al_receipt_id a \<and> mr_unit_price l = al_unit_price a
          \<and> mr_material_id l = mid)"

definition taken_from :: "warehouse \<Rightarrow> int \<Rightarrow> rat" where
  "taken_from w r = sum_where (\<lambda>a. al_receipt_id a = r) al_qty (allocations w)"

definition issued_at :: "warehouse \<Rightarrow> int \<Rightarrow> rat \<Rightarrow> rat" where
  "issued_at w i p = sum_where (\<lambda>a. al_issue_id a = i \<and> al_unit_price a = p) al_qty (allocations w)"

definition returned_at :: "warehouse \<Rightarrow> int \<Rightarrow> rat \<Rightarrow> rat" where
  "returned_at w i p =
     sum_where (\<lambda>r. mr_reversal_of_issue_id r = Some i \<and> mr_unit_price r = p) mr_qty (receipts w)"

definition not_reversed :: "warehouse \<Rightarrow> int \<Rightarrow> bool" where
  "not_reversed w i \<longleftrightarrow> (\<forall>r\<in>set (receipts w). mr_reversal_of_issue_id r \<noteq> Some i)"

definition keys_ok :: "warehouse \<Rightarrow> bool" where
  "keys_ok w \<longleftrightarrow>
     distinct (map mt_id (materials w)) \<and> distinct (map mt_name (materials w))
     \<and> distinct (map mr_id (receipts w)) \<and> distinct (map mi_id (issues w))
     \<and> distinct (map al_id (allocations w))"

definition lots_ok :: "warehouse \<Rightarrow> bool" where
  "lots_ok w \<longleftrightarrow> (\<forall>r\<in>set (receipts w). lot_shape w r \<and> 0 \<le> mr_remaining r
     \<and> mr_remaining r = mr_qty r - taken_from w (mr_id r))"

definition issues_ok :: "warehouse \<Rightarrow> bool" where
  "issues_ok w \<longleftrightarrow> (\<forall>i\<in>set (issues w). issue_shape w i
     \<and> mi_qty i = sum_where (\<lambda>a. al_issue_id a = mi_id i) al_qty (allocations w)
     \<and> mi_total_cost i = sum_where (\<lambda>a. al_issue_id a = mi_id i) al_amount (allocations w))"

definition lines_ok :: "warehouse \<Rightarrow> bool" where
  "lines_ok w \<longleftrightarrow> (\<forall>a\<in>set (allocations w). \<exists>i\<in>set (issues w). mi_id i = al_issue_id a
     \<and> line_shape w (mi_material_id i) a)"

text \<open>A reversal of an issue returns what it took at each price; a reversal of a receipt takes the
  whole lot.\<close>

definition reversals_ok :: "warehouse \<Rightarrow> bool" where
  "reversals_ok w \<longleftrightarrow>
     (\<forall>i\<in>set (issues w). not_reversed w (mi_id i)
        \<or> (\<forall>p. returned_at w (mi_id i) p = issued_at w (mi_id i) p))
     \<and> (\<forall>r\<in>set (receipts w). \<forall>k. mr_reversal_of_issue_id r = Some k \<longrightarrow>
          (\<exists>i\<in>set (issues w). mi_id i = k \<and> mi_material_id i = mr_material_id r))
     \<and> (\<forall>i\<in>set (issues w). \<forall>k. mi_reversal_of_receipt_id i = Some k \<longrightarrow>
          (\<exists>l\<in>set (receipts w). mr_id l = k \<and> mr_material_id l = mi_material_id i
             \<and> sum_where (\<lambda>a. al_issue_id a = mi_id i \<and> al_receipt_id a = k) al_qty (allocations w) = mr_qty l))"

definition warehouse_inv :: "warehouse \<Rightarrow> bool" where
  "warehouse_inv w \<longleftrightarrow>
     keys_ok w \<and> (\<forall>m\<in>set (materials w). mt_unit m \<in> set material_units)
     \<and> lots_ok w \<and> issues_ok w \<and> lines_ok w \<and> reversals_ok w"

lemmas warehouse_inv_parts = warehouse_inv_def keys_ok_def lots_ok_def issues_ok_def lines_ok_def

subsection \<open>The four writes\<close>

definition draw :: "issue_allocation list \<Rightarrow> receipt \<Rightarrow> receipt" where
  "draw rows r = r\<lparr>mr_remaining := mr_remaining r - sum_where (\<lambda>a. al_receipt_id a = mr_id r) al_qty rows\<rparr>"

definition new_lots :: "warehouse \<Rightarrow> receipt list \<Rightarrow> bool" where
  "new_lots w rs \<longleftrightarrow>
     distinct (map mr_id rs) \<and> mr_id ` set rs \<inter> mr_id ` set (receipts w) = {}
     \<and> (\<forall>r\<in>set rs. lot_shape w r \<and> mr_remaining r = mr_qty r
          \<and> (\<forall>k. mr_reversal_of_issue_id r = Some k \<longrightarrow>
               not_reversed w k
               \<and> (\<exists>i\<in>set (issues w). mi_id i = k \<and> mi_material_id i = mr_material_id r)
               \<and> (\<forall>p. sum_where (\<lambda>r. mr_reversal_of_issue_id r = Some k \<and> mr_unit_price r = p) mr_qty rs
                    = issued_at w k p)))"

definition new_issue :: "warehouse \<Rightarrow> issue \<Rightarrow> issue_allocation list \<Rightarrow> bool" where
  "new_issue w i rows \<longleftrightarrow>
     mi_id i \<notin> mi_id ` set (issues w) \<and> distinct (map al_id rows)
     \<and> al_id ` set rows \<inter> al_id ` set (allocations w) = {}
     \<and> issue_shape w i \<and> (\<forall>a\<in>set rows. al_issue_id a = mi_id i \<and> line_shape w (mi_material_id i) a)
     \<and> mi_qty i = sum_list (map al_qty rows) \<and> mi_total_cost i = sum_list (map al_amount rows)
     \<and> (\<forall>l\<in>set (receipts w). sum_where (\<lambda>a. al_receipt_id a = mr_id l) al_qty rows \<le> mr_remaining l)
     \<and> (\<forall>k. mi_reversal_of_receipt_id i = Some k \<longrightarrow>
          (\<exists>l\<in>set (receipts w). mr_id l = k \<and> mr_material_id l = mi_material_id i
             \<and> sum_where (\<lambda>a. al_receipt_id a = k) al_qty rows = mr_qty l))"

inductive wh_write :: "warehouse \<Rightarrow> warehouse \<Rightarrow> bool" where
  add_card:
    "mt_id m \<notin> mt_id ` set (materials w) \<Longrightarrow> mt_name m \<notin> mt_name ` set (materials w) \<Longrightarrow>
     mt_unit m \<in> set material_units \<Longrightarrow> wh_write w (w\<lparr>materials := materials w @ [m]\<rparr>)"
| change_card:
    "m \<in> set (materials w) \<Longrightarrow> mt_id m' = mt_id m \<Longrightarrow>
     \<forall>x\<in>set (materials w). mt_name x = mt_name m' \<longrightarrow> mt_id x = mt_id m \<Longrightarrow>
     mt_unit m' = mt_unit m \<or>
       mt_unit m' \<in> set material_units \<and> (\<forall>r\<in>set (receipts w). mr_material_id r \<noteq> mt_id m) \<Longrightarrow>
     wh_write w (w\<lparr>materials := upd_where (\<lambda>x. mt_id x = mt_id m) (\<lambda>_. m') (materials w)\<rparr>)"
| add_lots: "new_lots w rs \<Longrightarrow> wh_write w (w\<lparr>receipts := receipts w @ rs\<rparr>)"
| post_issue:
    "new_issue w i rows \<Longrightarrow>
     wh_write w (w\<lparr>receipts := map (draw rows) (receipts w), issues := issues w @ [i],
                   allocations := allocations w @ rows\<rparr>)"

inductive_cases wh_writeE [elim]: "wh_write w w'"

subsection \<open>Every write keeps the invariant\<close>

lemma sum_where_pos_ex: "0 < sum_where P f rows \<Longrightarrow> \<exists>r\<in>set rows. P r"
  using sum_where_none [of rows P f] by (metis less_irrefl)

lemma issue_has_lot:
  assumes "warehouse_inv w" "i \<in> set (issues w)"
  shows "\<exists>r\<in>set (receipts w). mr_material_id r = mi_material_id i"
proof -
  have "0 < sum_where (\<lambda>a. al_issue_id a = mi_id i) al_qty (allocations w)"
    using assms by (auto simp: warehouse_inv_parts issue_shape_def)
  then obtain a where a: "a \<in> set (allocations w)" "al_issue_id a = mi_id i"
    using sum_where_pos_ex by blast
  then obtain j where "j \<in> set (issues w)" "mi_id j = mi_id i" "line_shape w (mi_material_id j) a"
    using assms(1) by (auto simp: warehouse_inv_parts)
  moreover from this have "j = i"
    using assms by (auto simp: warehouse_inv_parts distinct_map dest: inj_onD)
  ultimately show ?thesis by (auto simp: line_shape_def)
qed

lemma shapes_mono:
  assumes "\<And>r. r \<in> set (receipts w) \<Longrightarrow> has_card w' (mr_material_id r) (mr_unit r)"
    and "r \<in> set (receipts w)" "lot_shape w r"
  shows "lot_shape w' r"
  using assms by (simp add: lot_shape_def)

text \<open>A change of the cards alone keeps the invariant when lots and issues keep a card of their unit.\<close>

lemma cards_keep_inv:
  assumes inv: "warehouse_inv w"
    and keys: "distinct (map mt_id ms)" "distinct (map mt_name ms)" "\<forall>m\<in>set ms. mt_unit m \<in> set material_units"
    and cards: "\<And>i u. (\<exists>r\<in>set (receipts w). mr_material_id r = i) \<Longrightarrow> has_card w i u
      \<Longrightarrow> has_card (w\<lparr>materials := ms\<rparr>) i u"
  shows "warehouse_inv (w\<lparr>materials := ms\<rparr>)"
proof -
  let ?w = "w\<lparr>materials := ms\<rparr>"
  have same: "taken_from ?w = taken_from w" "issued_at ?w = issued_at w" "returned_at ?w = returned_at w"
    "not_reversed ?w = not_reversed w" "line_shape ?w = line_shape w"
    by (simp_all add: fun_eq_iff taken_from_def issued_at_def returned_at_def not_reversed_def line_shape_def)
  have l: "lot_shape ?w r" if "r \<in> set (receipts w)" "lot_shape w r" for r
    using that cards by (auto simp: lot_shape_def)
  have i: "issue_shape ?w i" if "i \<in> set (issues w)" "issue_shape w i" for i
    using that cards issue_has_lot [OF inv] by (auto simp: issue_shape_def)
  have "lots_ok ?w" using inv l by (auto simp: warehouse_inv_parts same)
  moreover have "issues_ok ?w" using inv i by (auto simp: warehouse_inv_parts same)
  moreover have "lines_ok ?w" "reversals_ok ?w" "keys_ok ?w"
    using inv keys by (simp_all add: warehouse_inv_parts reversals_ok_def same)
  ultimately show ?thesis using keys by (simp add: warehouse_inv_def)
qed

lemma add_card_inv:
  assumes "warehouse_inv w" "mt_id m \<notin> mt_id ` set (materials w)" "mt_name m \<notin> mt_name ` set (materials w)"
    "mt_unit m \<in> set material_units"
  shows "warehouse_inv (w\<lparr>materials := materials w @ [m]\<rparr>)"
  using assms by (intro cards_keep_inv) (auto simp: warehouse_inv_parts has_card_def)

lemma change_card_inv:
  assumes inv: "warehouse_inv w" and m: "m \<in> set (materials w)" "mt_id m' = mt_id m"
    and name: "\<forall>x\<in>set (materials w). mt_name x = mt_name m' \<longrightarrow> mt_id x = mt_id m"
    and unit: "mt_unit m' = mt_unit m \<or>
      mt_unit m' \<in> set material_units \<and> (\<forall>r\<in>set (receipts w). mr_material_id r \<noteq> mt_id m)"
  shows "warehouse_inv (w\<lparr>materials := upd_where (\<lambda>x. mt_id x = mt_id m) (\<lambda>_. m') (materials w)\<rparr>)"
proof (rule cards_keep_inv [OF inv])
  let ?ms = "upd_where (\<lambda>x. mt_id x = mt_id m) (\<lambda>_. m') (materials w)"
  have ids: "map mt_id ?ms = map mt_id (materials w)"
    using m(2) by (simp add: upd_where_def)
  show "distinct (map mt_id ?ms)" using inv unfolding ids by (simp add: warehouse_inv_parts)
  have di: "distinct (map mt_id (materials w))" and dn: "distinct (map mt_name (materials w))"
    using inv by (simp_all add: warehouse_inv_parts)
  have uniq: "x = y" if "x \<in> set (materials w)" "y \<in> set (materials w)" "mt_id x = mt_id y" for x y
    using that di by (auto simp: distinct_map dest: inj_onD)
  have uniqn: "x = y" if "x \<in> set (materials w)" "y \<in> set (materials w)" "mt_name x = mt_name y" for x y
    using that dn by (auto simp: distinct_map dest: inj_onD)
  show "distinct (map mt_name ?ms)"
    unfolding upd_where_def map_map distinct_map
  proof
    show "distinct (materials w)" using di by (simp add: distinct_map)
    show "inj_on (mt_name \<circ> (\<lambda>x. if mt_id x = mt_id m then m' else x)) (set (materials w))"
    proof (rule inj_onI, rule uniq)
      fix x y assume xy: "x \<in> set (materials w)" "y \<in> set (materials w)"
        and "(mt_name \<circ> (\<lambda>x. if mt_id x = mt_id m then m' else x)) x
           = (mt_name \<circ> (\<lambda>x. if mt_id x = mt_id m then m' else x)) y"
      then consider "mt_id x = mt_id m" "mt_id y = mt_id m" | "mt_id x = mt_id m" "mt_name y = mt_name m'"
        | "mt_id y = mt_id m" "mt_name x = mt_name m'" | "mt_name x = mt_name y"
        by (auto split: if_splits)
      then show "mt_id x = mt_id y" by cases (use name xy uniqn in auto)
    qed
  qed
  show "\<forall>x\<in>set ?ms. mt_unit x \<in> set material_units"
    using inv m unit by (auto simp: set_upd_where warehouse_inv_parts)
  show "has_card (w\<lparr>materials := ?ms\<rparr>) i u"
    if "\<exists>r\<in>set (receipts w). mr_material_id r = i" "has_card w i u" for i u
  proof (cases "i = mt_id m")
    case True
    with that unit have "mt_unit m' = mt_unit m" by auto
    with that True m uniq show ?thesis by (force simp: has_card_def set_upd_where)
  qed (use that in \<open>auto simp: has_card_def set_upd_where\<close>)
qed

lemma add_lots_inv:
  assumes inv: "warehouse_inv w" and new: "new_lots w rs"
  shows "warehouse_inv (w\<lparr>receipts := receipts w @ rs\<rparr>)"
proof -
  let ?w = "w\<lparr>receipts := receipts w @ rs\<rparr>"
  have same: "taken_from ?w = taken_from w" "issued_at ?w = issued_at w" "lot_shape ?w = lot_shape w"
    "issue_shape ?w = issue_shape w"
    by (simp_all add: fun_eq_iff taken_from_def issued_at_def lot_shape_def issue_shape_def has_card_def)
  have line: "line_shape ?w i a" if "line_shape w i a" for i a
    using that by (auto simp: line_shape_def)
  have fresh: "taken_from w (mr_id r) = 0" if "r \<in> set rs" for r
    unfolding taken_from_def
  proof (rule sum_where_none)
    fix a assume "a \<in> set (allocations w)"
    then obtain l where "l \<in> set (receipts w)" "mr_id l = al_receipt_id a"
      using inv by (auto simp: warehouse_inv_parts line_shape_def)
    moreover have "mr_id r \<notin> mr_id ` set (receipts w)" using new that by (auto simp: new_lots_def)
    ultimately show "al_receipt_id a \<noteq> mr_id r" by (metis imageI)
  qed
  have keys: "keys_ok ?w" using inv new by (auto simp: warehouse_inv_parts new_lots_def)
  have lots: "lots_ok ?w"
    using inv new fresh by (auto simp: warehouse_inv_parts same new_lots_def lot_shape_def)
  have lines: "lines_ok ?w" using inv line by (fastforce simp: warehouse_inv_parts)
  have issues: "issues_ok ?w" using inv by (simp add: warehouse_inv_parts same)
  have nr: "not_reversed ?w k \<longleftrightarrow> not_reversed w k \<and> (\<forall>r\<in>set rs. mr_reversal_of_issue_id r \<noteq> Some k)" for k
    by (auto simp: not_reversed_def)
  have ret: "returned_at ?w k p = returned_at w k p
      + sum_where (\<lambda>r. mr_reversal_of_issue_id r = Some k \<and> mr_unit_price r = p) mr_qty rs" for k p
    by (simp add: returned_at_def)
  have exact: "not_reversed ?w (mi_id i) \<or> (\<forall>p. returned_at ?w (mi_id i) p = issued_at w (mi_id i) p)"
    if i: "i \<in> set (issues w)" for i
  proof (cases "\<exists>r\<in>set rs. mr_reversal_of_issue_id r = Some (mi_id i)")
    case True
    then have "not_reversed w (mi_id i)"
      and exactly: "\<And>p. sum_where (\<lambda>r. mr_reversal_of_issue_id r = Some (mi_id i) \<and> mr_unit_price r = p) mr_qty rs
        = issued_at w (mi_id i) p"
      using new unfolding new_lots_def by blast+
    moreover have "returned_at w (mi_id i) p = 0" for p
      using \<open>not_reversed w (mi_id i)\<close> unfolding returned_at_def not_reversed_def by (intro sum_where_none) auto
    ultimately show ?thesis by (simp add: ret)
  next
    case False
    have "sum_where (\<lambda>r. mr_reversal_of_issue_id r = Some (mi_id i) \<and> mr_unit_price r = p) mr_qty rs = 0" for p
      using False by (intro sum_where_none) auto
    then show ?thesis using inv i False by (simp add: ret nr warehouse_inv_def reversals_ok_def)
  qed
  have "reversals_ok ?w"
    unfolding reversals_ok_def same
    using inv new exact by (fastforce simp: warehouse_inv_def reversals_ok_def new_lots_def)
  then show ?thesis
    using keys lots lines issues inv by (simp add: warehouse_inv_def)
qed

lemma post_issue_inv:
  assumes inv: "warehouse_inv w" and new: "new_issue w i rows"
  shows "warehouse_inv (w\<lparr>receipts := map (draw rows) (receipts w), issues := issues w @ [i],
           allocations := allocations w @ rows\<rparr>)" (is "warehouse_inv ?w")
proof -
  note D = draw_def
  have own: "al_issue_id a = mi_id i" if "a \<in> set rows" for a
    using new that by (simp add: new_issue_def)
  have old: "al_issue_id a \<noteq> mi_id i" if "a \<in> set (allocations w)" for a
  proof -
    obtain j where "j \<in> set (issues w)" "mi_id j = al_issue_id a"
      using inv \<open>a \<in> set (allocations w)\<close> by (auto simp: warehouse_inv_parts)
    moreover have "mi_id i \<notin> mi_id ` set (issues w)" using new by (simp add: new_issue_def)
    ultimately show ?thesis by (metis imageI)
  qed
  have ids: "mi_id j \<noteq> mi_id i" if "j \<in> set (issues w)" for j
    using new imageI [OF that, of mi_id] by (auto simp: new_issue_def)
  have shapes: "lot_shape ?w (draw rows r) = lot_shape w r" "issue_shape ?w = issue_shape w" for r
    by (simp_all add: fun_eq_iff lot_shape_def issue_shape_def has_card_def D)
  have line: "line_shape ?w m a = line_shape w m a" for m a
    by (simp add: line_shape_def D)
  have sold: "sum_where (\<lambda>a. al_issue_id a = mi_id i \<and> P a) f (allocations w) = 0" for P f
    by (rule sum_where_none) (use old in auto)
  have snew: "sum_where (\<lambda>a. al_issue_id a = mi_id j \<and> P a) f rows = 0" if "j \<in> set (issues w)" for j P f
    by (rule sum_where_none) (use own ids [OF that] in auto)
  have sall: "sum_where (\<lambda>a. al_issue_id a = mi_id i \<and> P a) f rows = sum_where P f rows" for P f
    by (rule sum_where_cong) (use own in auto)
  have tot: "sum_where (\<lambda>_. True) f rows = sum_list (map f rows)" for f :: "issue_allocation \<Rightarrow> rat"
    by (simp add: sum_where_def)
  note sums = sold [of "\<lambda>_. True", simplified] snew [of _ "\<lambda>_. True", simplified]
    sall [of "\<lambda>_. True", unfolded tot, simplified]
  have keys: "keys_ok ?w"
    using inv new by (auto simp: warehouse_inv_parts new_issue_def D comp_def)
  have lots: "lots_ok ?w"
  proof -
    have one: "lot_shape w l \<and> 0 \<le> mr_remaining (draw rows l)
        \<and> mr_remaining (draw rows l) = mr_qty l - taken_from ?w (mr_id l)" if "l \<in> set (receipts w)" for l
      using inv new that by (simp add: warehouse_inv_parts new_issue_def D taken_from_def)
    have same: "mr_id (draw rows l) = mr_id l" "mr_qty (draw rows l) = mr_qty l" for l
      by (simp_all add: D)
    show ?thesis unfolding lots_ok_def
    proof
      fix r assume "r \<in> set (receipts ?w)"
      then obtain l where "l \<in> set (receipts w)" "r = draw rows l" by auto
      then show "lot_shape ?w r \<and> 0 \<le> mr_remaining r \<and> mr_remaining r = mr_qty r - taken_from ?w (mr_id r)"
        using one [OF \<open>l \<in> set (receipts w)\<close>] by (simp add: same shapes)
    qed
  qed
  have issues: "issues_ok ?w"
    using inv new by (auto simp: warehouse_inv_parts new_issue_def shapes sums)
  have lines: "lines_ok ?w"
    using inv new by (fastforce simp: lines_ok_def warehouse_inv_def new_issue_def line)
  have backs: "returned_at ?w = returned_at w" "not_reversed ?w = not_reversed w"
    by (simp_all add: fun_eq_iff returned_at_def not_reversed_def sum_where_def filter_map comp_def D)
  have at_old: "issued_at ?w (mi_id j) p = issued_at w (mi_id j) p" if "j \<in> set (issues w)" for j p
    using snew [OF that, of "\<lambda>a. al_unit_price a = p" al_qty] by (simp add: issued_at_def)
  have fresh: "not_reversed w (mi_id i)"
    using inv ids unfolding not_reversed_def warehouse_inv_def reversals_ok_def by metis
  have "reversals_ok ?w"
    unfolding reversals_ok_def backs
  proof (intro conjI ballI allI impI)
    show "not_reversed w (mi_id j) \<or> (\<forall>p. returned_at w (mi_id j) p = issued_at ?w (mi_id j) p)"
      if "j \<in> set (issues ?w)" for j
      using that inv fresh at_old by (auto simp: warehouse_inv_def reversals_ok_def)
    show "\<exists>j\<in>set (issues ?w). mi_id j = k \<and> mi_material_id j = mr_material_id r"
      if "r \<in> set (receipts ?w)" "mr_reversal_of_issue_id r = Some k" for r k
      using that inv by (auto simp: warehouse_inv_def reversals_ok_def D)
    show "\<exists>l\<in>set (receipts ?w). mr_id l = k \<and> mr_material_id l = mi_material_id j
        \<and> sum_where (\<lambda>a. al_issue_id a = mi_id j \<and> al_receipt_id a = k) al_qty (allocations ?w) = mr_qty l"
      if j: "j \<in> set (issues ?w)" "mi_reversal_of_receipt_id j = Some k" for j k
    proof (cases "j = i")
      case True
      then have "\<exists>l\<in>set (receipts w). mr_id l = k \<and> mr_material_id l = mi_material_id i
          \<and> sum_where (\<lambda>a. al_receipt_id a = k) al_qty rows = mr_qty l"
        using new j by (simp add: new_issue_def)
      then show ?thesis using True by (force simp: D sold sall)
    next
      case False
      then have jw: "j \<in> set (issues w)" using j by simp
      then have "\<exists>l\<in>set (receipts w). mr_id l = k \<and> mr_material_id l = mi_material_id j
          \<and> sum_where (\<lambda>a. al_issue_id a = mi_id j \<and> al_receipt_id a = k) al_qty (allocations w) = mr_qty l"
        using inv j by (auto simp: warehouse_inv_def reversals_ok_def)
      then show ?thesis using snew [OF jw] by (force simp: D)
    qed
  qed
  then show ?thesis using keys lots issues lines inv by (simp add: warehouse_inv_def)
qed

lemma wh_write_inv: "warehouse_inv w \<Longrightarrow> wh_write w w' \<Longrightarrow> warehouse_inv w'"
  by (erule wh_writeE) (blast intro: add_card_inv change_card_inv add_lots_inv post_issue_inv)+

end
