(* ===== verification/WarehouseRuns.thy ===== *)
theory WarehouseRuns
  imports WarehouseInvariant
begin

section \<open>The warehouse's operations and runs\<close>

text \<open>
  The allocation of an issue over the lots and its reference form, the operations as the writes of
  the invariant, and the step relation of the warehouse: any call by anyone at any time, and the
  coming and going of requests.
\<close>

subsection \<open>Money\<close>

lemma whole_money [simp]: "whole (money x * 100)"
  by (simp add: money_def whole_iff)

lemma money_whole: "whole (x * 100) \<Longrightarrow> money x = x"
  by (auto simp: money_def whole_iff)

lemma money_idem [simp]: "money (money x) = money x"
  by (rule money_whole) simp

lemma whole_sum: "(\<And>x. x \<in> set xs \<Longrightarrow> whole (x * 100)) \<Longrightarrow> whole (sum_list xs * 100)"
proof (induction xs)
  case Nil
  show ?case by (simp add: whole_def)
next
  case (Cons a xs)
  have "whole (a * 100)" "whole (sum_list xs * 100)" using Cons by auto
  then obtain y z where "a * 100 = of_int y" "sum_list xs * 100 = of_int z"
    unfolding whole_iff by blast
  then have "sum_list (a # xs) * 100 = of_int (y + z)" by (simp add: algebra_simps)
  then show ?case unfolding whole_iff by blast
qed

lemma money_nonneg: "0 \<le> x \<Longrightarrow> 0 \<le> money x"
  by (simp add: money_def round_half_up_def)

lemma money_error: "\<bar>money x - x\<bar> \<le> 1 / 200"
  using round_half_up_near [of "x * 100"] by (simp add: money_def field_simps abs_le_iff)

subsection \<open>First in, first out\<close>

lemma fifo_loop_lines:
  "fifo_loop bs q = (lines, left) \<Longrightarrow>
   \<forall>a\<in>set lines. \<exists>b\<in>set bs. 0 < an_qty a \<and> a = take_from b (an_qty a)"
proof (induction bs q arbitrary: lines left rule: fifo_loop.induct)
  case (2 b bs q)
  consider "q \<le> 0" | "0 < q" "mr_remaining b \<le> 0" | "0 < q" "0 < mr_remaining b" by linarith
  then show ?case
  proof cases
    case 3
    let ?x = "min (mr_remaining b) q"
    obtain ls l where f: "fifo_loop bs (q - ?x) = (ls, l)" by fastforce
    then have "\<forall>a\<in>set ls. \<exists>b\<in>set bs. 0 < an_qty a \<and> a = take_from b (an_qty a)"
      using "2.IH"(2) 3 by simp
    then show ?thesis using "2.prems" 3 f by (auto simp: Let_def take_from_def)
  qed (use 2 in auto)
qed simp

lemma fifo_loop_sum: "fifo_loop bs q = (lines, left) \<Longrightarrow> sum_list (map an_qty lines) = q - left"
proof (induction bs q arbitrary: lines left rule: fifo_loop.induct)
  case (2 b bs q)
  then show ?case by (auto simp: Let_def take_from_def split: if_splits prod.splits)
qed simp

lemma take_from_fields:
  "a = take_from b (an_qty a) \<Longrightarrow>
   an_receipt_id a = mr_id b \<and> an_unit_price a = mr_unit_price b \<and> an_amount a = money (an_qty a * mr_unit_price b)"
  by (cases a) (simp add: take_from_def)

lemma fifo_loop_absent:
  assumes "fifo_loop bs q = (lines, left)" "i \<notin> mr_id ` set bs"
  shows "sum_where (\<lambda>a. an_receipt_id a = i) f lines = 0"
proof (rule sum_where_none)
  fix a assume "a \<in> set lines"
  then obtain b where "b \<in> set bs" "a = take_from b (an_qty a)"
    using fifo_loop_lines [OF assms(1)] by blast
  then have "b \<in> set bs" "an_receipt_id a = mr_id b" using take_from_fields by blast+
  then show "an_receipt_id a \<noteq> i" using assms(2) by auto
qed

text \<open>A lot gives at most what is left of it.\<close>

lemma fifo_loop_bound:
  "fifo_loop bs q = (lines, left) \<Longrightarrow> distinct (map mr_id bs) \<Longrightarrow> \<forall>b\<in>set bs. 0 \<le> mr_remaining b \<Longrightarrow>
   r \<in> set bs \<Longrightarrow> sum_where (\<lambda>a. an_receipt_id a = mr_id r) an_qty lines \<le> mr_remaining r"
proof (induction bs q arbitrary: lines left rule: fifo_loop.induct)
  case (2 b bs q)
  consider "q \<le> 0" | "0 < q" "mr_remaining b \<le> 0" | "0 < q" "0 < mr_remaining b" by linarith
  then show ?case
  proof cases
    case 1
    then show ?thesis using "2.prems" by auto
  next
    case 2
    then have f: "fifo_loop bs q = (lines, left)" using "2.prems" by simp
    show ?thesis
    proof (cases "r = b")
      case True
      have "sum_where (\<lambda>a. an_receipt_id a = mr_id r) an_qty lines = 0"
        using fifo_loop_absent [OF f] "2.prems" True by simp
      then show ?thesis using "2.prems"(3,4) by auto
    qed (use "2.IH"(1) 2 f "2.prems" in auto)
  next
    case 3
    let ?x = "min (mr_remaining b) q"
    obtain ls l where f: "fifo_loop bs (q - ?x) = (ls, l)" by fastforce
    then have lines: "lines = take_from b ?x # ls" using "2.prems" 3 by (simp add: Let_def)
    show ?thesis
    proof (cases "r = b")
      case True
      have "sum_where (\<lambda>a. an_receipt_id a = mr_id r) an_qty ls = 0"
        using fifo_loop_absent [OF f] "2.prems" True by simp
      then show ?thesis using True lines by (simp add: take_from_def)
    next
      case False
      then have "r \<in> set bs" "mr_id b \<noteq> mr_id r" using "2.prems" by auto
      then show ?thesis using "2.IH"(2) 3 f "2.prems" lines by (simp add: take_from_def)
    qed
  qed
qed simp

text \<open>On the number line, the demand is the interval from 0 to \<open>q\<close> and every lot owns the interval
  after the lots before it: a line is the overlap.\<close>

definition fifo_reference :: "receipt list \<Rightarrow> rat \<Rightarrow> allocation list" where
  "fifo_reference bs q =
     List.map_filter
       (\<lambda>i. let x = min (mr_remaining (bs ! i)) (q - sum_list (map mr_remaining (take i bs)))
            in if 0 < x then Some (take_from (bs ! i) x) else None)
       [0..<length bs]"

lemma map_filter_upt_Suc:
  "List.map_filter f [0..<Suc n] =
     (case f 0 of None \<Rightarrow> [] | Some x \<Rightarrow> [x]) @ List.map_filter (\<lambda>i. f (Suc i)) [0..<n]"
proof -
  have "[0..<Suc n] = 0 # map Suc [0..<n]" by (simp add: upt_conv_Cons map_Suc_upt del: upt_Suc)
  then show ?thesis
    by (simp add: List.map_filter_def filter_map comp_def del: upt_Suc split: option.split)
qed

lemma fifo_reference_Cons:
  "fifo_reference (b # bs) q =
     (let x = min (mr_remaining b) q in if 0 < x then [take_from b x] else [])
     @ fifo_reference bs (q - mr_remaining b)"
  unfolding fifo_reference_def length_Cons map_filter_upt_Suc
  by (simp add: Let_def algebra_simps cong: if_cong)

lemma fifo_reference_none: "q \<le> 0 \<Longrightarrow> \<forall>b\<in>set bs. 0 \<le> mr_remaining b \<Longrightarrow> fifo_reference bs q = []"
proof (induction bs arbitrary: q)
  case Nil
  show ?case by (simp add: fifo_reference_def List.map_filter_def)
next
  case (Cons b bs)
  then have "fifo_reference bs (q - mr_remaining b) = []" by simp
  with Cons.prems show ?case by (simp add: fifo_reference_Cons)
qed

lemma fifo_loop_reference:
  assumes "\<forall>b\<in>set bs. 0 \<le> mr_remaining b"
  shows "fifo_loop bs q =
     (fifo_reference bs q, if q \<le> 0 then q else max 0 (q - sum_list (map mr_remaining bs)))"
  using assms
proof (induction bs q rule: fifo_loop.induct)
  case (1 q)
  show ?case by (simp add: fifo_reference_def List.map_filter_def)
next
  case (2 b bs q)
  have s: "0 \<le> sum_list (map mr_remaining bs)" using "2.prems" by (intro sum_list_nonneg) auto
  consider "q \<le> 0" | "0 < q" "mr_remaining b \<le> 0" | "0 < q" "0 < mr_remaining b" by linarith
  then show ?case
  proof cases
    case 1
    then show ?thesis using fifo_reference_none [OF 1 "2.prems"] by simp
  next
    case 2
    then have z: "mr_remaining b = 0" using "2.prems" by simp
    have "fifo_loop bs q = (fifo_reference bs q, if q \<le> 0 then q else max 0 (q - sum_list (map mr_remaining bs)))"
      using "2.IH"(1) 2 "2.prems" by simp
    then show ?thesis using 2 z by (simp add: fifo_reference_Cons)
  next
    case 3
    let ?x = "min (mr_remaining b) q"
    have ih: "fifo_loop bs (q - ?x) = (fifo_reference bs (q - ?x),
        if q - ?x \<le> 0 then q - ?x else max 0 (q - ?x - sum_list (map mr_remaining bs)))"
      using "2.IH"(2) 3 "2.prems" by simp
    have r: "fifo_reference bs (q - ?x) = fifo_reference bs (q - mr_remaining b)"
      using fifo_reference_none [of "q - mr_remaining b" bs] fifo_reference_none [of 0 bs] "2.prems"
      by (cases "mr_remaining b \<le> q") (simp_all add: min_def)
    show ?thesis using 3 s ih r by (simp add: fifo_reference_Cons Let_def min_def max_def)
  qed
qed

lemma allocate_fifo_reference:
  assumes "\<forall>b\<in>set bs. 0 \<le> mr_remaining b"
  shows "allocate_fifo bs q =
    (if q \<le> 0 \<or> q \<le> sum_list (map mr_remaining bs) then Inr (fifo_reference bs q)
     else Inl (Insufficient_stock (sum_list (map mr_remaining bs))))"
  by (auto simp: allocate_fifo_def fifo_loop_reference [OF assms])

subsection \<open>An issue as a write\<close>

definition covers :: "warehouse \<Rightarrow> int \<Rightarrow> allocation list \<Rightarrow> bool" where
  "covers w mid lines \<longleftrightarrow>
     (\<forall>a\<in>set lines. \<exists>b\<in>set (receipts w). mr_material_id b = mid \<and> 0 < an_qty a \<and> a = take_from b (an_qty a))
     \<and> (\<forall>l\<in>set (receipts w). sum_where (\<lambda>a. an_receipt_id a = mr_id l) an_qty lines \<le> mr_remaining l)"

definition same_line :: "int \<Rightarrow> allocation \<Rightarrow> issue_allocation \<Rightarrow> bool" where
  "same_line i a x \<longleftrightarrow>
     al_issue_id x = i \<and> al_receipt_id x = an_receipt_id a \<and> al_qty x = an_qty a
     \<and> al_unit_price x = an_unit_price a \<and> al_amount x = an_amount a"

lemma decrement_batches_eq:
  "decrement_batches lines rows =
     map (\<lambda>r. r\<lparr>mr_remaining := mr_remaining r - sum_where (\<lambda>a. an_receipt_id a = mr_id r) an_qty lines\<rparr>) rows"
  unfolding decrement_batches_def
  by (induction lines arbitrary: rows) (auto simp: upd_where_def comp_def)

lemma build_allocations_eq:
  "\<exists>new. build_allocations i lines rows = rows @ new \<and> list_all2 (same_line i) lines new
     \<and> (distinct (map al_id rows) \<longrightarrow> distinct (map al_id (rows @ new)))"
proof (induction lines arbitrary: rows)
  case (Cons a lines)
  let ?x = "\<lparr>al_id = next_id (map al_id rows), al_issue_id = i, al_receipt_id = an_receipt_id a,
    al_qty = an_qty a, al_unit_price = an_unit_price a, al_amount = an_amount a\<rparr>"
  obtain new where new: "build_allocations i lines (rows @ [?x]) = (rows @ [?x]) @ new"
      "list_all2 (same_line i) lines new"
      "distinct (map al_id (rows @ [?x])) \<longrightarrow> distinct (map al_id ((rows @ [?x]) @ new))"
    using Cons.IH by blast
  have "distinct (map al_id (rows @ [?x]))" if "distinct (map al_id rows)"
    using that next_id_fresh [of "map al_id rows"] by (simp add: image_iff)
  moreover have "same_line i a ?x" by (simp add: same_line_def)
  ultimately show ?case
    using new by (intro exI [of _ "?x # new"]) simp
qed simp

lemma all2_map_eq: "list_all2 R xs ys \<Longrightarrow> (\<And>x y. R x y \<Longrightarrow> f x = g y) \<Longrightarrow> map f xs = map g ys"
  by (induction rule: list_all2_induct) simp_all

lemma all2_member: "list_all2 R xs ys \<Longrightarrow> y \<in> set ys \<Longrightarrow> \<exists>x\<in>set xs. R x y"
  by (induction rule: list_all2_induct) auto

lemma apply_issue_write:
  assumes inv: "warehouse_inv w" and m: "m \<in> set (materials w)"
    and lines: "covers w (mt_id m) lines" "sum_list (map an_qty lines) = qty" "0 < qty"
    and doc: "d \<in> set issue_doc_types" "if d = ''request'' then n \<noteq> None else reason \<noteq> None"
    and rev: "\<forall>k. rv = Some k \<longrightarrow> (\<exists>l\<in>set (receipts w). mr_id l = k \<and> mr_material_id l = mt_id m
        \<and> sum_where (\<lambda>a. an_receipt_id a = k) an_qty lines = mr_qty l)"
    and res: "apply_issue w who lines m qty d n reason rv = Inr (w', i)"
  shows "wh_write w w'"
proof -
  let ?i = "build_issue w who lines m qty d n reason rv"
  obtain rows where rows: "build_allocations (mi_id ?i) lines (allocations w) = allocations w @ rows"
      "list_all2 (same_line (mi_id ?i)) lines rows" "distinct (map al_id (allocations w @ rows))"
    using build_allocations_eq [of "mi_id ?i" lines "allocations w"] inv by (auto simp: warehouse_inv_parts)
  have sums: "sum_where (\<lambda>a. al_receipt_id a = k) al_qty rows = sum_where (\<lambda>a. an_receipt_id a = k) an_qty lines" for k
    by (rule sum_where_all2 [OF rows(2), symmetric]) (auto simp: same_line_def)
  have w': "w' = w\<lparr>receipts := map (draw rows) (receipts w), issues := issues w @ [?i],
      allocations := allocations w @ rows\<rparr>"
    using res rows(1) by (auto simp: apply_issue_def Let_def decrement_batches_eq draw_def sums split: if_splits)
  have each: "al_issue_id x = mi_id ?i \<and> line_shape w (mt_id m) x" if "x \<in> set rows" for x
  proof -
    obtain a where a: "a \<in> set lines" "same_line (mi_id ?i) a x"
      using all2_member [OF rows(2) \<open>x \<in> set rows\<close>] by blast
    obtain b where b: "b \<in> set (receipts w)" "mr_material_id b = mt_id m" "0 < an_qty a" "a = take_from b (an_qty a)"
      using lines(1) a(1) by (auto simp: covers_def)
    have "an_receipt_id a = mr_id b" "an_unit_price a = mr_unit_price b" "an_amount a = money (an_qty a * mr_unit_price b)"
      using take_from_fields [OF b(4)] by simp_all
    then show ?thesis using a(2) b by (auto simp: same_line_def line_shape_def)
  qed
  have cents: "whole (x * 100)" if "x \<in> set (map an_amount lines)" for x
  proof -
    from that obtain a where a: "a \<in> set lines" "x = an_amount a" by auto
    then obtain b where "a = take_from b (an_qty a)" using lines(1) by (auto simp: covers_def)
    then have "an_amount a = money (an_qty a * mr_unit_price b)" using take_from_fields by blast
    then show ?thesis using a by simp
  qed
  have total: "mi_total_cost ?i = sum_list (map al_amount rows)"
  proof -
    have "money (sum_list (map an_amount lines)) = sum_list (map an_amount lines)"
      by (rule money_whole, rule whole_sum, rule cents)
    then show ?thesis using all2_map_eq [OF rows(2), of an_amount al_amount]
      by (simp add: build_issue_def same_line_def)
  qed
  have qty: "mi_qty ?i = sum_list (map al_qty rows)"
    using all2_map_eq [OF rows(2), of an_qty al_qty] lines(2) by (simp add: build_issue_def same_line_def)
  have shape: "issue_shape w ?i" using doc lines(3) m by (auto simp: issue_shape_def build_issue_def has_card_def)
  have fresh: "mi_id ?i \<notin> mi_id ` set (issues w)"
    using next_id_fresh [of "map mi_id (issues w)"] by (simp add: build_issue_def)
  have "new_issue w ?i rows"
    unfolding new_issue_def
  proof (intro conjI)
    show "\<forall>a\<in>set rows. al_issue_id a = mi_id ?i \<and> line_shape w (mi_material_id ?i) a"
      using each by (simp add: build_issue_def)
    show "\<forall>k. mi_reversal_of_receipt_id ?i = Some k \<longrightarrow> (\<exists>l\<in>set (receipts w). mr_id l = k
        \<and> mr_material_id l = mi_material_id ?i \<and> sum_where (\<lambda>a. al_receipt_id a = k) al_qty rows = mr_qty l)"
      using rev by (simp add: build_issue_def sums)
  qed (use total qty shape fresh rows(3) lines(1) in \<open>auto simp: covers_def sums\<close>)
  then show ?thesis unfolding w' by (rule post_issue)
qed

subsection \<open>The operations\<close>

lemma first_row_eq: "first_row (\<lambda>x. k x = i) rows = Some r \<Longrightarrow> r \<in> set rows \<and> k r = i"
  using first_row_Some by fastforce

lemma get_active_Inr:
  "get_active_material w i = Inr m \<Longrightarrow> m \<in> set (materials w) \<and> mt_id m = i \<and> mt_is_active m"
  using first_row_eq [of mt_id i "materials w"]
  by (auto simp: get_active_material_def find_material_def split: option.splits if_splits)

lemma parse_qty_pos: "parse_qty v = Inr q \<Longrightarrow> 0 < q \<and> whole (q * 1000)"
  by (auto simp: parse_qty_def split: decimal_arg.splits if_splits)

lemma parse_price_cents: "parse_price v = Inr p \<Longrightarrow> 0 \<le> p \<and> whole (p * 100)"
  by (auto simp: parse_price_def money_nonneg split: decimal_arg.splits if_splits)

lemma set_open_lots: "set (open_lots w i) = {r \<in> set (receipts w). mr_material_id r = i \<and> 0 < mr_remaining r}"
  by (auto simp: open_lots_def)

lemma distinct_open_lots: "distinct (map mr_id (receipts w)) \<Longrightarrow> distinct (map mr_id (open_lots w i))"
proof -
  assume d: "distinct (map mr_id (receipts w))"
  have "mset (map mr_id (open_lots w i))
      = mset (map mr_id (filter (\<lambda>r. mr_material_id r = i \<and> 0 < mr_remaining r) (receipts w)))"
    by (simp add: open_lots_def)
  then show ?thesis
    using distinct_map_filter [OF d] by (metis mset_eq_imp_distinct_iff)
qed

lemma lot_bounds:
  "warehouse_inv w \<Longrightarrow> l \<in> set (receipts w) \<Longrightarrow>
   0 \<le> mr_remaining l \<and> mr_remaining l = mr_qty l - taken_from w (mr_id l)"
  unfolding warehouse_inv_def lots_ok_def by blast

lemma lot_nonneg: "warehouse_inv w \<Longrightarrow> l \<in> set (receipts w) \<Longrightarrow> 0 \<le> mr_remaining l"
  using lot_bounds by blast

lemma fifo_covers:
  assumes inv: "warehouse_inv w" and fifo: "allocate_fifo (open_lots w mid) q = Inr lines" and q: "0 < q"
  shows "covers w mid lines \<and> sum_list (map an_qty lines) = q"
proof -
  let ?bs = "open_lots w mid"
  obtain left where f: "fifo_loop ?bs q = (lines, left)" "\<not> 0 < left"
    using fifo by (auto simp: allocate_fifo_def split: prod.splits if_splits)
  have pos: "\<forall>b\<in>set ?bs. 0 \<le> mr_remaining b" by (simp add: set_open_lots)
  have "left = max 0 (q - sum_list (map mr_remaining ?bs))"
    using f(1) q fifo_loop_reference [OF pos, of q] by simp
  then have "left = 0" using f(2) by simp
  then have total: "sum_list (map an_qty lines) = q" using fifo_loop_sum [OF f(1)] by simp
  have d: "distinct (map mr_id (receipts w))" using inv by (simp add: warehouse_inv_parts)
  have bound: "sum_where (\<lambda>a. an_receipt_id a = mr_id l) an_qty lines \<le> mr_remaining l"
    if l: "l \<in> set (receipts w)" for l
  proof (cases "l \<in> set ?bs")
    case True
    then show ?thesis by (rule fifo_loop_bound [OF f(1) distinct_open_lots [OF d] pos])
  next
    case False
    have "mr_id l \<notin> mr_id ` set ?bs"
    proof
      assume "mr_id l \<in> mr_id ` set ?bs"
      then obtain x where "x \<in> set ?bs" "mr_id x = mr_id l" by auto
      moreover have "x \<in> set (receipts w)" using \<open>x \<in> set ?bs\<close> by (simp add: set_open_lots)
      ultimately have "x = l" using d l by (metis inj_onD distinct_map)
      then show False using False \<open>x \<in> set ?bs\<close> by simp
    qed
    then show ?thesis using fifo_loop_absent [OF f(1)] lot_bounds [OF inv l] by simp
  qed
  have "\<exists>b\<in>set (receipts w). mr_material_id b = mid \<and> 0 < an_qty a \<and> a = take_from b (an_qty a)"
    if "a \<in> set lines" for a
    using fifo_loop_lines [OF f(1)] that by (auto simp: set_open_lots)
  then show ?thesis using bound total by (simp add: covers_def)
qed

lemma issue_material_write:
  assumes inv: "warehouse_inv w" and res: "issue_material w who args = Inr (w', i)"
  shows "wh_write w w'"
proof -
  from res obtain q m lines where q: "parse_qty (ia_qty args) = Inr q"
    and t: "validate_issue_target (ia_doc_type args) (ia_request_number args) (ia_reason args) = Inr ()"
    and m: "get_active_material w (ia_material_id args) = Inr m"
    and l: "allocate_fifo (open_lots w (ia_material_id args)) q = Inr lines"
    and a: "apply_issue w who lines m q (ia_doc_type args) (ia_request_number args) (ia_reason args) None = Inr (w', i)"
    unfolding issue_material_def by (auto simp: res_bind_Inr_iff split: if_splits)
  have mm: "m \<in> set (materials w)" "mt_id m = ia_material_id args" using get_active_Inr [OF m] by auto
  have c: "covers w (mt_id m) lines" "sum_list (map an_qty lines) = q"
    using fifo_covers [OF inv l] parse_qty_pos [OF q] mm by auto
  show ?thesis
  proof (rule apply_issue_write [OF inv mm(1) c _ _ _ _ a])
    show "0 < q" using parse_qty_pos [OF q] by simp
    show "ia_doc_type args \<in> set issue_doc_types" using t by (auto simp: validate_issue_target_def split: if_splits)
    show "if ia_doc_type args = ''request'' then ia_request_number args \<noteq> None else ia_reason args \<noteq> None"
      using t by (auto simp: validate_issue_target_def truthy_utext_def py_truthy_str_def split: if_splits option.splits)
  qed simp
qed

lemma reverse_receipt_write:
  assumes inv: "warehouse_inv w" and reason: "reason \<noteq> None"
    and res: "reverse_receipt w who mid k reason = Inr (w', i)"
  shows "wh_write w w'"
proof -
  from res obtain r m where r: "first_row (\<lambda>r. mr_id r = k) (receipts w) = Some r" "mr_material_id r = mid"
      "mr_remaining r = mr_qty r" and m: "find_material w mid = Some m"
    and a: "apply_issue w who [take_from r (mr_qty r)] m (mr_qty r) ''shortage'' None reason (Some k) = Inr (w', i)"
    by (auto simp: reverse_receipt_def split: option.splits if_splits)
  have rr: "r \<in> set (receipts w)" "mr_id r = k" using first_row_eq [OF r(1)] by simp_all
  have mm: "m \<in> set (materials w)" "mt_id m = mid" using m first_row_eq [of mt_id mid "materials w" m] by (auto simp: find_material_def)
  have d: "l = r" if "l \<in> set (receipts w)" "mr_id l = mr_id r" for l
    using that inv rr by (auto simp: warehouse_inv_parts distinct_map dest: inj_onD)
  have pos: "0 < mr_qty r" using inv rr(1) by (simp add: warehouse_inv_parts lot_shape_def)
  have "covers w (mt_id m) [take_from r (mr_qty r)]"
    unfolding covers_def
  proof
    show "\<forall>a\<in>set [take_from r (mr_qty r)]. \<exists>b\<in>set (receipts w). mr_material_id b = mt_id m
        \<and> 0 < an_qty a \<and> a = take_from b (an_qty a)"
      using rr(1) r(2) mm(2) pos by (auto simp: take_from_def)
    show "\<forall>l\<in>set (receipts w). sum_where (\<lambda>a. an_receipt_id a = mr_id l) an_qty [take_from r (mr_qty r)] \<le> mr_remaining l"
    proof
      fix l assume l: "l \<in> set (receipts w)"
      show "sum_where (\<lambda>a. an_receipt_id a = mr_id l) an_qty [take_from r (mr_qty r)] \<le> mr_remaining l"
      proof (cases "mr_id l = mr_id r")
        case True
        then have "l = r" by (rule d [OF l])
        then show ?thesis using r(3) by (simp add: take_from_def)
      qed (use lot_bounds [OF inv l] in \<open>auto simp: take_from_def\<close>)
    qed
  qed
  then show ?thesis
    by (rule apply_issue_write [OF inv mm(1) _ _ pos _ _ _ a])
       (use reason rr r mm in \<open>auto simp: take_from_def issue_doc_types_def\<close>)
qed

lemma create_receipt_Inr:
  assumes "create_receipt w who args = Inr (w', r)"
  shows "w' = w\<lparr>receipts := receipts w @ [r]\<rparr>" "lot_shape w r" "mr_remaining r = mr_qty r"
    "mr_id r \<notin> mr_id ` set (receipts w)" "mr_material_id r = ra_material_id args"
    "mr_reversal_of_issue_id r = ra_reversal_of_issue_id args" "parse_qty (ra_qty args) = Inr (mr_qty r)"
    "parse_price (ra_unit_price args) = Inr (mr_unit_price r)"
proof -
  from assms obtain q p m where d: "ra_doc_type args \<in> set receipt_doc_types"
    and q: "parse_qty (ra_qty args) = Inr q" and p: "parse_price (ra_unit_price args) = Inr p"
    and m: "get_active_material w (ra_material_id args) = Inr m"
    and r: "r = new_receipt w who m q p args" "w' = w\<lparr>receipts := receipts w @ [r]\<rparr>"
    by (auto simp: create_receipt_def res_bind_Inr_iff Let_def split: if_splits)
  have mm: "m \<in> set (materials w)" "mt_id m = ra_material_id args" using get_active_Inr [OF m] by simp_all
  show "w' = w\<lparr>receipts := receipts w @ [r]\<rparr>" by (rule r(2))
  show "lot_shape w r"
    using d parse_qty_pos [OF q] parse_price_cents [OF p] mm(1)
    by (auto simp: r(1) lot_shape_def new_receipt_def has_card_def)
  show "mr_id r \<notin> mr_id ` set (receipts w)"
    using next_id_fresh [of "map mr_id (receipts w)"] by (simp add: r(1) new_receipt_def)
  show "mr_remaining r = mr_qty r" "mr_material_id r = ra_material_id args"
    "mr_reversal_of_issue_id r = ra_reversal_of_issue_id args" "parse_qty (ra_qty args) = Inr (mr_qty r)"
    "parse_price (ra_unit_price args) = Inr (mr_unit_price r)"
    by (simp_all add: r(1) new_receipt_def q p mm)
qed

lemma create_receipt_write:
  assumes "create_receipt w who args = Inr (w', r)" "ra_reversal_of_issue_id args = None"
  shows "wh_write w w'"
proof -
  note c = create_receipt_Inr [OF assms(1)]
  have "new_lots w [r]" using c assms(2) by (simp add: new_lots_def)
  then show ?thesis unfolding c(1) by (rule add_lots)
qed

lemma parse_price_whole: "0 \<le> p \<Longrightarrow> whole (p * 100) \<Longrightarrow> parse_price (Dec p) = Inr x \<Longrightarrow> x = p"
  by (simp add: parse_price_def money_whole split: if_splits)

lemma parse_qty_Dec: "parse_qty (Dec q) = Inr x \<Longrightarrow> x = q"
  by (simp add: parse_qty_def split: if_splits)

lemma create_surplus_Inr:
  "create_surplus w who mid k reason ps = Inr (w', rs) \<Longrightarrow> \<forall>(p, q)\<in>set ps. 0 \<le> p \<and> whole (p * 100) \<Longrightarrow>
   w' = w\<lparr>receipts := receipts w @ rs\<rparr> \<and> distinct (map mr_id rs) \<and> mr_id ` set rs \<inter> mr_id ` set (receipts w) = {}
   \<and> (\<forall>r\<in>set rs. lot_shape w r \<and> mr_remaining r = mr_qty r \<and> mr_material_id r = mid
        \<and> mr_reversal_of_issue_id r = Some k)
   \<and> map (\<lambda>r. (mr_unit_price r, mr_qty r)) rs = ps"
proof (induction ps arbitrary: w w' rs)
  case (Cons pq ps)
  obtain p q where pq: "pq = (p, q)" by fastforce
  let ?args = "\<lparr>ra_material_id = mid, ra_qty = Dec q, ra_unit_price = Dec p, ra_supplier = None,
      ra_doc_number = None, ra_doc_date = None, ra_note = reason, ra_doc_type = ''surplus'',
      ra_reversal_of_issue_id = Some k\<rparr>"
  from Cons.prems(1) obtain w1 r rest where c: "create_receipt w who ?args = Inr (w1, r)"
    and s: "create_surplus w1 who mid k reason ps = Inr (w', rest)" and rs: "rs = r # rest"
    by (auto simp: pq res_bind_Inr_iff split: prod.splits)
  note r = create_receipt_Inr [OF c]
  have price: "mr_unit_price r = p" "mr_qty r = q"
    using r(7,8) Cons.prems(2) parse_price_whole parse_qty_Dec by (auto simp: pq)
  have shape: "lot_shape w1 x = lot_shape w x" for x by (simp add: r(1) lot_shape_def has_card_def)
  have ih: "w' = w1\<lparr>receipts := receipts w1 @ rest\<rparr> \<and> distinct (map mr_id rest) \<and> mr_id ` set rest \<inter> mr_id ` set (receipts w1) = {}
   \<and> (\<forall>r\<in>set rest. lot_shape w r \<and> mr_remaining r = mr_qty r \<and> mr_material_id r = mid
        \<and> mr_reversal_of_issue_id r = Some k)
   \<and> map (\<lambda>r. (mr_unit_price r, mr_qty r)) rest = ps"
    using Cons.IH [OF s] Cons.prems(2) by (simp add: shape)
  then show ?case
    using r price by (auto simp: rs pq shape)
qed simp

lemma sum_where_sort [simp]: "sum_where P f (sort_key k xs) = sum_where P f xs"
proof -
  have "sum_where P f ys = sum_mset (image_mset f (filter_mset P (mset ys)))" for ys
    by (simp add: sum_where_def flip: mset_filter mset_map sum_mset_sum_list)
  then show ?thesis by simp
qed

lemma add_price_sum:
  "sum_where (\<lambda>x. fst x = p) snd (add_price p' q d) = sum_where (\<lambda>x. fst x = p) snd d + (if p' = p then q else 0)"
  by (induction p' q d rule: add_price.induct) auto

lemma add_price_keys: "fst ` set (add_price p q d) = insert p (fst ` set d)"
  by (induction p q d rule: add_price.induct) auto

lemma by_price_sum:
  "sum_where (\<lambda>x. fst x = p) snd (by_price rows) = sum_where (\<lambda>a. al_unit_price a = p) al_qty rows"
proof -
  have "sum_where (\<lambda>x. fst x = p) snd (foldl (\<lambda>d a. add_price (al_unit_price a) (al_qty a) d) d rows)
      = sum_where (\<lambda>x. fst x = p) snd d + sum_where (\<lambda>a. al_unit_price a = p) al_qty rows" for d
    by (induction rows arbitrary: d) (simp_all add: add_price_sum)
  then show ?thesis by (simp add: by_price_def)
qed

lemma by_price_keys: "fst ` set (by_price rows) = al_unit_price ` set rows"
proof -
  have "fst ` set (foldl (\<lambda>d a. add_price (al_unit_price a) (al_qty a) d) d rows) = fst ` set d \<union> al_unit_price ` set rows" for d
    by (induction rows arbitrary: d) (auto simp: add_price_keys)
  then show ?thesis by (simp add: by_price_def)
qed

lemma reverse_issue_write:
  assumes inv: "warehouse_inv w" and res: "reverse_issue w who mid k reason = Inr (w', rs)"
  shows "wh_write w w'"
proof -
  define rows where "rows = sort_key al_id (filter (\<lambda>a. al_issue_id a = k) (allocations w))"
  from res obtain x where x: "first_row (\<lambda>x. mi_id x = k) (issues w) = Some x" "mi_material_id x = mid"
    and once: "not_reversed w k" and s: "create_surplus w who mid k reason (by_price rows) = Inr (w', rs)"
    by (auto simp: reverse_issue_def rows_def Let_def not_reversed_def list_ex_iff split: option.splits if_splits)
  have xx: "x \<in> set (issues w)" "mi_id x = k" using first_row_eq [OF x(1)] by simp_all
  have prices: "0 \<le> p \<and> whole (p * 100)" if "p \<in> fst ` set (by_price rows)" for p
  proof -
    obtain a where a: "a \<in> set (allocations w)" "al_unit_price a = p"
      using \<open>p \<in> fst ` set (by_price rows)\<close> unfolding by_price_keys by (auto simp: rows_def)
    then obtain l where "l \<in> set (receipts w)" "mr_unit_price l = p"
      using inv unfolding warehouse_inv_def lines_ok_def line_shape_def by blast
    then show ?thesis using inv unfolding warehouse_inv_def lots_ok_def lot_shape_def by blast
  qed
  have all_prices: "\<forall>(p, q)\<in>set (by_price rows). 0 \<le> p \<and> whole (p * 100)"
    using prices by force
  have c: "w' = w\<lparr>receipts := receipts w @ rs\<rparr>" "distinct (map mr_id rs)" "mr_id ` set rs \<inter> mr_id ` set (receipts w) = {}"
    "\<forall>r\<in>set rs. lot_shape w r \<and> mr_remaining r = mr_qty r \<and> mr_material_id r = mid \<and> mr_reversal_of_issue_id r = Some k"
    "map (\<lambda>r. (mr_unit_price r, mr_qty r)) rs = by_price rows"
    using create_surplus_Inr [OF s all_prices] by blast+
  have "sum_where (\<lambda>r. mr_reversal_of_issue_id r = Some k \<and> mr_unit_price r = p) mr_qty rs = issued_at w k p" for p
  proof -
    have "sum_where (\<lambda>r. mr_reversal_of_issue_id r = Some k \<and> mr_unit_price r = p) mr_qty rs
        = sum_where (\<lambda>r. mr_unit_price r = p) mr_qty rs"
      using c(4) by (intro sum_where_cong) auto
    also have "\<dots> = sum_where (\<lambda>x. fst x = p) snd (by_price rows)"
      unfolding c(5) [symmetric] by (simp add: sum_where_def filter_map comp_def)
    also have "\<dots> = issued_at w k p"
      by (simp add: by_price_sum rows_def issued_at_def) (simp add: sum_where_def conj_commute)
    finally show ?thesis .
  qed
  then have "new_lots w rs" using c once xx x(2) by (auto simp: new_lots_def)
  then show ?thesis unfolding c(1) by (rule add_lots)
qed

lemma create_material_write:
  assumes "create_material w name u category low = Inr (w', m)"
  shows "wh_write w w'"
proof -
  have "mt_id m \<notin> mt_id ` set (materials w)" "mt_name m \<notin> mt_name ` set (materials w)"
    "mt_unit m \<in> set material_units" "w' = w\<lparr>materials := materials w @ [m]\<rparr>"
    using assms next_id_fresh [of "map mt_id (materials w)"]
    by (auto simp: create_material_def Let_def res_bind_Inr_iff validate_unit_def list_ex_iff split: if_splits)
  then show ?thesis by (simp add: add_card)
qed

lemma patch_unit_Inr:
  "patch_unit w m u = Inr m1 \<Longrightarrow> mt_id m1 = mt_id m \<and> mt_name m1 = mt_name m \<and>
   (mt_unit m1 = mt_unit m \<or> mt_unit m1 \<in> set material_units \<and> (\<forall>r\<in>set (receipts w). mr_material_id r \<noteq> mt_id m))"
  by (auto simp: patch_unit_def res_bind_Inr_iff validate_unit_def list_ex_iff split: option.splits if_splits)

lemma patch_name_Inr:
  "patch_name w m name = Inr m1 \<Longrightarrow> mt_id m1 = mt_id m \<and> mt_unit m1 = mt_unit m \<and>
   (mt_name m1 = mt_name m \<or> (\<forall>x\<in>set (materials w). mt_name x = mt_name m1 \<longrightarrow> mt_id x = mt_id m))"
  by (auto simp: patch_name_def Let_def list_ex_iff split: option.splits if_splits)

lemma patch_rest_Inr:
  "patch_rest m p = Inr m1 \<Longrightarrow> mt_id m1 = mt_id m \<and> mt_unit m1 = mt_unit m \<and> mt_name m1 = mt_name m"
  by (auto simp: patch_rest_def Let_def res_bind_Inr_iff split: option.splits)

lemma update_material_write:
  assumes inv: "warehouse_inv w" and res: "update_material w i p = Inr (w', m3)"
  shows "wh_write w w'"
proof -
  from res obtain m m1 m2 where m: "find_material w i = Some m" and m1: "patch_unit w m (mp_unit p) = Inr m1"
    and m2: "patch_name w m1 (mp_name p) = Inr m2" and m3: "patch_rest m2 p = Inr m3"
    and w': "w' = w\<lparr>materials := upd_where (\<lambda>x. mt_id x = i) (\<lambda>_. m3) (materials w)\<rparr>"
    by (auto simp: update_material_def res_bind_Inr_iff split: option.splits if_splits)
  have mm: "m \<in> set (materials w)" "i = mt_id m"
    using m first_row_eq [of mt_id i "materials w" m] by (auto simp: find_material_def)
  have uniq: "mt_id x = mt_id m" if "x \<in> set (materials w)" "mt_name x = mt_name m" for x
    using that mm inv by (auto simp: warehouse_inv_parts distinct_map dest: inj_onD)
  show ?thesis
    unfolding w' mm(2)
    using patch_unit_Inr [OF m1] patch_name_Inr [OF m2] patch_rest_Inr [OF m3] uniq
    by (intro change_card mm(1)) auto
qed

subsection \<open>Runs\<close>

datatype warehouse_call =
    Create_material "utext option" string "utext option" "decimal_arg option"
  | Update_material int material_patch
  | Create_receipt receipt_args
  | Issue_material issue_args
  | Adjust adjust_args
  | New_request string
  | Delete_request string

text \<open>A call's transaction: a fault rolls everything back.  The API offers receipts of no reversal.\<close>

definition run_call :: "warehouse \<Rightarrow> actor_time \<Rightarrow> warehouse_call \<Rightarrow> material_fault + warehouse" where
  "run_call w who c =
     (case c of
        Create_material n u g low \<Rightarrow> map_sum id fst (create_material w n u g low)
      | Update_material i p \<Rightarrow> map_sum id fst (update_material w i p)
      | Create_receipt args \<Rightarrow> map_sum id fst (create_receipt w who (args\<lparr>ra_reversal_of_issue_id := None\<rparr>))
      | Issue_material args \<Rightarrow> map_sum id fst (issue_material w who args)
      | Adjust args \<Rightarrow> map_sum id fst (adjust w who args)
      | New_request n \<Rightarrow> Inr (w\<lparr>request_numbers := request_numbers w @ [n]\<rparr>)
      | Delete_request n \<Rightarrow> Inr (w\<lparr>request_numbers := filter (\<lambda>x. x \<noteq> n) (request_numbers w)\<rparr>))"

definition after_call :: "warehouse \<Rightarrow> actor_time \<Rightarrow> warehouse_call \<Rightarrow> warehouse" where
  "after_call w who c = (case run_call w who c of Inl _ \<Rightarrow> w | Inr w' \<Rightarrow> w')"

definition empty_warehouse :: warehouse where
  "empty_warehouse = \<lparr>materials = [], receipts = [], issues = [], allocations = [], request_numbers = []\<rparr>"

inductive wh_step :: "warehouse \<Rightarrow> warehouse \<Rightarrow> bool" where
  wh_call: "wh_step w (after_call w who c)"

lemma adjust_write:
  assumes inv: "warehouse_inv w" and res: "adjust w who args = Inr (w', out)"
  shows "wh_write w w'"
proof -
  have reason: "aj_reason args \<noteq> None"
  proof
    assume "aj_reason args = None"
    then have "blank (aj_reason args)" by (simp add: blank_def)
    then show False using res unfolding adjust_def Let_def by (simp only: if_True split: if_splits) simp_all
  qed
  consider i rs where "reverse_issue w who (aj_material_id args) i (aj_reason args) = Inr (w', rs)"
    | i x where "reverse_receipt w who (aj_material_id args) i (aj_reason args) = Inr (w', x)"
    | ra r where "create_receipt w who ra = Inr (w', r)" "ra_reversal_of_issue_id ra = None"
    | ia x where "issue_material w who ia = Inr (w', x)"
    using res unfolding adjust_def Let_def
    by (auto simp: map_sum_def id_def split: if_splits option.splits sum.splits)
  then show ?thesis
  proof cases
    case 1
    then show ?thesis by (rule reverse_issue_write [OF inv])
  next
    case 2
    then show ?thesis by (rule reverse_receipt_write [OF inv reason])
  next
    case 3
    then show ?thesis by (rule create_receipt_write)
  next
    case 4
    then show ?thesis by (rule issue_material_write [OF inv])
  qed
qed

text \<open>Every call is one of the writes, a change of the requests, or nothing.\<close>

lemma run_call_write:
  assumes inv: "warehouse_inv w" and res: "run_call w who c = Inr w'"
  shows "wh_write w w' \<or> (\<exists>ns. w' = w\<lparr>request_numbers := ns\<rparr>)"
proof (cases c)
  case (Create_receipt args)
  then show ?thesis using res create_receipt_write
    by (fastforce simp: run_call_def map_sum_def split: sum.splits)
qed (use res inv create_material_write update_material_write issue_material_write adjust_write in
      \<open>fastforce simp: run_call_def map_sum_def split: sum.splits\<close>)+

end
