(* ===== verification/WarehouseTheorems.thy ===== *)
theory WarehouseTheorems
  imports WarehouseRuns "HOL-Library.Sublist"
begin

section \<open>What the warehouse guarantees\<close>

text \<open>
  The reachable warehouses, the books' balance in each of them, the append-only journal along
  every run, reversals, the first-in-first-out order, and the rounding of costs.
\<close>

definition wh_reach :: "warehouse \<Rightarrow> bool" where
  "wh_reach = reach ((=) empty_warehouse) wh_step"

lemma requests_inv: "warehouse_inv (w\<lparr>request_numbers := ns\<rparr>) = warehouse_inv w"
  by (simp add: warehouse_inv_parts reversals_ok_def lot_shape_def issue_shape_def line_shape_def
      has_card_def taken_from_def not_reversed_def returned_at_def issued_at_def)

lemma wh_step_inv: "warehouse_inv w \<Longrightarrow> wh_step w w' \<Longrightarrow> warehouse_inv w'"
proof (erule wh_step.cases)
  fix v who c
  assume inv: "warehouse_inv w" and v: "w = v" "w' = after_call v who c"
  show "warehouse_inv w'"
  proof (cases "run_call v who c")
    case (Inr x)
    have "warehouse_inv (w\<lparr>request_numbers := ns\<rparr>)" for ns
      using inv by (simp only: requests_inv)
    moreover have "wh_write w x \<or> (\<exists>ns. x = w\<lparr>request_numbers := ns\<rparr>)"
      using run_call_write inv v Inr by blast
    ultimately show ?thesis using inv v Inr wh_write_inv by (auto simp: after_call_def)
  qed (use inv v in \<open>simp add: after_call_def\<close>)
qed

subsection \<open>What stays along a run\<close>

definition lot_card :: "receipt \<Rightarrow> receipt" where
  "lot_card r = r\<lparr>mr_remaining := 0\<rparr>"

definition wh_grows :: "warehouse \<Rightarrow> warehouse \<Rightarrow> bool" where
  "wh_grows w w' \<longleftrightarrow>
     prefix (issues w) (issues w') \<and> prefix (allocations w) (allocations w')
     \<and> prefix (map lot_card (receipts w)) (map lot_card (receipts w'))
     \<and> (\<forall>r\<in>set (receipts w). \<exists>r'\<in>set (receipts w'). lot_card r' = lot_card r \<and> mr_remaining r' \<le> mr_remaining r)"

lemma wh_grows_refl: "wh_grows w w"
  by (auto simp: wh_grows_def)

lemma wh_grows_trans:
  assumes "wh_grows a b" "wh_grows b c"
  shows "wh_grows a c"
proof -
  have "\<exists>r'\<in>set (receipts c). lot_card r' = lot_card r \<and> mr_remaining r' \<le> mr_remaining r"
    if "r \<in> set (receipts a)" for r
  proof -
    obtain s where s: "s \<in> set (receipts b)" "lot_card s = lot_card r" "mr_remaining s \<le> mr_remaining r"
      using assms(1) \<open>r \<in> set (receipts a)\<close> by (auto simp: wh_grows_def)
    obtain t where "t \<in> set (receipts c)" "lot_card t = lot_card s" "mr_remaining t \<le> mr_remaining s"
      using assms(2) s(1) by (auto simp: wh_grows_def)
    then show ?thesis using s by (intro bexI [of _ t]) auto
  qed
  then show ?thesis using assms by (auto simp: wh_grows_def prefix_def)
qed

lemma wh_write_grows:
  assumes inv: "warehouse_inv w" and "wh_write w w'"
  shows "wh_grows w w'"
  using assms(2)
proof cases
  case (post_issue i rows)
  have "0 \<le> sum_where (\<lambda>a. al_receipt_id a = k) al_qty rows" for k
    using post_issue(2) by (intro sum_where_nonneg) (auto simp: new_issue_def line_shape_def)
  moreover have "lot_card (draw rows x) = lot_card x"
    "mr_remaining (draw rows x) = mr_remaining x - sum_where (\<lambda>a. al_receipt_id a = mr_id x) al_qty rows" for x
    by (simp_all add: lot_card_def draw_def)
  ultimately show ?thesis unfolding post_issue(1)
    by (auto simp: wh_grows_def comp_def)
qed (auto simp: wh_grows_def)

lemma wh_step_grows:
  assumes "warehouse_inv w" "wh_step w w'"
  shows "wh_grows w w'"
  using assms(2)
proof cases
  case (wh_call who c)
  show ?thesis
  proof (cases "run_call w who c")
    case (Inr x)
    then have "wh_write w x \<or> (\<exists>ns. x = w\<lparr>request_numbers := ns\<rparr>)" by (rule run_call_write [OF assms(1)])
    then have "wh_grows w x" using wh_write_grows [OF assms(1)] by (auto simp: wh_grows_def)
    then show ?thesis using wh_call Inr by (simp add: after_call_def)
  qed (simp add: wh_call after_call_def wh_grows_refl)
qed

interpretation stocked: evolving "(=) empty_warehouse" wh_step warehouse_inv wh_grows
proof unfold_locales
  show "warehouse_inv w" if "empty_warehouse = w" for w
    using that by (auto simp: empty_warehouse_def warehouse_inv_parts reversals_ok_def)
  show "warehouse_inv w'" if "warehouse_inv w" "wh_step w w'" for w w'
    using that by (rule wh_step_inv)
  show "wh_grows w w" for w by (rule wh_grows_refl)
  show "wh_grows a c" if "wh_grows a b" "wh_grows b c" for a b c using that by (rule wh_grows_trans)
  show "wh_grows w w'" if "warehouse_inv w" "wh_step w w'" for w w' using that by (rule wh_step_grows)
qed

lemma wh_reach_inv: "wh_reach w \<Longrightarrow> warehouse_inv w"
  unfolding wh_reach_def by (rule stocked.inv_reach)

lemma wh_run_grows: "wh_step\<^sup>*\<^sup>* w w' \<Longrightarrow> warehouse_inv w \<Longrightarrow> wh_grows w w'"
  using stocked.later_run by blast

subsection \<open>Stock\<close>

definition received :: "warehouse \<Rightarrow> int \<Rightarrow> rat" where
  "received w mid = sum_where (\<lambda>r. mr_material_id r = mid) mr_qty (receipts w)"

definition issued :: "warehouse \<Rightarrow> int \<Rightarrow> rat" where
  "issued w mid = sum_where (\<lambda>i. mi_material_id i = mid) mi_qty (issues w)"

lemma sum_where_by_rows:
  assumes "distinct (map k rows)" "\<And>a. a \<in> set xs \<Longrightarrow> P a \<Longrightarrow> \<exists>r\<in>set rows. Q r \<and> k r = key a"
    and "\<And>a r. a \<in> set xs \<Longrightarrow> r \<in> set rows \<Longrightarrow> Q r \<Longrightarrow> key a = k r \<Longrightarrow> P a"
  shows "sum_where P f xs = sum_where Q (\<lambda>r. sum_where (\<lambda>a. key a = k r) f xs) rows"
proof -
  have d: "distinct (map k (filter Q rows))" by (rule distinct_map_filter [OF assms(1)])
  have "sum_where P f xs = sum_list (map (\<lambda>i. sum_where (\<lambda>a. P a \<and> key a = i) f xs) (map k (filter Q rows)))"
    by (rule sum_where_keys [OF d]) (use assms(2) in force)
  also have "\<dots> = sum_list (map (\<lambda>r. sum_where (\<lambda>a. key a = k r) f xs) (filter Q rows))"
    unfolding map_map
  proof (rule arg_cong [of _ _ sum_list], rule map_cong, rule refl)
    fix r assume "r \<in> set (filter Q rows)"
    then show "((\<lambda>i. sum_where (\<lambda>a. P a \<and> key a = i) f xs) \<circ> k) r = sum_where (\<lambda>a. key a = k r) f xs"
      using assms(3) by (auto intro!: sum_where_cong)
  qed
  finally show ?thesis by (simp add: sum_where_def)
qed

lemma sum_where_diff: "sum_where P (\<lambda>r. f r - g r) rows = sum_where P f rows - sum_where P g rows"
  by (induction rows) auto

lemma stock_balance:
  assumes inv: "warehouse_inv w"
  shows "material_stock w mid = received w mid - issued w mid"
proof -
  define own where "own = (\<lambda>a :: issue_allocation. \<exists>i\<in>set (issues w). mi_id i = al_issue_id a \<and> mi_material_id i = mid)"
  have line: "\<exists>i\<in>set (issues w). mi_id i = al_issue_id a \<and> (\<exists>l\<in>set (receipts w). mr_id l = al_receipt_id a \<and> mr_material_id l = mi_material_id i)"
    if "a \<in> set (allocations w)" for a
    using inv that unfolding warehouse_inv_def lines_ok_def line_shape_def by blast
  have di: "i = j" if "i \<in> set (issues w)" "j \<in> set (issues w)" "mi_id i = mi_id j" for i j
    using inv that by (auto simp: warehouse_inv_def keys_ok_def distinct_map dest: inj_onD)
  have dr: "i = j" if "i \<in> set (receipts w)" "j \<in> set (receipts w)" "mr_id i = mr_id j" for i j
    using inv that by (auto simp: warehouse_inv_def keys_ok_def distinct_map dest: inj_onD)
  have by_issue: "sum_where own al_qty (allocations w)
      = sum_where (\<lambda>i. mi_material_id i = mid) (\<lambda>i. sum_where (\<lambda>a. al_issue_id a = mi_id i) al_qty (allocations w)) (issues w)"
    by (rule sum_where_by_rows) (use inv in \<open>auto simp: warehouse_inv_def keys_ok_def own_def\<close>)
  have by_lot: "sum_where own al_qty (allocations w)
      = sum_where (\<lambda>r. mr_material_id r = mid) (\<lambda>r. sum_where (\<lambda>a. al_receipt_id a = mr_id r) al_qty (allocations w)) (receipts w)"
  proof (rule sum_where_by_rows)
    show "distinct (map mr_id (receipts w))" using inv by (simp add: warehouse_inv_def keys_ok_def)
    show "\<exists>r\<in>set (receipts w). mr_material_id r = mid \<and> mr_id r = al_receipt_id a"
      if "a \<in> set (allocations w)" "own a" for a
      using line [OF that(1)] that(2) di by (auto simp: own_def) metis
    show "own a" if "a \<in> set (allocations w)" "r \<in> set (receipts w)" "mr_material_id r = mid"
      "al_receipt_id a = mr_id r" for a r
      using line [OF that(1)] that(2-4) dr by (auto simp: own_def) metis
  qed
  have lots: "material_stock w mid = sum_where (\<lambda>r. mr_material_id r = mid) (\<lambda>r. mr_qty r - taken_from w (mr_id r)) (receipts w)"
    unfolding material_stock_def sum_where_def
    by (intro arg_cong [of _ _ sum_list] map_cong) (use lot_bounds [OF inv] in auto)
  have iss: "issued w mid = sum_where (\<lambda>i. mi_material_id i = mid) (\<lambda>i. sum_where (\<lambda>a. al_issue_id a = mi_id i) al_qty (allocations w)) (issues w)"
    unfolding issued_def by (rule sum_where_cong) (use inv in \<open>auto simp: warehouse_inv_def issues_ok_def\<close>)
  show ?thesis
    unfolding lots sum_where_diff iss received_def by_issue [symmetric] by_lot by (simp add: taken_from_def)
qed

subsection \<open>A small warehouse\<close>

definition ex_who :: actor_time where "ex_who = \<lparr>at_user = 1, at_now = 5\<rparr>"

definition ex_buy :: "rat \<Rightarrow> rat \<Rightarrow> warehouse_call" where
  "ex_buy q p = Create_receipt \<lparr>ra_material_id = 1, ra_qty = Dec q, ra_unit_price = Dec p, ra_supplier = None,
     ra_doc_number = None, ra_doc_date = None, ra_note = None, ra_doc_type = ''purchase'',
     ra_reversal_of_issue_id = None\<rparr>"

definition ex_issue :: "rat \<Rightarrow> issue_args" where
  "ex_issue q = \<lparr>ia_material_id = 1, ia_qty = Dec q, ia_doc_type = ''household'', ia_request_number = None,
     ia_reason = Some [98]\<rparr>"

definition ex_storno :: warehouse_call where
  "ex_storno = Adjust \<lparr>aj_material_id = 1, aj_direction = ''shortage'', aj_reason = Some [98], aj_qty = None,
     aj_unit_price = None, aj_reversal_of_issue_id = None, aj_reversal_of_receipt_id = Some 2\<rparr>"

definition ex_card :: material where
  "ex_card = \<lparr>mt_id = 1, mt_name = [97], mt_unit = ''pcs'', mt_category = None, mt_min_stock = None,
     mt_is_active = True\<rparr>"

definition ex_lot :: "int \<Rightarrow> rat \<Rightarrow> rat \<Rightarrow> rat \<Rightarrow> rat \<Rightarrow> receipt" where
  "ex_lot i q left p cost = \<lparr>mr_id = i, mr_material_id = 1, mr_doc_type = ''purchase'', mr_qty = q,
     mr_remaining = left, mr_unit_price = p, mr_total_amount = cost, mr_supplier = None, mr_doc_number = None,
     mr_doc_date = None, mr_note = None, mr_reversal_of_issue_id = None, mr_material_name = [97],
     mr_unit = ''pcs'', mr_created_by = 1, mr_created_at = 5\<rparr>"

definition ex_out :: "string \<Rightarrow> rat \<Rightarrow> rat \<Rightarrow> int option \<Rightarrow> issue" where
  "ex_out d q cost rev_of = \<lparr>mi_id = 1, mi_material_id = 1, mi_doc_type = d, mi_qty = q, mi_total_cost = cost,
     mi_request_number = None, mi_reason = Some [98], mi_reversal_of_receipt_id = rev_of, mi_material_name = [97],
     mi_unit = ''pcs'', mi_created_by = 1, mi_created_at = 5\<rparr>"

definition ex_row :: "int \<Rightarrow> int \<Rightarrow> rat \<Rightarrow> rat \<Rightarrow> rat \<Rightarrow> issue_allocation" where
  "ex_row i l q p amount = \<lparr>al_id = i, al_issue_id = 1, al_receipt_id = l, al_qty = q, al_unit_price = p,
     al_amount = amount\<rparr>"

text \<open>Two lots; then 12.5 of the 15 pieces go out; or the second lot is reversed instead.\<close>

definition ex_one :: warehouse where
  "ex_one = \<lparr>materials = [ex_card], receipts = [ex_lot 1 10 10 (11 / 10) 11], issues = [], allocations = [],
     request_numbers = []\<rparr>"

definition ex_two :: warehouse where
  "ex_two = ex_one\<lparr>receipts := [ex_lot 1 10 10 (11 / 10) 11, ex_lot 2 5 5 2 10]\<rparr>"

definition ex_sold :: warehouse where
  "ex_sold = ex_one\<lparr>receipts := [ex_lot 1 10 0 (11 / 10) 11, ex_lot 2 5 (5 / 2) 2 10],
     issues := [ex_out ''household'' (25 / 2) 16 None],
     allocations := [ex_row 1 1 10 (11 / 10) 11, ex_row 2 2 (5 / 2) 2 5]\<rparr>"

definition ex_undone :: warehouse where
  "ex_undone = ex_one\<lparr>receipts := [ex_lot 1 10 10 (11 / 10) 11, ex_lot 2 5 0 2 10],
     issues := [ex_out ''shortage'' 5 10 (Some 2)], allocations := [ex_row 1 2 5 2 10]\<rparr>"

lemma ex_card_made:
  "after_call empty_warehouse ex_who (Create_material (Some [97]) ''pcs'' None None) = ex_one\<lparr>receipts := []\<rparr>"
  by code_simp

lemma ex_buys:
  "after_call (ex_one\<lparr>receipts := []\<rparr>) ex_who (ex_buy 10 (11 / 10)) = ex_one"
  "after_call ex_one ex_who (ex_buy 5 2) = ex_two"
  by code_simp+

lemma ex_calls:
  "after_call ex_two ex_who (Issue_material (ex_issue (25 / 2))) = ex_sold"
  "after_call ex_two ex_who ex_storno = ex_undone"
  by code_simp+

lemma wh_reach_call: "wh_reach w \<Longrightarrow> wh_reach (after_call w who c)"
  unfolding wh_reach_def by (erule reach_step) (rule wh_call)

lemma ex_two_reach: "wh_reach ex_two"
proof -
  have "wh_reach empty_warehouse" unfolding wh_reach_def by (rule reach_init) simp
  from wh_reach_call [OF this, of ex_who "Create_material (Some [97]) ''pcs'' None None"]
  have "wh_reach (ex_one\<lparr>receipts := []\<rparr>)" unfolding ex_card_made .
  from wh_reach_call [OF this, of ex_who "ex_buy 10 (11 / 10)"] have "wh_reach ex_one" unfolding ex_buys .
  from wh_reach_call [OF this, of ex_who "ex_buy 5 2"] show ?thesis unfolding ex_buys .
qed

lemma ex_sold_reach: "wh_reach ex_sold"
  using wh_reach_call [OF ex_two_reach, of ex_who "Issue_material (ex_issue (25 / 2))"] unfolding ex_calls .

lemma ex_undone_reach: "wh_reach ex_undone"
  using wh_reach_call [OF ex_two_reach, of ex_who ex_storno] unfolding ex_calls .

subsection \<open>Properties\<close>

text \<open>In every reachable warehouse what is left of a lot is between zero and what came in, and is
  exactly what came in less the allocation lines on the lot.\<close>

theorem lots_add_up:
  assumes "wh_reach w" "r \<in> set (receipts w)"
  shows "0 \<le> mr_remaining r \<and> mr_remaining r \<le> mr_qty r \<and> mr_remaining r = mr_qty r - taken_from w (mr_id r)"
proof -
  note inv = wh_reach_inv [OF assms(1)]
  have "0 \<le> taken_from w (mr_id r)"
    unfolding taken_from_def by (rule sum_where_nonneg)
      (use inv in \<open>auto simp: warehouse_inv_def lines_ok_def line_shape_def intro: less_imp_le\<close>)
  then show ?thesis using lot_bounds [OF inv assms(2)] by simp
qed

theorem lots_add_up_witness: "mr_remaining (ex_lot 1 10 0 (11 / 10) 11) = 10 - taken_from ex_sold 1"
  using lots_add_up [OF ex_sold_reach, of "ex_lot 1 10 0 (11 / 10) 11"]
  by (simp add: ex_sold_def ex_lot_def)

text \<open>C17: the stock of a material, the sum over its lots, is what was received less what was issued over
  the whole journal, reversals included, and never negative.\<close>

theorem stock_is_received_less_issued:
  assumes "wh_reach w"
  shows "material_stock w mid = received w mid - issued w mid \<and> 0 \<le> material_stock w mid"
proof -
  have "0 \<le> material_stock w mid"
    unfolding material_stock_def
    by (rule sum_list_nonneg) (use lot_nonneg [OF wh_reach_inv [OF assms]] in auto)
  then show ?thesis using stock_balance [OF wh_reach_inv [OF assms]] by simp
qed

theorem stock_is_received_less_issued_witness: "material_stock ex_sold 1 = received ex_sold 1 - issued ex_sold 1"
  using stock_is_received_less_issued [OF ex_sold_reach] by simp

text \<open>C34: the loop over the lots computes the overlap of the demand with each lot on the number line: from
  the lots in order of creation, each gives what it has as far as the lots before it do not cover the
  demand; and the issue is refused, with the stock, exactly when all lots together do not cover it.\<close>

theorem fifo_is_interval_overlap:
  "allocate_fifo (open_lots w mid) q =
     (if q \<le> 0 \<or> q \<le> sum_list (map mr_remaining (open_lots w mid))
      then Inr (fifo_reference (open_lots w mid) q)
      else Inl (Insufficient_stock (sum_list (map mr_remaining (open_lots w mid)))))"
  by (rule allocate_fifo_reference) (simp add: set_open_lots)

lemma sum_where_positive:
  "(\<And>r. r \<in> set rows \<Longrightarrow> 0 \<le> f r) \<Longrightarrow> sum_where (\<lambda>r. P r \<and> 0 < f r) f rows = sum_where P f rows"
proof (induction rows)
  case (Cons a rows)
  then have "0 \<le> f a" "sum_where (\<lambda>r. P r \<and> 0 < f r) f rows = sum_where P f rows" by simp_all
  then show ?case by auto
qed simp

lemma stock_of_open_lots:
  assumes "warehouse_inv w"
  shows "sum_list (map mr_remaining (open_lots w mid)) = material_stock w mid"
proof -
  have "sum_list (map mr_remaining (open_lots w mid))
      = sum_where (\<lambda>_. True) mr_remaining (open_lots w mid)" by (simp add: sum_where_def)
  also have "\<dots> = sum_where (\<lambda>r. mr_material_id r = mid \<and> 0 < mr_remaining r) mr_remaining (receipts w)"
    unfolding open_lots_def sum_where_sort by (simp add: sum_where_def)
  also have "\<dots> = sum_where (\<lambda>r. mr_material_id r = mid) mr_remaining (receipts w)"
    by (rule sum_where_positive) (rule lot_nonneg [OF assms])
  finally show ?thesis by (simp add: material_stock_def sum_where_def)
qed

text \<open>A well-formed issue of an active material is refused for want of stock exactly when it asks for
  more than the stock, and the refusal names the stock.\<close>

theorem shortage_refused_exactly:
  assumes "wh_reach w" "get_active_material w mid = Inr m" "parse_qty v = Inr q" "reason \<noteq> []"
  shows "issue_material w who \<lparr>ia_material_id = mid, ia_qty = v, ia_doc_type = ''household'',
           ia_request_number = None, ia_reason = Some reason\<rparr> = Inl (Insufficient_stock s)
         \<longleftrightarrow> material_stock w mid < q \<and> s = material_stock w mid"
proof -
  have lots: "\<forall>b\<in>set (open_lots w mid). 0 \<le> mr_remaining b" by (simp add: set_open_lots)
  have q: "0 < q" using parse_qty_pos [OF assms(3)] by simp
  have a: "allocate_fifo (open_lots w mid) q =
      (if q \<le> material_stock w mid then Inr (fifo_reference (open_lots w mid) q)
       else Inl (Insufficient_stock (material_stock w mid)))"
    using q by (simp add: allocate_fifo_reference [OF lots] stock_of_open_lots [OF wh_reach_inv [OF assms(1)]])
  have no: "apply_issue w who lines m q d n rs rv \<noteq> Inl (Insufficient_stock s)" for lines d n rs rv
    by (simp add: apply_issue_def Let_def)
  show ?thesis
    using assms(2-4) no a by (auto simp: issue_material_def validate_issue_target_def issue_doc_types_def truthy_utext_def)
qed

theorem shortage_refused_exactly_witness:
  "issue_material ex_sold ex_who (ex_issue 3) = Inl (Insufficient_stock (5 / 2))"
proof -
  have "get_active_material ex_sold 1 = Inr ex_card" "parse_qty (Dec 3) = Inr 3" by code_simp+
  moreover have "material_stock ex_sold 1 = 5 / 2" by code_simp
  ultimately show ?thesis
    using shortage_refused_exactly [OF ex_sold_reach, of 1 ex_card "Dec 3" 3 "[98]" ex_who "5 / 2"]
    by (simp add: ex_issue_def)
qed

text \<open>The journal is append only: along every run issues and allocation lines stay and are only added,
  and of a lot nothing changes but what is left of it, which only falls.\<close>

theorem warehouse_append_only:
  assumes "wh_reach w" "wh_step\<^sup>*\<^sup>* w w'"
  shows "prefix (issues w) (issues w') \<and> prefix (allocations w) (allocations w')
     \<and> prefix (map lot_card (receipts w)) (map lot_card (receipts w'))
     \<and> (r \<in> set (receipts w) \<longrightarrow> (\<exists>r'\<in>set (receipts w'). lot_card r' = lot_card r \<and> mr_remaining r' \<le> mr_remaining r))"
  using wh_run_grows [OF assms(2) wh_reach_inv [OF assms(1)]] by (auto simp: wh_grows_def)

theorem warehouse_append_only_witness: "prefix (allocations ex_two) (allocations ex_sold)"
proof -
  have "wh_step ex_two (after_call ex_two ex_who (Issue_material (ex_issue (25 / 2))))" by (rule wh_call)
  then have "wh_step\<^sup>*\<^sup>* ex_two ex_sold" unfolding ex_calls by simp
  from warehouse_append_only [OF ex_two_reach this] show ?thesis by simp
qed

text \<open>The \<open>CHECK\<close> and \<open>UNIQUE\<close> constraints of the tables, which the operations do not look at, hold in
  every reachable warehouse: the names of cards are distinct, units and document types are the listed
  ones, quantities are positive, prices not negative, an issue has its target, and the units written
  into the journal are those of the cards.\<close>

theorem warehouse_constraints_hold:
  assumes "wh_reach w"
  shows "distinct (map mt_name (materials w)) \<and> list_all (\<lambda>m. mt_unit m \<in> set material_units) (materials w)
    \<and> list_all (\<lambda>r. 0 < mr_qty r \<and> 0 \<le> mr_unit_price r \<and> mr_doc_type r \<in> set receipt_doc_types
         \<and> has_card w (mr_material_id r) (mr_unit r)) (receipts w)
    \<and> list_all (\<lambda>i. 0 < mi_qty i \<and> mi_doc_type i \<in> set issue_doc_types
         \<and> (if mi_doc_type i = ''request'' then mi_request_number i \<noteq> None else mi_reason i \<noteq> None)
         \<and> has_card w (mi_material_id i) (mi_unit i)) (issues w)
    \<and> list_all (\<lambda>a. 0 < al_qty a) (allocations w)"
proof (intro conjI)
  note inv = wh_reach_inv [OF assms]
  show "distinct (map mt_name (materials w))" "list_all (\<lambda>m. mt_unit m \<in> set material_units) (materials w)"
    using inv by (simp_all add: warehouse_inv_def keys_ok_def list_all_iff)
  show "list_all (\<lambda>r. 0 < mr_qty r \<and> 0 \<le> mr_unit_price r \<and> mr_doc_type r \<in> set receipt_doc_types
         \<and> has_card w (mr_material_id r) (mr_unit r)) (receipts w)"
    using inv by (simp add: warehouse_inv_def lots_ok_def lot_shape_def list_all_iff)
  show "list_all (\<lambda>i. 0 < mi_qty i \<and> mi_doc_type i \<in> set issue_doc_types
         \<and> (if mi_doc_type i = ''request'' then mi_request_number i \<noteq> None else mi_reason i \<noteq> None)
         \<and> has_card w (mi_material_id i) (mi_unit i)) (issues w)"
    using inv unfolding warehouse_inv_def issues_ok_def issue_shape_def list_all_iff by blast
  show "list_all (\<lambda>a. 0 < al_qty a) (allocations w)"
    using inv by (auto simp: warehouse_inv_def lines_ok_def line_shape_def list_all_iff)
qed

theorem warehouse_constraints_hold_witness: "list_all (\<lambda>a. 0 < al_qty a) (allocations ex_sold)"
  using warehouse_constraints_hold [OF ex_sold_reach] by simp

lemma run_keeps_reversed:
  assumes "warehouse_inv w" "wh_step\<^sup>*\<^sup>* w w'" "\<not> not_reversed w k"
  shows "\<not> not_reversed w' k"
proof -
  obtain r where r: "r \<in> set (receipts w)" "mr_reversal_of_issue_id r = Some k"
    using assms(3) by (auto simp: not_reversed_def)
  then obtain r' where "r' \<in> set (receipts w')" "lot_card r' = lot_card r"
    using wh_run_grows [OF assms(2,1)] by (auto simp: wh_grows_def)
  moreover from this have "mr_reversal_of_issue_id (lot_card r') = mr_reversal_of_issue_id (lot_card r)" by simp
  then have "mr_reversal_of_issue_id r' = Some k" by (simp add: lot_card_def r(2))
  ultimately show ?thesis by (auto simp: not_reversed_def)
qed

lemma reverse_issue_made:
  assumes "warehouse_inv w" "reverse_issue w who mid k reason = Inr (w', rs)"
  shows "\<not> not_reversed w' k \<and> (\<exists>i\<in>set (issues w'). mi_id i = k)"
proof -
  have inv: "warehouse_inv w'" by (rule wh_write_inv [OF assms(1) reverse_issue_write [OF assms]])
  define rows where "rows = sort_key al_id (filter (\<lambda>a. al_issue_id a = k) (allocations w))"
  from assms(2) obtain x where x: "first_row (\<lambda>x. mi_id x = k) (issues w) = Some x" "rows \<noteq> []"
    and s: "create_surplus w who mid k reason (by_price rows) = Inr (w', rs)"
    by (auto simp: reverse_issue_def rows_def Let_def split: option.splits if_splits)
  obtain a as where "rows = a # as" using x(2) by (cases rows) auto
  then have "al_unit_price a \<in> fst ` set (by_price rows)" unfolding by_price_keys by simp
  then obtain pq ps where "by_price rows = pq # ps" by (cases "by_price rows") auto
  then obtain w1 r rest where c: "create_receipt w who
        \<lparr>ra_material_id = mid, ra_qty = Dec (snd pq), ra_unit_price = Dec (fst pq), ra_supplier = None,
         ra_doc_number = None, ra_doc_date = None, ra_note = reason, ra_doc_type = ''surplus'',
         ra_reversal_of_issue_id = Some k\<rparr> = Inr (w1, r)"
      and rest: "create_surplus w1 who mid k reason ps = Inr (w', rest)"
    using s by (cases pq) (auto simp: res_bind_Inr_iff split: prod.splits)
  have grow: "create_surplus v who mid k reason qs = Inr (v', xs) \<Longrightarrow> set (receipts v) \<subseteq> set (receipts v') \<and> issues v' = issues v"
    for v v' qs xs
  proof (induction qs arbitrary: v xs)
    case (Cons q qs)
    then show ?case
      by (cases q) (fastforce simp: res_bind_Inr_iff dest: create_receipt_Inr(1) split: prod.splits)
  qed simp
  have "r \<in> set (receipts w1)" "mr_reversal_of_issue_id r = Some k"
    using create_receipt_Inr(1,6) [OF c] by auto
  then have "\<not> not_reversed w' k" using grow [OF rest] by (auto simp: not_reversed_def)
  moreover have "x \<in> set (issues w')" "mi_id x = k" using grow [OF s] first_row_eq [OF x(1)] by auto
  ultimately show ?thesis by blast
qed

text \<open>C18: an issue is reversed at most once, for ever: after a reversal went through every later attempt, by
  anyone, for any material and reason, is a conflict; the lots it made return at each price exactly what
  the issue had taken at that price; and the issue counts as reversed from then on.\<close>

theorem issue_reversed_once:
  assumes "wh_reach w" "reverse_issue w who mid k reason = Inr (w1, rs)" "wh_step\<^sup>*\<^sup>* w1 w'"
  shows "reverse_issue w' who' mid' k reason' = Inl Conflict
     \<and> returned_at w' k p = issued_at w' k p
     \<and> (i \<in> set (issues w') \<longrightarrow> mi_id i = k \<longrightarrow> is_reversed w' i)"
proof -
  note inv = wh_reach_inv [OF assms(1)]
  have inv1: "warehouse_inv w1" by (rule wh_write_inv [OF inv reverse_issue_write [OF inv assms(2)]])
  have inv': "warehouse_inv w'" by (rule stocked.inv_closed [OF assms(3) inv1])
  have m: "\<not> not_reversed w1 k" "\<exists>i\<in>set (issues w1). mi_id i = k"
    using reverse_issue_made [OF inv assms(2)] by blast+
  have nr: "\<not> not_reversed w' k" by (rule run_keeps_reversed [OF inv1 assms(3) m(1)])
  have "set (issues w1) \<subseteq> set (issues w')"
    using wh_run_grows [OF assms(3) inv1] by (auto simp: wh_grows_def prefix_def)
  then obtain x where x: "x \<in> set (issues w')" "mi_id x = k" using m(2) by blast
  have "returned_at w' k p = issued_at w' k p"
    using inv' x nr by (auto simp: warehouse_inv_def reversals_ok_def)
  moreover have "\<exists>y. first_row (\<lambda>x. mi_id x = k) (issues w') = Some y"
    using x first_row_None [of "\<lambda>x. mi_id x = k" "issues w'"] by (cases "first_row (\<lambda>x. mi_id x = k) (issues w')") auto
  ultimately show ?thesis
    using nr by (auto simp: reverse_issue_def not_reversed_def is_reversed_def list_ex_iff)
qed

theorem issue_reversed_once_witness:
  "case reverse_issue ex_sold ex_who 1 1 (Some [98]) of
     Inl _ \<Rightarrow> False | Inr (w1, rs) \<Rightarrow> reverse_issue w1 ex_who 1 1 (Some [98]) = Inl Conflict"
proof -
  have "\<not> isl (reverse_issue ex_sold ex_who 1 1 (Some [98]))" by code_simp
  then obtain w1 rs where e: "reverse_issue ex_sold ex_who 1 1 (Some [98]) = Inr (w1, rs)"
    by (cases "reverse_issue ex_sold ex_who 1 1 (Some [98])") auto
  show ?thesis using issue_reversed_once [OF ex_sold_reach e rtranclp.rtrancl_refl] by (simp add: e)
qed

text \<open>When a receipt has been reversed its lot is empty for ever and no other issue ever took from it.\<close>

theorem reversed_receipt_is_spent:
  assumes "wh_reach w" "i \<in> set (issues w)" "mi_reversal_of_receipt_id i = Some k"
  shows "\<exists>l\<in>set (receipts w). mr_id l = k \<and> mr_remaining l = 0
     \<and> list_all (\<lambda>a. al_receipt_id a = k \<longrightarrow> al_issue_id a = mi_id i) (allocations w)"
proof -
  note inv = wh_reach_inv [OF assms(1)]
  let ?own = "\<lambda>a. al_issue_id a = mi_id i \<and> al_receipt_id a = k"
  let ?other = "\<lambda>a. al_issue_id a \<noteq> mi_id i \<and> al_receipt_id a = k"
  obtain l where l: "l \<in> set (receipts w)" "mr_id l = k" "sum_where ?own al_qty (allocations w) = mr_qty l"
    using inv assms(2,3) unfolding warehouse_inv_def reversals_ok_def by blast
  have pos: "0 < al_qty a" if "a \<in> set (allocations w)" for a
    using inv that by (auto simp: warehouse_inv_def lines_ok_def line_shape_def)
  have split: "sum_where (\<lambda>a. al_receipt_id a = k) al_qty rows = sum_where ?own al_qty rows + sum_where ?other al_qty rows" for rows
    by (induction rows) auto
  have other: "0 \<le> sum_where ?other al_qty (allocations w)"
    by (rule sum_where_nonneg) (use pos in \<open>auto intro: less_imp_le\<close>)
  have "mr_remaining l = mr_qty l - taken_from w k" "0 \<le> mr_remaining l"
    using lot_bounds [OF inv l(1)] l(2) by auto
  then have z: "sum_where ?other al_qty (allocations w) = 0" "mr_remaining l = 0"
    using split [of "allocations w"] l(3) other by (simp_all add: taken_from_def)
  have "al_issue_id a = mi_id i" if "a \<in> set (allocations w)" "al_receipt_id a = k" for a
  proof (rule ccontr)
    assume "al_issue_id a \<noteq> mi_id i"
    then have "al_qty a \<le> sum_where ?other al_qty (allocations w)"
      using that pos by (intro sum_where_member) (auto intro: less_imp_le)
    then show False using pos [OF that(1)] z(1) by simp
  qed
  then show ?thesis using l z(2) by (auto simp: list_all_iff)
qed

theorem reversed_receipt_is_spent_witness: "\<exists>l\<in>set (receipts ex_undone). mr_id l = 2 \<and> mr_remaining l = 0"
proof -
  have "ex_out ''shortage'' 5 10 (Some 2) \<in> set (issues ex_undone)" by (simp add: ex_undone_def)
  from reversed_receipt_is_spent [OF ex_undone_reach this, of 2] show ?thesis by (auto simp: ex_out_def)
qed

text \<open>The cost of an issue differs from the exact value of what it took, each line at its lot's price,
  by at most half a cent per line.\<close>

theorem cost_rounding_bound:
  assumes "wh_reach w" "i \<in> set (issues w)"
  shows "\<bar>mi_total_cost i - sum_where (\<lambda>a. al_issue_id a = mi_id i) (\<lambda>a. al_qty a * al_unit_price a) (allocations w)\<bar>
     \<le> of_nat (row_count (\<lambda>a. al_issue_id a = mi_id i) (allocations w)) / 200"
proof -
  note inv = wh_reach_inv [OF assms(1)]
  have e: "\<bar>al_amount a - al_qty a * al_unit_price a\<bar> \<le> 1 / 200" if "a \<in> set (allocations w)" for a
    using inv that money_error [of "al_qty a * al_unit_price a"] by (auto simp: warehouse_inv_def lines_ok_def line_shape_def)
  have "\<bar>sum_where P al_amount rows - sum_where P (\<lambda>a. al_qty a * al_unit_price a) rows\<bar> \<le> of_nat (row_count P rows) / 200"
    if "set rows \<subseteq> set (allocations w)" for P and rows :: "issue_allocation list"
    using that
  proof (induction rows)
    case (Cons a rows)
    then have "\<bar>sum_where P al_amount rows - sum_where P (\<lambda>a. al_qty a * al_unit_price a) rows\<bar> \<le> of_nat (row_count P rows) / 200"
      "\<bar>al_amount a - al_qty a * al_unit_price a\<bar> \<le> 1 / 200" using e by simp_all
    then show ?case
      by (simp only: row_count_Cons sum_where_simps of_nat_Suc add_divide_distrib abs_le_iff split: if_split) linarith
  qed simp
  moreover have "mi_total_cost i = sum_where (\<lambda>a. al_issue_id a = mi_id i) al_amount (allocations w)"
    using inv assms(2) by (simp add: warehouse_inv_def issues_ok_def)
  ultimately show ?thesis by simp
qed

theorem cost_rounding_bound_witness:
  "\<bar>16 - sum_where (\<lambda>a. al_issue_id a = 1) (\<lambda>a. al_qty a * al_unit_price a) (allocations ex_sold)\<bar>
     \<le> of_nat (row_count (\<lambda>a. al_issue_id a = 1) (allocations ex_sold)) / 200"
proof -
  have "ex_out ''household'' (25 / 2) 16 None \<in> set (issues ex_sold)" by (simp add: ex_sold_def)
  from cost_rounding_bound [OF ex_sold_reach this] show ?thesis by (simp add: ex_out_def)
qed

end
