(* ===== verification/MaterialDialog.thy ===== *)
theory MaterialDialog
  imports WarehouseTheorems RequestTypes
begin

section \<open>The executor's dialogue for materials\<close>

text \<open>
  \<open>handlers/requests/materials.py\<close> with \<open>guard_executor_issue\<close> and
  \<open>issue_material_with_comment\<close> of \<open>services/request_handler_service.py\<close>: one chat's
  finite-state dialogue (choose a material, enter the quantity, confirm) over the requests, the
  users and the warehouse.  What the chat shows, and the material's
  name and unit it keeps for that, is not modelled.  A confirmation has two parts,
  because the bot handles callbacks concurrently: the dispatcher's filter and \<open>get_data\<close>, then the
  guard and the transaction.
\<close>

record job_row =
  jb_number :: string
  jb_status :: status
  jb_executor_id :: "user_id option"

record comment_row =
  cm_request_number :: string
  cm_user_id :: user_id
  cm_type :: string

text \<open>\<open>sh_users\<close> pairs a user's \<open>telegram_id\<close> with the user's id.\<close>

record shop =
  sh_stock :: warehouse
  sh_jobs :: "job_row list"
  sh_users :: "(int \<times> user_id) list"
  sh_comments :: "comment_row list"

datatype guard_result =
    No_request | No_user | Wrong_status | Not_executor | Guard_passed user_id

definition guard_executor_issue :: "shop \<Rightarrow> string \<Rightarrow> int \<Rightarrow> guard_result" where
  "guard_executor_issue s n tg =
     (case first_row (\<lambda>j. jb_number j = n) (sh_jobs s) of
        None \<Rightarrow> No_request
      | Some j \<Rightarrow>
          (case first_row (\<lambda>u. fst u = tg) (sh_users s) of
             None \<Rightarrow> No_user
           | Some u \<Rightarrow>
               if jb_status j \<noteq> St_InProgress then Wrong_status
               else if jb_executor_id j \<noteq> Some (snd u) then Not_executor
               else Guard_passed (snd u)))"

text \<open>The warehouse as the service reads it: the existing requests are the rows of the table.\<close>

definition stock_view :: "shop \<Rightarrow> warehouse" where
  "stock_view s = (sh_stock s)\<lparr>request_numbers := map jb_number (sh_jobs s)\<rparr>"

definition issue_material_with_comment ::
    "shop \<Rightarrow> actor_time \<Rightarrow> int \<Rightarrow> rat \<Rightarrow> string \<Rightarrow> material_fault + shop" where
  "issue_material_with_comment s who mid q n =
     (case issue_material (stock_view s) who
             \<lparr>ia_material_id = mid, ia_qty = Dec q, ia_doc_type = ''request'', ia_request_number = Some n,
              ia_reason = None\<rparr> of
        Inl e \<Rightarrow> Inl e
      | Inr (w, _) \<Rightarrow>
          Inr (s\<lparr>sh_stock := w,
                 sh_comments := sh_comments s @
                   [\<lparr>cm_request_number = n, cm_user_id = at_user who, cm_type = ''material''\<rparr>]\<rparr>))"

subsection \<open>The dialogue\<close>

datatype dialog_state = No_dialog | Selecting_material | Entering_quantity | Confirming

record dialog =
  dg_state :: dialog_state
  dg_request_number :: "string option"
  dg_page :: "int option"
  dg_material_id :: "int option"
  dg_qty :: "rat option"

text \<open>\<open>state.clear()\<close>.\<close>

definition cleared :: dialog where
  "cleared = \<lparr>dg_state = No_dialog, dg_request_number = None, dg_page = None, dg_material_id = None, dg_qty = None\<rparr>"

definition start_material_issue :: "(utext \<Rightarrow> int) \<Rightarrow> shop \<Rightarrow> int \<Rightarrow> string \<Rightarrow> dialog \<Rightarrow> dialog" where
  "start_material_issue collation s tg n d =
     (case guard_executor_issue s n tg of
        Guard_passed _ \<Rightarrow>
          if list_materials_with_stock collation (sh_stock s) = [] then d
          else d\<lparr>dg_state := Selecting_material, dg_request_number := Some n, dg_page := Some 1\<rparr>
      | _ \<Rightarrow> d)"

definition paginate_materials :: "int \<Rightarrow> dialog \<Rightarrow> dialog" where
  "paginate_materials page d = (if dg_state d = Selecting_material then d\<lparr>dg_page := Some page\<rparr> else d)"

definition pick_material :: "(utext \<Rightarrow> int) \<Rightarrow> shop \<Rightarrow> int \<Rightarrow> dialog \<Rightarrow> dialog" where
  "pick_material collation s mid d =
     (if dg_state d = Selecting_material
         \<and> list_ex (\<lambda>(m, _). mt_id m = mid) (list_materials_with_stock collation (sh_stock s))
      then d\<lparr>dg_state := Entering_quantity, dg_material_id := Some mid\<rparr> else d)"

text \<open>\<open>v\<close> is what \<open>Decimal\<close> makes of the message with commas read as points.\<close>

definition enter_quantity :: "shop \<Rightarrow> decimal_arg \<Rightarrow> dialog \<Rightarrow> dialog" where
  "enter_quantity s v d =
     (if dg_state d \<noteq> Entering_quantity then d
      else case dg_material_id d of
        None \<Rightarrow> d
      | Some mid \<Rightarrow>
          (case parse_qty v of
             Inl _ \<Rightarrow> d
           | Inr q \<Rightarrow>
               if material_stock (sh_stock s) mid < q then d
               else d\<lparr>dg_state := Confirming, dg_qty := Some q\<rparr>))"

text \<open>The first part of a confirmation: the data of a dialogue in the state \<open>confirming\<close>.\<close>

definition confirm_read :: "dialog \<Rightarrow> (string option \<times> int option \<times> rat option) option" where
  "confirm_read d =
     (if dg_state d = Confirming then Some (dg_request_number d, dg_material_id d, dg_qty d) else None)"

text \<open>The second part; every way out clears the dialogue.\<close>

definition confirm_commit ::
    "shop \<Rightarrow> instant \<Rightarrow> int \<Rightarrow> (string option \<times> int option \<times> rat option) \<Rightarrow> shop \<times> dialog" where
  "confirm_commit s now tg data =
     (case data of
        (Some n, Some mid, Some q) \<Rightarrow>
          (case guard_executor_issue s n tg of
             Guard_passed u \<Rightarrow>
               (case issue_material_with_comment s \<lparr>at_user = u, at_now = now\<rparr> mid q n of
                  Inl _ \<Rightarrow> (s, cleared)
                | Inr s' \<Rightarrow> (s', cleared))
           | _ \<Rightarrow> (s, cleared))
      | _ \<Rightarrow> (s, cleared))"

definition confirm_material_issue :: "shop \<Rightarrow> instant \<Rightarrow> int \<Rightarrow> dialog \<Rightarrow> shop \<times> dialog" where
  "confirm_material_issue s now tg d =
     (case confirm_read d of None \<Rightarrow> (s, d) | Some data \<Rightarrow> confirm_commit s now tg data)"

definition cancel_material_issue :: "dialog \<Rightarrow> dialog" where
  "cancel_material_issue d = (if dg_state d = No_dialog then d else cleared)"

subsection \<open>Who takes materials, and when\<close>

lemma guard_passed_iff:
  "guard_executor_issue s n tg = Guard_passed u \<Longrightarrow>
   \<exists>j\<in>set (sh_jobs s). jb_number j = n \<and> jb_status j = St_InProgress \<and> jb_executor_id j = Some u
     \<and> (tg, u) \<in> set (sh_users s)"
  by (auto simp: guard_executor_issue_def split: option.splits if_splits dest!: first_row_Some)

lemma issue_material_Inr:
  assumes "issue_material w who args = Inr (w', i)"
  shows "issues w' = issues w @ [i] \<and> mi_material_id i = ia_material_id args \<and> mi_doc_type i = ia_doc_type args
     \<and> mi_request_number i = ia_request_number args \<and> mi_created_by i = at_user who \<and> parse_qty (ia_qty args) = Inr (mi_qty i)"
proof -
  from assms obtain q m lines where q: "parse_qty (ia_qty args) = Inr q"
    and m: "get_active_material w (ia_material_id args) = Inr m"
    and a: "apply_issue w who lines m q (ia_doc_type args) (ia_request_number args) (ia_reason args) None = Inr (w', i)"
    unfolding issue_material_def by (auto simp: res_bind_Inr_iff split: if_splits)
  have "mt_id m = ia_material_id args" using get_active_Inr [OF m] by simp
  then show ?thesis using q a by (auto simp: apply_issue_def Let_def build_issue_def split: if_splits)
qed

text \<open>C35: materials leave the warehouse through the bot only at the hands of the executor of a request that is
  in progress at the moment of the confirmation: whatever happened since the dialogue began, a
  confirmation that changes anything writes exactly one issue, for the material and the quantity of the
  dialogue, to that request and by that executor, and exactly one comment; and it ends the dialogue.\<close>

theorem confirmed_by_executor_only:
  assumes "confirm_material_issue s now tg d = (s', d')" "s' \<noteq> s"
  shows "\<exists>j u i. j \<in> set (sh_jobs s) \<and> dg_request_number d = Some (jb_number j) \<and> jb_status j = St_InProgress
     \<and> jb_executor_id j = Some u \<and> (tg, u) \<in> set (sh_users s)
     \<and> issues (sh_stock s') = issues (sh_stock s) @ [i] \<and> mi_request_number i = Some (jb_number j)
     \<and> mi_created_by i = u \<and> dg_material_id d = Some (mi_material_id i) \<and> dg_qty d = Some (mi_qty i)
     \<and> length (sh_comments s') = Suc (length (sh_comments s)) \<and> d' = cleared \<and> dg_state d = Confirming"
proof -
  from assms obtain n mid q u where c: "dg_state d = Confirming" "dg_request_number d = Some n"
      "dg_material_id d = Some mid" "dg_qty d = Some q"
    and g: "guard_executor_issue s n tg = Guard_passed u"
    and r: "issue_material_with_comment s \<lparr>at_user = u, at_now = now\<rparr> mid q n = Inr s'" and d': "d' = cleared"
    by (auto simp: confirm_material_issue_def confirm_read_def confirm_commit_def
        split: option.splits if_splits guard_result.splits sum.splits)
  from r obtain w i where w: "issue_material (stock_view s) \<lparr>at_user = u, at_now = now\<rparr>
         \<lparr>ia_material_id = mid, ia_qty = Dec q, ia_doc_type = ''request'', ia_request_number = Some n,
          ia_reason = None\<rparr> = Inr (w, i)"
      and s': "sh_stock s' = w" "length (sh_comments s') = Suc (length (sh_comments s))"
    by (auto simp: issue_material_with_comment_def split: sum.splits prod.splits)
  note i = issue_material_Inr [OF w]
  have "mi_qty i = q" using i parse_qty_Dec by auto
  then show ?thesis
    using guard_passed_iff [OF g] i s' c d' by (auto simp: stock_view_def)
qed

definition ex_shop :: shop where
  "ex_shop = \<lparr>sh_stock = ex_two,
     sh_jobs = [\<lparr>jb_number = ''251001-001'', jb_status = St_InProgress, jb_executor_id = Some 7\<rparr>],
     sh_users = [(700, 7)], sh_comments = []\<rparr>"

definition ex_dialog :: dialog where
  "ex_dialog = \<lparr>dg_state = Confirming, dg_request_number = Some ''251001-001'', dg_page = Some 1,
     dg_material_id = Some 1, dg_qty = Some 3\<rparr>"

theorem confirmed_by_executor_only_witness:
  "\<exists>i. issues (sh_stock (fst (confirm_material_issue ex_shop 9 700 ex_dialog))) = [i]
     \<and> mi_created_by i = 7 \<and> mi_qty i = 3"
proof -
  obtain s' d' where e: "confirm_material_issue ex_shop 9 700 ex_dialog = (s', d')" by fastforce
  have "length (sh_comments (fst (confirm_material_issue ex_shop 9 700 ex_dialog))) = 1" by code_simp
  then have "s' \<noteq> ex_shop" unfolding e by (auto simp: ex_shop_def)
  from confirmed_by_executor_only [OF e this] show ?thesis
    unfolding e by (auto simp: ex_shop_def ex_two_def ex_one_def ex_dialog_def)
qed

text \<open>Nothing makes a confirmation unique: of two taps whose callbacks both read the dialogue before either
  clears it, both issue.\<close>

theorem double_tap_issues_twice:
  "case confirm_read ex_dialog of
     None \<Rightarrow> False
   | Some data \<Rightarrow>
       map mi_qty (issues (sh_stock (fst (confirm_commit (fst (confirm_commit ex_shop 9 700 data)) 9 700 data)))) = [3, 3]"
  by code_simp

end
