(* ===== verification/OutboxDelivery.thy ===== *)
theory OutboxDelivery
  imports WebhookOutbox DeviceAuth
begin

section \<open>Delivery of the webhook outbox\<close>

text \<open>
  \<open>process_outbox\<close> of \<open>services/webhook_sender.py\<close> and \<open>services/outbox_retention.py\<close> over the
  columns of \<open>database/models/webhook_outbox.py\<close>: workers claim small batches under
  \<open>FOR UPDATE SKIP LOCKED\<close>, send outside the transaction, and write each outcome by a compare and
  set on the claim's token.  A claim's token (\<open>uuid4\<close>) is a number never used before.  What the
  receiver answered is an input.
\<close>

subsection \<open>Rows\<close>

record delivery_row = outbox_row +
  dr_id :: int
  dr_endpoint :: string
  dr_attempts :: nat
  dr_last_error :: "string option"
  dr_retry_after :: "instant option"
  dr_created_at :: instant
  dr_sent_at :: "instant option"
  dr_claim_token :: "nat option"
  dr_claimed_at :: "instant option"
  dr_claim_count :: nat

text \<open>What a worker remembers of a row it claimed; the event's name, only logged, is left out.\<close>

record claim =
  cl_id :: int
  cl_token :: nat
  cl_endpoint :: string
  cl_payload :: request_payload
  cl_attempts :: nat
  cl_event_id :: string

record delivery_settings =
  ds_enabled :: bool
  ds_url :: string
  ds_secret :: string
  ds_secret_next :: string
  ds_use_next :: bool
  ds_max_retries :: nat
  ds_claim_batch :: nat
  ds_lease_seconds :: int

text \<open>The rows, the sequence of their ids, the next unused token, and the batches in the hands of workers.\<close>

record outbox =
  ox_rows :: "delivery_row list"
  ox_next_id :: int
  ox_next_token :: nat
  ox_flights :: "claim list list"

text \<open>\<open>INSERT ... ON CONFLICT (event_id) DO NOTHING\<close> with the columns' defaults.\<close>

definition enqueue :: "instant \<Rightarrow> string \<Rightarrow> string \<Rightarrow> string \<Rightarrow> request_payload \<Rightarrow> outbox \<Rightarrow> outbox" where
  "enqueue now endpoint event_id event payload st =
     (if list_ex (\<lambda>r. ob_event_id r = event_id) (ox_rows st) then st\<lparr>ox_next_id := ox_next_id st + 1\<rparr>
      else st\<lparr>ox_rows := ox_rows st @
                [\<lparr>ob_event_id = event_id, ob_event = event, ob_payload = payload, ob_status = ''pending'',
                  dr_id = ox_next_id st, dr_endpoint = endpoint, dr_attempts = 0, dr_last_error = None,
                  dr_retry_after = None, dr_created_at = now, dr_sent_at = None, dr_claim_token = None,
                  dr_claimed_at = None, dr_claim_count = 0\<rparr>],
              ox_next_id := ox_next_id st + 1\<rparr>)"

subsection \<open>One request\<close>

text \<open>What came of the request: a response with its status and \<open>Retry-After\<close>, a timeout or another failure
  of the client, with the text of the exception.\<close>

datatype http_result = Response int "string option" | Timed_out string | Request_failed string

record send_result =
  sr_success :: bool
  sr_error :: string
  sr_retryable :: bool
  sr_retry_after :: int

definition send_webhook :: "http_result \<Rightarrow> send_result" where
  "send_webhook res =
     (case res of
        Response code header \<Rightarrow>
          if code = 200 then \<lparr>sr_success = True, sr_error = '''', sr_retryable = False, sr_retry_after = 0\<rparr>
          else if code = 429 then
            \<lparr>sr_success = False, sr_error = ''HTTP 429: rate limited'', sr_retryable = True,
             sr_retry_after =
               (case header of
                  None \<Rightarrow> 60
                | Some h \<Rightarrow> if h = [] then 60 else case py_int h of None \<Rightarrow> 60 | Some n \<Rightarrow> n)\<rparr>
          else if code \<in> {400, 401, 403} then
            \<lparr>sr_success = False, sr_error = ''HTTP '' @ int_str code @ '': permanent error'',
             sr_retryable = False, sr_retry_after = 0\<rparr>
          else if code = 503 then
            \<lparr>sr_success = False, sr_error = ''HTTP 503: service unavailable'', sr_retryable = True,
             sr_retry_after = 0\<rparr>
          else if 500 \<le> code then
            \<lparr>sr_success = False, sr_error = ''HTTP '' @ int_str code @ '': server error'',
             sr_retryable = True, sr_retry_after = 0\<rparr>
          else
            \<lparr>sr_success = False, sr_error = ''HTTP '' @ int_str code @ '': unexpected status'',
             sr_retryable = True, sr_retry_after = 0\<rparr>
      | Timed_out exc \<Rightarrow>
          \<lparr>sr_success = False, sr_error = ''Timeout: '' @ exc, sr_retryable = True, sr_retry_after = 0\<rparr>
      | Request_failed exc \<Rightarrow>
          \<lparr>sr_success = False, sr_error = ''Request error: '' @ exc, sr_retryable = True, sr_retry_after = 0\<rparr>)"

definition base_url :: "delivery_settings \<Rightarrow> string" where
  "base_url cfg = rev (dropWhile (\<lambda>c. c = CHR ''/'') (rev (ds_url cfg)))"

definition active_signing_secret :: "delivery_settings \<Rightarrow> string" where
  "active_signing_secret cfg =
     (if ds_use_next cfg \<and> ds_secret_next cfg \<noteq> [] then ds_secret_next cfg else ds_secret cfg)"

subsection \<open>The claim\<close>

definition claimable :: "instant \<Rightarrow> instant \<Rightarrow> delivery_row \<Rightarrow> bool" where
  "claimable now lease_cutoff r \<longleftrightarrow>
     ob_status r = ''pending'' \<and> (case dr_retry_after r of None \<Rightarrow> True | Some t \<Rightarrow> t \<le> now)
     \<or> ob_status r = ''in_flight'' \<and> (case dr_claimed_at r of None \<Rightarrow> False | Some t \<Rightarrow> t < lease_cutoff)"

text \<open>\<open>locked\<close>: the rows other transactions hold at this moment.\<close>

definition claimable_stmt :: "instant \<Rightarrow> instant \<Rightarrow> nat \<Rightarrow> int list \<Rightarrow> delivery_row list \<Rightarrow> delivery_row list" where
  "claimable_stmt now lease_cutoff batch locked rows =
     take batch (sort_key dr_created_at
       (filter (\<lambda>r. claimable now lease_cutoff r \<and> dr_id r \<notin> set locked) rows))"

definition mark_claimed :: "instant \<Rightarrow> nat \<Rightarrow> delivery_row \<Rightarrow> delivery_row" where
  "mark_claimed now token r =
     r\<lparr>ob_status := ''in_flight'', dr_claimed_at := Some now, dr_claim_token := Some token,
       dr_claim_count := Suc (dr_claim_count r)\<rparr>"

definition claim_of :: "nat \<Rightarrow> delivery_row \<Rightarrow> claim" where
  "claim_of token r =
     \<lparr>cl_id = dr_id r, cl_token = token, cl_endpoint = dr_endpoint r, cl_payload = ob_payload r,
      cl_attempts = dr_attempts r, cl_event_id = ob_event_id r\<rparr>"

fun claim_rows ::
    "instant \<Rightarrow> nat \<Rightarrow> delivery_row list \<Rightarrow> delivery_row list \<Rightarrow> delivery_row list \<times> claim list" where
  "claim_rows now token [] rows = (rows, [])"
| "claim_rows now token (r # records) rows =
     (case claim_rows now (Suc token) records
             (upd_where (\<lambda>x. dr_id x = dr_id r) (mark_claimed now token) rows) of
        (rows', claims) \<Rightarrow> (rows', claim_of token r # claims))"

definition claim_phase ::
    "delivery_settings \<Rightarrow> instant \<Rightarrow> int list \<Rightarrow> outbox \<Rightarrow> outbox \<times> claim list" where
  "claim_phase cfg now locked st =
     (let records = claimable_stmt now (now - seconds (ds_lease_seconds cfg)) (ds_claim_batch cfg) locked (ox_rows st)
      in case claim_rows now (ox_next_token st) records (ox_rows st) of
           (rows, claims) \<Rightarrow>
             (st\<lparr>ox_rows := rows, ox_next_token := ox_next_token st + length records\<rparr>, claims))"

subsection \<open>Finalisation\<close>

definition owns :: "int \<Rightarrow> nat \<Rightarrow> delivery_row \<Rightarrow> bool" where
  "owns i token r \<longleftrightarrow> dr_id r = i \<and> dr_claim_token r = Some token \<and> ob_status r = ''in_flight''"

definition finalize_row ::
    "int \<Rightarrow> nat \<Rightarrow> (delivery_row \<Rightarrow> delivery_row) \<Rightarrow> delivery_row list \<Rightarrow> delivery_row list \<times> bool" where
  "finalize_row i token f rows = (upd_where (owns i token) f rows, 0 < row_count (owns i token) rows)"

definition release :: "delivery_row \<Rightarrow> delivery_row" where
  "release r = r\<lparr>dr_claim_token := None, dr_claimed_at := None\<rparr>"

definition back_to_pending :: "string \<Rightarrow> delivery_row \<Rightarrow> delivery_row" where
  "back_to_pending err r = (release r)\<lparr>ob_status := ''pending'', dr_last_error := Some err\<rparr>"

definition mark_sent :: "instant \<Rightarrow> delivery_row \<Rightarrow> delivery_row" where
  "mark_sent now r = (release r)\<lparr>ob_status := ''sent'', dr_sent_at := Some now, dr_last_error := None\<rparr>"

definition mark_failed :: "nat \<Rightarrow> string \<Rightarrow> delivery_row \<Rightarrow> delivery_row" where
  "mark_failed attempts err r =
     (release r)\<lparr>ob_status := ''failed'', dr_attempts := attempts, dr_last_error := Some err\<rparr>"

definition mark_retry :: "nat \<Rightarrow> string \<Rightarrow> instant \<Rightarrow> delivery_row \<Rightarrow> delivery_row" where
  "mark_retry attempts err due r =
     (release r)\<lparr>ob_status := ''pending'', dr_attempts := attempts, dr_last_error := Some err,
       dr_retry_after := Some due\<rparr>"

definition backoff_delays :: "int list" where "backoff_delays = [2, 4, 8]"

definition retry_delay :: "nat \<Rightarrow> int \<Rightarrow> int" where
  "retry_delay new_attempts retry_after =
     (if 0 < retry_after then retry_after else backoff_delays ! min (new_attempts - 1) (length backoff_delays - 1))"

text \<open>\<open>datetime.max\<close>; a \<open>timedelta\<close> has less than a thousand million days.\<close>

definition max_datetime :: instant where "max_datetime = 253402300799999999"
definition max_timedelta_seconds :: int where "max_timedelta_seconds = 86400 * 1000000000"

datatype verdict = Was_sent | Was_failed | Was_retried | Was_stale

text \<open>\<open>Inl\<close>: the delivery raised, with the text of the exception.\<close>

type_synonym delivery = "string + http_result"

text \<open>\<open>None\<close>: the due time is out of range, and the exception ends the transaction.\<close>

definition finalize_one ::
    "delivery_settings \<Rightarrow> instant \<Rightarrow> claim \<Rightarrow> delivery \<Rightarrow> delivery_row list \<Rightarrow> (delivery_row list \<times> verdict) option" where
  "finalize_one cfg now c d rows =
     (let fin = (\<lambda>f v. case finalize_row (cl_id c) (cl_token c) f rows of
                    (rows', applied) \<Rightarrow> Some (rows', if applied then v else Was_stale))
      in case d of
        Inl err \<Rightarrow> fin (back_to_pending (''internal: '' @ err)) Was_retried
      | Inr res \<Rightarrow>
          let a = send_webhook res; n = Suc (cl_attempts c)
          in if sr_success a then fin (mark_sent now) Was_sent
             else if \<not> sr_retryable a \<or> ds_max_retries cfg \<le> n then fin (mark_failed n (sr_error a)) Was_failed
             else let delay = retry_delay n (sr_retry_after a)
                  in if delay < max_timedelta_seconds \<and> now + seconds delay \<le> max_datetime
                     then fin (mark_retry n (sr_error a) (now + seconds delay)) Was_retried
                     else None)"

fun finalize_all ::
    "delivery_settings \<Rightarrow> (claim \<Rightarrow> instant) \<Rightarrow> (claim \<times> delivery) list \<Rightarrow> delivery_row list
     \<Rightarrow> (delivery_row list \<times> verdict list) option" where
  "finalize_all cfg clock [] rows = Some (rows, [])"
| "finalize_all cfg clock ((c, d) # outs) rows =
     (case finalize_one cfg (clock c) c d rows of
        None \<Rightarrow> None
      | Some (rows', v) \<Rightarrow>
          (case finalize_all cfg clock outs rows' of
             None \<Rightarrow> None
           | Some (rows'', vs) \<Rightarrow> Some (rows'', v # vs)))"

subsection \<open>A worker's cycle\<close>

text \<open>What a batch meets: the time and the locked rows at the claim, the answers of the receiver, and the
  time at which each claim's outcome is written.\<close>

record batch_env =
  be_now :: instant
  be_locked :: "int list"
  be_deliver :: "claim \<Rightarrow> delivery"
  be_done :: "claim \<Rightarrow> instant"

definition max_batches :: "nat \<Rightarrow> nat" where
  "max_batches batch = max 1 (50 div max batch 1)"

text \<open>An exception in the third phase leaves the cycle with that phase rolled back.\<close>

fun outbox_batches :: "delivery_settings \<Rightarrow> batch_env list \<Rightarrow> outbox \<Rightarrow> verdict list \<Rightarrow> (outbox \<times> verdict list) \<times> bool" where
  "outbox_batches cfg [] st tally = ((st, tally), True)"
| "outbox_batches cfg (e # es) st tally =
     (case claim_phase cfg (be_now e) (be_locked e) st of
        (st', claims) \<Rightarrow>
          if claims = [] then ((st, tally), True)
          else
            case finalize_all cfg (be_done e) (map (\<lambda>c. (c, be_deliver e c)) claims) (ox_rows st') of
              None \<Rightarrow> ((st', tally), False)
            | Some (rows, vs) \<Rightarrow>
                if length claims < ds_claim_batch cfg then ((st'\<lparr>ox_rows := rows\<rparr>, tally @ vs), True)
                else outbox_batches cfg es (st'\<lparr>ox_rows := rows\<rparr>) (tally @ vs))"

definition process_outbox :: "delivery_settings \<Rightarrow> batch_env list \<Rightarrow> outbox \<Rightarrow> (outbox \<times> verdict list) \<times> bool" where
  "process_outbox cfg envs st =
     (if \<not> ds_enabled cfg then ((st, []), True)
      else if base_url cfg = [] \<or> active_signing_secret cfg = [] then ((st, []), True)
      else outbox_batches cfg (take (max_batches (ds_claim_batch cfg)) envs) st [])"

subsection \<open>Retention\<close>

definition purge_old_sent_outbox :: "instant \<Rightarrow> int \<Rightarrow> outbox \<Rightarrow> outbox \<times> nat" where
  "purge_old_sent_outbox now retention_days st =
     (let old = (\<lambda>r. ob_status r = ''sent'' \<and>
                   (case dr_sent_at r of None \<Rightarrow> False | Some t \<Rightarrow> t < now - seconds (retention_days * 86400)))
      in (st\<lparr>ox_rows := filter (\<lambda>r. \<not> old r) (ox_rows st)\<rparr>, row_count old (ox_rows st)))"

end
