(* ===== verification/DeliveryRuns.thy ===== *)
theory DeliveryRuns
  imports OutboxDelivery
begin

section \<open>Runs of the delivery\<close>

text \<open>
  Any number of workers, each between its phases, with crashes at any point, new events, and the
  retention job; the invariant ties the rows to the claims in the workers' hands.
\<close>

inductive ox_step :: "delivery_settings \<Rightarrow> outbox \<Rightarrow> outbox \<Rightarrow> bool" for cfg where
  ox_enqueue: "ox_step cfg st (enqueue now endpoint eid event payload st)"
| ox_claim: "claim_phase cfg now locked st = (st', claims) \<Longrightarrow>
    ox_step cfg st (st'\<lparr>ox_flights := ox_flights st' @ [claims]\<rparr>)"
| ox_finalize: "ox_flights st = fs @ b # gs \<Longrightarrow>
    finalize_all cfg now (map (\<lambda>c. (c, deliver c)) b) (ox_rows st) = Some (rows, vs) \<Longrightarrow>
    ox_step cfg st (st\<lparr>ox_rows := rows, ox_flights := fs @ gs\<rparr>)"
| ox_lost: "ox_flights st = fs @ b # gs \<Longrightarrow> ox_step cfg st (st\<lparr>ox_flights := fs @ gs\<rparr>)"
| ox_purge: "ox_step cfg st (fst (purge_old_sent_outbox now days st))"

inductive_cases ox_stepE [elim]: "ox_step cfg st st'"

definition empty_outbox :: outbox where
  "empty_outbox = \<lparr>ox_rows = [], ox_next_id = 1, ox_next_token = 0, ox_flights = []\<rparr>"

subsection \<open>The invariant\<close>

definition budget :: "delivery_settings \<Rightarrow> nat" where "budget cfg = max 1 (ds_max_retries cfg)"

definition row_ok :: "delivery_settings \<Rightarrow> delivery_row \<Rightarrow> bool" where
  "row_ok cfg r \<longleftrightarrow>
     ob_status r \<in> {''pending'', ''in_flight'', ''sent'', ''failed''}
     \<and> (dr_claim_token r \<noteq> None \<longleftrightarrow> ob_status r = ''in_flight'')
     \<and> (dr_claimed_at r \<noteq> None \<longleftrightarrow> ob_status r = ''in_flight'')
     \<and> (dr_sent_at r \<noteq> None \<longleftrightarrow> ob_status r = ''sent'')
     \<and> dr_attempts r \<le> budget cfg
     \<and> (ob_status r \<in> {''pending'', ''in_flight''} \<longrightarrow> dr_attempts r < budget cfg)"

definition claim_agrees :: "claim \<Rightarrow> delivery_row \<Rightarrow> bool" where
  "claim_agrees c r \<longleftrightarrow> dr_claim_token r = Some (cl_token c) \<longrightarrow>
     dr_id r = cl_id c \<and> dr_attempts r = cl_attempts c"

definition outbox_inv :: "delivery_settings \<Rightarrow> outbox \<Rightarrow> bool" where
  "outbox_inv cfg st \<longleftrightarrow>
     distinct (map dr_id (ox_rows st)) \<and> distinct (map ob_event_id (ox_rows st))
     \<and> (\<forall>r\<in>set (ox_rows st). dr_id r < ox_next_id st \<and> row_ok cfg r
          \<and> (\<forall>t. dr_claim_token r = Some t \<longrightarrow> t < ox_next_token st))
     \<and> (\<forall>c\<in>set (concat (ox_flights st)). cl_token c < ox_next_token st
          \<and> (\<forall>r\<in>set (ox_rows st). claim_agrees c r))"

lemma enqueue_inv: "outbox_inv cfg st \<Longrightarrow> outbox_inv cfg (enqueue now endpoint eid event payload st)"
  unfolding outbox_inv_def enqueue_def
  by (auto simp: row_ok_def budget_def claim_agrees_def list_ex_iff less_max_iff_disj)

text \<open>A subset of the rows and of the claims keeps the invariant.\<close>

lemma fewer_inv:
  assumes "outbox_inv cfg st"
  shows "outbox_inv cfg (st\<lparr>ox_rows := filter P (ox_rows st)\<rparr>)"
    and "set (concat fs) \<subseteq> set (concat (ox_flights st)) \<Longrightarrow> outbox_inv cfg (st\<lparr>ox_flights := fs\<rparr>)"
  using assms by (auto simp: outbox_inv_def distinct_map_filter)

subsection \<open>The claim\<close>

definition tags :: "nat \<Rightarrow> delivery_row list \<Rightarrow> (int \<times> nat) list" where
  "tags t records = zip (map dr_id records) [t..<t + length records]"

definition tag_row :: "instant \<Rightarrow> (int \<times> nat) list \<Rightarrow> delivery_row \<Rightarrow> delivery_row" where
  "tag_row now ts x = (case map_of ts (dr_id x) of None \<Rightarrow> x | Some t \<Rightarrow> mark_claimed now t x)"

lemma mark_claimed_fields [simp]:
  "dr_id (mark_claimed now t r) = dr_id r" "ob_event_id (mark_claimed now t r) = ob_event_id r"
  "dr_attempts (mark_claimed now t r) = dr_attempts r" "dr_claim_token (mark_claimed now t r) = Some t"
  by (simp_all add: mark_claimed_def)

lemma tag_row_fields [simp]:
  "dr_id (tag_row now ts r) = dr_id r" "ob_event_id (tag_row now ts r) = ob_event_id r"
  "dr_attempts (tag_row now ts r) = dr_attempts r"
  by (simp_all add: tag_row_def split: option.split)

lemma tags_Cons: "tags t (r # records) = (dr_id r, t) # tags (Suc t) records"
  by (simp add: tags_def upt_conv_Cons del: upt_Suc)

lemma claim_rows_eq:
  "distinct (map dr_id records) \<Longrightarrow>
   claim_rows now t records rows = (map (tag_row now (tags t records)) rows, map (\<lambda>(k, r). claim_of k r) (zip [t..<t + length records] records))"
proof (induction records arbitrary: t rows)
  case Nil
  show ?case by (simp add: tags_def tag_row_def)
next
  case (Cons r records)
  have none: "map_of (tags (Suc t) records) (dr_id r) = None"
    unfolding tags_def using Cons.prems by (subst map_of_zip_is_None) (simp_all del: upt_Suc)
  have "tag_row now (tags (Suc t) records) (if dr_id x = dr_id r then mark_claimed now t x else x)
      = tag_row now (tags t (r # records)) x" for x
    using none by (simp add: tag_row_def tags_Cons)
  moreover have "[t..<t + length (r # records)] = t # [Suc t..<Suc t + length records]"
    by (simp add: upt_conv_Cons del: upt_Suc)
  ultimately show ?case
    using Cons by (simp add: upd_where_def comp_def del: upt_Suc)
qed

definition batch_records :: "delivery_settings \<Rightarrow> instant \<Rightarrow> int list \<Rightarrow> outbox \<Rightarrow> delivery_row list" where
  "batch_records cfg now locked st =
     claimable_stmt now (now - seconds (ds_lease_seconds cfg)) (ds_claim_batch cfg) locked (ox_rows st)"

lemma batch_records_set:
  "r \<in> set (batch_records cfg now locked st) \<Longrightarrow>
   r \<in> set (ox_rows st) \<and> claimable now (now - seconds (ds_lease_seconds cfg)) r \<and> dr_id r \<notin> set locked"
  unfolding batch_records_def claimable_stmt_def by (auto dest!: in_set_takeD)

lemma distinct_map_sort: "distinct (map f (sort_key k xs)) \<longleftrightarrow> distinct (map f xs)"
  by (rule mset_eq_imp_distinct_iff) simp

lemma batch_records_distinct:
  assumes "distinct (map dr_id (ox_rows st))"
  shows "distinct (map dr_id (batch_records cfg now locked st))"
  unfolding batch_records_def claimable_stmt_def take_map [symmetric]
  by (rule distinct_take) (simp only: distinct_map_sort distinct_map_filter [OF assms])

lemma claim_phase_eq:
  assumes "distinct (map dr_id (ox_rows st))"
  shows "claim_phase cfg now locked st =
    (let records = batch_records cfg now locked st; t = ox_next_token st
     in (st\<lparr>ox_rows := map (tag_row now (tags t records)) (ox_rows st), ox_next_token := t + length records\<rparr>,
         map (\<lambda>(k, r). claim_of k r) (zip [t..<t + length records] records)))"
  unfolding claim_phase_def batch_records_def [symmetric] Let_def
  by (simp add: claim_rows_eq [OF batch_records_distinct [OF assms]])

lemma tags_Some:
  assumes "map_of (tags t records) i = Some k"
  obtains rec where "rec \<in> set records" "dr_id rec = i" "(k, rec) \<in> set (zip [t..<t + length records] records)"
    "t \<le> k" "k < t + length records"
proof -
  have "(i, k) \<in> set (zip (map dr_id records) [t..<t + length records])"
    using map_of_SomeD [OF assms] by (simp add: tags_def)
  then obtain n where n: "n < length records" "i = dr_id (records ! n)" "k = [t..<t + length records] ! n"
    by (auto simp: set_zip)
  show ?thesis
  proof (rule that)
    show "records ! n \<in> set records" using n by simp
    show "dr_id (records ! n) = i" using n by simp
    show "(k, records ! n) \<in> set (zip [t..<t + length records] records)"
      unfolding set_zip using n by (intro CollectI exI [of _ n]) simp
    show "t \<le> k" "k < t + length records" using n by simp_all
  qed
qed

lemma zip_upt_inj:
  "(k, x) \<in> set (zip [t..<t + length xs] xs) \<Longrightarrow> (k, y) \<in> set (zip [t..<t + length xs] xs) \<Longrightarrow> x = y"
  by (auto simp: set_zip)

text \<open>What a claim makes of a row: nothing, or the row was claimable and is in flight with a new token.\<close>

lemma tagged_cases:
  assumes inv: "outbox_inv cfg st" and r: "r \<in> set (ox_rows st)"
    and recs: "set records \<subseteq> set (ox_rows st)"
  obtains (same) "tag_row now (tags t records) r = r"
  | (claimed) k where "tag_row now (tags t records) r = mark_claimed now k r" "r \<in> set records"
      "(k, r) \<in> set (zip [t..<t + length records] records)" "t \<le> k" "k < t + length records"
proof (cases "map_of (tags t records) (dr_id r)")
  case None
  then show ?thesis using same by (simp add: tag_row_def)
next
  case (Some k)
  then obtain rec where rec: "rec \<in> set records" "dr_id rec = dr_id r"
      "(k, rec) \<in> set (zip [t..<t + length records] records)" "t \<le> k" "k < t + length records"
    by (rule tags_Some)
  have "rec = r"
  proof (rule inj_onD)
    show "inj_on dr_id (set (ox_rows st))" using inv by (simp add: outbox_inv_def distinct_map)
  qed (use rec recs r in auto)
  then show ?thesis using claimed [of k] rec Some by (simp add: tag_row_def)
qed

lemma outbox_invI:
  assumes "distinct (map dr_id rows)" "distinct (map ob_event_id rows)"
    and "\<And>r. r \<in> set rows \<Longrightarrow> dr_id r < ox_next_id st \<and> row_ok cfg r \<and> (\<forall>k. dr_claim_token r = Some k \<longrightarrow> k < t)"
    and "\<And>c. c \<in> set (concat fs) \<Longrightarrow> cl_token c < t"
    and "\<And>c r. c \<in> set (concat fs) \<Longrightarrow> r \<in> set rows \<Longrightarrow> claim_agrees c r"
  shows "outbox_inv cfg (st\<lparr>ox_rows := rows, ox_next_token := t, ox_flights := fs\<rparr>)"
  using assms by (simp add: outbox_inv_def)

lemma claim_inv:
  assumes inv: "outbox_inv cfg st" and c: "claim_phase cfg now locked st = (st', claims)"
  shows "outbox_inv cfg (st'\<lparr>ox_flights := ox_flights st' @ [claims]\<rparr>)"
proof -
  define records where "records = batch_records cfg now locked st"
  define t where "t = ox_next_token st"
  have d: "distinct (map dr_id (ox_rows st))" using inv by (simp add: outbox_inv_def)
  have st': "st' = st\<lparr>ox_rows := map (tag_row now (tags t records)) (ox_rows st), ox_next_token := t + length records\<rparr>"
    and claims: "claims = map (\<lambda>(k, r). claim_of k r) (zip [t..<t + length records] records)"
    using c claim_phase_eq [OF d, of cfg now locked] by (simp_all add: records_def t_def Let_def)
  have recs: "set records \<subseteq> set (ox_rows st)" and live: "\<forall>r\<in>set records. ob_status r \<in> {''pending'', ''in_flight''}"
  proof -
    have "r \<in> set (ox_rows st) \<and> ob_status r \<in> {''pending'', ''in_flight''}" if "r \<in> set records" for r
      using batch_records_set [of r cfg now locked st] that by (auto simp: records_def claimable_def)
    then show "set records \<subseteq> set (ox_rows st)" "\<forall>r\<in>set records. ob_status r \<in> {''pending'', ''in_flight''}"
      by blast+
  qed
  have row: "dr_id (tag_row now (tags t records) r) < ox_next_id st \<and> row_ok cfg (tag_row now (tags t records) r)
      \<and> (\<forall>k. dr_claim_token (tag_row now (tags t records) r) = Some k \<longrightarrow> k < t + length records)"
    if r: "r \<in> set (ox_rows st)" for r
    using inv r recs
  proof (rule tagged_cases [of cfg st r records now t])
    assume "tag_row now (tags t records) r = r"
    then show ?thesis using inv r by (auto simp: outbox_inv_def t_def)
  next
    fix k assume k: "tag_row now (tags t records) r = mark_claimed now k r" "r \<in> set records" "k < t + length records"
    have "row_ok cfg r" "dr_id r < ox_next_id st" using inv r by (auto simp: outbox_inv_def)
    then show ?thesis using live k by (auto simp: row_ok_def mark_claimed_def)
  qed
  have old: "cl_token c < t \<and> claim_agrees c (tag_row now (tags t records) r)"
    if c: "c \<in> set (concat (ox_flights st))" and r: "r \<in> set (ox_rows st)" for c r
    using inv r recs
  proof (rule tagged_cases [of cfg st r records now t])
    assume "tag_row now (tags t records) r = r"
    then show ?thesis using inv c r by (auto simp: outbox_inv_def t_def)
  next
    fix k assume k: "tag_row now (tags t records) r = mark_claimed now k r" "t \<le> k"
    have "cl_token c < t" using inv c by (auto simp: outbox_inv_def t_def)
    then show ?thesis using k by (simp add: claim_agrees_def)
  qed
  have new: "cl_token (claim_of k x) < t + length records \<and> claim_agrees (claim_of k x) (tag_row now (tags t records) r)"
    if kx: "(k, x) \<in> set (zip [t..<t + length records] records)" and r: "r \<in> set (ox_rows st)" for k x r
  proof -
    have k: "t \<le> k" "k < t + length records" using kx by (auto simp: set_zip)
    show ?thesis using inv r recs
    proof (rule tagged_cases [of cfg st r records now t])
      assume same: "tag_row now (tags t records) r = r"
      have "dr_claim_token r \<noteq> Some k" using inv r k(1) by (auto simp: outbox_inv_def t_def)
      then show ?thesis using same k by (simp add: claim_agrees_def claim_of_def)
    next
      fix k' assume k': "tag_row now (tags t records) r = mark_claimed now k' r"
        "(k', r) \<in> set (zip [t..<t + length records] records)"
      show ?thesis
      proof (cases "k' = k")
        case True
        have "(k, r) \<in> set (zip [t..<t + length records] records)" using k'(2) unfolding True .
        from zip_upt_inj [OF this kx] have "r = x" .
        then show ?thesis using k by (simp add: claim_agrees_def claim_of_def k'(1))
      qed (use k k'(1) in \<open>simp add: claim_agrees_def claim_of_def\<close>)
    qed
  qed
  have tok: "cl_token c < t" if "c \<in> set (concat (ox_flights st))" for c
    using inv that by (auto simp: outbox_inv_def t_def)
  have tokn: "k < t + length records" if "(k, x) \<in> set (zip [t..<t + length records] records)" for k x
    using that by (auto simp: set_zip)
  have ids: "map dr_id (map (tag_row now (tags t records)) (ox_rows st)) = map dr_id (ox_rows st)"
    "map ob_event_id (map (tag_row now (tags t records)) (ox_rows st)) = map ob_event_id (ox_rows st)"
    by simp_all
  have "outbox_inv cfg (st\<lparr>ox_rows := map (tag_row now (tags t records)) (ox_rows st),
      ox_next_token := t + length records, ox_flights := ox_flights st @ [claims]\<rparr>)"
  proof (rule outbox_invI)
    show "distinct (map dr_id (map (tag_row now (tags t records)) (ox_rows st)))"
      "distinct (map ob_event_id (map (tag_row now (tags t records)) (ox_rows st)))"
      unfolding ids using inv by (simp_all add: outbox_inv_def)
    show "dr_id x < ox_next_id st \<and> row_ok cfg x \<and> (\<forall>k. dr_claim_token x = Some k \<longrightarrow> k < t + length records)"
      if "x \<in> set (map (tag_row now (tags t records)) (ox_rows st))" for x
      using that row by auto
    fix c assume "c \<in> set (concat (ox_flights st @ [claims]))"
    then consider "c \<in> set (concat (ox_flights st))"
      | k x where "c = claim_of k x" "(k, x) \<in> set (zip [t..<t + length records] records)"
      by (auto simp: claims)
    note cases_c = this
    show "cl_token c < t + length records"
      using cases_c by cases (use tok tokn in \<open>auto simp: claim_of_def trans_less_add1\<close>)
    show "claim_agrees c x" if x: "x \<in> set (map (tag_row now (tags t records)) (ox_rows st))" for x
    proof -
      obtain r where r: "r \<in> set (ox_rows st)" "x = tag_row now (tags t records) r" using x by auto
      show ?thesis using cases_c by cases (use old [OF _ r(1)] new [OF _ r(1)] r(2) in auto)
    qed
  qed
  then show ?thesis by (simp add: st')
qed

subsection \<open>The finalisation\<close>

text \<open>What a finalisation may make of the row it owns, by the claim.\<close>

definition settles :: "delivery_settings \<Rightarrow> claim \<Rightarrow> (delivery_row \<Rightarrow> delivery_row) \<Rightarrow> bool" where
  "settles cfg c f \<longleftrightarrow>
     (\<exists>err. f = back_to_pending err) \<or> (\<exists>now. f = mark_sent now)
     \<or> (\<exists>err. f = mark_failed (Suc (cl_attempts c)) err)
     \<or> (\<exists>err due. f = mark_retry (Suc (cl_attempts c)) err due \<and> Suc (cl_attempts c) < ds_max_retries cfg)"

lemma finalize_one_Some:
  assumes "finalize_one cfg now c d rows = Some (rows', v)"
  shows "\<exists>f. settles cfg c f \<and> rows' = upd_where (owns (cl_id c) (cl_token c)) f rows
     \<and> (row_count (owns (cl_id c) (cl_token c)) rows = 0 \<longrightarrow> v = Was_stale)"
proof (cases d)
  case (Inl err)
  then show ?thesis using assms
    by (intro exI [of _ "back_to_pending (''internal: '' @ err)"]) (auto simp: finalize_one_def finalize_row_def settles_def)
next
  case (Inr res)
  let ?a = "send_webhook res" and ?n = "Suc (cl_attempts c)"
  consider "sr_success ?a" | "\<not> sr_success ?a" "\<not> sr_retryable ?a \<or> ds_max_retries cfg \<le> ?n"
    | "\<not> sr_success ?a" "\<not> (\<not> sr_retryable ?a \<or> ds_max_retries cfg \<le> ?n)" by blast
  then show ?thesis
  proof cases
    case 1
    then show ?thesis using assms Inr
      by (intro exI [of _ "mark_sent now"]) (auto simp: finalize_one_def finalize_row_def settles_def Let_def)
  next
    case 2
    then show ?thesis using assms Inr
      by (intro exI [of _ "mark_failed ?n (sr_error ?a)"]) (auto simp: finalize_one_def finalize_row_def settles_def Let_def)
  next
    case 3
    let ?due = "now + seconds (retry_delay ?n (sr_retry_after ?a))"
    show ?thesis using assms Inr 3
      by (intro exI [of _ "mark_retry ?n (sr_error ?a) ?due"])
         (auto simp: finalize_one_def finalize_row_def settles_def Let_def not_le split: if_splits)
  qed
qed

lemma settled_row:
  assumes "settles cfg c f" "row_ok cfg r" "claim_agrees c r" "owns (cl_id c) (cl_token c) r"
  shows "row_ok cfg (f r) \<and> dr_id (f r) = dr_id r \<and> ob_event_id (f r) = ob_event_id r
     \<and> dr_claim_token (f r) = None \<and> ob_status (f r) \<noteq> ''in_flight''
     \<and> dr_attempts r \<le> dr_attempts (f r) \<and> dr_attempts (f r) \<le> Suc (dr_attempts r)"
proof -
  have o: "ob_status r = ''in_flight''" "dr_attempts r = cl_attempts c" "dr_sent_at r = None" "dr_attempts r < budget cfg"
    using assms(2-4) by (auto simp: owns_def claim_agrees_def row_ok_def)
  have b: "dr_attempts r \<le> budget cfg" "Suc (dr_attempts r) \<le> budget cfg"
    "Suc (dr_attempts r) < ds_max_retries cfg \<Longrightarrow> Suc (dr_attempts r) < budget cfg"
    using o(4) by (auto simp: budget_def)
  note D = row_ok_def back_to_pending_def mark_sent_def mark_failed_def mark_retry_def release_def
  from assms(1) show ?thesis unfolding settles_def o(2) [symmetric]
    by (elim disjE exE conjE) (use o(1,3,4) b in \<open>simp_all add: D\<close>)
qed

lemma settle_inv:
  assumes inv: "outbox_inv cfg st" and c: "c \<in> set (concat (ox_flights st))" and f: "settles cfg c f"
  shows "outbox_inv cfg (st\<lparr>ox_rows := upd_where (owns (cl_id c) (cl_token c)) f (ox_rows st)\<rparr>)"
proof -
  let ?o = "owns (cl_id c) (cl_token c)" and ?rows = "ox_rows st"
  have ok: "row_ok cfg (f r) \<and> dr_id (f r) = dr_id r \<and> ob_event_id (f r) = ob_event_id r \<and> dr_claim_token (f r) = None"
    if "r \<in> set ?rows" "?o r" for r
    using settled_row [OF f _ _ that(2)] inv c that(1) by (auto simp: outbox_inv_def)
  have ids: "map dr_id (upd_where ?o f ?rows) = map dr_id ?rows"
    "map ob_event_id (upd_where ?o f ?rows) = map ob_event_id ?rows"
    using ok by (simp_all add: upd_where_def)
  have "outbox_inv cfg (st\<lparr>ox_rows := upd_where ?o f ?rows, ox_next_token := ox_next_token st, ox_flights := ox_flights st\<rparr>)"
  proof (rule outbox_invI)
    show "distinct (map dr_id (upd_where ?o f ?rows))" "distinct (map ob_event_id (upd_where ?o f ?rows))"
      unfolding ids using inv by (simp_all add: outbox_inv_def)
    show "cl_token k < ox_next_token st" if "k \<in> set (concat (ox_flights st))" for k
      using inv that unfolding outbox_inv_def by blast
    fix x assume "x \<in> set (upd_where ?o f ?rows)"
    then consider r where "r \<in> set ?rows" "?o r" "x = f r" | "x \<in> set ?rows" by (auto simp: set_upd_where)
    note x = this
    show "dr_id x < ox_next_id st \<and> row_ok cfg x \<and> (\<forall>k. dr_claim_token x = Some k \<longrightarrow> k < ox_next_token st)"
      using x by cases (use ok inv in \<open>auto simp: outbox_inv_def\<close>)
    show "claim_agrees k x" if "k \<in> set (concat (ox_flights st))" for k
      using x by cases (use ok inv that in \<open>auto simp: outbox_inv_def claim_agrees_def\<close>)
  qed
  then show ?thesis by simp
qed

text \<open>A whole batch: an invariant of the single finalisations carries over.\<close>

lemma finalize_all_inv:
  assumes "finalize_all cfg now (map (\<lambda>c. (c, deliver c)) b) rows = Some (rows', vs)"
    and "set b \<subseteq> set (concat (ox_flights st))" and "outbox_inv cfg (st\<lparr>ox_rows := rows\<rparr>)"
  shows "outbox_inv cfg (st\<lparr>ox_rows := rows'\<rparr>)"
  using assms
proof (induction b arbitrary: rows vs)
  case (Cons c b)
  from Cons.prems(1) obtain rows1 v vs' where one: "finalize_one cfg (now c) c (deliver c) rows = Some (rows1, v)"
    and rest: "finalize_all cfg now (map (\<lambda>c. (c, deliver c)) b) rows1 = Some (rows', vs')"
    by (auto split: option.splits prod.splits)
  obtain f where f: "settles cfg c f" "rows1 = upd_where (owns (cl_id c) (cl_token c)) f rows"
    using finalize_one_Some [OF one] by blast
  have "outbox_inv cfg (st\<lparr>ox_rows := rows1\<rparr>)"
    using settle_inv [OF Cons.prems(3) _ f(1)] Cons.prems(2) f(2) by simp
  then show ?case using Cons.IH [OF rest] Cons.prems(2) by simp
qed simp

lemma ox_step_inv:
  assumes inv: "outbox_inv cfg st" and "ox_step cfg st st'"
  shows "outbox_inv cfg st'"
  using assms(2)
proof cases
  case (ox_enqueue now endpoint eid event payload)
  then show ?thesis using enqueue_inv [OF inv] by simp
next
  case (ox_claim now locked st1 claims)
  then show ?thesis using claim_inv [OF inv] by simp
next
  case (ox_finalize fs b gs now deliver rows vs)
  have "outbox_inv cfg (st\<lparr>ox_rows := rows\<rparr>)"
    by (rule finalize_all_inv [OF ox_finalize(3)]) (use ox_finalize(2) inv in auto)
  from fewer_inv(2) [OF this, of "fs @ gs"] show ?thesis using ox_finalize(1,2) by auto
next
  case (ox_lost fs b gs)
  then show ?thesis using fewer_inv(2) [OF inv, of "fs @ gs"] by auto
next
  case (ox_purge now days)
  then show ?thesis using fewer_inv(1) [OF inv] by (simp add: purge_old_sent_outbox_def Let_def)
qed

end
