(* ===== verification/DeliveryTheorems.thy ===== *)
theory DeliveryTheorems
  imports DeliveryRuns
begin

section \<open>What the delivery guarantees\<close>

text \<open>
  What is handed over along every run of the workers: rows descend from rows, a token never comes
  back, a settled row stays as it is, an event leaves the table only after it was delivered; the
  retry budget; and a quiet cycle that delivers everything due.
\<close>

definition final :: "delivery_row \<Rightarrow> bool" where
  "final r \<longleftrightarrow> ob_status r = ''sent'' \<or> ob_status r = ''failed''"

text \<open>The same event later.\<close>

definition row_next :: "delivery_row \<Rightarrow> delivery_row \<Rightarrow> bool" where
  "row_next r r' \<longleftrightarrow>
     dr_id r' = dr_id r \<and> ob_event_id r' = ob_event_id r \<and> ob_event r' = ob_event r
     \<and> ob_payload r' = ob_payload r \<and> dr_endpoint r' = dr_endpoint r \<and> dr_created_at r' = dr_created_at r
     \<and> dr_attempts r \<le> dr_attempts r' \<and> (final r \<longrightarrow> r' = r)"

lemma row_next_refl [simp]: "row_next r r"
  by (simp add: row_next_def)

lemma row_next_trans: "row_next a b \<Longrightarrow> row_next b c \<Longrightarrow> row_next a c"
  by (auto simp: row_next_def)

lemma row_next_mark: "claimable now cutoff r \<Longrightarrow> row_next r (mark_claimed now' k r)"
  by (auto simp: row_next_def mark_claimed_def final_def claimable_def)

lemma row_next_settle:
  assumes "settles cfg c f" "claim_agrees c r" "owns (cl_id c) (cl_token c) r"
  shows "row_next r (f r)"
proof -
  have o: "ob_status r = ''in_flight''" "dr_attempts r = cl_attempts c"
    using assms(2,3) by (auto simp: owns_def claim_agrees_def)
  from assms(1) show ?thesis unfolding settles_def
    by (elim disjE exE conjE)
       (use o in \<open>simp_all add: row_next_def final_def back_to_pending_def mark_sent_def mark_failed_def mark_retry_def release_def\<close>)
qed

definition ox_later :: "outbox \<Rightarrow> outbox \<Rightarrow> bool" where
  "ox_later st st' \<longleftrightarrow>
     ox_next_id st \<le> ox_next_id st' \<and> ox_next_token st \<le> ox_next_token st'
     \<and> (\<forall>r'\<in>set (ox_rows st'). dr_id r' < ox_next_id st \<longrightarrow> (\<exists>r\<in>set (ox_rows st). row_next r r'))
     \<and> (\<forall>r'\<in>set (ox_rows st'). \<forall>t. dr_claim_token r' = Some t \<longrightarrow>
          ox_next_token st \<le> t \<or> (\<exists>r\<in>set (ox_rows st). dr_claim_token r = Some t))
     \<and> (\<forall>r\<in>set (ox_rows st). ob_status r = ''failed'' \<longrightarrow> r \<in> set (ox_rows st'))"

lemma ox_later_refl: "ox_later st st"
  by (auto simp: ox_later_def intro: bexI [where P = "\<lambda>r. row_next r _", OF row_next_refl])

lemma ox_later_trans:
  assumes "ox_later a b" "ox_later b c"
  shows "ox_later a c"
  unfolding ox_later_def
proof (intro conjI ballI impI allI)
  show "ox_next_id a \<le> ox_next_id c" "ox_next_token a \<le> ox_next_token c"
    using assms by (auto simp: ox_later_def)
  fix x assume x: "x \<in> set (ox_rows c)"
  show "\<exists>r\<in>set (ox_rows a). row_next r x" if i: "dr_id x < ox_next_id a"
  proof -
    have "dr_id x < ox_next_id b" using i assms(1) by (auto simp: ox_later_def)
    then obtain y where y: "y \<in> set (ox_rows b)" "row_next y x" using assms(2) x by (auto simp: ox_later_def)
    then have "dr_id y < ox_next_id a" using i by (simp add: row_next_def)
    then obtain z where "z \<in> set (ox_rows a)" "row_next z y" using assms(1) y(1) by (auto simp: ox_later_def)
    then show ?thesis using row_next_trans y(2) by blast
  qed
  show "ox_next_token a \<le> t \<or> (\<exists>r\<in>set (ox_rows a). dr_claim_token r = Some t)" if "dr_claim_token x = Some t" for t
  proof -
    have "ox_next_token b \<le> t \<or> (\<exists>r\<in>set (ox_rows b). dr_claim_token r = Some t)"
      using assms(2) x that by (auto simp: ox_later_def)
    then show ?thesis using assms(1) by (auto simp: ox_later_def)
  qed
next
  show "r \<in> set (ox_rows c)" if "r \<in> set (ox_rows a)" "ob_status r = ''failed''" for r
    using assms that by (auto simp: ox_later_def)
qed

text \<open>A step that works row by row.\<close>

lemma ox_later_map:
  assumes rows: "ox_rows st' = map g (ox_rows st)" and "ox_next_id st' = ox_next_id st" "ox_next_token st \<le> ox_next_token st'"
    and g: "\<And>r. r \<in> set (ox_rows st) \<Longrightarrow> row_next r (g r)"
    and t: "\<And>r k. r \<in> set (ox_rows st) \<Longrightarrow> dr_claim_token (g r) = Some k \<Longrightarrow>
      ox_next_token st \<le> k \<or> dr_claim_token r = Some k"
  shows "ox_later st st'"
  unfolding ox_later_def
proof (intro conjI ballI impI allI)
  fix x assume "x \<in> set (ox_rows st')"
  then obtain r where r: "r \<in> set (ox_rows st)" "x = g r" by (auto simp: rows)
  show "\<exists>r\<in>set (ox_rows st). row_next r x" using r g by blast
  show "ox_next_token st \<le> k \<or> (\<exists>r\<in>set (ox_rows st). dr_claim_token r = Some k)" if "dr_claim_token x = Some k" for k
    using t [OF r(1)] r that by blast
next
  fix r assume r: "r \<in> set (ox_rows st)" "ob_status r = ''failed''"
  then have "g r = r" using g [OF r(1)] by (simp add: row_next_def final_def)
  moreover have "g r \<in> set (ox_rows st')" using r(1) by (simp add: rows)
  ultimately show "r \<in> set (ox_rows st')" by simp
qed (use assms in simp_all)

lemma settle_later:
  assumes inv: "outbox_inv cfg st" and c: "c \<in> set (concat (ox_flights st))" and f: "settles cfg c f"
  shows "ox_later st (st\<lparr>ox_rows := upd_where (owns (cl_id c) (cl_token c)) f (ox_rows st)\<rparr>)"
proof (rule ox_later_map)
  let ?o = "owns (cl_id c) (cl_token c)"
  show "ox_rows (st\<lparr>ox_rows := upd_where ?o f (ox_rows st)\<rparr>) = map (\<lambda>r. if ?o r then f r else r) (ox_rows st)"
    by (simp add: upd_where_def)
  fix r assume r: "r \<in> set (ox_rows st)"
  have agree: "row_ok cfg r \<and> claim_agrees c r" using inv c r by (auto simp: outbox_inv_def)
  show "row_next r (if ?o r then f r else r)" using row_next_settle [OF f] agree by simp
  show "ox_next_token st \<le> k \<or> dr_claim_token r = Some k"
    if "dr_claim_token (if ?o r then f r else r) = Some k" for k
    using that settled_row [OF f] agree by (auto split: if_splits)
qed simp_all

lemma claim_later:
  assumes inv: "outbox_inv cfg st" and c: "claim_phase cfg now locked st = (st', claims)"
  shows "ox_later st st'"
proof -
  define records where "records = batch_records cfg now locked st"
  define t where "t = ox_next_token st"
  have d: "distinct (map dr_id (ox_rows st))" using inv by (simp add: outbox_inv_def)
  have st': "st' = st\<lparr>ox_rows := map (tag_row now (tags t records)) (ox_rows st), ox_next_token := t + length records\<rparr>"
    using c claim_phase_eq [OF d, of cfg now locked] by (simp_all add: records_def t_def Let_def)
  have recs: "set records \<subseteq> set (ox_rows st)"
    using batch_records_set [of _ cfg now locked st] by (auto simp: records_def)
  show ?thesis
  proof (rule ox_later_map)
    fix r assume r: "r \<in> set (ox_rows st)"
    show "row_next r (tag_row now (tags t records) r)"
      using inv r recs
    proof (rule tagged_cases [of cfg st r records now t])
      fix k assume k: "tag_row now (tags t records) r = mark_claimed now k r" "r \<in> set records"
      have "claimable now (now - seconds (ds_lease_seconds cfg)) r"
        using batch_records_set k(2) unfolding records_def by blast
      then show ?thesis unfolding k(1) by (rule row_next_mark)
    qed simp
    show "ox_next_token st \<le> k \<or> dr_claim_token r = Some k"
      if "dr_claim_token (tag_row now (tags t records) r) = Some k" for k
      using inv r recs
      by (rule tagged_cases [of cfg st r records now t]) (use that in \<open>auto simp: t_def\<close>)
  qed (simp_all add: st' t_def)
qed

lemma finalize_all_later:
  assumes "finalize_all cfg now (map (\<lambda>c. (c, deliver c)) b) rows = Some (rows', vs)"
    and "set b \<subseteq> set (concat (ox_flights st))" and "outbox_inv cfg (st\<lparr>ox_rows := rows\<rparr>)"
  shows "ox_later (st\<lparr>ox_rows := rows\<rparr>) (st\<lparr>ox_rows := rows'\<rparr>)"
  using assms
proof (induction b arbitrary: rows vs)
  case Nil
  then show ?case by (simp add: ox_later_refl)
next
  case (Cons c b)
  from Cons.prems(1) obtain rows1 v vs' where one: "finalize_one cfg (now c) c (deliver c) rows = Some (rows1, v)"
    and rest: "finalize_all cfg now (map (\<lambda>c. (c, deliver c)) b) rows1 = Some (rows', vs')"
    by (auto split: option.splits prod.splits)
  obtain f where f: "settles cfg c f" "rows1 = upd_where (owns (cl_id c) (cl_token c)) f rows"
    using finalize_one_Some [OF one] by blast
  have inv: "outbox_inv cfg (st\<lparr>ox_rows := rows1\<rparr>)" and later: "ox_later (st\<lparr>ox_rows := rows\<rparr>) (st\<lparr>ox_rows := rows1\<rparr>)"
    using settle_inv [OF Cons.prems(3) _ f(1)] settle_later [OF Cons.prems(3) _ f(1)] Cons.prems(2) f(2) by simp_all
  show ?case using ox_later_trans [OF later Cons.IH [OF rest _ inv]] Cons.prems(2) by simp
qed

lemma ox_step_later:
  assumes inv: "outbox_inv cfg st" and "ox_step cfg st st'"
  shows "ox_later st st'"
  using assms(2)
proof cases
  case (ox_enqueue now endpoint eid event payload)
  have "dr_id x < ox_next_id st" if "x \<in> set (ox_rows st)" for x using inv that by (auto simp: outbox_inv_def)
  then show ?thesis
    using ox_enqueue by (auto simp: ox_later_def enqueue_def intro: bexI [where P = "\<lambda>r. row_next r _", OF row_next_refl])
next
  case (ox_claim now locked st1 claims)
  then show ?thesis using claim_later [OF inv ox_claim(2)] by (simp add: ox_later_def)
next
  case (ox_finalize fs b gs now deliver rows vs)
  have "ox_later (st\<lparr>ox_rows := ox_rows st\<rparr>) (st\<lparr>ox_rows := rows\<rparr>)"
    by (rule finalize_all_later [OF ox_finalize(3)]) (use ox_finalize(2) inv in auto)
  then show ?thesis using ox_finalize(1) by (simp add: ox_later_def)
next
  case (ox_lost fs b gs)
  then show ?thesis using ox_later_refl [of st] by (simp add: ox_later_def)
next
  case (ox_purge now days)
  then show ?thesis
    by (auto simp: ox_later_def purge_old_sent_outbox_def Let_def intro: bexI [where P = "\<lambda>r. row_next r _", OF row_next_refl])
qed

interpretation delivery: evolving "(=) empty_outbox" "ox_step cfg" "outbox_inv cfg" ox_later for cfg
proof unfold_locales
  show "outbox_inv cfg st" if "empty_outbox = st" for cfg st
    using that by (auto simp: empty_outbox_def outbox_inv_def)
  show "outbox_inv cfg st'" if "outbox_inv cfg st" "ox_step cfg st st'" for cfg st st'
    using that by (rule ox_step_inv)
  show "ox_later st st" for st by (rule ox_later_refl)
  show "ox_later a c" if "ox_later a b" "ox_later b c" for a b c using that by (rule ox_later_trans)
  show "ox_later st st'" if "outbox_inv cfg st" "ox_step cfg st st'" for cfg st st' using that by (rule ox_step_later)
qed

text \<open>An event leaves the table in a step only when it was delivered.\<close>

lemma ox_step_keeps:
  assumes inv: "outbox_inv cfg st" and step: "ox_step cfg st st'" and r: "r \<in> set (ox_rows st)" "ob_status r \<noteq> ''sent''"
  shows "\<exists>r'\<in>set (ox_rows st'). dr_id r' = dr_id r"
proof -
  have fin: "map dr_id rows' = map dr_id rows"
    if "finalize_all cfg now (map (\<lambda>c. (c, deliver c)) b) rows = Some (rows', vs)" for now deliver b rows rows' vs
    using that
  proof (induction b arbitrary: rows vs)
    case (Cons c b)
    then obtain rows1 v vs' where one: "finalize_one cfg (now c) c (deliver c) rows = Some (rows1, v)"
      and rest: "finalize_all cfg now (map (\<lambda>c. (c, deliver c)) b) rows1 = Some (rows', vs')"
      by (auto split: option.splits prod.splits)
    obtain f where f: "settles cfg c f" "rows1 = upd_where (owns (cl_id c) (cl_token c)) f rows"
      using finalize_one_Some [OF one] by blast
    have "dr_id (f x) = dr_id x" for x
      using f(1) by (auto simp: settles_def back_to_pending_def mark_sent_def mark_failed_def mark_retry_def release_def)
    then have "map dr_id rows1 = map dr_id rows" by (simp add: f(2) upd_where_def)
    then show ?case using Cons.IH [OF rest] by simp
  qed simp
  have "dr_id r \<in> set (map dr_id (ox_rows st'))"
    using step
  proof cases
    case (ox_enqueue now endpoint eid event payload)
    then show ?thesis using r by (auto simp: enqueue_def)
  next
    case (ox_claim now locked st1 claims)
    have "distinct (map dr_id (ox_rows st))" using inv by (simp add: outbox_inv_def)
    from claim_phase_eq [OF this, of cfg now locked] ox_claim have "map dr_id (ox_rows st') = map dr_id (ox_rows st)"
      by (auto simp: Let_def)
    then show ?thesis using r by simp
  next
    case (ox_finalize fs b gs now deliver rows vs)
    then show ?thesis using fin [OF ox_finalize(3)] r by simp
  next
    case (ox_lost fs b gs)
    then show ?thesis using r by simp
  next
    case (ox_purge now days)
    then show ?thesis using r by (auto simp: purge_old_sent_outbox_def Let_def)
  qed
  then show ?thesis by auto
qed

subsection \<open>A quiet cycle\<close>

lemma finalize_all_sent:
  "finalize_all cfg (\<lambda>_. now) (map (\<lambda>c. (c, Inr (Response 200 None))) b) rows =
     Some (map (\<lambda>r. if list_ex (\<lambda>c. owns (cl_id c) (cl_token c) r) b then mark_sent now r else r) rows,
       snd (the (finalize_all cfg (\<lambda>_. now) (map (\<lambda>c. (c, Inr (Response 200 None))) b) rows)))"
proof (induction b arbitrary: rows)
  case (Cons c b)
  let ?rows = "upd_where (owns (cl_id c) (cl_token c)) (mark_sent now) rows"
  have one: "\<exists>v. finalize_one cfg now c (Inr (Response 200 None)) rows = Some (?rows, v)"
    by (simp add: finalize_one_def send_webhook_def finalize_row_def Let_def)
  have "\<not> owns i k (mark_sent now r)" for i k r by (simp add: owns_def mark_sent_def release_def)
  then have "map (\<lambda>r. if list_ex (\<lambda>c. owns (cl_id c) (cl_token c) r) b then mark_sent now r else r) ?rows
      = map (\<lambda>r. if list_ex (\<lambda>c. owns (cl_id c) (cl_token c) r) (c # b) then mark_sent now r else r) rows"
    by (auto simp: upd_where_def list_ex_iff)
  moreover obtain vs where "finalize_all cfg (\<lambda>_. now) (map (\<lambda>c. (c, Inr (Response 200 None))) b) ?rows =
      Some (map (\<lambda>r. if list_ex (\<lambda>c. owns (cl_id c) (cl_token c) r) b then mark_sent now r else r) ?rows, vs)"
    using Cons.IH [of ?rows] by blast
  ultimately show ?case using one by auto
qed simp

definition due_rows :: "delivery_settings \<Rightarrow> instant \<Rightarrow> outbox \<Rightarrow> delivery_row list" where
  "due_rows cfg now st = filter (claimable now (now - seconds (ds_lease_seconds cfg))) (ox_rows st)"

lemma tags_member:
  assumes "distinct (map dr_id records)" "r \<in> set records"
  shows "\<exists>k. map_of (tags t records) (dr_id r) = Some k"
proof -
  have "map_of (tags t records) (dr_id r) \<noteq> None"
    unfolding tags_def using assms(2) by (subst map_of_zip_is_None) (simp_all del: upt_Suc)
  then show ?thesis by blast
qed

text \<open>One batch of a quiet cycle: its rows are sent, the others as they were.\<close>

lemma quiet_batch:
  assumes inv: "outbox_inv cfg st" and c: "claim_phase cfg now [] st = (st1, claims)"
    and records: "records = batch_records cfg now [] st"
  shows "length claims = length records"
    and "\<exists>vs. finalize_all cfg (\<lambda>_. fin) (map (\<lambda>c. (c, Inr (Response 200 None))) claims) (ox_rows st1) =
      Some (map (\<lambda>r. if r \<in> set records then mark_sent fin (tag_row now (tags (ox_next_token st) records) r) else r) (ox_rows st), vs)"
proof -
  define t where "t = ox_next_token st"
  have d: "distinct (map dr_id (ox_rows st))" using inv by (simp add: outbox_inv_def)
  have dr: "distinct (map dr_id records)" unfolding records by (rule batch_records_distinct [OF d])
  have st1: "ox_rows st1 = map (tag_row now (tags t records)) (ox_rows st)"
    and claims: "claims = map (\<lambda>(k, r). claim_of k r) (zip [t..<t + length records] records)"
    using c claim_phase_eq [OF d, of cfg now "[]"] by (auto simp: records t_def Let_def)
  show "length claims = length records" by (simp add: claims)
  have recs: "set records \<subseteq> set (ox_rows st)"
    using batch_records_set [of _ cfg now "[]" st] by (auto simp: records)
  have own: "list_ex (\<lambda>c. owns (cl_id c) (cl_token c) (tag_row now (tags t records) r)) claims \<longleftrightarrow> r \<in> set records"
    if r: "r \<in> set (ox_rows st)" for r
  proof
    assume rr: "r \<in> set records"
    obtain k where k: "map_of (tags t records) (dr_id r) = Some k" using tags_member [OF dr rr] by blast
    from inv r recs show "list_ex (\<lambda>c. owns (cl_id c) (cl_token c) (tag_row now (tags t records) r)) claims"
    proof (rule tagged_cases [of cfg st r records now t])
      assume "tag_row now (tags t records) r = r"
      then have "mark_claimed now k r = r" using k by (simp add: tag_row_def)
      then have "dr_claim_count (mark_claimed now k r) = dr_claim_count r" by simp
      then show ?thesis by (simp add: mark_claimed_def)
    next
      fix j assume j: "tag_row now (tags t records) r = mark_claimed now j r"
        "(j, r) \<in> set (zip [t..<t + length records] records)"
      have "claim_of j r \<in> set claims" using j(2) by (force simp: claims)
      then show ?thesis unfolding j(1) list_ex_iff
        by (intro bexI [of _ "claim_of j r"]) (simp_all add: owns_def claim_of_def mark_claimed_def)
    qed
  next
    assume "list_ex (\<lambda>c. owns (cl_id c) (cl_token c) (tag_row now (tags t records) r)) claims"
    then obtain k where k: "t \<le> k" "dr_claim_token (tag_row now (tags t records) r) = Some k"
      by (auto simp: list_ex_iff claims owns_def claim_of_def set_zip)
    from inv r recs show "r \<in> set records"
      by (rule tagged_cases [of cfg st r records now t]) (use k inv r in \<open>auto simp: outbox_inv_def t_def\<close>)
  qed
  have "map (\<lambda>r. if list_ex (\<lambda>c. owns (cl_id c) (cl_token c) r) claims then mark_sent fin r else r) (ox_rows st1)
      = map (\<lambda>r. if r \<in> set records then mark_sent fin (tag_row now (tags t records) r) else r) (ox_rows st)"
    unfolding st1 map_map
  proof (rule map_cong [OF refl])
    fix r assume r: "r \<in> set (ox_rows st)"
    have "tag_row now (tags t records) r = r" if "r \<notin> set records"
      using inv r recs by (rule tagged_cases [of cfg st r records now t]) (use that in auto)
    then show "((\<lambda>r. if list_ex (\<lambda>c. owns (cl_id c) (cl_token c) r) claims then mark_sent fin r else r) \<circ> tag_row now (tags t records)) r
        = (if r \<in> set records then mark_sent fin (tag_row now (tags t records) r) else r)"
      using own [OF r] by simp
  qed
  then show "\<exists>vs. finalize_all cfg (\<lambda>_. fin) (map (\<lambda>c. (c, Inr (Response 200 None))) claims) (ox_rows st1) =
      Some (map (\<lambda>r. if r \<in> set records then mark_sent fin (tag_row now (tags (ox_next_token st) records) r) else r) (ox_rows st), vs)"
    using finalize_all_sent [of cfg fin claims "ox_rows st1"] unfolding t_def by auto
qed

lemma due_after_batch:
  assumes inv: "outbox_inv cfg st" and records: "records = batch_records cfg now [] st"
    and rows: "ox_rows st2 = map (\<lambda>r. if r \<in> set records then mark_sent fin (tag_row now T r) else r) (ox_rows st)"
  shows "length (due_rows cfg now st2) = length (due_rows cfg now st) - ds_claim_batch cfg"
    and "length records = min (ds_claim_batch cfg) (length (due_rows cfg now st))"
proof -
  let ?C = "claimable now (now - seconds (ds_lease_seconds cfg))"
  have len: "length records = min (ds_claim_batch cfg) (length (due_rows cfg now st))"
    by (simp add: records batch_records_def claimable_stmt_def due_rows_def min.commute)
  then show "length records = min (ds_claim_batch cfg) (length (due_rows cfg now st))" .
  have "\<not> ?C (mark_sent fin r)" for r by (simp add: claimable_def mark_sent_def)
  then have "length (due_rows cfg now st2) = length (filter (\<lambda>r. ?C r \<and> r \<notin> set records) (ox_rows st))"
    unfolding due_rows_def rows filter_map length_map
    by (intro arg_cong [of _ _ length] filter_cong) auto
  also have "\<dots> = card (set (due_rows cfg now st) - set records)"
  proof -
    have "distinct (ox_rows st)" using inv by (simp add: outbox_inv_def distinct_map)
    then have "length (filter (\<lambda>r. ?C r \<and> r \<notin> set records) (ox_rows st)) = card (set (filter (\<lambda>r. ?C r \<and> r \<notin> set records) (ox_rows st)))"
      by (intro distinct_card [symmetric] distinct_filter)
    also have "set (filter (\<lambda>r. ?C r \<and> r \<notin> set records) (ox_rows st)) = set (due_rows cfg now st) - set records"
      by (auto simp: due_rows_def)
    finally show ?thesis .
  qed
  also have "\<dots> = card (set (due_rows cfg now st)) - card (set records)"
  proof (rule card_Diff_subset)
    show "set records \<subseteq> set (due_rows cfg now st)"
      using batch_records_set [of _ cfg now "[]" st] by (auto simp: records due_rows_def)
  qed simp
  also have "card (set (due_rows cfg now st)) = length (due_rows cfg now st)"
  proof (rule distinct_card)
    show "distinct (due_rows cfg now st)" using inv by (simp add: due_rows_def outbox_inv_def distinct_map)
  qed
  also have "card (set records) = length records"
    using batch_records_distinct [of st cfg now "[]"] inv by (simp add: records outbox_inv_def distinct_map distinct_card)
  finally show "length (due_rows cfg now st2) = length (due_rows cfg now st) - ds_claim_batch cfg"
    using len by simp
qed

definition quiet :: "instant \<Rightarrow> instant \<Rightarrow> batch_env" where
  "quiet now fin = \<lparr>be_now = now, be_locked = [], be_deliver = (\<lambda>_. Inr (Response 200 None)), be_done = (\<lambda>_. fin)\<rparr>"

definition sent_in :: "outbox \<Rightarrow> int \<Rightarrow> bool" where
  "sent_in st i \<longleftrightarrow> (\<exists>r\<in>set (ox_rows st). dr_id r = i \<and> ob_status r = ''sent'')"

text \<open>\<open>cleared_by\<close>: all rows are still there, the sent and the due ones sent.\<close>

definition cleared_by :: "delivery_settings \<Rightarrow> instant \<Rightarrow> outbox \<Rightarrow> outbox \<Rightarrow> bool" where
  "cleared_by cfg now st st' \<longleftrightarrow>
     (\<forall>r\<in>set (ox_rows st). ob_status r = ''sent'' \<or> r \<in> set (due_rows cfg now st) \<longrightarrow> sent_in st' (dr_id r))"

lemma quiet_batches:
  assumes "outbox_inv cfg st" "1 \<le> ds_claim_batch cfg" "length (due_rows cfg now st) \<le> ds_claim_batch cfg * n"
  shows "\<exists>st' vs. outbox_batches cfg (replicate n (quiet now fin)) st tally = ((st', vs), True) \<and> cleared_by cfg now st st'"
  using assms(1,3)
proof (induction n arbitrary: st tally)
  case 0
  then show ?case by (auto simp: cleared_by_def sent_in_def)
next
  case (Suc n)
  note inv = Suc.prems(1)
  obtain st1 claims where c: "claim_phase cfg now [] st = (st1, claims)" by fastforce
  define records where "records = batch_records cfg now [] st"
  define T where "T = tags (ox_next_token st) records"
  define rows where "rows = map (\<lambda>r. if r \<in> set records then mark_sent fin (tag_row now T r) else r) (ox_rows st)"
  define st2 where "st2 = st1\<lparr>ox_rows := rows\<rparr>"
  have len: "length claims = length records" by (rule quiet_batch(1) [OF inv c records_def])
  obtain vs where f: "finalize_all cfg (\<lambda>_. fin) (map (\<lambda>c. (c, Inr (Response 200 None))) claims) (ox_rows st1) = Some (rows, vs)"
    using quiet_batch(2) [OF inv c records_def, of fin] unfolding rows_def T_def by blast
  have r2: "ox_rows st2 = map (\<lambda>r. if r \<in> set records then mark_sent fin (tag_row now T r) else r) (ox_rows st)"
    by (simp add: st2_def rows_def)
  note due = due_after_batch [OF inv records_def r2]
  have inv1: "outbox_inv cfg (st1\<lparr>ox_flights := ox_flights st1 @ [claims]\<rparr>)" by (rule claim_inv [OF inv c])
  have "outbox_inv cfg ((st1\<lparr>ox_flights := ox_flights st1 @ [claims]\<rparr>)\<lparr>ox_rows := rows\<rparr>)"
    by (rule finalize_all_inv [OF f]) (use inv1 in auto)
  from fewer_inv(2) [OF this, of "ox_flights st1"] have inv2: "outbox_inv cfg st2" by (simp add: st2_def)
  have step: "cleared_by cfg now st st'" if "cleared_by cfg now st2 st'" for st'
    unfolding cleared_by_def
  proof (intro ballI impI)
    fix r assume r: "r \<in> set (ox_rows st)" "ob_status r = ''sent'' \<or> r \<in> set (due_rows cfg now st)"
    define y where "y = (if r \<in> set records then mark_sent fin (tag_row now T r) else r)"
    have m: "y \<in> set (ox_rows st2)" using r(1) by (auto simp: r2 y_def)
    have i: "dr_id y = dr_id r" by (simp add: y_def mark_sent_def release_def)
    have "ob_status y = ''sent'' \<or> y \<in> set (due_rows cfg now st2)"
      using r(2) m by (auto simp: y_def mark_sent_def due_rows_def)
    then have "sent_in st' (dr_id y)" using that m unfolding cleared_by_def by blast
    then show "sent_in st' (dr_id r)" unfolding i .
  qed
  have none: "cleared_by cfg now st2 st2" if "due_rows cfg now st2 = []"
    using that by (auto simp: cleared_by_def sent_in_def)
  show ?case
  proof (cases "claims = []")
    case True
    then have "due_rows cfg now st = []" using len due(2) assms(2) by (auto simp: min_def split: if_splits)
    then show ?thesis using c True by (auto simp: quiet_def cleared_by_def sent_in_def)
  next
    case False
    show ?thesis
    proof (cases "length claims < ds_claim_batch cfg")
      case True
      then have "due_rows cfg now st2 = []" using len due by (auto simp: min_def split: if_splits)
      from step [OF none [OF this]] show ?thesis
        using c f False True by (auto simp: quiet_def st2_def)
    next
      case full: False
      have "length (due_rows cfg now st2) \<le> ds_claim_batch cfg * n" using Suc.prems(2) due(1) by simp
      from Suc.IH [OF inv2 this] obtain st' vs' where
        "outbox_batches cfg (replicate n (quiet now fin)) st2 (tally @ vs) = ((st', vs'), True)" "cleared_by cfg now st2 st'"
        by blast
      then show ?thesis using step c f False full by (auto simp: quiet_def st2_def)
    qed
  qed
qed

subsection \<open>A cycle is a run\<close>

lemma batches_run:
  assumes "outbox_batches cfg es st tally = ((st', vs), ok)"
  shows "(ox_step cfg)\<^sup>*\<^sup>* st st'"
  using assms
proof (induction es arbitrary: st tally)
  case (Cons e es)
  obtain st1 claims where c: "claim_phase cfg (be_now e) (be_locked e) st = (st1, claims)" by fastforce
  let ?st1 = "st1\<lparr>ox_flights := ox_flights st1 @ [claims]\<rparr>"
  have s1: "ox_step cfg st ?st1" by (rule ox_claim [OF c])
  have fl: "ox_flights ?st1 = ox_flights st1 @ claims # []" by simp
  have lost: "ox_step cfg ?st1 st1" using ox_lost [OF fl, of cfg] by simp
  let ?f = "finalize_all cfg (be_done e) (map (\<lambda>c. (c, be_deliver e c)) claims) (ox_rows st1)"
  have fin_run: "(ox_step cfg)\<^sup>*\<^sup>* st (st1\<lparr>ox_rows := rows\<rparr>)" if "?f = Some (rows, v)" for rows v
  proof -
    have "ox_step cfg ?st1 (st1\<lparr>ox_rows := rows\<rparr>)"
      using ox_finalize [OF fl, of cfg "be_done e" "be_deliver e" rows v] that by simp
    then show ?thesis using s1 by (meson converse_rtranclp_into_rtranclp r_into_rtranclp)
  qed
  have none: "(ox_step cfg)\<^sup>*\<^sup>* st st1" using s1 lost by (meson converse_rtranclp_into_rtranclp r_into_rtranclp)
  show ?case
  proof (cases "claims = []")
    case True
    then show ?thesis using Cons.prems c by simp
  next
    case False
    show ?thesis
    proof (cases ?f)
      case None
      then show ?thesis using Cons.prems c False none by simp
    next
      case (Some p)
      then obtain rows v where p: "?f = Some (rows, v)" by (cases p) auto
      show ?thesis
      proof (cases "length claims < ds_claim_batch cfg")
        case True
        then show ?thesis using Cons.prems c False p fin_run [OF p] by simp
      next
        case full: False
        then have "outbox_batches cfg es (st1\<lparr>ox_rows := rows\<rparr>) (tally @ v) = ((st', vs), ok)"
          using Cons.prems c False p by simp
        from Cons.IH [OF this] show ?thesis using fin_run [OF p] by (rule rtranclp_trans [rotated])
      qed
    qed
  qed
qed simp

lemma process_outbox_run: "process_outbox cfg envs st = ((st', vs), ok) \<Longrightarrow> (ox_step cfg)\<^sup>*\<^sup>* st st'"
  by (auto simp: process_outbox_def split: if_splits dest: batches_run)

subsection \<open>A small outbox\<close>

definition ex_ds :: delivery_settings where
  "ex_ds = \<lparr>ds_enabled = True, ds_url = ''http://x/'', ds_secret = ''k'', ds_secret_next = '''', ds_use_next = False,
     ds_max_retries = 3, ds_claim_batch = 10, ds_lease_seconds = 200\<rparr>"

definition ex_event :: request_payload where
  "ex_event = \<lparr>rp_event_id = ''e1'', rp_event = ''request.created'', rp_timestamp = 0, rp_request = [], rp_repair = False\<rparr>"

definition ex_event_row :: "string \<Rightarrow> instant option \<Rightarrow> nat option \<Rightarrow> instant option \<Rightarrow> nat \<Rightarrow> delivery_row" where
  "ex_event_row status sent token claimed n =
     \<lparr>ob_event_id = ''e1'', ob_event = ''request.created'', ob_payload = ex_event, ob_status = status, dr_id = 1,
      dr_endpoint = ''/e'', dr_attempts = 0, dr_last_error = None, dr_retry_after = None, dr_created_at = 5,
      dr_sent_at = sent, dr_claim_token = token, dr_claimed_at = claimed, dr_claim_count = n\<rparr>"

definition ex_claim :: claim where
  "ex_claim = \<lparr>cl_id = 1, cl_token = 0, cl_endpoint = ''/e'', cl_payload = ex_event, cl_attempts = 0, cl_event_id = ''e1''\<rparr>"

definition ex_queued :: outbox where
  "ex_queued = \<lparr>ox_rows = [ex_event_row ''pending'' None None None 0], ox_next_id = 2, ox_next_token = 0, ox_flights = []\<rparr>"

definition ex_flying :: outbox where
  "ex_flying = \<lparr>ox_rows = [ex_event_row ''in_flight'' None (Some 0) (Some 7) 1], ox_next_id = 2, ox_next_token = 1,
     ox_flights = [[ex_claim]]\<rparr>"

definition ex_sent :: outbox where
  "ex_sent = \<lparr>ox_rows = [ex_event_row ''sent'' (Some 9) None None 1], ox_next_id = 2, ox_next_token = 1, ox_flights = []\<rparr>"

lemma ex_outbox_steps:
  "enqueue 5 ''/e'' ''e1'' ''request.created'' ex_event empty_outbox = ex_queued"
  "claim_phase ex_ds 7 [] ex_queued = (ex_flying\<lparr>ox_flights := []\<rparr>, [ex_claim])"
  "finalize_all ex_ds (\<lambda>_. 9) [(ex_claim, Inr (Response 200 None))] (ox_rows ex_flying) = Some (ox_rows ex_sent, [Was_sent])"
  "fst (purge_old_sent_outbox 2592000000099 30 ex_sent) = ex_sent\<lparr>ox_rows := []\<rparr>"
  by code_simp+

lemma ex_queued_step: "ox_step ex_ds ex_queued ex_flying"
  using ox_claim [OF ex_outbox_steps(2)] by (simp add: ex_flying_def)

lemma ex_flying_step: "ox_step ex_ds ex_flying ex_sent"
proof -
  have "ox_flights ex_flying = [] @ [ex_claim] # []" by (simp add: ex_flying_def)
  from ox_finalize [OF this, of ex_ds "\<lambda>_. 9" "\<lambda>_. Inr (Response 200 None)"] ex_outbox_steps(3)
  show ?thesis by (simp add: ex_flying_def ex_sent_def)
qed

subsection \<open>Properties\<close>

definition ox_reach :: "delivery_settings \<Rightarrow> outbox \<Rightarrow> bool" where
  "ox_reach cfg = reach ((=) empty_outbox) (ox_step cfg)"

lemma ox_reach_inv: "ox_reach cfg st \<Longrightarrow> outbox_inv cfg st"
  unfolding ox_reach_def by (rule delivery.inv_reach)

lemma ox_run_later:
  assumes "outbox_inv cfg st" "(ox_step cfg)\<^sup>*\<^sup>* st st'"
  shows "ox_later st st' \<and> outbox_inv cfg st'"
  by (rule delivery.later_run [OF assms(2,1)])

lemma ex_queued_reach: "ox_reach cfg ex_queued"
proof -
  have "ox_reach cfg empty_outbox" unfolding ox_reach_def by (rule reach_init) simp
  from this [unfolded ox_reach_def] ox_enqueue [of cfg empty_outbox 5 "''/e''" "''e1''" "''request.created''" ex_event]
  show ?thesis unfolding ox_reach_def ex_outbox_steps by (rule reach_step)
qed

lemma ex_flying_reach: "ox_reach ex_ds ex_flying"
  using ex_queued_reach [of ex_ds] ex_queued_step unfolding ox_reach_def by (rule reach_step)

lemma ex_sent_reach: "ox_reach ex_ds ex_sent"
  using ex_flying_reach ex_flying_step unfolding ox_reach_def by (rule reach_step)

text \<open>Along every run of any number of workers, with crashes and the retention job, a row that was
  sent or has failed is settled: whenever the table still has a row of that id it is the same row, and
  a failed row is always still there.\<close>

theorem settled_delivery_is_final:
  assumes "ox_reach cfg st" "(ox_step cfg)\<^sup>*\<^sup>* st st'" "r \<in> set (ox_rows st)" "ob_status r = ''sent'' \<or> ob_status r = ''failed''"
  shows "list_all (\<lambda>r'. dr_id r' = dr_id r \<longrightarrow> r' = r) (ox_rows st') \<and> (ob_status r = ''failed'' \<longrightarrow> r \<in> set (ox_rows st'))"
proof -
  note inv = ox_reach_inv [OF assms(1)]
  have later: "ox_later st st'" using ox_run_later [OF inv assms(2)] by blast
  have "r' = r" if r': "r' \<in> set (ox_rows st')" "dr_id r' = dr_id r" for r'
  proof -
    have "dr_id r' < ox_next_id st" using inv assms(3) r'(2) by (auto simp: outbox_inv_def)
    then obtain x where x: "x \<in> set (ox_rows st)" "row_next x r'" using later r'(1) by (auto simp: ox_later_def)
    have "x = r"
    proof (rule inj_onD)
      show "inj_on dr_id (set (ox_rows st))" using inv by (simp add: outbox_inv_def distinct_map)
      show "dr_id x = dr_id r" using x(2) r'(2) by (simp add: row_next_def)
    qed (use x assms(3) in simp_all)
    then show ?thesis using x(2) assms(4) by (simp add: row_next_def final_def)
  qed
  then show ?thesis using later assms(3) by (auto simp: list_all_iff ox_later_def)
qed

theorem settled_delivery_is_final_witness:
  "list_all (\<lambda>r'. dr_id r' = 1 \<longrightarrow> r' = ex_event_row ''sent'' (Some 9) None None 1) (ox_rows ex_sent)"
proof -
  let ?r = "ex_event_row ''sent'' (Some 9) None None 1"
  have m: "?r \<in> set (ox_rows ex_sent)" by (simp add: ex_sent_def)
  have s: "ob_status ?r = ''sent''" and i: "dr_id ?r = 1" by (simp_all add: ex_event_row_def)
  from settled_delivery_is_final [OF ex_sent_reach rtranclp.rtrancl_refl m disjI1 [OF s]]
  show ?thesis unfolding i by (rule conjunct1)
qed

text \<open>C28: no event is lost: an event's row leaves the table only after the event was delivered, in every run
  there was a moment at which the row stood there as sent.\<close>

theorem no_event_lost:
  assumes "ox_reach cfg st" "(ox_step cfg)\<^sup>*\<^sup>* st st'" "r \<in> set (ox_rows st)"
  shows "(\<exists>r'\<in>set (ox_rows st'). dr_id r' = dr_id r)
     \<or> (\<exists>s. (ox_step cfg)\<^sup>*\<^sup>* st s \<and> (ox_step cfg)\<^sup>*\<^sup>* s st' \<and> sent_in s (dr_id r))"
  using assms(2)
proof (induction rule: rtranclp_induct)
  case base
  then show ?case using assms(3) by blast
next
  case (step y z)
  show ?case
  proof (cases "\<exists>r'\<in>set (ox_rows y). dr_id r' = dr_id r")
    case True
    then obtain r' where r': "r' \<in> set (ox_rows y)" "dr_id r' = dr_id r" by blast
    have inv: "outbox_inv cfg y" using ox_run_later [OF ox_reach_inv [OF assms(1)] step.hyps(1)] by blast
    show ?thesis
    proof (cases "ob_status r' = ''sent''")
      case True
      then have "sent_in y (dr_id r)" using r' by (auto simp: sent_in_def)
      then show ?thesis using step.hyps by blast
    next
      case False
      then show ?thesis using ox_step_keeps [OF inv step.hyps(2) r'(1)] r'(2) by simp
    qed
  next
    case False
    then obtain s where "(ox_step cfg)\<^sup>*\<^sup>* st s" "(ox_step cfg)\<^sup>*\<^sup>* s y" "sent_in s (dr_id r)" using step.IH by blast
    then show ?thesis using step.hyps(2) by (meson rtranclp.rtrancl_into_rtrancl)
  qed
qed

theorem no_event_lost_witness:
  "\<exists>s. (ox_step ex_ds)\<^sup>*\<^sup>* ex_queued s \<and> sent_in s 1"
proof -
  have "ox_step ex_ds ex_sent (ex_sent\<lparr>ox_rows := []\<rparr>)"
    using ox_purge [of ex_ds ex_sent 2592000000099 30] unfolding ex_outbox_steps .
  then have run: "(ox_step ex_ds)\<^sup>*\<^sup>* ex_queued (ex_sent\<lparr>ox_rows := []\<rparr>)"
    using ex_queued_step ex_flying_step by (meson converse_rtranclp_into_rtranclp rtranclp.rtrancl_refl)
  have "ex_event_row ''pending'' None None None 0 \<in> set (ox_rows ex_queued)" by (simp add: ex_queued_def)
  from no_event_lost [OF ex_queued_reach run this] show ?thesis by (auto simp: ex_event_row_def)
qed

text \<open>The retry budget holds in every reachable state: the count of confirmed failures never exceeds the
  maximum (at least one attempt), and a row that is still to be delivered has budget left, so no
  event is tried for ever on answers of the receiver.\<close>

theorem retry_budget_kept:
  assumes "ox_reach cfg st" "r \<in> set (ox_rows st)"
  shows "dr_attempts r \<le> max 1 (ds_max_retries cfg)
     \<and> (ob_status r = ''pending'' \<or> ob_status r = ''in_flight'' \<longrightarrow> dr_attempts r < max 1 (ds_max_retries cfg))
     \<and> (dr_claim_token r \<noteq> None \<longleftrightarrow> ob_status r = ''in_flight'')"
proof -
  have "row_ok cfg r" using ox_reach_inv [OF assms(1)] assms(2) by (auto simp: outbox_inv_def)
  then show ?thesis by (auto simp: row_ok_def budget_def)
qed

theorem retry_budget_kept_witness: "dr_attempts (ex_event_row ''in_flight'' None (Some 0) (Some 7) 1) < 3"
proof -
  have "ex_event_row ''in_flight'' None (Some 0) (Some 7) 1 \<in> set (ox_rows ex_flying)" by (simp add: ex_flying_def)
  from retry_budget_kept [OF ex_flying_reach this] show ?thesis by (simp add: ex_event_row_def ex_ds_def)
qed

text \<open>C27: a claim settles its row at most once: after its outcome was written (or discarded) any other outcome
  of the same claim is discarded, at once and at any later time, so that the outcome of an attempt whose
  lease ran out can never overwrite that of the worker that took over.\<close>

theorem claim_settles_once:
  assumes "ox_reach cfg st" "c \<in> set (concat (ox_flights st))"
    and "finalize_one cfg now c d (ox_rows st) = Some (rows1, v1)"
    and "(ox_step cfg)\<^sup>*\<^sup>* (st\<lparr>ox_rows := rows1\<rparr>) st'"
    and "finalize_one cfg now' c d' (ox_rows st') = Some (rows2, v2)"
  shows "rows2 = ox_rows st' \<and> v2 = Was_stale"
proof -
  note inv = ox_reach_inv [OF assms(1)]
  obtain f where f: "settles cfg c f" "rows1 = upd_where (owns (cl_id c) (cl_token c)) f (ox_rows st)"
    using finalize_one_Some [OF assms(3)] by blast
  have inv1: "outbox_inv cfg (st\<lparr>ox_rows := rows1\<rparr>)" using settle_inv [OF inv assms(2) f(1)] f(2) by simp
  have tok: "cl_token c < ox_next_token st" using inv assms(2) unfolding outbox_inv_def by blast
  have row: "row_ok cfg r \<and> claim_agrees c r" if "r \<in> set (ox_rows st)" for r
    using inv assms(2) that by (auto simp: outbox_inv_def)
  have "dr_claim_token x \<noteq> Some (cl_token c)" if x: "x \<in> set rows1" for x
  proof -
    consider r where "r \<in> set (ox_rows st)" "owns (cl_id c) (cl_token c) r" "x = f r"
      | "x \<in> set (ox_rows st)" "\<not> owns (cl_id c) (cl_token c) x"
      using x by (auto simp: f(2) set_upd_where)
    then show ?thesis
    proof cases
      case 1
      then show ?thesis using settled_row [OF f(1)] row [OF 1(1)] by auto
    next
      case 2
      then show ?thesis using row [OF 2(1)] by (auto simp: owns_def claim_agrees_def row_ok_def)
    qed
  qed
  then have "dr_claim_token x \<noteq> Some (cl_token c)" if "x \<in> set (ox_rows st')" for x
    using ox_run_later [OF inv1 assms(4)] that tok by (fastforce simp: ox_later_def)
  then have z: "\<forall>x\<in>set (ox_rows st'). \<not> owns (cl_id c) (cl_token c) x" by (auto simp: owns_def)
  then have "row_count (owns (cl_id c) (cl_token c)) (ox_rows st') = 0" by (simp add: row_count_zero_iff)
  then show ?thesis using finalize_one_Some [OF assms(5)] by (auto simp: upd_where_none)
qed

theorem claim_settles_once_witness:
  "finalize_one ex_ds 9 ex_claim (Inr (Response 500 None)) (ox_rows ex_sent) = Some (ox_rows ex_sent, Was_stale)"
proof -
  have c: "ex_claim \<in> set (concat (ox_flights ex_flying))" by (simp add: ex_flying_def)
  have one: "finalize_one ex_ds 9 ex_claim (Inr (Response 200 None)) (ox_rows ex_flying) = Some (ox_rows ex_sent, Was_sent)"
    by code_simp
  obtain rows v where two: "finalize_one ex_ds 9 ex_claim (Inr (Response 500 None)) (ox_rows ex_sent) = Some (rows, v)"
    by (simp add: finalize_one_def send_webhook_def finalize_row_def Let_def ex_ds_def ex_claim_def
        retry_delay_def backoff_delays_def max_timedelta_seconds_def max_datetime_def seconds_def)
  have same: "ox_rows (ex_flying\<lparr>ox_rows := ox_rows ex_sent\<rparr>) = ox_rows ex_sent" by simp
  from claim_settles_once [OF ex_flying_reach c one rtranclp.rtrancl_refl, unfolded same, OF two] two show ?thesis by simp
qed

text \<open>C36: while nothing interferes and the receiver answers 200, one cycle delivers every event that is due, up
  to fifty of them (the batch size times the number of batches): it ends without an exception and each
  row that was pending and due, or in flight with its lease run out, is sent.\<close>

theorem quiet_cycle_delivers_all:
  assumes "ox_reach cfg st" "ds_enabled cfg" "base_url cfg \<noteq> []" "active_signing_secret cfg \<noteq> []"
    and "1 \<le> ds_claim_batch cfg" "length (due_rows cfg now st) \<le> ds_claim_batch cfg * max_batches (ds_claim_batch cfg)"
  shows "\<exists>st' vs. process_outbox cfg (replicate (max_batches (ds_claim_batch cfg)) (quiet now fin)) st = ((st', vs), True)
     \<and> list_all (\<lambda>r. sent_in st' (dr_id r)) (due_rows cfg now st)"
proof -
  obtain st' vs where
    "outbox_batches cfg (replicate (max_batches (ds_claim_batch cfg)) (quiet now fin)) st [] = ((st', vs), True)"
    "cleared_by cfg now st st'"
    using quiet_batches [OF ox_reach_inv [OF assms(1)] assms(5,6)] by blast
  then show ?thesis
    using assms(2-4) by (auto simp: process_outbox_def cleared_by_def list_all_iff due_rows_def)
qed

theorem quiet_cycle_delivers_all_witness:
  "\<exists>st' vs. process_outbox ex_ds (replicate 5 (quiet 7 9)) ex_queued = ((st', vs), True) \<and> sent_in st' 1"
proof -
  have "due_rows ex_ds 7 ex_queued = [ex_event_row ''pending'' None None None 0]" by code_simp
  moreover have "max_batches (ds_claim_batch ex_ds) = 5" by code_simp
  ultimately show ?thesis
    using quiet_cycle_delivers_all [OF ex_queued_reach, of ex_ds 7 9]
    by (simp add: ex_ds_def base_url_def active_signing_secret_def ex_event_row_def)
qed

text \<open>A response 429 whose \<open>Retry-After\<close> leads beyond the last date a \<open>datetime\<close> can hold ends the
  finalisation with an exception: nothing of the whole batch is written, the deliveries that
  succeeded included, while the retry budget of no row is touched.\<close>

theorem oversized_retry_after_undoes_batch:
  assumes "(c, Inr (Response 429 (Some h))) \<in> set outs" "h \<noteq> []" "py_int h = Some n" "0 < n"
    and "Suc (cl_attempts c) < ds_max_retries cfg" "max_datetime < clock c + seconds n"
  shows "finalize_all cfg clock outs rows = None"
  using assms(1)
proof (induction outs arbitrary: rows)
  case (Cons o1 outs)
  show ?case
  proof (cases "o1 = (c, Inr (Response 429 (Some h)))")
    case True
    have "finalize_one cfg (clock c) c (Inr (Response 429 (Some h))) rows = None"
      using assms(2-6) by (simp add: finalize_one_def send_webhook_def retry_delay_def Let_def not_le)
    then show ?thesis using True by simp
  next
    case False
    then have "finalize_all cfg clock outs rows' = None" for rows' using Cons by auto
    then show ?thesis by (cases o1) (auto split: option.split)
  qed
qed simp

theorem oversized_retry_after_undoes_batch_witness:
  "finalize_all ex_ds (\<lambda>_. 9) [(ex_claim, Inr (Response 200 None)), (ex_claim, Inr (Response 429 (Some ''1000000000000'')))] (ox_rows ex_flying) = None"
proof -
  have "py_int ''1000000000000'' = Some 1000000000000" by code_simp
  then show ?thesis
    by (intro oversized_retry_after_undoes_batch [of ex_claim "''1000000000000''" _ 1000000000000])
       (simp_all add: ex_claim_def ex_ds_def max_datetime_def seconds_def)
qed

end
