(* ===== verification/Spec2Isabelle.thy ===== *)
theory Spec2Isabelle
  imports ShiftTheorems AccountingTheorems AccountingReadings AccountingArithmetic WorkflowTheorems2 AccessCodeTheorems
    AccessIngestTheorems AccessEngineTheorems AccessReviewTheorems EdgeTheorems MaterialDialog DeliveryTheorems
begin

text \<open>
  A verification library for the housing-management system under \<open>src/\<close>: the request workflow
  of the Telegram bot and web API, the shifts of its staff, its materials warehouse and the delivery of
  its events to other systems (\<open>uk_management_bot\<close>), the vehicle access control (\<open>access_control\<close>), and the accounting of
  meters and readings (\<open>resource-accounting\<close>).  All are Python services over a relational database.
  A database is a record of tables, a table a list of rows in the order of insertion, and a service call, which the code
  runs as one transaction under a row or advisory lock, is one function from the database to the
  committed database and a result; a raised exception is a value of an error type and leaves the
  database as the code's rollback or commit leaves it.  What the code gets from outside, the
  clocks, \<open>uuid4\<close>, SHA-256, HMAC, \<open>uuid5\<close>, the environment and the validation of JSON bodies, is an
  argument.

  \<^bold>\<open>Shared.\<close>  \<open>Prelude\<close>: Python values and truthiness, \<open>UPDATE ... WHERE\<close> and \<open>SELECT\<close> on tables, the
  error monad, reachable states, and the interfaces \<open>preserved\<close> (a predicate kept by every step
  holds in every reachable state), \<open>monotone_steps\<close> (a preorder respected by every step is
  respected along every run) and \<open>evolving\<close> (a preorder respected by every step that starts in the
  invariant), which each component interprets on its own steps.  \<open>PyJson\<close>: the
  subset of JSON text the columns hold, its parser, and \<open>str(int)\<close>.

  \<^bold>\<open>Request workflow.\<close>
  \<^item> \<open>Specializations\<close> (\<open>constants/specializations.py\<close>, \<open>utils/specializations.py\<close>): the skill
    dictionary, the parser of the stored encodings, the matching of skills with requirements.
  \<^item> \<open>AuthHelpers\<close> (\<open>utils/auth_helpers.py\<close>, \<open>utils/shifts.py\<close>): roles and the on-shift predicate.
  \<^item> \<open>RequestTypes\<close>, \<open>RequestGuards\<close>, \<open>RequestSpecs\<close>, \<open>RequestPlanner\<close>
    (\<open>utils/request_workflow/*.py\<close>): statuses, snapshots and plans; guards and capabilities of the
    system principals; payload schemas and the action table; patches, domain operations, events,
    repeats, status resolution.
  \<^item> \<open>WebhookOutbox\<close> (\<open>services/webhook_sender.py\<close>, \<open>webhook_payloads.py\<close>): identities and the
    transactional insert of outgoing events.
  \<^item> \<open>WorkflowRunner\<close>, \<open>WorkflowRunnerAsync\<close> (\<open>services/workflow_runner.py\<close>): a command from the
    lock to the commit, for the bot and for the web API.
  \<^item> \<open>WorkflowPredicates\<close> (\<open>utils/workflow_predicates.py\<close>): the named predicates in their Python
    and SQL forms.
  \<^item> \<open>RunnerInvariants\<close>, \<open>WorkflowProps\<close>, \<open>WorkflowExamples\<close>, \<open>WorkflowTheorems\<close>,
    \<open>WorkflowTheorems2\<close>: the invariant of the database and its preservation by every command, the
    facts about single commands, the example databases, the properties.  They show that a request
    in progress has an executor, that the active assignment mirrors the request, that final
    requests stay final, that every command follows the status graph, that versions, audit rows
    and outgoing events count the changes, who may do what, and that the two runners agree.

  \<^bold>\<open>Shifts and their handover.\<close>  The staff and shift tables stand beside the request tables, so that the
  commands of the workflow and the calls of the shift services act on one database.
  \<^item> \<open>Shifts\<close> (\<open>services/shift_service.py\<close>, \<open>handlers/my_shifts/_units.py\<close>, \<open>api/shifts/router/shift_crud.py\<close>,
    \<open>service/lifecycle.py\<close>, \<open>executor_router.py\<close>): the tables, opening, editing, ending and deleting a
    shift, the overlap query, for the bot, the manager's dashboard and the executor's web client.
  \<^item> \<open>ShiftTransfers\<close> (\<open>services/shift_transfer_service.py\<close>, \<open>api/shifts/service/web_transfers.py\<close>,
    \<open>router/transfers.py\<close>, \<open>router/employees.py\<close>, \<open>utils/shift_scheduler.py\<close>, the executor change of
    \<open>services/assignment_service.py\<close>): the status machine of a transfer; asking for a handover, naming a
    receiver, accepting and declining; the manager's reassignment; the requests that move with the
    shift; the removal of an employee; the scheduler's expiry and clean-up.
  \<^item> \<open>Handover\<close>: what moving requests keeps of the workflow's invariant.  \<open>ShiftRuns\<close>: the calls
    (\<open>shift_op\<close>) and the step relation of the office: calls, workflow commands, new requests, requests
    planned into a shift, changes of staff and roster.  \<open>ShiftFacts\<close>, \<open>ShiftCalls\<close>: what each call changes,
    as one case rule.  \<open>OfficeInvariants\<close>: the invariants of requests, transfers and shifts, kept by
    every step.  \<open>ShiftBookings\<close>: who owns a shift after a call, and which calls book nobody twice.
  \<^item> \<open>ShiftExamples\<close>: a concrete office, and the cases in which the code departs from its intent;
    \<open>ShiftTheorems\<close>: requests stay consistent through handovers, an acceptance moves exactly the
    requests of the shift, a removed employee holds nothing, transfers go forward only, one open
    transfer per shift, a shift changes hands by consent, bookings stay apart, bot and web agree.

  \<^bold>\<open>Materials warehouse.\<close>
  \<^item> \<open>Warehouse\<close> (\<open>services/material_service/*.py\<close>, \<open>database/models/material.py\<close>): lots (receipts with
    what is left of them), issues and allocation lines; the parsing of quantities and prices, the
    first-in-first-out allocation, receipts, issues, reversals of both, adjustments, the catalogue,
    the stock reports.
  \<^item> \<open>WarehouseInvariant\<close>: the invariant and the four elementary writes that keep it.
    \<open>WarehouseRuns\<close>: the operations as sequences of such writes, the calls of the service and their
    step relation, the amount of money on a lot, the reference of the allocation on the number line.
  \<^item> \<open>WarehouseTheorems\<close>: the stock is what came in less what went out, the allocation is its
    reference, a shortage is refused exactly, an issue is reversed once, the journal only grows.
  \<^item> \<open>MaterialDialog\<close> (\<open>handlers/requests/materials.py\<close>, parts of \<open>services/request_service\<close>): the
    dialogue in which an executor takes materials for a request, as a function of the callback.

  \<^bold>\<open>Delivery of events.\<close>
  \<^item> \<open>OutboxDelivery\<close> (\<open>services/webhook_sender.py\<close>, \<open>services/outbox_retention.py\<close>): a worker claims due
    rows under a token with a lease, posts them, and writes the outcomes under the same token; retries,
    pauses, dead rows; the retention job.  The HTTP exchange is an argument.
  \<^item> \<open>DeliveryRuns\<close>: the step relation of any number of workers, whose claims and finalisations
    interleave and may never happen (a crash), with the retention job and new events, and its
    invariant.  \<open>DeliveryTheorems\<close>: a claim settles its row once, a settled row stays settled, no event
    is lost, the retry budget is kept, an undisturbed cycle delivers every due event.

  \<^bold>\<open>Resource accounting\<close> (\<open>resource-accounting/backend/app\<close>).
  \<^item> \<open>Decimals\<close>: Python's decimals in a context of 28 digits on rationals, \<open>quantize\<close>, and the rounding
    of a numeric column; the warehouse uses it too.
  \<^item> \<open>Accounting\<close> (\<open>models/*.py\<close>, \<open>services/readings.py\<close>): the tables, the baseline of a reading, its
    consumption, validation and anomalies, saving, correcting and recomputing.
  \<^item> \<open>AccountingApi\<close> (\<open>api/periods.py\<close>): roles, schemas, the months and their status flow, the handlers.
    \<open>AccountingRegistry\<close> (\<open>api/meters.py\<close>, \<open>api/objects.py\<close>): meters and the tree of objects.
    \<open>AccountingImport\<close> (\<open>services/imports.py\<close>, \<open>api/imports.py\<close>): preview and commit of a file's rows.
  \<^item> \<open>AccountingWrites\<close>: the invariant of the books and every elementary write with what the code has
    checked when it makes it, proved once per write; what another tenant sees, what a frozen month
    keeps.  \<open>AccountingRuns\<close>: every handler is a sequence of such writes of its account's tenant, and the
    calls and their step relation.  \<open>AccountingHistory\<close>: what a later state keeps of an earlier one.
  \<^item> \<open>AccountingExamples\<close>: a run on concrete books; \<open>AccountingTheorems\<close>, \<open>AccountingReadings\<close>,
    \<open>AccountingArithmetic\<close>: the history of a value is complete, closed months are frozen, tenants are
    separate, what an accepted reading guarantees, the registry is well formed, what a correction
    recomputes, the two baseline queries agree, the error of a consumption.

  \<^bold>\<open>Access control.\<close>
  \<^item> \<open>AccessDomain\<close> (\<open>domain/*.py\<close>): the tables and enumerations.
  \<^item> \<open>HashChain\<close> (\<open>services/hashchain.py\<close>), \<open>PlateNormalization\<close> (\<open>services/normalization.py\<close>),
    \<open>AccessRepos\<close> and \<open>AccessWrites\<close> (\<open>repositories/*.py\<close>, \<open>services/locks.py\<close>): canonical JSON and
    the chained journals, plates on code points, the queries and statements.
  \<^item> \<open>DecisionEngine\<close>, \<open>Ingestion\<close> (\<open>services/decision_engine.py\<close>, \<open>ingestion.py\<close>): the decision on an
    entry, and the processing of a camera event.
  \<^item> \<open>ReviewLifecycle\<close> (\<open>services/lifecycle.py\<close>, \<open>review_expiry.py\<close>, \<open>presence.py\<close>): the operator's
    resolution of a pending review, standalone openings, the expiry worker.
  \<^item> \<open>BarrierQueue\<close> (\<open>api/commands.py\<close>, \<open>services/barrier_worker.py\<close>): leases and acknowledgements.
  \<^item> \<open>GuestCodes\<close>, \<open>CodeLockout\<close> (\<open>services/one_time_codes.py\<close>, \<open>code_rate_limit.py\<close>): one-time codes;
    the memory and the Redis counter as two instances of one interface.
  \<^item> \<open>EdgeConsumer\<close> (\<open>edge/command_consumer.py\<close>, \<open>integrations/relay.py\<close>): the consumer of commands
    over an interface of stores with two instances, the dictionary and the file.
  \<^item> \<open>AccessSteps\<close>: every write the services make to the tables, with its guard, and the invariant,
    proved once per write.  \<open>AccessOps\<close>: every operation is a sequence of such writes.
    \<open>AccessRuns\<close>: the step relation of all operations and of administrators' changes, the
    invariant in every reachable state, what persists along a run.  \<open>AccessIngestFacts\<close>: what one
    ingestion stores and that it does not fail.
  \<^item> \<open>AccessExamples\<close>: an installation and a run on it; \<open>AccessStateTheorems\<close>,
    \<open>AccessIngestTheorems\<close>, \<open>AccessEngineTheorems\<close>, \<open>AccessReviewTheorems\<close>, \<open>AccessQueueTheorems\<close>,
    \<open>AccessCodeTheorems\<close>: the properties.  They show that an event is decided once and answered the
    same way ever after, that a call returns, that an entry is allowed only by a right in the
    registry, that a foreign zone or gate opens nothing, that a review is settled once and an
    overdue one never opens, that a command needs a granted decision, is leased at most once and
    reaches the relay at most once, that passes and codes are used up exactly, that failures lock
    a key out, and that the journals are append-only and betray tampering.

  \<^bold>\<open>The edge over HTTP.\<close>
  \<^item> \<open>DeviceAuth\<close> (\<open>services/device_auth.py\<close>): credentials, the signed text, the nonce stores, the body
    limit, the allowlist and \<open>authenticate_edge\<close>; \<open>SignedText\<close>: UTF-8 and the lines of the signed text
    are injective; \<open>NonceStores\<close>: the two stores and the process's choice as instances of the
    interface \<open>replay_guard\<close>.
  \<^item> \<open>EdgeEndpoints\<close> (\<open>api/camera_events.py\<close>, \<open>api/edge.py\<close>, the handlers of \<open>api/commands.py\<close>): events,
    polls, acknowledgements, heartbeats, photos and deferred events around the services.
  \<^item> \<open>DeviceTheorems\<close>, \<open>EdgeTheorems\<close>: a signed request is accepted, an accepted one is authentic and
    is not accepted again but for the last instant of its window, a refused one spends no nonce,
    the signature covers the request, the body is read whole or refused; every call of an endpoint
    is a sequence of steps of the services, made by an authenticated controller on its own rows.

  The components meet below: the camera's event becomes a decision, the decision a command in the
  queue, the command a call of the relay.

  \<^bold>\<open>Bounds.\<close>  No operation of the model uses fuel: loops are recursion over the rows or the attempts
  given.  The long poll takes the list of its attempts.  \<open>int\<close> refuses more than 4300 digits, a body
  is at most 10 MiB, bytes are 8-bit words.  Decimals are rationals: the accounting rounds every
  operation to the 28 digits of Python's context, the warehouse ends in \<open>Unhandled\<close> where \<open>quantize\<close> would
  exceed them; a value too wide for its column is an uncaught exception in both.  An instant beyond the year 9999 is an exception where the code adds to one.  Integers are unbounded as in Python;
  columns of 32 bits are not checked.  Instants are microseconds, UUIDs natural numbers, texts
  from users lists of code points; upper-casing covers ASCII, Latin-1 and Cyrillic letters.

  \<^bold>\<open>Not modelled.\<close>  Foreign keys; concurrency inside a transaction (the locks serialise the calls that
  share a key, and the unique indexes catch the rest); a failing disk under the edge's file and a
  crash between the relay's answer and the write of the file; metrics, logging, live events and
  notifications after the commit.  Of the warehouse: the listing of the journal, the open purchase
  requests in the reports, the race of two renamings.  Handlers other than the materials dialogue,
  keyboards, web routers, notification texts, the file service, the front end, migrations and scripts
  are outside; of the resource accounting: sessions and tickets, the catalogue of providers, types and
  tags (tags are given, providers and types unchecked references), exports, analytics, the reading of
  CSV and XLSX files, digits outside ASCII, and calls that interleave (no row is locked; a call is one
  step).  The signed offline snapshot, the residents' and administrators'
  operations, dispatch and work reports are not modelled (an administrator's change of the registry is
  one arbitrary step that respects the constraints on passes).  Of the shifts: templates, the planner
  and the automatic assignment, each an arbitrary change of the roster or a request planned into a
  shift; listings and statistics; the advisory locks of the web, which make its check and write one
  step, and the bot's lack of them.
\<close>

section \<open>From the camera to the relay\<close>



end
